(* ===== verification/Prelude.thy ===== *)
theory Prelude
  imports Main "HOL-Library.Sublist"
begin

text \<open>
  Shared vocabulary of the development: the types that stand for machine values, results with
  errors as values, the state-and-error sequencing used by every stateful operation, tables of
  rows, and the byte encodings the hash preimages are built from.

  A Rust \<open>String\<close> or \<open>&[u8]\<close> is a \<^typ>\<open>string\<close>: a HOL \<^typ>\<open>char\<close> is one byte, so
  \<open>as_bytes\<close> is the identity and \<open>len()\<close> is \<^const>\<open>length\<close>. A \<open>u64\<close> is a \<^typ>\<open>nat\<close>, with the
  width written out where a cast or an overflow can happen. A \<open>DateTime<Utc>\<close> is an \<^typ>\<open>int\<close>.
\<close>

named_theorems sm_simps \<open>unfolding of the state-and-error sequencing\<close>
named_theorems tbl_simps \<open>rewrite rules of tables of rows\<close>
named_theorems enc_dest \<open>unique decomposition of encoded byte strings\<close>

type_synonym byte = char
type_synonym bytes = "char list"
type_synonym time = int
type_synonym uuid = nat

section \<open>Results\<close>

definition and_then :: "'e + 'a \<Rightarrow> ('a \<Rightarrow> 'e + 'b) \<Rightarrow> 'e + 'b" where
  "and_then r f = (case r of Inl e \<Rightarrow> Inl e | Inr x \<Rightarrow> f x)"

definition ok_or :: "'e \<Rightarrow> 'a option \<Rightarrow> 'e + 'a" where
  "ok_or e x = (case x of None \<Rightarrow> Inl e | Some y \<Rightarrow> Inr y)"

definition is_ok :: "'e + 'a \<Rightarrow> bool" where
  "is_ok r = (case r of Inl _ \<Rightarrow> False | Inr _ \<Rightarrow> True)"

fun map_results :: "('a \<Rightarrow> 'e + 'b) \<Rightarrow> 'a list \<Rightarrow> 'e + 'b list" where
  "map_results f [] = Inr []"
| "map_results f (x # xs) =
     and_then (f x) (\<lambda>y. and_then (map_results f xs) (\<lambda>ys. Inr (y # ys)))"

lemma and_then_simps [simp]:
  "and_then (Inl e) f = Inl e"
  "and_then (Inr x) f = f x"
  by (simp_all add: and_then_def)

lemma and_then_Inr_iff: "and_then r f = Inr y \<longleftrightarrow> (\<exists>x. r = Inr x \<and> f x = Inr y)"
  by (cases r) auto

lemma ok_or_simps [simp]:
  "ok_or e None = Inl e"
  "ok_or e (Some x) = Inr x"
  by (simp_all add: ok_or_def)

lemma ok_or_Inr_iff [simp]: "ok_or e x = Inr y \<longleftrightarrow> x = Some y"
  by (cases x) auto

lemma is_ok_simps [simp]: "is_ok (Inl e) = False" "is_ok (Inr x) = True"
  by (simp_all add: is_ok_def)

lemma is_ok_iff: "is_ok r \<longleftrightarrow> (\<exists>x. r = Inr x)"
  by (cases r) auto

lemma map_results_all_ok: "(\<And>x. x \<in> set xs \<Longrightarrow> f x = Inr (g x)) \<Longrightarrow> map_results f xs = Inr (map g xs)"
  by (induction xs) auto

section \<open>State passing with errors\<close>

text \<open>
  An operation of the runtime reads and changes the state and either returns or fails. A failure
  keeps the changes made before it: the state component is returned on both branches, exactly as
  the \<open>?\<close> operator leaves the effects of the calls before it in place.
\<close>

type_synonym ('e, 's, 'a) sm = "'s \<Rightarrow> ('e + 'a) \<times> 's"

definition sret :: "'a \<Rightarrow> ('e, 's, 'a) sm" where
  "sret x s = (Inr x, s)"

definition sfail :: "'e \<Rightarrow> ('e, 's, 'a) sm" where
  "sfail e s = (Inl e, s)"

definition sbind :: "('e, 's, 'a) sm \<Rightarrow> ('a \<Rightarrow> ('e, 's, 'b) sm) \<Rightarrow> ('e, 's, 'b) sm" where
  "sbind m f s = (case m s of (Inl e, s') \<Rightarrow> (Inl e, s') | (Inr x, s') \<Rightarrow> f x s')"

definition slift :: "('e + 'a) \<Rightarrow> ('e, 's, 'a) sm" where
  "slift r s = (r, s)"

definition sgets :: "('s \<Rightarrow> 'e + 'a) \<Rightarrow> ('e, 's, 'a) sm" where
  "sgets f s = (f s, s)"

definition supd :: "('s \<Rightarrow> 's) \<Rightarrow> ('e, 's, unit) sm" where
  "supd f s = (Inr (), f s)"

definition signore :: "('e, 's, 'a) sm \<Rightarrow> ('e, 's, unit) sm" where
  "signore m s = (Inr (), snd (m s))"

lemma sm_run [sm_simps]:
  "sret x s = (Inr x, s)"
  "sfail e s = (Inl e, s)"
  "slift r s = (r, s)"
  "sgets f s = (f s, s)"
  "supd g s = (Inr (), g s)"
  "signore m s = (Inr (), snd (m s))"
  by (simp_all add: sret_def sfail_def slift_def sgets_def supd_def signore_def)

lemma sbind_run [sm_simps]:
  "sbind m f s = (case m s of (Inl e, s') \<Rightarrow> (Inl e, s') | (Inr x, s') \<Rightarrow> f x s')"
  by (rule sbind_def)

lemma sbind_Inr_iff:
  "sbind m f s = (Inr y, s'') \<longleftrightarrow> (\<exists>x s'. m s = (Inr x, s') \<and> f x s' = (Inr y, s''))"
  by (auto simp: sbind_def split: prod.splits sum.splits)

section \<open>Tables\<close>

text \<open>
  A database table is the list of its rows in rowid order. A key function selects the primary
  key, and the statements of the stores become the operations below: \<open>SELECT ... WHERE key = ?\<close>,
  \<open>UPDATE ... WHERE\<close>, \<open>INSERT ... ON CONFLICT(key) DO UPDATE\<close> and \<open>DELETE ... WHERE\<close>.
\<close>

definition tbl_get :: "('r \<Rightarrow> 'k) \<Rightarrow> 'k \<Rightarrow> 'r list \<Rightarrow> 'r option" where
  "tbl_get key k t = find (\<lambda>r. key r = k) t"

definition tbl_update :: "('r \<Rightarrow> bool) \<Rightarrow> ('r \<Rightarrow> 'r) \<Rightarrow> 'r list \<Rightarrow> 'r list" where
  "tbl_update P f t = map (\<lambda>r. if P r then f r else r) t"

definition tbl_delete :: "('r \<Rightarrow> bool) \<Rightarrow> 'r list \<Rightarrow> 'r list" where
  "tbl_delete P t = filter (\<lambda>r. \<not> P r) t"

definition tbl_upsert :: "('r \<Rightarrow> 'k) \<Rightarrow> ('r \<Rightarrow> 'r \<Rightarrow> 'r) \<Rightarrow> 'r \<Rightarrow> 'r list \<Rightarrow> 'r list" where
  "tbl_upsert key merge new t =
     (if tbl_get key (key new) t = None then t @ [new]
      else tbl_update (\<lambda>r. key r = key new) (\<lambda>old. merge old new) t)"

lemma tbl_get_simps [simp]:
  "tbl_get key k [] = None"
  "tbl_get key k (r # t) = (if key r = k then Some r else tbl_get key k t)"
  by (simp_all add: tbl_get_def)

lemma tbl_get_append [tbl_simps]:
  "tbl_get key k (t @ u) = (case tbl_get key k t of None \<Rightarrow> tbl_get key k u | Some r \<Rightarrow> Some r)"
  by (induction t) auto

lemma tbl_get_None_iff: "tbl_get key k t = None \<longleftrightarrow> k \<notin> key ` set t"
  by (induction t) auto

lemma tbl_get_NoneD: "tbl_get key k t = None \<Longrightarrow> r \<in> set t \<Longrightarrow> key r \<noteq> k"
  by (induction t) (auto split: if_splits)

lemma tbl_get_SomeD: "tbl_get key k t = Some r \<Longrightarrow> r \<in> set t \<and> key r = k"
  by (induction t) (auto split: if_splits)

lemma tbl_get_distinct:
  "distinct (map key t) \<Longrightarrow> r \<in> set t \<Longrightarrow> tbl_get key (key r) t = Some r"
  by (induction t) (auto simp: image_iff)

lemma tbl_get_map:
  "(\<And>r. key (f r) = key r) \<Longrightarrow> tbl_get key k (map f t) = map_option f (tbl_get key k t)"
  by (induction t) auto

lemma tbl_get_update [tbl_simps]:
  "(\<And>r. P r \<Longrightarrow> key (f r) = key r) \<Longrightarrow>
     tbl_get key k (tbl_update P f t) = map_option (\<lambda>r. if P r then f r else r) (tbl_get key k t)"
  by (induction t) (auto simp: tbl_update_def)

lemma map_key_update:
  "(\<And>r. P r \<Longrightarrow> key (f r) = key r) \<Longrightarrow> map key (tbl_update P f t) = map key t"
  by (induction t) (auto simp: tbl_update_def)

lemma tbl_get_delete:
  "tbl_get key k (tbl_delete P t) = tbl_get key k (filter (\<lambda>r. \<not> P r) t)"
  by (simp add: tbl_delete_def)

lemma set_tbl_delete: "set (tbl_delete P t) = {r \<in> set t. \<not> P r}"
  by (auto simp: tbl_delete_def)

lemma distinct_map_delete: "distinct (map key t) \<Longrightarrow> distinct (map key (tbl_delete P t))"
  by (induction t) (auto simp: tbl_delete_def)

lemma length_tbl_update [simp]: "length (tbl_update P f t) = length t"
  by (simp add: tbl_update_def)

text \<open>
  The contract of a table that is written by upserts: the merge of the conflict clause keeps the
  primary key. Everything the clients use (unique keys, read-your-write, no other row touched)
  follows once, for every such table.
\<close>

locale upsert_table =
  fixes key :: "'r \<Rightarrow> 'k"
    and merge :: "'r \<Rightarrow> 'r \<Rightarrow> 'r"
  assumes merge_key: "key old = key new \<Longrightarrow> key (merge old new) = key new"
begin

lemma merge_key': "key r = key new \<Longrightarrow> key (merge r new) = key r"
  by (simp add: merge_key)

lemmas get_merge = tbl_get_update [of "\<lambda>r. key r = key new" key "\<lambda>old. merge old new" for new, OF merge_key']

lemmas keys_merge = map_key_update [of "\<lambda>r. key r = key new" key "\<lambda>old. merge old new" for new, OF merge_key']

lemma get_upsert_same:
  "tbl_get key (key new) (tbl_upsert key merge new t) =
     Some (case tbl_get key (key new) t of None \<Rightarrow> new | Some old \<Rightarrow> merge old new)"
proof (cases "tbl_get key (key new) t")
  case None
  then show ?thesis by (simp add: tbl_upsert_def tbl_get_append)
next
  case (Some old)
  then have "key old = key new" by (auto dest: tbl_get_SomeD)
  with Some show ?thesis by (simp add: tbl_upsert_def get_merge)
qed

lemma get_upsert_other:
  assumes "k \<noteq> key new"
  shows "tbl_get key k (tbl_upsert key merge new t) = tbl_get key k t"
proof (cases "tbl_get key (key new) t")
  case None
  with assms show ?thesis by (auto simp: tbl_upsert_def tbl_get_append split: option.splits)
next
  case (Some old)
  have "map_option (\<lambda>r. if key r = key new then merge r new else r) (tbl_get key k t)
      = tbl_get key k t"
    using assms by (cases "tbl_get key k t") (auto dest: tbl_get_SomeD)
  with Some show ?thesis by (simp add: tbl_upsert_def get_merge)
qed

lemma distinct_upsert:
  assumes "distinct (map key t)"
  shows "distinct (map key (tbl_upsert key merge new t))"
proof (cases "tbl_get key (key new) t")
  case None
  with assms show ?thesis by (auto simp: tbl_upsert_def tbl_get_None_iff)
next
  case (Some old)
  then have "map key (tbl_upsert key merge new t) = map key t"
    by (simp add: tbl_upsert_def keys_merge)
  with assms show ?thesis by (simp only:)
qed

lemma keys_upsert: "set (map key (tbl_upsert key merge new t)) = insert (key new) (set (map key t))"
proof (cases "tbl_get key (key new) t")
  case None
  then show ?thesis by (simp add: tbl_upsert_def)
next
  case (Some old)
  then have "map key (tbl_upsert key merge new t) = map key t"
    by (simp add: tbl_upsert_def keys_merge)
  moreover have "key new \<in> set (map key t)" using tbl_get_SomeD [OF Some] by (metis imageI list.set_map)
  ultimately show ?thesis by (simp only: insert_absorb)
qed

end

section \<open>Strings and byte encodings\<close>

definition starts_with :: "string \<Rightarrow> string \<Rightarrow> bool" where
  "starts_with p s = (take (length p) s = p)"

definition strip_prefix :: "string \<Rightarrow> string \<Rightarrow> string option" where
  "strip_prefix p s = (if starts_with p s then Some (drop (length p) s) else None)"

fun find_map :: "('a \<Rightarrow> 'b option) \<Rightarrow> 'a list \<Rightarrow> 'b option" where
  "find_map f [] = None"
| "find_map f (x # xs) = (case f x of None \<Rightarrow> find_map f xs | Some y \<Rightarrow> Some y)"

fun join_with :: "string \<Rightarrow> string list \<Rightarrow> string" where
  "join_with sep [] = []"
| "join_with sep [x] = x"
| "join_with sep (x # y # ys) = x @ sep @ join_with sep (y # ys)"

fun show_nat :: "nat \<Rightarrow> string" where
  "show_nat n = (if n < 10 then [char_of (48 + n)] else show_nat (n div 10) @ [char_of (48 + n mod 10)])"

declare show_nat.simps [simp del]

definition hex_digit :: "nat \<Rightarrow> char" where
  "hex_digit n = (if n < 10 then char_of (48 + n) else char_of (87 + n))"

definition hex :: "bytes \<Rightarrow> string" where
  "hex bs = concat (map (\<lambda>b. [hex_digit (of_char b div 16), hex_digit (of_char b mod 16)]) bs)"

definition u64_be :: "nat \<Rightarrow> bytes" where
  "u64_be n = map (\<lambda>i. char_of (n div 256 ^ i)) [7, 6, 5, 4, 3, 2, 1, 0]"

definition lenp :: "bytes \<Rightarrow> bytes" where
  "lenp v = u64_be (length v) @ v"

definition fits :: "bytes \<Rightarrow> bool" where
  "fits v = (length v < 2 ^ 64)"

lemma strip_prefix_append [simp]: "strip_prefix p (p @ s) = Some s"
  by (simp add: strip_prefix_def starts_with_def)

lemma starts_with_append [simp]: "starts_with p (p @ s)"
  by (simp add: starts_with_def)

lemma find_map_append:
  "find_map f (xs @ ys) = (case find_map f xs of None \<Rightarrow> find_map f ys | Some y \<Rightarrow> Some y)"
  by (induction xs) (auto split: option.splits)

lemma find_map_None_iff: "find_map f xs = None \<longleftrightarrow> (\<forall>x \<in> set xs. f x = None)"
  by (induction xs) (auto split: option.splits)

lemma find_map_Some: "find_map f xs = Some y \<Longrightarrow> \<exists>x \<in> set xs. f x = Some y"
  by (induction xs) (auto split: option.splits)

lemma length_u64_be [simp]: "length (u64_be n) = 8"
  by (simp add: u64_be_def)

lemma char_of_eq_imp_mod: "char_of (m::nat) = char_of n \<Longrightarrow> m mod 256 = n mod 256"
  by (metis of_char_of)

lemma mod_eq_if_digits_eq:
  fixes m n :: nat
  assumes "\<And>i. i < k \<Longrightarrow> (m div 256 ^ i) mod 256 = (n div 256 ^ i) mod 256"
  shows "m mod 256 ^ k = n mod 256 ^ k"
  using assms
proof (induction k)
  case 0
  show ?case by simp
next
  case (Suc k)
  have split: "x mod 256 ^ Suc k = 256 ^ k * ((x div 256 ^ k) mod 256) + x mod 256 ^ k" for x :: nat
    using mod_mult2_eq [of x "256 ^ k" 256] by (simp add: mult.commute)
  from Suc.IH Suc.prems have "m mod 256 ^ k = n mod 256 ^ k" by simp
  with Suc.prems [of k] show ?case by (simp only: split)
qed

lemma u64_be_eq_digits:
  assumes "u64_be m = u64_be n" and "i \<in> set [7, 6, 5, 4, 3, 2, 1, 0]"
  shows "(m div 256 ^ i) mod 256 = (n div 256 ^ i) mod 256"
  using assms by (intro char_of_eq_imp_mod) (simp only: u64_be_def map_eq_conv)

lemma u64_be_inject:
  assumes "u64_be m = u64_be n" and "m < 2 ^ 64" and "n < 2 ^ 64"
  shows "m = n"
proof -
  have "(m div 256 ^ i) mod 256 = (n div 256 ^ i) mod 256" if "i < 8" for i
    by (rule u64_be_eq_digits [OF assms(1)]) (use that in auto)
  then have "m mod 256 ^ 8 = n mod 256 ^ 8" by (rule mod_eq_if_digits_eq)
  with assms(2,3) show ?thesis by simp
qed

lemma lenp_append_inject [enc_dest]:
  assumes "lenp v @ r = lenp w @ r'" and "fits v" and "fits w"
  shows "v = w \<and> r = r'"
proof -
  from assms(1) have "u64_be (length v) = u64_be (length w)" and eq: "v @ r = w @ r'"
    by (auto simp: lenp_def append_eq_append_conv)
  with assms(2,3) have "length v = length w"
    by (auto simp: fits_def intro: u64_be_inject)
  with eq show ?thesis by simp
qed

lemma lenp_inject [enc_dest]: "lenp v = lenp w \<Longrightarrow> fits v \<Longrightarrow> fits w \<Longrightarrow> v = w"
  using lenp_append_inject [of v "[]" w "[]"] by simp

section \<open>Trimming and splitting\<close>

text \<open>
  \<open>str::trim\<close> removes Unicode white space at both ends. On UTF-8 bytes the white space characters
  are the byte sequences listed here (U+0009 to U+000D, U+0020, U+0085, U+00A0, U+1680, U+2000 to
  U+200A, U+2028, U+2029, U+202F, U+205F, U+3000).
\<close>

definition whitespace :: "bytes list" where
  "whitespace =
     [[CHR 0x20], [CHR 0x09], [CHR 0x0A], [CHR 0x0B], [CHR 0x0C], [CHR 0x0D],
      [CHR 0xC2, CHR 0x85], [CHR 0xC2, CHR 0xA0], [CHR 0xE1, CHR 0x9A, CHR 0x80]]
     @ map (\<lambda>c. [CHR 0xE2, CHR 0x80, c])
        [CHR 0x80, CHR 0x81, CHR 0x82, CHR 0x83, CHR 0x84, CHR 0x85, CHR 0x86, CHR 0x87, CHR 0x88,
         CHR 0x89, CHR 0x8A, CHR 0xA8, CHR 0xA9, CHR 0xAF]
     @ [[CHR 0xE2, CHR 0x81, CHR 0x9F], [CHR 0xE3, CHR 0x80, CHR 0x80]]"

definition strip_any :: "bytes list \<Rightarrow> string \<Rightarrow> string option" where
  "strip_any ws s = find_map (\<lambda>w. if w = [] then None else strip_prefix w s) ws"

lemma strip_any_shorter: "strip_any ws s = Some r \<Longrightarrow> length r < length s"
proof (induction ws)
  case Nil
  then show ?case by (simp add: strip_any_def)
next
  case (Cons w ws)
  show ?case
  proof (cases "w \<noteq> [] \<and> starts_with w s")
    case True
    then have "length w \<le> length s" "0 < length w"
      by (auto simp: starts_with_def dest: arg_cong [where f = length])
    then have "length s - length w < length s" by linarith
    with True Cons.prems show ?thesis
      by (auto simp: strip_any_def strip_prefix_def)
  next
    case False
    with Cons show ?thesis by (auto simp: strip_any_def strip_prefix_def split: if_splits)
  qed
qed

function strip_all :: "bytes list \<Rightarrow> string \<Rightarrow> string" where
  "strip_all ws s = (case strip_any ws s of None \<Rightarrow> s | Some r \<Rightarrow> strip_all ws r)"
  by pat_completeness auto
termination
  by (relation "measure (\<lambda>(ws, s). length s)") (auto simp: strip_any_shorter)

declare strip_all.simps [simp del]

definition trim :: "string \<Rightarrow> string" where
  "trim s = rev (strip_all (map rev whitespace) (rev (strip_all whitespace s)))"

definition split_once :: "char \<Rightarrow> string \<Rightarrow> (string \<times> string) option" where
  "split_once c s =
     (case dropWhile (\<lambda>x. x \<noteq> c) s of [] \<Rightarrow> None | _ # r \<Rightarrow> Some (takeWhile (\<lambda>x. x \<noteq> c) s, r))"

definition rsplit_once :: "char \<Rightarrow> string \<Rightarrow> (string \<times> string) option" where
  "rsplit_once c s = map_option (\<lambda>(a, b). (rev b, rev a)) (split_once c (rev s))"

lemma split_once_append: "c \<notin> set a \<Longrightarrow> split_once c (a @ c # b) = Some (a, b)"
  by (induction a) (auto simp: split_once_def split: list.splits)

lemma rsplit_once_append: "c \<notin> set b \<Longrightarrow> rsplit_once c (a @ c # b) = Some (a, b)"
  using split_once_append [of c "rev b" "rev a"] by (simp add: rsplit_once_def)

section \<open>Characters of UTF-8 text\<close>

text \<open>
  A byte that starts a character: not of the form \<open>10xxxxxx\<close>. \<open>chars().take(n)\<close> keeps the bytes before
  the \<open>n+1\<close>st of them, and \<open>is_char_boundary(i)\<close> holds at the ends and at the start of a character.
\<close>

definition starts_char :: "byte \<Rightarrow> bool" where
  "starts_char b = (let n = of_char b :: nat in n < 128 \<or> 192 \<le> n)"

fun chars_take :: "nat \<Rightarrow> string \<Rightarrow> string" where
  "chars_take n [] = []"
| "chars_take n (b # bs) =
     (if starts_char b then (case n of 0 \<Rightarrow> [] | Suc m \<Rightarrow> b # chars_take m bs)
      else b # chars_take n bs)"

definition char_count :: "string \<Rightarrow> nat" where
  "char_count s = length (filter starts_char s)"

definition is_char_boundary :: "nat \<Rightarrow> string \<Rightarrow> bool" where
  "is_char_boundary i s = (i = 0 \<or> i = length s \<or> i < length s \<and> starts_char (s ! i))"

lemma chars_take_prefix: "prefix (chars_take n s) s"
  by (induction n s rule: chars_take.induct) (auto split: nat.split)

lemma char_count_chars_take: "char_count (chars_take n s) \<le> n"
  by (induction n s rule: chars_take.induct) (auto simp: char_count_def split: nat.split)

section \<open>Updating the last match\<close>

text \<open>\<open>iter_mut().rev().find(P)\<close> followed by an assignment through the reference.\<close>

fun update_first :: "('a \<Rightarrow> bool) \<Rightarrow> ('a \<Rightarrow> 'a) \<Rightarrow> 'a list \<Rightarrow> 'a list option" where
  "update_first P f [] = None"
| "update_first P f (x # xs) =
     (if P x then Some (f x # xs) else map_option ((#) x) (update_first P f xs))"

definition update_last :: "('a \<Rightarrow> bool) \<Rightarrow> ('a \<Rightarrow> 'a) \<Rightarrow> 'a list \<Rightarrow> 'a list option" where
  "update_last P f xs = map_option rev (update_first P f (rev xs))"

lemma update_first_None: "update_first P f xs = None \<longleftrightarrow> (\<forall>x \<in> set xs. \<not> P x)"
  by (induction xs) auto

lemma update_first_SomeD:
  "update_first P f xs = Some ys \<Longrightarrow> \<exists>a x b. xs = a @ x # b \<and> ys = a @ f x # b \<and> P x \<and> (\<forall>y \<in> set a. \<not> P y)"
proof (induction xs arbitrary: ys)
  case (Cons z xs)
  show ?case
  proof (cases "P z")
    case True
    with Cons.prems show ?thesis by (intro exI [of _ "[]"]) auto
  next
    case False
    with Cons.prems obtain ys' where "update_first P f xs = Some ys'" "ys = z # ys'" by auto
    with Cons.IH obtain a x b where "xs = a @ x # b" "ys' = a @ f x # b" "P x" "\<forall>y \<in> set a. \<not> P y"
      by blast
    with False \<open>ys = z # ys'\<close> show ?thesis by (intro exI [of _ "z # a"] exI [of _ x] exI [of _ b]) auto
  qed
qed simp

lemma update_last_None: "update_last P f xs = None \<longleftrightarrow> (\<forall>x \<in> set xs. \<not> P x)"
  by (simp add: update_last_def update_first_None)

lemma update_last_SomeD:
  assumes "update_last P f xs = Some ys"
  shows "\<exists>a x b. xs = a @ x # b \<and> ys = a @ f x # b \<and> P x \<and> (\<forall>y \<in> set b. \<not> P y)"
proof -
  from assms obtain a x b where *: "rev xs = a @ x # b" "rev ys = a @ f x # b" "P x" "\<forall>y \<in> set a. \<not> P y"
    by (auto simp: update_last_def dest!: update_first_SomeD)
  then have "xs = rev b @ x # rev a" "ys = rev b @ f x # rev a"
    by (metis append.assoc append_Cons append_Nil rev.simps(2) rev_append rev_rev_ident)+
  with *(3,4) show ?thesis by (intro exI [of _ "rev b"] exI [of _ x] exI [of _ "rev a"]) simp
qed

end
