(* ===== verification/Errors.thy ===== *)
theory Errors
  imports Prelude
begin

text \<open>
  The error type every fallible operation returns (\<open>src/error.rs\<close>) and the classification that
  decides whether a connector failure may be retried, together with the JSON values and the
  external functions (hashing, serialisation, identifiers, time formatting) that the rest of the
  development takes as a parameter.
\<close>

section \<open>Errors\<close>

datatype ConnectorClass =
    Auth | RateLimit | Timeout | Unavailable | InvalidQuery | MalformedData | Policy

datatype OpsCodexError =
    Model string
  | Tool string
  | Policy string
  | Storage string
  | Protocol string
  | Cancelled
  | MaxStepsExceeded
  | TurnAlreadyRunning
  | NeedsReconciliation string
  | NotFound string
  | Timeout string
  | Connector ConnectorClass string

type_synonym 'a result = "OpsCodexError + 'a"
type_synonym ('s, 'a) op = "(OpsCodexError, 's, 'a) sm"

fun class_as_str :: "ConnectorClass \<Rightarrow> string" where
  "class_as_str ConnectorClass.Auth = ''auth''"
| "class_as_str ConnectorClass.RateLimit = ''rate_limit''"
| "class_as_str ConnectorClass.Timeout = ''timeout''"
| "class_as_str ConnectorClass.Unavailable = ''unavailable''"
| "class_as_str ConnectorClass.InvalidQuery = ''invalid_query''"
| "class_as_str ConnectorClass.MalformedData = ''malformed_data''"
| "class_as_str ConnectorClass.Policy = ''policy''"

fun class_retryable :: "ConnectorClass \<Rightarrow> bool" where
  "class_retryable c =
     (c \<in> {ConnectorClass.RateLimit, ConnectorClass.Timeout, ConnectorClass.Unavailable})"

fun error_to_string :: "OpsCodexError \<Rightarrow> string" where
  "error_to_string (OpsCodexError.Model m) = ''model error: '' @ m"
| "error_to_string (OpsCodexError.Tool m) = ''tool error: '' @ m"
| "error_to_string (OpsCodexError.Policy m) = ''policy error: '' @ m"
| "error_to_string (OpsCodexError.Storage m) = ''storage error: '' @ m"
| "error_to_string (OpsCodexError.Protocol m) = ''protocol error: '' @ m"
| "error_to_string OpsCodexError.Cancelled = ''turn cancelled''"
| "error_to_string OpsCodexError.MaxStepsExceeded = ''maximum agent steps exceeded''"
| "error_to_string OpsCodexError.TurnAlreadyRunning = ''thread already has an active turn''"
| "error_to_string (OpsCodexError.NeedsReconciliation m) = ''needs reconciliation: '' @ m"
| "error_to_string (OpsCodexError.NotFound m) = ''resource not found: '' @ m"
| "error_to_string (OpsCodexError.Timeout m) = ''operation timed out: '' @ m"
| "error_to_string (OpsCodexError.Connector c m) = class_as_str c @ '': '' @ m"

fun connector_class :: "OpsCodexError \<Rightarrow> ConnectorClass" where
  "connector_class (OpsCodexError.Timeout _) = ConnectorClass.Timeout"
| "connector_class (OpsCodexError.Policy _) = ConnectorClass.Policy"
| "connector_class (OpsCodexError.Connector c _) = c"
| "connector_class OpsCodexError.Cancelled = ConnectorClass.Unavailable"
| "connector_class _ = ConnectorClass.Unavailable"

definition error_retryable :: "OpsCodexError \<Rightarrow> bool" where
  "error_retryable e = class_retryable (connector_class e)"

section \<open>JSON values\<close>

text \<open>
  A \<open>serde_json::Value\<close>. The entries of an object are listed in the iteration order of the map
  behind it (sorted by key), which is also the order the literals below are written in. Integers
  are unbounded here and the accessor checks the range; other numbers are opaque bit patterns.
\<close>

datatype json =
    JNull
  | JBool bool
  | JNum int
  | JFloat nat
  | JStr string
  | JArr "json list"
  | JObj "(string \<times> json) list"

fun json_get :: "string \<Rightarrow> json \<Rightarrow> json option" where
  "json_get k (JObj kvs) = map_of kvs k"
| "json_get k _ = None"

fun json_as_str :: "json \<Rightarrow> string option" where
  "json_as_str (JStr s) = Some s"
| "json_as_str _ = None"

fun json_as_u64 :: "json \<Rightarrow> nat option" where
  "json_as_u64 (JNum i) = (if 0 \<le> i \<and> i < 2 ^ 64 then Some (nat i) else None)"
| "json_as_u64 _ = None"

fun json_is_object :: "json \<Rightarrow> bool" where
  "json_is_object (JObj _) = True"
| "json_is_object _ = False"

fun json_pointer :: "string list \<Rightarrow> json \<Rightarrow> json option" where
  "json_pointer [] j = Some j"
| "json_pointer (k # ks) j = Option.bind (json_get k j) (json_pointer ks)"

definition json_get_str :: "string \<Rightarrow> json \<Rightarrow> string option" where
  "json_get_str k j = Option.bind (json_get k j) json_as_str"

definition str_or :: "string \<Rightarrow> string option \<Rightarrow> string" where
  "str_or d x = (case x of None \<Rightarrow> d | Some s \<Rightarrow> s)"

definition opt_str :: "string option \<Rightarrow> json" where
  "opt_str x = (case x of None \<Rightarrow> JNull | Some s \<Rightarrow> JStr s)"

lemma str_or_simps [simp]: "str_or d None = d" "str_or d (Some s) = s"
  by (simp_all add: str_or_def)

lemma json_as_u64_bound: "json_as_u64 j = Some n \<Longrightarrow> n < 2 ^ 64"
  by (cases j) (auto split: if_splits)

section \<open>External functions\<close>

text \<open>
  Code outside the repository, as one record of functions that the definitions using it take as an
  argument: SHA-256, the JSON serialiser, the RFC 3339 and the display formatter of times, the textual form of identifiers
  and the name-based identifier constructor. Hypotheses about them are stated where they are used.
\<close>

record ext =
  sha256 :: "bytes \<Rightarrow> bytes"
  json_bytes :: "json \<Rightarrow> bytes"
  rfc3339 :: "time \<Rightarrow> string"
  time_display :: "time \<Rightarrow> string"
  uuid_string :: "uuid \<Rightarrow> string"
  uuid_v5 :: "uuid \<Rightarrow> bytes \<Rightarrow> uuid"

text \<open>A computable instance, used to show that the hypotheses of the theorems can hold.\<close>

fun json_text :: "json \<Rightarrow> string" and json_texts :: "json list \<Rightarrow> string"
  and json_fields :: "(string \<times> json) list \<Rightarrow> string" where
  "json_text JNull = ''null''"
| "json_text (JBool b) = (if b then ''true'' else ''false'')"
| "json_text (JNum i) = (if i < 0 then ''-'' @ show_nat (nat (- i)) else show_nat (nat i))"
| "json_text (JFloat n) = show_nat n @ ''.0''"
| "json_text (JStr s) = [CHR 0x22] @ s @ [CHR 0x22]"
| "json_text (JArr js) = ''['' @ json_texts js @ '']''"
| "json_text (JObj kvs) = ''{'' @ json_fields kvs @ ''}''"
| "json_texts [] = []"
| "json_texts (j # js) = json_text j @ '','' @ json_texts js"
| "json_fields [] = []"
| "json_fields ((k, j) # kvs) = [CHR 0x22] @ k @ [CHR 0x22] @ '':'' @ json_text j @ '','' @ json_fields kvs"

definition demo_ext :: ext where
  "demo_ext = \<lparr>sha256 = (\<lambda>b. b), json_bytes = json_text,
     rfc3339 = (\<lambda>t. show_nat (nat t)), time_display = (\<lambda>t. show_nat (nat t)), uuid_string = show_nat, uuid_v5 = (\<lambda>ns b. ns + length b)\<rparr>"

definition sha256_hex :: "ext \<Rightarrow> bytes \<Rightarrow> string" where
  "sha256_hex E b = hex (sha256 E b)"

section \<open>Lemmas\<close>

lemma hex_digit_inject: "m < 16 \<Longrightarrow> n < 16 \<Longrightarrow> hex_digit m = hex_digit n \<Longrightarrow> m = n"
  by (auto simp: hex_digit_def dest!: char_of_eq_imp_mod split: if_splits)

lemma hex_Cons:
  "hex (b # bs) = hex_digit (of_char b div 16) # hex_digit (of_char b mod 16) # hex bs"
  by (simp add: hex_def)

lemma hex_inject: "hex xs = hex ys \<Longrightarrow> xs = ys"
proof (induction xs arbitrary: ys)
  case Nil
  then show ?case by (cases ys) (auto simp: hex_def)
next
  case (Cons x xs)
  then obtain y ys' where ys: "ys = y # ys'" by (cases ys) (auto simp: hex_def)
  have lt: "of_char c div (16::nat) < 16" for c
    using nat_of_char_less_256 [of c] by linarith
  from Cons.prems have "hex xs = hex ys'"
    and d: "hex_digit (of_char x div 16) = hex_digit (of_char y div 16)"
    and m: "hex_digit (of_char x mod 16) = hex_digit (of_char y mod 16)"
    by (auto simp: ys hex_Cons)
  from d have "of_char x div (16::nat) = of_char y div 16"
    by (rule hex_digit_inject [OF lt lt])
  moreover from m have "of_char x mod (16::nat) = of_char y mod 16"
    by (rule hex_digit_inject [rotated 2]) simp_all
  ultimately have "of_char x = (of_char y :: nat)"
    by (metis div_mult_mod_eq)
  with \<open>hex xs = hex ys'\<close> Cons.IH show ?case by (simp add: ys)
qed

text \<open>
  Two inputs with the same hex digest are equal or a collision of the hash function; the second
  case is what the deployment assumes away, so it is stated and never hidden.
\<close>

definition collides :: "ext \<Rightarrow> bytes \<Rightarrow> bytes \<Rightarrow> bool" where
  "collides E x y = (x \<noteq> y \<and> sha256 E x = sha256 E y)"

lemma hex_sha256_eqD: "hex (sha256 E x) = hex (sha256 E y) \<Longrightarrow> \<not> collides E x y \<Longrightarrow> x = y"
  by (auto simp: collides_def dest: hex_inject)

lemma class_as_str_inject: "class_as_str c = class_as_str d \<Longrightarrow> c = d"
  by (cases c; cases d) auto

end
