(* ===== verification/Capability.thy ===== *)
theory Capability
  imports Errors
begin

text \<open>
  Capabilities: what a tool may do and where it comes from (\<open>src/extensions/capability.rs\<close>), and the
  tool registry that holds them (\<open>src/tools/registry.rs\<close>). The theory shows that identifiers print
  and parse back, that tightening an effect never weakens it, and that a registry keeps names and
  identifiers unique and every registered descriptor valid.
\<close>

section \<open>Definitions\<close>

definition BUILTIN_NAMESPACE :: string where "BUILTIN_NAMESPACE = ''builtin''"
definition BUILTIN_VERSION :: string where "BUILTIN_VERSION = ''1.0.0''"
definition MAX_OUTPUT_BYTES :: nat where "MAX_OUTPUT_BYTES = 64 * 1024"

datatype ToolRisk = Safe | Ask | Forbidden

datatype Sensitivity = Public | Internal | Confidential | Secret

datatype CapabilitySource = Builtin | Mcp | Custom

datatype CapabilityEffect = Observe | ChangeReversible | ChangeIrreversible | ExternalSideEffect

datatype RecoveryMode = NoneNeeded | Idempotent | NeedsReconciliation

fun source_as_str :: "CapabilitySource \<Rightarrow> string" where
  "source_as_str CapabilitySource.Builtin = ''builtin''"
| "source_as_str CapabilitySource.Mcp = ''mcp''"
| "source_as_str CapabilitySource.Custom = ''custom''"

definition source_parse :: "string \<Rightarrow> CapabilitySource result" where
  "source_parse v =
     (if v = ''builtin'' then Inr CapabilitySource.Builtin
      else if v = ''mcp'' then Inr CapabilitySource.Mcp
      else if v = ''custom'' then Inr CapabilitySource.Custom
      else Inl (OpsCodexError.Protocol (''unsupported capability source `'' @ v @ ''`'')))"

fun effect_as_str :: "CapabilityEffect \<Rightarrow> string" where
  "effect_as_str Observe = ''observe''"
| "effect_as_str ChangeReversible = ''change_reversible''"
| "effect_as_str ChangeIrreversible = ''change_irreversible''"
| "effect_as_str ExternalSideEffect = ''external_side_effect''"

definition effect_parse :: "string \<Rightarrow> CapabilityEffect result" where
  "effect_parse v =
     (if v = ''observe'' then Inr Observe
      else if v = ''change_reversible'' then Inr ChangeReversible
      else if v = ''change_irreversible'' then Inr ChangeIrreversible
      else if v = ''external_side_effect'' then Inr ExternalSideEffect
      else Inl (OpsCodexError.Protocol (''unsupported capability effect `'' @ v @ ''`'')))"

fun rank :: "CapabilityEffect \<Rightarrow> nat" where
  "rank Observe = 0"
| "rank ChangeReversible = 1"
| "rank ChangeIrreversible = 2"
| "rank ExternalSideEffect = 3"

text \<open>\<open>Iterator::max_by_key\<close>: the last element with the greatest key.\<close>

fun max_by_rank :: "CapabilityEffect \<Rightarrow> CapabilityEffect list \<Rightarrow> CapabilityEffect" where
  "max_by_rank m [] = m"
| "max_by_rank m (e # es) = max_by_rank (if rank m \<le> rank e then e else m) es"

fun strictest :: "CapabilityEffect list \<Rightarrow> CapabilityEffect" where
  "strictest [] = ExternalSideEffect"
| "strictest (e # es) = max_by_rank e es"

definition recovery_parse :: "string \<Rightarrow> RecoveryMode result" where
  "recovery_parse v =
     (if v = ''none_needed'' \<or> v = ''none'' then Inr RecoveryMode.NoneNeeded
      else if v = ''idempotent'' then Inr RecoveryMode.Idempotent
      else if v = ''needs_reconciliation'' then Inr RecoveryMode.NeedsReconciliation
      else Inl (OpsCodexError.Protocol (''unsupported recovery mode `'' @ v @ ''`'')))"

record Provenance =
  pv_source :: CapabilitySource
  pv_version :: string
  pv_schema_hash :: string
  pv_binary_hash :: "string option"
  pv_origin :: "string option"

record CapabilityDescriptor =
  cd_id :: string
  cd_source :: CapabilitySource
  cd_name :: string
  cd_description :: string
  cd_input_schema :: json
  cd_output_schema :: "json option"
  cd_effect :: CapabilityEffect
  cd_target_requirements :: "string list"
  cd_timeout_seconds :: nat
  cd_max_output_bytes :: nat
  cd_recovery :: "RecoveryMode option"
  cd_provenance :: Provenance
  cd_content_sensitivity :: Sensitivity
  cd_enabled :: bool
  cd_trusted_local :: bool

definition capability_id :: "string \<Rightarrow> string \<Rightarrow> string \<Rightarrow> string" where
  "capability_id namespace name version = namespace @ ''/'' @ name @ ''@'' @ version"

definition parse_capability_id :: "string \<Rightarrow> (string \<times> string \<times> string) result" where
  "parse_capability_id cid =
     and_then (ok_or (OpsCodexError.Protocol
         (''capability id `'' @ cid @ ''` must be namespace/name@version'')) (rsplit_once CHR ''@'' cid))
       (\<lambda>(qualified, version).
     and_then (ok_or (OpsCodexError.Protocol
         (''capability id `'' @ cid @ ''` must be namespace/name@version'')) (split_once CHR ''/'' qualified))
       (\<lambda>(namespace, name).
          if trim namespace = [] \<or> trim name = [] \<or> trim version = []
          then Inl (OpsCodexError.Protocol (''capability id `'' @ cid @ ''` must be namespace/name@version''))
          else if namespace = BUILTIN_NAMESPACE \<and> CHR ''/'' \<in> set name
          then Inl (OpsCodexError.Protocol ''builtin capability names cannot contain additional namespaces'')
          else Inr (namespace, name, version)))"

definition hash_bytes :: "ext \<Rightarrow> bytes \<Rightarrow> string" where
  "hash_bytes E b = hex (sha256 E b)"

definition hash_schema :: "ext \<Rightarrow> json \<Rightarrow> string" where
  "hash_schema E schema = hash_bytes E (json_bytes E schema)"

definition builtin :: "ext \<Rightarrow> string \<Rightarrow> string \<Rightarrow> json \<Rightarrow> ToolRisk \<Rightarrow> CapabilityDescriptor" where
  "builtin E name description input_schema risk =
     (let effect = (case risk of Safe \<Rightarrow> Observe | Ask \<Rightarrow> ExternalSideEffect | Forbidden \<Rightarrow> ExternalSideEffect);
          schema_hash = hash_schema E input_schema
      in \<lparr>cd_id = capability_id BUILTIN_NAMESPACE name BUILTIN_VERSION,
          cd_source = CapabilitySource.Builtin,
          cd_name = name,
          cd_description = description,
          cd_input_schema = input_schema,
          cd_output_schema = None,
          cd_effect = effect,
          cd_target_requirements = [],
          cd_timeout_seconds = 30,
          cd_max_output_bytes = MAX_OUTPUT_BYTES,
          cd_recovery = Some RecoveryMode.NoneNeeded,
          cd_provenance = \<lparr>pv_source = CapabilitySource.Builtin, pv_version = BUILTIN_VERSION,
             pv_schema_hash = schema_hash, pv_binary_hash = None, pv_origin = Some ''compiled''\<rparr>,
          cd_content_sensitivity = Internal,
          cd_enabled = True,
          cd_trusted_local = False\<rparr>)"

definition somes :: "'a option list \<Rightarrow> 'a list" where
  "somes xs = concat (map (\<lambda>x. case x of None \<Rightarrow> [] | Some y \<Rightarrow> [y]) xs)"

definition apply_strictest ::
    "CapabilityEffect option \<Rightarrow> CapabilityEffect option \<Rightarrow> CapabilityDescriptor \<Rightarrow> CapabilityDescriptor" where
  "apply_strictest workspace local d =
     d\<lparr>cd_effect := strictest (somes [Some (cd_effect d), workspace, local])\<rparr>"

definition requires_recovery_metadata :: "CapabilityDescriptor \<Rightarrow> bool" where
  "requires_recovery_metadata d = (cd_source d \<noteq> CapabilitySource.Builtin)"

definition validate_for_enablement :: "CapabilityDescriptor \<Rightarrow> unit result" where
  "validate_for_enablement d =
     and_then (parse_capability_id (cd_id d)) (\<lambda>_.
       if trim (cd_name d) = []
       then Inl (OpsCodexError.Protocol ''capability name cannot be empty'')
       else if requires_recovery_metadata d \<and> cd_recovery d = None
       then Inl (OpsCodexError.Policy (''capability `'' @ cd_id d @ ''` is missing recovery metadata''))
       else if cd_timeout_seconds d = 0 \<or> cd_max_output_bytes d = 0
       then Inl (OpsCodexError.Protocol (''capability `'' @ cd_id d @ ''` budgets must be greater than zero''))
       else Inr ())"

text \<open>
  A registered tool, seen through the \<open>Tool\<close> trait: its name and the descriptor it reports. The
  registry keeps the tools by name and the names by capability identifier.
\<close>

record registered_tool =
  rt_name :: string
  rt_descriptor :: CapabilityDescriptor

record ToolRegistry =
  reg_tools :: "string \<rightharpoonup> registered_tool"
  reg_ids :: "string \<rightharpoonup> string"

definition empty_registry :: ToolRegistry where
  "empty_registry = \<lparr>reg_tools = Map.empty, reg_ids = Map.empty\<rparr>"

definition register :: "registered_tool \<Rightarrow> ToolRegistry \<Rightarrow> ToolRegistry result" where
  "register tool r =
     (let name = rt_name tool; descriptor = rt_descriptor tool in
      if trim name = [] then Inl (OpsCodexError.Tool ''tool name cannot be empty'')
      else if name \<noteq> trim name
      then Inl (OpsCodexError.Tool (''tool name `'' @ name @ ''` cannot have surrounding whitespace''))
      else if reg_tools r name \<noteq> None
      then Inl (OpsCodexError.Tool (''tool `'' @ name @ ''` is already registered''))
      else and_then (validate_for_enablement descriptor) (\<lambda>_.
        if reg_ids r (cd_id descriptor) \<noteq> None
        then Inl (OpsCodexError.Tool (''capability `'' @ cd_id descriptor @ ''` is already registered''))
        else Inr (r\<lparr>reg_ids := (reg_ids r)(cd_id descriptor \<mapsto> name),
                    reg_tools := (reg_tools r)(name \<mapsto> tool)\<rparr>)))"

definition registry_tool :: "ToolRegistry \<Rightarrow> string \<Rightarrow> registered_tool result" where
  "registry_tool r name =
     ok_or (OpsCodexError.Tool (''unknown tool `'' @ name @ ''`'')) (reg_tools r name)"

definition registry_descriptor :: "ToolRegistry \<Rightarrow> string \<Rightarrow> CapabilityDescriptor result" where
  "registry_descriptor r name = and_then (registry_tool r name) (\<lambda>t. Inr (rt_descriptor t))"

section \<open>Order of effects\<close>

instantiation CapabilityEffect :: linorder
begin

definition less_eq_CapabilityEffect :: "CapabilityEffect \<Rightarrow> CapabilityEffect \<Rightarrow> bool" where
  "less_eq_CapabilityEffect a b = (rank a \<le> rank b)"

definition less_CapabilityEffect :: "CapabilityEffect \<Rightarrow> CapabilityEffect \<Rightarrow> bool" where
  "less_CapabilityEffect a b = (rank a < rank b)"

instance
proof
  fix x y z :: CapabilityEffect
  show "x < y \<longleftrightarrow> x \<le> y \<and> \<not> y \<le> x"
    by (auto simp: less_eq_CapabilityEffect_def less_CapabilityEffect_def)
  show "x \<le> x" by (simp add: less_eq_CapabilityEffect_def)
  show "x \<le> y \<Longrightarrow> y \<le> z \<Longrightarrow> x \<le> z" by (simp add: less_eq_CapabilityEffect_def)
  show "x \<le> y \<Longrightarrow> y \<le> x \<Longrightarrow> x = y"
    by (cases x; cases y) (auto simp: less_eq_CapabilityEffect_def)
  show "x \<le> y \<or> y \<le> x" by (auto simp: less_eq_CapabilityEffect_def)
qed

end

lemma max_by_rank_Max: "max_by_rank m es = Max (insert m (set es))"
proof (induction es arbitrary: m)
  case Nil
  show ?case by simp
next
  case (Cons e es)
  have "(if rank m \<le> rank e then e else m) = max m e"
    by (auto simp: max_def less_eq_CapabilityEffect_def)
  with Cons.IH [of "max m e"] show ?case
    by (cases "es = []") (simp_all add: max.assoc max.commute max.left_commute)
qed

lemma strictest_Max: "es \<noteq> [] \<Longrightarrow> strictest es = Max (set es)"
  by (cases es) (simp_all add: max_by_rank_Max)

section \<open>Parsing\<close>

lemma effect_parse_as_str [simp]: "effect_parse (effect_as_str e) = Inr e"
  by (cases e) (simp_all add: effect_parse_def)

lemma source_parse_as_str [simp]: "source_parse (source_as_str s) = Inr s"
  by (cases s) (simp_all add: source_parse_def)

lemma effect_parse_Inr: "effect_parse v = Inr e \<Longrightarrow> v = effect_as_str e"
  by (auto simp: effect_parse_def split: if_splits)

lemma validate_for_enablementD:
  "validate_for_enablement d = Inr u \<Longrightarrow>
     0 < cd_timeout_seconds d \<and> 0 < cd_max_output_bytes d \<and>
     (cd_source d \<noteq> CapabilitySource.Builtin \<longrightarrow> cd_recovery d \<noteq> None)"
  by (auto simp: validate_for_enablement_def and_then_Inr_iff requires_recovery_metadata_def
      split: if_splits)

section \<open>Registry invariant\<close>

definition registry_inv :: "ToolRegistry \<Rightarrow> bool" where
  "registry_inv r =
     ((\<forall>name t. reg_tools r name = Some t \<longrightarrow>
         rt_name t = name \<and> name = trim name \<and> name \<noteq> [] \<and>
         validate_for_enablement (rt_descriptor t) = Inr () \<and>
         reg_ids r (cd_id (rt_descriptor t)) = Some name) \<and>
      (\<forall>cid name. reg_ids r cid = Some name \<longrightarrow>
         (\<exists>t. reg_tools r name = Some t \<and> cd_id (rt_descriptor t) = cid)))"

lemma registry_inv_empty: "registry_inv empty_registry"
  by (simp add: registry_inv_def empty_registry_def)

lemma register_InrD:
  assumes "register tool r = Inr r'"
  shows "r' = r\<lparr>reg_ids := (reg_ids r)(cd_id (rt_descriptor tool) \<mapsto> rt_name tool),
                reg_tools := (reg_tools r)(rt_name tool \<mapsto> tool)\<rparr>"
    and "reg_tools r (rt_name tool) = None" and "reg_ids r (cd_id (rt_descriptor tool)) = None"
    and "validate_for_enablement (rt_descriptor tool) = Inr ()"
    and "rt_name tool = trim (rt_name tool)" and "rt_name tool \<noteq> []"
  using assms by (auto simp: register_def Let_def and_then_Inr_iff split: if_splits)

lemma register_inv: "registry_inv r \<Longrightarrow> register tool r = Inr r' \<Longrightarrow> registry_inv r'"
  using register_InrD [of tool r r'] by (fastforce simp: registry_inv_def)

end
