(* ===== verification/Action.thy ===== *)
theory Action
  imports Capability
begin

text \<open>
  The remediation action: its status machine, its record, the hash that binds an approval to what
  was reviewed, the hash-chained audit log and the policy that decides whether an action may be
  proposed at all (\<open>src/action/mod.rs\<close>).

  A \<open>Sha256\<close> hasher is the byte string fed to it so far, so the preimages below are the exact bytes
  the code feeds. The lemmas show that the length-prefixed encoding is uniquely decodable, that the
  status machine admits exactly one way to \<open>Executing\<close>, and that two audit logs with the same head
  hash have the same contents.
\<close>

section \<open>Status machine\<close>

definition DEMO_FAULT_TOOL :: string where "DEMO_FAULT_TOOL = ''demo_fault_reset''"
definition K8S_SCALE_TOOL :: string where "K8S_SCALE_TOOL = ''k8s_scale''"
definition TOOL_VERSION :: string where "TOOL_VERSION = ''1.0.0''"

datatype ActionStatus =
    Proposed | PolicyDenied | DryRun | Invalid | AwaitingApproval | Expired | Rejected | Authorized
  | PreconditionCheck | Stale | Executing | Verifying | Succeeded | VerificationFailed
  | RollbackProposed | NeedsReconciliation

fun status_as_str :: "ActionStatus \<Rightarrow> string" where
  "status_as_str ActionStatus.Proposed = ''proposed''"
| "status_as_str ActionStatus.PolicyDenied = ''policy_denied''"
| "status_as_str ActionStatus.DryRun = ''dry_run''"
| "status_as_str ActionStatus.Invalid = ''invalid''"
| "status_as_str ActionStatus.AwaitingApproval = ''awaiting_approval''"
| "status_as_str ActionStatus.Expired = ''expired''"
| "status_as_str ActionStatus.Rejected = ''rejected''"
| "status_as_str ActionStatus.Authorized = ''authorized''"
| "status_as_str ActionStatus.PreconditionCheck = ''precondition_check''"
| "status_as_str ActionStatus.Stale = ''stale''"
| "status_as_str ActionStatus.Executing = ''executing''"
| "status_as_str ActionStatus.Verifying = ''verifying''"
| "status_as_str ActionStatus.Succeeded = ''succeeded''"
| "status_as_str ActionStatus.VerificationFailed = ''verification_failed''"
| "status_as_str ActionStatus.RollbackProposed = ''rollback_proposed''"
| "status_as_str ActionStatus.NeedsReconciliation = ''needs_reconciliation''"

definition status_parse :: "string \<Rightarrow> ActionStatus result" where
  "status_parse v =
     (if v = ''proposed'' then Inr ActionStatus.Proposed
      else if v = ''policy_denied'' then Inr ActionStatus.PolicyDenied
      else if v = ''dry_run'' then Inr ActionStatus.DryRun
      else if v = ''invalid'' then Inr ActionStatus.Invalid
      else if v = ''awaiting_approval'' then Inr ActionStatus.AwaitingApproval
      else if v = ''expired'' then Inr ActionStatus.Expired
      else if v = ''rejected'' then Inr ActionStatus.Rejected
      else if v = ''authorized'' then Inr ActionStatus.Authorized
      else if v = ''precondition_check'' then Inr ActionStatus.PreconditionCheck
      else if v = ''stale'' then Inr ActionStatus.Stale
      else if v = ''executing'' then Inr ActionStatus.Executing
      else if v = ''verifying'' then Inr ActionStatus.Verifying
      else if v = ''succeeded'' then Inr ActionStatus.Succeeded
      else if v = ''verification_failed'' then Inr ActionStatus.VerificationFailed
      else if v = ''rollback_proposed'' then Inr ActionStatus.RollbackProposed
      else if v = ''needs_reconciliation'' then Inr ActionStatus.NeedsReconciliation
      else Inl (OpsCodexError.Protocol (''unknown action status `'' @ v @ ''`'')))"

fun status_is_terminal :: "ActionStatus \<Rightarrow> bool" where
  "status_is_terminal s =
     (s \<in> {ActionStatus.PolicyDenied, ActionStatus.Invalid, ActionStatus.Expired,
           ActionStatus.Rejected, ActionStatus.Stale, ActionStatus.Succeeded,
           ActionStatus.RollbackProposed, ActionStatus.NeedsReconciliation})"

fun can_transition :: "ActionStatus \<Rightarrow> ActionStatus \<Rightarrow> bool" where
  "can_transition ActionStatus.Proposed t =
     (t \<in> {ActionStatus.PolicyDenied, ActionStatus.DryRun})"
| "can_transition ActionStatus.DryRun t =
     (t \<in> {ActionStatus.AwaitingApproval, ActionStatus.Invalid})"
| "can_transition ActionStatus.AwaitingApproval t =
     (t \<in> {ActionStatus.Expired, ActionStatus.Rejected, ActionStatus.Authorized})"
| "can_transition ActionStatus.Authorized t =
     (t \<in> {ActionStatus.Expired, ActionStatus.PreconditionCheck})"
| "can_transition ActionStatus.PreconditionCheck t =
     (t \<in> {ActionStatus.Stale, ActionStatus.Executing, ActionStatus.NeedsReconciliation})"
| "can_transition ActionStatus.Executing t =
     (t \<in> {ActionStatus.Verifying, ActionStatus.NeedsReconciliation})"
| "can_transition ActionStatus.Verifying t =
     (t \<in> {ActionStatus.Succeeded, ActionStatus.VerificationFailed, ActionStatus.NeedsReconciliation})"
| "can_transition ActionStatus.VerificationFailed t = (t = ActionStatus.RollbackProposed)"
| "can_transition _ _ = False"

definition transition :: "ActionStatus \<Rightarrow> ActionStatus \<Rightarrow> ActionStatus result" where
  "transition from_st to_st =
     (if can_transition from_st to_st then Inr to_st
      else Inl (OpsCodexError.Protocol
        (''illegal action transition '' @ status_as_str from_st @ '' -> '' @ status_as_str to_st)))"

text \<open>The statuses an action has gone through, the current one first.\<close>

inductive status_history :: "ActionStatus list \<Rightarrow> bool" where
  created: "status_history [ActionStatus.Proposed]"
| moved: "status_history (s # h) \<Longrightarrow> can_transition s t \<Longrightarrow> status_history (t # s # h)"

section \<open>Records and hashes\<close>

record ActionRecord =
  act_action_id :: uuid
  act_plan_id :: uuid
  act_workspace_id :: string
  act_thread_id :: uuid
  act_tool_id :: string
  act_tool_version :: string
  act_schema_hash :: string
  act_effect :: string
  act_normalized_target :: string
  act_normalized_parameters :: json
  act_preconditions :: "string list"
  act_expected_effect :: string
  act_dry_run_result :: "string option"
  act_verification_spec :: string
  act_rollback_spec :: "string option"
  act_blast_radius :: string
  act_operation_id :: string
  act_request_hash :: string
  act_status :: ActionStatus
  act_approval_id :: "uuid option"
  act_consumed_approval :: bool
  act_expires_at :: time
  act_updated_at :: time

record ActionPlan =
  plan_id :: uuid
  plan_workspace_id :: string
  plan_thread_id :: uuid
  plan_diagnosis_claim_ids :: "uuid list"
  plan_actions :: "ActionRecord list"
  plan_created_at :: time
  plan_expires_at :: time

definition review_summary :: "ext \<Rightarrow> ActionRecord \<Rightarrow> json" where
  "review_summary E a = JObj
     [(''action_id'', JStr (uuid_string E (act_action_id a))),
      (''blast_radius'', JStr (act_blast_radius a)),
      (''dry_run'', opt_str (act_dry_run_result a)),
      (''effect'', JStr (act_effect a)),
      (''expected_effect'', JStr (act_expected_effect a)),
      (''expires_at'', JStr (rfc3339 E (act_expires_at a))),
      (''operation_id'', JStr (act_operation_id a)),
      (''parameters'', act_normalized_parameters a),
      (''preconditions'', JArr (map JStr (act_preconditions a))),
      (''request_hash'', JStr (act_request_hash a)),
      (''rollback'', opt_str (act_rollback_spec a)),
      (''status'', JStr (status_as_str (act_status a))),
      (''target'', JStr (act_normalized_target a)),
      (''tool_id'', JStr (act_tool_id a)),
      (''tool_version'', JStr (act_tool_version a)),
      (''verification'', JStr (act_verification_spec a))]"

type_synonym hasher = bytes

definition update_length_prefixed :: "hasher \<Rightarrow> bytes \<Rightarrow> hasher" where
  "update_length_prefixed h v = h @ lenp v"

definition canonical_hasher :: "bytes \<Rightarrow> hasher" where
  "canonical_hasher domain = update_length_prefixed ''opscodex/hash-preimage/v1'' domain"

definition update_hash_field :: "hasher \<Rightarrow> bytes \<Rightarrow> bytes \<Rightarrow> hasher" where
  "update_hash_field h name v = update_length_prefixed (update_length_prefixed h name) v"

definition update_hash_string_list :: "hasher \<Rightarrow> bytes \<Rightarrow> string list \<Rightarrow> hasher" where
  "update_hash_string_list h name vs =
     fold (\<lambda>v h. update_length_prefixed h v) vs
       (update_length_prefixed h name @ u64_be (length vs))"

definition update_optional_hash_field :: "hasher \<Rightarrow> bytes \<Rightarrow> bytes option \<Rightarrow> hasher" where
  "update_optional_hash_field h name v =
     (case v of
        Some x \<Rightarrow> update_length_prefixed (update_length_prefixed h name @ [CHR 0x01]) x
      | None \<Rightarrow> update_length_prefixed h name @ [CHR 0x00])"

definition action_request_preimage :: "ext \<Rightarrow> ActionRecord \<Rightarrow> bytes" where
  "action_request_preimage E a =
     (let h = canonical_hasher ''action-request'';
          h = update_hash_field h ''workspace_id'' (act_workspace_id a);
          h = update_hash_field h ''tool_id'' (act_tool_id a);
          h = update_hash_field h ''tool_version'' (act_tool_version a);
          h = update_hash_field h ''schema_hash'' (act_schema_hash a);
          h = update_hash_field h ''normalized_target'' (act_normalized_target a);
          h = update_hash_field h ''normalized_parameters'' (json_bytes E (act_normalized_parameters a));
          h = update_hash_string_list h ''preconditions'' (act_preconditions a);
          h = update_hash_field h ''verification_spec'' (act_verification_spec a);
          h = update_hash_field h ''effect'' (act_effect a);
          h = update_hash_field h ''operation_id'' (act_operation_id a);
          h = update_hash_field h ''expires_at'' (rfc3339 E (act_expires_at a))
      in h)"

definition action_request_hash :: "ext \<Rightarrow> ActionRecord \<Rightarrow> string" where
  "action_request_hash E a = hex (sha256 E (action_request_preimage E a))"

definition action_schema :: "string \<Rightarrow> json" where
  "action_schema tool_id =
     (if tool_id = DEMO_FAULT_TOOL then JObj
        [(''properties'', JObj
           [(''mode'', JObj [(''const'', JStr ''normal'')]),
            (''service'', JObj [(''const'', JStr ''order-service'')])]),
         (''required'', JArr [JStr ''service'', JStr ''mode'']),
         (''type'', JStr ''object'')]
      else if tool_id = K8S_SCALE_TOOL then JObj
        [(''properties'', JObj
           [(''kind'', JObj [(''enum'', JArr [JStr ''Deployment'', JStr ''StatefulSet''])]),
            (''name'', JObj [(''type'', JStr ''string'')]),
            (''namespace'', JObj [(''type'', JStr ''string'')]),
            (''replicas'', JObj [(''maximum'', JNum 16), (''minimum'', JNum 1), (''type'', JStr ''integer'')])]),
         (''required'', JArr [JStr ''kind'', JStr ''namespace'', JStr ''name'', JStr ''replicas'']),
         (''type'', JStr ''object'')]
      else JObj [(''type'', JStr ''object'')])"

definition schema_hash_for :: "ext \<Rightarrow> string \<Rightarrow> string" where
  "schema_hash_for E tool_id = hex (sha256 E (json_bytes E (action_schema tool_id)))"

record AuditRecord =
  aud_seq :: int
  aud_record_hash :: string
  aud_previous_hash :: string
  aud_actor :: string
  aud_workspace_id :: "string option"
  aud_operation :: string
  aud_summary :: json
  aud_created_at :: time

definition audit_record_preimage ::
    "ext \<Rightarrow> string \<Rightarrow> string \<Rightarrow> string option \<Rightarrow> string \<Rightarrow> json \<Rightarrow> time \<Rightarrow> bytes" where
  "audit_record_preimage E previous_hash actor workspace_id operation summary created_at =
     (let h = canonical_hasher ''audit-record'';
          h = update_hash_field h ''previous_hash'' previous_hash;
          h = update_hash_field h ''actor'' actor;
          h = update_optional_hash_field h ''workspace_id'' workspace_id;
          h = update_hash_field h ''operation'' operation;
          h = update_hash_field h ''summary'' (json_bytes E summary);
          h = update_hash_field h ''created_at'' (rfc3339 E created_at)
      in h)"

definition audit_record_hash ::
    "ext \<Rightarrow> string \<Rightarrow> string \<Rightarrow> string option \<Rightarrow> string \<Rightarrow> json \<Rightarrow> time \<Rightarrow> string" where
  "audit_record_hash E previous_hash actor workspace_id operation summary created_at =
     hex (sha256 E (audit_record_preimage E previous_hash actor workspace_id operation summary created_at))"

definition record_preimage :: "ext \<Rightarrow> AuditRecord \<Rightarrow> bytes" where
  "record_preimage E r = audit_record_preimage E (aud_previous_hash r) (aud_actor r)
     (aud_workspace_id r) (aud_operation r) (aud_summary r) (aud_created_at r)"

fun verify_audit_from :: "ext \<Rightarrow> string \<Rightarrow> AuditRecord list \<Rightarrow> unit result" where
  "verify_audit_from E previous [] = Inr ()"
| "verify_audit_from E previous (r # rs) =
     (if aud_previous_hash r \<noteq> previous
      then Inl (OpsCodexError.Storage ''audit hash chain previous hash mismatch'')
      else if audit_record_hash E (aud_previous_hash r) (aud_actor r) (aud_workspace_id r)
                (aud_operation r) (aud_summary r) (aud_created_at r) \<noteq> aud_record_hash r
      then Inl (OpsCodexError.Storage ''audit hash chain record hash mismatch'')
      else verify_audit_from E (aud_record_hash r) rs)"

definition verify_audit_chain :: "ext \<Rightarrow> AuditRecord list \<Rightarrow> unit result" where
  "verify_audit_chain E rs = verify_audit_from E ''genesis'' rs"

section \<open>Policy for actions\<close>

datatype PolicyDecision = Allow | Ask | Deny

record ActionPolicyInput =
  api_workspace_id :: string
  api_allow_remediation :: bool
  api_max_effect :: "CapabilityEffect option"
  api_tool_id :: string
  api_effect :: CapabilityEffect
  api_production_safe :: bool
  api_kill_switch :: bool
  api_remediation_enabled :: bool

definition is_extension_tool :: "string \<Rightarrow> bool" where
  "is_extension_tool tool_id = (starts_with ''mcp/'' tool_id \<or> starts_with ''custom/'' tool_id)"

definition deny_extension_remediation :: "string \<Rightarrow> bool" where
  "deny_extension_remediation tool_id = (is_extension_tool tool_id \<or> tool_id = ''exec'')"

definition evaluate_action :: "ActionPolicyInput \<Rightarrow> PolicyDecision" where
  "evaluate_action i =
     (if api_kill_switch i \<or> \<not> api_remediation_enabled i \<or> \<not> api_allow_remediation i
      then PolicyDecision.Deny
      else if deny_extension_remediation (api_tool_id i) then PolicyDecision.Deny
      else if api_max_effect i = Some Observe \<and> api_effect i \<noteq> Observe then PolicyDecision.Deny
      else (case api_effect i of
              Observe \<Rightarrow> PolicyDecision.Allow
            | ChangeReversible \<Rightarrow> PolicyDecision.Ask
            | ChangeIrreversible \<Rightarrow> PolicyDecision.Deny
            | ExternalSideEffect \<Rightarrow> PolicyDecision.Deny))"

section \<open>Lemmas on the status machine\<close>

lemma status_parse_as_str [simp]: "status_parse (status_as_str s) = Inr s"
  by (cases s) (simp_all add: status_parse_def)

lemma status_as_str_inject [simp]: "status_as_str s = status_as_str t \<longleftrightarrow> s = t"
  by (metis status_parse_as_str sum.inject(2))

lemma status_parse_InrD: "status_parse v = Inr s \<Longrightarrow> v = status_as_str s"
  by (auto simp: status_parse_def split: if_splits)

lemma transition_Inr_iff: "transition s t = Inr u \<longleftrightarrow> can_transition s t \<and> u = t"
  by (auto simp: transition_def)

lemma transition_ok [simp]: "can_transition s t \<Longrightarrow> transition s t = Inr t"
  by (simp add: transition_def)

inductive_simps history_Executing: "status_history (ActionStatus.Executing # h)"
inductive_simps history_PreconditionCheck: "status_history (ActionStatus.PreconditionCheck # h)"
inductive_simps history_Authorized: "status_history (ActionStatus.Authorized # h)"
inductive_simps history_AwaitingApproval: "status_history (ActionStatus.AwaitingApproval # h)"
inductive_simps history_DryRun: "status_history (ActionStatus.DryRun # h)"
inductive_simps history_Proposed: "status_history (ActionStatus.Proposed # h)"

lemma pred_Executing: "can_transition s ActionStatus.Executing \<longleftrightarrow> s = ActionStatus.PreconditionCheck"
  by (cases s) simp_all

lemma pred_PreconditionCheck: "can_transition s ActionStatus.PreconditionCheck \<longleftrightarrow> s = ActionStatus.Authorized"
  by (cases s) simp_all

lemma pred_Authorized: "can_transition s ActionStatus.Authorized \<longleftrightarrow> s = ActionStatus.AwaitingApproval"
  by (cases s) simp_all

lemma pred_AwaitingApproval: "can_transition s ActionStatus.AwaitingApproval \<longleftrightarrow> s = ActionStatus.DryRun"
  by (cases s) simp_all

lemma pred_DryRun: "can_transition s ActionStatus.DryRun \<longleftrightarrow> s = ActionStatus.Proposed"
  by (cases s) simp_all

lemma pred_Proposed: "\<not> can_transition s ActionStatus.Proposed"
  by (cases s) simp_all

lemmas unique_path =
  history_Executing history_PreconditionCheck history_Authorized history_AwaitingApproval
  history_DryRun history_Proposed pred_Executing pred_PreconditionCheck pred_Authorized
  pred_AwaitingApproval pred_DryRun pred_Proposed

fun status_level :: "ActionStatus \<Rightarrow> nat" where
  "status_level ActionStatus.Proposed = 0"
| "status_level ActionStatus.DryRun = 1"
| "status_level ActionStatus.AwaitingApproval = 2"
| "status_level ActionStatus.Authorized = 3"
| "status_level ActionStatus.PreconditionCheck = 4"
| "status_level ActionStatus.Executing = 5"
| "status_level ActionStatus.Verifying = 6"
| "status_level ActionStatus.VerificationFailed = 7"
| "status_level _ = 8"

lemma can_transition_level: "can_transition s t \<Longrightarrow> status_level s < status_level t"
  by (cases s) auto

lemma status_level_le: "status_level s \<le> 8"
  by (cases s) simp_all

lemma history_length: "status_history h \<Longrightarrow> length h \<le> Suc (status_level (hd h))"
  by (induction rule: status_history.induct) (auto dest: can_transition_level)

section \<open>Lemmas on the encodings\<close>

lemma fold_length_prefixed: "fold (\<lambda>v h. update_length_prefixed h v) vs h = h @ concat (map lenp vs)"
  by (induction vs arbitrary: h) (simp_all add: update_length_prefixed_def)

lemmas hasher_defs =
  update_length_prefixed_def canonical_hasher_def update_hash_field_def
  update_hash_string_list_def fold_length_prefixed [unfolded update_length_prefixed_def] Let_def

lemma concat_lenp_inject:
  assumes "length vs = length ws"
    and "concat (map lenp vs) @ r = concat (map lenp ws) @ r'"
    and "list_all fits vs" and "list_all fits ws"
  shows "vs = ws \<and> r = r'"
  using assms
proof (induction vs ws arbitrary: r r' rule: list_induct2)
  case Nil
  then show ?case by simp
next
  case (Cons v vs w ws)
  then have "lenp v @ (concat (map lenp vs) @ r) = lenp w @ (concat (map lenp ws) @ r')" by simp
  with Cons.prems have "v = w" and "concat (map lenp vs) @ r = concat (map lenp ws) @ r'"
    by (auto dest: lenp_append_inject)
  with Cons.IH Cons.prems show ?case by simp
qed

definition lenps :: "string list \<Rightarrow> bytes" where
  "lenps vs = u64_be (length vs) @ concat (map lenp vs)"

definition lenp_opt :: "bytes option \<Rightarrow> bytes" where
  "lenp_opt v = (case v of Some x \<Rightarrow> CHR 0x01 # lenp x | None \<Rightarrow> [CHR 0x00])"

lemma lenps_append_inject [enc_dest]:
  assumes "lenps vs @ r = lenps ws @ r'"
    and "list_all fits vs" "length vs < 2 ^ 64" and "list_all fits ws" "length ws < 2 ^ 64"
  shows "vs = ws \<and> r = r'"
proof -
  from assms(1) have "u64_be (length vs) = u64_be (length ws)"
    and eq: "concat (map lenp vs) @ r = concat (map lenp ws) @ r'"
    by (auto simp: lenps_def append_eq_append_conv)
  with assms have "length vs = length ws" by (auto intro: u64_be_inject)
  with eq assms show ?thesis by (auto dest: concat_lenp_inject)
qed

lemma lenp_opt_append_inject [enc_dest]:
  assumes "lenp_opt v @ r = lenp_opt w @ r'"
    and "\<And>x. v = Some x \<Longrightarrow> fits x" and "\<And>x. w = Some x \<Longrightarrow> fits x"
  shows "v = w \<and> r = r'"
  using assms by (auto simp: lenp_opt_def split: option.splits dest: lenp_append_inject)

lemma preimage_chunks:
  "action_request_preimage E a = canonical_hasher ''action-request'' @
     lenp ''workspace_id'' @ lenp (act_workspace_id a) @
     lenp ''tool_id'' @ lenp (act_tool_id a) @
     lenp ''tool_version'' @ lenp (act_tool_version a) @
     lenp ''schema_hash'' @ lenp (act_schema_hash a) @
     lenp ''normalized_target'' @ lenp (act_normalized_target a) @
     lenp ''normalized_parameters'' @ lenp (json_bytes E (act_normalized_parameters a)) @
     lenp ''preconditions'' @ lenps (act_preconditions a) @
     lenp ''verification_spec'' @ lenp (act_verification_spec a) @
     lenp ''effect'' @ lenp (act_effect a) @
     lenp ''operation_id'' @ lenp (act_operation_id a) @
     lenp ''expires_at'' @ lenp (rfc3339 E (act_expires_at a)) @ []"
  by (simp add: action_request_preimage_def hasher_defs lenps_def)

lemma audit_preimage_chunks:
  "audit_record_preimage E p actor ws op sm t = canonical_hasher ''audit-record'' @
     lenp ''previous_hash'' @ lenp p @ lenp ''actor'' @ lenp actor @
     lenp ''workspace_id'' @ lenp_opt ws @ lenp ''operation'' @ lenp op @
     lenp ''summary'' @ lenp (json_bytes E sm) @
     lenp ''created_at'' @ lenp (rfc3339 E t) @ []"
  by (simp add: audit_record_preimage_def hasher_defs lenp_opt_def update_optional_hash_field_def
      split: option.split)

text \<open>
  What the request hash binds, as values: everything an operator reviews that decides what will be
  executed. In memory every string is far shorter than \<open>2\<^sup>64\<close> bytes.
\<close>

definition bound_fields where
  "bound_fields E a =
     (act_workspace_id a, act_tool_id a, act_tool_version a, act_schema_hash a,
      act_normalized_target a, json_bytes E (act_normalized_parameters a), act_preconditions a,
      act_verification_spec a, act_effect a, act_operation_id a, rfc3339 E (act_expires_at a))"

definition action_fits :: "ext \<Rightarrow> ActionRecord \<Rightarrow> bool" where
  "action_fits E a =
     (list_all fits [act_workspace_id a, act_tool_id a, act_tool_version a, act_schema_hash a,
        act_normalized_target a, json_bytes E (act_normalized_parameters a),
        act_verification_spec a, act_effect a, act_operation_id a, rfc3339 E (act_expires_at a)] \<and>
      list_all fits (act_preconditions a) \<and> length (act_preconditions a) < 2 ^ 64)"

lemma preimage_inject:
  assumes "action_request_preimage E a = action_request_preimage E b"
    and "action_fits E a" and "action_fits E b"
  shows "bound_fields E a = bound_fields E b"
  using assms
  by (simp only: preimage_chunks append.assoc same_append_eq)
     (auto simp: bound_fields_def action_fits_def dest!: lenp_append_inject lenps_append_inject lenp_inject)

definition audit_fits :: "ext \<Rightarrow> AuditRecord \<Rightarrow> bool" where
  "audit_fits E r =
     (list_all fits [aud_previous_hash r, aud_actor r, aud_operation r,
        json_bytes E (aud_summary r), rfc3339 E (aud_created_at r)] \<and>
      (\<forall>w \<in> set_option (aud_workspace_id r). fits w))"

definition audit_content where
  "audit_content E r =
     (aud_record_hash r, aud_previous_hash r, aud_actor r, aud_workspace_id r, aud_operation r,
      json_bytes E (aud_summary r), rfc3339 E (aud_created_at r))"

lemma audit_preimage_inject:
  assumes "record_preimage E r = record_preimage E q" and "audit_fits E r" and "audit_fits E q"
    and "aud_record_hash r = aud_record_hash q"
  shows "audit_content E r = audit_content E q"
  using assms
  by (simp only: record_preimage_def audit_preimage_chunks append.assoc same_append_eq)
     (auto simp: audit_content_def audit_fits_def dest!: lenp_append_inject lenp_opt_append_inject lenp_inject)

section \<open>The audit chain\<close>

definition audit_head :: "AuditRecord list \<Rightarrow> string" where
  "audit_head rs = (if rs = [] then ''genesis'' else aud_record_hash (last rs))"

lemma audit_head_snoc [simp]: "audit_head (rs @ [r]) = aud_record_hash r"
  by (simp add: audit_head_def)

lemma verify_audit_from_snoc:
  "verify_audit_from E p (rs @ [r]) = Inr () \<longleftrightarrow>
     verify_audit_from E p rs = Inr () \<and>
     aud_previous_hash r = (if rs = [] then p else aud_record_hash (last rs)) \<and>
     aud_record_hash r = hex (sha256 E (record_preimage E r))"
  by (induction rs arbitrary: p)
     (auto simp: audit_record_hash_def record_preimage_def split: if_splits)

lemma verify_audit_chain_snoc:
  "verify_audit_chain E (rs @ [r]) = Inr () \<longleftrightarrow>
     verify_audit_chain E rs = Inr () \<and> aud_previous_hash r = audit_head rs \<and>
     aud_record_hash r = hex (sha256 E (record_preimage E r))"
  by (simp add: verify_audit_chain_def verify_audit_from_snoc audit_head_def)

lemma verify_audit_chain_Nil [simp]: "verify_audit_chain E [] = Inr ()"
  by (simp add: verify_audit_chain_def)

lemma set_hex: "set (hex bs) \<subseteq> hex_digit ` {0..<16}"
proof -
  have "of_char c div (16::nat) < 16" for c
    using nat_of_char_less_256 [of c] by linarith
  then show ?thesis by (auto simp: hex_def)
qed

lemma hex_not_genesis: "hex bs \<noteq> ''genesis''"
proof
  assume "hex bs = ''genesis''"
  then have "CHR ''g'' \<in> set (hex bs)" by simp
  then obtain n where "n < 16" "CHR ''g'' = hex_digit n" using set_hex by fastforce
  then have "of_char CHR ''g'' = (of_char (hex_digit n) :: nat)" by simp
  with \<open>n < 16\<close> show False by (auto simp: hex_digit_def split: if_splits)
qed

text \<open>Two verified logs with the same head agree record by record (without a hash collision).\<close>

lemma audit_logs_agree:
  assumes "verify_audit_chain E xs = Inr ()" and "verify_audit_chain E ys = Inr ()"
    and "audit_head xs = audit_head ys"
    and "\<forall>r \<in> set xs \<union> set ys. audit_fits E r"
    and "\<forall>r \<in> set xs. \<forall>q \<in> set ys. \<not> collides E (record_preimage E r) (record_preimage E q)"
  shows "map (audit_content E) xs = map (audit_content E) ys"
  using assms
proof (induction xs arbitrary: ys rule: rev_induct)
  case Nil
  show ?case
  proof (cases ys rule: rev_cases)
    case (snoc ys' y)
    with Nil.prems show ?thesis
      by (auto simp: verify_audit_chain_snoc audit_head_def hex_not_genesis [symmetric])
  qed simp
next
  case (snoc x xs)
  from snoc.prems(1) have x: "verify_audit_chain E xs = Inr ()" "aud_previous_hash x = audit_head xs"
      "aud_record_hash x = hex (sha256 E (record_preimage E x))"
    by (auto simp: verify_audit_chain_snoc)
  obtain ys' y where ys: "ys = ys' @ [y]"
    using snoc.prems(3) x(3) hex_not_genesis by (cases ys rule: rev_cases) (auto simp: audit_head_def)
  from snoc.prems(2) have y: "verify_audit_chain E ys' = Inr ()" "aud_previous_hash y = audit_head ys'"
      "aud_record_hash y = hex (sha256 E (record_preimage E y))"
    by (auto simp: verify_audit_chain_snoc ys)
  have same: "aud_record_hash x = aud_record_hash y" using snoc.prems(3) by (simp add: ys)
  then have "record_preimage E x = record_preimage E y"
    using x(3) y(3) snoc.prems(5) by (auto simp: ys intro: hex_sha256_eqD)
  with same snoc.prems(4) have content: "audit_content E x = audit_content E y"
    by (intro audit_preimage_inject) (auto simp: ys)
  then have "audit_head xs = audit_head ys'" using x(2) y(2) by (simp add: audit_content_def)
  with snoc.prems(4,5) x(1) y(1) have "map (audit_content E) xs = map (audit_content E) ys'"
    by (intro snoc.IH) (auto simp: ys)
  with content show ?case by (simp add: ys)
qed

section \<open>Properties\<close>

text \<open>
  Executing needs the whole approval path. In every history the status machine allows, an
  action that is \<open>Executing\<close> was proposed, passed the dry run, awaited approval, was authorised and
  had its preconditions checked, in this order and with nothing in between.
\<close>

theorem executing_only_after_approval:
  assumes "status_history (ActionStatus.Executing # h)"
  shows "h = [ActionStatus.PreconditionCheck, ActionStatus.Authorized, ActionStatus.AwaitingApproval,
              ActionStatus.DryRun, ActionStatus.Proposed]"
  using assms by (auto simp: unique_path)

theorem executing_only_after_approval_witness:
  "status_history [ActionStatus.Executing, ActionStatus.PreconditionCheck, ActionStatus.Authorized,
      ActionStatus.AwaitingApproval, ActionStatus.DryRun, ActionStatus.Proposed] \<and>
   tl [ActionStatus.Executing, ActionStatus.PreconditionCheck, ActionStatus.Authorized,
      ActionStatus.AwaitingApproval, ActionStatus.DryRun, ActionStatus.Proposed] =
   [ActionStatus.PreconditionCheck, ActionStatus.Authorized, ActionStatus.AwaitingApproval,
      ActionStatus.DryRun, ActionStatus.Proposed]"
proof -
  have h: "status_history [ActionStatus.Executing, ActionStatus.PreconditionCheck,
      ActionStatus.Authorized, ActionStatus.AwaitingApproval, ActionStatus.DryRun, ActionStatus.Proposed]"
    by (simp add: unique_path)
  show ?thesis using h executing_only_after_approval [OF h] by simp
qed

text \<open>
  The status machine always stops. A status is terminal exactly when nothing follows it, every
  step strictly raises the level, and no history is longer than nine statuses.
\<close>

theorem status_machine_terminates:
  "(status_is_terminal s \<longleftrightarrow> (\<forall>t. \<not> can_transition s t)) \<and>
   (can_transition s t \<longrightarrow> status_level s < status_level t) \<and>
   (status_history h \<longrightarrow> length h \<le> 9)"
proof (intro conjI impI)
  have next_of: "\<exists>t. can_transition s t" if "\<not> status_is_terminal s"
    using that by (cases s) auto
  moreover have "\<not> can_transition s t" if "status_is_terminal s" for t
    using that by (cases s) auto
  ultimately show "status_is_terminal s \<longleftrightarrow> (\<forall>t. \<not> can_transition s t)" by blast
next
  assume "status_history h"
  then show "length h \<le> 9"
    using history_length [of h] status_level_le [of "hd h"] by linarith
qed (rule can_transition_level)

theorem status_machine_terminates_witness:
  "status_is_terminal ActionStatus.Succeeded \<and>
   status_level ActionStatus.Proposed < status_level ActionStatus.DryRun \<and>
   length [ActionStatus.DryRun, ActionStatus.Proposed] \<le> 9"
  using status_machine_terminates [of ActionStatus.Proposed ActionStatus.DryRun
      "[ActionStatus.DryRun, ActionStatus.Proposed]"]
  by (simp add: unique_path)

text \<open>
  C31: the request hash binds what was reviewed. Two actions with the same request hash agree on the
  workspace, the tool with its version and schema, the target, the serialised parameters, the
  preconditions, the verification, the effect, the operation id and the expiry, unless SHA-256
  collides on their two preimages.
\<close>

theorem action_hash_binds_review:
  assumes "action_request_hash E a = action_request_hash E b"
    and "action_fits E a" and "action_fits E b"
    and "\<not> collides E (action_request_preimage E a) (action_request_preimage E b)"
  shows "act_workspace_id a = act_workspace_id b \<and> act_tool_id a = act_tool_id b \<and>
    act_tool_version a = act_tool_version b \<and> act_schema_hash a = act_schema_hash b \<and>
    act_normalized_target a = act_normalized_target b \<and>
    json_bytes E (act_normalized_parameters a) = json_bytes E (act_normalized_parameters b) \<and>
    act_preconditions a = act_preconditions b \<and>
    act_verification_spec a = act_verification_spec b \<and> act_effect a = act_effect b \<and>
    act_operation_id a = act_operation_id b \<and>
    rfc3339 E (act_expires_at a) = rfc3339 E (act_expires_at b)"
proof -
  from assms(1,4) have "action_request_preimage E a = action_request_preimage E b"
    unfolding action_request_hash_def by (rule hex_sha256_eqD)
  with assms(2,3) have "bound_fields E a = bound_fields E b" by (intro preimage_inject)
  then show ?thesis by (simp add: bound_fields_def)
qed

definition sample_action :: ActionRecord where
  "sample_action = \<lparr>act_action_id = 1, act_plan_id = 2, act_workspace_id = ''local-demo'',
     act_thread_id = 3, act_tool_id = DEMO_FAULT_TOOL, act_tool_version = TOOL_VERSION,
     act_schema_hash = ''sh'', act_effect = ''change_reversible'',
     act_normalized_target = ''demo:order-service'',
     act_normalized_parameters = JObj [(''mode'', JStr ''normal''), (''service'', JStr ''order-service'')],
     act_preconditions = [''mode!=normal''], act_expected_effect = ''fault mode normal'',
     act_dry_run_result = None, act_verification_spec = ''GET /health status=ok'',
     act_rollback_spec = None, act_blast_radius = ''local demo order-service only'',
     act_operation_id = ''op-1'', act_request_hash = [], act_status = ActionStatus.Proposed,
     act_approval_id = None, act_consumed_approval = False, act_expires_at = 5, act_updated_at = 5\<rparr>"

lemma sample_action_fits: "action_fits demo_ext sample_action"
  by (simp add: action_fits_def sample_action_def demo_ext_def fits_def DEMO_FAULT_TOOL_def
      TOOL_VERSION_def show_nat.simps)

theorem action_hash_binds_review_witness:
  "act_preconditions sample_action =
     act_preconditions (sample_action\<lparr>act_status := ActionStatus.Authorized\<rparr>)"
proof -
  let ?b = "sample_action\<lparr>act_status := ActionStatus.Authorized\<rparr>"
  have pre: "action_request_preimage demo_ext sample_action = action_request_preimage demo_ext ?b"
    by (simp add: action_request_preimage_def)
  have h: "action_request_hash demo_ext sample_action = action_request_hash demo_ext ?b"
    by (simp add: action_request_hash_def pre)
  have fits: "action_fits demo_ext ?b"
    using sample_action_fits by (simp add: action_fits_def)
  have "\<not> collides demo_ext (action_request_preimage demo_ext sample_action)
      (action_request_preimage demo_ext ?b)"
    by (simp add: collides_def pre)
  with action_hash_binds_review [OF h sample_action_fits fits] show ?thesis by blast
qed

text \<open>
  The audit chain is tamper evident. Two logs that both verify and end in the same record hash
  have the same records in the same order, field by field as far as the hash covers them, unless
  SHA-256 collides on a pair of their preimages. In particular no record can be changed, removed,
  inserted or reordered under a known head.
\<close>

theorem audit_head_determines_log:
  assumes "verify_audit_chain E xs = Inr ()" and "verify_audit_chain E ys = Inr ()"
    and "audit_head xs = audit_head ys"
    and "\<forall>r \<in> set xs \<union> set ys. audit_fits E r"
    and "\<forall>r \<in> set xs. \<forall>q \<in> set ys. \<not> collides E (record_preimage E r) (record_preimage E q)"
  shows "map (\<lambda>r. (aud_record_hash r, aud_previous_hash r, aud_actor r, aud_workspace_id r,
             aud_operation r, json_bytes E (aud_summary r), rfc3339 E (aud_created_at r))) xs =
         map (\<lambda>r. (aud_record_hash r, aud_previous_hash r, aud_actor r, aud_workspace_id r,
             aud_operation r, json_bytes E (aud_summary r), rfc3339 E (aud_created_at r))) ys"
  using audit_logs_agree [OF assms] by (simp only: audit_content_def [abs_def])

definition sample_audit :: "int \<Rightarrow> AuditRecord" where
  "sample_audit n = \<lparr>aud_seq = n,
     aud_record_hash = audit_record_hash demo_ext ''genesis'' ''operator'' (Some ''w'') ''op'' JNull 5,
     aud_previous_hash = ''genesis'', aud_actor = ''operator'', aud_workspace_id = Some ''w'',
     aud_operation = ''op'', aud_summary = JNull, aud_created_at = 5\<rparr>"

theorem audit_head_determines_log_witness:
  "verify_audit_chain demo_ext [sample_audit 1] = Inr () \<and>
   map aud_actor [sample_audit 1] = map aud_actor [sample_audit 2]"
proof -
  have v: "verify_audit_chain demo_ext [sample_audit n] = Inr ()" for n
    by (simp add: verify_audit_chain_def sample_audit_def)
  have f: "\<forall>r \<in> set [sample_audit 1] \<union> set [sample_audit 2]. audit_fits demo_ext r"
    by (simp add: audit_fits_def sample_audit_def fits_def demo_ext_def show_nat.simps)
  have c: "\<forall>r \<in> set [sample_audit 1]. \<forall>q \<in> set [sample_audit 2].
      \<not> collides demo_ext (record_preimage demo_ext r) (record_preimage demo_ext q)"
    by (simp add: collides_def demo_ext_def)
  have hd: "audit_head [sample_audit 1] = audit_head [sample_audit 2]"
    by (simp add: audit_head_def sample_audit_def)
  from audit_head_determines_log [OF v v hd f c] v show ?thesis by simp
qed

text \<open>
  The action policy never lets a change through unasked. \<open>Allow\<close> is returned only for an
  observing action, \<open>Ask\<close> only for a reversible change, and neither is returned while the kill switch
  is on, remediation or the workspace's permission is off, the tool is an extension or \<open>exec\<close>, or the
  workspace is limited to observing and the action is not an observation.
\<close>

theorem action_policy_is_guarded:
  "(evaluate_action i = PolicyDecision.Allow \<longrightarrow> api_effect i = Observe) \<and>
   (evaluate_action i = PolicyDecision.Ask \<longrightarrow> api_effect i = ChangeReversible) \<and>
   (evaluate_action i \<noteq> PolicyDecision.Deny \<longrightarrow>
      \<not> api_kill_switch i \<and> api_remediation_enabled i \<and> api_allow_remediation i \<and>
      \<not> starts_with ''mcp/'' (api_tool_id i) \<and> \<not> starts_with ''custom/'' (api_tool_id i) \<and>
      api_tool_id i \<noteq> ''exec'' \<and>
      (api_max_effect i = Some Observe \<longrightarrow> api_effect i = Observe))"
  by (auto simp: evaluate_action_def deny_extension_remediation_def is_extension_tool_def
      split: CapabilityEffect.splits)

theorem action_policy_is_guarded_witness:
  "evaluate_action \<lparr>api_workspace_id = ''w'', api_allow_remediation = True, api_max_effect = None,
      api_tool_id = K8S_SCALE_TOOL, api_effect = ChangeReversible, api_production_safe = True,
      api_kill_switch = False, api_remediation_enabled = True\<rparr> = PolicyDecision.Ask \<and>
   K8S_SCALE_TOOL \<noteq> ''exec''"
  using action_policy_is_guarded [of "\<lparr>api_workspace_id = ''w'', api_allow_remediation = True,
      api_max_effect = None, api_tool_id = K8S_SCALE_TOOL, api_effect = ChangeReversible,
      api_production_safe = True, api_kill_switch = False, api_remediation_enabled = True\<rparr>"]
  by (simp add: evaluate_action_def deny_extension_remediation_def is_extension_tool_def
      starts_with_def K8S_SCALE_TOOL_def)

end
