(* ===== verification/Events.thy ===== *)
theory Events
  imports Action
begin

text \<open>
  The domain data of a conversation and its events: threads, turns, items
  (\<open>src/runtime/thread.rs\<close>), evidence and diagnosis records (\<open>src/evidence/\<close>), incident context
  (\<open>src/runtime/incident.rs\<close>), model items (\<open>src/model/provider.rs\<close>) and the event envelope with its
  wire format (\<open>src/runtime/event.rs\<close>). The lemmas show that an envelope survives its own
  serialisation and how a line of the first log format is read.
\<close>

section \<open>Identifiers and statuses\<close>

type_synonym workspace_id = string

definition default_workspace :: workspace_id where
  "default_workspace = ''default''"

definition is_ascii_alphanumeric :: "char \<Rightarrow> bool" where
  "is_ascii_alphanumeric c =
     (let n = of_char c :: nat in 48 \<le> n \<and> n \<le> 57 \<or> 65 \<le> n \<and> n \<le> 90 \<or> 97 \<le> n \<and> n \<le> 122)"

definition validate_workspace_id :: "workspace_id \<Rightarrow> unit result" where
  "validate_workspace_id w =
     (let v = trim w in
      if v = [] \<or> 64 < length v
      then Inl (OpsCodexError.Protocol ''workspace id must be 1-64 characters'')
      else if \<not> list_all (\<lambda>c. is_ascii_alphanumeric c \<or> c = CHR ''-'' \<or> c = CHR ''_'') v
      then Inl (OpsCodexError.Protocol ''workspace id must be alphanumeric, dash, or underscore'')
      else Inr ())"

datatype ThreadStatus = Idle | Running | WaitingApproval | Interrupted | NeedsReconciliation | Failed

datatype TurnStatus =
    Running | WaitingApproval | Completed | Failed | Cancelled | Interrupted | NeedsReconciliation

section \<open>Evidence, diagnosis and incident data\<close>

record EvidenceMeta =
  evm_source :: string
  evm_query :: "string option"
  evm_timestamp :: time
  evm_duration_ms :: nat
  evm_truncated :: bool
  evm_evidence_id :: "uuid option"
  evm_source_kind :: "string option"
  evm_source_ref :: "string option"
  evm_query_or_operation :: "string option"
  evm_observed_at :: "time option"
  evm_time_range :: "(time \<times> time) option"
  evm_summary :: string
  evm_artifact_ref :: "string option"
  evm_content_type :: string
  evm_byte_size :: nat
  evm_sensitivity :: Sensitivity
  evm_sha256 :: string

definition new_evidence :: "time \<Rightarrow> string \<Rightarrow> EvidenceMeta" where
  "new_evidence now source =
     \<lparr>evm_source = source, evm_query = None, evm_timestamp = now, evm_duration_ms = 0,
      evm_truncated = False, evm_evidence_id = None, evm_source_kind = Some source,
      evm_source_ref = Some source, evm_query_or_operation = None, evm_observed_at = Some now,
      evm_time_range = None, evm_summary = [], evm_artifact_ref = None,
      evm_content_type = ''application/json'', evm_byte_size = 0, evm_sensitivity = Internal,
      evm_sha256 = []\<rparr>"

definition with_query :: "string \<Rightarrow> EvidenceMeta \<Rightarrow> EvidenceMeta" where
  "with_query q m = m\<lparr>evm_query := Some q, evm_query_or_operation := Some q\<rparr>"

definition EVIDENCE_NS :: uuid where
  "EVIDENCE_NS = 0xb41c9e207d3a5f189c6b2e4f0a1d8c57"

definition synthesize_evidence_id :: "ext \<Rightarrow> uuid \<Rightarrow> nat \<Rightarrow> string \<Rightarrow> uuid" where
  "synthesize_evidence_id E thread_id seq source =
     uuid_v5 E EVIDENCE_NS (uuid_string E thread_id @ '':'' @ show_nat seq @ '':'' @ source)"

definition evidence_id_or_synthesize :: "ext \<Rightarrow> EvidenceMeta \<Rightarrow> uuid \<Rightarrow> nat \<Rightarrow> uuid" where
  "evidence_id_or_synthesize E m thread_id seq =
     (case evm_evidence_id m of
        Some i \<Rightarrow> i
      | None \<Rightarrow> synthesize_evidence_id E thread_id seq (evm_source m))"

datatype ClaimKind = Observed | Inferred | Recommended
datatype Confidence = Low | Medium | High

record Claim =
  cl_claim_id :: uuid
  cl_kind :: ClaimKind
  cl_statement :: string
  cl_evidence_ids :: "uuid list"
  cl_confidence :: Confidence

record Diagnosis =
  dg_summary :: string
  dg_claims :: "Claim list"
  dg_recommended_actions :: "string list"
  dg_limitations :: "string list"

record IncidentContext =
  ic_service :: "string option"
  ic_environment :: "string option"
  ic_starts_at :: "time option"
  ic_ends_at :: "time option"
  ic_labels :: "(string \<times> string) list"
  ic_annotations :: "(string \<times> string) list"
  ic_source :: "(string \<times> string option) option"

section \<open>Events\<close>

datatype StreamKind = Domain | Delivery

datatype RuntimeEvent =
    ThreadCreated
  | UserMessage string "IncidentContext option"
  | TurnStarted
  | AssistantDelta string
  | AssistantCompleted string "Diagnosis option"
  | ToolStarted string string json
  | ToolProposed string string json
  | ToolAuthorized string string string
  | ToolExecutionStarted string string
  | ToolCompleted string string json EvidenceMeta bool
  | ApprovalRequired uuid string json
  | ApprovalResolved uuid bool
  | TurnCompleted
  | TurnFailed string
  | TurnCancelled
  | ContextCompacted string nat nat "string list" "string list" string
      "string option" "string option" "string option" string
  | ActionUpdated uuid uuid string string string json

fun event_name :: "RuntimeEvent \<Rightarrow> string" where
  "event_name ThreadCreated = ''thread_created''"
| "event_name (UserMessage _ _) = ''user_message''"
| "event_name TurnStarted = ''turn_started''"
| "event_name (AssistantDelta _) = ''assistant_delta''"
| "event_name (AssistantCompleted _ _) = ''assistant_completed''"
| "event_name (ToolStarted _ _ _) = ''tool_started''"
| "event_name (ToolProposed _ _ _) = ''tool_proposed''"
| "event_name (ToolAuthorized _ _ _) = ''tool_authorized''"
| "event_name (ToolExecutionStarted _ _) = ''tool_execution_started''"
| "event_name (ToolCompleted _ _ _ _ _) = ''tool_completed''"
| "event_name (ApprovalRequired _ _ _) = ''approval_required''"
| "event_name (ApprovalResolved _ _) = ''approval_resolved''"
| "event_name TurnCompleted = ''turn_completed''"
| "event_name (TurnFailed _) = ''turn_failed''"
| "event_name TurnCancelled = ''turn_cancelled''"
| "event_name (ContextCompacted _ _ _ _ _ _ _ _ _ _) = ''context_compacted''"
| "event_name (ActionUpdated _ _ _ _ _ _) = ''action_updated''"

fun is_tool_proposal :: "RuntimeEvent \<Rightarrow> bool" where
  "is_tool_proposal (ToolStarted _ _ _) = True"
| "is_tool_proposal (ToolProposed _ _ _) = True"
| "is_tool_proposal _ = False"

fun tool_call_parts :: "RuntimeEvent \<Rightarrow> (string \<times> string \<times> json) option" where
  "tool_call_parts (ToolStarted call_id tool args) = Some (call_id, tool, args)"
| "tool_call_parts (ToolProposed call_id tool args) = Some (call_id, tool, args)"
| "tool_call_parts _ = None"

fun stream_kind_for :: "RuntimeEvent \<Rightarrow> StreamKind" where
  "stream_kind_for (AssistantDelta _) = Delivery"
| "stream_kind_for _ = Domain"

definition EVENT_SCHEMA_VERSION :: nat where "EVENT_SCHEMA_VERSION = 2"
definition V1_EVENT_NAMESPACE :: uuid where "V1_EVENT_NAMESPACE = 0x7c3d2e915a4b4f6c8d1e0a9b8c7d6e5f"

definition ENVELOPE_KEYS :: "string list" where
  "ENVELOPE_KEYS = [''schema_version'', ''stream_kind'', ''event_id'', ''seq'', ''workspace_id'',
     ''thread_id'', ''turn_id'', ''item_id'', ''causation_id'', ''timestamp'', ''event'']"

record EventEnvelope =
  env_schema_version :: nat
  env_stream_kind :: StreamKind
  env_event_id :: uuid
  env_seq :: nat
  env_workspace_id :: workspace_id
  env_thread_id :: uuid
  env_turn_id :: "uuid option"
  env_item_id :: "uuid option"
  env_causation_id :: "uuid option"
  env_timestamp :: time
  env_event :: RuntimeEvent

definition with_causation ::
    "uuid \<Rightarrow> time \<Rightarrow> nat \<Rightarrow> uuid \<Rightarrow> uuid option \<Rightarrow> uuid option \<Rightarrow> uuid option \<Rightarrow> RuntimeEvent \<Rightarrow> EventEnvelope" where
  "with_causation fresh_id now seq thread_id turn_id item_id causation_id event =
     \<lparr>env_schema_version = EVENT_SCHEMA_VERSION, env_stream_kind = stream_kind_for event,
      env_event_id = fresh_id, env_seq = seq, env_workspace_id = default_workspace,
      env_thread_id = thread_id, env_turn_id = turn_id, env_item_id = item_id,
      env_causation_id = causation_id, env_timestamp = now, env_event = event\<rparr>"

definition new_envelope :: "uuid \<Rightarrow> time \<Rightarrow> nat \<Rightarrow> uuid \<Rightarrow> uuid option \<Rightarrow> RuntimeEvent \<Rightarrow> EventEnvelope" where
  "new_envelope fresh_id now seq thread_id turn_id event =
     with_causation fresh_id now seq thread_id turn_id None None event"

definition with_workspace :: "workspace_id \<Rightarrow> EventEnvelope \<Rightarrow> EventEnvelope" where
  "with_workspace w e = e\<lparr>env_workspace_id := w\<rparr>"

section \<open>Items, threads and model items\<close>

datatype Item =
    UserMessageItem string
  | AssistantMessageItem string
  | ToolCallItem string string json
  | ToolResultItem string json EvidenceMeta
  | ApprovalItem uuid "bool option"
  | SummaryItem string nat nat string "string list"
  | ActionItem uuid string string string json

record Thread =
  th_id :: uuid
  th_workspace_id :: workspace_id
  th_items :: "Item list"
  th_status :: ThreadStatus
  th_created_at :: time
  th_updated_at :: time
  th_parent_thread_id :: "uuid option"
  th_forked_at_seq :: "nat option"

datatype ModelItem =
    UserMsg string
  | AssistantMsg string
  | ToolCall string string json
  | ToolResult string json

section \<open>Wire format of the envelope\<close>

text \<open>
  Encoders and decoders that the \<open>Serialize\<close> and \<open>Deserialize\<close> derivations generate, and those of the
  identifier and time types: a parameter of the wire format, with the law the code relies on (what
  was written is read back) as hypothesis.
\<close>

record codec =
  event_to_json :: "RuntimeEvent \<Rightarrow> json"
  event_of_json :: "json \<Rightarrow> string + RuntimeEvent"
  uuid_to_json :: "uuid \<Rightarrow> json"
  uuid_of_json :: "json \<Rightarrow> string + uuid"
  time_to_json :: "time \<Rightarrow> json"
  time_of_json :: "json \<Rightarrow> string + time"
  kind_of_json :: "json \<Rightarrow> string + StreamKind"

fun kind_to_json :: "StreamKind \<Rightarrow> json" where
  "kind_to_json Domain = JStr ''domain''"
| "kind_to_json Delivery = JStr ''delivery''"

definition opt_entry :: "string \<Rightarrow> json option \<Rightarrow> (string \<times> json) list" where
  "opt_entry k v = (case v of None \<Rightarrow> [] | Some j \<Rightarrow> [(k, j)])"

definition envelope_to_json :: "codec \<Rightarrow> EventEnvelope \<Rightarrow> json" where
  "envelope_to_json C e = JObj (
     [(''schema_version'', JNum (int (env_schema_version e))),
      (''stream_kind'', kind_to_json (env_stream_kind e)),
      (''event_id'', uuid_to_json C (env_event_id e)),
      (''seq'', JNum (int (env_seq e))),
      (''workspace_id'', JStr (env_workspace_id e)),
      (''thread_id'', uuid_to_json C (env_thread_id e))]
     @ opt_entry ''turn_id'' (map_option (uuid_to_json C) (env_turn_id e))
     @ opt_entry ''item_id'' (map_option (uuid_to_json C) (env_item_id e))
     @ opt_entry ''causation_id'' (map_option (uuid_to_json C) (env_causation_id e))
     @ [(''timestamp'', time_to_json C (env_timestamp e)),
        (''type'', JStr (event_name (env_event e))),
        (''event'', event_to_json C (env_event e))])"

definition v1_event_id :: "ext \<Rightarrow> uuid \<Rightarrow> nat \<Rightarrow> uuid" where
  "v1_event_id E thread_id seq =
     uuid_v5 E V1_EVENT_NAMESPACE (uuid_string E thread_id @ '':'' @ show_nat seq)"

definition parse_event :: "codec \<Rightarrow> json \<Rightarrow> string + RuntimeEvent" where
  "parse_event C j =
     (case json_get ''event'' j of
        Some nested \<Rightarrow>
          if json_is_object nested then event_of_json C nested
          else event_of_json C (JObj (case j of
            JObj kvs \<Rightarrow> filter (\<lambda>(k, v). k \<notin> set ENVELOPE_KEYS) kvs | _ \<Rightarrow> []))
      | None \<Rightarrow> event_of_json C (JObj (case j of
            JObj kvs \<Rightarrow> filter (\<lambda>(k, v). k \<notin> set ENVELOPE_KEYS) kvs | _ \<Rightarrow> [])))"

text \<open>An optional entry: absent or null is \<open>None\<close>, anything else must decode.\<close>

definition decode_opt_nonnull :: "(json \<Rightarrow> string + 'a) \<Rightarrow> json option \<Rightarrow> string + 'a option" where
  "decode_opt_nonnull d v =
     (case v of None \<Rightarrow> Inr None
      | Some j \<Rightarrow> if j = JNull then Inr None else and_then (d j) (\<lambda>x. Inr (Some x)))"

definition decode_or :: "(json \<Rightarrow> string + 'a) \<Rightarrow> 'a \<Rightarrow> json option \<Rightarrow> string + 'a" where
  "decode_or d dflt v = (case v of None \<Rightarrow> Inr dflt | Some j \<Rightarrow> d j)"

definition from_value :: "ext \<Rightarrow> codec \<Rightarrow> time \<Rightarrow> json \<Rightarrow> string + EventEnvelope" where
  "from_value E C now j =
    (if \<not> json_is_object j then Inl ''event envelope must be an object'' else
     let get = (\<lambda>k. json_get k j);
         schema_version = (case Option.bind (get ''schema_version'') json_as_u64 of
            None \<Rightarrow> 1 | Some n \<Rightarrow> n mod 2 ^ 32)
     in and_then (ok_or ''event envelope missing seq'' (Option.bind (get ''seq'') json_as_u64)) (\<lambda>seq.
        and_then (ok_or ''event envelope missing thread_id'' (get ''thread_id'')) (\<lambda>tj.
        and_then (uuid_of_json C tj) (\<lambda>thread_id.
        and_then (decode_opt_nonnull (uuid_of_json C) (get ''turn_id'')) (\<lambda>turn_id.
        and_then (decode_opt_nonnull (uuid_of_json C) (get ''item_id'')) (\<lambda>item_id.
        and_then (decode_opt_nonnull (uuid_of_json C) (get ''causation_id'')) (\<lambda>causation_id.
        and_then (decode_or (time_of_json C) now (get ''timestamp'')) (\<lambda>timestamp.
        let workspace_id = str_or default_workspace (Option.bind (get ''workspace_id'') json_as_str) in
        and_then (parse_event C j) (\<lambda>event.
        and_then (decode_or (kind_of_json C) (stream_kind_for event) (get ''stream_kind'')) (\<lambda>stream_kind.
        and_then (decode_or (uuid_of_json C) (v1_event_id E thread_id seq) (get ''event_id'')) (\<lambda>event_id.
          Inr \<lparr>env_schema_version = schema_version, env_stream_kind = stream_kind,
               env_event_id = event_id, env_seq = seq, env_workspace_id = workspace_id,
               env_thread_id = thread_id, env_turn_id = turn_id, env_item_id = item_id,
               env_causation_id = causation_id, env_timestamp = timestamp,
               env_event = event\<rparr>)))))))))))"

section \<open>Lemmas\<close>

text \<open>
  The law of the generated codecs, for the values of one envelope: encode then decode is the
  identity, an event is an object and an identifier is not null.
\<close>

definition uuid_codec :: "codec \<Rightarrow> uuid \<Rightarrow> bool" where
  "uuid_codec C u = (uuid_of_json C (uuid_to_json C u) = Inr u \<and> uuid_to_json C u \<noteq> JNull)"

definition codec_ok :: "codec \<Rightarrow> EventEnvelope \<Rightarrow> bool" where
  "codec_ok C e =
     (event_of_json C (event_to_json C (env_event e)) = Inr (env_event e) \<and>
      json_is_object (event_to_json C (env_event e)) \<and>
      uuid_codec C (env_event_id e) \<and> uuid_codec C (env_thread_id e) \<and>
      (\<forall>u \<in> set_option (env_turn_id e) \<union> set_option (env_item_id e) \<union> set_option (env_causation_id e).
         uuid_codec C u) \<and>
      time_of_json C (time_to_json C (env_timestamp e)) = Inr (env_timestamp e) \<and>
      kind_of_json C (kind_to_json (env_stream_kind e)) = Inr (env_stream_kind e))"

lemma map_of_opt_entry [simp]: "map_of (opt_entry k v) x = (if x = k then v else None)"
  by (auto simp: opt_entry_def split: option.splits)

lemma decode_opt_uuid:
  "\<forall>u \<in> set_option v. uuid_codec C u \<Longrightarrow>
     decode_opt_nonnull (uuid_of_json C) (map_option (uuid_to_json C) v) = Inr v"
  by (cases v) (auto simp: decode_opt_nonnull_def uuid_codec_def)

lemma stream_kind_for_Delivery: "stream_kind_for ev = Delivery \<longleftrightarrow> (\<exists>d. ev = AssistantDelta d)"
  by (cases ev) auto

lemma decode_encoded:
  assumes "codec_ok C e" and "env_schema_version e < 2 ^ 32" and "env_seq e < 2 ^ 64"
  shows "from_value E C now (envelope_to_json C e) = Inr e"
proof -
  have get: "json_get ''event'' (envelope_to_json C e) = Some (event_to_json C (env_event e))"
    "json_get ''schema_version'' (envelope_to_json C e) = Some (JNum (int (env_schema_version e)))"
    "json_get ''seq'' (envelope_to_json C e) = Some (JNum (int (env_seq e)))"
    "json_get ''thread_id'' (envelope_to_json C e) = Some (uuid_to_json C (env_thread_id e))"
    "json_get ''turn_id'' (envelope_to_json C e) = map_option (uuid_to_json C) (env_turn_id e)"
    "json_get ''item_id'' (envelope_to_json C e) = map_option (uuid_to_json C) (env_item_id e)"
    "json_get ''causation_id'' (envelope_to_json C e) = map_option (uuid_to_json C) (env_causation_id e)"
    "json_get ''timestamp'' (envelope_to_json C e) = Some (time_to_json C (env_timestamp e))"
    "json_get ''workspace_id'' (envelope_to_json C e) = Some (JStr (env_workspace_id e))"
    "json_get ''stream_kind'' (envelope_to_json C e) = Some (kind_to_json (env_stream_kind e))"
    "json_get ''event_id'' (envelope_to_json C e) = Some (uuid_to_json C (env_event_id e))"
    by (simp_all add: envelope_to_json_def map_add_def split: option.split)
  have obj: "json_is_object (envelope_to_json C e)" by (simp add: envelope_to_json_def)
  have ev: "parse_event C (envelope_to_json C e) = Inr (env_event e)"
    using assms(1) by (simp add: parse_event_def get codec_ok_def)
  have opts:
    "decode_opt_nonnull (uuid_of_json C) (map_option (uuid_to_json C) (env_turn_id e)) = Inr (env_turn_id e)"
    "decode_opt_nonnull (uuid_of_json C) (map_option (uuid_to_json C) (env_item_id e)) = Inr (env_item_id e)"
    "decode_opt_nonnull (uuid_of_json C) (map_option (uuid_to_json C) (env_causation_id e)) = Inr (env_causation_id e)"
    using assms(1) by (auto simp: codec_ok_def intro!: decode_opt_uuid)
  show ?thesis
    using assms
    by (simp add: from_value_def obj get ev opts codec_ok_def uuid_codec_def decode_or_def)
qed

section \<open>Properties\<close>

text \<open>
  An event survives the log. Serialising an envelope and reading it back gives the same
  envelope, whatever the time of reading, for every envelope whose schema version and sequence
  number fit their types.
\<close>

theorem envelope_round_trip:
  assumes "codec_ok C e" and "env_schema_version e < 2 ^ 32" and "env_seq e < 2 ^ 64"
  shows "from_value E C now (envelope_to_json C e) = Inr e"
  using assms by (rule decode_encoded)

definition demo_codec :: codec where
  "demo_codec = \<lparr>
     event_to_json = (\<lambda>ev. JObj [(''type'', JStr (event_name ev))]),
     event_of_json = (\<lambda>j. if json_get_str ''type'' j = Some ''turn_started'' then Inr TurnStarted else Inl ''event''),
     uuid_to_json = (\<lambda>u. JNum (int u)),
     uuid_of_json = (\<lambda>j. case j of JNum i \<Rightarrow> Inr (nat i) | _ \<Rightarrow> Inl ''uuid''),
     time_to_json = JNum, time_of_json = (\<lambda>j. case j of JNum i \<Rightarrow> Inr i | _ \<Rightarrow> Inl ''time''),
     kind_of_json = (\<lambda>j. if j = JStr ''delivery'' then Inr Delivery else Inr Domain)\<rparr>"

theorem envelope_round_trip_witness:
  "from_value demo_ext demo_codec 9 (envelope_to_json demo_codec
      (new_envelope 7 5 1 3 (Some 4) TurnStarted)) = Inr (new_envelope 7 5 1 3 (Some 4) TurnStarted)"
proof -
  have "codec_ok demo_codec (new_envelope 7 5 1 3 (Some 4) TurnStarted)"
    by (simp add: codec_ok_def demo_codec_def new_envelope_def with_causation_def uuid_codec_def
        json_get_str_def)
  then show ?thesis
    by (rule envelope_round_trip) (simp_all add: new_envelope_def with_causation_def EVENT_SCHEMA_VERSION_def)
qed

text \<open>
  Lines of the first log format stay readable. A flat line with only \<open>seq\<close>, \<open>thread_id\<close>, a
  timestamp and the fields of the event itself is read as schema version 1 of the default workspace,
  with the stream kind of its event and an event id derived from the thread and the sequence number;
  the event is decoded from exactly the fields that are not envelope fields.
\<close>

theorem v1_line_is_readable:
  assumes "uuid_codec C t" and "time_of_json C (time_to_json C ts) = Inr ts" and "n < 2 ^ 64"
    and "fst ` set flds \<inter> set ENVELOPE_KEYS = {}"
    and "event_of_json C (JObj flds) = Inr ev"
  shows "from_value E C now (JObj ([(''seq'', JNum (int n)), (''thread_id'', uuid_to_json C t),
      (''timestamp'', time_to_json C ts)] @ flds)) =
    Inr \<lparr>env_schema_version = 1, env_stream_kind = stream_kind_for ev,
         env_event_id = v1_event_id E t n, env_seq = n, env_workspace_id = ''default'',
         env_thread_id = t, env_turn_id = None, env_item_id = None, env_causation_id = None,
         env_timestamp = ts, env_event = ev\<rparr>"
proof -
  have none: "map_of flds k = None" if "k \<in> set ENVELOPE_KEYS" for k
    using assms(4) that by (auto simp: map_of_eq_None_iff)
  have keep: "filter (\<lambda>(k, v). k \<notin> set ENVELOPE_KEYS) flds = flds"
    using assms(4) by (auto simp: filter_id_conv)
  have env: "''seq'' \<in> set ENVELOPE_KEYS" "''thread_id'' \<in> set ENVELOPE_KEYS"
    "''timestamp'' \<in> set ENVELOPE_KEYS" by (simp_all add: ENVELOPE_KEYS_def)
  have nones: "map_of flds ''event'' = None" "map_of flds ''schema_version'' = None"
    "map_of flds ''turn_id'' = None" "map_of flds ''item_id'' = None"
    "map_of flds ''causation_id'' = None" "map_of flds ''workspace_id'' = None"
    "map_of flds ''stream_kind'' = None" "map_of flds ''event_id'' = None"
    by (rule none, simp add: ENVELOPE_KEYS_def)+
  show ?thesis
    using assms(1,2,3,5) env
    by (simp add: from_value_def parse_event_def decode_opt_nonnull_def decode_or_def nones keep
        uuid_codec_def default_workspace_def)
qed

theorem v1_line_is_readable_witness:
  "from_value demo_ext demo_codec 9 (JObj ([(''seq'', JNum (int 1)), (''thread_id'', uuid_to_json demo_codec 3),
      (''timestamp'', time_to_json demo_codec 5)] @ [(''type'', JStr ''turn_started'')])) =
    Inr \<lparr>env_schema_version = 1, env_stream_kind = stream_kind_for TurnStarted,
         env_event_id = v1_event_id demo_ext 3 1, env_seq = 1, env_workspace_id = ''default'',
         env_thread_id = 3, env_turn_id = None, env_item_id = None, env_causation_id = None,
         env_timestamp = 5, env_event = TurnStarted\<rparr>"
  by (rule v1_line_is_readable)
     (simp_all add: uuid_codec_def demo_codec_def ENVELOPE_KEYS_def json_get_str_def)

end
