(* ===== verification/Context.thy ===== *)
theory Context
  imports Events
begin

text \<open>
  Building the model's input from a conversation (\<open>src/runtime/context.rs\<close>): tool calls and tool
  results that do not belong together are dropped, and the oldest items are cut until the rest fits
  the budget without separating a call from its result. The lemmas characterise both passes against
  a specification by counting: the result is well paired, fits the budget, is a suffix of the
  paired history, and no longer suffix would do.
\<close>

section \<open>Definitions\<close>

definition USIZE_MAX :: nat where "USIZE_MAX = 2 ^ 64 - 1"

record ContextBudget =
  cb_max_items :: nat
  cb_max_tokens :: nat
  cb_max_bytes :: nat
  cb_max_evidence :: nat
  cb_max_tool_calls :: nat
  cb_max_cost_micros :: nat

definition default_budget :: ContextBudget where
  "default_budget = \<lparr>cb_max_items = 100, cb_max_tokens = 24000, cb_max_bytes = 96000,
     cb_max_evidence = 32, cb_max_tool_calls = 24, cb_max_cost_micros = 0\<rparr>"

definition items_only :: "nat \<Rightarrow> ContextBudget" where
  "items_only max_items = \<lparr>cb_max_items = max_items, cb_max_tokens = USIZE_MAX,
     cb_max_bytes = USIZE_MAX, cb_max_evidence = USIZE_MAX, cb_max_tool_calls = USIZE_MAX,
     cb_max_cost_micros = 0\<rparr>"

fun is_call :: "ModelItem \<Rightarrow> bool" where
  "is_call (ToolCall _ _ _) = True"
| "is_call _ = False"

fun is_result :: "ModelItem \<Rightarrow> bool" where
  "is_result (ToolResult _ _) = True"
| "is_result _ = False"

fun is_tool_result :: "string \<Rightarrow> ModelItem \<Rightarrow> bool" where
  "is_tool_result expected (ToolResult c _) = (c = expected)"
| "is_tool_result expected _ = False"

definition count_tool_calls :: "ModelItem list \<Rightarrow> nat" where
  "count_tool_calls items = length (filter is_call items)"

definition count_evidence :: "ModelItem list \<Rightarrow> nat" where
  "count_evidence items = length (filter is_result items)"

fun model_item_json :: "ModelItem \<Rightarrow> json" where
  "model_item_json (UserMsg content) =
     JObj [(''type'', JStr ''user_message''), (''content'', JStr content)]"
| "model_item_json (AssistantMsg content) =
     JObj [(''type'', JStr ''assistant_message''), (''content'', JStr content)]"
| "model_item_json (ToolCall call_id name arguments) =
     JObj [(''type'', JStr ''tool_call''), (''call_id'', JStr call_id), (''name'', JStr name),
           (''arguments'', arguments)]"
| "model_item_json (ToolResult call_id output) =
     JObj [(''type'', JStr ''tool_result''), (''call_id'', JStr call_id), (''output'', output)]"

definition item_bytes :: "ext \<Rightarrow> ModelItem \<Rightarrow> nat" where
  "item_bytes E item = length (json_bytes E (model_item_json item))"

definition item_tokens :: "ext \<Rightarrow> ModelItem \<Rightarrow> nat" where
  "item_tokens E item = (item_bytes E item + 3) div 4"

definition total_bytes :: "ext \<Rightarrow> ModelItem list \<Rightarrow> nat" where
  "total_bytes E items = sum_list (map (item_bytes E) items)"

definition total_tokens :: "ext \<Rightarrow> ModelItem list \<Rightarrow> nat" where
  "total_tokens E items = sum_list (map (item_tokens E) items)"

definition estimated_cost_micros :: "ext \<Rightarrow> ModelItem list \<Rightarrow> nat" where
  "estimated_cost_micros E items = min (total_tokens E items * 10) (2 ^ 64 - 1)"

definition within_budget :: "ext \<Rightarrow> ContextBudget \<Rightarrow> ModelItem list \<Rightarrow> bool" where
  "within_budget E budget items =
     (length items \<le> cb_max_items budget \<and>
      count_tool_calls items \<le> cb_max_tool_calls budget \<and>
      count_evidence items \<le> cb_max_evidence budget \<and>
      total_bytes E items \<le> cb_max_bytes budget \<and>
      total_tokens E items \<le> cb_max_tokens budget \<and>
      (cb_max_cost_micros budget = 0 \<or> estimated_cost_micros E items \<le> cb_max_cost_micros budget))"

text \<open>The queues of calls without a result yet, by call identifier.\<close>

type_synonym pending_calls = "string \<Rightarrow> nat list option"

definition push_back :: "string \<Rightarrow> nat \<Rightarrow> pending_calls \<Rightarrow> pending_calls" where
  "push_back c i m = m(c \<mapsto> (case m c of None \<Rightarrow> [] | Some q \<Rightarrow> q) @ [i])"

fun mark_paired :: "nat \<Rightarrow> ModelItem list \<Rightarrow> pending_calls \<Rightarrow> bool list \<Rightarrow> bool list" where
  "mark_paired i [] m paired = paired"
| "mark_paired i (item # items) m paired =
     (case item of
        ToolCall c _ _ \<Rightarrow> mark_paired (Suc i) items (push_back c i m) paired
      | ToolResult c _ \<Rightarrow>
          (case m c of
             None \<Rightarrow> mark_paired (Suc i) items m paired
           | Some [] \<Rightarrow> mark_paired (Suc i) items m paired
           | Some (k # q) \<Rightarrow> mark_paired (Suc i) items (m(c \<mapsto> q)) (paired[k := True, i := True]))
      | _ \<Rightarrow> mark_paired (Suc i) items m paired)"

definition drop_unpaired :: "ModelItem list \<Rightarrow> ModelItem list" where
  "drop_unpaired history =
     (let paired = mark_paired 0 history Map.empty (replicate (length history) False)
      in map snd (filter (\<lambda>(index, item). paired ! index \<or> \<not> (is_call item \<or> is_result item))
           (zip [0..<length history] history)))"

fun collect_pairs :: "nat \<Rightarrow> ModelItem list \<Rightarrow> pending_calls \<Rightarrow> (nat \<times> nat) list" where
  "collect_pairs i [] m = []"
| "collect_pairs i (item # items) m =
     (case item of
        ToolCall c _ _ \<Rightarrow> collect_pairs (Suc i) items (push_back c i m)
      | ToolResult c _ \<Rightarrow>
          (case m c of
             None \<Rightarrow> collect_pairs (Suc i) items m
           | Some [] \<Rightarrow> collect_pairs (Suc i) items m
           | Some (k # q) \<Rightarrow> (k, i) # collect_pairs (Suc i) items (m(c \<mapsto> q)))
      | _ \<Rightarrow> collect_pairs (Suc i) items m)"

definition adjusted_start :: "(nat \<times> nat) list \<Rightarrow> nat \<Rightarrow> nat" where
  "adjusted_start pairs start =
     (case map (\<lambda>(k, j). j + 1) (filter (\<lambda>(k, j). k < start \<and> start \<le> j) pairs) of
        [] \<Rightarrow> start
      | e # es \<Rightarrow> fold max es e)"

lemma fold_max_in: "fold max es (e :: nat) \<in> set (e # es)"
  by (induction es arbitrary: e) (auto simp: max_def split: if_splits)

definition crossing :: "(nat \<times> nat) list \<Rightarrow> nat \<Rightarrow> (nat \<times> nat) list" where
  "crossing pairs start = filter (\<lambda>(k, j). k < start \<and> start \<le> j) pairs"

lemma adjusted_start_none: "crossing pairs start = [] \<Longrightarrow> adjusted_start pairs start = start"
  by (simp add: adjusted_start_def crossing_def)

lemma adjusted_start_some:
  assumes "crossing pairs start \<noteq> []"
  shows "\<exists>(k, j) \<in> set (crossing pairs start). adjusted_start pairs start = j + 1"
proof -
  from assms obtain e es where xs: "map (\<lambda>(k, j). j + 1) (crossing pairs start) = e # es"
    by (cases "crossing pairs start") auto
  then have "adjusted_start pairs start = fold max es e"
    by (simp add: adjusted_start_def crossing_def)
  also have "\<dots> \<in> set (map (\<lambda>(k, j). j + 1) (crossing pairs start))"
    unfolding xs by (rule fold_max_in)
  finally show ?thesis by auto
qed

lemma crossing_iff: "(k, j) \<in> set (crossing pairs start) \<longleftrightarrow> (k, j) \<in> set pairs \<and> k < start \<and> start \<le> j"
  by (auto simp: crossing_def)

lemma adjusted_start_ge: "start \<le> adjusted_start pairs start"
  using adjusted_start_none [of pairs start] adjusted_start_some [of pairs start]
  by (cases "crossing pairs start = []") (auto simp: crossing_iff)

function trim_loop ::
    "(ModelItem list \<Rightarrow> bool) \<Rightarrow> (nat \<times> nat) list \<Rightarrow> ModelItem list \<Rightarrow> nat \<Rightarrow> ModelItem list" where
  "trim_loop fit pairs valid start =
     (if start < length valid then
        if fit (drop start valid) then
          if adjusted_start pairs start = start then drop start valid
          else trim_loop fit pairs valid (adjusted_start pairs start)
        else trim_loop fit pairs valid (Suc start)
      else [])"
  by pat_completeness auto
termination
proof (relation "measure (\<lambda>(_, _, valid, start). length valid - start)", goal_cases)
  case (2 fit pairs valid start)
  then show ?case using adjusted_start_ge [of start pairs] by auto
qed auto

declare trim_loop.simps [simp del]

definition trim_pair_safe_suffix :: "(ModelItem list \<Rightarrow> bool) \<Rightarrow> ModelItem list \<Rightarrow> ModelItem list" where
  "trim_pair_safe_suffix fit valid =
     (if fit valid then valid
      else trim_loop fit (collect_pairs 0 valid Map.empty) valid 0)"

definition build_model_context :: "ext \<Rightarrow> ModelItem list \<Rightarrow> ContextBudget \<Rightarrow> ModelItem list" where
  "build_model_context E history budget =
     (let valid = drop_unpaired history
      in if valid = [] then valid else trim_pair_safe_suffix (within_budget E budget) valid)"

definition push_new :: "string \<Rightarrow> string list \<Rightarrow> string list" where
  "push_new x xs = (if x \<in> set xs then xs else xs @ [x])"

fun summary_fields ::
    "ext \<Rightarrow> EventEnvelope list \<Rightarrow>
     string option \<times> string list \<times> string list \<times> string list \<times> string list \<Rightarrow>
     string option \<times> string list \<times> string list \<times> string list \<times> string list" where
  "summary_fields E [] acc = acc"
| "summary_fields E (envelope # envs) (last_user, constraints, evidence_ids, failures, approvals) =
     summary_fields E envs
       (case env_event envelope of
          UserMessage content _ \<Rightarrow>
            (Some content, push_new content constraints, evidence_ids, failures, approvals)
        | ToolCompleted _ tool _ evidence success \<Rightarrow>
            (last_user, constraints,
             evidence_ids @ (case evm_evidence_id evidence of None \<Rightarrow> [] | Some i \<Rightarrow> [uuid_string E i]),
             failures @ (if success then [] else [tool]), approvals)
        | ApprovalResolved _ approved \<Rightarrow>
            (last_user, constraints, evidence_ids, failures,
             approvals @ [if approved then ''approved'' else ''rejected''])
        | _ \<Rightarrow> (last_user, constraints, evidence_ids, failures, approvals))"

definition local_summary :: "ext \<Rightarrow> EventEnvelope list \<Rightarrow> string" where
  "local_summary E envs =
     (case summary_fields E envs (None, [], [], [], []) of
        (last_user, constraints, evidence_ids, failures, approvals) \<Rightarrow>
          join_with [CHR 0x0A]
            ([''Compacted investigation context. Original events are retained.'']
             @ (case last_user of None \<Rightarrow> [] | Some user \<Rightarrow> [''Unresolved user request: '' @ user])
             @ (if constraints = [] then []
                else [''User constraints: '' @ join_with '' | '' (take 8 constraints)])
             @ (if evidence_ids = [] then []
                else [''Key evidence IDs: '' @ join_with '', '' evidence_ids])
             @ (if failures = [] then [] else [''Tool failures: '' @ join_with '', '' failures])
             @ (if approvals = [] then [] else [''Approval results: '' @ join_with '', '' approvals])))"

section \<open>Specification by counting\<close>

fun call_key :: "ModelItem \<Rightarrow> string option" where
  "call_key (ToolCall c _ _) = Some c"
| "call_key _ = None"

fun result_key :: "ModelItem \<Rightarrow> string option" where
  "result_key (ToolResult c _) = Some c"
| "result_key _ = None"

definition calls_of :: "string \<Rightarrow> ModelItem list \<Rightarrow> nat" where
  "calls_of c xs = length (filter (\<lambda>x. call_key x = Some c) xs)"

definition results_of :: "string \<Rightarrow> ModelItem list \<Rightarrow> nat" where
  "results_of c xs = length (filter (\<lambda>x. result_key x = Some c) xs)"

text \<open>
  A conversation is well paired when every call identifier has as many results as calls, and
  nowhere more results than calls so far.
\<close>

definition well_paired :: "ModelItem list \<Rightarrow> bool" where
  "well_paired xs \<longleftrightarrow> (\<forall>c. results_of c xs = calls_of c xs \<and>
     (\<forall>n. results_of c (take n xs) \<le> calls_of c (take n xs)))"

text \<open>The same with \<open>L c\<close> calls of \<open>c\<close> already open.\<close>

fun balanced :: "(string \<Rightarrow> nat) \<Rightarrow> ModelItem list \<Rightarrow> bool" where
  "balanced L [] = (\<forall>c. L c = 0)"
| "balanced L (x # xs) =
     (case call_key x of
        Some c \<Rightarrow> balanced (L(c := Suc (L c))) xs
      | None \<Rightarrow> (case result_key x of
          Some c \<Rightarrow> 0 < L c \<and> balanced (L(c := L c - 1)) xs
        | None \<Rightarrow> balanced L xs))"

lemma count_simps [simp]:
  "calls_of c [] = 0" "results_of c [] = 0"
  "calls_of c (x # xs) = (if call_key x = Some c then Suc (calls_of c xs) else calls_of c xs)"
  "results_of c (x # xs) = (if result_key x = Some c then Suc (results_of c xs) else results_of c xs)"
  by (simp_all add: calls_of_def results_of_def)

lemma calls_of_append [simp]: "calls_of c (xs @ ys) = calls_of c xs + calls_of c ys"
  by (simp add: calls_of_def)

lemma results_of_append [simp]: "results_of c (xs @ ys) = results_of c xs + results_of c ys"
  by (simp add: results_of_def)

lemma all_take_Cons: "(\<forall>n. P (take n (x # xs))) \<longleftrightarrow> P [] \<and> (\<forall>n. P (x # take n xs))"
proof
  assume all: "\<forall>n. P (take n (x # xs))"
  have "P (take 0 (x # xs))" "P (take (Suc n) (x # xs))" for n using all by blast+
  then show "P [] \<and> (\<forall>n. P (x # take n xs))" by simp
next
  assume r: "P [] \<and> (\<forall>n. P (x # take n xs))"
  show "\<forall>n. P (take n (x # xs))"
  proof
    fix n show "P (take n (x # xs))" using r by (cases n) auto
  qed
qed

lemma balanced_counts:
  "balanced L xs \<longleftrightarrow> (\<forall>c. results_of c xs = L c + calls_of c xs \<and>
     (\<forall>n. results_of c (take n xs) \<le> L c + calls_of c (take n xs)))"
proof (induction xs arbitrary: L)
  case Nil
  show ?case by auto
next
  case (Cons x xs)
  let ?Q = "\<lambda>L c ys. results_of c ys \<le> L c + calls_of c ys"
  have split: "(\<forall>n. ?Q L c (take n (x # xs))) \<longleftrightarrow> (\<forall>n. ?Q L c (x # take n xs))" for c
    using all_take_Cons [of "?Q L c" x xs] by simp
  show ?case
  proof (cases x)
    case (ToolCall c n a)
    have "(\<forall>n. ?Q L c' (x # take n xs)) \<longleftrightarrow> (\<forall>n. ?Q (L(c := Suc (L c))) c' (take n xs))" for c'
      using ToolCall by auto
    with Cons.IH show ?thesis unfolding split using ToolCall by auto
  next
    case (ToolResult c out)
    show ?thesis
    proof (cases "0 < L c")
      case True
      then obtain l where "L c = Suc l" by (cases "L c") auto
      then have "(\<forall>n. ?Q L c' (x # take n xs)) \<longleftrightarrow> (\<forall>n. ?Q (L(c := L c - 1)) c' (take n xs))" for c'
        using ToolResult by (cases "c' = c") auto
      with Cons.IH True show ?thesis unfolding split using ToolResult by auto
    next
      case False
      then have "\<not> ?Q L c (x # take 0 xs)" using ToolResult by simp
      then have "\<not> (\<forall>n. ?Q L c (x # take n xs))" by blast
      moreover have "\<not> balanced L (x # xs)" using False ToolResult by simp
      ultimately show ?thesis unfolding split by blast
    qed
  qed (use Cons.IH split in auto)
qed

lemma well_paired_balanced: "well_paired xs \<longleftrightarrow> balanced (\<lambda>_. 0) xs"
  by (simp add: well_paired_def balanced_counts)

section \<open>The matching of calls and results\<close>

definition queue :: "pending_calls \<Rightarrow> string \<Rightarrow> nat list" where
  "queue m c = (case m c of None \<Rightarrow> [] | Some q \<Rightarrow> q)"

lemma queue_simps [simp]:
  "queue Map.empty c = []"
  "queue (m(c \<mapsto> q)) c' = (if c' = c then q else queue m c')"
  "queue (push_back c i m) c' = (if c' = c then queue m c @ [i] else queue m c')"
  by (auto simp: queue_def push_back_def split: option.splits)

lemma collect_pairs_Cons:
  "collect_pairs i (x # xs) m =
     (case call_key x of
        Some c \<Rightarrow> collect_pairs (Suc i) xs (push_back c i m)
      | None \<Rightarrow> (case result_key x of
          Some c \<Rightarrow> (case queue m c of
              [] \<Rightarrow> collect_pairs (Suc i) xs m
            | k # q \<Rightarrow> (k, i) # collect_pairs (Suc i) xs (m(c \<mapsto> q)))
        | None \<Rightarrow> collect_pairs (Suc i) xs m))"
  by (cases x) (auto simp: queue_def split: option.splits list.splits)

lemma mark_paired_Cons:
  "mark_paired i (x # xs) m p =
     (case call_key x of
        Some c \<Rightarrow> mark_paired (Suc i) xs (push_back c i m) p
      | None \<Rightarrow> (case result_key x of
          Some c \<Rightarrow> (case queue m c of
              [] \<Rightarrow> mark_paired (Suc i) xs m p
            | k # q \<Rightarrow> mark_paired (Suc i) xs (m(c \<mapsto> q)) (p[k := True, i := True]))
        | None \<Rightarrow> mark_paired (Suc i) xs m p))"
  by (cases x) (auto simp: queue_def split: option.splits list.splits)

declare collect_pairs.simps(2) [simp del] and mark_paired.simps(2) [simp del]

definition indices :: "(nat \<times> nat) list \<Rightarrow> nat set" where
  "indices P = fst ` set P \<union> snd ` set P"

lemma nth_update_in: "n < length p \<Longrightarrow> p[k := v] ! n = (if k = n then v else p ! n)"
  by (simp add: nth_list_update)

lemma mark_paired_indices:
  "n < length p \<Longrightarrow>
     mark_paired i xs m p ! n = (p ! n \<or> n \<in> indices (collect_pairs i xs m))"
  by (induction xs arbitrary: i m p)
     (auto simp: mark_paired_Cons collect_pairs_Cons indices_def nth_update_in
       split: option.split list.split)

definition pend_ok :: "ModelItem list \<Rightarrow> nat \<Rightarrow> pending_calls \<Rightarrow> bool" where
  "pend_ok h i m \<longleftrightarrow> (\<forall>c. distinct (queue m c) \<and>
     (\<forall>k \<in> set (queue m c). k < i \<and> call_key (h ! k) = Some c))"

lemma pend_ok_empty [simp]: "pend_ok h i Map.empty"
  by (simp add: pend_ok_def)

lemma pend_ok_skip: "pend_ok h i m \<Longrightarrow> pend_ok h (Suc i) m"
  by (auto simp: pend_ok_def less_Suc_eq)

lemma pend_ok_push: "pend_ok h i m \<Longrightarrow> call_key (h ! i) = Some c \<Longrightarrow> pend_ok h (Suc i) (push_back c i m)"
  by (auto simp: pend_ok_def less_Suc_eq)

lemma pend_ok_pop:
  assumes "pend_ok h i m" and "queue m c = k # q"
  shows "pend_ok h (Suc i) (m(c \<mapsto> q))" and "k < i" and "call_key (h ! k) = Some c"
    and "k \<notin> set (queue (m(c \<mapsto> q)) c')"
proof -
  have c: "distinct (k # q)" "\<forall>k' \<in> set (k # q). k' < i \<and> call_key (h ! k') = Some c"
    using assms by (metis pend_ok_def)+
  then show "k < i" "call_key (h ! k) = Some c" by auto
  show "pend_ok h (Suc i) (m(c \<mapsto> q))"
    using assms(1) c by (auto simp: pend_ok_def less_Suc_eq)
  show "k \<notin> set (queue (m(c \<mapsto> q)) c')"
    using assms(1) c by (auto simp: pend_ok_def)
qed

definition matching :: "ModelItem list \<Rightarrow> nat \<Rightarrow> (nat \<times> nat) list \<Rightarrow> bool" where
  "matching h i P \<longleftrightarrow> distinct (map fst P) \<and> distinct (map snd P) \<and>
     (\<forall>(k, j) \<in> set P. k < j \<and> i \<le> j \<and> j < length h \<and>
        (\<exists>c. call_key (h ! k) = Some c \<and> result_key (h ! j) = Some c))"

lemma collect_pairs_origin:
  "(k, j) \<in> set (collect_pairs i xs m) \<Longrightarrow> i \<le> k \<or> (\<exists>c. k \<in> set (queue m c))"
proof (induction xs arbitrary: i m)
  case (Cons x xs)
  show ?case
  proof (cases "call_key x")
    case (Some c)
    with Cons.prems have "(k, j) \<in> set (collect_pairs (Suc i) xs (push_back c i m))"
      by (simp add: collect_pairs_Cons)
    from Cons.IH [OF this] show ?thesis by (auto split: if_splits)
  next
    case None
    show ?thesis
    proof (cases "result_key x")
      case (Some c)
      show ?thesis
      proof (cases "queue m c")
        case Nil
        with None Some Cons.prems have "(k, j) \<in> set (collect_pairs (Suc i) xs m)"
          by (simp add: collect_pairs_Cons)
        then show ?thesis using Cons.IH by fastforce
      next
        case q: (Cons k' q)
        then have "k \<in> set (queue m c')" if "k \<in> set (queue (m(c \<mapsto> q)) c')" for c'
          using that by (auto split: if_splits)
        moreover from q None Some Cons.prems
        have "k = k' \<or> (k, j) \<in> set (collect_pairs (Suc i) xs (m(c \<mapsto> q)))"
          by (auto simp: collect_pairs_Cons)
        ultimately show ?thesis using Cons.IH [of "Suc i" "m(c \<mapsto> q)"] q
          by (metis Suc_leD list.set_intros(1))
      qed
    qed (use None Cons in \<open>fastforce simp: collect_pairs_Cons\<close>)
  qed
qed simp

lemma collect_pairs_matching:
  assumes "drop i h = xs" and "pend_ok h i m"
  shows "matching h i (collect_pairs i xs m)"
  using assms
proof (induction xs arbitrary: i m)
  case Nil
  then show ?case by (simp add: matching_def)
next
  case (Cons x xs)
  have i: "i < length h" "h ! i = x" "drop (Suc i) h = xs"
    using Cons.prems(1) by (auto simp: Cons_nth_drop_Suc drop_Suc nth_via_drop dest: sym)
       (metis drop_eq_Nil2 linorder_not_less list.distinct(1), metis drop_Suc tl_drop list.sel(3))
  have weaken: "matching h i P" if "matching h (Suc i) P" for P
    using that by (fastforce simp: matching_def)
  show ?case
  proof (cases "call_key x")
    case (Some c)
    with Cons.IH [OF i(3) pend_ok_push [OF Cons.prems(2)]] i show ?thesis
      by (auto simp: collect_pairs_Cons intro!: weaken)
  next
    case None
    show ?thesis
    proof (cases "result_key x")
      case None
      with \<open>call_key x = None\<close> Cons.IH [OF i(3) pend_ok_skip [OF Cons.prems(2)]] show ?thesis
        by (auto simp: collect_pairs_Cons intro!: weaken)
    next
      case (Some c)
      show ?thesis
      proof (cases "queue m c")
        case Nil
        with None Some Cons.IH [OF i(3) pend_ok_skip [OF Cons.prems(2)]] show ?thesis
          by (auto simp: collect_pairs_Cons intro!: weaken)
      next
        case q: (Cons k q)
        note pop = pend_ok_pop [OF Cons.prems(2) q]
        let ?P = "collect_pairs (Suc i) xs (m(c \<mapsto> q))"
        have M: "matching h (Suc i) ?P" by (rule Cons.IH [OF i(3) pop(1)])
        have "k \<notin> fst ` set ?P"
          using collect_pairs_origin [of k _ "Suc i" xs "m(c \<mapsto> q)"] pop(2,4) by fastforce
        moreover have "i \<notin> snd ` set ?P" using M by (auto simp: matching_def)
        ultimately have "matching h i ((k, i) # ?P)"
          using M pop(2,3) i Some by (fastforce simp: matching_def)
        with None Some q show ?thesis by (simp add: collect_pairs_Cons)
      qed
    qed
  qed
qed

section \<open>Dropping unpaired items\<close>

definition kept :: "ModelItem list \<Rightarrow> nat set" where
  "kept h = {i. i \<in> indices (collect_pairs 0 h Map.empty) \<or>
     call_key (h ! i) = None \<and> result_key (h ! i) = None}"

lemma no_tool_iff: "\<not> (is_call x \<or> is_result x) \<longleftrightarrow> call_key x = None \<and> result_key x = None"
  by (cases x) auto

lemma filter_zip_nths:
  "map snd (filter (\<lambda>(i, x). i \<in> S) (zip [a..<a + length h] h)) = nths h {i. i + a \<in> S}"
proof (induction h arbitrary: a)
  case (Cons x h)
  have "[a..<a + length (x # h)] = a # [Suc a..<Suc a + length h]" by (simp add: upt_conv_Cons del: upt_Suc)
  with Cons.IH [of "Suc a"] show ?case by (simp add: nths_Cons)
qed simp

lemma drop_unpaired_nths: "drop_unpaired h = nths h (kept h)"
proof -
  let ?p = "mark_paired 0 h Map.empty (replicate (length h) False)"
  have "filter (\<lambda>(i, x). ?p ! i \<or> \<not> (is_call x \<or> is_result x)) (zip [0..<length h] h)
      = filter (\<lambda>(i, x). i \<in> kept h) (zip [0..<length h] h)"
    by (rule filter_cong) (auto simp: mark_paired_indices kept_def no_tool_iff [symmetric] in_set_zip)
  then show ?thesis
    using filter_zip_nths [of "kept h" 0 h] by (simp add: drop_unpaired_def Let_def)
qed

lemma nths_snoc: "nths (xs @ [x]) S = nths xs S @ (if length xs \<in> S then [x] else [])"
  by (simp add: nths_append nths_Cons)

lemma take_nths: "\<exists>m. take n (nths h S) = nths (take m h) S"
proof (induction h rule: rev_induct)
  case (snoc x h)
  show ?case
  proof (cases "n \<le> length (nths h S)")
    case True
    then obtain m where "take n (nths (h @ [x]) S) = nths (take m h) S"
      using snoc by (auto simp: nths_snoc)
    then have "take n (nths (h @ [x]) S) = nths (take (min m (length h)) (h @ [x])) S"
      by (simp add: min_def)
    then show ?thesis by blast
  next
    case False
    then have "take n (nths (h @ [x]) S) = nths (take (length (h @ [x])) (h @ [x])) S"
      by (auto simp: nths_snoc)
    then show ?thesis by blast
  qed
qed simp

lemma count_nths:
  "length (filter Q (nths h S)) = card {i. i < length h \<and> i \<in> S \<and> Q (h ! i)}"
proof (induction h rule: rev_induct)
  case (snoc x h)
  have "{i. i < length (h @ [x]) \<and> i \<in> S \<and> Q ((h @ [x]) ! i)} =
      {i. i < length h \<and> i \<in> S \<and> Q (h ! i)} \<union> (if length h \<in> S \<and> Q x then {length h} else {})"
    by (auto simp: nth_append less_Suc_eq)
  with snoc show ?case by (simp add: nths_snoc)
qed simp

lemma count_nths_take:
  "length (filter Q (nths (take m h) S)) = card {i. i < m \<and> i < length h \<and> i \<in> S \<and> Q (h ! i)}"
  unfolding count_nths by (rule arg_cong [where f = card]) auto

lemma filter_nths_kept:
  "(\<And>i. i < length h \<Longrightarrow> Q (h ! i) \<Longrightarrow> i \<in> S) \<Longrightarrow> filter Q (nths h S) = filter Q h"
proof (induction h rule: rev_induct)
  case (snoc x h)
  have "filter Q (nths h S) = filter Q h"
    by (rule snoc.IH) (metis snoc.prems length_append_singleton less_Suc_eq nth_append)
  with snoc.prems [of "length h"] show ?case by (auto simp: nths_snoc)
qed simp

lemma drop_unpaired_prefix_counts:
  fixes h m c
  defines "R \<equiv> {i. i < m \<and> i < length h \<and> i \<in> kept h \<and> result_key (h ! i) = Some c}"
    and "C \<equiv> {i. i < m \<and> i < length h \<and> i \<in> kept h \<and> call_key (h ! i) = Some c}"
  shows "card R \<le> card C" and "length h \<le> m \<Longrightarrow> card R = card C"
proof -
  let ?P = "collect_pairs 0 h Map.empty"
  define Q where "Q = {(k, j) \<in> set ?P. j < m \<and> result_key (h ! j) = Some c}"
  have M: "matching h 0 ?P" by (rule collect_pairs_matching) simp_all
  have inj: "inj_on fst Q" "inj_on snd Q"
    using M by (auto simp: matching_def Q_def distinct_map intro: inj_on_subset)
  have R: "R = snd ` Q"
  proof (intro equalityI subsetI)
    fix j assume "j \<in> R"
    then have "j \<in> indices ?P" "result_key (h ! j) = Some c" "j < m"
      by (auto simp: R_def kept_def)
    moreover have "j \<notin> fst ` set ?P"
    proof
      assume "j \<in> fst ` set ?P"
      then obtain c' where "call_key (h ! j) = Some c'" using M by (auto simp: matching_def)
      with \<open>result_key (h ! j) = Some c\<close> show False by (cases "h ! j") auto
    qed
    ultimately show "j \<in> snd ` Q" by (auto simp: indices_def Q_def image_iff)
  qed (use M in \<open>force simp: R_def Q_def matching_def kept_def indices_def image_iff\<close>)
  have fst_in: "fst ` Q \<subseteq> C"
    using M by (fastforce simp: C_def Q_def matching_def kept_def indices_def image_iff)
  have fin: "finite C" by (auto simp: C_def)
  have cardR: "card R = card (fst ` Q)"
    using inj by (simp add: R card_image)
  then show "card R \<le> card C" using fst_in fin by (simp add: card_mono)
  have "C \<subseteq> fst ` Q" if m: "length h \<le> m"
  proof
    fix k assume "k \<in> C"
    then have k: "k \<in> indices ?P" "call_key (h ! k) = Some c" by (auto simp: C_def kept_def)
    have "k \<notin> snd ` set ?P"
    proof
      assume "k \<in> snd ` set ?P"
      then obtain c' where "result_key (h ! k) = Some c'" using M by (auto simp: matching_def)
      with k(2) show False by (cases "h ! k") auto
    qed
    with k(1) obtain j where j: "(k, j) \<in> set ?P" by (auto simp: indices_def)
    with M k(2) m have "(k, j) \<in> Q" by (fastforce simp: Q_def matching_def)
    then show "k \<in> fst ` Q" by force
  qed
  then show "card R = card C" if "length h \<le> m"
    using that fst_in cardR by (simp add: subset_antisym)
qed

lemma drop_unpaired_well_paired: "well_paired (drop_unpaired h)"
  unfolding well_paired_def
proof (intro allI conjI)
  fix c n
  have counts: "results_of c (nths (take m h) (kept h)) =
        card {i. i < m \<and> i < length h \<and> i \<in> kept h \<and> result_key (h ! i) = Some c}"
      "calls_of c (nths (take m h) (kept h)) =
        card {i. i < m \<and> i < length h \<and> i \<in> kept h \<and> call_key (h ! i) = Some c}" for m
    unfolding results_of_def calls_of_def by (rule count_nths_take)+
  show "results_of c (drop_unpaired h) = calls_of c (drop_unpaired h)"
    using counts [of "length h"] drop_unpaired_prefix_counts(2) [of h "length h" c]
    by (simp add: drop_unpaired_nths)
  obtain m where "take n (drop_unpaired h) = nths (take m h) (kept h)"
    using take_nths by (metis drop_unpaired_nths)
  then show "results_of c (take n (drop_unpaired h)) \<le> calls_of c (take n (drop_unpaired h))"
    using counts [of m] drop_unpaired_prefix_counts(1) by simp
qed

section \<open>Cutting the oldest items\<close>

fun queues_after :: "nat \<Rightarrow> ModelItem list \<Rightarrow> pending_calls \<Rightarrow> pending_calls" where
  "queues_after i [] m = m"
| "queues_after i (x # xs) m =
     (case call_key x of
        Some c \<Rightarrow> queues_after (Suc i) xs (push_back c i m)
      | None \<Rightarrow> (case result_key x of
          Some c \<Rightarrow> (case queue m c of
              [] \<Rightarrow> queues_after (Suc i) xs m
            | k # q \<Rightarrow> queues_after (Suc i) xs (m(c \<mapsto> q)))
        | None \<Rightarrow> queues_after (Suc i) xs m))"

definition open_calls :: "pending_calls \<Rightarrow> string \<Rightarrow> nat" where
  "open_calls m c = length (queue m c)"

lemma collect_pairs_append:
  "collect_pairs i (xs @ ys) m =
     collect_pairs i xs m @ collect_pairs (i + length xs) ys (queues_after i xs m)"
  by (induction xs arbitrary: i m) (auto simp: collect_pairs_Cons split: option.split list.split)

lemma open_calls_upd [simp]:
  "open_calls (push_back c i m) = (open_calls m)(c := Suc (open_calls m c))"
  "open_calls (m(c \<mapsto> q)) = (open_calls m)(c := length q)"
  "open_calls Map.empty = (\<lambda>_. 0)"
  by (auto simp: open_calls_def)

lemma open_calls_pos: "0 < open_calls m c \<longleftrightarrow> queue m c \<noteq> []"
  "queue m c = k # q \<Longrightarrow> open_calls m c = Suc (length q)"
  by (simp_all add: open_calls_def)

lemma balanced_after:
  "balanced (open_calls m) (xs @ ys) \<Longrightarrow> balanced (open_calls (queues_after i xs m)) ys"
  by (induction xs arbitrary: i m) (auto simp: open_calls_pos split: option.splits list.split)

lemma balanced_pop:
  assumes "balanced (open_calls m) (x # xs)" and "call_key x = None" and "result_key x = Some c"
  obtains k q where "queue m c = k # q" and "balanced (open_calls (m(c \<mapsto> q))) xs"
  using assms by (cases "queue m c") (auto simp: open_calls_pos)

lemma collect_pairs_queue:
  "balanced (open_calls m) xs \<Longrightarrow> k \<in> set (queue m c) \<Longrightarrow> k \<in> fst ` set (collect_pairs i xs m)"
proof (induction xs arbitrary: i m)
  case Nil
  then show ?case by (simp add: open_calls_def)
next
  case (Cons x xs)
  show ?case
  proof (cases "call_key x")
    case (Some d)
    have "balanced (open_calls (push_back d i m)) xs" using Cons.prems(1) Some by simp
    moreover have "k \<in> set (queue (push_back d i m) c)" using Cons.prems(2) by auto
    ultimately have "k \<in> fst ` set (collect_pairs (Suc i) xs (push_back d i m))" by (rule Cons.IH)
    with Some show ?thesis by (simp add: collect_pairs_Cons)
  next
    case None
    show ?thesis
    proof (cases "result_key x")
      case (Some d)
      from Cons.prems(1) None Some obtain k' q where
        q: "queue m d = k' # q" and bal: "balanced (open_calls (m(d \<mapsto> q))) xs" by (rule balanced_pop)
      have "k = k' \<or> k \<in> set (queue (m(d \<mapsto> q)) c)" using Cons.prems(2) q by auto
      then have "k = k' \<or> k \<in> fst ` set (collect_pairs (Suc i) xs (m(d \<mapsto> q)))"
        using Cons.IH [OF bal] by blast
      with None Some q show ?thesis by (auto simp: collect_pairs_Cons)
    next
      case none: None
      have "k \<in> fst ` set (collect_pairs (Suc i) xs m)"
        by (rule Cons.IH) (use Cons.prems None none in auto)
      with None none show ?thesis by (simp add: collect_pairs_Cons)
    qed
  qed
qed

lemma collect_pairs_indices:
  "balanced (open_calls m) xs \<Longrightarrow> n < length xs \<Longrightarrow>
     call_key (xs ! n) \<noteq> None \<or> result_key (xs ! n) \<noteq> None \<Longrightarrow> i + n \<in> indices (collect_pairs i xs m)"
proof (induction xs arbitrary: i m n)
  case (Cons x xs)
  have tail: "i + n \<in> indices (collect_pairs (Suc i) xs m')"
    if "0 < n" "balanced (open_calls m') xs" for m'
    using Cons.IH [OF that(2), of "n - 1" "Suc i"] Cons.prems(2,3) that(1) by (cases n) auto
  show ?case
  proof (cases "call_key x")
    case (Some c)
    with Cons.prems(1) have bal: "balanced (open_calls (push_back c i m)) xs" by simp
    have "i \<in> fst ` set (collect_pairs (Suc i) xs (push_back c i m))"
      using bal by (rule collect_pairs_queue [where c = c]) simp
    with tail [OF _ bal] Some show ?thesis
      by (cases n) (auto simp: collect_pairs_Cons indices_def)
  next
    case None
    show ?thesis
    proof (cases "result_key x")
      case (Some c)
      from Cons.prems(1) None Some obtain k q where
        q: "queue m c = k # q" and bal: "balanced (open_calls (m(c \<mapsto> q))) xs" by (rule balanced_pop)
      with tail [OF _ bal] None Some show ?thesis
        by (cases n) (auto simp: collect_pairs_Cons indices_def)
    next
      case none: None
      with None Cons.prems have "0 < n" "balanced (open_calls m) xs" by (cases n; simp)+
      with tail None none show ?thesis by (simp add: collect_pairs_Cons)
    qed
  qed
qed simp

lemma collect_pairs_bounds:
  "(k, j) \<in> set (collect_pairs 0 xs Map.empty) \<Longrightarrow> k < j \<and> j < length xs"
  using collect_pairs_matching [of 0 xs xs Map.empty] by (auto simp: matching_def)

lemma collect_pairs_ge: "(k, j) \<in> set (collect_pairs i xs m) \<Longrightarrow> i \<le> j"
proof (induction xs arbitrary: i m)
  case (Cons x xs)
  then show ?case
    by (fastforce simp: collect_pairs_Cons split: option.splits list.splits)
qed simp

lemma pend_ok_after: "drop i h = xs @ ys \<Longrightarrow> pend_ok h i m \<Longrightarrow> pend_ok h (i + length xs) (queues_after i xs m)"
proof (induction xs arbitrary: i m)
  case (Cons x xs)
  have i: "h ! i = x" "drop (Suc i) h = xs @ ys"
    using Cons.prems(1) by (simp add: nth_via_drop) (metis Cons.prems(1) append_Cons drop_Suc list.sel(3) tl_drop)
  show ?case
    using Cons.IH [OF i(2)] Cons.prems(2) i(1)
    by (auto simp: pend_ok_push pend_ok_skip intro: pend_ok_pop(1) split: option.split list.split)
qed simp

text \<open>A cut separates no pair exactly when what is left is well paired.\<close>

lemma crossing_empty_iff:
  assumes "well_paired xs"
  shows "crossing (collect_pairs 0 xs Map.empty) n = [] \<longleftrightarrow> well_paired (drop n xs)"
proof (cases "n \<le> length xs")
  case False
  then have "crossing (collect_pairs 0 xs Map.empty) n = []"
    by (force simp: crossing_def filter_empty_conv dest: collect_pairs_bounds)
  with False show ?thesis by (simp add: well_paired_balanced)
next
  case True
  let ?m = "queues_after 0 (take n xs) Map.empty"
  let ?S = "collect_pairs n (drop n xs) ?m"
  have P: "collect_pairs 0 xs Map.empty = collect_pairs 0 (take n xs) Map.empty @ ?S"
    using collect_pairs_append [of 0 "take n xs" "drop n xs" Map.empty] True by (simp add: min_absorb2)
  have bal: "balanced (open_calls ?m) (drop n xs)"
    using assms balanced_after [of Map.empty "take n xs" "drop n xs"] by (simp add: well_paired_balanced)
  have ok: "pend_ok xs n ?m"
    using pend_ok_after [of 0 xs "take n xs" "drop n xs" Map.empty] True by (simp add: min_absorb2)
  have cross: "crossing (collect_pairs 0 xs Map.empty) n = [] \<longleftrightarrow> (\<forall>c. queue ?m c = [])"
  proof
    assume empty: "crossing (collect_pairs 0 xs Map.empty) n = []"
    show "\<forall>c. queue ?m c = []"
    proof (rule allI, rule ccontr)
      fix c assume "queue ?m c \<noteq> []"
      then obtain k where k: "k \<in> set (queue ?m c)" by (cases "queue ?m c") auto
      then have "k \<in> fst ` set ?S" using collect_pairs_queue [OF bal] by blast
      then obtain j where "(k, j) \<in> set ?S" by auto
      moreover have "k < n" using ok k by (auto simp: pend_ok_def)
      ultimately have "(k, j) \<in> set (crossing (collect_pairs 0 xs Map.empty) n)"
        using collect_pairs_ge by (auto simp: crossing_iff P)
      with empty show False by simp
    qed
  next
    assume none: "\<forall>c. queue ?m c = []"
    have False if "(k, j) \<in> set (crossing (collect_pairs 0 xs Map.empty) n)" for k j
    proof -
      from that have kj: "k < n" "n \<le> j" "(k, j) \<in> set (collect_pairs 0 (take n xs) Map.empty) \<union> set ?S"
        by (auto simp: crossing_iff P)
      then have "(k, j) \<in> set ?S" using collect_pairs_bounds [of k j "take n xs"] by auto
      with kj(1) none show False using collect_pairs_origin [of k j n "drop n xs" ?m] by auto
    qed
    then show "crossing (collect_pairs 0 xs Map.empty) n = []"
      by (metis list.set_intros(1) neq_Nil_conv surj_pair)
  qed
  also have "\<dots> \<longleftrightarrow> (\<forall>c. open_calls ?m c = 0)" by (simp add: open_calls_def)
  also have "\<dots> \<longleftrightarrow> well_paired (drop n xs)"
  proof
    assume "\<forall>c. open_calls ?m c = 0"
    then have "open_calls ?m = (\<lambda>_. 0)" by auto
    with bal show "well_paired (drop n xs)" by (simp add: well_paired_balanced)
  next
    assume "well_paired (drop n xs)"
    with bal show "\<forall>c. open_calls ?m c = 0" by (auto simp: balanced_counts well_paired_def)
  qed
  finally show ?thesis .
qed

lemma no_crossing_start: "crossing P n = [] \<longleftrightarrow> adjusted_start P n = n"
proof
  assume fixed: "adjusted_start P n = n"
  show "crossing P n = []"
  proof (rule ccontr)
    assume "crossing P n \<noteq> []"
    then obtain k j where "(k, j) \<in> set (crossing P n)" "adjusted_start P n = j + 1"
      using adjusted_start_some by blast
    with fixed show False by (simp add: crossing_iff)
  qed
qed (rule adjusted_start_none)

lemma crossing_until_adjusted:
  assumes "n \<le> t" and "t < adjusted_start P n"
  shows "crossing P t \<noteq> []"
proof -
  from assms have "crossing P n \<noteq> []" by (auto simp: no_crossing_start)
  then obtain k j where "(k, j) \<in> set (crossing P n)" "adjusted_start P n = j + 1"
    using adjusted_start_some by blast
  with assms have "(k, j) \<in> set (crossing P t)" by (auto simp: crossing_iff)
  then show ?thesis by auto
qed

text \<open>The loop returns the first suffix that fits and separates no pair.\<close>

lemma trim_loop_first:
  "\<exists>s \<ge> n. trim_loop fit P xs n = drop s xs \<and>
     (length xs \<le> s \<or> fit (drop s xs) \<and> crossing P s = []) \<and>
     (\<forall>t. n \<le> t \<and> t < s \<and> t < length xs \<longrightarrow> \<not> (fit (drop t xs) \<and> crossing P t = []))"
proof (induction fit P xs n rule: trim_loop.induct)
  case (1 fit P xs n)
  consider (out) "\<not> n < length xs"
    | (found) "n < length xs" "fit (drop n xs)" "adjusted_start P n = n"
    | (jump) "n < length xs" "fit (drop n xs)" "adjusted_start P n \<noteq> n"
    | (next_one) "n < length xs" "\<not> fit (drop n xs)"
    by blast
  then show ?case
  proof cases
    case out
    then show ?thesis by (intro exI [of _ n]) (auto simp: trim_loop.simps)
  next
    case found
    then show ?thesis by (intro exI [of _ n]) (auto simp: trim_loop.simps no_crossing_start)
  next
    case jump
    from "1.IH"(1) [OF jump] obtain s where s: "adjusted_start P n \<le> s"
      "trim_loop fit P xs (adjusted_start P n) = drop s xs"
      "length xs \<le> s \<or> fit (drop s xs) \<and> crossing P s = []"
      "\<And>t. adjusted_start P n \<le> t \<Longrightarrow> t < s \<Longrightarrow> t < length xs \<Longrightarrow> \<not> (fit (drop t xs) \<and> crossing P t = [])"
      by blast
    have "\<not> (fit (drop t xs) \<and> crossing P t = [])" if "n \<le> t" "t < s" "t < length xs" for t
      using that s(4) [of t] crossing_until_adjusted [of n t P]
      by (cases "adjusted_start P n \<le> t") auto
    moreover have "n \<le> s" using s(1) adjusted_start_ge [of n P] by linarith
    moreover have "trim_loop fit P xs n = drop s xs" using jump s(2) by (subst trim_loop.simps) simp
    ultimately show ?thesis using s(3) by blast
  next
    case next_one
    from "1.IH"(2) [OF next_one] obtain s where s: "Suc n \<le> s"
      "trim_loop fit P xs (Suc n) = drop s xs"
      "length xs \<le> s \<or> fit (drop s xs) \<and> crossing P s = []"
      "\<And>t. Suc n \<le> t \<Longrightarrow> t < s \<Longrightarrow> t < length xs \<Longrightarrow> \<not> (fit (drop t xs) \<and> crossing P t = [])"
      by blast
    have "\<not> (fit (drop t xs) \<and> crossing P t = [])" if "n \<le> t" "t < s" "t < length xs" for t
      using that s(4) [of t] next_one(2) by (cases "t = n") auto
    moreover have "trim_loop fit P xs n = drop s xs" using next_one s(2) by (subst trim_loop.simps) simp
    ultimately show ?thesis using s(1,3) by (intro exI [of _ s]) auto
  qed
qed

lemma trim_pair_safe_suffix_first:
  assumes "well_paired xs" and "fit []"
  shows "\<exists>s. trim_pair_safe_suffix fit xs = drop s xs \<and> fit (drop s xs) \<and> well_paired (drop s xs) \<and>
    (\<forall>t < s. \<not> (fit (drop t xs) \<and> well_paired (drop t xs)))"
proof (cases "fit xs")
  case True
  with assms show ?thesis by (intro exI [of _ 0]) (simp add: trim_pair_safe_suffix_def)
next
  case False
  obtain s where s: "trim_pair_safe_suffix fit xs = drop s xs"
    "length xs \<le> s \<or> fit (drop s xs) \<and> well_paired (drop s xs)"
    "\<And>t. t < s \<Longrightarrow> t < length xs \<Longrightarrow> \<not> (fit (drop t xs) \<and> well_paired (drop t xs))"
    using trim_loop_first [of 0 fit "collect_pairs 0 xs Map.empty" xs] False
    by (auto simp: trim_pair_safe_suffix_def crossing_empty_iff [OF assms(1)])
  show ?thesis
  proof (cases "length xs \<le> s")
    case True
    have "well_paired []" by (simp add: well_paired_balanced)
    with s True assms(2) show ?thesis by (intro exI [of _ "length xs"]) simp
  qed (use s in \<open>intro exI [of _ s], auto\<close>)
qed

lemma within_budget_Nil: "within_budget E b []"
  by (simp add: within_budget_def count_tool_calls_def count_evidence_def total_bytes_def
      total_tokens_def estimated_cost_micros_def)

lemma build_model_context_first:
  "\<exists>s. build_model_context E h b = drop s (drop_unpaired h) \<and>
     within_budget E b (build_model_context E h b) \<and> well_paired (build_model_context E h b) \<and>
     (\<forall>t < s. \<not> (within_budget E b (drop t (drop_unpaired h)) \<and> well_paired (drop t (drop_unpaired h))))"
proof (cases "drop_unpaired h = []")
  case True
  then show ?thesis
    by (intro exI [of _ 0]) (simp add: build_model_context_def within_budget_Nil well_paired_balanced)
next
  case False
  with trim_pair_safe_suffix_first [of "drop_unpaired h" "within_budget E b", OF drop_unpaired_well_paired within_budget_Nil]
  show ?thesis by (auto simp: build_model_context_def)
qed

section \<open>Properties\<close>

text \<open>
  The model's input is consistent and within budget. Whatever the history, every tool result in
  the built context is preceded by its call and every call is followed by its result, all six
  budgets are respected, and the context is a suffix of the history without its unpaired items.
\<close>

theorem model_context_paired_and_bounded:
  "well_paired (build_model_context E history budget) \<and>
   within_budget E budget (build_model_context E history budget) \<and>
   suffix (build_model_context E history budget) (drop_unpaired history)"
  using build_model_context_first [of E history budget] suffix_drop by metis

text \<open>
  C33: no more of the conversation is forgotten than necessary. Every suffix of the paired history
  that fits the budget and keeps calls and results together is at most as long as the built context.
\<close>

theorem model_context_is_longest:
  assumes "suffix s (drop_unpaired history)" and "well_paired s" and "within_budget E budget s"
  shows "length s \<le> length (build_model_context E history budget)"
proof -
  let ?v = "drop_unpaired history"
  from assms(1) obtain t where t: "s = drop t ?v" "t \<le> length ?v"
    by (metis append_eq_conv_conj length_append le_add1 suffix_def)
  obtain n where n: "build_model_context E history budget = drop n ?v"
    "\<forall>t < n. \<not> (within_budget E budget (drop t ?v) \<and> well_paired (drop t ?v))"
    using build_model_context_first [of E history budget] by blast
  with assms(2,3) t(1) have "n \<le> t" by (meson linorder_not_less)
  with n(1) t(1) show ?thesis by simp
qed

theorem model_context_is_longest_witness:
  "length [UserMsg ''b''] \<le>
     length (build_model_context demo_ext [ToolCall ''1'' ''exec'' JNull, ToolResult ''1'' JNull, UserMsg ''b'']
       (items_only 2))"
proof (rule model_context_is_longest)
  have "drop_unpaired [ToolCall ''1'' ''exec'' JNull, ToolResult ''1'' JNull, UserMsg ''b''] =
      [ToolCall ''1'' ''exec'' JNull, ToolResult ''1'' JNull, UserMsg ''b'']"
    by (simp add: drop_unpaired_def mark_paired_Cons push_back_def queue_def upt_rec)
  then show "suffix [UserMsg ''b'']
      (drop_unpaired [ToolCall ''1'' ''exec'' JNull, ToolResult ''1'' JNull, UserMsg ''b''])"
    by (simp add: suffix_def)
  show "well_paired [UserMsg ''b'']" by (simp add: well_paired_balanced)
  show "within_budget demo_ext (items_only 2) [UserMsg ''b'']"
    by (simp add: within_budget_def items_only_def USIZE_MAX_def count_tool_calls_def
        count_evidence_def total_bytes_def total_tokens_def item_tokens_def item_bytes_def demo_ext_def)
qed

text \<open>
  Only orphans are dropped. The first pass keeps the order and every message that is neither a
  call nor a result, and it leaves a history whose calls and results belong together as it is.
\<close>

theorem drop_unpaired_drops_only_orphans:
  "subseq (drop_unpaired history) history \<and>
   filter (\<lambda>x. \<not> (is_call x \<or> is_result x)) (drop_unpaired history) =
     filter (\<lambda>x. \<not> (is_call x \<or> is_result x)) history \<and>
   (well_paired history \<longrightarrow> drop_unpaired history = history)"
proof (intro conjI impI)
  show "subseq (drop_unpaired history) history"
    unfolding drop_unpaired_nths by (rule subseq_conv_nths [THEN iffD2]) blast
  show "filter (\<lambda>x. \<not> (is_call x \<or> is_result x)) (drop_unpaired history) =
     filter (\<lambda>x. \<not> (is_call x \<or> is_result x)) history"
    unfolding drop_unpaired_nths by (rule filter_nths_kept) (use no_tool_iff in \<open>auto simp: kept_def\<close>)
  assume "well_paired history"
  then have "n \<in> kept history" if "n < length history" for n
    using collect_pairs_indices [of Map.empty history n 0] that
    unfolding kept_def well_paired_balanced mem_Collect_eq open_calls_upd add_0 by blast
  then show "drop_unpaired history = history"
    unfolding drop_unpaired_nths by (auto intro: nths_all)
qed

theorem drop_unpaired_drops_only_orphans_witness:
  "drop_unpaired [UserMsg ''a''] = [UserMsg ''a'']"
proof -
  have "well_paired [UserMsg ''a'']" by (simp add: well_paired_balanced)
  then show ?thesis using drop_unpaired_drops_only_orphans by blast
qed

end
