(* ===== verification/Projection.thy ===== *)
theory Projection
  imports Context
begin

text \<open>
  What is read out of an event log: the incident block of a user message
  (\<open>src/runtime/incident.rs\<close>), the model's history, the thread with its items and status, and the
  thread summary (\<open>src/store/projection.rs\<close>). The lemmas show that streamed deltas never influence
  a projection, what a compaction hides, and that the items show the latest state of every action.
\<close>

section \<open>Incident context\<close>

definition MAX_CONTEXT_BYTES :: nat where "MAX_CONTEXT_BYTES = 16 * 1024"
definition MAX_LABELS :: nat where "MAX_LABELS = 32"
definition MAX_FIELD_CHARS :: nat where "MAX_FIELD_CHARS = 512"

definition incident_is_empty :: "IncidentContext \<Rightarrow> bool" where
  "incident_is_empty i =
     (ic_service i = None \<and> ic_environment i = None \<and> ic_starts_at i = None \<and> ic_ends_at i = None \<and>
      ic_labels i = [] \<and> ic_annotations i = [] \<and> ic_source i = None)"

definition string_map_json :: "(string \<times> string) list \<Rightarrow> json" where
  "string_map_json kvs = JObj (map (\<lambda>(k, v). (k, JStr v)) kvs)"

definition incident_json :: "codec \<Rightarrow> IncidentContext \<Rightarrow> json" where
  "incident_json C i = JObj (
     opt_entry ''service'' (map_option JStr (ic_service i))
     @ opt_entry ''environment'' (map_option JStr (ic_environment i))
     @ opt_entry ''starts_at'' (map_option (time_to_json C) (ic_starts_at i))
     @ opt_entry ''ends_at'' (map_option (time_to_json C) (ic_ends_at i))
     @ (if ic_labels i = [] then [] else [(''labels'', string_map_json (ic_labels i))])
     @ (if ic_annotations i = [] then [] else [(''annotations'', string_map_json (ic_annotations i))])
     @ opt_entry ''source'' (map_option (\<lambda>(kind, fingerprint).
         JObj ((''kind'', JStr kind) # opt_entry ''fingerprint'' (map_option JStr fingerprint))) (ic_source i)))"

definition incident_values :: "IncidentContext \<Rightarrow> string list" where
  "incident_values i =
     somes [ic_service i, ic_environment i] @ map snd (ic_labels i) @ map snd (ic_annotations i)
     @ somes [map_option fst (ic_source i), Option.bind (ic_source i) snd]"

definition incident_validate :: "ext \<Rightarrow> codec \<Rightarrow> IncidentContext \<Rightarrow> unit result" where
  "incident_validate E C i =
     (if MAX_CONTEXT_BYTES < length (json_bytes E (incident_json C i))
      then Inl (OpsCodexError.Protocol
        (''incident context exceeds '' @ show_nat MAX_CONTEXT_BYTES @ '' bytes''))
      else if MAX_LABELS < length (ic_labels i) \<or> MAX_LABELS < length (ic_annotations i)
      then Inl (OpsCodexError.Protocol
        (''incident context allows at most '' @ show_nat MAX_LABELS @ '' labels or annotations''))
      else if \<not> list_all (\<lambda>v. length v \<le> MAX_FIELD_CHARS) (incident_values i)
      then Inl (OpsCodexError.Protocol
        (''incident context fields cannot exceed '' @ show_nat MAX_FIELD_CHARS @ '' characters''))
      else (case (ic_starts_at i, ic_ends_at i) of
          (Some start, Some ends) \<Rightarrow>
            if ends < start
            then Inl (OpsCodexError.Protocol ''incident context ends_at must be after starts_at'')
            else Inr ()
        | _ \<Rightarrow> Inr ()))"

definition prompt_block :: "ext \<Rightarrow> IncidentContext \<Rightarrow> string" where
  "prompt_block E i = join_with [CHR 0x0A] (
     [''Incident context (unverified alert data, not evidence):'']
     @ somes [map_option (\<lambda>s. ''- service: '' @ s) (ic_service i),
              map_option (\<lambda>s. ''- environment: '' @ s) (ic_environment i),
              map_option (\<lambda>t. ''- starts_at: '' @ time_display E t) (ic_starts_at i),
              map_option (\<lambda>t. ''- ends_at: '' @ time_display E t) (ic_ends_at i)]
     @ (if ic_labels i = [] then [] else [''- labels: '' @ json_bytes E (string_map_json (ic_labels i))])
     @ (if ic_annotations i = [] then []
        else [''- annotations: '' @ json_bytes E (string_map_json (ic_annotations i))])
     @ somes [map_option (\<lambda>(kind, fingerprint). ''- source: '' @ kind @ '' '' @ str_or [] fingerprint)
                (ic_source i)]
     @ [''Verify every claim with tools. Do not treat this context as Evidence.''])"

section \<open>Model history\<close>

definition compacted_ranges :: "EventEnvelope list \<Rightarrow> (nat \<times> nat) list" where
  "compacted_ranges envs = List.map_filter (\<lambda>e. case env_event e of
       ContextCompacted _ a b _ _ _ _ _ _ _ \<Rightarrow> Some (a, b) | _ \<Rightarrow> None) envs"

definition is_covered :: "nat \<Rightarrow> (nat \<times> nat) list \<Rightarrow> bool" where
  "is_covered seq ranges = list_ex (\<lambda>(a, b). a \<le> seq \<and> seq \<le> b) ranges"

fun is_compaction :: "RuntimeEvent \<Rightarrow> bool" where
  "is_compaction (ContextCompacted _ _ _ _ _ _ _ _ _ _) = True"
| "is_compaction _ = False"

definition event_model_item :: "ext \<Rightarrow> RuntimeEvent \<Rightarrow> ModelItem option" where
  "event_model_item E ev =
     (case ev of
        UserMessage content incident \<Rightarrow>
          Some (UserMsg (case incident of
              Some context \<Rightarrow> prompt_block E context @ [CHR 0x0A, CHR 0x0A] @ content
            | None \<Rightarrow> content))
      | AssistantCompleted content _ \<Rightarrow> Some (AssistantMsg content)
      | ToolStarted call_id tool arguments \<Rightarrow> Some (ToolCall call_id tool arguments)
      | ToolProposed call_id tool arguments \<Rightarrow> Some (ToolCall call_id tool arguments)
      | ToolCompleted call_id tool output evidence success \<Rightarrow> Some (ToolResult call_id output)
      | ContextCompacted summary_id a b item_ids evidence_ids input_hash provider model prompt summary \<Rightarrow>
          Some (UserMsg (''[compacted context seq '' @ show_nat a @ ''-'' @ show_nat b @ ''; evidence: ''
            @ join_with '', '' evidence_ids @ '']'' @ [CHR 0x0A] @ summary))
      | _ \<Rightarrow> None)"

definition model_items_from_events :: "ext \<Rightarrow> EventEnvelope list \<Rightarrow> ModelItem list" where
  "model_items_from_events E envs =
     (let covered = compacted_ranges envs
      in List.map_filter (\<lambda>e.
           if is_covered (env_seq e) covered \<and> \<not> is_compaction (env_event e) then None
           else event_model_item E (env_event e)) envs)"

section \<open>Threads\<close>

fun status_after :: "ThreadStatus \<Rightarrow> RuntimeEvent \<Rightarrow> ThreadStatus" where
  "status_after s (ApprovalRequired _ _ _) = ThreadStatus.WaitingApproval"
| "status_after s (ApprovalResolved _ _) = ThreadStatus.Running"
| "status_after s TurnStarted = ThreadStatus.Running"
| "status_after s TurnCompleted = ThreadStatus.Idle"
| "status_after s TurnCancelled = ThreadStatus.Idle"
| "status_after s (TurnFailed _) = ThreadStatus.Failed"
| "status_after s (ActionUpdated _ _ action_status _ _ _) =
     (case status_parse action_status of
        Inl _ \<Rightarrow> s
      | Inr a \<Rightarrow>
          if a = ActionStatus.AwaitingApproval then ThreadStatus.WaitingApproval
          else if a = ActionStatus.NeedsReconciliation then ThreadStatus.NeedsReconciliation
          else if status_is_terminal a then ThreadStatus.Idle
          else ThreadStatus.Running)"
| "status_after s _ = s"

definition title_from_event :: "RuntimeEvent \<Rightarrow> string option" where
  "title_from_event ev = (case ev of UserMessage content _ \<Rightarrow> Some (chars_take 120 content) | _ \<Rightarrow> None)"

fun is_approval :: "uuid \<Rightarrow> Item \<Rightarrow> bool" where
  "is_approval aid (ApprovalItem i _) = (i = aid)"
| "is_approval aid _ = False"

fun decide :: "bool \<Rightarrow> Item \<Rightarrow> Item" where
  "decide approved (ApprovalItem i _) = ApprovalItem i (Some approved)"
| "decide approved item = item"

fun is_action :: "uuid \<Rightarrow> Item \<Rightarrow> bool" where
  "is_action aid (ActionItem i _ _ _ _) = (i = aid)"
| "is_action aid _ = False"

fun refresh :: "string \<Rightarrow> string \<Rightarrow> json \<Rightarrow> Item \<Rightarrow> Item" where
  "refresh status hash review (ActionItem i _ tool _ _) = ActionItem i status tool hash review"
| "refresh status hash review item = item"

fun apply_items :: "Item list \<Rightarrow> RuntimeEvent \<Rightarrow> Item list" where
  "apply_items items (UserMessage content _) = items @ [UserMessageItem content]"
| "apply_items items (AssistantCompleted content _) = items @ [AssistantMessageItem content]"
| "apply_items items (ToolStarted call_id tool arguments) = items @ [ToolCallItem call_id tool arguments]"
| "apply_items items (ToolProposed call_id tool arguments) = items @ [ToolCallItem call_id tool arguments]"
| "apply_items items (ToolCompleted call_id _ output evidence _) =
     items @ [ToolResultItem call_id output evidence]"
| "apply_items items (ApprovalRequired aid _ _) = items @ [ApprovalItem aid None]"
| "apply_items items (ApprovalResolved aid approved) =
     (case update_last (is_approval aid) (decide approved) items of None \<Rightarrow> items | Some items' \<Rightarrow> items')"
| "apply_items items (ContextCompacted summary_id a b _ evidence_ids _ _ _ _ summary) =
     items @ [SummaryItem summary_id a b summary evidence_ids]"
| "apply_items items (ActionUpdated aid _ status tool hash review) =
     (case update_last (is_action aid) (refresh status hash review) items of
        None \<Rightarrow> items @ [ActionItem aid status tool hash review]
      | Some items' \<Rightarrow> items')"
| "apply_items items _ = items"

definition apply_event :: "EventEnvelope \<Rightarrow> Item list \<times> ThreadStatus \<Rightarrow> Item list \<times> ThreadStatus" where
  "apply_event e st =
     (case st of (items, status) \<Rightarrow>
        (apply_items items (env_event e), status_after status (env_event e)))"

definition reconstruct_thread :: "ext \<Rightarrow> uuid \<Rightarrow> EventEnvelope list \<Rightarrow> Thread result" where
  "reconstruct_thread E thread_id envs =
     (case envs of
        [] \<Rightarrow> Inl (OpsCodexError.Storage (''thread '' @ uuid_string E thread_id @ '' has an empty event log''))
      | first # _ \<Rightarrow>
          if env_event first \<noteq> ThreadCreated
          then Inl (OpsCodexError.Storage
            (''thread '' @ uuid_string E thread_id @ '' does not start with thread_created''))
          else (case fold apply_event envs ([], ThreadStatus.Idle) of (items, status) \<Rightarrow>
            Inr \<lparr>th_id = thread_id, th_workspace_id = env_workspace_id first, th_items = items,
                 th_status = status, th_created_at = env_timestamp first,
                 th_updated_at = env_timestamp (last envs),
                 th_parent_thread_id = None, th_forked_at_seq = None\<rparr>))"

record ThreadSummary =
  sum_id :: uuid
  sum_workspace_id :: workspace_id
  sum_status :: ThreadStatus
  sum_title :: "string option"
  sum_created_at :: time
  sum_updated_at :: time
  sum_parent_thread_id :: "uuid option"
  sum_forked_at_seq :: "nat option"

definition summary_from_thread :: "Thread \<Rightarrow> ThreadSummary" where
  "summary_from_thread t =
     \<lparr>sum_id = th_id t, sum_workspace_id = th_workspace_id t, sum_status = th_status t,
      sum_title = find_map (\<lambda>item. case item of
          UserMessageItem content \<Rightarrow> Some (chars_take 120 content) | _ \<Rightarrow> None) (th_items t),
      sum_created_at = th_created_at t, sum_updated_at = th_updated_at t,
      sum_parent_thread_id = th_parent_thread_id t, sum_forked_at_seq = th_forked_at_seq t\<rparr>"

section \<open>Lemmas\<close>

definition project :: "EventEnvelope list \<Rightarrow> Item list \<times> ThreadStatus" where
  "project envs = fold apply_event envs ([], ThreadStatus.Idle)"

lemma apply_event_proj [simp]:
  "fst (apply_event e st) = apply_items (fst st) (env_event e)"
  "snd (apply_event e st) = status_after (snd st) (env_event e)"
  by (simp_all add: apply_event_def split: prod.split)

lemma project_snoc: "project (envs @ [e]) = apply_event e (project envs)"
  by (simp add: project_def)

lemma fold_apply_status: "snd (fold apply_event envs st) = fold (\<lambda>e s. status_after s (env_event e)) envs (snd st)"
  by (induction envs arbitrary: st) (auto simp: apply_event_def split: prod.split)

lemma project_status: "snd (project envs) = fold (\<lambda>e s. status_after s (env_event e)) envs ThreadStatus.Idle"
  by (simp add: project_def fold_apply_status)

lemma reconstruct_thread_ok:
  "envs \<noteq> [] \<Longrightarrow> env_event (hd envs) = ThreadCreated \<Longrightarrow>
     reconstruct_thread E t envs = Inr
       \<lparr>th_id = t, th_workspace_id = env_workspace_id (hd envs), th_items = fst (project envs),
        th_status = snd (project envs), th_created_at = env_timestamp (hd envs),
        th_updated_at = env_timestamp (last envs),
        th_parent_thread_id = None, th_forked_at_seq = None\<rparr>"
  by (cases envs) (auto simp: reconstruct_thread_def project_def case_prod_beta)

lemma map_filter_simps [simp]:
  "List.map_filter f [] = []"
  "List.map_filter f (x # xs) = (case f x of None \<Rightarrow> List.map_filter f xs | Some y \<Rightarrow> y # List.map_filter f xs)"
  "List.map_filter f (xs @ ys) = List.map_filter f xs @ List.map_filter f ys"
  by (auto simp: List.map_filter_def split: option.split)

lemma compacted_ranges_append [simp]:
  "compacted_ranges (xs @ ys) = compacted_ranges xs @ compacted_ranges ys"
  by (simp add: compacted_ranges_def)

lemma fold_filter_neutral:
  "(\<And>x s. \<not> P x \<Longrightarrow> f x s = s) \<Longrightarrow> fold f (filter P xs) st = fold f xs st"
  by (induction xs arbitrary: st) auto

lemma map_filter_filter:
  "(\<And>x. x \<in> set xs \<Longrightarrow> \<not> P x \<Longrightarrow> f x = None) \<Longrightarrow> List.map_filter f (filter P xs) = List.map_filter f xs"
  by (induction xs) (auto split: option.split)

lemma map_filter_cong:
  "(\<And>x. x \<in> set xs \<Longrightarrow> f x = g x) \<Longrightarrow> List.map_filter f xs = List.map_filter g xs"
  by (induction xs) (auto split: option.split)

text \<open>The actions of a thread as its items show them, and as the events last reported them.\<close>

definition action_rows :: "Item list \<Rightarrow> (uuid \<times> string \<times> string \<times> json) list" where
  "action_rows items = List.map_filter (\<lambda>item. case item of
       ActionItem i status tool hash review \<Rightarrow> Some (i, status, hash, review) | _ \<Rightarrow> None) items"

definition report_action :: "EventEnvelope \<Rightarrow> (uuid \<Rightarrow> (string \<times> string \<times> json) option) \<Rightarrow>
    (uuid \<Rightarrow> (string \<times> string \<times> json) option)" where
  "report_action e m = (case env_event e of
       ActionUpdated aid _ status tool hash review \<Rightarrow> m(aid \<mapsto> (status, hash, review)) | _ \<Rightarrow> m)"

lemma action_rows_append [simp]: "action_rows (xs @ ys) = action_rows xs @ action_rows ys"
  by (simp add: action_rows_def)

lemma action_rows_decide: "action_rows (decide v x # b) = action_rows (x # b)"
  by (cases x) (auto simp: action_rows_def)

lemma is_action_iff: "is_action i x \<longleftrightarrow> (\<exists>s t h r. x = ActionItem i s t h r)"
  by (cases x) auto

lemma action_rows_keys: "i \<in> fst ` set (action_rows items) \<longleftrightarrow> (\<exists>x \<in> set items. is_action i x)"
proof (induction items)
  case (Cons x items)
  then show ?case by (cases x) (auto simp: action_rows_def)
qed (simp add: action_rows_def)

lemma action_rows_apply:
  assumes "distinct (map fst (action_rows items))"
  shows "distinct (map fst (action_rows (apply_items items (env_event e)))) \<and>
    map_of (action_rows (apply_items items (env_event e))) = report_action e (map_of (action_rows items))"
proof (cases "env_event e")
  case (ActionUpdated aid plan status tool hash review)
  show ?thesis
  proof (cases "update_last (is_action aid) (refresh status hash review) items")
    case None
    then have "aid \<notin> fst ` set (action_rows items)"
      by (simp add: update_last_None action_rows_keys)
    moreover from this have "map_of (action_rows items) aid = None" by (simp add: map_of_eq_None_iff)
    moreover have "action_rows (items @ [ActionItem aid status tool hash review]) =
        action_rows items @ [(aid, status, hash, review)]" by (simp add: action_rows_def)
    ultimately show ?thesis
      using None ActionUpdated assms by (auto simp: report_action_def map_add_def split: option.split)
  next
    case (Some items')
    from update_last_SomeD [OF Some] obtain a x b where ab: "items = a @ x # b"
      "items' = a @ refresh status hash review x # b" "is_action aid x" by blast
    then obtain s t h r where x: "x = ActionItem aid s t h r" by (auto simp: is_action_iff)
    have "aid \<notin> fst ` set (action_rows a)" "aid \<notin> fst ` set (action_rows b)"
      using assms by (auto simp: ab(1) x action_rows_def)
    then have "map_of (action_rows a) aid = None" "map_of (action_rows b) aid = None"
      by (simp_all add: map_of_eq_None_iff)
    with assms Some ActionUpdated show ?thesis
      by (auto simp: ab x report_action_def action_rows_def map_add_def split: option.split)
  qed
next
  case (ApprovalResolved aid v)
  then show ?thesis
    using assms
    by (auto simp: report_action_def action_rows_decide split: option.split dest!: update_last_SomeD)
qed (use assms in \<open>auto simp: report_action_def action_rows_def\<close>)

section \<open>Properties\<close>

text \<open>
  Streaming never leaks into the state. Removing every delivery event (the streamed deltas)
  from a log changes neither the items and the status of the thread nor the model's history.
\<close>

theorem deltas_are_invisible:
  "fold apply_event (filter (\<lambda>e. stream_kind_for (env_event e) = Domain) envs) ([], ThreadStatus.Idle) =
     fold apply_event envs ([], ThreadStatus.Idle) \<and>
   model_items_from_events E (filter (\<lambda>e. stream_kind_for (env_event e) = Domain) envs) =
     model_items_from_events E envs"
proof
  let ?log = "filter (\<lambda>e. stream_kind_for (env_event e) = Domain) envs"
  have delta: "\<exists>d. env_event e = AssistantDelta d" if "stream_kind_for (env_event e) \<noteq> Domain" for e
    using that stream_kind_for_Delivery by (metis StreamKind.exhaust)
  show "fold apply_event ?log ([], ThreadStatus.Idle) = fold apply_event envs ([], ThreadStatus.Idle)"
    by (rule fold_filter_neutral) (auto simp: apply_event_def dest!: delta)
  have "compacted_ranges ?log = compacted_ranges envs"
    unfolding compacted_ranges_def by (rule map_filter_filter) (auto dest!: delta)
  then show "model_items_from_events E ?log = model_items_from_events E envs"
    unfolding model_items_from_events_def Let_def
    by (simp only:) (rule map_filter_filter, auto simp: event_model_item_def dest!: delta)
qed

text \<open>
  A compaction replaces exactly what it covers. Appending a compaction of the range \<open>a\<close> to \<open>b\<close>
  removes from the model's history the events with a sequence number in that range, except earlier
  compactions, and adds its summary at the end.
\<close>

theorem compaction_replaces_its_range:
  assumes "env_event c = ContextCompacted sid a b items evidence hash provider model prompt summary"
  shows "model_items_from_events E (envs @ [c]) =
    model_items_from_events E
      (filter (\<lambda>e. env_seq e < a \<or> b < env_seq e \<or> is_compaction (env_event e)) envs)
    @ [UserMsg (''[compacted context seq '' @ show_nat a @ ''-'' @ show_nat b @ ''; evidence: ''
        @ join_with '', '' evidence @ '']'' @ [CHR 0x0A] @ summary)]"
proof -
  let ?keep = "\<lambda>e. env_seq e < a \<or> b < env_seq e \<or> is_compaction (env_event e)"
  have ranges: "compacted_ranges (filter ?keep envs) = compacted_ranges envs"
    unfolding compacted_ranges_def
    by (rule map_filter_filter) (auto split: RuntimeEvent.splits)
  have covered: "is_covered n (compacted_ranges envs @ [(a, b)]) \<longleftrightarrow>
      is_covered n (compacted_ranges envs) \<or> a \<le> n \<and> n \<le> b" for n
    by (auto simp: is_covered_def)
  have c: "compacted_ranges [c] = [(a, b)]" using assms by (simp add: compacted_ranges_def)
  show ?thesis
    unfolding model_items_from_events_def Let_def ranges
    using assms
    by (simp add: c covered event_model_item_def)
       (subst map_filter_filter [symmetric, where P = ?keep], simp,
        rule map_filter_cong, auto simp: event_model_item_def)
qed

theorem compaction_replaces_its_range_witness:
  "model_items_from_events demo_ext
     ([new_envelope 1 0 1 9 None ThreadCreated, new_envelope 2 0 2 9 None (UserMessage ''hi'' None)]
      @ [new_envelope 3 0 3 9 None (ContextCompacted ''s'' 1 2 [] [] [] None None None ''sum'')]) =
   model_items_from_events demo_ext [] @ [UserMsg (''[compacted context seq 1-2; evidence: ]'' @ [CHR 0x0A] @ ''sum'')]"
proof -
  have one: "show_nat 1 = ''1''" "show_nat (Suc 0) = ''1''" "show_nat 2 = ''2''"
    by code_simp+
  let ?c = "new_envelope 3 0 3 9 None (ContextCompacted ''s'' 1 2 [] [] [] None None None ''sum'')"
  have c: "env_event ?c = ContextCompacted ''s'' 1 2 [] [] [] None None None ''sum''"
    by (simp add: new_envelope_def with_causation_def)
  have none: "filter (\<lambda>e. env_seq e < 1 \<or> 2 < env_seq e \<or> is_compaction (env_event e))
      [new_envelope 1 0 1 9 None ThreadCreated, new_envelope 2 0 2 9 None (UserMessage ''hi'' None)] = []"
    by (simp add: new_envelope_def with_causation_def)
  show ?thesis
    by (simp only: compaction_replaces_its_range [OF c] none one) simp
qed

text \<open>
  A thread shows each action once, in its latest state. The items built from a log hold one
  entry per action, whose status, request hash and review are those of the last update of that
  action in the log.
\<close>

theorem thread_shows_latest_action_state:
  "distinct (map fst (action_rows (fst (fold apply_event envs ([], ThreadStatus.Idle))))) \<and>
   map_of (action_rows (fst (fold apply_event envs ([], ThreadStatus.Idle)))) =
     fold report_action envs Map.empty"
proof (induction envs rule: rev_induct)
  case Nil
  show ?case by (simp add: action_rows_def)
next
  case (snoc e envs)
  then show ?case
    using action_rows_apply [of "fst (fold apply_event envs ([], ThreadStatus.Idle))" e]
    by simp
qed

end
