(* ===== verification/Continuity.thy ===== *)
theory Continuity
  imports Projection
begin

text \<open>
  Durable turn state (\<open>src/store/continuity.rs\<close>) and the classification of an interrupted turn after
  a restart (\<open>src/runtime/recovery.rs\<close>). The lemmas show when a tool may run again, and that an
  operation whose outcome is unknown is handed to a human.
\<close>

section \<open>Checkpoints, turns, approvals and leases\<close>

datatype CheckpointPhase =
    Queued | ModelRunning | WaitingApproval | ToolRunning | ToolCompleted
  | Interrupted | NeedsReconciliation | Completed | Failed | Cancelled

fun phase_as_str :: "CheckpointPhase \<Rightarrow> string" where
  "phase_as_str CheckpointPhase.Queued = ''queued''"
| "phase_as_str CheckpointPhase.ModelRunning = ''model_running''"
| "phase_as_str CheckpointPhase.WaitingApproval = ''waiting_approval''"
| "phase_as_str CheckpointPhase.ToolRunning = ''tool_running''"
| "phase_as_str CheckpointPhase.ToolCompleted = ''tool_completed''"
| "phase_as_str CheckpointPhase.Interrupted = ''interrupted''"
| "phase_as_str CheckpointPhase.NeedsReconciliation = ''needs_reconciliation''"
| "phase_as_str CheckpointPhase.Completed = ''completed''"
| "phase_as_str CheckpointPhase.Failed = ''failed''"
| "phase_as_str CheckpointPhase.Cancelled = ''cancelled''"

definition phase_parse :: "string \<Rightarrow> CheckpointPhase" where
  "phase_parse v =
     (if v = ''queued'' then CheckpointPhase.Queued
      else if v = ''model_running'' then CheckpointPhase.ModelRunning
      else if v = ''waiting_approval'' then CheckpointPhase.WaitingApproval
      else if v = ''tool_running'' then CheckpointPhase.ToolRunning
      else if v = ''tool_completed'' then CheckpointPhase.ToolCompleted
      else if v = ''interrupted'' then CheckpointPhase.Interrupted
      else if v = ''needs_reconciliation'' then CheckpointPhase.NeedsReconciliation
      else if v = ''completed'' then CheckpointPhase.Completed
      else if v = ''failed'' then CheckpointPhase.Failed
      else if v = ''cancelled'' then CheckpointPhase.Cancelled
      else CheckpointPhase.Interrupted)"

definition phase_is_terminal :: "CheckpointPhase \<Rightarrow> bool" where
  "phase_is_terminal p =
     (p \<in> {CheckpointPhase.Completed, CheckpointPhase.Failed, CheckpointPhase.Cancelled,
           CheckpointPhase.NeedsReconciliation})"

datatype ResumePolicy = ReplayModel | WaitApproval | RetryObserve | SkipCompletedTool | Reconcile | NoResume

fun policy_as_str :: "ResumePolicy \<Rightarrow> string" where
  "policy_as_str ReplayModel = ''replay_model''"
| "policy_as_str WaitApproval = ''wait_approval''"
| "policy_as_str RetryObserve = ''retry_observe''"
| "policy_as_str SkipCompletedTool = ''skip_completed_tool''"
| "policy_as_str Reconcile = ''reconcile''"
| "policy_as_str NoResume = ''none''"

definition policy_parse :: "string \<Rightarrow> ResumePolicy" where
  "policy_parse v =
     (if v = ''replay_model'' then ReplayModel
      else if v = ''wait_approval'' then WaitApproval
      else if v = ''retry_observe'' then RetryObserve
      else if v = ''skip_completed_tool'' then SkipCompletedTool
      else if v = ''reconcile'' then Reconcile
      else NoResume)"

record PendingOperation =
  op_operation_id :: string
  op_call_id :: string
  op_tool :: string
  op_arguments :: json
  op_effect :: string
  op_recovery :: "string option"

record CheckpointRecord =
  cp_checkpoint_id :: string
  cp_turn_id :: uuid
  cp_thread_id :: uuid
  cp_step :: nat
  cp_phase :: CheckpointPhase
  cp_context_input_hash :: "string option"
  cp_pending_operation :: "PendingOperation option"
  cp_last_committed_seq :: nat
  cp_resume_policy :: ResumePolicy
  cp_created_at :: time

record TurnRecord =
  tu_id :: uuid
  tu_thread_id :: uuid
  tu_status :: TurnStatus
  tu_active_lease_id :: "string option"
  tu_last_checkpoint_id :: "string option"
  tu_created_at :: time
  tu_updated_at :: time

datatype ApprovalStatus = Pending | Approved | Rejected | Expired

fun approval_as_str :: "ApprovalStatus \<Rightarrow> string" where
  "approval_as_str ApprovalStatus.Pending = ''pending''"
| "approval_as_str ApprovalStatus.Approved = ''approved''"
| "approval_as_str ApprovalStatus.Rejected = ''rejected''"
| "approval_as_str ApprovalStatus.Expired = ''expired''"

definition approval_parse :: "string \<Rightarrow> ApprovalStatus" where
  "approval_parse v =
     (if v = ''approved'' then ApprovalStatus.Approved
      else if v = ''rejected'' then ApprovalStatus.Rejected
      else if v = ''expired'' then ApprovalStatus.Expired
      else ApprovalStatus.Pending)"

record DurableApproval =
  da_approval_id :: uuid
  da_thread_id :: "uuid option"
  da_turn_id :: "uuid option"
  da_tool :: string
  da_arguments :: json
  da_request_hash :: string
  da_schema_hash :: "string option"
  da_status :: ApprovalStatus
  da_expires_at :: "time option"

record Lease =
  ls_lease_id :: string
  ls_turn_id :: uuid
  ls_thread_id :: uuid
  ls_owner_id :: string
  ls_expires_at :: time
  ls_fencing_token :: int

record RecoveryReport =
  rr_turn_id :: uuid
  rr_thread_id :: uuid
  rr_status :: TurnStatus
  rr_phase :: CheckpointPhase
  rr_resume_policy :: ResumePolicy
  rr_risk :: string
  rr_user_action :: string
  rr_skipped_tools :: "string list"
  rr_checkpoint :: "CheckpointRecord option"

definition approval_request_hash :: "ext \<Rightarrow> string \<Rightarrow> json \<Rightarrow> string option \<Rightarrow> string" where
  "approval_request_hash E tool arguments schema_hash =
     hex (sha256 E (tool @ json_bytes E arguments @ str_or [] schema_hash))"

definition context_input_hash :: "ext \<Rightarrow> ModelItem list \<Rightarrow> string" where
  "context_input_hash E items = hex (sha256 E (json_bytes E (JArr (map model_item_json items))))"

section \<open>Recovery\<close>

definition tool_is_retryable :: "CapabilityEffect \<Rightarrow> RecoveryMode option \<Rightarrow> bool" where
  "tool_is_retryable effect recovery =
     (if recovery = Some RecoveryMode.NeedsReconciliation then False
      else if recovery = Some RecoveryMode.Idempotent then True
      else effect = Observe)"

definition parse_effect :: "string \<Rightarrow> CapabilityEffect" where
  "parse_effect v = (case effect_parse v of Inr e \<Rightarrow> e | Inl _ \<Rightarrow> ExternalSideEffect)"

definition parse_recovery :: "string option \<Rightarrow> RecoveryMode option" where
  "parse_recovery v =
     Option.bind v (\<lambda>item. case recovery_parse item of Inr r \<Rightarrow> Some r | Inl _ \<Rightarrow> None)"

definition completed_tools :: "EventEnvelope list \<Rightarrow> string list" where
  "completed_tools envs = List.map_filter (\<lambda>e. case env_event e of
       RuntimeEvent.ToolCompleted call_id _ _ _ _ \<Rightarrow> Some call_id | _ \<Rightarrow> None) envs"

definition pending_operation_id :: "ext \<Rightarrow> uuid \<Rightarrow> string \<Rightarrow> string" where
  "pending_operation_id E turn_id call_id = uuid_string E turn_id @ '':'' @ call_id"

definition classify_tool_running ::
    "CheckpointRecord \<Rightarrow> string list \<Rightarrow> TurnStatus \<times> ResumePolicy \<times> string \<times> string" where
  "classify_tool_running checkpoint skipped =
     (case cp_pending_operation checkpoint of
        None \<Rightarrow> (TurnStatus.Interrupted, ReplayModel, ''none'',
          ''Resume from the last model step. No pending tool was recorded.'')
      | Some operation \<Rightarrow>
          if list_ex (\<lambda>c. c = op_call_id operation) skipped
          then (TurnStatus.Interrupted, SkipCompletedTool, ''none'',
            ''Resume from the next model step. The last tool result is already durable.'')
          else if tool_is_retryable (parse_effect (op_effect operation)) (parse_recovery (op_recovery operation))
          then (TurnStatus.Interrupted, RetryObserve, ''retryable_observe'',
            ''Resume may retry observe tool `'' @ op_tool operation @ ''` with operation ''
              @ op_operation_id operation @ ''.'')
          else (TurnStatus.NeedsReconciliation, Reconcile, ''external_state_unknown'',
            ''Tool `'' @ op_tool operation @ ''` started a change or side-effecting operation whose result is unknown. Do not retry it automatically.''))"

definition classify_checkpoint :: "CheckpointRecord \<Rightarrow> EventEnvelope list \<Rightarrow> RecoveryReport" where
  "classify_checkpoint checkpoint envs =
     (let skipped_tools = completed_tools envs;
          (status, resume_policy, risk, user_action) =
            (case cp_phase checkpoint of
               CheckpointPhase.Completed \<Rightarrow>
                 (TurnStatus.Completed, NoResume, ''none'', ''Turn already completed.'')
             | CheckpointPhase.Failed \<Rightarrow>
                 (TurnStatus.Failed, NoResume, ''none'', ''Turn already failed.'')
             | CheckpointPhase.Cancelled \<Rightarrow>
                 (TurnStatus.Cancelled, NoResume, ''none'', ''Turn was cancelled.'')
             | CheckpointPhase.NeedsReconciliation \<Rightarrow>
                 (TurnStatus.NeedsReconciliation, Reconcile, ''external_state_unknown'',
                  ''Inspect the last change operation; OpsCodex will not retry it automatically.'')
             | CheckpointPhase.WaitingApproval \<Rightarrow>
                 (TurnStatus.WaitingApproval, WaitApproval, ''approval_required'',
                  ''Resume to continue waiting for the original approval, or reject it.'')
             | CheckpointPhase.ToolRunning \<Rightarrow> classify_tool_running checkpoint skipped_tools
             | CheckpointPhase.ToolCompleted \<Rightarrow>
                 (TurnStatus.Interrupted, SkipCompletedTool, ''none'',
                  ''Resume from the next model step. Completed tools will not run again.'')
             | _ \<Rightarrow> (TurnStatus.Interrupted, ReplayModel, ''none'',
                  ''Resume to resend the model request from the last normalized context.''))
      in \<lparr>rr_turn_id = cp_turn_id checkpoint, rr_thread_id = cp_thread_id checkpoint,
          rr_status = status, rr_phase = cp_phase checkpoint, rr_resume_policy = resume_policy,
          rr_risk = risk, rr_user_action = user_action, rr_skipped_tools = skipped_tools,
          rr_checkpoint = Some checkpoint\<rparr>)"

section \<open>Lemmas\<close>

lemma phase_parse_as_str [simp]: "phase_parse (phase_as_str p) = p"
  by (cases p) (simp_all add: phase_parse_def)

lemma policy_parse_as_str [simp]: "policy_parse (policy_as_str p) = p"
  by (cases p) (simp_all add: policy_parse_def)

lemma approval_parse_as_str [simp]: "approval_parse (approval_as_str s) = s"
  by (cases s) (simp_all add: approval_parse_def)

lemma completed_tools_iff:
  "c \<in> set (completed_tools envs) \<longleftrightarrow>
     (\<exists>e \<in> set envs. \<exists>tool output evidence success.
        env_event e = RuntimeEvent.ToolCompleted c tool output evidence success)"
  by (induction envs) (auto simp: completed_tools_def split: RuntimeEvent.splits)

lemma parse_effect_Observe: "parse_effect v = Observe \<longleftrightarrow> v = ''observe''"
  by (simp add: parse_effect_def effect_parse_def)

lemma parse_recovery_eq:
  "parse_recovery v = Some RecoveryMode.Idempotent \<longleftrightarrow> v = Some ''idempotent''"
  "parse_recovery v = Some RecoveryMode.NeedsReconciliation \<longleftrightarrow> v = Some ''needs_reconciliation''"
  by (cases v; simp add: parse_recovery_def recovery_parse_def)+

text \<open>An operation that may run again: it only observes, or its owner declared it idempotent.\<close>

definition repeatable :: "PendingOperation \<Rightarrow> bool" where
  "repeatable operation =
     (op_recovery operation = Some ''idempotent'' \<or>
      op_recovery operation \<noteq> Some ''needs_reconciliation'' \<and> op_effect operation = ''observe'')"

lemma retryable_repeatable:
  "tool_is_retryable (parse_effect (op_effect operation)) (parse_recovery (op_recovery operation)) \<longleftrightarrow>
     repeatable operation"
  by (auto simp: tool_is_retryable_def repeatable_def parse_effect_Observe parse_recovery_eq)

lemma list_ex_eq: "list_ex (\<lambda>c. c = x) xs \<longleftrightarrow> x \<in> set xs"
  by (auto simp: list_ex_iff)

lemmas classify_defs = classify_checkpoint_def classify_tool_running_def Let_def list_ex_eq

section \<open>Properties\<close>

text \<open>
  After a crash only repeatable tools run again. A recovery report proposes to retry the pending
  tool exactly when the turn stopped while a tool was running, that operation is recorded, the log
  holds no result for its call, and the operation only observes or is declared idempotent. An effect
  that the checkpoint spells in an unknown way is never repeatable.
\<close>

theorem retry_only_repeatable_tools:
  "rr_resume_policy (classify_checkpoint cp envs) = RetryObserve \<longleftrightarrow>
     cp_phase cp = CheckpointPhase.ToolRunning \<and>
     (\<exists>operation. cp_pending_operation cp = Some operation \<and> repeatable operation \<and>
        (\<forall>e \<in> set envs. \<forall>tool output evidence success.
           env_event e \<noteq> RuntimeEvent.ToolCompleted (op_call_id operation) tool output evidence success))"
  by (cases "cp_phase cp"; cases "cp_pending_operation cp")
     (simp_all add: classify_defs retryable_repeatable completed_tools_iff)

theorem retry_only_repeatable_tools_witness:
  "rr_resume_policy (classify_checkpoint
     \<lparr>cp_checkpoint_id = ''c'', cp_turn_id = 1, cp_thread_id = 2, cp_step = 0,
      cp_phase = CheckpointPhase.ToolRunning, cp_context_input_hash = None,
      cp_pending_operation = Some \<lparr>op_operation_id = ''o'', op_call_id = ''k'', op_tool = ''promql'',
        op_arguments = JNull, op_effect = ''observe'', op_recovery = None\<rparr>,
      cp_last_committed_seq = 3, cp_resume_policy = NoResume, cp_created_at = 0\<rparr>
     [new_envelope 7 0 1 2 None TurnStarted]) = RetryObserve"
  by (rule retry_only_repeatable_tools [THEN iffD2])
     (simp add: repeatable_def new_envelope_def with_causation_def)

text \<open>
  An unknown outcome goes to a human. When a turn stopped while a tool was running that is not
  repeatable and whose result is not in the log, the turn needs reconciliation, whatever else the
  log contains; and reconciliation is proposed in no other case than this one and a checkpoint that
  already asked for it.
\<close>

theorem unknown_outcome_needs_reconciliation:
  "rr_resume_policy (classify_checkpoint cp envs) = Reconcile \<longleftrightarrow>
     cp_phase cp = CheckpointPhase.NeedsReconciliation \<or>
     cp_phase cp = CheckpointPhase.ToolRunning \<and>
     (\<exists>operation. cp_pending_operation cp = Some operation \<and> \<not> repeatable operation \<and>
        op_call_id operation \<notin> set (completed_tools envs))"
  by (cases "cp_phase cp"; cases "cp_pending_operation cp")
     (simp_all add: classify_defs retryable_repeatable)

lemma report_status_iff:
  "rr_status (classify_checkpoint cp envs) = TurnStatus.NeedsReconciliation \<longleftrightarrow>
     rr_resume_policy (classify_checkpoint cp envs) = Reconcile"
  by (cases "cp_phase cp"; cases "cp_pending_operation cp") (simp_all add: classify_defs)

end
