(* ===== verification/Policy.thy ===== *)
theory Policy
  imports Action "HOL-Library.List_Lexorder" "HOL-Library.Char_ord"
begin

text \<open>
  The capability policy and the approval broker (\<open>src/policy/mod.rs\<close>). A pending approval holds the
  sender of a one-shot channel whose receiver the waiting tool call owns; the channels are an
  explicit store, so that an answer, a dropped sender and a dropped receiver are visible. The
  lemmas show that a waiting call is always answerable, that an answer is given once and never
  changes, and what the policy engine lets through.
\<close>

section \<open>Policy decisions\<close>

fun decision_for :: "ToolRisk \<Rightarrow> PolicyDecision" where
  "decision_for ToolRisk.Safe = PolicyDecision.Allow"
| "decision_for ToolRisk.Ask = PolicyDecision.Ask"
| "decision_for ToolRisk.Forbidden = PolicyDecision.Deny"

definition evaluate :: "ToolRisk \<Rightarrow> PolicyDecision" where
  "evaluate risk = decision_for risk"

definition evaluate_capability :: "CapabilityDescriptor \<Rightarrow> PolicyDecision" where
  "evaluate_capability d =
     (if \<not> cd_enabled d then PolicyDecision.Deny
      else (case cd_effect d of
              Observe \<Rightarrow> PolicyDecision.Allow
            | ChangeReversible \<Rightarrow> PolicyDecision.Deny
            | ChangeIrreversible \<Rightarrow> PolicyDecision.Deny
            | ExternalSideEffect \<Rightarrow>
                if cd_source d = CapabilitySource.Builtin \<and> cd_name d = ''exec'' \<or> cd_trusted_local d
                then PolicyDecision.Ask else PolicyDecision.Deny))"

section \<open>Approval broker\<close>

record PendingApproval =
  pa_id :: uuid
  pa_tool :: string
  pa_arguments :: json
  pa_schema_hash :: "string option"

text \<open>The state of a one-shot channel: nothing sent yet, a value sent, or one end dropped.\<close>

datatype Channel = Waiting | Delivered bool | SenderGone | ReceiverGone

record PendingEntry =
  pe_request :: PendingApproval
  pe_sender :: nat

record ApprovalBroker =
  br_pending :: "PendingEntry list"
  br_channels :: "Channel list"

definition entry_id :: "PendingEntry \<Rightarrow> uuid" where
  "entry_id e = pa_id (pe_request e)"

definition new_broker :: ApprovalBroker where
  "new_broker = \<lparr>br_pending = [], br_channels = []\<rparr>"

definition drop_sender :: "nat \<Rightarrow> Channel list \<Rightarrow> Channel list" where
  "drop_sender ch chans = (if chans ! ch = Waiting then chans[ch := SenderGone] else chans)"

definition drop_receiver :: "nat \<Rightarrow> Channel list \<Rightarrow> Channel list" where
  "drop_receiver ch chans = (if chans ! ch = Waiting then chans[ch := ReceiverGone] else chans)"

definition broker_insert :: "PendingApproval \<Rightarrow> ApprovalBroker \<Rightarrow> (uuid \<times> nat) \<times> ApprovalBroker" where
  "broker_insert request b =
     (let ch = length (br_channels b);
          chans = br_channels b @ [Waiting];
          entry = \<lparr>pe_request = request, pe_sender = ch\<rparr>
      in ((pa_id request, ch),
          \<lparr>br_pending = tbl_upsert entry_id (\<lambda>_ e. e) entry (br_pending b),
           br_channels = (case tbl_get entry_id (pa_id request) (br_pending b) of
              None \<Rightarrow> chans
            | Some old \<Rightarrow> drop_sender (pe_sender old) chans)\<rparr>))"

definition broker_request ::
    "uuid \<Rightarrow> string \<Rightarrow> json \<Rightarrow> ApprovalBroker \<Rightarrow> (uuid \<times> nat) \<times> ApprovalBroker" where
  "broker_request fresh_id tool arguments =
     broker_insert \<lparr>pa_id = fresh_id, pa_tool = tool, pa_arguments = arguments, pa_schema_hash = None\<rparr>"

definition broker_request_with_hash ::
    "uuid \<Rightarrow> string \<Rightarrow> json \<Rightarrow> string \<Rightarrow> ApprovalBroker \<Rightarrow> (uuid \<times> nat) \<times> ApprovalBroker" where
  "broker_request_with_hash fresh_id tool arguments schema_hash =
     broker_insert \<lparr>pa_id = fresh_id, pa_tool = tool, pa_arguments = arguments,
       pa_schema_hash = Some schema_hash\<rparr>"

definition broker_restore :: "PendingApproval \<Rightarrow> ApprovalBroker \<Rightarrow> nat \<times> ApprovalBroker" where
  "broker_restore request b = (case broker_insert request b of ((_, receiver), b') \<Rightarrow> (receiver, b'))"

definition broker_resolve :: "ext \<Rightarrow> uuid \<Rightarrow> bool \<Rightarrow> (ApprovalBroker, unit) op" where
  "broker_resolve E aid approved b =
     (case tbl_get entry_id aid (br_pending b) of
        None \<Rightarrow> (Inl (OpsCodexError.NotFound (''approval '' @ uuid_string E aid)), b)
      | Some entry \<Rightarrow>
          let b' = b\<lparr>br_pending := tbl_delete (\<lambda>e. entry_id e = aid) (br_pending b)\<rparr>;
              ch = pe_sender entry
          in if br_channels b ! ch = Waiting
             then (Inr (), b'\<lparr>br_channels := (br_channels b)[ch := Delivered approved]\<rparr>)
             else (Inl (OpsCodexError.Policy
                    (''approval '' @ uuid_string E aid @ '' is no longer waiting'')), b'))"

definition broker_pending :: "ext \<Rightarrow> ApprovalBroker \<Rightarrow> PendingApproval list \<times> ApprovalBroker" where
  "broker_pending E b =
     (let kept = filter (\<lambda>e. br_channels b ! pe_sender e \<noteq> ReceiverGone) (br_pending b)
      in (sort_key (\<lambda>r. uuid_string E (pa_id r)) (map pe_request kept), b\<lparr>br_pending := kept\<rparr>))"

text \<open>
  Everything that happens to a broker: the operations, and a waiting call that is cancelled and
  drops its receiver.
\<close>

inductive broker_step :: "ext \<Rightarrow> ApprovalBroker \<Rightarrow> ApprovalBroker \<Rightarrow> bool" for E where
  step_insert: "broker_step E b (snd (broker_insert request b))"
| step_resolve: "broker_step E b (snd (broker_resolve E aid approved b))"
| step_pending: "broker_step E b (snd (broker_pending E b))"
| step_receiver_dropped:
    "ch < length (br_channels b) \<Longrightarrow>
     broker_step E b (b\<lparr>br_channels := drop_receiver ch (br_channels b)\<rparr>)"

inductive broker_run :: "ext \<Rightarrow> ApprovalBroker \<Rightarrow> ApprovalBroker \<Rightarrow> bool" for E where
  run_refl: "broker_run E b b"
| run_step: "broker_run E b b' \<Longrightarrow> broker_step E b' b'' \<Longrightarrow> broker_run E b b''"

section \<open>Lemmas\<close>

interpretation pending: upsert_table entry_id "\<lambda>_ e. e"
  by unfold_locales simp

text \<open>
  The invariant: every pending entry owns the live sender of its own channel, and a channel whose
  receiver still waits has an entry.
\<close>

definition broker_inv :: "ApprovalBroker \<Rightarrow> bool" where
  "broker_inv b \<longleftrightarrow>
     distinct (map entry_id (br_pending b)) \<and> distinct (map pe_sender (br_pending b)) \<and>
     (\<forall>e \<in> set (br_pending b). pe_sender e < length (br_channels b) \<and>
        br_channels b ! pe_sender e \<in> {Waiting, ReceiverGone}) \<and>
     (\<forall>ch < length (br_channels b). br_channels b ! ch = Waiting \<longrightarrow>
        ch \<in> pe_sender ` set (br_pending b))"

lemma broker_invI:
  assumes "distinct (map entry_id (br_pending b))" and "distinct (map pe_sender (br_pending b))"
    and "\<And>e. e \<in> set (br_pending b) \<Longrightarrow> pe_sender e < length (br_channels b) \<and>
        br_channels b ! pe_sender e \<in> {Waiting, ReceiverGone}"
    and "\<And>ch. ch < length (br_channels b) \<Longrightarrow> br_channels b ! ch = Waiting \<Longrightarrow>
        ch \<in> pe_sender ` set (br_pending b)"
  shows "broker_inv b"
  using assms by (auto simp: broker_inv_def)

lemma broker_inv_entry:
  "broker_inv b \<Longrightarrow> e \<in> set (br_pending b) \<Longrightarrow>
     pe_sender e < length (br_channels b) \<and> br_channels b ! pe_sender e \<in> {Waiting, ReceiverGone}"
  by (auto simp: broker_inv_def)

lemma broker_inv_new: "broker_inv new_broker"
  by (simp add: broker_inv_def new_broker_def)

lemma length_drop_sender [simp]: "length (drop_sender ch cs) = length cs"
  by (simp add: drop_sender_def)

lemma distinct_sender_eq:
  "broker_inv b \<Longrightarrow> e \<in> set (br_pending b) \<Longrightarrow> e' \<in> set (br_pending b) \<Longrightarrow>
     pe_sender e = pe_sender e' \<longleftrightarrow> e = e'"
  by (auto simp: broker_inv_def distinct_map inj_on_def)

lemma distinct_id_eq:
  "broker_inv b \<Longrightarrow> e \<in> set (br_pending b) \<Longrightarrow> e' \<in> set (br_pending b) \<Longrightarrow>
     entry_id e = entry_id e' \<longleftrightarrow> e = e'"
  by (auto simp: broker_inv_def distinct_map inj_on_def)

lemma set_upsert_replace:
  "set (tbl_upsert key (\<lambda>_ e. e) new t) = insert new {r \<in> set t. key r \<noteq> key new}"
proof (cases "tbl_get key (key new) t")
  case None
  then have "key r \<noteq> key new" if "r \<in> set t" for r
    using that by (rule tbl_get_NoneD)
  with None show ?thesis by (auto simp: tbl_upsert_def)
next
  case (Some old)
  then have "old \<in> set t" "key old = key new" by (auto dest: tbl_get_SomeD)
  with Some show ?thesis by (auto simp: tbl_upsert_def tbl_update_def)
qed

lemma drop_sender_nth:
  "i < length cs \<Longrightarrow> drop_sender ch cs ! i = (if i = ch \<and> cs ! ch = Waiting then SenderGone else cs ! i)"
  by (auto simp: drop_sender_def nth_list_update)

lemma length_drop_receiver [simp]: "length (drop_receiver ch cs) = length cs"
  by (simp add: drop_receiver_def)

lemma drop_receiver_nth:
  "i < length cs \<Longrightarrow> drop_receiver ch cs ! i = (if i = ch \<and> cs ! ch = Waiting then ReceiverGone else cs ! i)"
  by (auto simp: drop_receiver_def nth_list_update)

lemma distinct_senders_upsert:
  assumes "distinct (map pe_sender t)" and "pe_sender new \<notin> pe_sender ` set t"
    and "distinct (map entry_id t)"
  shows "distinct (map pe_sender (tbl_upsert entry_id (\<lambda>_ e. e) new t))"
proof (cases "tbl_get entry_id (entry_id new) t")
  case None
  with assms show ?thesis by (simp add: tbl_upsert_def)
next
  case (Some old)
  have "distinct (map pe_sender (tbl_update (\<lambda>r. entry_id r = entry_id new) (\<lambda>_. new) t))"
    using assms by (induction t) (force simp: tbl_update_def image_iff split: if_splits)+
  with Some show ?thesis by (simp add: tbl_upsert_def)
qed

lemma list_update_unless_eq:
  "xs ! i \<noteq> xs ! j \<Longrightarrow> xs[i := x] ! j = xs ! j"
  by (metis nth_list_update_neq)

lemma insert_channels:
  assumes "broker_inv b" and "i < length (br_channels b)"
  shows "br_channels (snd (broker_insert r b)) ! i =
    (if br_channels b ! i = Waiting \<and> (\<exists>e \<in> set (br_pending b). entry_id e = pa_id r \<and> pe_sender e = i)
     then SenderGone else br_channels b ! i)"
proof (cases "tbl_get entry_id (pa_id r) (br_pending b)")
  case None
  then have "\<not> (\<exists>e \<in> set (br_pending b). entry_id e = pa_id r)"
    by (auto dest: tbl_get_NoneD)
  with None assms(2) show ?thesis by (auto simp: broker_insert_def Let_def nth_append)
next
  case (Some old)
  then have old: "old \<in> set (br_pending b)" "entry_id old = pa_id r" by (auto dest: tbl_get_SomeD)
  have "(\<exists>e \<in> set (br_pending b). entry_id e = pa_id r \<and> pe_sender e = i) \<longleftrightarrow> i = pe_sender old"
    using old distinct_id_eq [OF assms(1)] by metis
  with Some old assms(2) broker_inv_entry [OF assms(1) old(1)] show ?thesis
    by (auto simp: broker_insert_def Let_def drop_sender_nth nth_append)
qed

lemma insert_pending:
  "set (br_pending (snd (broker_insert r b))) =
     insert \<lparr>pe_request = r, pe_sender = length (br_channels b)\<rparr>
       {e \<in> set (br_pending b). entry_id e \<noteq> pa_id r}"
  by (auto simp: broker_insert_def Let_def set_upsert_replace entry_id_def)

lemma insert_length: "length (br_channels (snd (broker_insert r b))) = Suc (length (br_channels b))"
  by (auto simp: broker_insert_def Let_def split: option.split)

lemma insert_last:
  assumes "broker_inv b"
  shows "br_channels (snd (broker_insert r b)) ! length (br_channels b) = Waiting"
proof (cases "tbl_get entry_id (pa_id r) (br_pending b)")
  case None
  then show ?thesis by (simp add: broker_insert_def Let_def)
next
  case (Some old)
  then have "pe_sender old < length (br_channels b)"
    using broker_inv_entry [OF assms] by (auto dest: tbl_get_SomeD)
  with Some show ?thesis by (simp add: broker_insert_def Let_def drop_sender_nth)
qed

lemma insert_inv:
  assumes inv: "broker_inv b"
  shows "broker_inv (snd (broker_insert r b))"
proof (rule broker_invI)
  let ?b = "snd (broker_insert r b)"
  let ?new = "\<lparr>pe_request = r, pe_sender = length (br_channels b)\<rparr>"
  have p: "br_pending ?b = tbl_upsert entry_id (\<lambda>_ e. e) ?new (br_pending b)"
    by (simp add: broker_insert_def Let_def)
  have new: "pe_sender ?new \<notin> pe_sender ` set (br_pending b)"
    using broker_inv_entry [OF inv] by fastforce
  show "distinct (map entry_id (br_pending ?b))"
    unfolding p using inv by (intro pending.distinct_upsert) (simp add: broker_inv_def)
  show "distinct (map pe_sender (br_pending ?b))"
    unfolding p using inv new by (intro distinct_senders_upsert) (auto simp: broker_inv_def)
  show "pe_sender e < length (br_channels ?b) \<and> br_channels ?b ! pe_sender e \<in> {Waiting, ReceiverGone}"
    if "e \<in> set (br_pending ?b)" for e
  proof (cases "e = ?new")
    case True
    then show ?thesis by (simp add: insert_length insert_last [OF inv])
  next
    case False
    with that have e: "e \<in> set (br_pending b)" "entry_id e \<noteq> pa_id r" by (auto simp: insert_pending)
    then have "\<not> (\<exists>e' \<in> set (br_pending b). entry_id e' = pa_id r \<and> pe_sender e' = pe_sender e)"
      using distinct_sender_eq [OF inv] by blast
    with broker_inv_entry [OF inv e(1)] show ?thesis
      by (auto simp: insert_length insert_channels [OF inv])
  qed
  show "ch \<in> pe_sender ` set (br_pending ?b)"
    if ch: "ch < length (br_channels ?b)" "br_channels ?b ! ch = Waiting" for ch
  proof (cases "ch = length (br_channels b)")
    case True
    then show ?thesis by (auto simp: insert_pending)
  next
    case False
    with ch have lt: "ch < length (br_channels b)" by (simp add: insert_length)
    with ch have w: "br_channels b ! ch = Waiting"
      and no: "\<not> (\<exists>e \<in> set (br_pending b). entry_id e = pa_id r \<and> pe_sender e = ch)"
      by (auto simp: insert_channels [OF inv] split: if_splits)
    from inv lt w obtain e where "e \<in> set (br_pending b)" "pe_sender e = ch"
      by (auto simp: broker_inv_def)
    with no show ?thesis by (auto simp: insert_pending)
  qed
qed

lemma resolve_inv:
  assumes inv: "broker_inv b"
  shows "broker_inv (snd (broker_resolve E aid v b))"
proof (cases "tbl_get entry_id aid (br_pending b)")
  case None
  with inv show ?thesis by (simp add: broker_resolve_def)
next
  case (Some e)
  let ?b = "snd (broker_resolve E aid v b)"
  from Some have e: "e \<in> set (br_pending b)" "entry_id e = aid" by (auto dest: tbl_get_SomeD)
  have p: "br_pending ?b = tbl_delete (\<lambda>e. entry_id e = aid) (br_pending b)"
    using Some by (simp add: broker_resolve_def Let_def)
  have c: "br_channels ?b = (if br_channels b ! pe_sender e = Waiting
      then (br_channels b)[pe_sender e := Delivered v] else br_channels b)"
    using Some by (simp add: broker_resolve_def Let_def)
  have rest: "x \<in> set (br_pending ?b) \<longleftrightarrow> x \<in> set (br_pending b) \<and> pe_sender x \<noteq> pe_sender e" for x
    unfolding p set_tbl_delete using e distinct_id_eq [OF inv _ e(1)] distinct_sender_eq [OF inv _ e(1)]
    by auto
  show ?thesis
  proof (rule broker_invI)
    show "distinct (map entry_id (br_pending ?b))" "distinct (map pe_sender (br_pending ?b))"
      unfolding p using inv by (auto simp: broker_inv_def intro: distinct_map_delete)
    show "pe_sender x < length (br_channels ?b) \<and> br_channels ?b ! pe_sender x \<in> {Waiting, ReceiverGone}"
      if "x \<in> set (br_pending ?b)" for x
      using that broker_inv_entry [OF inv] by (auto simp: rest c)
    show "ch \<in> pe_sender ` set (br_pending ?b)"
      if ch: "ch < length (br_channels ?b)" "br_channels ?b ! ch = Waiting" for ch
    proof -
      from ch have "ch < length (br_channels b)" "br_channels b ! ch = Waiting" "ch \<noteq> pe_sender e"
        by (cases "ch = pe_sender e"; auto simp: c split: if_splits)+
      moreover from this inv obtain x where "x \<in> set (br_pending b)" "ch = pe_sender x"
        by (auto simp: broker_inv_def)
      ultimately show ?thesis using rest by blast
    qed
  qed
qed

lemma pending_inv: "broker_inv b \<Longrightarrow> broker_inv (snd (broker_pending E b))"
  by (fastforce simp: broker_inv_def broker_pending_def Let_def image_iff
      intro: distinct_map_filter)

lemma receiver_dropped_inv:
  "broker_inv b \<Longrightarrow> broker_inv (b\<lparr>br_channels := drop_receiver ch (br_channels b)\<rparr>)"
  by (auto simp: broker_inv_def drop_receiver_nth)

lemma broker_step_inv: "broker_step E b b' \<Longrightarrow> broker_inv b \<Longrightarrow> broker_inv b'"
  by (induction rule: broker_step.induct)
     (auto intro: insert_inv resolve_inv pending_inv receiver_dropped_inv)

lemma broker_run_inv: "broker_run E b b' \<Longrightarrow> broker_inv b \<Longrightarrow> broker_inv b'"
  by (induction rule: broker_run.induct) (auto intro: broker_step_inv)

lemma broker_step_delivered:
  assumes "broker_step E b b'" and "broker_inv b"
    and "ch < length (br_channels b)" and "br_channels b ! ch = Delivered v"
  shows "ch < length (br_channels b') \<and> br_channels b' ! ch = Delivered v"
  using assms
proof (cases rule: broker_step.cases)
  case (step_insert r)
  with assms show ?thesis by (simp add: insert_length insert_channels)
next
  case (step_resolve aid w)
  with assms show ?thesis
    by (auto simp: broker_resolve_def Let_def list_update_unless_eq split: option.splits)
next
  case step_pending
  with assms show ?thesis by (simp add: broker_pending_def Let_def)
next
  case (step_receiver_dropped ch')
  with assms show ?thesis by (auto simp: drop_receiver_nth)
qed

section \<open>Properties\<close>

text \<open>
  C39: a waiting approval can always be answered. In every state a broker reaches, a channel that a
  tool call still waits on belongs to a pending request, and resolving the approval of that request
  succeeds and delivers exactly the given answer on this channel, and changes no other channel.
\<close>

theorem waiting_call_is_answerable:
  assumes "broker_run E new_broker b"
    and "ch < length (br_channels b)" and "br_channels b ! ch = Waiting"
  shows "\<exists>e \<in> set (br_pending b). pe_sender e = ch \<and>
    (let (r, b') = broker_resolve E (entry_id e) v b
     in r = Inr () \<and> br_channels b' = (br_channels b)[ch := Delivered v])"
proof -
  have inv: "broker_inv b" using assms(1) broker_inv_new by (rule broker_run_inv)
  with assms(2,3) obtain e where e: "e \<in> set (br_pending b)" "pe_sender e = ch"
    by (auto simp: broker_inv_def)
  have "tbl_get entry_id (entry_id e) (br_pending b) = Some e"
    using inv e(1) by (intro tbl_get_distinct) (simp_all add: broker_inv_def)
  with e assms(3) show ?thesis by (intro bexI [of _ e]) (auto simp: broker_resolve_def)
qed

theorem waiting_call_is_answerable_witness:
  "\<exists>e \<in> set (br_pending (snd (broker_insert \<lparr>pa_id = 4, pa_tool = ''exec'', pa_arguments = JNull,
        pa_schema_hash = None\<rparr> new_broker))). pe_sender e = 0 \<and>
    (let (r, b') = broker_resolve demo_ext (entry_id e) True
        (snd (broker_insert \<lparr>pa_id = 4, pa_tool = ''exec'', pa_arguments = JNull, pa_schema_hash = None\<rparr> new_broker))
     in r = Inr () \<and> br_channels b' = [Delivered True])"
proof -
  let ?r = "\<lparr>pa_id = 4, pa_tool = ''exec'', pa_arguments = JNull, pa_schema_hash = None\<rparr>"
  have "broker_run demo_ext new_broker (snd (broker_insert ?r new_broker))"
    by (blast intro: broker_run.intros broker_step.intros)
  moreover have "br_channels (snd (broker_insert ?r new_broker)) = [Waiting]"
    by (simp add: broker_insert_def new_broker_def)
  ultimately show ?thesis
    using waiting_call_is_answerable [of demo_ext "snd (broker_insert ?r new_broker)" 0 True] by simp
qed

text \<open>
  An answer is final. Whatever happens later to a broker (new requests, other answers, restored
  requests with the same identifier, cancelled calls), a channel on which an answer was delivered
  keeps that answer; no second answer replaces it.
\<close>

theorem approval_answer_is_final:
  assumes "broker_run E new_broker b" and "broker_run E b b'"
    and "ch < length (br_channels b)" and "br_channels b ! ch = Delivered v"
  shows "br_channels b' ! ch = Delivered v"
proof -
  have "broker_inv b" using assms(1) broker_inv_new by (rule broker_run_inv)
  from assms(2) this assms(3,4)
  have "ch < length (br_channels b') \<and> br_channels b' ! ch = Delivered v"
    by (induction rule: broker_run.induct) (auto dest: broker_run_inv broker_step_delivered)
  then show ?thesis by simp
qed

theorem approval_answer_is_final_witness:
  "br_channels (snd (broker_resolve demo_ext 4 False (snd (broker_insert
       \<lparr>pa_id = 4, pa_tool = ''exec'', pa_arguments = JNull, pa_schema_hash = None\<rparr>
       \<lparr>br_pending = [], br_channels = [Delivered True]\<rparr>)))) ! 0 = Delivered True"
proof -
  let ?r = "\<lparr>pa_id = 4, pa_tool = ''exec'', pa_arguments = JNull, pa_schema_hash = None\<rparr>"
  let ?b0 = "snd (broker_insert ?r new_broker)"
  let ?b1 = "snd (broker_resolve demo_ext 4 True ?b0)"
  let ?b2 = "snd (broker_insert ?r ?b1)"
  have b1: "?b1 = \<lparr>br_pending = [], br_channels = [Delivered True]\<rparr>"
    by (simp add: broker_insert_def broker_resolve_def new_broker_def tbl_upsert_def tbl_delete_def entry_id_def)
  have "broker_run demo_ext new_broker ?b1"
    by (blast intro: broker_run.intros broker_step.intros)
  moreover have "broker_run demo_ext ?b1 (snd (broker_resolve demo_ext 4 False ?b2))"
    by (blast intro: broker_run.intros broker_step.intros)
  ultimately have "br_channels (snd (broker_resolve demo_ext 4 False ?b2)) ! 0 = Delivered True"
    by (rule approval_answer_is_final) (simp_all add: b1)
  then show ?thesis by (simp only: b1)
qed

text \<open>
  An override never grants. Tightening a descriptor with the workspace and the local override
  never lets a call through without approval that the declared capability would not have, and a
  capability that changes something is never let through without approval.
\<close>

theorem override_never_grants:
  "(evaluate_capability (apply_strictest w l d) = PolicyDecision.Allow \<longleftrightarrow>
      evaluate_capability d = PolicyDecision.Allow \<and> w \<in> {None, Some Observe} \<and> l \<in> {None, Some Observe})"
  by (cases "cd_effect d"; cases w; cases l)
     (auto simp: evaluate_capability_def apply_strictest_def somes_def split: CapabilityEffect.splits)

end
