(* ===== verification/Port.thy ===== *)
theory Port
  imports Continuity Policy
begin

text \<open>
  The storage interface the runtime is written against (\<open>src/store/port.rs\<close>), as far as threads and
  their logs are concerned: the append command and, as a locale, what every store promises about
  creating a thread, appending to its log and reading from a sequence number. What the clients rely
  on (logs only grow, a reader that resumes misses nothing) is proved once from the promises.
\<close>

record AppendEvent =
  ap_thread_id :: uuid
  ap_turn_id :: "uuid option"
  ap_item_id :: "uuid option"
  ap_causation_id :: "uuid option"
  ap_stream_kind :: "StreamKind option"
  ap_event :: RuntimeEvent

definition new_append :: "uuid \<Rightarrow> uuid option \<Rightarrow> RuntimeEvent \<Rightarrow> AppendEvent" where
  "new_append t turn ev = \<lparr>ap_thread_id = t, ap_turn_id = turn, ap_item_id = None,
     ap_causation_id = None, ap_stream_kind = None, ap_event = ev\<rparr>"

text \<open>A log as the stores keep it: numbered from one without gaps, about one thread.\<close>

definition gap_free :: "EventEnvelope list \<Rightarrow> bool" where
  "gap_free L \<longleftrightarrow> (\<forall>i < length L. env_seq (L ! i) = Suc i)"

lemma gap_free_Nil [simp]: "gap_free []"
  by (simp add: gap_free_def)

lemma gap_free_snoc: "gap_free (L @ [e]) \<longleftrightarrow> gap_free L \<and> env_seq e = Suc (length L)"
  by (auto simp: gap_free_def nth_append less_Suc_eq)

lemma gap_free_filter: "gap_free L \<Longrightarrow> filter (\<lambda>e. n < env_seq e) L = drop n L"
proof (induction L rule: rev_induct)
  case (snoc e L)
  then show ?case by (auto simp: gap_free_snoc)
qed simp

lemma gap_free_take: "gap_free L \<Longrightarrow> take n L = filter (\<lambda>e. env_seq e \<le> n) L"
proof (induction L rule: rev_induct)
  case (snoc e L)
  then show ?case by (auto simp: gap_free_snoc)
qed simp

lemma gap_free_seqs: "gap_free L \<Longrightarrow> map env_seq L = [1..<Suc (length L)]"
  by (rule nth_equalityI) (auto simp: gap_free_def simp del: upt_Suc)

text \<open>Commands of one client session, whatever their results.\<close>

datatype log_command =
    CreateThread uuid time uuid workspace_id
  | AppendTo uuid time AppendEvent

definition log_step ::
    "(uuid \<Rightarrow> time \<Rightarrow> uuid \<Rightarrow> workspace_id \<Rightarrow> ('s, EventEnvelope) op) \<Rightarrow>
     (uuid \<Rightarrow> time \<Rightarrow> AppendEvent \<Rightarrow> ('s, EventEnvelope) op) \<Rightarrow> log_command \<Rightarrow> 's \<Rightarrow> 's" where
  "log_step create app c s =
     (case c of
        CreateThread fresh_id now t w \<Rightarrow> snd (create fresh_id now t w s)
      | AppendTo fresh_id now cmd \<Rightarrow> snd (app fresh_id now cmd s))"

text \<open>Every log has room for \<open>k\<close> more entries, and so has a new one.\<close>

definition log_room :: "('s \<Rightarrow> uuid \<Rightarrow> EventEnvelope list option) \<Rightarrow> nat \<Rightarrow> 's \<Rightarrow> nat \<Rightarrow> bool" where
  "log_room log capacity s k \<longleftrightarrow>
     k + 1 < capacity \<and> (\<forall>t L. log s t = Some L \<longrightarrow> length L + k < capacity)"

lemma log_room_Suc: "log_room log capacity s (Suc k) \<Longrightarrow> log_room log capacity s k"
  by (fastforce simp: log_room_def)

text \<open>
  What a failing command may have done: nothing, or one entry more in the log of its thread (a store
  without transactions can report a failure after the entry has reached the disk).
\<close>

definition log_grew :: "uuid \<Rightarrow> (uuid \<Rightarrow> EventEnvelope list option) \<Rightarrow> (uuid \<Rightarrow> EventEnvelope list option) \<Rightarrow> bool" where
  "log_grew t l l' \<longleftrightarrow> l' = l \<or>
     (\<exists>new. length new \<le> 1 \<and> l' = l(t \<mapsto> (case l t of None \<Rightarrow> [] | Some L \<Rightarrow> L) @ new))"

lemma log_grew_refl [simp]: "log_grew t l l"
  by (simp add: log_grew_def)

lemma log_grew_entry: "log_grew t l (l(t \<mapsto> (case l t of None \<Rightarrow> [] | Some L \<Rightarrow> L) @ [e]))"
  by (simp add: log_grew_def) (metis One_nat_def le_refl list.size(3,4) add_0)

lemma log_grew_room:
  assumes "log_grew t (log s) (log s')" and "log_room log capacity s (Suc k)"
  shows "log_room log capacity s' k \<and>
    (\<forall>u L. log s u = Some L \<longrightarrow> (\<exists>new. log s' u = Some (L @ new)))"
  using assms(1) unfolding log_grew_def
proof (elim disjE exE conjE)
  assume "log s' = log s"
  with log_room_Suc [OF assms(2)] show ?thesis by (simp add: log_room_def)
next
  fix new :: "EventEnvelope list"
  assume "length new \<le> 1" "log s' = (log s)(t \<mapsto> (case log s t of None \<Rightarrow> [] | Some L \<Rightarrow> L) @ new)"
  with assms(2) show ?thesis by (fastforce simp: log_room_def split: option.splits)
qed

locale event_log_store =
  fixes inv :: "'s \<Rightarrow> bool"
    and log :: "'s \<Rightarrow> uuid \<Rightarrow> EventEnvelope list option"
    and create :: "uuid \<Rightarrow> time \<Rightarrow> uuid \<Rightarrow> workspace_id \<Rightarrow> ('s, EventEnvelope) op"
    and app :: "uuid \<Rightarrow> time \<Rightarrow> AppendEvent \<Rightarrow> ('s, EventEnvelope) op"
    and after :: "uuid \<Rightarrow> nat \<Rightarrow> 's \<Rightarrow> EventEnvelope list result"
    and capacity :: nat
  assumes log_gap_free: "inv s \<Longrightarrow> log s t = Some L \<Longrightarrow> gap_free L \<and> length L < capacity"
    and capacity_pos: "1 < capacity"
    and create_fails: "inv s \<Longrightarrow> create i now t w s = (Inl err, s') \<Longrightarrow> inv s' \<and> log_grew t (log s) (log s')"
    and create_works: "inv s \<Longrightarrow> create i now t w s = (Inr e, s') \<Longrightarrow>
      inv s' \<and> log s t = None \<and> log s' = (log s)(t \<mapsto> [e]) \<and> env_event e = ThreadCreated"
    and append_fails: "inv s \<Longrightarrow> app i now cmd s = (Inl err, s') \<Longrightarrow>
      inv s' \<and> log_grew (ap_thread_id cmd) (log s) (log s')"
    and append_works: "inv s \<Longrightarrow> app i now cmd s = (Inr e, s') \<Longrightarrow>
      log s (ap_thread_id cmd) = Some L \<Longrightarrow> Suc (length L) < capacity \<Longrightarrow>
      inv s' \<and> log s' = (log s)(ap_thread_id cmd \<mapsto> L @ [e]) \<and> env_event e = ap_event cmd"
    and append_known: "app i now cmd s = (Inr e, s') \<Longrightarrow> log s (ap_thread_id cmd) \<noteq> None"
    and after_reads: "inv s \<Longrightarrow> log s t = Some L \<Longrightarrow> n < capacity \<Longrightarrow>
      after t n s = Inr (filter (\<lambda>e. n < env_seq e) L)"
begin

lemma step_extends:
  assumes "inv s" and "log_room log capacity s (Suc k)"
  shows "inv (log_step create app c s) \<and> log_room log capacity (log_step create app c s) k \<and>
    (\<forall>t L. log s t = Some L \<longrightarrow> (\<exists>new. log (log_step create app c s) t = Some (L @ new)))"
proof (cases c)
  case (CreateThread i now t w)
  obtain r s' where run: "create i now t w s = (r, s')" by fastforce
  have "inv s' \<and> log_grew t (log s) (log s')"
  proof (cases r)
    case (Inl err)
    with create_fails [OF assms(1)] run show ?thesis by blast
  next
    case (Inr e)
    with create_works [OF assms(1)] run
    have "inv s'" "log s t = None" "log s' = (log s)(t \<mapsto> [e])" by auto
    with log_grew_entry [of t "log s" e] show ?thesis by simp
  qed
  with log_grew_room [of t log s s', OF _ assms(2)] run CreateThread show ?thesis
    by (simp add: log_step_def)
next
  case (AppendTo i now cmd)
  obtain r s' where run: "app i now cmd s = (r, s')" by fastforce
  have "inv s' \<and> log_grew (ap_thread_id cmd) (log s) (log s')"
  proof (cases r)
    case (Inl err)
    with append_fails [OF assms(1)] run show ?thesis by blast
  next
    case (Inr e)
    with append_known run obtain L where L: "log s (ap_thread_id cmd) = Some L" by blast
    moreover from L assms(2) have "Suc (length L) < capacity" by (fastforce simp: log_room_def)
    ultimately have "inv s'" "log s' = (log s)(ap_thread_id cmd \<mapsto> L @ [e])"
      using append_works [OF assms(1)] run Inr by blast+
    with L log_grew_entry [of "ap_thread_id cmd" "log s" e] show ?thesis by simp
  qed
  with log_grew_room [of "ap_thread_id cmd" log s s', OF _ assms(2)] run AppendTo show ?thesis
    by (simp add: log_step_def)
qed

lemma run_extends:
  assumes "inv s" and "log_room log capacity s (length cmds)" and "log s t = Some L"
  shows "inv (fold (log_step create app) cmds s) \<and>
    (\<exists>new. log (fold (log_step create app) cmds s) t = Some (L @ new))"
  using assms
proof (induction cmds arbitrary: s L)
  case (Cons c cmds)
  from Cons.prems step_extends [of s "length cmds" c]
  obtain new where "inv (log_step create app c s)" "log_room log capacity (log_step create app c s) (length cmds)"
    "log (log_step create app c s) t = Some (L @ new)" by auto
  from Cons.IH [OF this] show ?case by auto
qed auto

lemma reader_resumes:
  assumes "inv s" and "log_room log capacity s (length cmds)" and "log s t = Some L"
  shows "\<exists>new. log (fold (log_step create app) cmds s) t = Some (L @ new) \<and>
    after t (length L) (fold (log_step create app) cmds s) = Inr new \<and>
    map env_seq new = [Suc (length L)..<Suc (length L + length new)]"
proof -
  let ?s = "fold (log_step create app) cmds s"
  obtain new where new: "inv ?s" "log ?s t = Some (L @ new)" using run_extends [OF assms] by blast
  have gf: "gap_free (L @ new)" and len: "length L < capacity"
    using log_gap_free [OF new] log_gap_free [OF assms(1,3)] by auto
  then have "after t (length L) ?s = Inr new"
    using after_reads [OF new len] gap_free_filter [OF gf, of "length L"] by simp
  moreover have "map env_seq new = [Suc (length L)..<Suc (length L + length new)]"
    using arg_cong [OF gap_free_seqs [OF gf], of "drop (length L)"] by (simp add: drop_upt del: upt_Suc)
  ultimately show ?thesis using new by blast
qed

end

end
