(* ===== verification/SqliteStore.thy ===== *)
theory SqliteStore
  imports Port "HOL-Library.Product_Lexorder"
begin

text \<open>
  The SQLite store, part one: threads and their event logs (\<open>src/store/sqlite.rs\<close>,
  \<open>src/store/port.rs\<close>). A table is the list of its rows in insertion order, with the columns of the
  schema; keys, uniqueness and foreign keys are checked where SQLite checks them, and a failed
  transaction leaves the database as it was. Sequence numbers are \<open>u64\<close> in the program and \<open>i64\<close> in
  the database, and the casts are written out. The lemmas show that every log is a gap-free sequence
  that starts with its creation, and that a reader resuming at a sequence number misses nothing.
\<close>

section \<open>Casts\<close>

definition as_i64 :: "nat \<Rightarrow> int" where
  "as_i64 n = (let m = n mod 2 ^ 64 in if m < 2 ^ 63 then int m else int m - 2 ^ 64)"

definition u64_or_zero :: "int \<Rightarrow> nat" where
  "u64_or_zero i = (if 0 \<le> i then nat i else 0)"

definition i64_or_max :: "nat \<Rightarrow> int" where
  "i64_or_max n = (if n < 2 ^ 63 then int n else 2 ^ 63 - 1)"

section \<open>Tables\<close>

record workspace_row =
  wr_id :: workspace_id
  wr_created_at :: time

record thread_row =
  tr_id :: uuid
  tr_workspace_id :: workspace_id
  tr_parent_thread_id :: "uuid option"
  tr_forked_at_seq :: "int option"
  tr_status :: string
  tr_title :: "string option"
  tr_created_at :: time
  tr_updated_at :: time

record event_row =
  er_thread_id :: uuid
  er_seq :: int
  er_event_id :: uuid
  er_schema_version :: int
  er_stream_kind :: string
  er_turn_id :: "uuid option"
  er_item_id :: "uuid option"
  er_causation_id :: "uuid option"
  er_timestamp :: time
  er_event_type :: string
  er_payload :: EventEnvelope

record evidence_row =
  vr_evidence_id :: uuid
  vr_thread_id :: uuid
  vr_artifact_ref :: "string option"
  vr_sha256 :: string
  vr_meta :: EvidenceMeta

record turn_row =
  ur_id :: uuid
  ur_thread_id :: uuid
  ur_status :: string
  ur_active_lease_id :: "string option"
  ur_last_checkpoint_id :: "string option"
  ur_created_at :: time
  ur_updated_at :: time

record checkpoint_row =
  kr_checkpoint_id :: string
  kr_turn_id :: uuid
  kr_thread_id :: uuid
  kr_step :: int
  kr_phase :: string
  kr_state :: "PendingOperation option"
  kr_input_hash :: "string option"
  kr_last_committed_seq :: int
  kr_resume_policy :: string
  kr_created_at :: time

record approval_row =
  pr_approval_id :: uuid
  pr_thread_id :: "uuid option"
  pr_turn_id :: "uuid option"
  pr_tool :: string
  pr_request_hash :: string
  pr_status :: string
  pr_expires_at :: "time option"
  pr_payload :: DurableApproval

record resume_row =
  sr_idempotency_key :: string
  sr_turn_id :: uuid
  sr_payload :: string
  sr_created_at :: time

record plan_row =
  lr_plan_id :: uuid
  lr_workspace_id :: workspace_id
  lr_thread_id :: uuid
  lr_payload :: ActionPlan
  lr_created_at :: time
  lr_expires_at :: time

record action_row =
  ar_action_id :: uuid
  ar_plan_id :: uuid
  ar_thread_id :: uuid
  ar_status :: string
  ar_request_hash :: string
  ar_operation_id :: string
  ar_consumed_approval :: int
  ar_payload :: ActionRecord
  ar_updated_at :: time

record db =
  db_workspaces :: "workspace_row list"
  db_threads :: "thread_row list"
  db_turns :: "turn_row list"
  db_events :: "event_row list"
  db_evidence :: "evidence_row list"
  db_checkpoints :: "checkpoint_row list"
  db_approvals :: "approval_row list"
  db_leases :: "Lease list"
  db_resume_ops :: "resume_row list"
  db_plans :: "plan_row list"
  db_actions :: "action_row list"
  db_audit :: "AuditRecord list"

definition empty_db :: db where
  "empty_db = \<lparr>db_workspaces = [], db_threads = [], db_turns = [], db_events = [], db_evidence = [],
     db_checkpoints = [], db_approvals = [], db_leases = [], db_resume_ops = [], db_plans = [],
     db_actions = [], db_audit = []\<rparr>"

text \<open>A constraint violation as SQLite reports it, and a transaction, which is undone when it fails.\<close>

definition sqlite_error :: "string \<Rightarrow> string \<Rightarrow> OpsCodexError" where
  "sqlite_error action msg = OpsCodexError.Storage (''sqlite '' @ action @ '' failed: '' @ msg)"

definition transaction_do :: "(db, 'a) op \<Rightarrow> (db, 'a) op" where
  "transaction_do m s = (case m s of (Inl e, _) \<Rightarrow> (Inl e, s) | (Inr x, s') \<Rightarrow> (Inr x, s'))"

section \<open>Column encodings\<close>

fun status_sql :: "ThreadStatus \<Rightarrow> string" where
  "status_sql ThreadStatus.Idle = ''idle''"
| "status_sql ThreadStatus.Running = ''running''"
| "status_sql ThreadStatus.WaitingApproval = ''waiting_approval''"
| "status_sql ThreadStatus.Interrupted = ''interrupted''"
| "status_sql ThreadStatus.NeedsReconciliation = ''needs_reconciliation''"
| "status_sql ThreadStatus.Failed = ''failed''"

definition parse_status :: "string \<Rightarrow> ThreadStatus" where
  "parse_status v =
     (if v = ''running'' then ThreadStatus.Running
      else if v = ''waiting_approval'' then ThreadStatus.WaitingApproval
      else if v = ''interrupted'' then ThreadStatus.Interrupted
      else if v = ''needs_reconciliation'' then ThreadStatus.NeedsReconciliation
      else if v = ''failed'' then ThreadStatus.Failed
      else ThreadStatus.Idle)"

fun stream_kind_sql :: "StreamKind \<Rightarrow> string" where
  "stream_kind_sql StreamKind.Domain = ''domain''"
| "stream_kind_sql StreamKind.Delivery = ''delivery''"

section \<open>Statements\<close>

definition insert_workspace :: "workspace_id \<Rightarrow> time \<Rightarrow> db \<Rightarrow> db" where
  "insert_workspace w now s =
     (if tbl_get wr_id w (db_workspaces s) \<noteq> None then s
      else s\<lparr>db_workspaces := db_workspaces s @ [\<lparr>wr_id = w, wr_created_at = now\<rparr>]\<rparr>)"

definition insert_thread ::
    "ext \<Rightarrow> EventEnvelope \<Rightarrow> uuid option \<Rightarrow> nat option \<Rightarrow> ThreadStatus \<Rightarrow> string option \<Rightarrow> (db, unit) op" where
  "insert_thread E e parent forked_at_seq status title s =
     (if tbl_get tr_id (env_thread_id e) (db_threads s) \<noteq> None
      then (Inl (OpsCodexError.Storage (''thread '' @ uuid_string E (env_thread_id e) @ '' already exists'')), s)
      else if tbl_get wr_id (env_workspace_id e) (db_workspaces s) = None
      then (Inl (sqlite_error ''insert thread'' ''FOREIGN KEY constraint failed''), s)
      else (Inr (), s\<lparr>db_threads := db_threads s @
        [\<lparr>tr_id = env_thread_id e, tr_workspace_id = env_workspace_id e,
          tr_parent_thread_id = parent, tr_forked_at_seq = map_option i64_or_max forked_at_seq,
          tr_status = status_sql status, tr_title = title,
          tr_created_at = env_timestamp e, tr_updated_at = env_timestamp e\<rparr>]\<rparr>))"

definition event_row_of :: "EventEnvelope \<Rightarrow> event_row" where
  "event_row_of e =
     \<lparr>er_thread_id = env_thread_id e, er_seq = as_i64 (env_seq e), er_event_id = env_event_id e,
      er_schema_version = int (env_schema_version e), er_stream_kind = stream_kind_sql (env_stream_kind e),
      er_turn_id = env_turn_id e, er_item_id = env_item_id e, er_causation_id = env_causation_id e,
      er_timestamp = env_timestamp e, er_event_type = event_name (env_event e), er_payload = e\<rparr>"

definition insert_event :: "EventEnvelope \<Rightarrow> (db, unit) op" where
  "insert_event e s =
     (if list_ex (\<lambda>r. er_thread_id r = env_thread_id e \<and> er_seq r = as_i64 (env_seq e)) (db_events s)
      then (Inl (sqlite_error ''insert event'' ''UNIQUE constraint failed: events.thread_id, events.seq''), s)
      else if tbl_get er_event_id (env_event_id e) (db_events s) \<noteq> None
      then (Inl (sqlite_error ''insert event'' ''UNIQUE constraint failed: events.event_id''), s)
      else if tbl_get tr_id (env_thread_id e) (db_threads s) = None
      then (Inl (sqlite_error ''insert event'' ''FOREIGN KEY constraint failed''), s)
      else (Inr (), s\<lparr>db_events := db_events s @ [event_row_of e]\<rparr>))"

definition upsert_evidence :: "ext \<Rightarrow> uuid \<Rightarrow> nat \<Rightarrow> EvidenceMeta \<Rightarrow> db \<Rightarrow> db" where
  "upsert_evidence E thread_id seq evidence s =
     (let i = evidence_id_or_synthesize E evidence thread_id seq
      in s\<lparr>db_evidence := tbl_delete (\<lambda>r. vr_evidence_id r = i) (db_evidence s) @
           [\<lparr>vr_evidence_id = i, vr_thread_id = thread_id, vr_artifact_ref = evm_artifact_ref evidence,
             vr_sha256 = evm_sha256 evidence, vr_meta = evidence\<rparr>]\<rparr>)"

definition index_evidence :: "ext \<Rightarrow> EventEnvelope \<Rightarrow> db \<Rightarrow> db" where
  "index_evidence E e s =
     (case env_event e of
        RuntimeEvent.ToolCompleted _ _ _ evidence success \<Rightarrow>
          if success then upsert_evidence E (env_thread_id e) (env_seq e) evidence s else s
      | _ \<Rightarrow> s)"

definition update_thread :: "uuid \<Rightarrow> ThreadStatus \<Rightarrow> string option \<Rightarrow> time \<Rightarrow> db \<Rightarrow> db" where
  "update_thread t status title now s =
     s\<lparr>db_threads := tbl_update (\<lambda>r. tr_id r = t)
        (\<lambda>r. r\<lparr>tr_status := status_sql status, tr_title := title, tr_updated_at := now\<rparr>) (db_threads s)\<rparr>"

definition max_or_zero :: "int list \<Rightarrow> int" where
  "max_or_zero xs = (case xs of [] \<Rightarrow> 0 | y # ys \<Rightarrow> fold max ys y)"

definition thread_seqs :: "uuid \<Rightarrow> db \<Rightarrow> int list" where
  "thread_seqs t s = map er_seq (filter (\<lambda>r. er_thread_id r = t) (db_events s))"

definition load_events :: "ext \<Rightarrow> uuid \<Rightarrow> nat \<Rightarrow> db \<Rightarrow> EventEnvelope list result" where
  "load_events E t after_seq s =
     (if tbl_get tr_id t (db_threads s) = None
      then Inl (OpsCodexError.NotFound (''thread '' @ uuid_string E t))
      else Inr (map er_payload (sort_key er_seq
        (filter (\<lambda>r. er_thread_id r = t \<and> as_i64 after_seq < er_seq r) (db_events s)))))"

definition load_lineage :: "ext \<Rightarrow> uuid \<Rightarrow> db \<Rightarrow> (uuid option \<times> nat option) result" where
  "load_lineage E t s =
     (case tbl_get tr_id t (db_threads s) of
        None \<Rightarrow> Inl (OpsCodexError.NotFound (''thread '' @ uuid_string E t))
      | Some r \<Rightarrow> Inr (tr_parent_thread_id r, map_option u64_or_zero (tr_forked_at_seq r)))"

section \<open>Operations on threads\<close>

definition create_thread :: "ext \<Rightarrow> uuid \<Rightarrow> time \<Rightarrow> uuid \<Rightarrow> workspace_id \<Rightarrow> (db, EventEnvelope) op" where
  "create_thread E fresh_id now t w =
     sbind (slift (validate_workspace_id w)) (\<lambda>_.
       let e = with_workspace w (new_envelope fresh_id now 1 t None ThreadCreated)
       in transaction_do (
            sbind (supd (insert_workspace w (env_timestamp e))) (\<lambda>_.
            sbind (insert_thread E e None None ThreadStatus.Idle None) (\<lambda>_.
            sbind (insert_event e) (\<lambda>_. sret e)))))"

definition appended_envelope :: "uuid \<Rightarrow> time \<Rightarrow> AppendEvent \<Rightarrow> nat \<Rightarrow> workspace_id \<Rightarrow> EventEnvelope" where
  "appended_envelope fresh_id now cmd seq w =
     (let e = with_causation fresh_id now seq (ap_thread_id cmd) (ap_turn_id cmd) (ap_item_id cmd)
                (ap_causation_id cmd) (ap_event cmd);
          e' = (case ap_stream_kind cmd of None \<Rightarrow> e | Some k \<Rightarrow> e\<lparr>env_stream_kind := k\<rparr>)
      in e'\<lparr>env_workspace_id := w\<rparr>)"

definition append_event :: "ext \<Rightarrow> uuid \<Rightarrow> time \<Rightarrow> AppendEvent \<Rightarrow> (db, EventEnvelope) op" where
  "append_event E fresh_id now cmd =
     transaction_do (\<lambda>s.
       case tbl_get tr_id (ap_thread_id cmd) (db_threads s) of
         None \<Rightarrow> (Inl (OpsCodexError.NotFound (''thread '' @ uuid_string E (ap_thread_id cmd))), s)
       | Some row \<Rightarrow>
           let last_seq = u64_or_zero (max_or_zero (thread_seqs (ap_thread_id cmd) s))
           in if last_seq = 2 ^ 64 - 1
              then (Inl (OpsCodexError.Storage
                     (''thread '' @ uuid_string E (ap_thread_id cmd) @ '' sequence is exhausted'')), s)
              else
                let e = appended_envelope fresh_id now cmd (last_seq + 1) (tr_workspace_id row);
                    next_status = status_after (parse_status (tr_status row)) (env_event e);
                    next_title = (case tr_title row of Some x \<Rightarrow> Some x | None \<Rightarrow> title_from_event (env_event e))
                in sbind (insert_event e) (\<lambda>_.
                   sbind (supd (update_thread (ap_thread_id cmd) next_status next_title (env_timestamp e))) (\<lambda>_.
                   sbind (supd (index_evidence E e)) (\<lambda>_. sret e))) s)"

fun insert_events :: "ext \<Rightarrow> EventEnvelope list \<Rightarrow> (db, unit) op" where
  "insert_events E [] = sret ()"
| "insert_events E (e # es) =
     sbind (insert_event e) (\<lambda>_. sbind (supd (index_evidence E e)) (\<lambda>_. insert_events E es))"

definition event_hash :: "ext \<Rightarrow> codec \<Rightarrow> EventEnvelope list \<Rightarrow> string" where
  "event_hash E C envs = hex (sha256 E (concat (map (\<lambda>e.
     show_nat (env_seq e) @ uuid_string E (env_event_id e) @ json_bytes E (event_to_json C (env_event e))) envs)))"

definition import_thread :: "ext \<Rightarrow> codec \<Rightarrow> EventEnvelope list \<Rightarrow> (db, unit) op" where
  "import_thread E C envs s =
     (case envs of
        [] \<Rightarrow> (Inl (OpsCodexError.Storage ''cannot import an empty thread''), s)
      | first # _ \<Rightarrow>
          let t = env_thread_id first in
          if tbl_get tr_id t (db_threads s) \<noteq> None
          then (case load_events E t 0 s of
                  Inl err \<Rightarrow> (Inl err, s)
                | Inr current \<Rightarrow>
                    if event_hash E C current \<noteq> event_hash E C envs
                    then (Inl (OpsCodexError.Storage
                      (''thread '' @ uuid_string E t @ '' already exists with different content'')), s)
                    else (Inr (), s))
          else transaction_do (
            sbind (supd (insert_workspace (env_workspace_id first) (env_timestamp first))) (\<lambda>_.
            sbind (slift (reconstruct_thread E t envs)) (\<lambda>th.
            sbind (insert_thread E first None None (th_status th) (sum_title (summary_from_thread th))) (\<lambda>_.
            sbind (supd (\<lambda>s. s\<lparr>db_threads := tbl_update (\<lambda>r. tr_id r = t)
                (\<lambda>r. r\<lparr>tr_created_at := th_created_at th, tr_updated_at := th_updated_at th\<rparr>) (db_threads s)\<rparr>)) (\<lambda>_.
            insert_events E envs))))) s)"

definition inheritable :: "RuntimeEvent \<Rightarrow> bool" where
  "inheritable ev = (case ev of
       AssistantDelta _ \<Rightarrow> False
     | ApprovalRequired _ _ _ \<Rightarrow> False
     | ApprovalResolved _ _ \<Rightarrow> False
     | TurnStarted \<Rightarrow> False
     | TurnCompleted \<Rightarrow> False
     | TurnCancelled \<Rightarrow> False
     | TurnFailed _ \<Rightarrow> False
     | ToolAuthorized _ _ _ \<Rightarrow> False
     | ToolExecutionStarted _ _ \<Rightarrow> False
     | _ \<Rightarrow> True)"

text \<open>The identifiers and times the fork draws, one per copied event, come from \<open>ids\<close> and \<open>clock\<close>.\<close>

definition forked_envelope ::
    "(nat \<Rightarrow> uuid) \<Rightarrow> (nat \<Rightarrow> time) \<Rightarrow> uuid \<Rightarrow> workspace_id \<Rightarrow> nat \<Rightarrow> EventEnvelope \<Rightarrow> EventEnvelope" where
  "forked_envelope ids clock t w seq source =
     (with_causation (ids seq) (clock seq) seq t None (env_item_id source) (env_causation_id source)
        (env_event source))\<lparr>env_workspace_id := w, env_stream_kind := env_stream_kind source\<rparr>"

fun forked_envelopes ::
    "(nat \<Rightarrow> uuid) \<Rightarrow> (nat \<Rightarrow> time) \<Rightarrow> uuid \<Rightarrow> workspace_id \<Rightarrow> nat \<Rightarrow> EventEnvelope list \<Rightarrow> EventEnvelope list" where
  "forked_envelopes ids clock t w seq [] = []"
| "forked_envelopes ids clock t w seq (source # sources) =
     forked_envelope ids clock t w (seq + 1) source # forked_envelopes ids clock t w (seq + 1) sources"

fun derive_title :: "string option \<Rightarrow> EventEnvelope list \<Rightarrow> string option" where
  "derive_title title [] = title"
| "derive_title title (e # es) =
     derive_title (case title of Some x \<Rightarrow> Some x | None \<Rightarrow> title_from_event (env_event e)) es"

definition fork_thread ::
    "ext \<Rightarrow> (nat \<Rightarrow> uuid) \<Rightarrow> (nat \<Rightarrow> time) \<Rightarrow> time \<Rightarrow> uuid \<Rightarrow> nat \<Rightarrow> uuid \<Rightarrow> string option \<Rightarrow> (db, EventEnvelope) op" where
  "fork_thread E ids clock now t at_seq new_t title s =
     (if at_seq = 0
      then (Inl (OpsCodexError.Protocol ''fork requires a durable seq greater than zero''), s)
      else (case load_events E t 0 s of
        Inl err \<Rightarrow> (Inl err, s)
      | Inr envs \<Rightarrow>
          if envs = [] then (Inl (OpsCodexError.NotFound (''thread '' @ uuid_string E t)), s)
          else if env_seq (last envs) < at_seq
          then (Inl (OpsCodexError.Protocol
                 (''fork seq '' @ show_nat at_seq @ '' is past the last committed event'')), s)
          else
            let inherited = filter (\<lambda>e. env_seq e \<le> at_seq \<and> inheritable (env_event e)) envs;
                w = (case inherited of [] \<Rightarrow> default_workspace | e # _ \<Rightarrow> env_workspace_id e);
                created = with_workspace w (new_envelope (ids 1) (clock 1) 1 new_t None ThreadCreated);
                copies = forked_envelopes ids clock new_t w 1 (drop 1 inherited)
            in transaction_do (
                 sbind (supd (insert_workspace w (env_timestamp created))) (\<lambda>_.
                 sbind (insert_thread E created (Some t) (Some at_seq) ThreadStatus.Idle title) (\<lambda>_.
                 sbind (insert_event created) (\<lambda>_.
                 sbind (insert_events E copies) (\<lambda>_.
                 sbind (supd (update_thread new_t
                    (fold (\<lambda>e st. status_after st (env_event e)) copies ThreadStatus.Idle)
                    (derive_title title copies) now)) (\<lambda>_.
                 sret created)))))) s))"

section \<open>Reading\<close>

definition events_after :: "ext \<Rightarrow> uuid \<Rightarrow> nat \<Rightarrow> db \<Rightarrow> EventEnvelope list result" where
  "events_after E t after_seq s = load_events E t after_seq s"

definition get_thread :: "ext \<Rightarrow> uuid \<Rightarrow> db \<Rightarrow> Thread result" where
  "get_thread E t s =
     and_then (load_events E t 0 s) (\<lambda>envs.
     and_then (reconstruct_thread E t envs) (\<lambda>th.
     and_then (load_lineage E t s) (\<lambda>(parent, seq).
       Inr (th\<lparr>th_parent_thread_id := parent, th_forked_at_seq := seq\<rparr>))))"

definition deny_cross_workspace :: "workspace_id \<Rightarrow> workspace_id \<Rightarrow> string \<Rightarrow> unit result" where
  "deny_cross_workspace expected actual resource =
     (if expected = actual then Inr ()
      else Inl (OpsCodexError.Policy (''cross-workspace access denied: '' @ resource @ '' belongs to ''
        @ actual @ '' not '' @ expected)))"

definition get_thread_in :: "ext \<Rightarrow> workspace_id \<Rightarrow> uuid \<Rightarrow> db \<Rightarrow> Thread result" where
  "get_thread_in E w t s =
     and_then (get_thread E t s) (\<lambda>th.
     and_then (deny_cross_workspace w (th_workspace_id th) ''thread'') (\<lambda>_. Inr th))"

definition list_threads :: "ext \<Rightarrow> db \<Rightarrow> ThreadSummary list" where
  "list_threads E s =
     map (\<lambda>r. \<lparr>sum_id = tr_id r, sum_workspace_id = tr_workspace_id r,
           sum_status = parse_status (tr_status r), sum_title = tr_title r,
           sum_created_at = tr_created_at r, sum_updated_at = tr_updated_at r,
           sum_parent_thread_id = tr_parent_thread_id r,
           sum_forked_at_seq = map_option u64_or_zero (tr_forked_at_seq r)\<rparr>)
       (rev (sort_key (\<lambda>r. (tr_updated_at r, uuid_string E (tr_id r))) (db_threads s)))"

definition last_seq :: "ext \<Rightarrow> uuid \<Rightarrow> db \<Rightarrow> nat result" where
  "last_seq E t s =
     (if tbl_get tr_id t (db_threads s) = None
      then Inl (OpsCodexError.NotFound (''thread '' @ uuid_string E t))
      else Inr (u64_or_zero (max_or_zero (thread_seqs t s))))"

definition model_context :: "ext \<Rightarrow> uuid \<Rightarrow> ContextBudget \<Rightarrow> db \<Rightarrow> ModelItem list result" where
  "model_context E t budget s =
     and_then (events_after E t 0 s) (\<lambda>envs.
       Inr (build_model_context E (model_items_from_events E envs) budget))"

definition model_history :: "ext \<Rightarrow> uuid \<Rightarrow> nat \<Rightarrow> db \<Rightarrow> ModelItem list result" where
  "model_history E t limit s = model_context E t (items_only limit) s"

definition evidence_of_event :: "ext \<Rightarrow> uuid \<Rightarrow> uuid \<Rightarrow> EventEnvelope \<Rightarrow> EvidenceMeta option" where
  "evidence_of_event E t eid e =
     (case env_event e of
        RuntimeEvent.ToolCompleted _ _ _ evidence success \<Rightarrow>
          if \<not> success then None
          else if evidence_id_or_synthesize E evidence t (env_seq e) = eid
          then Some (evidence\<lparr>evm_evidence_id := Some eid\<rparr>) else None
      | _ \<Rightarrow> None)"

definition get_evidence :: "ext \<Rightarrow> uuid \<Rightarrow> uuid \<Rightarrow> db \<Rightarrow> EvidenceMeta result" where
  "get_evidence E t eid s =
     and_then (events_after E t 0 s) (\<lambda>envs.
       ok_or (OpsCodexError.NotFound (''evidence '' @ uuid_string E eid))
         (find_map (evidence_of_event E t eid) envs))"

definition get_evidence_in :: "ext \<Rightarrow> workspace_id \<Rightarrow> uuid \<Rightarrow> uuid \<Rightarrow> db \<Rightarrow> EvidenceMeta result" where
  "get_evidence_in E w t eid s = and_then (get_thread_in E w t s) (\<lambda>_. get_evidence E t eid s)"

section \<open>Lemmas\<close>

subsection \<open>Casts and columns\<close>

lemma as_i64_small: "n < 2 ^ 63 \<Longrightarrow> as_i64 n = int n"
  by (simp add: as_i64_def)

lemma u64_or_zero_int [simp]: "u64_or_zero (int n) = n"
  by (simp add: u64_or_zero_def)

lemma parse_status_sql [simp]: "parse_status (status_sql st) = st"
  by (cases st) (simp_all add: parse_status_def)

lemma fold_max_sorted: "sorted (x # xs) \<Longrightarrow> fold max xs x = last (x # (xs :: int list))"
  by (induction xs arbitrary: x) (auto simp: max_def)

lemma max_or_zero_upto: "max_or_zero (map int [1..<Suc n]) = int n"
proof (cases n)
  case (Suc m)
  have sorted: "sorted (map int [1..<Suc n])" by (simp add: sorted_map sorted_wrt_upt del: upt_Suc)
  obtain x xs where x: "map int [1..<Suc n] = x # xs"
    using Suc by (cases "map int [1..<Suc n]") (auto simp del: upt_Suc)
  have "fold max xs x = last (x # xs)" using sorted unfolding x by (rule fold_max_sorted)
  also have "\<dots> = int n" unfolding x [symmetric] using Suc by (simp add: last_map del: map_map)
  finally show ?thesis unfolding max_or_zero_def x by simp
qed (simp add: max_or_zero_def)

subsection \<open>Frames\<close>

lemma frame_simps [simp]:
  "db_events (index_evidence E e s) = db_events s"
  "db_threads (index_evidence E e s) = db_threads s"
  "db_workspaces (index_evidence E e s) = db_workspaces s"
  "db_events (update_thread t st ti now s) = db_events s"
  "map tr_id (db_threads (update_thread t st ti now s)) = map tr_id (db_threads s)"
  "db_events (insert_workspace w now s) = db_events s"
  "db_threads (insert_workspace w now s) = db_threads s"
  by (auto simp: index_evidence_def upsert_evidence_def update_thread_def insert_workspace_def Let_def
      tbl_update_def split: RuntimeEvent.split)

lemma transaction_do_Inl: "transaction_do m s = (Inl err, s') \<Longrightarrow> s' = s"
  by (auto simp: transaction_do_def split: prod.splits sum.splits)

lemma transaction_do_Inr: "transaction_do m s = (Inr x, s') \<longleftrightarrow> m s = (Inr x, s')"
  by (auto simp: transaction_do_def split: prod.splits sum.splits)

lemma insert_event_Inr:
  "insert_event e s = (Inr u, s') \<longleftrightarrow>
     s' = s\<lparr>db_events := db_events s @ [event_row_of e]\<rparr> \<and>
     (\<forall>r \<in> set (db_events s). \<not> (er_thread_id r = env_thread_id e \<and> er_seq r = as_i64 (env_seq e))) \<and>
     tbl_get er_event_id (env_event_id e) (db_events s) = None \<and>
     tbl_get tr_id (env_thread_id e) (db_threads s) \<noteq> None"
  by (auto simp: insert_event_def list_ex_iff)

lemma event_row_of_simps [simp]:
  "er_thread_id (event_row_of e) = env_thread_id e"
  "er_seq (event_row_of e) = as_i64 (env_seq e)"
  "er_event_id (event_row_of e) = env_event_id e"
  "er_payload (event_row_of e) = e"
  by (simp_all add: event_row_of_def)

lemma appended_envelope_simps [simp]:
  "env_thread_id (appended_envelope i now cmd n w) = ap_thread_id cmd"
  "env_seq (appended_envelope i now cmd n w) = n"
  "env_event_id (appended_envelope i now cmd n w) = i"
  "env_event (appended_envelope i now cmd n w) = ap_event cmd"
  "env_workspace_id (appended_envelope i now cmd n w) = w"
  "env_timestamp (appended_envelope i now cmd n w) = now"
  by (auto simp: appended_envelope_def with_causation_def Let_def split: option.split)

subsection \<open>The log invariant\<close>

definition thread_log :: "uuid \<Rightarrow> db \<Rightarrow> EventEnvelope list" where
  "thread_log t s = map er_payload (filter (\<lambda>r. er_thread_id r = t) (db_events s))"

definition store_log :: "db \<Rightarrow> uuid \<Rightarrow> EventEnvelope list option" where
  "store_log s t = (if t \<in> set (map tr_id (db_threads s)) then Some (thread_log t s) else None)"

definition valid_log :: "uuid \<Rightarrow> workspace_id \<Rightarrow> EventEnvelope list \<Rightarrow> bool" where
  "valid_log t w L \<longleftrightarrow>
     L \<noteq> [] \<and> env_event (hd L) = ThreadCreated \<and> length L < 2 ^ 63 \<and> gap_free L \<and>
     (\<forall>e \<in> set L. env_thread_id e = t \<and> env_workspace_id e = w)"

definition store_inv :: "db \<Rightarrow> bool" where
  "store_inv s \<longleftrightarrow>
     distinct (map tr_id (db_threads s)) \<and> distinct (map er_event_id (db_events s)) \<and>
     (\<forall>r \<in> set (db_events s). r = event_row_of (er_payload r) \<and> er_thread_id r \<in> set (map tr_id (db_threads s))) \<and>
     (\<forall>row \<in> set (db_threads s). valid_log (tr_id row) (tr_workspace_id row) (thread_log (tr_id row) s))"

lemma store_inv_empty: "store_inv empty_db"
  by (simp add: store_inv_def empty_db_def)

lemma thread_log_snoc:
  "thread_log t (s\<lparr>db_events := db_events s @ [event_row_of e]\<rparr>) =
     thread_log t s @ (if env_thread_id e = t then [e] else [])"
  by (simp add: thread_log_def)

lemma thread_log_cong: "db_events s = db_events s' \<Longrightarrow> thread_log t s = thread_log t s'"
  by (simp add: thread_log_def)

lemma tbl_get_ids: "tbl_get tr_id t T = None \<longleftrightarrow> t \<notin> set (map tr_id T)"
  by (auto simp: tbl_get_None_iff)

lemma store_inv_thread:
  assumes "store_inv s" and "tbl_get tr_id t (db_threads s) = Some row"
  shows "valid_log t (tr_workspace_id row) (thread_log t s)"
  using assms tbl_get_SomeD [OF assms(2)] by (auto simp: store_inv_def)

lemma store_log_valid:
  assumes "store_inv s" and "store_log s t = Some L"
  shows "\<exists>row. tbl_get tr_id t (db_threads s) = Some row \<and> valid_log t (tr_workspace_id row) L \<and> L = thread_log t s"
proof -
  from assms(2) have "t \<in> set (map tr_id (db_threads s))" "L = thread_log t s"
    by (auto simp: store_log_def split: if_splits)
  then show ?thesis using store_inv_thread [OF assms(1)] tbl_get_ids by (metis option.exhaust)
qed

lemma valid_log_seqs:
  assumes "valid_log t w L"
  shows "map (\<lambda>e. as_i64 (env_seq e)) L = map int [1..<Suc (length L)]"
proof -
  have "map (\<lambda>e. as_i64 (env_seq e)) L = map as_i64 (map env_seq L)" by simp
  also have "\<dots> = map as_i64 [1..<Suc (length L)]"
    using assms gap_free_seqs [of L] by (simp add: valid_log_def del: upt_Suc)
  also have "\<dots> = map int [1..<Suc (length L)]"
    using assms by (intro map_cong) (auto simp: valid_log_def as_i64_small simp del: upt_Suc)
  finally show ?thesis .
qed

lemma thread_rows_log:
  assumes "store_inv s"
  shows "filter (\<lambda>r. er_thread_id r = t) (db_events s) = map event_row_of (thread_log t s)"
proof -
  have "map event_row_of (thread_log t s) =
      map (\<lambda>r. event_row_of (er_payload r)) (filter (\<lambda>r. er_thread_id r = t) (db_events s))"
    by (simp add: thread_log_def)
  also have "\<dots> = map (\<lambda>r. r) (filter (\<lambda>r. er_thread_id r = t) (db_events s))"
    using assms by (intro map_cong) (auto simp: store_inv_def)
  finally show ?thesis by simp
qed

lemma thread_seqs_log:
  assumes "store_inv s" and "tbl_get tr_id t (db_threads s) = Some row"
  shows "thread_seqs t s = map int [1..<Suc (length (thread_log t s))]"
  using valid_log_seqs [OF store_inv_thread [OF assms]]
  by (simp add: thread_seqs_def thread_rows_log [OF assms(1)] o_def del: upt_Suc)

lemma next_seq:
  assumes "store_inv s" and "tbl_get tr_id t (db_threads s) = Some row"
  shows "u64_or_zero (max_or_zero (thread_seqs t s)) = length (thread_log t s)"
  by (simp only: thread_seqs_log [OF assms] max_or_zero_upto u64_or_zero_int)

lemma load_events_log:
  assumes "store_inv s" and "store_log s t = Some L" and "n < 2 ^ 63"
  shows "load_events E t n s = Inr (filter (\<lambda>e. n < env_seq e) L)"
proof -
  from store_log_valid [OF assms(1,2)] obtain row where
    row: "tbl_get tr_id t (db_threads s) = Some row" "valid_log t (tr_workspace_id row) L"
    "L = thread_log t s" by blast
  have small: "env_seq e < 2 ^ 63" if "e \<in> set L" for e
    using row(2) that by (auto simp: valid_log_def gap_free_def in_set_conv_nth)
  have "filter (\<lambda>r. er_thread_id r = t \<and> as_i64 n < er_seq r) (db_events s) =
      filter (\<lambda>r. as_i64 n < er_seq r) (filter (\<lambda>r. er_thread_id r = t) (db_events s))"
    by (simp add: conj_commute)
  also have "\<dots> = map event_row_of (filter (\<lambda>e. as_i64 n < as_i64 (env_seq e)) L)"
    by (simp add: thread_rows_log [OF assms(1)] row(3) filter_map o_def)
  also have "filter (\<lambda>e. as_i64 n < as_i64 (env_seq e)) L = filter (\<lambda>e. n < env_seq e) L"
    using small assms(3) by (intro filter_cong) (simp_all add: as_i64_small)
  finally have rows: "filter (\<lambda>r. er_thread_id r = t \<and> as_i64 n < er_seq r) (db_events s) =
      map event_row_of (filter (\<lambda>e. n < env_seq e) L)" .
  have "sorted (map (\<lambda>e. as_i64 (env_seq e)) L)"
    by (simp add: valid_log_seqs [OF row(2)] sorted_map sorted_wrt_upt del: upt_Suc)
  then have "sorted (map er_seq (map event_row_of (filter (\<lambda>e. n < env_seq e) L)))"
    by (simp add: o_def sorted_filter)
  then have "sort_key er_seq (map event_row_of (filter (\<lambda>e. n < env_seq e) L)) =
      map event_row_of (filter (\<lambda>e. n < env_seq e) L)" by (rule sort_key_id_if_sorted)
  with row(1) rows show ?thesis by (simp add: load_events_def o_def)
qed

subsection \<open>Preservation\<close>

definition thread_keys :: "db \<Rightarrow> (uuid \<times> workspace_id) list" where
  "thread_keys s = map (\<lambda>r. (tr_id r, tr_workspace_id r)) (db_threads s)"

lemma thread_keys_ids: "map tr_id (db_threads s) = map fst (thread_keys s)"
  by (simp add: thread_keys_def o_def)

lemma thread_keys_frame [simp]:
  "thread_keys (index_evidence E e s) = thread_keys s"
  "thread_keys (update_thread t st ti now s) = thread_keys s"
  "thread_keys (insert_workspace w now s) = thread_keys s"
  "thread_keys (db_events_update f s) = thread_keys s"
  by (auto simp: thread_keys_def update_thread_def tbl_update_def)

lemma store_inv_keys:
  "store_inv s \<longleftrightarrow>
     distinct (map fst (thread_keys s)) \<and> distinct (map er_event_id (db_events s)) \<and>
     (\<forall>r \<in> set (db_events s). r = event_row_of (er_payload r) \<and> er_thread_id r \<in> set (map fst (thread_keys s))) \<and>
     (\<forall>(t, w) \<in> set (thread_keys s). valid_log t w (thread_log t s))"
  by (auto simp: store_inv_def thread_keys_ids) (auto simp: thread_keys_def)

lemma store_inv_cong:
  "db_events s' = db_events s \<Longrightarrow> thread_keys s' = thread_keys s \<Longrightarrow> store_inv s' \<longleftrightarrow> store_inv s"
  by (simp add: store_inv_keys thread_log_def)

lemma store_log_cong:
  "db_events s' = db_events s \<Longrightarrow> thread_keys s' = thread_keys s \<Longrightarrow> store_log s' = store_log s"
  by (auto simp: store_log_def thread_log_def thread_keys_ids)

lemma valid_log_snoc:
  "valid_log t w L \<Longrightarrow> env_thread_id e = t \<Longrightarrow> env_workspace_id e = w \<Longrightarrow>
     env_seq e = Suc (length L) \<Longrightarrow> Suc (length L) < 2 ^ 63 \<Longrightarrow> valid_log t w (L @ [e])"
  by (auto simp: valid_log_def gap_free_snoc)

lemma store_inv_append:
  assumes inv: "store_inv s" and row: "tbl_get tr_id t (db_threads s) = Some row"
    and e: "env_thread_id e = t" "env_workspace_id e = tr_workspace_id row"
      "env_seq e = Suc (length (thread_log t s))" "Suc (length (thread_log t s)) < 2 ^ 63"
    and fresh: "tbl_get er_event_id (env_event_id e) (db_events s) = None"
  shows "store_inv (s\<lparr>db_events := db_events s @ [event_row_of e]\<rparr>)"
proof -
  have t: "t \<in> set (map tr_id (db_threads s))" using tbl_get_SomeD [OF row] by auto
  have "env_event_id e \<notin> set (map er_event_id (db_events s))"
    using fresh by (auto simp: tbl_get_None_iff)
  moreover have "valid_log (tr_id r) (tr_workspace_id r)
      (thread_log (tr_id r) (s\<lparr>db_events := db_events s @ [event_row_of e]\<rparr>))"
    if r: "r \<in> set (db_threads s)" for r
  proof (cases "tr_id r = t")
    case True
    have "tbl_get tr_id (tr_id r) (db_threads s) = Some r"
      using inv r by (intro tbl_get_distinct) (simp_all add: store_inv_def)
    with True row have "r = row" by simp
    then show ?thesis
      using valid_log_snoc [OF store_inv_thread [OF inv row] e] True e(1) by (simp add: thread_log_snoc)
  next
    case False
    with inv r e(1) show ?thesis by (simp add: thread_log_snoc store_inv_def)
  qed
  ultimately show ?thesis using inv t e(1) by (auto simp: store_inv_def)
qed

lemma append_event_Inr:
  assumes "append_event E i now cmd s = (Inr e, s')"
  obtains row where "tbl_get tr_id (ap_thread_id cmd) (db_threads s) = Some row"
    and "e = appended_envelope i now cmd
      (u64_or_zero (max_or_zero (thread_seqs (ap_thread_id cmd) s)) + 1) (tr_workspace_id row)"
    and "db_events s' = db_events s @ [event_row_of e]" and "thread_keys s' = thread_keys s"
    and "tbl_get er_event_id i (db_events s) = None"
    and "tbl_get tr_id (ap_thread_id cmd) (db_threads s') = Some (row\<lparr>
        tr_status := status_sql (status_after (parse_status (tr_status row)) (ap_event cmd)),
        tr_title := (case tr_title row of Some x \<Rightarrow> Some x | None \<Rightarrow> title_from_event (ap_event cmd)),
        tr_updated_at := now\<rparr>)"
    and "\<And>u. u \<noteq> ap_thread_id cmd \<Longrightarrow> tbl_get tr_id u (db_threads s') = tbl_get tr_id u (db_threads s)"
proof -
  let ?t = "ap_thread_id cmd"
  from assms obtain row where row: "tbl_get tr_id ?t (db_threads s) = Some row"
    by (auto simp: append_event_def transaction_do_Inr split: option.splits)
  let ?e = "appended_envelope i now cmd (u64_or_zero (max_or_zero (thread_seqs ?t s)) + 1) (tr_workspace_id row)"
  let ?title = "case tr_title row of Some x \<Rightarrow> Some x | None \<Rightarrow> title_from_event (ap_event cmd)"
  let ?status = "status_after (parse_status (tr_status row)) (ap_event cmd)"
  from assms row obtain s1 where s1: "insert_event ?e s = (Inr (), s1)" "e = ?e"
    "s' = index_evidence E ?e (update_thread ?t ?status ?title now s1)"
    by (auto simp: append_event_def transaction_do_Inr sm_simps Let_def cong: option.case_cong
        split: if_splits prod.splits sum.splits)
  then have ev: "s1 = s\<lparr>db_events := db_events s @ [event_row_of ?e]\<rparr>"
    "tbl_get er_event_id i (db_events s) = None" by (simp_all add: insert_event_Inr)
  have "tbl_get tr_id ?t (db_threads s') = Some (row\<lparr>tr_status := status_sql ?status,
      tr_title := ?title, tr_updated_at := now\<rparr>)"
    using row by (simp add: s1(3) update_thread_def ev(1)) (subst tbl_get_update, auto dest: tbl_get_SomeD)
  moreover have "tbl_get tr_id u (db_threads s') = tbl_get tr_id u (db_threads s)" if "u \<noteq> ?t" for u
    using that by (simp add: s1(3) update_thread_def ev(1))
      (subst tbl_get_update, auto simp: map_option_case dest: tbl_get_SomeD split: option.split)
  ultimately show thesis using row s1(2,3) ev by (intro that) simp_all
qed

lemma append_event_works:
  assumes inv: "store_inv s" and run: "append_event E i now cmd s = (Inr e, s')"
    and L: "store_log s (ap_thread_id cmd) = Some L" and room: "Suc (length L) < 2 ^ 63"
  shows "store_inv s' \<and> store_log s' = (store_log s)(ap_thread_id cmd \<mapsto> L @ [e]) \<and>
    env_event e = ap_event cmd"
proof -
  from append_event_Inr [OF run] obtain row where row:
    "tbl_get tr_id (ap_thread_id cmd) (db_threads s) = Some row"
    "e = appended_envelope i now cmd
      (u64_or_zero (max_or_zero (thread_seqs (ap_thread_id cmd) s)) + 1) (tr_workspace_id row)"
    "db_events s' = db_events s @ [event_row_of e]" "thread_keys s' = thread_keys s"
    "tbl_get er_event_id i (db_events s) = None" by metis
  let ?s = "s\<lparr>db_events := db_events s @ [event_row_of e]\<rparr>"
  from L have log: "L = thread_log (ap_thread_id cmd) s" "ap_thread_id cmd \<in> set (map tr_id (db_threads s))"
    by (auto simp: store_log_def split: if_splits)
  have same: "store_inv s' \<longleftrightarrow> store_inv ?s" "store_log s' = store_log ?s"
    using row(3,4) store_inv_cong [of s' ?s] store_log_cong [of s' ?s] by simp_all
  have "store_inv ?s"
    by (rule store_inv_append [OF inv row(1)])
       (use row next_seq [OF inv row(1)] log room in simp_all)
  moreover have "store_log ?s = (store_log s)(ap_thread_id cmd \<mapsto> L @ [e])"
    using log row(2) by (auto simp: store_log_def thread_log_snoc fun_eq_iff)
  ultimately show ?thesis using same row(2) by simp
qed

lemma append_event_succeeds:
  assumes inv: "store_inv s" and L: "store_log s (ap_thread_id cmd) = Some L" and room: "Suc (length L) < 2 ^ 63"
    and fresh: "tbl_get er_event_id i (db_events s) = None"
  shows "\<exists>e s'. append_event E i now cmd s = (Inr e, s')"
proof -
  from store_log_valid [OF inv L] obtain row where
    row: "tbl_get tr_id (ap_thread_id cmd) (db_threads s) = Some row" "L = thread_log (ap_thread_id cmd) s" by blast
  let ?e = "appended_envelope i now cmd (length L + 1) (tr_workspace_id row)"
  have seq: "u64_or_zero (max_or_zero (thread_seqs (ap_thread_id cmd) s)) = length L"
    using next_seq [OF inv row(1)] row(2) by simp
  have "er_seq r \<noteq> int (length L + 1)" if "r \<in> set (db_events s)" "er_thread_id r = ap_thread_id cmd" for r
  proof -
    have "er_seq r \<in> set (thread_seqs (ap_thread_id cmd) s)" using that by (auto simp: thread_seqs_def)
    then show ?thesis by (auto simp: thread_seqs_log [OF inv row(1)] row(2))
  qed
  then have "insert_event ?e s = (Inr (), s\<lparr>db_events := db_events s @ [event_row_of ?e]\<rparr>)"
    using row(1) fresh room by (simp add: insert_event_Inr as_i64_small)
  then show ?thesis
    using row(1) room by (simp add: append_event_def transaction_do_def sm_simps seq Let_def)
qed

lemma store_inv_new_thread:
  assumes inv: "store_inv s" and t: "t \<notin> set (map fst (thread_keys s))" and L: "valid_log t w L"
    and ids: "distinct (map er_event_id (db_events s'))"
    and s': "thread_keys s' = thread_keys s @ [(t, w)]" "db_events s' = db_events s @ map event_row_of L"
  shows "store_inv s' \<and> store_log s' = (store_log s)(t \<mapsto> L)"
proof -
  have other: "filter (\<lambda>r. er_thread_id r = t) (db_events s) = []"
    using inv t by (auto simp: store_inv_keys filter_empty_conv)
  have all_t: "filter (\<lambda>e. env_thread_id e = u) L = (if u = t then L else [])" for u
    using L by (auto simp: valid_log_def filter_empty_conv filter_id_conv)
  have logs: "thread_log u s' = (if u = t then L else thread_log u s)" for u
    using other by (simp add: thread_log_def s'(2) filter_map o_def all_t)
  have "valid_log u v (thread_log u s')" if "(u, v) \<in> set (thread_keys s')" for u v
  proof (cases "(u, v) \<in> set (thread_keys s)")
    case True
    with t have "u \<noteq> t" by force
    with True inv show ?thesis by (auto simp: logs store_inv_keys)
  qed (use that L in \<open>auto simp: s'(1) logs\<close>)
  moreover have "r = event_row_of (er_payload r) \<and> er_thread_id r \<in> set (map fst (thread_keys s'))"
    if "r \<in> set (db_events s')" for r
    using that inv L by (auto simp: s' store_inv_keys valid_log_def)
  ultimately have "store_inv s'"
    using inv t ids by (auto simp: store_inv_keys s'(1))
  moreover have "store_log s' = (store_log s)(t \<mapsto> L)"
    by (auto simp: store_log_def logs thread_keys_ids s'(1) fun_eq_iff)
  ultimately show ?thesis by simp
qed

lemma insert_thread_Inr:
  assumes "insert_thread E e parent at_seq st ti s = (Inr u, s')"
  shows "env_thread_id e \<notin> set (map fst (thread_keys s)) \<and>
    thread_keys s' = thread_keys s @ [(env_thread_id e, env_workspace_id e)] \<and> db_events s' = db_events s"
  using assms by (auto simp: insert_thread_def thread_keys_def tbl_get_None_iff split: if_splits)

lemma insert_events_Inr:
  "insert_events E es s = (Inr u, s') \<Longrightarrow> distinct (map er_event_id (db_events s)) \<Longrightarrow>
     db_events s' = db_events s @ map event_row_of es \<and> thread_keys s' = thread_keys s \<and>
     distinct (map er_event_id (db_events s'))"
proof (induction es arbitrary: s)
  case (Cons e es)
  from Cons.prems(1) obtain s1 where s1: "insert_event e s = (Inr (), s1)"
    "insert_events E es (index_evidence E e s1) = (Inr u, s')"
    by (auto simp: sm_simps split: prod.splits sum.splits)
  then have ev: "db_events s1 = db_events s @ [event_row_of e]" "thread_keys s1 = thread_keys s"
    "env_event_id e \<notin> er_event_id ` set (db_events s)"
    by (simp_all add: insert_event_Inr tbl_get_None_iff)
  with Cons.prems(2) have "distinct (map er_event_id (db_events (index_evidence E e s1)))" by simp
  note ih = Cons.IH [OF s1(2) this]
  show ?case
  proof (intro conjI)
    show "db_events s' = db_events s @ map event_row_of (e # es)" "thread_keys s' = thread_keys s"
      using ih ev by simp_all
    show "distinct (map er_event_id (db_events s'))" using ih by blast
  qed
qed (simp add: sm_simps)

lemma created_simps [simp]:
  "env_thread_id (with_workspace w (new_envelope i now n t u ev)) = t"
  "env_workspace_id (with_workspace w (new_envelope i now n t u ev)) = w"
  "env_seq (with_workspace w (new_envelope i now n t u ev)) = n"
  "env_event (with_workspace w (new_envelope i now n t u ev)) = ev"
  "env_event_id (with_workspace w (new_envelope i now n t u ev)) = i"
  by (simp_all add: with_workspace_def new_envelope_def with_causation_def)

lemma create_thread_works:
  assumes inv: "store_inv s" and run: "create_thread E i now t w s = (Inr e, s')"
  shows "store_inv s' \<and> store_log s t = None \<and> store_log s' = (store_log s)(t \<mapsto> [e]) \<and>
    env_event e = ThreadCreated"
proof -
  let ?e = "with_workspace w (new_envelope i now 1 t None ThreadCreated)"
  from run obtain s1 where s1: "insert_thread E ?e None None ThreadStatus.Idle None
        (insert_workspace w (env_timestamp ?e) s) = (Inr (), s1)"
      "insert_event ?e s1 = (Inr (), s')" "e = ?e"
    by (auto simp: create_thread_def transaction_do_Inr sm_simps Let_def split: prod.splits sum.splits)
  from insert_thread_Inr [OF s1(1)] have keys: "t \<notin> set (map fst (thread_keys s))"
    "thread_keys s1 = thread_keys s @ [(t, w)]" "db_events s1 = db_events s" by simp_all
  have ev: "db_events s' = db_events s @ map event_row_of [?e]" "thread_keys s' = thread_keys s @ [(t, w)]"
    "env_event_id ?e \<notin> er_event_id ` set (db_events s)"
    using s1(2) keys by (simp_all add: insert_event_Inr tbl_get_None_iff)
  have "valid_log t w [?e]" by (simp add: valid_log_def gap_free_def)
  moreover have "distinct (map er_event_id (db_events s'))"
    using inv ev by (simp add: store_inv_def)
  ultimately have "store_inv s' \<and> store_log s' = (store_log s)(t \<mapsto> [?e])"
    by (rule store_inv_new_thread [OF inv keys(1) _ _ ev(2,1)])
  with keys(1) show ?thesis by (simp add: s1(3) store_log_def thread_keys_ids)
qed

lemma sqlite_create_fails: "create_thread E i now t w s = (Inl err, s') \<Longrightarrow> s' = s"
  by (auto simp: create_thread_def sm_simps Let_def dest: transaction_do_Inl split: sum.splits)

lemma sqlite_append_fails: "append_event E i now cmd s = (Inl err, s') \<Longrightarrow> s' = s"
  by (auto simp: append_event_def dest: transaction_do_Inl)

interpretation sqlite_log: event_log_store store_inv store_log "create_thread E" "append_event E"
    "events_after E" "2 ^ 63" for E
proof
  show "gap_free L \<and> length L < 2 ^ 63" if "store_inv s" "store_log s t = Some L" for s t L
    using store_log_valid [OF that] by (auto simp: valid_log_def)
  show "store_inv s' \<and> log_grew t (store_log s) (store_log s')"
    if "store_inv s" "create_thread E i now t w s = (Inl err, s')" for i now t w s err s'
    using that sqlite_create_fails by (metis log_grew_refl)
  show "store_inv s' \<and> log_grew (ap_thread_id cmd) (store_log s) (store_log s')"
    if "store_inv s" "append_event E i now cmd s = (Inl err, s')" for i now cmd s err s'
    using that sqlite_append_fails by (metis log_grew_refl)
  show "store_log s (ap_thread_id cmd) \<noteq> None" if "append_event E i now cmd s = (Inr e, s')" for i now cmd s e s'
    using append_event_Inr [OF that] tbl_get_ids by (metis option.simps(3) store_log_def)
  show "events_after E t n s = Inr (filter (\<lambda>e. n < env_seq e) L)"
    if "store_inv s" "store_log s t = Some L" "n < 2 ^ 63" for s t L n
    unfolding events_after_def using that by (rule load_events_log)
  show "store_inv s' \<and> store_log s t = None \<and> store_log s' = (store_log s)(t \<mapsto> [e]) \<and> env_event e = ThreadCreated"
    if "store_inv s" "create_thread E i now t w s = (Inr e, s')" for s i now t w e s'
    using that by (rule create_thread_works)
  show "store_inv s' \<and> store_log s' = (store_log s)(ap_thread_id cmd \<mapsto> L @ [e]) \<and> env_event e = ap_event cmd"
    if "store_inv s" "append_event E i now cmd s = (Inr e, s')"
      "store_log s (ap_thread_id cmd) = Some L" "Suc (length L) < 2 ^ 63" for s i now cmd e s' L
    using that by (rule append_event_works)
  show "1 < (2 ^ 63 :: nat)" by simp
qed

subsection \<open>Cached columns\<close>

text \<open>The status and title columns of a thread agree with what its log projects to.\<close>

definition item_title :: "Item \<Rightarrow> string option" where
  "item_title item = (case item of UserMessageItem content \<Rightarrow> Some (chars_take 120 content) | _ \<Rightarrow> None)"

definition columns_current :: "uuid \<Rightarrow> db \<Rightarrow> bool" where
  "columns_current t s \<longleftrightarrow>
     (\<exists>row. tbl_get tr_id t (db_threads s) = Some row \<and>
        parse_status (tr_status row) = snd (project (thread_log t s)) \<and>
        tr_title row = find_map item_title (fst (project (thread_log t s))))"

lemma item_title_refresh: "item_title (refresh st h r x) = item_title x" "item_title (decide v x) = item_title x"
  by (cases x; simp add: item_title_def)+

lemma find_map_update_last:
  assumes "update_last P f items = Some items'" and "\<And>x. g (f x) = g x"
  shows "find_map g items' = find_map g items"
proof -
  obtain a x b where "items = a @ x # b" "items' = a @ f x # b"
    using update_last_SomeD [OF assms(1)] by blast
  then show ?thesis by (cases "find_map g a") (simp_all add: find_map_append assms(2))
qed

lemma title_apply_items:
  "find_map item_title (apply_items items ev) =
     (case find_map item_title items of Some x \<Rightarrow> Some x | None \<Rightarrow> title_from_event ev)"
proof (cases ev)
  case (ApprovalResolved aid v)
  then show ?thesis
    by (cases "update_last (is_approval aid) (decide v) items")
       (auto simp: title_from_event_def find_map_update_last item_title_refresh split: option.split)
next
  case (ActionUpdated aid plan status tool hash review)
  then show ?thesis
    by (cases "update_last (is_action aid) (refresh status hash review) items")
       (auto simp: title_from_event_def find_map_update_last item_title_refresh
         find_map_append item_title_def [of "ActionItem a b c d e" for a b c d e] split: option.split)
qed (auto simp: title_from_event_def find_map_append item_title_def split: option.split)

lemma append_event_columns:
  assumes run: "append_event E i now cmd s = (Inr e, s')" and cur: "columns_current u s"
  shows "columns_current u s'"
proof -
  let ?t = "ap_thread_id cmd"
  from append_event_Inr [OF run] obtain row where row: "tbl_get tr_id ?t (db_threads s) = Some row"
    "db_events s' = db_events s @ [event_row_of e]" "env_thread_id e = ?t" "env_event e = ap_event cmd"
    "tbl_get tr_id ?t (db_threads s') = Some (row\<lparr>
        tr_status := status_sql (status_after (parse_status (tr_status row)) (ap_event cmd)),
        tr_title := (case tr_title row of Some x \<Rightarrow> Some x | None \<Rightarrow> title_from_event (ap_event cmd)),
        tr_updated_at := now\<rparr>)"
    "\<And>v. v \<noteq> ?t \<Longrightarrow> tbl_get tr_id v (db_threads s') = tbl_get tr_id v (db_threads s)"
    by (metis appended_envelope_simps(1,4))
  have log: "thread_log v s' = thread_log v s @ (if v = ?t then [e] else [])" for v
    using row(2,3) by (auto simp: thread_log_def)
  show ?thesis
  proof (cases "u = ?t")
    case True
    with cur row(1) show ?thesis
      by (simp add: columns_current_def row(5) log project_snoc row(4) title_apply_items)
  next
    case False
    with cur row(6) show ?thesis by (simp add: columns_current_def log)
  qed
qed

lemma create_thread_columns:
  assumes inv: "store_inv s" and run: "create_thread E i now t w s = (Inr e, s')"
    and cur: "\<And>u. store_log s u \<noteq> None \<Longrightarrow> columns_current u s"
    and u: "store_log s' u \<noteq> None"
  shows "columns_current u s'"
proof -
  let ?e = "with_workspace w (new_envelope i now 1 t None ThreadCreated)"
  from run obtain s1 where s1: "insert_thread E ?e None None ThreadStatus.Idle None
        (insert_workspace w (env_timestamp ?e) s) = (Inr (), s1)"
      "insert_event ?e s1 = (Inr (), s')" "e = ?e"
    by (auto simp: create_thread_def transaction_do_Inr sm_simps Let_def split: prod.splits sum.splits)
  then obtain row where th: "db_threads s' = db_threads s @ [row]" "tr_id row = t"
      "tr_status row = ''idle''" "tr_title row = None" "tbl_get tr_id t (db_threads s) = None"
    by (auto simp: insert_thread_def insert_event_Inr split: if_splits)
  have log: "store_log s' = (store_log s)(t \<mapsto> [?e])" "store_log s t = None"
    using create_thread_works [OF inv run] s1(3) by auto
  show ?thesis
  proof (cases "u = t")
    case True
    have "thread_log t s' = [?e]" using log(1) by (metis fun_upd_same option.distinct(1) option.inject store_log_def)
    with True th show ?thesis
      by (simp add: columns_current_def tbl_get_append project_def apply_event_def parse_status_def)
  next
    case False
    with log u have "store_log s u = store_log s' u" "store_log s u \<noteq> None" by auto
    then have "thread_log u s' = thread_log u s" "tbl_get tr_id u (db_threads s) \<noteq> None"
      by (auto simp: store_log_def tbl_get_ids split: if_splits)
    with cur [OF \<open>store_log s u \<noteq> None\<close>] False th show ?thesis
      by (auto simp: columns_current_def tbl_get_append)
  qed
qed

lemma log_step_columns:
  assumes inv: "store_inv s" and cur: "\<And>u. store_log s u \<noteq> None \<Longrightarrow> columns_current u s"
    and u: "store_log (log_step (create_thread E) (append_event E) c s) u \<noteq> None"
    and room: "log_room store_log (2 ^ 63) s (Suc k)"
  shows "columns_current u (log_step (create_thread E) (append_event E) c s)"
proof (cases c)
  case (CreateThread i now t w)
  obtain r s' where run: "create_thread E i now t w s = (r, s')" by fastforce
  show ?thesis
  proof (cases r)
    case (Inl err)
    from run [unfolded Inl] have "s' = s" by (rule sqlite_create_fails)
    with run CreateThread u cur show ?thesis by (simp add: log_step_def)
  next
    case (Inr e)
    with run CreateThread u create_thread_columns [OF inv _ cur] show ?thesis by (simp add: log_step_def)
  qed
next
  case (AppendTo i now cmd)
  obtain r s' where run: "append_event E i now cmd s = (r, s')" by fastforce
  show ?thesis
  proof (cases r)
    case (Inl err)
    from run [unfolded Inl] have "s' = s" by (rule sqlite_append_fails)
    with run AppendTo u cur show ?thesis by (simp add: log_step_def)
  next
    case (Inr e)
    from append_event_Inr [OF run [unfolded Inr]] have "thread_keys s' = thread_keys s" by metis
    with u run AppendTo have "store_log s u \<noteq> None"
      by (simp add: log_step_def store_log_def thread_keys_ids split: if_splits)
    with cur have "columns_current u s" by blast
    with run AppendTo Inr append_event_columns show ?thesis by (simp add: log_step_def)
  qed
qed

lemma run_columns:
  assumes "store_inv s" and "\<And>u. store_log s u \<noteq> None \<Longrightarrow> columns_current u s"
    and "log_room store_log (2 ^ 63) s (length cmds)"
    and "store_log (fold (log_step (create_thread E) (append_event E)) cmds s) u \<noteq> None"
  shows "columns_current u (fold (log_step (create_thread E) (append_event E)) cmds s)"
  using assms
proof (induction cmds arbitrary: s)
  case (Cons c cmds)
  let ?s = "log_step (create_thread E) (append_event E) c s"
  have room: "log_room store_log (2 ^ 63) s (Suc (length cmds))" using Cons.prems(3) by simp
  note ext = sqlite_log.step_extends [OF Cons.prems(1) room, of E c]
  have "columns_current v ?s" if "store_log ?s v \<noteq> None" for v
    using log_step_columns [OF Cons.prems(1,2) that room] .
  with Cons.IH [of ?s] ext Cons.prems(4) show ?case by simp
qed simp

subsection \<open>Forks\<close>

lemma forked_envelopes_simps [simp]:
  "length (forked_envelopes ids clock t w n es) = length es"
  "map env_event (forked_envelopes ids clock t w n es) = map env_event es"
  by (induction es arbitrary: n) (simp_all add: forked_envelope_def with_causation_def)

lemma forked_envelopes_nth:
  "i < length es \<Longrightarrow> env_seq (forked_envelopes ids clock t w n es ! i) = n + 1 + i \<and>
     env_thread_id (forked_envelopes ids clock t w n es ! i) = t \<and>
     env_workspace_id (forked_envelopes ids clock t w n es ! i) = w"
proof (induction es arbitrary: n i)
  case (Cons e es)
  then show ?case by (cases i) (simp_all add: forked_envelope_def with_causation_def)
qed simp

definition inherited_events :: "nat \<Rightarrow> EventEnvelope list \<Rightarrow> EventEnvelope list" where
  "inherited_events at_seq L = filter (\<lambda>e. env_seq e \<le> at_seq \<and> inheritable (env_event e)) L"

lemma inherited_events_Cons:
  assumes "valid_log t w L" and "at_seq \<noteq> 0"
  shows "\<exists>rest. inherited_events at_seq L = hd L # rest \<and> env_workspace_id (hd L) = w \<and>
    rest = inherited_events at_seq (tl L)"
proof -
  from assms(1) obtain e es where L: "L = e # es" "env_event e = ThreadCreated" "env_workspace_id e = w"
    by (cases L) (auto simp: valid_log_def)
  have "env_seq e = 1" using assms(1) L(1) by (force simp: valid_log_def gap_free_def)
  with L assms(2) show ?thesis by (simp add: inherited_events_def inheritable_def)
qed

lemma valid_log_forked:
  assumes "length es < 2 ^ 63 - 1"
  shows "valid_log t w (with_workspace w (new_envelope i now 1 t None ThreadCreated) #
    forked_envelopes ids clock t w 1 es)"
proof -
  let ?L = "with_workspace w (new_envelope i now 1 t None ThreadCreated) # forked_envelopes ids clock t w 1 es"
  have nth: "env_seq (?L ! j) = Suc j \<and> env_thread_id (?L ! j) = t \<and> env_workspace_id (?L ! j) = w"
    if "j < length ?L" for j
    using that forked_envelopes_nth [of "j - 1" es ids clock t w 1] by (cases j) auto
  then have "\<forall>e \<in> set ?L. env_thread_id e = t \<and> env_workspace_id e = w"
    by (metis in_set_conv_nth)
  with nth assms show ?thesis by (auto simp: valid_log_def gap_free_def)
qed

lemma fork_thread_works:
  assumes inv: "store_inv s" and L: "store_log s t = Some L"
    and run: "fork_thread E ids clock now t at_seq new_t title s = (Inr created, s')"
  shows "\<exists>w. valid_log t w L \<and> created = with_workspace w (new_envelope (ids 1) (clock 1) 1 new_t None ThreadCreated) \<and>
    store_inv s' \<and> store_log s new_t = None \<and>
    store_log s' = (store_log s)(new_t \<mapsto>
      created # forked_envelopes ids clock new_t w 1 (tl (inherited_events at_seq L)))"
proof -
  from store_log_valid [OF inv L] obtain w where v: "valid_log t w L" by blast
  have pos: "at_seq \<noteq> 0" using run by (auto simp: fork_thread_def split: if_splits)
  have load: "load_events E t 0 s = Inr L"
    using load_events_log [OF inv L, of 0] gap_free_filter [of L 0] v by (simp add: valid_log_def)
  obtain rest where rest: "inherited_events at_seq L = hd L # rest" "env_workspace_id (hd L) = w"
    using inherited_events_Cons [OF v pos] by blast
  let ?c = "with_workspace w (new_envelope (ids 1) (clock 1) 1 new_t None ThreadCreated)"
  let ?f = "forked_envelopes ids clock new_t w 1 rest"
  from run pos obtain s1 s2 s3 where r: "insert_thread E ?c (Some t) (Some at_seq) ThreadStatus.Idle title
        (insert_workspace w (env_timestamp ?c) s) = (Inr (), s1)"
      "insert_event ?c s1 = (Inr (), s2)" "insert_events E ?f s2 = (Inr (), s3)" "created = ?c"
      "db_events s' = db_events s3" "thread_keys s' = thread_keys s3"
    by (auto simp: fork_thread_def load inherited_events_def [symmetric] rest transaction_do_Inr sm_simps Let_def
        split: if_splits prod.splits sum.splits)
  from insert_thread_Inr [OF r(1)] have keys: "new_t \<notin> set (map fst (thread_keys s))"
    "thread_keys s1 = thread_keys s @ [(new_t, w)]" "db_events s1 = db_events s" by simp_all
  have ev2: "db_events s2 = db_events s @ [event_row_of ?c]" "thread_keys s2 = thread_keys s @ [(new_t, w)]"
    "distinct (map er_event_id (db_events s2))"
    using r(2) keys inv by (auto simp: insert_event_Inr tbl_get_None_iff store_inv_def)
  note ev3 = insert_events_Inr [OF r(3) ev2(3)]
  have len: "length rest < 2 ^ 63 - 1"
  proof -
    have "Suc (length rest) \<le> length L"
      using rest(1) length_filter_le [of _ L] unfolding inherited_events_def by (metis length_Cons)
    then show ?thesis using v by (auto simp: valid_log_def)
  qed
  have dist: "distinct (map er_event_id (db_events s'))" using ev3 r(5) by metis
  have "store_inv s' \<and> store_log s' = (store_log s)(new_t \<mapsto> ?c # ?f)"
    by (rule store_inv_new_thread [OF inv keys(1) valid_log_forked [OF len] dist])
       (use ev2 ev3 r in simp_all)
  with v keys(1) r(4) rest(1) show ?thesis
    by (intro exI [of _ w]) (simp add: store_log_def thread_keys_ids)
qed

lemma forked_model_items:
  assumes L: "valid_log t w L" and at: "at_seq \<noteq> 0"
    and none: "\<forall>e \<in> set L. \<not> is_compaction (env_event e)"
    and c: "env_event c = ThreadCreated"
  shows "model_items_from_events E (c # forked_envelopes ids clock u v 1 (tl (inherited_events at_seq L))) =
    model_items_from_events E (take at_seq L)"
proof -
  let ?item = "\<lambda>ev. event_model_item E ev"
  have plain: "model_items_from_events E es = List.map_filter ?item (map env_event es)"
    if "\<forall>e \<in> set es. \<not> is_compaction (env_event e)" for es
  proof -
    have "compacted_ranges es = []"
      using that by (induction es) (auto simp: compacted_ranges_def split: RuntimeEvent.splits)
    then show ?thesis
      by (simp add: model_items_from_events_def is_covered_def List.map_filter_def filter_map o_def)
  qed
  let ?S = "tl (inherited_events at_seq L)"
  have events: "map env_event (c # forked_envelopes ids clock u v 1 ?S) = map env_event (inherited_events at_seq L)"
    using inherited_events_Cons [OF L at] L c by (auto simp: valid_log_def)
  have "\<forall>e \<in> set (c # forked_envelopes ids clock u v 1 ?S). \<not> is_compaction (env_event e)"
  proof
    fix e assume "e \<in> set (c # forked_envelopes ids clock u v 1 ?S)"
    then have "env_event e \<in> set (map env_event (inherited_events at_seq L))"
      by (metis events image_eqI list.set_map)
    then show "\<not> is_compaction (env_event e)" using none by (auto simp: inherited_events_def)
  qed
  then have "model_items_from_events E (c # forked_envelopes ids clock u v 1 ?S) =
      List.map_filter ?item (map env_event (inherited_events at_seq L))"
    unfolding events [symmetric] by (rule plain)
  also have "\<dots> = List.map_filter ?item (map env_event (filter (\<lambda>e. inheritable (env_event e)) (take at_seq L)))"
  proof -
    have "take at_seq L = filter (\<lambda>e. env_seq e \<le> at_seq) L"
      using L by (simp add: valid_log_def gap_free_take)
    then show ?thesis by (simp add: inherited_events_def conj_commute)
  qed
  also have "\<dots> = List.map_filter ?item (filter inheritable (map env_event (take at_seq L)))"
    by (simp add: filter_map o_def)
  also have "\<dots> = List.map_filter ?item (map env_event (take at_seq L))"
    by (rule map_filter_filter) (auto simp: inheritable_def event_model_item_def split: RuntimeEvent.splits)
  also have "\<dots> = model_items_from_events E (take at_seq L)"
    using none by (intro plain [symmetric]) (meson in_set_takeD)
  finally show ?thesis .
qed

text \<open>A small store with one thread of two events, on which the properties are exercised.\<close>

definition sample_log :: "EventEnvelope list" where
  "sample_log =
     [with_workspace ''prod'' (new_envelope 1 0 1 9 None ThreadCreated),
      with_workspace ''prod'' (new_envelope 2 5 2 9 None
        (RuntimeEvent.ToolCompleted ''k'' ''promql'' JNull (new_evidence 5 ''promql'') True))]"

definition sample_db :: db where
  "sample_db = empty_db\<lparr>
     db_workspaces := [\<lparr>wr_id = ''prod'', wr_created_at = 0\<rparr>],
     db_threads := [\<lparr>tr_id = 9, tr_workspace_id = ''prod'', tr_parent_thread_id = None,
       tr_forked_at_seq = None, tr_status = ''idle'', tr_title = None, tr_created_at = 0, tr_updated_at = 5\<rparr>],
     db_events := map event_row_of sample_log\<rparr>"

lemma sample_db_inv: "store_inv sample_db"
  by (simp add: store_inv_def sample_db_def sample_log_def empty_db_def valid_log_def gap_free_def
      thread_log_def nth_Cons less_Suc_eq)

lemma sample_db_log: "store_log sample_db 9 = Some sample_log" "store_log sample_db 10 = None"
  by (simp_all add: store_log_def sample_db_def sample_log_def thread_log_def)

lemma sample_db_load: "load_events E 9 0 sample_db = Inr sample_log"
  using load_events_log [OF sample_db_inv sample_db_log(1), of 0 E] by (simp add: sample_log_def)

section \<open>Properties\<close>

text \<open>
  A reader that resumes misses nothing. Whatever commands (new threads and appends, successful or
  not) run between two reads, reading a thread after the number of events already seen returns
  exactly the events appended since, numbered without gap from the next sequence number.
\<close>

theorem resumed_reader_misses_nothing:
  assumes "store_inv s" and "log_room store_log (2 ^ 63) s (length cmds)" and "store_log s t = Some seen"
  shows "\<exists>fresh. store_log (fold (log_step (create_thread E) (append_event E)) cmds s) t = Some (seen @ fresh) \<and>
    events_after E t (length seen) (fold (log_step (create_thread E) (append_event E)) cmds s) = Inr fresh \<and>
    map env_seq fresh = [Suc (length seen)..<Suc (length seen + length fresh)]"
  using assms by (rule sqlite_log.reader_resumes)

lemma store_log_empty: "store_log empty_db = (\<lambda>_. None)"
  by (simp add: store_log_def empty_db_def fun_eq_iff)

theorem resumed_reader_misses_nothing_witness:
  "\<exists>s seen fresh. seen = [with_workspace ''prod'' (new_envelope 1 0 1 9 None ThreadCreated)] \<and>
     store_log s 9 = Some seen \<and>
     events_after demo_ext 9 (length seen) (fold (log_step (create_thread demo_ext) (append_event demo_ext))
       [AppendTo 2 5 (new_append 9 None TurnStarted)] s) = Inr fresh \<and>
     map env_seq fresh = [Suc (length seen)..<Suc (length seen + length fresh)]"
proof -
  let ?r = "create_thread demo_ext 1 0 9 ''prod'' empty_db"
  let ?e = "with_workspace ''prod'' (new_envelope 1 0 1 9 None ThreadCreated)"
  have valid: "validate_workspace_id ''prod'' = Inr ()" by code_simp
  have run: "?r = (Inr ?e, snd ?r)"
    by (simp add: create_thread_def valid sm_simps transaction_do_def insert_workspace_def
        insert_thread_def insert_event_def empty_db_def Let_def)
  note made = create_thread_works [OF store_inv_empty run]
  then have log: "store_log (snd ?r) = [9 \<mapsto> [?e]]" by (simp add: store_log_empty)
  then have room: "log_room store_log (2 ^ 63) (snd ?r) (length [AppendTo 2 5 (new_append 9 None TurnStarted)])"
    by (simp add: log_room_def)
  have s: "store_inv (snd ?r)" "store_log (snd ?r) 9 = Some [?e]" using made log by simp_all
  obtain fresh where
    "events_after demo_ext 9 (length [?e]) (fold (log_step (create_thread demo_ext) (append_event demo_ext))
       [AppendTo 2 5 (new_append 9 None TurnStarted)] (snd ?r)) = Inr fresh"
    "map env_seq fresh = [Suc (length [?e])..<Suc (length [?e] + length fresh)]"
    using resumed_reader_misses_nothing [OF s(1) room s(2), of demo_ext] by (elim exE conjE)
  with s(2) show ?thesis
    by (intro exI [of _ "snd ?r"] exI [of _ "[?e]"] exI [of _ fresh] conjI) (rule refl | assumption)+
qed

text \<open>
  C32: the thread list shows what the logs say. After any sequence of created threads and appended
  events, successful or not, the status and the title that the thread table caches for a thread are
  the status and the title reconstructed from its whole log.
\<close>

theorem thread_columns_follow_the_log:
  assumes "length cmds < 2 ^ 63 - 1"
    and "store_log (fold (log_step (create_thread E) (append_event E)) cmds empty_db) t \<noteq> None"
  shows "columns_current t (fold (log_step (create_thread E) (append_event E)) cmds empty_db)"
  by (rule run_columns [OF store_inv_empty])
     (use assms in \<open>auto simp: log_room_def store_log_empty\<close>)

theorem thread_columns_follow_the_log_witness:
  "columns_current 9 (fold (log_step (create_thread demo_ext) (append_event demo_ext))
     [CreateThread 1 0 9 ''prod''] empty_db)"
proof (rule thread_columns_follow_the_log)
  have valid: "validate_workspace_id ''prod'' = Inr ()" by code_simp
  show "store_log (fold (log_step (create_thread demo_ext) (append_event demo_ext))
      [CreateThread 1 0 9 ''prod''] empty_db) 9 \<noteq> None"
    by (simp add: log_step_def create_thread_def valid sm_simps transaction_do_def insert_workspace_def
        insert_thread_def insert_event_def empty_db_def Let_def store_log_def)
qed simp

text \<open>
  A fork keeps the conversation and leaves its source alone. A successful fork adds one thread
  whose log is again gap-free and changes no other log, and when the source log holds no compaction,
  the model sees in the fork exactly what it saw in the source up to the fork point.
\<close>

theorem fork_keeps_conversation:
  assumes "store_inv s" and "store_log s t = Some L"
    and "fork_thread E ids clock now t at_seq new_t title s = (Inr created, s')"
  shows "store_inv s' \<and> store_log s new_t = None \<and>
    (\<exists>L'. store_log s' = (store_log s)(new_t \<mapsto> L') \<and>
       (list_ex (\<lambda>e. is_compaction (env_event e)) L \<or>
        model_items_from_events E L' = model_items_from_events E (take at_seq L)))"
proof -
  from fork_thread_works [OF assms] obtain w where w: "valid_log t w L"
    "created = with_workspace w (new_envelope (ids 1) (clock 1) 1 new_t None ThreadCreated)"
    "store_inv s'" "store_log s new_t = None"
    "store_log s' = (store_log s)(new_t \<mapsto>
      created # forked_envelopes ids clock new_t w 1 (tl (inherited_events at_seq L)))" by blast
  have at: "at_seq \<noteq> 0" using assms(3) by (auto simp: fork_thread_def split: if_splits)
  have "env_event created = ThreadCreated" by (simp add: w(2))
  from forked_model_items [OF w(1) at _ this] w(3-5) show ?thesis
    by (metis (no_types, lifting) list_ex_iff)
qed

theorem fork_keeps_conversation_witness:
  "\<exists>s'. fork_thread demo_ext (\<lambda>n. n + 20) (\<lambda>_. 7) 8 9 1 10 None sample_db =
      (Inr (with_workspace ''prod'' (new_envelope 21 7 1 10 None ThreadCreated)), s') \<and> store_inv s' \<and>
    (\<exists>L'. store_log s' = (store_log sample_db)(10 \<mapsto> L') \<and>
       model_items_from_events demo_ext L' = model_items_from_events demo_ext (take 1 sample_log))"
proof -
  let ?r = "fork_thread demo_ext (\<lambda>n. n + 20) (\<lambda>_. 7) 8 9 1 10 None sample_db"
  have run: "?r = (Inr (with_workspace ''prod'' (new_envelope 21 7 1 10 None ThreadCreated)), snd ?r)"
    unfolding fork_thread_def sample_db_load
    by (simp add: sample_log_def sample_db_def empty_db_def inheritable_def sm_simps transaction_do_def
        insert_workspace_def insert_thread_def insert_event_def Let_def)
  have "\<not> list_ex (\<lambda>e. is_compaction (env_event e)) sample_log" by (simp add: sample_log_def)
  with fork_keeps_conversation [OF sample_db_inv sample_db_log(1) run] run show ?thesis by blast
qed

text \<open>
  A compaction in the source spoils this: its range keeps the sequence numbers of the source while
  the fork renumbers the events, so the fork hides a message the source still shows.
\<close>

definition compacted_source :: "EventEnvelope list" where
  "compacted_source = map (with_workspace ''prod'')
     [new_envelope 1 0 1 9 None ThreadCreated, new_envelope 2 0 2 9 None (UserMessage ''a'' None),
      new_envelope 3 0 3 9 None TurnStarted, new_envelope 4 0 4 9 None (UserMessage ''b'' None),
      new_envelope 5 0 5 9 None (ContextCompacted ''s'' 1 3 [] [] [] None None None ''sum'')]"

lemma fork_hides_uncompacted_message:
  "UserMsg ''b'' \<in> set (model_items_from_events E compacted_source)"
  "UserMsg ''b'' \<notin> set (model_items_from_events E
     (with_workspace ''prod'' (new_envelope 11 0 1 10 None ThreadCreated) #
      forked_envelopes ids clock 10 ''prod'' 1 (tl (inherited_events 5 compacted_source))))"
  by (simp_all add: compacted_source_def model_items_from_events_def compacted_ranges_def is_covered_def
      event_model_item_def inherited_events_def inheritable_def forked_envelope_def
      with_causation_def new_envelope_def with_workspace_def)

text \<open>
  Evidence never crosses a workspace. What a workspace-scoped evidence lookup returns is the
  evidence of a successful tool result in the log of that very thread, recorded under that very
  workspace, with the identifier asked for.
\<close>

theorem evidence_stays_in_its_workspace:
  assumes "store_inv s" and "get_evidence_in E w t eid s = Inr m"
  shows "\<exists>L. store_log s t = Some L \<and>
    (\<exists>e \<in> set L. env_workspace_id e = w \<and> env_thread_id e = t \<and>
      (\<exists>call tool output ev. env_event e = RuntimeEvent.ToolCompleted call tool output ev True \<and>
         evidence_id_or_synthesize E ev t (env_seq e) = eid \<and> m = ev\<lparr>evm_evidence_id := Some eid\<rparr>))"
proof -
  from assms(2) obtain th L where th: "get_thread_in E w t s = Inr th" and
    L: "load_events E t 0 s = Inr L" "find_map (evidence_of_event E t eid) L = Some m"
    by (auto simp: get_evidence_in_def get_evidence_def events_after_def and_then_Inr_iff)
  from th obtain th' where th': "get_thread E t s = Inr th'" "th_workspace_id th' = w"
    by (auto simp: get_thread_in_def deny_cross_workspace_def and_then_Inr_iff split: if_splits)
  have known: "t \<in> set (map tr_id (db_threads s))"
    using L(1) by (auto simp: load_events_def dest: tbl_get_SomeD split: if_splits)
  then have log: "store_log s t = Some (thread_log t s)" by (simp add: store_log_def)
  from store_log_valid [OF assms(1) log] obtain w' where v: "valid_log t w' (thread_log t s)" by blast
  have "L = thread_log t s"
    using load_events_log [OF assms(1) log, of 0 E] gap_free_filter [of "thread_log t s" 0] v L(1)
    by (simp add: valid_log_def)
  moreover have "w' = w"
    using th' v L(1) \<open>L = thread_log t s\<close>
    by (auto simp: get_thread_def and_then_Inr_iff reconstruct_thread_ok valid_log_def)
  moreover obtain e where "e \<in> set L" "evidence_of_event E t eid e = Some m"
    using find_map_Some [OF L(2)] by blast
  moreover from this obtain call tool out ev where
    "env_event e = RuntimeEvent.ToolCompleted call tool out ev True"
    "evidence_id_or_synthesize E ev t (env_seq e) = eid" "m = ev\<lparr>evm_evidence_id := Some eid\<rparr>"
    by (auto simp: evidence_of_event_def split: RuntimeEvent.splits if_splits)
  ultimately show ?thesis using log v unfolding valid_log_def by blast
qed

theorem evidence_stays_in_its_workspace_witness:
  "\<exists>L. store_log sample_db 9 = Some L \<and>
    (\<exists>e \<in> set L. env_workspace_id e = ''prod'' \<and> env_thread_id e = 9 \<and>
      (\<exists>call tool output ev. env_event e = RuntimeEvent.ToolCompleted call tool output ev True \<and>
         evidence_id_or_synthesize demo_ext ev 9 (env_seq e) = synthesize_evidence_id demo_ext 9 2 ''promql'' \<and>
         (new_evidence 5 ''promql'')\<lparr>evm_evidence_id := Some (synthesize_evidence_id demo_ext 9 2 ''promql'')\<rparr> =
           ev\<lparr>evm_evidence_id := Some (synthesize_evidence_id demo_ext 9 2 ''promql'')\<rparr>))"
proof (rule evidence_stays_in_its_workspace [OF sample_db_inv])
  have lineage: "load_lineage demo_ext 9 sample_db = Inr (None, None)"
    by (simp add: load_lineage_def sample_db_def)
  have head: "sample_log \<noteq> []" "env_event (hd sample_log) = ThreadCreated" "env_workspace_id (hd sample_log) = ''prod''"
    by (simp_all add: sample_log_def)
  have thread: "get_thread demo_ext 9 sample_db = Inr
      \<lparr>th_id = 9, th_workspace_id = ''prod'', th_items = fst (project sample_log),
       th_status = snd (project sample_log), th_created_at = env_timestamp (hd sample_log),
       th_updated_at = env_timestamp (last sample_log), th_parent_thread_id = None, th_forked_at_seq = None\<rparr>"
    by (simp add: get_thread_def sample_db_load reconstruct_thread_ok head lineage)
  then have "is_ok (get_thread_in demo_ext ''prod'' 9 sample_db)"
    by (simp add: get_thread_in_def deny_cross_workspace_def)
  then show "get_evidence_in demo_ext ''prod'' 9 (synthesize_evidence_id demo_ext 9 2 ''promql'') sample_db =
      Inr ((new_evidence 5 ''promql'')\<lparr>evm_evidence_id := Some (synthesize_evidence_id demo_ext 9 2 ''promql'')\<rparr>)"
    by (auto simp: get_evidence_in_def get_evidence_def events_after_def sample_db_load is_ok_iff
        sample_log_def evidence_of_event_def evidence_id_or_synthesize_def new_evidence_def)
qed

text \<open>
  A thread accepts events. Appending to an existing thread succeeds whatever the event is, as
  long as the drawn event identifier is new and the sequence number fits its column; the event gets
  the next number and the store stays valid.
\<close>

theorem thread_accepts_events:
  assumes "store_inv s" and "store_log s (ap_thread_id cmd) = Some L" and "Suc (length L) < 2 ^ 63"
    and "tbl_get er_event_id i (db_events s) = None"
  shows "\<exists>e s'. append_event E i now cmd s = (Inr e, s') \<and> env_seq e = Suc (length L) \<and> env_event e = ap_event cmd \<and>
    store_inv s' \<and> store_log s' (ap_thread_id cmd) = Some (L @ [e])"
proof -
  obtain e s' where run: "append_event E i now cmd s = (Inr e, s')" using append_event_succeeds [OF assms] by blast
  note w = append_event_works [OF assms(1) run assms(2,3)]
  then have log: "store_log s' (ap_thread_id cmd) = Some (L @ [e])" by simp
  with w have "gap_free (L @ [e])" using store_log_valid [of s' "ap_thread_id cmd" "L @ [e]"] by (auto simp: valid_log_def)
  with run w log show ?thesis by (auto simp: gap_free_snoc)
qed

theorem thread_accepts_events_witness:
  "\<exists>e s'. append_event demo_ext 7 6 (new_append 9 None TurnStarted) sample_db = (Inr e, s') \<and>
     env_seq e = 3 \<and> store_log s' 9 = Some (sample_log @ [e])"
proof -
  have L: "store_log sample_db (ap_thread_id (new_append 9 None TurnStarted)) = Some sample_log"
    using sample_db_log(1) by (simp add: new_append_def)
  have "Suc (length sample_log) < 2 ^ 63" "tbl_get er_event_id 7 (db_events sample_db) = None"
    by (simp_all add: sample_log_def sample_db_def)
  from thread_accepts_events [OF sample_db_inv L this, of demo_ext 6] show ?thesis
    by (auto simp: new_append_def sample_log_def)
qed

end
