(* ===== verification/SqliteRuntime.thy ===== *)
theory SqliteRuntime
  imports SqliteStore
begin

text \<open>
  The SQLite store, part two: the durable state of turns, checkpoints, approvals, leases, resume
  operations, action plans, actions and the audit log (\<open>src/store/sqlite.rs\<close>). The lemmas show
  read-your-write for every table, exclusion and fencing of leases, that an action is claimed for
  execution at most once, and that the audit log always verifies.
\<close>

section \<open>Turns\<close>

fun turn_status_sql :: "TurnStatus \<Rightarrow> string" where
  "turn_status_sql TurnStatus.Running = ''running''"
| "turn_status_sql TurnStatus.WaitingApproval = ''waiting_approval''"
| "turn_status_sql TurnStatus.Completed = ''completed''"
| "turn_status_sql TurnStatus.Failed = ''failed''"
| "turn_status_sql TurnStatus.Cancelled = ''cancelled''"
| "turn_status_sql TurnStatus.Interrupted = ''interrupted''"
| "turn_status_sql TurnStatus.NeedsReconciliation = ''needs_reconciliation''"

definition parse_turn_status :: "string \<Rightarrow> TurnStatus" where
  "parse_turn_status v =
     (if v = ''waiting_approval'' then TurnStatus.WaitingApproval
      else if v = ''completed'' then TurnStatus.Completed
      else if v = ''failed'' then TurnStatus.Failed
      else if v = ''cancelled'' then TurnStatus.Cancelled
      else if v = ''interrupted'' then TurnStatus.Interrupted
      else if v = ''needs_reconciliation'' then TurnStatus.NeedsReconciliation
      else TurnStatus.Running)"

definition merge_turn :: "turn_row \<Rightarrow> turn_row \<Rightarrow> turn_row" where
  "merge_turn old excluded = old\<lparr>ur_status := ur_status excluded,
     ur_active_lease_id := ur_active_lease_id excluded,
     ur_last_checkpoint_id := ur_last_checkpoint_id excluded, ur_updated_at := ur_updated_at excluded\<rparr>"

definition turn_row_of :: "TurnRecord \<Rightarrow> turn_row" where
  "turn_row_of r = \<lparr>ur_id = tu_id r, ur_thread_id = tu_thread_id r, ur_status = turn_status_sql (tu_status r),
     ur_active_lease_id = tu_active_lease_id r, ur_last_checkpoint_id = tu_last_checkpoint_id r,
     ur_created_at = tu_created_at r, ur_updated_at = tu_updated_at r\<rparr>"

definition turn_of_row :: "turn_row \<Rightarrow> TurnRecord" where
  "turn_of_row r = \<lparr>tu_id = ur_id r, tu_thread_id = ur_thread_id r, tu_status = parse_turn_status (ur_status r),
     tu_active_lease_id = ur_active_lease_id r, tu_last_checkpoint_id = ur_last_checkpoint_id r,
     tu_created_at = ur_created_at r, tu_updated_at = ur_updated_at r\<rparr>"

definition upsert_turn :: "TurnRecord \<Rightarrow> (db, unit) op" where
  "upsert_turn r s =
     (if tbl_get ur_id (tu_id r) (db_turns s) = None \<and> tbl_get tr_id (tu_thread_id r) (db_threads s) = None
      then (Inl (sqlite_error ''upsert turn'' ''FOREIGN KEY constraint failed''), s)
      else
        let s' = s\<lparr>db_turns := tbl_upsert ur_id merge_turn (turn_row_of r) (db_turns s)\<rparr>
        in (Inr (),
            if tu_status r \<in> {TurnStatus.Interrupted, TurnStatus.NeedsReconciliation, TurnStatus.WaitingApproval}
            then s'\<lparr>db_threads := tbl_update (\<lambda>row. tr_id row = tu_thread_id r)
                (\<lambda>row. row\<lparr>tr_status := status_sql (case tu_status r of
                     TurnStatus.WaitingApproval \<Rightarrow> ThreadStatus.WaitingApproval
                   | TurnStatus.NeedsReconciliation \<Rightarrow> ThreadStatus.NeedsReconciliation
                   | _ \<Rightarrow> ThreadStatus.Interrupted), tr_updated_at := tu_updated_at r\<rparr>) (db_threads s')\<rparr>
            else s'))"

definition get_turn :: "uuid \<Rightarrow> db \<Rightarrow> TurnRecord option" where
  "get_turn t s = map_option turn_of_row (tbl_get ur_id t (db_turns s))"

definition list_open_turns :: "db \<Rightarrow> TurnRecord list" where
  "list_open_turns s = map turn_of_row
     (filter (\<lambda>r. ur_status r \<notin> {''completed'', ''failed'', ''cancelled''}) (db_turns s))"

section \<open>Checkpoints\<close>

definition put_checkpoint :: "CheckpointRecord \<Rightarrow> (db, unit) op" where
  "put_checkpoint c s =
     (if tbl_get kr_checkpoint_id (cp_checkpoint_id c) (db_checkpoints s) \<noteq> None
      then (Inl (sqlite_error ''insert checkpoint'' ''UNIQUE constraint failed: checkpoints.checkpoint_id''), s)
      else (Inr (), s\<lparr>
        db_checkpoints := db_checkpoints s @
          [\<lparr>kr_checkpoint_id = cp_checkpoint_id c, kr_turn_id = cp_turn_id c, kr_thread_id = cp_thread_id c,
            kr_step = int (cp_step c), kr_phase = phase_as_str (cp_phase c),
            kr_state = cp_pending_operation c, kr_input_hash = cp_context_input_hash c,
            kr_last_committed_seq = as_i64 (cp_last_committed_seq c),
            kr_resume_policy = policy_as_str (cp_resume_policy c), kr_created_at = cp_created_at c\<rparr>],
        db_turns := tbl_update (\<lambda>r. ur_id r = cp_turn_id c)
          (\<lambda>r. r\<lparr>ur_last_checkpoint_id := Some (cp_checkpoint_id c), ur_updated_at := cp_created_at c\<rparr>)
          (db_turns s)\<rparr>))"

text \<open>\<open>ORDER BY created_at DESC, step DESC LIMIT 1\<close>; of equal rows the first inserted.\<close>

definition latest_of :: "checkpoint_row \<Rightarrow> checkpoint_row \<Rightarrow> checkpoint_row" where
  "latest_of r best = (if (kr_created_at best, kr_step best) < (kr_created_at r, kr_step r) then r else best)"

definition last_checkpoint :: "uuid \<Rightarrow> db \<Rightarrow> CheckpointRecord option" where
  "last_checkpoint t s =
     (case filter (\<lambda>r. kr_turn_id r = t) (db_checkpoints s) of
        [] \<Rightarrow> None
      | first # rest \<Rightarrow>
          let r = fold latest_of rest first
          in Some \<lparr>cp_checkpoint_id = kr_checkpoint_id r, cp_turn_id = kr_turn_id r,
               cp_thread_id = kr_thread_id r,
               cp_step = (if 0 \<le> kr_step r \<and> kr_step r < 2 ^ 32 then nat (kr_step r) else 0),
               cp_phase = phase_parse (kr_phase r), cp_context_input_hash = kr_input_hash r,
               cp_pending_operation = kr_state r, cp_last_committed_seq = u64_or_zero (kr_last_committed_seq r),
               cp_resume_policy = policy_parse (kr_resume_policy r), cp_created_at = kr_created_at r\<rparr>)"

section \<open>Approvals\<close>

definition merge_approval :: "approval_row \<Rightarrow> approval_row \<Rightarrow> approval_row" where
  "merge_approval old excluded = old\<lparr>pr_status := pr_status excluded,
     pr_expires_at := pr_expires_at excluded, pr_payload := pr_payload excluded\<rparr>"

definition approval_row_of :: "DurableApproval \<Rightarrow> approval_row" where
  "approval_row_of a = \<lparr>pr_approval_id = da_approval_id a, pr_thread_id = da_thread_id a,
     pr_turn_id = da_turn_id a, pr_tool = da_tool a, pr_request_hash = da_request_hash a,
     pr_status = approval_as_str (da_status a), pr_expires_at = da_expires_at a, pr_payload = a\<rparr>"

definition put_approval :: "DurableApproval \<Rightarrow> (db, unit) op" where
  "put_approval a = supd (\<lambda>s. s\<lparr>db_approvals :=
     tbl_upsert pr_approval_id merge_approval (approval_row_of a) (db_approvals s)\<rparr>)"

definition get_approval :: "uuid \<Rightarrow> db \<Rightarrow> DurableApproval option" where
  "get_approval aid s = map_option pr_payload (tbl_get pr_approval_id aid (db_approvals s))"

definition list_pending_approvals :: "db \<Rightarrow> DurableApproval list" where
  "list_pending_approvals s = map pr_payload (filter (\<lambda>r. pr_status r = ''pending'') (db_approvals s))"

fun approval_rank :: "ApprovalStatus \<Rightarrow> nat" where
  "approval_rank ApprovalStatus.Pending = 0"
| "approval_rank ApprovalStatus.Approved = 1"
| "approval_rank ApprovalStatus.Rejected = 2"
| "approval_rank ApprovalStatus.Expired = 3"

definition approval_for_turn :: "uuid \<Rightarrow> db \<Rightarrow> DurableApproval option" where
  "approval_for_turn t s =
     (case sort_key (\<lambda>a. approval_rank (da_status a))
         (map pr_payload (filter (\<lambda>r. pr_turn_id r = Some t) (db_approvals s))) of
        [] \<Rightarrow> None | a # _ \<Rightarrow> Some a)"

section \<open>Leases\<close>

definition acquire_lease :: "string \<Rightarrow> time \<Rightarrow> uuid \<Rightarrow> uuid \<Rightarrow> string \<Rightarrow> time \<Rightarrow> (db, Lease) op" where
  "acquire_lease fresh_id now turn_id thread_id owner ttl s =
     (case tbl_get ls_turn_id turn_id (db_leases s) of
        Some existing \<Rightarrow>
          if now < ls_expires_at existing then (Inl OpsCodexError.TurnAlreadyRunning, s)
          else
            let l = \<lparr>ls_lease_id = ls_lease_id existing, ls_turn_id = turn_id, ls_thread_id = thread_id,
                     ls_owner_id = owner, ls_expires_at = now + ttl,
                     ls_fencing_token = ls_fencing_token existing + 1\<rparr>
            in (Inr l, s\<lparr>db_leases := tbl_update (\<lambda>r. ls_lease_id r = ls_lease_id l)
                  (\<lambda>r. r\<lparr>ls_owner_id := ls_owner_id l, ls_expires_at := ls_expires_at l,
                     ls_fencing_token := ls_fencing_token l, ls_thread_id := ls_thread_id l\<rparr>) (db_leases s)\<rparr>)
      | None \<Rightarrow>
          if tbl_get ls_lease_id fresh_id (db_leases s) \<noteq> None
          then (Inl (sqlite_error ''insert lease'' ''UNIQUE constraint failed: leases.lease_id''), s)
          else
            let l = \<lparr>ls_lease_id = fresh_id, ls_turn_id = turn_id, ls_thread_id = thread_id,
                     ls_owner_id = owner, ls_expires_at = now + ttl, ls_fencing_token = 1\<rparr>
            in (Inr l, s\<lparr>db_leases := db_leases s @ [l]\<rparr>))"

definition refresh_lease :: "time \<Rightarrow> string \<Rightarrow> int \<Rightarrow> time \<Rightarrow> (db, unit) op" where
  "refresh_lease now lease_id token ttl s =
     (let P = (\<lambda>r. ls_lease_id r = lease_id \<and> ls_fencing_token r = token)
      in if filter P (db_leases s) = []
         then (Inl (OpsCodexError.Storage ''lease fencing token mismatch''), s)
         else (Inr (), s\<lparr>db_leases := tbl_update P (\<lambda>r. r\<lparr>ls_expires_at := now + ttl\<rparr>) (db_leases s)\<rparr>))"

definition release_lease :: "string \<Rightarrow> int \<Rightarrow> (db, unit) op" where
  "release_lease lease_id token = supd (\<lambda>s. s\<lparr>db_leases :=
     tbl_delete (\<lambda>r. ls_lease_id r = lease_id \<and> ls_fencing_token r = token) (db_leases s)\<rparr>)"

definition force_release_turn_lease :: "uuid \<Rightarrow> (db, unit) op" where
  "force_release_turn_lease t = supd (\<lambda>s. s\<lparr>db_leases := tbl_delete (\<lambda>r. ls_turn_id r = t) (db_leases s)\<rparr>)"

section \<open>Resume operations\<close>

definition remember_resume :: "time \<Rightarrow> string \<Rightarrow> uuid \<Rightarrow> string \<Rightarrow> (db, string option) op" where
  "remember_resume now key turn_id payload s =
     (case tbl_get sr_idempotency_key key (db_resume_ops s) of
        Some r \<Rightarrow> (Inr (Some (sr_payload r)), s)
      | None \<Rightarrow> (Inr None, s\<lparr>db_resume_ops := db_resume_ops s @
          [\<lparr>sr_idempotency_key = key, sr_turn_id = turn_id, sr_payload = payload, sr_created_at = now\<rparr>]\<rparr>))"

section \<open>Plans and actions\<close>

definition merge_plan :: "plan_row \<Rightarrow> plan_row \<Rightarrow> plan_row" where
  "merge_plan old excluded = old\<lparr>lr_payload := lr_payload excluded, lr_expires_at := lr_expires_at excluded\<rparr>"

definition put_action_plan :: "ActionPlan \<Rightarrow> (db, unit) op" where
  "put_action_plan p = supd (\<lambda>s. s\<lparr>db_plans := tbl_upsert lr_plan_id merge_plan
     \<lparr>lr_plan_id = plan_id p, lr_workspace_id = plan_workspace_id p, lr_thread_id = plan_thread_id p,
      lr_payload = p, lr_created_at = plan_created_at p, lr_expires_at = plan_expires_at p\<rparr> (db_plans s)\<rparr>)"

definition merge_action :: "action_row \<Rightarrow> action_row \<Rightarrow> action_row" where
  "merge_action old excluded = old\<lparr>ar_status := ar_status excluded,
     ar_request_hash := ar_request_hash excluded, ar_consumed_approval := ar_consumed_approval excluded,
     ar_payload := ar_payload excluded, ar_updated_at := ar_updated_at excluded\<rparr>"

definition action_row_of :: "ActionRecord \<Rightarrow> action_row" where
  "action_row_of a = \<lparr>ar_action_id = act_action_id a, ar_plan_id = act_plan_id a,
     ar_thread_id = act_thread_id a, ar_status = status_as_str (act_status a),
     ar_request_hash = act_request_hash a, ar_operation_id = act_operation_id a,
     ar_consumed_approval = (if act_consumed_approval a then 1 else 0), ar_payload = a,
     ar_updated_at = act_updated_at a\<rparr>"

definition put_action :: "ActionRecord \<Rightarrow> (db, unit) op" where
  "put_action a s =
     (if tbl_get ar_action_id (act_action_id a) (db_actions s) = None \<and>
         tbl_get ar_operation_id (act_operation_id a) (db_actions s) \<noteq> None
      then (Inl (sqlite_error ''put action'' ''UNIQUE constraint failed: actions.operation_id''), s)
      else (Inr (), s\<lparr>db_actions := tbl_upsert ar_action_id merge_action (action_row_of a) (db_actions s)\<rparr>))"

definition get_action :: "uuid \<Rightarrow> db \<Rightarrow> ActionRecord option" where
  "get_action aid s = map_option ar_payload (tbl_get ar_action_id aid (db_actions s))"

definition update_action_status_cas :: "ActionRecord \<Rightarrow> ActionStatus \<Rightarrow> (db, bool) op" where
  "update_action_status_cas a expected s =
     (let P = (\<lambda>r. ar_action_id r = act_action_id a \<and> ar_status r = status_as_str expected)
      in (Inr (length (filter P (db_actions s)) = 1),
          s\<lparr>db_actions := tbl_update P (\<lambda>r. merge_action r (action_row_of a)) (db_actions s)\<rparr>))"

definition claim_action_for_execution :: "ext \<Rightarrow> uuid \<Rightarrow> time \<Rightarrow> (db, ActionRecord option) op" where
  "claim_action_for_execution E aid now =
     transaction_do (\<lambda>s.
       case get_action aid s of
         None \<Rightarrow> (Inl (OpsCodexError.NotFound (''action '' @ uuid_string E aid)), s)
       | Some a \<Rightarrow>
           if act_status a \<noteq> ActionStatus.Authorized then (Inr None, s)
           else if act_expires_at a \<le> now
           then sbind (slift (transition ActionStatus.Authorized ActionStatus.Expired)) (\<lambda>st.
                sbind (update_action_status_cas (a\<lparr>act_status := st, act_updated_at := now\<rparr>)
                         ActionStatus.Authorized) (\<lambda>_. sret None)) s
           else if \<not> act_consumed_approval a then (Inr None, s)
           else if action_request_hash E a \<noteq> act_request_hash a
           then (Inl (OpsCodexError.Policy ''action changed after approval''), s)
           else sbind (slift (transition ActionStatus.Authorized ActionStatus.PreconditionCheck)) (\<lambda>st.
                let a' = a\<lparr>act_status := st, act_updated_at := now\<rparr>
                in sbind (update_action_status_cas a' ActionStatus.Authorized) (\<lambda>claimed.
                   sret (if claimed then Some a' else None))) s)"

definition list_actions_for_thread :: "uuid \<Rightarrow> db \<Rightarrow> ActionRecord list" where
  "list_actions_for_thread t s = map ar_payload
     (sort_key ar_updated_at (filter (\<lambda>r. ar_thread_id r = t) (db_actions s)))"

definition list_awaiting_approval_actions :: "db \<Rightarrow> ActionRecord list" where
  "list_awaiting_approval_actions s =
     map ar_payload (filter (\<lambda>r. ar_status r = ''awaiting_approval'') (db_actions s))"

definition list_action_recovery_candidates :: "db \<Rightarrow> ActionRecord list" where
  "list_action_recovery_candidates s = map ar_payload
     (filter (\<lambda>r. ar_status r \<in> {''awaiting_approval'', ''authorized'', ''precondition_check'',
        ''executing'', ''verifying''}) (db_actions s))"

section \<open>Audit log\<close>

definition append_audit ::
    "ext \<Rightarrow> time \<Rightarrow> string \<Rightarrow> string option \<Rightarrow> string \<Rightarrow> json \<Rightarrow> (db, unit) op" where
  "append_audit E now actor workspace operation summary s =
     (let previous = (if db_audit s = [] then ''genesis'' else aud_record_hash (last (db_audit s)));
          record_hash = audit_record_hash E previous actor workspace operation summary now
      in (Inr (), s\<lparr>db_audit := db_audit s @
           [\<lparr>aud_seq = (if db_audit s = [] then 1 else aud_seq (last (db_audit s)) + 1),
             aud_record_hash = record_hash, aud_previous_hash = previous, aud_actor = actor,
             aud_workspace_id = workspace, aud_operation = operation, aud_summary = summary,
             aud_created_at = now\<rparr>]\<rparr>))"

definition list_audit :: "db \<Rightarrow> AuditRecord list" where
  "list_audit s = sort_key aud_seq (db_audit s)"

section \<open>Lemmas\<close>

subsection \<open>Tables written by upserts\<close>

interpretation turns: upsert_table ur_id merge_turn
  by unfold_locales (simp add: merge_turn_def)

interpretation approvals: upsert_table pr_approval_id merge_approval
  by unfold_locales (simp add: merge_approval_def)

interpretation plans: upsert_table lr_plan_id merge_plan
  by unfold_locales (simp add: merge_plan_def)

interpretation actions: upsert_table ar_action_id merge_action
  by unfold_locales (simp add: merge_action_def)

lemma parse_turn_status_sql [simp]: "parse_turn_status (turn_status_sql st) = st"
  by (cases st) (simp_all add: parse_turn_status_def)

lemma row_of_keys [simp]:
  "ur_id (turn_row_of r) = tu_id r"
  "pr_approval_id (approval_row_of a) = da_approval_id a"
  "ar_action_id (action_row_of c) = act_action_id c"
  "ar_status (action_row_of c) = status_as_str (act_status c)"
  "ar_payload (action_row_of c) = c"
  by (simp_all add: turn_row_of_def approval_row_of_def action_row_of_def)

lemma merge_action_simps [simp]:
  "ar_action_id (merge_action old new) = ar_action_id old"
  "ar_status (merge_action old new) = ar_status new"
  "ar_payload (merge_action old new) = ar_payload new"
  by (simp_all add: merge_action_def)

lemma get_put_approval:
  "get_approval (da_approval_id a) (snd (put_approval a s)) = Some a"
  "aid \<noteq> da_approval_id a \<Longrightarrow> get_approval aid (snd (put_approval a s)) = get_approval aid s"
  using approvals.get_upsert_same [of "approval_row_of a" "db_approvals s"]
    approvals.get_upsert_other [of aid "approval_row_of a" "db_approvals s"]
  by (auto simp: get_approval_def put_approval_def sm_simps merge_approval_def approval_row_of_def
      split: option.splits)

lemma get_put_action:
  assumes "put_action a s = (Inr (), s')"
  shows "get_action (act_action_id a) s' = Some a"
    and "aid \<noteq> act_action_id a \<Longrightarrow> get_action aid s' = get_action aid s"
  using assms actions.get_upsert_same [of "action_row_of a" "db_actions s"]
    actions.get_upsert_other [of aid "action_row_of a" "db_actions s"]
  by (auto simp: get_action_def put_action_def split: option.splits if_splits)

subsection \<open>Actions\<close>

text \<open>The columns of an action row agree with the record in its payload, and keys are unique.\<close>

definition action_row_ok :: "action_row \<Rightarrow> bool" where
  "action_row_ok r \<longleftrightarrow> act_action_id (ar_payload r) = ar_action_id r \<and>
     ar_status r = status_as_str (act_status (ar_payload r))"

definition actions_inv :: "db \<Rightarrow> bool" where
  "actions_inv s \<longleftrightarrow> distinct (map ar_action_id (db_actions s)) \<and> (\<forall>r \<in> set (db_actions s). action_row_ok r)"

lemma actions_inv_empty: "actions_inv empty_db"
  by (simp add: actions_inv_def empty_db_def)

lemma put_action_inv: "actions_inv s \<Longrightarrow> actions_inv (snd (put_action a s))"
proof -
  assume inv: "actions_inv s"
  have "distinct (map ar_action_id (tbl_upsert ar_action_id merge_action (action_row_of a) (db_actions s)))"
    using inv by (intro actions.distinct_upsert) (simp add: actions_inv_def)
  moreover have "action_row_ok r"
    if "r \<in> set (tbl_upsert ar_action_id merge_action (action_row_of a) (db_actions s))" for r
    using that inv by (auto simp: tbl_upsert_def tbl_update_def actions_inv_def action_row_ok_def split: if_splits)
  ultimately show ?thesis using inv by (auto simp: put_action_def actions_inv_def)
qed

lemma cas_inv: "actions_inv s \<Longrightarrow> actions_inv (snd (update_action_status_cas a st s))"
  by (auto simp: update_action_status_cas_def Let_def actions_inv_def action_row_ok_def map_key_update)
     (auto simp: tbl_update_def)

lemma get_actionD:
  "actions_inv s \<Longrightarrow> get_action aid s = Some a \<Longrightarrow>
     \<exists>r. tbl_get ar_action_id aid (db_actions s) = Some r \<and> ar_payload r = a \<and> act_action_id a = aid \<and>
       ar_status r = status_as_str (act_status a)"
  by (auto simp: get_action_def tbl_get_distinct actions_inv_def action_row_ok_def dest!: tbl_get_SomeD)

lemma distinct_filter_key:
  "distinct (map key t) \<Longrightarrow> tbl_get key k t = Some r \<Longrightarrow> filter (\<lambda>x. key x = k \<and> Q x) t = (if Q r then [r] else [])"
proof (induction t)
  case (Cons x t)
  show ?case
  proof (cases "key x = k")
    case True
    with Cons.prems have "filter (\<lambda>x. key x = k \<and> Q x) t = []" by (auto simp: filter_empty_conv image_iff)
    with True Cons.prems(2) show ?thesis by auto
  qed (use Cons in auto)
qed simp

text \<open>A compare-and-swap succeeds exactly when the stored status is the expected one.\<close>

lemma cas_result:
  assumes inv: "actions_inv s" and get: "get_action (act_action_id a) s = Some old"
  shows "fst (update_action_status_cas a st s) = Inr (act_status old = st)"
    and "get_action aid (snd (update_action_status_cas a st s)) =
      (if aid = act_action_id a \<and> act_status old = st then Some a else get_action aid s)"
proof -
  let ?P = "\<lambda>r. ar_action_id r = act_action_id a \<and> ar_status r = status_as_str st"
  from get_actionD [OF inv get] obtain r where
    r: "tbl_get ar_action_id (act_action_id a) (db_actions s) = Some r" "ar_payload r = old"
    "ar_status r = status_as_str (act_status old)" by blast
  have "filter ?P (db_actions s) = (if ar_status r = status_as_str st then [r] else [])"
    using inv r(1) by (intro distinct_filter_key) (simp_all add: actions_inv_def)
  then show "fst (update_action_status_cas a st s) = Inr (act_status old = st)"
    using r(3) by (auto simp: update_action_status_cas_def Let_def)
  have "tbl_get ar_action_id aid (tbl_update ?P (\<lambda>r. merge_action r (action_row_of a)) (db_actions s)) =
      map_option (\<lambda>r. if ?P r then merge_action r (action_row_of a) else r) (tbl_get ar_action_id aid (db_actions s))"
    by (rule tbl_get_update) simp
  with r show "get_action aid (snd (update_action_status_cas a st s)) =
      (if aid = act_action_id a \<and> act_status old = st then Some a else get_action aid s)"
    by (cases "tbl_get ar_action_id aid (db_actions s)")
       (auto simp: get_action_def update_action_status_cas_def Let_def dest: tbl_get_SomeD)
qed

text \<open>What a claim does, case by case.\<close>

lemma claim_result:
  assumes inv: "actions_inv s" and get: "get_action aid s = Some a"
  shows "claim_action_for_execution E aid now s =
    (if act_status a \<noteq> ActionStatus.Authorized then (Inr None, s)
     else if act_expires_at a \<le> now
     then (Inr None, snd (update_action_status_cas
        (a\<lparr>act_status := ActionStatus.Expired, act_updated_at := now\<rparr>) ActionStatus.Authorized s))
     else if \<not> act_consumed_approval a then (Inr None, s)
     else if action_request_hash E a \<noteq> act_request_hash a
     then (Inl (OpsCodexError.Policy ''action changed after approval''), s)
     else (Inr (Some (a\<lparr>act_status := ActionStatus.PreconditionCheck, act_updated_at := now\<rparr>)),
        snd (update_action_status_cas
          (a\<lparr>act_status := ActionStatus.PreconditionCheck, act_updated_at := now\<rparr>) ActionStatus.Authorized s)))"
proof -
  have aid: "act_action_id a = aid" using get_actionD [OF inv get] by blast
  let ?x = "a\<lparr>act_status := ActionStatus.Expired, act_updated_at := now\<rparr>"
  let ?p = "a\<lparr>act_status := ActionStatus.PreconditionCheck, act_updated_at := now\<rparr>"
  have "\<exists>sx. update_action_status_cas c ActionStatus.Authorized s = (Inr (act_status a = ActionStatus.Authorized), sx)"
    if "act_action_id c = aid" for c
    using cas_result(1) [OF inv, of c a ActionStatus.Authorized] that get by (simp add: fst_conv) (metis prod.collapse)
  from this [of ?x] this [of ?p] aid obtain sx sp where
    "update_action_status_cas ?x ActionStatus.Authorized s = (Inr (act_status a = ActionStatus.Authorized), sx)"
    "update_action_status_cas ?p ActionStatus.Authorized s = (Inr (act_status a = ActionStatus.Authorized), sp)"
    by auto
  then show ?thesis
    by (simp add: claim_action_for_execution_def transaction_do_def get sm_simps Let_def)
qed

lemma claim_inv: "actions_inv s \<Longrightarrow> actions_inv (snd (claim_action_for_execution E aid now s))"
proof (cases "get_action aid s")
  case None
  assume "actions_inv s"
  with None show ?thesis by (simp add: claim_action_for_execution_def transaction_do_def)
next
  case (Some a)
  assume "actions_inv s"
  with Some show ?thesis by (simp add: claim_result cas_inv)
qed

lemma claimed_state:
  assumes inv: "actions_inv s" and run: "claim_action_for_execution E aid now s = (Inr (Some c), s')"
  shows "\<exists>a. get_action aid s = Some a \<and> act_status a = ActionStatus.Authorized \<and> now < act_expires_at a \<and>
    act_consumed_approval a \<and> action_request_hash E a = act_request_hash a \<and>
    c = a\<lparr>act_status := ActionStatus.PreconditionCheck, act_updated_at := now\<rparr> \<and>
    get_action aid s' = Some c \<and> (\<forall>other. other \<noteq> aid \<longrightarrow> get_action other s' = get_action other s)"
proof -
  obtain a where a: "get_action aid s = Some a"
    using run by (auto simp: claim_action_for_execution_def transaction_do_def split: option.splits)
  have aid: "act_action_id a = aid" using get_actionD [OF inv a] by blast
  from run [unfolded claim_result [OF inv a]] have g: "act_status a = ActionStatus.Authorized"
    "now < act_expires_at a" "act_consumed_approval a" "action_request_hash E a = act_request_hash a"
    "c = a\<lparr>act_status := ActionStatus.PreconditionCheck, act_updated_at := now\<rparr>"
    "s' = snd (update_action_status_cas c ActionStatus.Authorized s)"
    by (auto split: if_splits)
  have "get_action other s' = (if other = aid then Some c else get_action other s)" for other
    using cas_result(2) [OF inv, where a = c and old = a and aid = other and st = ActionStatus.Authorized] a aid g by simp
  with a g show ?thesis by auto
qed

subsection \<open>Leases\<close>

definition leases_inv :: "db \<Rightarrow> bool" where
  "leases_inv s \<longleftrightarrow> distinct (map ls_lease_id (db_leases s)) \<and> distinct (map ls_turn_id (db_leases s))"

lemma leases_inv_empty: "leases_inv empty_db"
  by (simp add: leases_inv_def empty_db_def)

lemma acquire_lease_inv: "leases_inv s \<Longrightarrow> leases_inv (snd (acquire_lease i now t th w ttl s))"
  by (auto simp: acquire_lease_def leases_inv_def Let_def map_key_update tbl_get_None_iff split: option.splits)

lemma refresh_lease_inv: "leases_inv s \<Longrightarrow> leases_inv (snd (refresh_lease now i k ttl s))"
  by (auto simp: refresh_lease_def leases_inv_def Let_def map_key_update)

lemma release_lease_inv: "leases_inv s \<Longrightarrow> leases_inv (snd (release_lease i k s))"
  by (simp add: release_lease_def leases_inv_def sm_simps distinct_map_delete)

lemma force_release_inv: "leases_inv s \<Longrightarrow> leases_inv (snd (force_release_turn_lease t s))"
  by (simp add: force_release_turn_lease_def leases_inv_def sm_simps distinct_map_delete)

subsection \<open>Audit log\<close>

lemma sorted_map_last: "sorted (map f xs) \<Longrightarrow> x \<in> set xs \<Longrightarrow> f x \<le> f (last xs)"
  by (induction xs rule: rev_induct) (auto simp: sorted_append)

lemma append_audit_chain:
  assumes "sorted (map aud_seq (db_audit s))" and "verify_audit_chain E (db_audit s) = Inr ()"
  shows "sorted (map aud_seq (db_audit (snd (append_audit E now actor w oper summary s)))) \<and>
    verify_audit_chain E (db_audit (snd (append_audit E now actor w oper summary s))) = Inr ()"
proof
  have "\<forall>r \<in> set (db_audit s). aud_seq r \<le> aud_seq (last (db_audit s))"
    using assms(1) by (simp add: sorted_map_last)
  with assms(1) show "sorted (map aud_seq (db_audit (snd (append_audit E now actor w oper summary s))))"
    by (fastforce simp: append_audit_def Let_def sorted_append)
  from assms(2) show "verify_audit_chain E (db_audit (snd (append_audit E now actor w oper summary s))) = Inr ()"
    by (simp add: append_audit_def Let_def verify_audit_chain_snoc audit_head_def record_preimage_def
        audit_record_hash_def)
qed

subsection \<open>Checkpoints\<close>

lemma fold_latest_mono:
  "(kr_created_at r, kr_step r) \<le> (kr_created_at (fold latest_of rs r), kr_step (fold latest_of rs r))"
proof (induction rs arbitrary: r)
  case (Cons x rs)
  have "(kr_created_at r, kr_step r) \<le> (kr_created_at (latest_of x r), kr_step (latest_of x r))"
    by (simp add: latest_of_def less_imp_le)
  also note Cons.IH [of "latest_of x r"]
  finally show ?case by simp
qed simp

lemma fold_latest_in: "fold latest_of rs r \<in> set (r # rs)"
  by (induction rs arbitrary: r) (auto simp: latest_of_def split: if_splits)

lemma fold_latest_snoc:
  assumes "\<And>x. x \<in> set (r # rs) \<Longrightarrow> (kr_created_at x, kr_step x) < (kr_created_at c, kr_step c)"
  shows "fold latest_of (rs @ [c]) r = c"
  using assms [OF fold_latest_in] by (simp add: latest_of_def)

section \<open>Properties\<close>

text \<open>
  An approved action is claimed at most once. A successful claim needs an authorized action whose
  approval was consumed, that has not expired and whose stored request hash is the hash of its
  stored content; it moves the action to its precondition check and touches no other action, and
  from then on every further claim of the action returns nothing and changes nothing.
\<close>

theorem action_is_claimed_at_most_once:
  assumes "actions_inv s" and "claim_action_for_execution E aid now s = (Inr (Some c), s')"
  shows "(\<exists>a. get_action aid s = Some a \<and> act_status a = ActionStatus.Authorized \<and>
      now < act_expires_at a \<and> act_consumed_approval a \<and> action_request_hash E a = act_request_hash a \<and>
      c = a\<lparr>act_status := ActionStatus.PreconditionCheck, act_updated_at := now\<rparr>) \<and>
    (\<forall>other. other \<noteq> aid \<longrightarrow> get_action other s' = get_action other s) \<and>
    claim_action_for_execution E aid later s' = (Inr None, s')"
proof -
  from claimed_state [OF assms] obtain a where
    a: "get_action aid s = Some a" "act_status a = ActionStatus.Authorized" "now < act_expires_at a"
      "act_consumed_approval a" "action_request_hash E a = act_request_hash a"
      "c = a\<lparr>act_status := ActionStatus.PreconditionCheck, act_updated_at := now\<rparr>"
      "get_action aid s' = Some c" "\<forall>other. other \<noteq> aid \<longrightarrow> get_action other s' = get_action other s"
    by blast
  have "actions_inv s'" using claim_inv [OF assms(1), of E aid now] assms(2) by simp
  from claim_result [OF this a(7), of E later] have "claim_action_for_execution E aid later s' = (Inr None, s')"
    by (simp add: a(6))
  with a show ?thesis by blast
qed

definition authorized_action :: ActionRecord where
  "authorized_action = (let a = sample_action\<lparr>act_status := ActionStatus.Authorized,
       act_consumed_approval := True, act_expires_at := 100\<rparr>
     in a\<lparr>act_request_hash := action_request_hash demo_ext a\<rparr>)"

definition authorized_db :: db where
  "authorized_db = empty_db\<lparr>db_actions := [action_row_of authorized_action]\<rparr>"

lemma authorized_db_inv: "actions_inv authorized_db"
  by (simp add: actions_inv_def authorized_db_def action_row_ok_def)

lemma authorized_db_get: "get_action (act_action_id sample_action) authorized_db = Some authorized_action"
  by (simp add: get_action_def authorized_db_def authorized_action_def Let_def)

lemma authorized_action_hash:
  "action_request_hash demo_ext authorized_action = act_request_hash authorized_action"
  by (simp add: authorized_action_def Let_def action_request_hash_def action_request_preimage_def)

theorem action_is_claimed_at_most_once_witness:
  "claim_action_for_execution demo_ext (act_action_id sample_action) 60
     (snd (claim_action_for_execution demo_ext (act_action_id sample_action) 50 authorized_db)) =
   (Inr None, snd (claim_action_for_execution demo_ext (act_action_id sample_action) 50 authorized_db))"
proof -
  have "claim_action_for_execution demo_ext (act_action_id sample_action) 50 authorized_db =
      (Inr (Some (authorized_action\<lparr>act_status := ActionStatus.PreconditionCheck, act_updated_at := 50\<rparr>)),
       snd (claim_action_for_execution demo_ext (act_action_id sample_action) 50 authorized_db))"
    unfolding claim_result [OF authorized_db_inv authorized_db_get]
    by (simp add: authorized_action_hash) (simp add: authorized_action_def Let_def)
  from action_is_claimed_at_most_once [OF authorized_db_inv this] show ?thesis by blast
qed

text \<open>
  C34: a lease excludes and fences. While the lease of a turn has not expired, nobody else acquires
  it and nothing changes. Once it has expired, the next owner takes it over with the next fencing
  token, and the previous holder can neither refresh it nor release it any more.
\<close>

theorem lease_excludes_and_fences:
  assumes "leases_inv s" and "tbl_get ls_turn_id t (db_leases s) = Some held"
  shows "if now < ls_expires_at held
    then acquire_lease fresh_id now t th owner ttl s = (Inl OpsCodexError.TurnAlreadyRunning, s)
    else (\<exists>l s'. acquire_lease fresh_id now t th owner ttl s = (Inr l, s') \<and>
      ls_owner_id l = owner \<and> ls_fencing_token l = ls_fencing_token held + 1 \<and>
      tbl_get ls_turn_id t (db_leases s') = Some l \<and>
      refresh_lease later (ls_lease_id held) (ls_fencing_token held) ttl' s' =
        (Inl (OpsCodexError.Storage ''lease fencing token mismatch''), s') \<and>
      release_lease (ls_lease_id held) (ls_fencing_token held) s' = (Inr (), s'))"
proof (cases "now < ls_expires_at held")
  case True
  with assms(2) show ?thesis by (simp add: acquire_lease_def)
next
  case False
  let ?l = "\<lparr>ls_lease_id = ls_lease_id held, ls_turn_id = t, ls_thread_id = th, ls_owner_id = owner,
     ls_expires_at = now + ttl, ls_fencing_token = ls_fencing_token held + 1\<rparr>"
  let ?f = "\<lambda>r :: Lease. r\<lparr>ls_owner_id := owner, ls_expires_at := now + ttl,
     ls_fencing_token := ls_fencing_token held + 1, ls_thread_id := th\<rparr>"
  let ?T = "tbl_update (\<lambda>r. ls_lease_id r = ls_lease_id held) ?f (db_leases s)"
  have run: "acquire_lease fresh_id now t th owner ttl s = (Inr ?l, s\<lparr>db_leases := ?T\<rparr>)"
    using assms(2) False by (simp add: acquire_lease_def Let_def)
  have held: "held \<in> set (db_leases s)" "ls_turn_id held = t" using tbl_get_SomeD [OF assms(2)] by auto
  have "tbl_get ls_turn_id t ?T = Some ?l"
    using assms(2) held by (subst tbl_get_update) auto
  moreover have "filter (\<lambda>r. ls_lease_id r = ls_lease_id held \<and> ls_fencing_token r = ls_fencing_token held) ?T = []"
    by (auto simp: filter_empty_conv tbl_update_def)
  moreover from this have "tbl_delete (\<lambda>r. ls_lease_id r = ls_lease_id held \<and>
      ls_fencing_token r = ls_fencing_token held) ?T = ?T"
    unfolding tbl_delete_def by (auto simp: filter_empty_conv filter_id_conv)
  ultimately show ?thesis
    using run False by (auto simp: refresh_lease_def release_lease_def sm_simps)
qed

theorem lease_excludes_and_fences_witness:
  "\<exists>l s'. acquire_lease ''x'' 10 1 2 ''second'' 30
      (empty_db\<lparr>db_leases := [\<lparr>ls_lease_id = ''l'', ls_turn_id = 1, ls_thread_id = 2, ls_owner_id = ''first'',
         ls_expires_at = 5, ls_fencing_token = 1\<rparr>]\<rparr>) = (Inr l, s') \<and>
      ls_owner_id l = ''second'' \<and> ls_fencing_token l = 1 + 1 \<and>
      tbl_get ls_turn_id 1 (db_leases s') = Some l \<and>
      refresh_lease 11 ''l'' 1 30 s' = (Inl (OpsCodexError.Storage ''lease fencing token mismatch''), s') \<and>
      release_lease ''l'' 1 s' = (Inr (), s')"
  using lease_excludes_and_fences [of "empty_db\<lparr>db_leases := [\<lparr>ls_lease_id = ''l'', ls_turn_id = 1,
      ls_thread_id = 2, ls_owner_id = ''first'', ls_expires_at = 5, ls_fencing_token = 1\<rparr>]\<rparr>" 1
      "\<lparr>ls_lease_id = ''l'', ls_turn_id = 1, ls_thread_id = 2, ls_owner_id = ''first'',
        ls_expires_at = 5, ls_fencing_token = 1\<rparr>" 10 "''x''" 2 "''second''" 30 11 30]
  by (simp add: leases_inv_def)

text \<open>
  The audit log always verifies. Whatever is appended, in whatever order and at whatever times,
  the log that is read back holds one record per append and passes the verification of its hash
  chain.
\<close>

theorem audit_log_always_verifies:
  "let s = fold (\<lambda>(now, actor, w, oper, summary) s. snd (append_audit E now actor w oper summary s)) entries empty_db
   in verify_audit_chain E (list_audit s) = Inr () \<and> length (list_audit s) = length entries"
proof -
  let ?s = "fold (\<lambda>(now, actor, w, oper, summary) s. snd (append_audit E now actor w oper summary s)) entries empty_db"
  have "sorted (map aud_seq (db_audit ?s)) \<and> verify_audit_chain E (db_audit ?s) = Inr () \<and>
      length (db_audit ?s) = length entries"
  proof (induction entries rule: rev_induct)
    case Nil
    show ?case by (simp add: empty_db_def)
  next
    case (snoc x entries)
    obtain now actor w oper summary where x: "x = (now, actor, w, oper, summary)" by (cases x) auto
    from snoc append_audit_chain [where now = now and actor = actor and w = w and oper = oper and summary = summary]
    show ?case by (simp add: x) (simp add: append_audit_def Let_def)
  qed
  then show ?thesis by (simp add: list_audit_def Let_def sort_key_id_if_sorted)
qed

text \<open>
  The last checkpoint is the one recovery sees. A stored checkpoint whose time and step exceed
  those of the turn's other checkpoints is read back unchanged as the turn's last checkpoint, for
  every step number and sequence number that fits its column.
\<close>

theorem last_checkpoint_round_trip:
  assumes "put_checkpoint c s = (Inr (), s')" and "cp_step c < 2 ^ 32" and "cp_last_committed_seq c < 2 ^ 63"
    and "\<forall>r \<in> set (db_checkpoints s). kr_turn_id r = cp_turn_id c \<longrightarrow>
      (kr_created_at r, kr_step r) < (cp_created_at c, int (cp_step c))"
  shows "last_checkpoint (cp_turn_id c) s' = Some c"
proof -
  let ?r = "\<lparr>kr_checkpoint_id = cp_checkpoint_id c, kr_turn_id = cp_turn_id c, kr_thread_id = cp_thread_id c,
     kr_step = int (cp_step c), kr_phase = phase_as_str (cp_phase c),
     kr_state = cp_pending_operation c, kr_input_hash = cp_context_input_hash c,
     kr_last_committed_seq = as_i64 (cp_last_committed_seq c),
     kr_resume_policy = policy_as_str (cp_resume_policy c), kr_created_at = cp_created_at c\<rparr>"
  have rows: "filter (\<lambda>r. kr_turn_id r = cp_turn_id c) (db_checkpoints s') =
      filter (\<lambda>r. kr_turn_id r = cp_turn_id c) (db_checkpoints s) @ [?r]"
    using assms(1) by (auto simp: put_checkpoint_def split: if_splits)
  show ?thesis
  proof (cases "filter (\<lambda>r. kr_turn_id r = cp_turn_id c) (db_checkpoints s)")
    case Nil
    with rows assms(2,3) show ?thesis by (simp add: last_checkpoint_def as_i64_small)
  next
    case (Cons first rest)
    have "(kr_created_at x, kr_step x) < (kr_created_at ?r, kr_step ?r)" if "x \<in> set (first # rest)" for x
      using that assms(4) unfolding Cons [symmetric] by auto
    then have "fold latest_of (rest @ [?r]) first = ?r" by (rule fold_latest_snoc)
    with rows Cons assms(2,3) show ?thesis by (simp add: last_checkpoint_def as_i64_small del: fold_append)
  qed
qed

theorem last_checkpoint_round_trip_witness:
  "last_checkpoint 1 (snd (put_checkpoint
     \<lparr>cp_checkpoint_id = ''c'', cp_turn_id = 1, cp_thread_id = 2, cp_step = 3,
      cp_phase = CheckpointPhase.ToolRunning, cp_context_input_hash = None, cp_pending_operation = None,
      cp_last_committed_seq = 4, cp_resume_policy = RetryObserve, cp_created_at = 9\<rparr> empty_db)) =
   Some \<lparr>cp_checkpoint_id = ''c'', cp_turn_id = 1, cp_thread_id = 2, cp_step = 3,
      cp_phase = CheckpointPhase.ToolRunning, cp_context_input_hash = None, cp_pending_operation = None,
      cp_last_committed_seq = 4, cp_resume_policy = RetryObserve, cp_created_at = 9\<rparr>"
proof -
  let ?c = "\<lparr>cp_checkpoint_id = ''c'', cp_turn_id = 1, cp_thread_id = 2, cp_step = 3,
      cp_phase = CheckpointPhase.ToolRunning, cp_context_input_hash = None, cp_pending_operation = None,
      cp_last_committed_seq = 4, cp_resume_policy = RetryObserve, cp_created_at = 9\<rparr>"
  have "put_checkpoint ?c empty_db = (Inr (), snd (put_checkpoint ?c empty_db))"
    by (simp add: put_checkpoint_def empty_db_def)
  then have "last_checkpoint (cp_turn_id ?c) (snd (put_checkpoint ?c empty_db)) = Some ?c"
    by (rule last_checkpoint_round_trip) (simp_all add: empty_db_def)
  then show ?thesis by simp
qed

end
