(* ===== verification/Http.thy ===== *)
theory Http
  imports Errors
begin

text \<open>
  The part of the connectors that every outgoing request goes through (\<open>src/tools/mod.rs\<close>,
  \<open>src/tools/connector.rs\<close>): bounded reading of a response body, truncation of text, the
  classification of HTTP failures and the retry loop for reads.

  The network, the clock, the source of fresh identifiers and the URL library are outside the
  repository. They are one record of functions on an abstract world, so a definition that calls them
  says in which order it does so. The lemmas show that bodies and texts stay within their bounds and
  that a read is attempted a bounded number of times and only after failures that may be retried.
\<close>

section \<open>The outside world\<close>

text \<open>The components of a parsed URL that the code reads.\<close>

record Url =
  url_scheme :: string
  url_username :: string
  url_password :: "string option"
  url_host :: "string option"
  url_path :: string
  url_query :: "string option"
  url_fragment :: "string option"

datatype Method = GET | POST | PATCH

record HttpRequest =
  rq_method :: Method
  rq_url :: Url
  rq_headers :: "(string \<times> string) list"
  rq_bearer :: "string option"
  rq_body :: "json option"
  rq_timeout_secs :: nat

text \<open>What one poll of the response stream gives; the end of the list is the end of the stream.\<close>

datatype BodyEvent = BodyCancelled | BodyError string | BodyChunk bytes

text \<open>Which branch of \<open>tokio::select!\<close> over cancellation, timeout and \<open>send\<close> ran.\<close>

datatype SendOutcome = SendCancelled | SendTimedOut | SendFailed string | SendResponse nat "BodyEvent list"

record 'w io =
  io_now :: "'w \<Rightarrow> time \<times> 'w"
  io_uuid :: "'w \<Rightarrow> uuid \<times> 'w"
  io_send :: "HttpRequest \<Rightarrow> 'w \<Rightarrow> SendOutcome \<times> 'w"
  io_sleep :: "nat \<Rightarrow> 'w \<Rightarrow> bool \<times> 'w"
  url_parse :: "string \<Rightarrow> string + Url"
  url_set_path :: "string \<Rightarrow> Url \<Rightarrow> Url"
  url_join :: "Url \<Rightarrow> string \<Rightarrow> string + Url"
  url_join_expect :: "Url \<Rightarrow> string \<Rightarrow> Url"
  url_append_pairs :: "(string \<times> string) list \<Rightarrow> Url \<Rightarrow> Url"
  json_parse :: "bytes \<Rightarrow> string + json"
  status_display :: "nat \<Rightarrow> string"

text \<open>
  \<open>url_join_expect\<close> stands for joining a fixed plain segment to an HTTP base URL followed by \<open>expect\<close>;
  the library accepts such a segment, so it has no error case. A call that always answers, as an
  operation:
\<close>

definition sask :: "('s \<Rightarrow> 'a \<times> 's) \<Rightarrow> ('e, 's, 'a) sm" where
  "sask f s = (Inr (fst (f s)), snd (f s))"

lemma sask_run [sm_simps]: "sask f s = (Inr (fst (f s)), snd (f s))"
  by (simp add: sask_def)

section \<open>Text\<close>

definition ascii_lower :: "char \<Rightarrow> char" where
  "ascii_lower c = (if 65 \<le> (of_char c :: nat) \<and> of_char c \<le> (90 :: nat) then char_of (of_char c + 32 :: nat) else c)"

definition to_ascii_lowercase :: "string \<Rightarrow> string" where
  "to_ascii_lowercase s = map ascii_lower s"

definition eq_ignore_ascii_case :: "string \<Rightarrow> string \<Rightarrow> bool" where
  "eq_ignore_ascii_case a b = (to_ascii_lowercase a = to_ascii_lowercase b)"

fun split_on :: "char \<Rightarrow> string \<Rightarrow> string list" where
  "split_on c [] = [[]]"
| "split_on c (x # xs) =
     (if x = c then [] # split_on c xs
      else case split_on c xs of [] \<Rightarrow> [[x]] | p # ps \<Rightarrow> (x # p) # ps)"

fun str_contains :: "string \<Rightarrow> string \<Rightarrow> bool" where
  "str_contains p [] = (p = [])"
| "str_contains p (x # xs) = (starts_with p (x # xs) \<or> str_contains p xs)"

definition trim_end_char :: "char \<Rightarrow> string \<Rightarrow> string" where
  "trim_end_char c s = rev (dropWhile (\<lambda>x. x = c) (rev s))"

text \<open>
  \<open>String::from_utf8_lossy\<close>: every maximal ill-formed part becomes one U+FFFD. \<open>utf8_head\<close> says
  whether the bytes start with a well-formed character and how many bytes it, or the ill-formed
  part, has.
\<close>

definition byte_in :: "nat \<Rightarrow> nat \<Rightarrow> bytes \<Rightarrow> nat \<Rightarrow> bool" where
  "byte_in lo hi bs i = (i < length bs \<and> lo \<le> of_char (bs ! i) \<and> of_char (bs ! i) \<le> hi)"

definition utf8_head :: "bytes \<Rightarrow> bool \<times> nat" where
  "utf8_head bs =
     (let b = of_char (hd bs) :: nat;
          lo = (if b = 0xE0 then 0xA0 else if b = 0xF0 then 0x90 else 0x80);
          hi = (if b = 0xED then 0x9F else if b = 0xF4 then 0x8F else 0xBF)
      in if b < 0x80 then (True, 1)
         else if b < 0xC2 \<or> 0xF4 < b \<or> \<not> byte_in lo hi bs 1 then (False, 1)
         else if b < 0xE0 then (True, 2)
         else if \<not> byte_in 0x80 0xBF bs 2 then (False, 2)
         else if b < 0xF0 then (True, 3)
         else if \<not> byte_in 0x80 0xBF bs 3 then (False, 3)
         else (True, 4))"

lemma utf8_head_pos: "(ok, n) = utf8_head bs \<Longrightarrow> 0 < n"
  by (auto simp: utf8_head_def Let_def split: if_splits)

function from_utf8_lossy :: "bytes \<Rightarrow> string" where
  "from_utf8_lossy bs =
     (if bs = [] then []
      else let (ok, n) = utf8_head bs
           in (if ok then take n bs else [CHR 0xEF, CHR 0xBF, CHR 0xBD]) @ from_utf8_lossy (drop n bs))"
  by pat_completeness auto
termination
  by (relation "measure length") (auto dest: utf8_head_pos)

declare from_utf8_lossy.simps [simp del]

text \<open>The largest character boundary at or before \<open>n\<close>: the loop that decrements an index.\<close>

fun boundary_before :: "nat \<Rightarrow> string \<Rightarrow> nat" where
  "boundary_before n s =
     (if is_char_boundary n s then n else case n of 0 \<Rightarrow> 0 | Suc m \<Rightarrow> boundary_before m s)"

declare boundary_before.simps [simp del]

definition MARKER :: string where
  "MARKER = CHR 0x0A # ''[output truncated]''"

definition truncate_output_inner :: "bytes \<Rightarrow> nat \<Rightarrow> bool \<Rightarrow> string \<times> bool" where
  "truncate_output_inner bs max_bytes0 force_marker =
     (let decoded = from_utf8_lossy bs; max_bytes = max max_bytes0 1
      in if \<not> force_marker \<and> length decoded \<le> max_bytes then (decoded, False)
         else if max_bytes \<le> length MARKER then (take max_bytes MARKER, True)
         else (take (boundary_before (max_bytes - length MARKER) decoded) decoded @ MARKER, True))"

definition truncate_output :: "bytes \<Rightarrow> nat \<Rightarrow> string \<times> bool" where
  "truncate_output bs max_bytes = truncate_output_inner bs max_bytes False"

definition truncate_output_with_marker :: "bytes \<Rightarrow> nat \<Rightarrow> string \<times> bool" where
  "truncate_output_with_marker bs max_bytes = truncate_output_inner bs max_bytes True"

section \<open>Bodies, failures and retries\<close>

fun read_chunks :: "nat \<Rightarrow> bytes \<Rightarrow> BodyEvent list \<Rightarrow> (bytes \<times> bool) result" where
  "read_chunks max_bytes body [] = Inr (body, False)"
| "read_chunks max_bytes body (BodyCancelled # _) = Inl OpsCodexError.Cancelled"
| "read_chunks max_bytes body (BodyError msg # _) = Inl (OpsCodexError.Tool msg)"
| "read_chunks max_bytes body (BodyChunk chunk # rest) =
     (let remaining = max_bytes - length body
      in if remaining < length chunk then Inr (body @ take remaining chunk, True)
         else read_chunks max_bytes (body @ chunk) rest)"

definition read_bounded_body :: "BodyEvent list \<Rightarrow> nat \<Rightarrow> (bytes \<times> bool) result" where
  "read_bounded_body stream max_bytes = read_chunks (max max_bytes 1) [] stream"

definition ELLIPSIS :: string where
  "ELLIPSIS = [CHR 0xE2, CHR 0x80, CHR 0xA6]"

definition connector_truncate :: "string \<Rightarrow> nat \<Rightarrow> string" where
  "connector_truncate v max_chars =
     (let end_pos = boundary_before (min max_chars (length v)) v
      in if length v \<le> max_chars then v else take end_pos v @ ELLIPSIS)"

definition http_status_error :: "'w io \<Rightarrow> string \<Rightarrow> nat \<Rightarrow> string \<Rightarrow> OpsCodexError" where
  "http_status_error I service status body =
     (let c = (if status \<in> {401, 403} then ConnectorClass.Auth
               else if status = 408 then ConnectorClass.Timeout
               else if status = 429 then ConnectorClass.RateLimit
               else if status \<in> {400, 404, 422} then ConnectorClass.InvalidQuery
               else ConnectorClass.Unavailable)
      in OpsCodexError.Connector c
           (service @ '' returned HTTP '' @ status_display I status @ '': '' @ connector_truncate body 240))"

definition is_success :: "nat \<Rightarrow> bool" where
  "is_success status = (200 \<le> status \<and> status < 300)"

definition retry_delay_ms :: "nat \<Rightarrow> nat" where
  "retry_delay_ms attempt = (40 * 2 ^ attempt + attempt * 13) mod 2 ^ 64"

function retry_from :: "'w io \<Rightarrow> nat \<Rightarrow> nat \<Rightarrow> ('w, 'a) op \<Rightarrow> ('w, 'a) op" where
  "retry_from I max_attempts attempt op w =
     (case op w of
        (Inr v, w') \<Rightarrow> (Inr v, w')
      | (Inl err, w') \<Rightarrow>
          if error_retryable err \<and> attempt + 1 < max_attempts
          then (case io_sleep I (retry_delay_ms (attempt + 1)) w' of
                  (cancelled, w'') \<Rightarrow>
                    if cancelled then (Inl OpsCodexError.Cancelled, w'')
                    else retry_from I max_attempts (attempt + 1) op w'')
          else (Inl err, w'))"
  by pat_completeness auto
termination
  by (relation "measure (\<lambda>(I, m, attempt, op, w). m - attempt)") auto

declare retry_from.simps [simp del]

definition retry_readonly :: "'w io \<Rightarrow> nat \<Rightarrow> ('w, 'a) op \<Rightarrow> ('w, 'a) op" where
  "retry_readonly I max_attempts op = retry_from I max_attempts 0 op"


section \<open>A concrete world\<close>

text \<open>
  A world that keeps the requests it was sent and answers them from a list, with a clock and an
  identifier counter that count up; it shows that the hypotheses of the theorems can hold.
\<close>

record demo_world =
  dw_clock :: time
  dw_next :: uuid
  dw_sent :: "HttpRequest list"
  dw_replies :: "SendOutcome list"

definition demo_send :: "HttpRequest \<Rightarrow> demo_world \<Rightarrow> SendOutcome \<times> demo_world" where
  "demo_send r w = (case dw_replies w of
       [] \<Rightarrow> (SendTimedOut, w\<lparr>dw_sent := dw_sent w @ [r]\<rparr>)
     | x # xs \<Rightarrow> (x, w\<lparr>dw_sent := dw_sent w @ [r], dw_replies := xs\<rparr>))"

definition demo_url :: Url where
  "demo_url = \<lparr>url_scheme = ''http'', url_username = [], url_password = None,
     url_host = Some ''localhost'', url_path = ''/'', url_query = None, url_fragment = None\<rparr>"

definition demo_io :: "demo_world io" where
  "demo_io = \<lparr>io_now = (\<lambda>w. (dw_clock w, w\<lparr>dw_clock := dw_clock w + 1\<rparr>)),
     io_uuid = (\<lambda>w. (dw_next w, w\<lparr>dw_next := dw_next w + 1\<rparr>)),
     io_send = demo_send, io_sleep = (\<lambda>d w. (False, w)),
     url_parse = (\<lambda>s. Inr demo_url),
     url_set_path = (\<lambda>p u. u\<lparr>url_path := p\<rparr>),
     url_join = (\<lambda>u p. Inr (u\<lparr>url_path := url_path u @ p\<rparr>)),
     url_join_expect = (\<lambda>u p. u\<lparr>url_path := url_path u @ p\<rparr>),
     url_append_pairs = (\<lambda>kvs u. u\<lparr>url_query :=
       Some (join_with ''&'' (map (\<lambda>(k, v). k @ ''='' @ v) kvs))\<rparr>),
     json_parse = (\<lambda>b. if b = [] then Inl ''empty'' else Inr (JObj [])),
     status_display = show_nat\<rparr>"

definition demo_world0 :: "SendOutcome list \<Rightarrow> demo_world" where
  "demo_world0 replies = \<lparr>dw_clock = 0, dw_next = 0, dw_sent = [], dw_replies = replies\<rparr>"

lemma demo_io_simps [simp]:
  "io_now demo_io w = (dw_clock w, w\<lparr>dw_clock := dw_clock w + 1\<rparr>)"
  "io_uuid demo_io w = (dw_next w, w\<lparr>dw_next := dw_next w + 1\<rparr>)"
  "io_send demo_io = demo_send"
  "io_sleep demo_io d w = (False, w)"
  "url_set_path demo_io p u = u\<lparr>url_path := p\<rparr>"
  "url_parse demo_io s = Inr demo_url"
  "url_join demo_io u p = Inr (u\<lparr>url_path := url_path u @ p\<rparr>)"
  "url_join_expect demo_io u p = u\<lparr>url_path := url_path u @ p\<rparr>"
  "url_append_pairs demo_io kvs u = u\<lparr>url_query := Some (join_with ''&'' (map (\<lambda>(k, v). k @ ''='' @ v) kvs))\<rparr>"
  by (simp_all add: demo_io_def)

section \<open>Lemmas\<close>

lemma boundary_before_ok: "is_char_boundary (boundary_before n s) s \<and> boundary_before n s \<le> n"
proof (induction n)
  case 0
  show ?case by (simp add: boundary_before.simps [of 0] is_char_boundary_def)
next
  case (Suc n)
  then show ?case by (auto simp: boundary_before.simps [of "Suc n"])
qed

lemma boundary_before_greatest:
  "is_char_boundary m s \<Longrightarrow> m \<le> n \<Longrightarrow> m \<le> boundary_before n s"
proof (induction n)
  case 0
  then show ?case by simp
next
  case (Suc n)
  show ?case
  proof (cases "is_char_boundary (Suc n) s")
    case False
    with Suc.prems have "m \<noteq> Suc n" by blast
    with Suc False show ?thesis by (simp add: boundary_before.simps [of "Suc n"])
  qed (use Suc.prems in \<open>simp add: boundary_before.simps [of "Suc n"]\<close>)
qed

lemma read_chunks_prefix:
  "read_chunks m body evs = Inr (out, t) \<Longrightarrow> length body \<le> m \<Longrightarrow>
     length out \<le> m \<and> (\<exists>rest. body @ concat (map (\<lambda>e. case e of BodyChunk c \<Rightarrow> c | _ \<Rightarrow> []) evs) = out @ rest \<and>
       (t = (rest \<noteq> [])))"
proof (induction m body evs rule: read_chunks.induct)
  case (4 m body chunk rest)
  show ?case
  proof (cases "m - length body < length chunk")
    case True
    with 4(2) have out: "out = body @ take (m - length body) chunk" "t"
      by (auto simp: Let_def)
    from True have "chunk = take (m - length body) chunk @ drop (m - length body) chunk"
      "drop (m - length body) chunk \<noteq> []" by auto
    with out 4(3) show ?thesis
      by (auto intro!: exI [of _ "drop (m - length body) chunk @
        concat (map (\<lambda>e. case e of BodyChunk c \<Rightarrow> c | _ \<Rightarrow> []) rest)"])
  next
    case False
    with 4 show ?thesis by (auto simp: Let_def)
  qed
qed auto

lemma retry_from_bounds:
  assumes count: "\<And>w. cnt (snd (op w)) = Suc (cnt w)"
    and sleep: "\<And>d w. cnt (snd (io_sleep I d w)) = cnt w"
  shows "retry_from I m a op w = (r, w') \<Longrightarrow>
    cnt w' \<le> cnt w + max 1 (m - a) \<and> cnt w < cnt w' \<and>
    (\<forall>err. r = Inl err \<longrightarrow> error_retryable err \<longrightarrow> err \<noteq> OpsCodexError.Cancelled \<longrightarrow> cnt w' = cnt w + max 1 (m - a))"
proof (induction "m - a" arbitrary: a w rule: less_induct)
  case less
  obtain r1 w1 where op: "op w = (r1, w1)" by fastforce
  have w1: "cnt w1 = Suc (cnt w)" using count [of w] op by simp
  obtain c w2 where slept: "io_sleep I (retry_delay_ms (a + 1)) w1 = (c, w2)" by fastforce
  have w2: "cnt w2 = cnt w1" using sleep [of "retry_delay_ms (a + 1)" w1] slept by simp
  note run = less.prems [unfolded retry_from.simps [of I m a op w]]
  show ?case
  proof (cases "\<exists>err. r1 = Inl err \<and> error_retryable err \<and> a + 1 < m \<and> \<not> c")
    case True
    with run op slept have "retry_from I m (a + 1) op w2 = (r, w')" by auto
    moreover have "m - (a + 1) < m - a" using True by auto
    ultimately have "cnt w' \<le> cnt w2 + max 1 (m - (a + 1)) \<and> cnt w2 < cnt w' \<and>
        (\<forall>err. r = Inl err \<longrightarrow> error_retryable err \<longrightarrow> err \<noteq> OpsCodexError.Cancelled \<longrightarrow>
           cnt w' = cnt w2 + max 1 (m - (a + 1)))"
      using less.hyps by blast
    then show ?thesis using True w1 w2 by auto
  next
    case False
    then have "w' = w1 \<and> r = r1 \<and> (\<forall>err. r1 = Inl err \<longrightarrow> \<not> (error_retryable err \<and> a + 1 < m)) \<or>
        w' = w2 \<and> r = Inl OpsCodexError.Cancelled"
      using run op slept by (auto split: sum.splits if_splits)
    then show ?thesis using w1 w2 by auto
  qed
qed

section \<open>Properties\<close>

text \<open>
  Tool output is cut at its limit and nowhere inside a character. The text never exceeds the
  limit; without the truncation flag it is the whole decoded output; with it, it is the longest
  prefix of whole characters that leaves room for the marker, followed by the marker, or a prefix of
  the marker when not even that fits. Output within the limit is never cut.
\<close>

theorem truncated_output_is_bounded:
  "let decoded = from_utf8_lossy bs; (out, cut) = truncate_output_inner bs limit forced
   in length out \<le> max limit 1 \<and>
      (\<not> cut \<longrightarrow> out = decoded) \<and> (\<not> forced \<and> length decoded \<le> limit \<longrightarrow> \<not> cut) \<and>
      (cut \<and> length MARKER < limit \<longrightarrow>
         (\<exists>n. out = take n decoded @ MARKER \<and> is_char_boundary n decoded \<and> n + length MARKER \<le> limit \<and>
           (\<forall>k. is_char_boundary k decoded \<and> k + length MARKER \<le> limit \<longrightarrow> k \<le> n)))"
proof -
  let ?d = "from_utf8_lossy bs" and ?n = "boundary_before (max limit 1 - length MARKER) (from_utf8_lossy bs)"
  have n: "is_char_boundary ?n ?d" "?n \<le> max limit 1 - length MARKER" using boundary_before_ok by auto
  have g: "k \<le> ?n" if "is_char_boundary k ?d" "k + length MARKER \<le> limit" for k
    using that by (intro boundary_before_greatest) auto
  show ?thesis
  proof (cases "\<not> forced \<and> length ?d \<le> max limit 1 \<or> max limit 1 \<le> length MARKER")
    case True
    then show ?thesis by (auto simp: truncate_output_inner_def Let_def)
  next
    case False
    then have out: "truncate_output_inner bs limit forced = (take ?n ?d @ MARKER, True)"
      by (auto simp: truncate_output_inner_def Let_def)
    from False have lim: "max limit 1 = limit" by (auto simp: MARKER_def)
    from False n(2) have fit: "?n + length MARKER \<le> limit" by (auto simp: MARKER_def)
    then have "length (take ?n ?d @ MARKER) \<le> limit" by simp
    moreover have "\<exists>k. take ?n ?d @ MARKER = take k ?d @ MARKER \<and> is_char_boundary k ?d \<and>
        k + length MARKER \<le> limit \<and> (\<forall>j. is_char_boundary j ?d \<and> j + length MARKER \<le> limit \<longrightarrow> j \<le> k)"
      using n(1) g fit by blast
    ultimately show ?thesis using False unfolding out lim Let_def prod.case by blast
  qed
qed

theorem truncated_output_is_bounded_witness:
  "length (fst (truncate_output_inner ''abcdefghijklmnopqrstuvwxyz'' 22 False)) \<le> 22"
  using truncated_output_is_bounded [of "''abcdefghijklmnopqrstuvwxyz''" 22 False]
  by (simp add: Let_def split: prod.splits)

text \<open>
  A response body is read up to its limit. What is returned never exceeds the limit and is a
  prefix of what the server sent; the flag says exactly whether something was left out.
\<close>

theorem body_is_read_up_to_limit:
  assumes "read_bounded_body evs limit = Inr (out, truncated)"
  shows "length out \<le> max limit 1 \<and>
    (\<exists>rest. concat (map (\<lambda>e. case e of BodyChunk c \<Rightarrow> c | _ \<Rightarrow> []) evs) = out @ rest \<and>
       (truncated \<longleftrightarrow> rest \<noteq> []))"
  using read_chunks_prefix [of "max limit 1" "[]" evs out truncated] assms
  by (auto simp: read_bounded_body_def)

theorem body_is_read_up_to_limit_witness:
  "read_bounded_body [BodyChunk ''ab'', BodyChunk ''cd''] 3 = Inr (''abc'', True) \<and> length ''abc'' \<le> max 3 (1::nat)"
proof -
  have r: "read_bounded_body [BodyChunk ''ab'', BodyChunk ''cd''] 3 = Inr (''abc'', True)"
    by (simp add: read_bounded_body_def Let_def)
  from body_is_read_up_to_limit [OF r] r show ?thesis by blast
qed

text \<open>
  C40: retries are bounded and justified. A read is attempted at least once and at most as often as
  allowed (\<open>cnt\<close> counts the attempts made in a world, which sleeping does not change), and an
  error that could be retried is only handed to the caller when all attempts are used up or the call
  was cancelled.
\<close>

theorem retries_are_bounded:
  assumes "\<And>w. cnt (snd (op w)) = Suc (cnt w)" and "\<And>d w. cnt (snd (io_sleep I d w)) = cnt w"
    and "retry_readonly I max_attempts op w = (r, w')"
  shows "cnt w < cnt w' \<and> cnt w' \<le> cnt w + max 1 max_attempts \<and>
    (\<forall>err. r = Inl err \<longrightarrow> error_retryable err \<longrightarrow> err \<noteq> OpsCodexError.Cancelled \<longrightarrow>
       cnt w' = cnt w + max 1 max_attempts)"
  using retry_from_bounds [of cnt op I max_attempts 0 w r w'] assms by (simp add: retry_readonly_def)

definition failing_read :: "(demo_world, unit) op" where
  "failing_read w = (Inl (OpsCodexError.Timeout ''slow''), w\<lparr>dw_next := Suc (dw_next w)\<rparr>)"

theorem retries_are_bounded_witness:
  "dw_next (snd (retry_readonly demo_io 3 failing_read (demo_world0 []))) \<le> 3"
proof -
  let ?run = "retry_readonly demo_io 3 failing_read (demo_world0 [])"
  have "?run = (fst ?run, snd ?run)" by simp
  from retries_are_bounded [OF _ _ this, of dw_next] show ?thesis
    by (simp add: failing_read_def demo_world0_def)
qed

end
