(* ===== verification/Workspace.thy ===== *)
theory Workspace
  imports Events "HOL-Library.List_Lexorder" "HOL-Library.Char_ord"
begin

text \<open>
  Workspaces (\<open>src/workspace/mod.rs\<close>): what a configuration entry turns into and the catalogue that
  holds them by identifier. The lemmas show that a catalogue built from a configuration has valid,
  unique identifiers and always a default workspace.
\<close>

definition DEFAULT_KINDS :: "string list" where
  "DEFAULT_KINDS = [''Namespace'', ''Deployment'', ''StatefulSet'', ''DaemonSet'', ''Pod'', ''Service'',
     ''EndpointSlice'', ''Job'', ''Node'', ''Event'']"

record KubernetesScope =
  ks_cluster_alias :: string
  ks_kubeconfig_env :: string
  ks_context :: "string option"
  ks_allowed_namespaces :: "string list"
  ks_allowed_kinds :: "string list"

record Workspace =
  ws_id :: workspace_id
  ws_display_name :: string
  ws_environment :: string
  ws_prometheus_url :: string
  ws_loki_url :: string
  ws_loki_tenant_header :: string
  ws_loki_tenant_env :: string
  ws_tempo_url :: string
  ws_allowed_hosts :: "string list"
  ws_allowed_containers :: "string list"
  ws_kubernetes :: "KubernetesScope option"
  ws_runbook_dir :: "string option"
  ws_max_concurrent_turns :: nat
  ws_max_effect :: "CapabilityEffect option"
  ws_allow_remediation :: bool

record WorkspaceSummary =
  wss_id :: string
  wss_display_name :: string
  wss_environment :: string
  wss_connectors :: "string list"

record WorkspaceConfigEntry =
  we_id :: string
  we_display_name :: "string option"
  we_environment :: "string option"
  we_prometheus_url :: "string option"
  we_loki_url :: "string option"
  we_loki_tenant_env :: "string option"
  we_tempo_url :: "string option"
  we_allowed_hosts :: "string list option"
  we_allowed_containers :: "string list option"
  we_kubeconfig_env :: "string option"
  we_kube_context :: "string option"
  we_cluster_alias :: "string option"
  we_allowed_namespaces :: "string list option"
  we_allowed_kinds :: "string list option"
  we_runbook_dir :: "string option"
  we_max_concurrent_turns :: "nat option"
  we_max_effect :: "string option"
  we_allow_remediation :: bool

definition default_entry :: WorkspaceConfigEntry where
  "default_entry = \<lparr>we_id = [], we_display_name = None, we_environment = None, we_prometheus_url = None,
     we_loki_url = None, we_loki_tenant_env = None, we_tempo_url = None, we_allowed_hosts = None,
     we_allowed_containers = None, we_kubeconfig_env = None, we_kube_context = None,
     we_cluster_alias = None, we_allowed_namespaces = None, we_allowed_kinds = None,
     we_runbook_dir = None, we_max_concurrent_turns = None, we_max_effect = None,
     we_allow_remediation = False\<rparr>"

text \<open>The parts of the configuration a workspace inherits from.\<close>

record WorkspaceDefaults =
  wd_prometheus_url :: string
  wd_loki_url :: string
  wd_loki_tenant_header :: string
  wd_loki_tenant_env :: string
  wd_tempo_url :: string
  wd_allowed_hosts :: "string list"
  wd_allowed_containers :: "string list"
  wd_max_concurrent_turns :: nat
  wd_workspaces :: "WorkspaceConfigEntry list"

definition or_default :: "'a \<Rightarrow> 'a option \<Rightarrow> 'a" where
  "or_default d x = (case x of None \<Rightarrow> d | Some y \<Rightarrow> y)"

definition kubernetes_scope :: "WorkspaceConfigEntry \<Rightarrow> KubernetesScope option" where
  "kubernetes_scope entry =
     Option.bind (we_kubeconfig_env entry) (\<lambda>env.
       if trim env = [] then None
       else Some \<lparr>ks_cluster_alias = or_default (we_id entry) (we_cluster_alias entry),
              ks_kubeconfig_env = env, ks_context = we_kube_context entry,
              ks_allowed_namespaces = or_default [] (we_allowed_namespaces entry),
              ks_allowed_kinds = or_default DEFAULT_KINDS (we_allowed_kinds entry)\<rparr>)"

definition workspace_from_entry :: "WorkspaceDefaults \<Rightarrow> WorkspaceConfigEntry \<Rightarrow> Workspace result" where
  "workspace_from_entry config entry =
     (let wid = trim (we_id entry) in
      and_then (validate_workspace_id wid) (\<lambda>_.
      and_then (case we_max_effect entry of
           None \<Rightarrow> Inr None | Some v \<Rightarrow> and_then (effect_parse v) (\<lambda>e. Inr (Some e))) (\<lambda>max_effect.
        Inr \<lparr>ws_id = wid,
          ws_display_name = or_default wid (we_display_name entry),
          ws_environment = or_default ''local'' (we_environment entry),
          ws_prometheus_url = or_default (wd_prometheus_url config) (we_prometheus_url entry),
          ws_loki_url = or_default (wd_loki_url config) (we_loki_url entry),
          ws_loki_tenant_header = wd_loki_tenant_header config,
          ws_loki_tenant_env = or_default (wd_loki_tenant_env config) (we_loki_tenant_env entry),
          ws_tempo_url = or_default (wd_tempo_url config) (we_tempo_url entry),
          ws_allowed_hosts = or_default (wd_allowed_hosts config) (we_allowed_hosts entry),
          ws_allowed_containers = or_default (wd_allowed_containers config) (we_allowed_containers entry),
          ws_kubernetes = kubernetes_scope entry,
          ws_runbook_dir = we_runbook_dir entry,
          ws_max_concurrent_turns =
            max (or_default (wd_max_concurrent_turns config) (we_max_concurrent_turns entry)) 1,
          ws_max_effect = max_effect,
          ws_allow_remediation = we_allow_remediation entry\<rparr>)))"

definition legacy_default :: "WorkspaceDefaults \<Rightarrow> Workspace result" where
  "legacy_default config = workspace_from_entry config
     (default_entry\<lparr>we_id := ''default'', we_display_name := Some ''Local demo'', we_environment := Some ''local''\<rparr>)"

text \<open>The catalogue is a map ordered by identifier.\<close>

type_synonym WorkspaceCatalog = "Workspace list"

definition catalog_get :: "WorkspaceCatalog \<Rightarrow> workspace_id \<Rightarrow> Workspace result" where
  "catalog_get cat w =
     ok_or (OpsCodexError.NotFound (''workspace '' @ w)) (tbl_get ws_id w cat)"

definition catalog_insert :: "Workspace \<Rightarrow> WorkspaceCatalog \<Rightarrow> WorkspaceCatalog result" where
  "catalog_insert ws cat =
     and_then (validate_workspace_id (ws_id ws)) (\<lambda>_.
       if tbl_get ws_id (ws_id ws) cat \<noteq> None
       then Inl (OpsCodexError.Protocol (''duplicate workspace id `'' @ ws_id ws @ ''`''))
       else Inr (insort_key ws_id ws cat))"

fun catalog_insert_entries ::
    "WorkspaceDefaults \<Rightarrow> WorkspaceConfigEntry list \<Rightarrow> WorkspaceCatalog \<Rightarrow> WorkspaceCatalog result" where
  "catalog_insert_entries config [] cat = Inr cat"
| "catalog_insert_entries config (entry # entries) cat =
     and_then (workspace_from_entry config entry) (\<lambda>ws.
     and_then (catalog_insert ws cat) (\<lambda>cat'. catalog_insert_entries config entries cat'))"

definition catalog_from_config :: "WorkspaceDefaults \<Rightarrow> WorkspaceCatalog result" where
  "catalog_from_config config =
     (if wd_workspaces config = []
      then and_then (legacy_default config) (\<lambda>ws. catalog_insert ws [])
      else and_then (catalog_insert_entries config (wd_workspaces config) []) (\<lambda>cat.
        if tbl_get ws_id ''default'' cat \<noteq> None then Inr cat
        else and_then (legacy_default config) (\<lambda>ws. catalog_insert ws cat)))"

definition workspace_summary :: "Workspace \<Rightarrow> WorkspaceSummary" where
  "workspace_summary ws = \<lparr>wss_id = ws_id ws, wss_display_name = ws_display_name ws,
     wss_environment = ws_environment ws,
     wss_connectors = [''prometheus'', ''loki'', ''tempo'']
       @ (if ws_kubernetes ws \<noteq> None then [''kubernetes''] else [])
       @ (if ws_runbook_dir ws \<noteq> None then [''runbook''] else [])\<rparr>"

definition credential_refs :: "Workspace \<Rightarrow> string list" where
  "credential_refs ws = ws_loki_tenant_env ws #
     (case ws_kubernetes ws of None \<Rightarrow> [] | Some k \<Rightarrow> [ks_kubeconfig_env k])"

section \<open>Lemmas\<close>

definition catalog_inv :: "WorkspaceCatalog \<Rightarrow> bool" where
  "catalog_inv cat \<longleftrightarrow> sorted (map ws_id cat) \<and> distinct (map ws_id cat) \<and>
     (\<forall>ws \<in> set cat. validate_workspace_id (ws_id ws) = Inr () \<and> 1 \<le> ws_max_concurrent_turns ws)"

lemma distinct_map_insort:
  "distinct (map f (insort_key f x xs)) \<longleftrightarrow> f x \<notin> f ` set xs \<and> distinct (map f xs)"
  by (induction xs) (auto simp: set_insort_key)

lemma catalog_insert_inv:
  assumes "catalog_inv cat" and "1 \<le> ws_max_concurrent_turns ws" and "catalog_insert ws cat = Inr cat'"
  shows "catalog_inv cat' \<and> set cat' = insert ws (set cat)"
proof -
  from assms(3) have c: "validate_workspace_id (ws_id ws) = Inr ()" "tbl_get ws_id (ws_id ws) cat = None"
    "cat' = insort_key ws_id ws cat"
    by (auto simp: catalog_insert_def and_then_Inr_iff split: if_splits)
  have "ws_id ws \<notin> ws_id ` set cat" using c(2) by (simp add: tbl_get_None_iff)
  then have "distinct (map ws_id cat')" using assms(1)
    by (simp add: c(3) distinct_map_insort catalog_inv_def)
  with assms(1,2) c show ?thesis
    by (auto simp: catalog_inv_def sorted_insort_key set_insort_key)
qed

lemma workspace_from_entry_turns:
  "workspace_from_entry config entry = Inr ws \<Longrightarrow> 1 \<le> ws_max_concurrent_turns ws \<and> ws_id ws = trim (we_id entry)"
  by (auto simp: workspace_from_entry_def Let_def and_then_Inr_iff)

lemma insert_entries_inv:
  "catalog_insert_entries config entries cat = Inr cat' \<Longrightarrow> catalog_inv cat \<Longrightarrow>
     catalog_inv cat' \<and> ws_id ` set cat' = ws_id ` set cat \<union> (\<lambda>e. trim (we_id e)) ` set entries"
proof (induction entries arbitrary: cat)
  case (Cons e entries)
  from Cons.prems(1) obtain ws cat1 where ws: "workspace_from_entry config e = Inr ws"
    "catalog_insert ws cat = Inr cat1" "catalog_insert_entries config entries cat1 = Inr cat'"
    by (auto simp: and_then_Inr_iff)
  note w = workspace_from_entry_turns [OF ws(1)]
  have "catalog_inv cat1 \<and> set cat1 = insert ws (set cat)"
    using catalog_insert_inv [OF Cons.prems(2) _ ws(2)] w by blast
  with Cons.IH [OF ws(3)] w show ?case by auto
qed simp

lemma trim_default [simp]: "trim ''default'' = ''default''"
  by code_simp

lemma legacy_default_id: "legacy_default config = Inr ws \<Longrightarrow> ws_id ws = ''default'' \<and> 1 \<le> ws_max_concurrent_turns ws"
  by (auto simp: legacy_default_def dest!: workspace_from_entry_turns)

section \<open>Properties\<close>

text \<open>
  A configuration gives a usable catalogue. Every catalogue built from a configuration lists its
  workspaces in order of identifier without duplicates, each with a valid identifier and room for at
  least one turn; it holds every configured workspace and a default one.
\<close>

theorem catalog_from_config_is_usable:
  assumes "catalog_from_config config = Inr cat"
  shows "catalog_inv cat \<and> is_ok (catalog_get cat ''default'') \<and>
    (\<forall>entry \<in> set (wd_workspaces config). is_ok (catalog_get cat (trim (we_id entry))))"
proof -
  have empty: "catalog_inv []" by (simp add: catalog_inv_def)
  have known: "is_ok (catalog_get c w) \<longleftrightarrow> w \<in> ws_id ` set c" for c w
    by (cases "tbl_get ws_id w c") (auto simp: catalog_get_def dest: tbl_get_SomeD tbl_get_NoneD)
  show ?thesis
  proof (cases "wd_workspaces config = []")
    case True
    with assms obtain ws where ws: "legacy_default config = Inr ws" "catalog_insert ws [] = Inr cat"
      by (auto simp: catalog_from_config_def and_then_Inr_iff)
    with catalog_insert_inv [OF empty _ ws(2)] legacy_default_id [OF ws(1)] True show ?thesis
      by (auto simp: known)
  next
    case False
    with assms obtain cat1 where c1: "catalog_insert_entries config (wd_workspaces config) [] = Inr cat1"
      "tbl_get ws_id ''default'' cat1 \<noteq> None \<and> cat = cat1 \<or>
       (\<exists>ws. legacy_default config = Inr ws \<and> catalog_insert ws cat1 = Inr cat)"
      by (auto simp: catalog_from_config_def and_then_Inr_iff split: if_splits)
    note inv1 = insert_entries_inv [OF c1(1) empty]
    from c1(2) show ?thesis
    proof
      assume "tbl_get ws_id ''default'' cat1 \<noteq> None \<and> cat = cat1"
      with inv1 show ?thesis by (auto simp: known tbl_get_None_iff)
    next
      assume "\<exists>ws. legacy_default config = Inr ws \<and> catalog_insert ws cat1 = Inr cat"
      then obtain ws where ws: "legacy_default config = Inr ws" "catalog_insert ws cat1 = Inr cat" by blast
      with catalog_insert_inv [OF _ _ ws(2)] legacy_default_id [OF ws(1)] inv1 show ?thesis
        by (auto simp: known)
    qed
  qed
qed

definition sample_defaults :: WorkspaceDefaults where
  "sample_defaults = \<lparr>wd_prometheus_url = ''p'', wd_loki_url = ''l'', wd_loki_tenant_header = ''h'',
     wd_loki_tenant_env = ''e'', wd_tempo_url = ''t'', wd_allowed_hosts = [], wd_allowed_containers = [],
     wd_max_concurrent_turns = 0, wd_workspaces = []\<rparr>"

theorem catalog_from_config_is_usable_witness:
  "\<exists>cat. catalog_from_config sample_defaults = Inr cat \<and> catalog_inv cat \<and> is_ok (catalog_get cat ''default'')"
proof -
  have valid: "validate_workspace_id ''default'' = Inr ()" by code_simp
  have "\<exists>cat. catalog_from_config sample_defaults = Inr cat"
    by (simp add: catalog_from_config_def sample_defaults_def legacy_default_def workspace_from_entry_def
        catalog_insert_def default_entry_def valid Let_def)
  then show ?thesis using catalog_from_config_is_usable by blast
qed

end
