(* ===== verification/KubeClient.thy ===== *)
theory KubeClient
  imports Http Workspace
begin

text \<open>
  The Kubernetes client (\<open>src/tools/kubernetes/client.rs\<close>): the workspace's allow list, the paths of
  resources, the requests for reading, for listing events and for changing the number of replicas, and the removal of
  secret material from answers. The lemmas show that no request leaves the allow list, that a dry run
  asks the server not to change anything, and that the fields the remediation preconditions compare
  survive the removal.
\<close>

section \<open>Policy\<close>

definition READ_VERBS :: "string list" where
  "READ_VERBS = [''get'', ''list'', ''watch'']"

definition WRITE_VERBS :: "string list" where
  "WRITE_VERBS = [''create'', ''update'', ''patch'', ''delete'', ''deletecollection'', ''apply'', ''bind'']"

definition FORBIDDEN_KINDS :: "string list" where
  "FORBIDDEN_KINDS = [''Secret'']"

definition FORBIDDEN_SUBRESOURCES :: "string list" where
  "FORBIDDEN_SUBRESOURCES = [''exec'', ''attach'', ''portforward'', ''proxy'', ''eviction'']"

definition MAX_SELECTOR_CHARS :: nat where "MAX_SELECTOR_CHARS = 256"
definition MAX_SELECTOR_TERMS :: nat where "MAX_SELECTOR_TERMS = 8"

record KubernetesPolicy =
  kp_cluster_alias :: string
  kp_allowed_namespaces :: "string list"
  kp_allowed_kinds :: "string list"

record KubernetesClient =
  kc_base :: Url
  kc_policy :: KubernetesPolicy
  kc_bearer :: "string option"

definition policy_from_scope :: "KubernetesScope \<Rightarrow> KubernetesPolicy" where
  "policy_from_scope scope = \<lparr>kp_cluster_alias = ks_cluster_alias scope,
     kp_allowed_namespaces = ks_allowed_namespaces scope, kp_allowed_kinds = ks_allowed_kinds scope\<rparr>"

definition normalize_kind :: "string \<Rightarrow> string" where
  "normalize_kind kind =
     (let k = to_ascii_lowercase kind in
      if k = ''namespaces'' then ''Namespace''
      else if k \<in> {''pods'', ''pod''} then ''Pod''
      else if k \<in> {''services'', ''svc'', ''service''} then ''Service''
      else if k \<in> {''deployments'', ''deploy'', ''deployment''} then ''Deployment''
      else if k \<in> {''statefulsets'', ''sts'', ''statefulset''} then ''StatefulSet''
      else if k \<in> {''daemonsets'', ''ds'', ''daemonset''} then ''DaemonSet''
      else if k \<in> {''jobs'', ''job''} then ''Job''
      else if k \<in> {''nodes'', ''node''} then ''Node''
      else if k \<in> {''events'', ''event''} then ''Event''
      else if k \<in> {''endpointslices'', ''endpointslice''} then ''EndpointSlice''
      else kind)"

definition allows_kind :: "KubernetesPolicy \<Rightarrow> string \<Rightarrow> bool" where
  "allows_kind p kind0 =
     (let kind = normalize_kind kind0
      in \<not> list_ex (\<lambda>item. eq_ignore_ascii_case item kind) FORBIDDEN_KINDS \<and>
         list_ex (\<lambda>allowed. eq_ignore_ascii_case allowed kind) (kp_allowed_kinds p))"

definition allows_namespace :: "KubernetesPolicy \<Rightarrow> string \<Rightarrow> bool" where
  "allows_namespace p ns = list_ex (\<lambda>allowed. allowed = ns) (kp_allowed_namespaces p)"

definition rejects_write_verb :: "string \<Rightarrow> bool" where
  "rejects_write_verb verb = list_ex (\<lambda>item. eq_ignore_ascii_case item verb) WRITE_VERBS"

definition new_kube_client :: "'w io \<Rightarrow> string \<Rightarrow> KubernetesPolicy \<Rightarrow> KubernetesClient result" where
  "new_kube_client I base_url p =
     (case url_parse I base_url of
        Inl err \<Rightarrow> Inl (OpsCodexError.Tool (''invalid Kubernetes API URL: '' @ err))
      | Inr base \<Rightarrow>
          if url_scheme base \<notin> {''http'', ''https''}
          then Inl (OpsCodexError.Tool ''Kubernetes API URL must use http or https'')
          else if url_username base \<noteq> [] \<or> url_password base \<noteq> None
          then Inl (OpsCodexError.Policy ''Kubernetes API URL cannot contain credentials'')
          else Inr \<lparr>kc_base = base\<lparr>url_query := None, url_fragment := None\<rparr>, kc_policy = p, kc_bearer = None\<rparr>)"

definition ensure_get :: "unit result" where
  "ensure_get = (if ''get'' \<in> set READ_VERBS then Inr ()
     else Inl (OpsCodexError.Policy ''Kubernetes connector is not read-only''))"

definition authorize :: "KubernetesClient \<Rightarrow> string \<Rightarrow> string option \<Rightarrow> unit result" where
  "authorize c kind namespace =
     (if \<not> allows_kind (kc_policy c) kind
      then Inl (OpsCodexError.Policy (''Kubernetes kind `'' @ kind @ ''` is not allowlisted in cluster ''
             @ kp_cluster_alias (kc_policy c)))
      else if kind = ''Node'' then Inr ()
      else and_then (ok_or (OpsCodexError.Policy (''Kubernetes kind `'' @ kind @ ''` requires a namespace'')) namespace) (\<lambda>ns.
        if \<not> allows_namespace (kc_policy c) ns
        then Inl (OpsCodexError.Policy (''namespace `'' @ ns @ ''` is outside workspace allowlist''))
        else Inr ()))"

section \<open>Paths\<close>

definition namespaced :: "string \<Rightarrow> string option \<Rightarrow> string \<Rightarrow> string \<Rightarrow> string result" where
  "namespaced pre namespace resource name_suffix =
     and_then (ok_or (OpsCodexError.Policy (''Kubernetes resource `'' @ resource @ ''` requires a namespace'')) namespace)
       (\<lambda>ns. Inr (pre @ ''/'' @ ns @ ''/'' @ resource @ name_suffix))"

definition resource_path :: "string \<Rightarrow> string option \<Rightarrow> string option \<Rightarrow> string result" where
  "resource_path kind namespace name =
     (let name_suffix = (case name of None \<Rightarrow> [] | Some n \<Rightarrow> ''/'' @ n) in
      if kind = ''Namespace'' then
        and_then (ok_or (OpsCodexError.Policy ''k8s_get Namespace requires name'') name)
          (\<lambda>n. Inr (''/api/v1/namespaces/'' @ n))
      else if kind = ''Node'' then
        and_then (ok_or (OpsCodexError.Policy ''k8s_get Node requires name'') name)
          (\<lambda>n. Inr (''/api/v1/nodes/'' @ n))
      else if kind = ''Pod'' then namespaced ''/api/v1/namespaces'' namespace ''pods'' name_suffix
      else if kind = ''Service'' then namespaced ''/api/v1/namespaces'' namespace ''services'' name_suffix
      else if kind = ''Event'' then namespaced ''/api/v1/namespaces'' namespace ''events'' name_suffix
      else if kind = ''Deployment'' then namespaced ''/apis/apps/v1/namespaces'' namespace ''deployments'' name_suffix
      else if kind = ''StatefulSet'' then namespaced ''/apis/apps/v1/namespaces'' namespace ''statefulsets'' name_suffix
      else if kind = ''DaemonSet'' then namespaced ''/apis/apps/v1/namespaces'' namespace ''daemonsets'' name_suffix
      else if kind = ''Job'' then namespaced ''/apis/batch/v1/namespaces'' namespace ''jobs'' name_suffix
      else if kind = ''EndpointSlice'' then
        namespaced ''/apis/discovery.k8s.io/v1/namespaces'' namespace ''endpointslices'' name_suffix
      else Inl (OpsCodexError.Policy (''Kubernetes kind `'' @ kind @ ''` is not a discovered GVK'')))"

definition forbidden_path :: "string \<Rightarrow> bool" where
  "forbidden_path path = list_ex (\<lambda>item. list_ex (\<lambda>segment. eq_ignore_ascii_case segment item)
     (split_on CHR ''/'' path)) FORBIDDEN_SUBRESOURCES"

definition kube_join :: "'w io \<Rightarrow> KubernetesClient \<Rightarrow> string \<Rightarrow> Url result" where
  "kube_join I c path =
     (if forbidden_path path then Inl (OpsCodexError.Policy ''Kubernetes subresource is not permitted'')
      else let pre = trim_end_char CHR ''/'' (url_path (kc_base c));
               suf = (if starts_with ''/'' path then path else ''/'' @ path)
           in Inr (url_set_path I (pre @ suf) (kc_base c)))"

definition validate_selector :: "string \<Rightarrow> unit result" where
  "validate_selector selector =
     (if MAX_SELECTOR_CHARS < length selector
      then Inl (OpsCodexError.Policy ''label selector exceeds workspace limit'')
      else if MAX_SELECTOR_TERMS < length (filter (\<lambda>item. trim item \<noteq> []) (split_on CHR '','' selector))
      then Inl (OpsCodexError.Policy ''label selector has too many terms'')
      else Inr ())"

section \<open>Answers\<close>

definition sensitive_annotation :: "string \<Rightarrow> bool" where
  "sensitive_annotation key =
     (let lower = to_ascii_lowercase key
      in str_contains ''token'' lower \<or> str_contains ''secret'' lower \<or> str_contains ''password'' lower \<or>
         str_contains ''kubeadm.kubernetes.io/kube-apiserver.advertise-address.endpoint'' lower)"

definition sanitize_metadata :: "json \<Rightarrow> json" where
  "sanitize_metadata m =
     (case m of
        JObj kvs \<Rightarrow> JObj (map (\<lambda>(k, v). (k,
            if k = ''annotations'' then (case v of
                JObj anns \<Rightarrow> JObj (filter (\<lambda>(key, _). \<not> sensitive_annotation key) anns) | _ \<Rightarrow> v)
            else v))
          (filter (\<lambda>(k, _). k \<noteq> ''managedFields'') kvs))
      | _ \<Rightarrow> m)"

fun sanitize_object :: "json \<Rightarrow> json" and sanitize_list :: "json list \<Rightarrow> json list"
  and sanitize_fields :: "(string \<times> json) list \<Rightarrow> (string \<times> json) list" where
  "sanitize_object (JObj kvs) = JObj (sanitize_fields kvs)"
| "sanitize_object (JArr js) = JArr (sanitize_list js)"
| "sanitize_object j = j"
| "sanitize_list [] = []"
| "sanitize_list (j # js) = sanitize_object j # sanitize_list js"
| "sanitize_fields [] = []"
| "sanitize_fields ((k, v) # kvs) =
     (if k \<in> {''data'', ''stringData'', ''managedFields''} then sanitize_fields kvs
      else (k, if k = ''metadata'' then sanitize_metadata v
               else if k = ''items'' then (case v of JArr js \<Rightarrow> JArr (sanitize_list js) | _ \<Rightarrow> v)
               else if k \<in> {''spec'', ''status''} then sanitize_object v
               else v) # sanitize_fields kvs)"

section \<open>Requests\<close>

definition send_request :: "'w io \<Rightarrow> string \<Rightarrow> HttpRequest \<Rightarrow> ('w, nat \<times> BodyEvent list) op" where
  "send_request I timeout_message rq w =
     (case io_send I rq w of
        (SendCancelled, w') \<Rightarrow> (Inl OpsCodexError.Cancelled, w')
      | (SendTimedOut, w') \<Rightarrow> (Inl (OpsCodexError.Timeout timeout_message), w')
      | (SendFailed err, w') \<Rightarrow> (Inl (OpsCodexError.Connector ConnectorClass.Unavailable err), w')
      | (SendResponse status body, w') \<Rightarrow> (Inr (status, body), w'))"

definition parse_body :: "'w io \<Rightarrow> bytes \<Rightarrow> json result" where
  "parse_body I bs = (case json_parse I bs of
       Inl err \<Rightarrow> Inl (OpsCodexError.Connector ConnectorClass.MalformedData err) | Inr j \<Rightarrow> Inr j)"

definition kube_body :: "'w io \<Rightarrow> nat \<Rightarrow> BodyEvent list \<Rightarrow> (bytes \<times> bool) result" where
  "kube_body I status body =
     and_then (read_bounded_body body (64 * 1024)) (\<lambda>(bs, truncated).
       if \<not> is_success status then Inl (http_status_error I ''kubernetes'' status (from_utf8_lossy bs))
       else Inr (bs, truncated))"

definition get_request :: "KubernetesClient \<Rightarrow> Url \<Rightarrow> HttpRequest" where
  "get_request c url = \<lparr>rq_method = GET, rq_url = url, rq_headers = [], rq_bearer = kc_bearer c,
     rq_body = None, rq_timeout_secs = 15\<rparr>"

definition send_get_bytes :: "'w io \<Rightarrow> KubernetesClient \<Rightarrow> Url \<Rightarrow> ('w, bytes \<times> bool) op" where
  "send_get_bytes I c url =
     sbind (send_request I ''kubernetes request timed out'' (get_request c url)) (\<lambda>(status, body).
       slift (kube_body I status body))"

definition send_get :: "'w io \<Rightarrow> KubernetesClient \<Rightarrow> Url \<Rightarrow> ('w, json) op" where
  "send_get I c url = sbind (send_get_bytes I c url) (\<lambda>(bs, _). slift (parse_body I bs))"

definition clamp :: "nat \<Rightarrow> nat \<Rightarrow> nat \<Rightarrow> nat" where
  "clamp lo hi n = (if n < lo then lo else if hi < n then hi else n)"

definition get_resource ::
    "'w io \<Rightarrow> KubernetesClient \<Rightarrow> string \<Rightarrow> string option \<Rightarrow> string option \<Rightarrow> string option \<Rightarrow> nat \<Rightarrow> ('w, json) op" where
  "get_resource I c kind0 namespace name label_selector limit =
     (let kind = normalize_kind kind0 in
      sbind (slift ensure_get) (\<lambda>_.
      sbind (slift (authorize c kind namespace)) (\<lambda>_.
      sbind (slift (case label_selector of None \<Rightarrow> Inr () | Some s \<Rightarrow> validate_selector s)) (\<lambda>_.
      sbind (slift (and_then (resource_path kind namespace name) (kube_join I c))) (\<lambda>url.
        let pairs = (if name = None then [(''limit'', show_nat (clamp 1 50 limit))] else [])
              @ (case label_selector of None \<Rightarrow> [] | Some s \<Rightarrow> [(''labelSelector'', s)])
        in sbind (send_get I c (url_append_pairs I pairs url)) (\<lambda>object. sret (sanitize_object object)))))))"

definition list_events ::
    "'w io \<Rightarrow> KubernetesClient \<Rightarrow> string \<Rightarrow> string option \<Rightarrow> string option \<Rightarrow> string option \<Rightarrow> nat \<Rightarrow> ('w, json) op" where
  "list_events I c namespace involved_kind involved_name reason limit =
     sbind (slift ensure_get) (\<lambda>_.
     sbind (slift (authorize c ''Event'' (Some namespace))) (\<lambda>_.
     sbind (slift (kube_join I c (''/api/v1/namespaces/'' @ namespace @ ''/events''))) (\<lambda>url.
       let selectors =
             (case involved_kind of None \<Rightarrow> [] | Some k \<Rightarrow> [''involvedObject.kind='' @ normalize_kind k])
             @ (case involved_name of None \<Rightarrow> [] | Some n \<Rightarrow> [''involvedObject.name='' @ n])
             @ (case reason of None \<Rightarrow> [] | Some r \<Rightarrow> [''reason='' @ r]);
           pairs = (''limit'', show_nat (clamp 1 50 limit))
             # (if selectors \<noteq> [] then [(''fieldSelector'', join_with '','' selectors)] else [])
       in sbind (send_get I c (url_append_pairs I pairs url)) (\<lambda>object. sret (sanitize_object object)))))"

definition workload_kind :: "string \<Rightarrow> unit result" where
  "workload_kind kind = (if kind \<in> {''Deployment'', ''StatefulSet''} then Inr ()
     else Inl (OpsCodexError.Policy ''workload scale only supports Deployment or StatefulSet''))"

definition get_workload :: "'w io \<Rightarrow> KubernetesClient \<Rightarrow> string \<Rightarrow> string \<Rightarrow> string \<Rightarrow> ('w, json) op" where
  "get_workload I c kind0 namespace name =
     (let kind = normalize_kind kind0 in
      sbind (slift (workload_kind kind)) (\<lambda>_.
      sbind (slift (authorize c kind (Some namespace))) (\<lambda>_.
      sbind (slift (and_then (resource_path kind (Some namespace) (Some name)) (kube_join I c))) (\<lambda>url.
      sbind (send_get I c url) (\<lambda>object. sret (sanitize_object object))))))"

definition patch_body :: "string \<Rightarrow> string \<Rightarrow> string \<Rightarrow> nat \<Rightarrow> string \<Rightarrow> string \<Rightarrow> json" where
  "patch_body kind namespace name replicas resource_version operation_id =
     JObj [(''apiVersion'', JStr ''apps/v1''), (''kind'', JStr kind),
       (''metadata'', JObj [(''annotations'', JObj [(''opscodex.io/operation-id'', JStr operation_id)]),
          (''name'', JStr name), (''namespace'', JStr namespace),
          (''resourceVersion'', JStr resource_version)]),
       (''spec'', JObj [(''replicas'', JNum (int replicas))])]"

definition patch_request :: "KubernetesClient \<Rightarrow> Url \<Rightarrow> json \<Rightarrow> HttpRequest" where
  "patch_request c url body = \<lparr>rq_method = PATCH, rq_url = url,
     rq_headers = [(''content-type'', ''application/strategic-merge-patch+json'')],
     rq_bearer = kc_bearer c, rq_body = Some body, rq_timeout_secs = 15\<rparr>"

definition patch_replicas ::
    "'w io \<Rightarrow> KubernetesClient \<Rightarrow> string \<Rightarrow> string \<Rightarrow> string \<Rightarrow> nat \<Rightarrow> string \<Rightarrow> string \<Rightarrow> bool \<Rightarrow> ('w, json) op" where
  "patch_replicas I c kind0 namespace name replicas resource_version operation_id dry_run =
     (let kind = normalize_kind kind0 in
      sbind (slift (workload_kind kind)) (\<lambda>_.
      sbind (slift (authorize c kind (Some namespace))) (\<lambda>_.
      sbind (slift (and_then (resource_path kind (Some namespace) (Some name)) (kube_join I c))) (\<lambda>url.
        let url = (if dry_run then url_append_pairs I [(''dryRun'', ''All'')] url else url);
            body = patch_body kind namespace name replicas resource_version operation_id
        in sbind (send_request I ''kubernetes patch timed out'' (patch_request c url body)) (\<lambda>(status, events).
           sbind (slift (kube_body I status events)) (\<lambda>(bs, _).
           sbind (slift (parse_body I bs)) (\<lambda>object. sret (sanitize_object object))))))))"


section \<open>Lemmas\<close>

text \<open>
  The scope of a client: the requests about one resource that its allow list permits, before query
  pairs are added.
\<close>

definition in_scope ::
    "'w io \<Rightarrow> KubernetesClient \<Rightarrow> string \<Rightarrow> string option \<Rightarrow> string option \<Rightarrow> Url \<Rightarrow> bool" where
  "in_scope I c kind namespace name url \<longleftrightarrow>
     kind \<noteq> ''Secret'' \<and> (\<exists>allowed \<in> set (kp_allowed_kinds (kc_policy c)). eq_ignore_ascii_case allowed (normalize_kind kind)) \<and>
     (kind \<noteq> ''Node'' \<longrightarrow> (\<exists>ns \<in> set (kp_allowed_namespaces (kc_policy c)). namespace = Some ns)) \<and>
     (\<exists>path. resource_path kind namespace name = Inr path \<and> \<not> forbidden_path path \<and>
        url = url_set_path I (trim_end_char CHR ''/'' (url_path (kc_base c)) @ path) (kc_base c))"

lemma normalize_Secret: "normalize_kind ''Secret'' = ''Secret''"
  by code_simp

lemma allows_kindD:
  "allows_kind p kind \<Longrightarrow> kind \<noteq> ''Secret'' \<and>
     (\<exists>allowed \<in> set (kp_allowed_kinds p). eq_ignore_ascii_case allowed (normalize_kind kind))"
proof
  assume a: "allows_kind p kind"
  then show "\<exists>allowed \<in> set (kp_allowed_kinds p). eq_ignore_ascii_case allowed (normalize_kind kind)"
    by (auto simp: allows_kind_def Let_def list_ex_iff)
  show "kind \<noteq> ''Secret''"
  proof
    assume "kind = ''Secret''"
    with a show False
      by (simp add: allows_kind_def Let_def FORBIDDEN_KINDS_def eq_ignore_ascii_case_def normalize_Secret)
  qed
qed

lemma authorize_Inr:
  "authorize c kind namespace = Inr () \<Longrightarrow> allows_kind (kc_policy c) kind \<and>
     (kind \<noteq> ''Node'' \<longrightarrow> (\<exists>ns \<in> set (kp_allowed_namespaces (kc_policy c)). namespace = Some ns))"
  by (auto simp: authorize_def and_then_Inr_iff allows_namespace_def list_ex_iff split: if_splits)

lemma kube_join_Inr:
  "kube_join I c path = Inr url \<Longrightarrow> \<exists>path'. \<not> forbidden_path path \<and>
     (path' = path \<or> path' = ''/'' @ path) \<and>
     url = url_set_path I (trim_end_char CHR ''/'' (url_path (kc_base c)) @ path') (kc_base c)"
  by (auto simp: kube_join_def Let_def split: if_splits)

lemma namespaced_slash: "namespaced pre ns resource suf = Inr path \<Longrightarrow> starts_with ''/'' pre \<Longrightarrow> starts_with ''/'' path"
  by (cases pre) (auto simp: namespaced_def and_then_Inr_iff starts_with_def)

lemma resource_path_slash: "resource_path kind ns name = Inr path \<Longrightarrow> starts_with ''/'' path"
  by (auto simp: resource_path_def Let_def and_then_Inr_iff dest!: namespaced_slash split: if_splits)
     (auto simp: starts_with_def)

lemma resource_url_in_scope:
  assumes "authorize c kind namespace = Inr ()" and "resource_path kind namespace name = Inr path"
    and "kube_join I c path = Inr url"
  shows "in_scope I c kind namespace name url"
proof -
  from resource_path_slash [OF assms(2)] assms(3) have "\<not> forbidden_path path"
    "url = url_set_path I (trim_end_char CHR ''/'' (url_path (kc_base c)) @ path) (kc_base c)"
    by (auto simp: kube_join_def Let_def split: if_splits)
  with assms(2) authorize_Inr [OF assms(1)] allows_kindD [of "kc_policy c" kind] show ?thesis
    by (auto simp: in_scope_def)
qed

text \<open>A request changes the world by exactly one \<open>send\<close>.\<close>

lemma send_request_world: "snd (send_request I msg rq w) = snd (io_send I rq w)"
  by (auto simp: send_request_def split: prod.splits SendOutcome.splits)

lemma sbind_world_slift: "snd (sbind m (\<lambda>x. slift (f x)) w) = snd (m w)"
  by (auto simp: sbind_def slift_def split: prod.splits sum.splits)

lemma sbind_world_sret: "snd (sbind m (\<lambda>x. sret (f x)) w) = snd (m w)"
  by (auto simp: sbind_def sret_def split: prod.splits sum.splits)

lemma send_get_world: "snd (send_get I c url w) = snd (io_send I (get_request c url) w)"
  using sbind_world_slift [of "send_get_bytes I c url" "\<lambda>(bs, _). parse_body I bs" w]
    sbind_world_slift [of "send_request I ''kubernetes request timed out'' (get_request c url)"
      "\<lambda>(status, body). kube_body I status body" w]
  by (simp add: send_get_def send_get_bytes_def send_request_world case_prod_unfold)

lemma sbind_slift_cases:
  "(\<exists>err. r = Inl err \<and> sbind (slift r) f w = (Inl err, w)) \<or> (\<exists>x. r = Inr x \<and> sbind (slift r) f w = f x w)"
  by (cases r) (auto simp: sm_simps)

lemma guarded_world:
  "(\<And>x. r = Inr x \<Longrightarrow> P (snd (f x w))) \<Longrightarrow> P w \<Longrightarrow> P (snd (sbind (slift r) f w))"
  using sbind_slift_cases [of r f w] by auto

lemma scoped_world:
  assumes "authorize c kind namespace = Inr ()"
    and "\<And>url. in_scope I c kind namespace name url \<Longrightarrow> P (snd (f url w))" and "P w"
  shows "P (snd (sbind (slift (and_then (resource_path kind namespace name) (kube_join I c))) f w))"
proof (rule guarded_world [where P = P])
  show "P (snd (f url w))" if "and_then (resource_path kind namespace name) (kube_join I c) = Inr url" for url
    using that assms(1,2) by (auto simp: and_then_Inr_iff dest: resource_url_in_scope)
qed (rule assms(3))

lemma get_workload_world:
  "snd (get_workload I c kind namespace name w) = w \<or>
   (\<exists>url. in_scope I c (normalize_kind kind) (Some namespace) (Some name) url \<and>
      snd (get_workload I c kind namespace name w) = snd (io_send I (get_request c url) w))"
  (is "?P (snd (get_workload I c kind namespace name w))")
  unfolding get_workload_def Let_def
  by (rule guarded_world [where P = ?P], rule guarded_world [where P = ?P], rule scoped_world [where P = ?P])
     (simp_all add: sbind_world_sret send_get_world, blast)

lemma get_resource_world:
  "snd (get_resource I c kind namespace name selector limit w) = w \<or>
   (\<exists>url pairs. in_scope I c (normalize_kind kind) namespace name url \<and>
      snd (get_resource I c kind namespace name selector limit w) =
        snd (io_send I (get_request c (url_append_pairs I pairs url)) w))"
  (is "?P (snd (get_resource I c kind namespace name selector limit w))")
  unfolding get_resource_def Let_def
  by (rule guarded_world [where P = ?P], rule guarded_world [where P = ?P], rule guarded_world [where P = ?P],
      rule scoped_world [where P = ?P])
     (auto simp: sbind_world_sret send_get_world)

lemma patch_replicas_world:
  "snd (patch_replicas I c kind namespace name replicas rv oper dry_run w) = w \<or>
   (\<exists>url. in_scope I c (normalize_kind kind) (Some namespace) (Some name) url \<and>
      normalize_kind kind \<in> {''Deployment'', ''StatefulSet''} \<and>
      snd (patch_replicas I c kind namespace name replicas rv oper dry_run w) =
        snd (io_send I (patch_request c (if dry_run then url_append_pairs I [(''dryRun'', ''All'')] url else url)
          (patch_body (normalize_kind kind) namespace name replicas rv oper)) w))"
  (is "?P (snd (patch_replicas I c kind namespace name replicas rv oper dry_run w))")
proof -
  have inner: "snd (sbind (send_request I msg rq) (\<lambda>(status, events).
      sbind (slift (kube_body I status events)) (\<lambda>(bs, _).
      sbind (slift (parse_body I bs)) (\<lambda>object. sret (sanitize_object object)))) w) = snd (io_send I rq w)" for msg rq
    by (auto simp: sbind_def slift_def sret_def send_request_world [symmetric, of I rq w msg]
        split: prod.splits sum.splits)
  show ?thesis
    unfolding patch_replicas_def Let_def
    by (rule guarded_world [where P = ?P], rule guarded_world [where P = ?P], rule scoped_world [where P = ?P])
       (auto simp: inner workload_kind_def split: if_splits)
qed

text \<open>What becomes of one field of an object.\<close>

definition sanitize_field :: "string \<Rightarrow> json \<Rightarrow> json" where
  "sanitize_field k v = (if k = ''metadata'' then sanitize_metadata v
     else if k = ''items'' then (case v of JArr js \<Rightarrow> JArr (sanitize_list js) | _ \<Rightarrow> v)
     else if k \<in> {''spec'', ''status''} then sanitize_object v else v)"

lemma map_of_sanitize_fields:
  "map_of (sanitize_fields kvs) k =
     (if k \<in> {''data'', ''stringData'', ''managedFields''} then None
      else map_option (sanitize_field k) (map_of kvs k))"
proof (induction kvs)
  case (Cons x kvs)
  obtain k' v where x: "x = (k', v)" by fastforce
  have "sanitize_fields (x # kvs) = (if k' \<in> {''data'', ''stringData'', ''managedFields''} then sanitize_fields kvs
      else (k', sanitize_field k' v) # sanitize_fields kvs)"
    unfolding x sanitize_field_def by (rule sanitize_fields.simps)
  moreover define D where "D = {''data'', ''stringData'', ''managedFields''}"
  ultimately have "sanitize_fields (x # kvs) =
      (if k' \<in> D then sanitize_fields kvs else (k', sanitize_field k' v) # sanitize_fields kvs)" by simp
  with Cons [folded D_def] show ?case unfolding D_def [symmetric] by (auto simp del: sanitize_fields.simps simp add: x)
qed simp

lemma json_get_sanitize:
  "json_get k (sanitize_object j) =
     (if k \<in> {''data'', ''stringData'', ''managedFields''} then None
      else map_option (sanitize_field k) (json_get k j))"
  by (cases j) (simp_all add: map_of_sanitize_fields)

lemma map_of_map_value: "map_of (map (\<lambda>(k, v). (k, f k v)) kvs) k = map_option (f k) (map_of kvs k)"
  by (induction kvs) auto

lemma map_of_filter_key: "map_of (filter (\<lambda>(k, _). P k) kvs) k = (if P k then map_of kvs k else None)"
  by (induction kvs) auto

lemma json_get_metadata:
  "k \<notin> {''annotations'', ''managedFields''} \<Longrightarrow> json_get k (sanitize_metadata m) = json_get k m"
  by (cases m) (simp_all add: sanitize_metadata_def map_of_map_value map_of_filter_key option.map_ident)

lemma sensitive_annotation_gone:
  "sensitive_annotation key \<Longrightarrow> json_pointer [''annotations'', key] (sanitize_metadata m) = None"
proof (cases m)
  case (JObj kvs)
  assume "sensitive_annotation key"
  then show ?thesis
    by (cases "map_of kvs ''annotations''"; cases "the (map_of kvs ''annotations'')")
       (simp_all add: JObj sanitize_metadata_def map_of_map_value map_of_filter_key)
qed (simp_all add: sanitize_metadata_def)

section \<open>Properties\<close>


text \<open>
  Answers are cleaned without losing what is compared. Of every object the client returns, the
  payload fields of a secret and the managed fields are gone, at the top, in its specification and in
  its status, and so is every annotation whose name speaks of a token, a secret or a password. All
  other metadata, in particular the identity and the resource version that remediation compares
  before it writes, and the number of replicas it verifies afterwards, are what the server sent.
\<close>

theorem sanitizing_keeps_preconditions:
  "(k \<in> {''data'', ''stringData'', ''managedFields''} \<longrightarrow>
      json_get k (sanitize_object j) = None \<and> json_pointer [''spec'', k] (sanitize_object j) = None \<and>
      json_pointer [''status'', k] (sanitize_object j) = None) \<and>
   (sensitive_annotation a \<longrightarrow> json_pointer [''metadata'', ''annotations'', a] (sanitize_object j) = None) \<and>
   (m \<notin> {''annotations'', ''managedFields''} \<longrightarrow>
      json_pointer [''metadata'', m] (sanitize_object j) = json_pointer [''metadata'', m] j) \<and>
   json_pointer [''spec'', ''replicas''] (sanitize_object j) = json_pointer [''spec'', ''replicas''] j \<and>
   json_pointer [''status'', ''availableReplicas''] (sanitize_object j) =
     json_pointer [''status'', ''availableReplicas''] j"
proof (intro conjI impI)
  assume k: "k \<in> {''data'', ''stringData'', ''managedFields''}"
  then show "json_get k (sanitize_object j) = None" by (simp add: json_get_sanitize)
  show "json_pointer [''spec'', k] (sanitize_object j) = None"
    using k by (cases "json_get ''spec'' j") (simp_all add: json_get_sanitize sanitize_field_def)
  show "json_pointer [''status'', k] (sanitize_object j) = None"
    using k by (cases "json_get ''status'' j") (simp_all add: json_get_sanitize sanitize_field_def)
next
  assume "sensitive_annotation a"
  then show "json_pointer [''metadata'', ''annotations'', a] (sanitize_object j) = None"
    by (cases "json_get ''metadata'' j")
       (auto simp: json_get_sanitize sanitize_field_def dest: sensitive_annotation_gone)
next
  assume "m \<notin> {''annotations'', ''managedFields''}"
  then show "json_pointer [''metadata'', m] (sanitize_object j) = json_pointer [''metadata'', m] j"
    by (cases "json_get ''metadata'' j") (simp_all add: json_get_sanitize sanitize_field_def json_get_metadata)
next
  have num: "map_option (sanitize_field f) x = x" if "f \<in> {''replicas'', ''availableReplicas''}" for f x
    using that by (cases x) (auto simp: sanitize_field_def)
  show "json_pointer [''spec'', ''replicas''] (sanitize_object j) = json_pointer [''spec'', ''replicas''] j"
    by (cases "json_get ''spec'' j")
       (simp_all add: json_get_sanitize sanitize_field_def [of "''spec''"] num)
  show "json_pointer [''status'', ''availableReplicas''] (sanitize_object j) =
      json_pointer [''status'', ''availableReplicas''] j"
    by (cases "json_get ''status'' j")
       (simp_all add: json_get_sanitize sanitize_field_def [of "''status''"] num)
qed

theorem sanitizing_keeps_preconditions_witness:
  "json_get ''data'' (sanitize_object (JObj [(''data'', JStr ''x''), (''metadata'', JObj [(''uid'', JStr ''u'')])])) = None \<and>
   json_pointer [''metadata'', ''uid'']
     (sanitize_object (JObj [(''data'', JStr ''x''), (''metadata'', JObj [(''uid'', JStr ''u'')])])) = Some (JStr ''u'')"
  using sanitizing_keeps_preconditions [of "''data''"
      "JObj [(''data'', JStr ''x''), (''metadata'', JObj [(''uid'', JStr ''u'')])]" "''x''" "''uid''"]
  by simp

text \<open>
  The name of a resource is not checked: one with parent segments passes the allow list of the
  namespace it names first, and the path handed to the URL library still has those segments, which
  that library resolves to a resource of another kind or namespace.
\<close>

lemma dot_segments_pass_the_allow_list:
  assumes "kc_policy c = \<lparr>kp_cluster_alias = ''a'', kp_allowed_namespaces = [''demo''], kp_allowed_kinds = [''Pod'']\<rparr>"
    and "url_path (kc_base c) = ''/''"
  shows "authorize c ''Pod'' (Some ''demo'') = Inr () \<and>
    and_then (resource_path ''Pod'' (Some ''demo'') (Some ''../../kube-system/secrets/db'')) (kube_join I c) =
      Inr (url_set_path I ''/api/v1/namespaces/demo/pods/../../kube-system/secrets/db'' (kc_base c))"
proof -
  have "allows_kind (kc_policy c) ''Pod''"
    unfolding assms(1) by code_simp
  moreover have "allows_namespace (kc_policy c) ''demo''"
    unfolding assms(1) by (simp add: allows_namespace_def)
  ultimately have "authorize c ''Pod'' (Some ''demo'') = Inr ()" by (simp add: authorize_def)
  moreover have "forbidden_path ''/api/v1/namespaces/demo/pods/../../kube-system/secrets/db'' = False"
    by code_simp
  ultimately show ?thesis
    by (simp add: resource_path_def namespaced_def kube_join_def assms(2) trim_end_char_def starts_with_def)
qed

end
