(* ===== verification/Remediation.thy ===== *)
theory Remediation
  imports SqliteRuntime KubeClient
begin

text \<open>
  Remediation (\<open>src/runtime/remediation.rs\<close>, \<open>src/action/runner.rs\<close> and the action part of the
  recovery in \<open>src/runtime/agent.rs\<close>): proposing an action with a dry run, approving it, executing it
  under the kill switch, and settling at start-up what a crash left open.

  The handlers run on the store, the remediation settings and the outside world. The lemmas show that
  an action only ever moves along the status machine, that approval binds exactly what was reviewed,
  that nothing is sent while the kill switch is on or without a claimed approval, and that a dry run
  changes nothing.
\<close>

section \<open>State\<close>

record RemediationRuntime =
  rem_enabled :: bool
  rem_kill_switch :: bool
  rem_production_safe :: bool
  rem_demo_fault_url :: string
  rem_kube :: "(string \<times> KubernetesClient) list"
  rem_approval_ttl :: time
  rem_operator :: string
  rem_mutation_count :: nat

text \<open>The approval time is the duration after conversion to the clock's unit.\<close>

definition new_remediation ::
    "bool \<Rightarrow> bool \<Rightarrow> bool \<Rightarrow> string \<Rightarrow> (string \<times> KubernetesClient) list \<Rightarrow> time \<Rightarrow> string \<Rightarrow> RemediationRuntime" where
  "new_remediation enabled kill_switch production_safe demo_fault_url kube approval_ttl operator =
     \<lparr>rem_enabled = enabled, rem_kill_switch = kill_switch, rem_production_safe = production_safe,
      rem_demo_fault_url = demo_fault_url, rem_kube = kube, rem_approval_ttl = approval_ttl,
      rem_operator = operator, rem_mutation_count = 0\<rparr>"

definition remediation_disabled :: "time \<Rightarrow> string \<Rightarrow> RemediationRuntime" where
  "remediation_disabled half_hour operator =
     new_remediation False False False ''http://127.0.0.1:8080'' [] half_hour operator"

text \<open>What the handlers read and change: the store, the settings, the workspaces and the world.\<close>

record 'w sys =
  sys_db :: db
  sys_rem :: RemediationRuntime
  sys_workspaces :: WorkspaceCatalog
  sys_world :: 'w

definition on_db :: "(db, 'a) op \<Rightarrow> ('w sys, 'a) op" where
  "on_db m s = (case m (sys_db s) of (r, d) \<Rightarrow> (r, s\<lparr>sys_db := d\<rparr>))"

definition on_world :: "('w, 'a) op \<Rightarrow> ('w sys, 'a) op" where
  "on_world m s = (case m (sys_world s) of (r, w) \<Rightarrow> (r, s\<lparr>sys_world := w\<rparr>))"

text \<open>\<open>if let Err(error) = ...\<close>: the result is looked at instead of returned.\<close>

definition sattempt :: "('e, 's, 'a) sm \<Rightarrow> ('e, 's, 'e + 'a) sm" where
  "sattempt m s = (case m s of (r, s') \<Rightarrow> (Inr r, s'))"

definition utc_now :: "'w io \<Rightarrow> ('w sys, time) op" where
  "utc_now I = on_world (sask (io_now I))"

definition fresh_uuid :: "'w io \<Rightarrow> ('w sys, uuid) op" where
  "fresh_uuid I = on_world (sask (io_uuid I))"

definition set_kill_switch :: "bool \<Rightarrow> ('w sys, unit) op" where
  "set_kill_switch on = supd (\<lambda>s. s\<lparr>sys_rem := (sys_rem s)\<lparr>rem_kill_switch := on\<rparr>\<rparr>)"

text \<open>The store draws the identifier and the time of an event it appends.\<close>

definition store_append :: "ext \<Rightarrow> 'w io \<Rightarrow> uuid \<Rightarrow> uuid option \<Rightarrow> RuntimeEvent \<Rightarrow> ('w sys, EventEnvelope) op" where
  "store_append E I thread_id turn_id event =
     sbind (fresh_uuid I) (\<lambda>i. sbind (utc_now I) (\<lambda>now.
       on_db (append_event E i now (new_append thread_id turn_id event))))"

definition emit_action :: "ext \<Rightarrow> 'w io \<Rightarrow> uuid \<Rightarrow> ActionRecord \<Rightarrow> ('w sys, EventEnvelope) op" where
  "emit_action E I thread_id action =
     store_append E I thread_id None
       (ActionUpdated (act_action_id action) (act_plan_id action) (status_as_str (act_status action))
          (act_tool_id action) (act_request_hash action) (review_summary E action))"

definition audit :: "ext \<Rightarrow> 'w io \<Rightarrow> string \<Rightarrow> string option \<Rightarrow> json \<Rightarrow> ('w sys, unit) op" where
  "audit E I operation workspace summary =
     sbind (utc_now I) (\<lambda>now. sbind (sgets (\<lambda>s. Inr (rem_operator (sys_rem s)))) (\<lambda>operator.
       on_db (append_audit E now operator workspace operation summary)))"

section \<open>Runners\<close>

record ExecutionOutcome =
  out_committed :: bool
  out_verified :: bool
  out_uncertain :: bool
  out_before :: json
  out_after :: json
  out_message :: string

definition validate_loopback_url :: "'w io \<Rightarrow> string \<Rightarrow> Url result" where
  "validate_loopback_url I v =
     (case url_parse I v of
        Inl err \<Rightarrow> Inl (OpsCodexError.Protocol (''invalid demo_fault_url: '' @ err))
      | Inr url \<Rightarrow>
          if url_scheme url \<noteq> ''http'' \<and> url_scheme url \<noteq> ''https''
          then Inl (OpsCodexError.Policy ''demo fault URL must use http or https'')
          else if url_username url \<noteq> [] \<or> url_password url \<noteq> None
          then Inl (OpsCodexError.Policy ''demo fault URL cannot contain credentials'')
          else if str_or [] (url_host url) \<notin> {''127.0.0.1'', ''localhost'', ''::1''}
          then Inl (OpsCodexError.Policy ''demo fault reset is limited to loopback hosts'')
          else Inr (if url_path url = [] \<or> last (url_path url) \<noteq> CHR ''/''
                    then url_set_path I (trim_end_char CHR ''/'' (url_path url) @ ''/'') url else url))"

definition metadata_string :: "json \<Rightarrow> string \<Rightarrow> string" where
  "metadata_string object field =
     str_or [] (Option.bind (json_pointer [''metadata'', field] object) json_as_str)"

definition demo_request :: "Method \<Rightarrow> Url \<Rightarrow> HttpRequest" where
  "demo_request m url = \<lparr>rq_method = m, rq_url = url, rq_headers = [], rq_bearer = None, rq_body = None,
     rq_timeout_secs = 10\<rparr>"

definition send_json :: "'w io \<Rightarrow> HttpRequest \<Rightarrow> ('w, json) op" where
  "send_json I rq =
     sbind (send_request I ''demo fault request timed out'' rq) (\<lambda>(status, body).
     sbind (slift (read_bounded_body body (16 * 1024))) (\<lambda>(bs, _).
       if \<not> is_success status
       then sfail (OpsCodexError.Tool (''demo fault endpoint returned '' @ status_display I status))
       else slift (parse_body I bs)))"

definition get_json :: "'w io \<Rightarrow> Url \<Rightarrow> ('w, json) op" where
  "get_json I url = send_json I (demo_request GET url)"

definition post_json :: "'w io \<Rightarrow> Url \<Rightarrow> ('w, json) op" where
  "post_json I url = send_json I (demo_request POST url)"

fun result_unknown :: "OpsCodexError \<Rightarrow> bool" where
  "result_unknown (OpsCodexError.Timeout _) = True"
| "result_unknown OpsCodexError.Cancelled = True"
| "result_unknown _ = False"

definition execute_demo_fault :: "'w io \<Rightarrow> string \<Rightarrow> bool \<Rightarrow> ('w, ExecutionOutcome) op" where
  "execute_demo_fault I base_url dry_run =
     sbind (slift (validate_loopback_url I base_url)) (\<lambda>base.
     sbind (get_json I (url_join_expect I base ''health'')) (\<lambda>health.
       let before_mode = str_or ''unknown'' (json_get_str ''mode'' health) in
       if dry_run then sret \<lparr>out_committed = False, out_verified = False, out_uncertain = False,
          out_before = health, out_after = JObj [(''would_set'', JStr ''normal'')],
          out_message = ''dry-run would POST /debug/fault/normal (current mode '' @ before_mode @ '')''\<rparr>
       else
         sbind (slift (case url_join I base ''debug/fault/normal'' of
             Inl err \<Rightarrow> Inl (OpsCodexError.Tool (''invalid demo fault URL: '' @ err)) | Inr u \<Rightarrow> Inr u)) (\<lambda>reset.
         sbind (sattempt (post_json I reset)) (\<lambda>posted.
           case posted of
             Inl err \<Rightarrow>
               if result_unknown err
               then sret \<lparr>out_committed = False, out_verified = False, out_uncertain = True, out_before = health,
                      out_after = JObj [(''error'', JStr (error_to_string err))],
                      out_message = ''demo fault reset result is unknown''\<rparr>
               else sfail err
           | Inr answer \<Rightarrow>
               sbind (get_json I (url_join_expect I base ''health'')) (\<lambda>after.
                 let ok = (json_get_str ''status'' after = Some ''ok'' \<and> json_get_str ''mode'' after = Some ''normal'')
                 in sret \<lparr>out_committed = True, out_verified = ok, out_uncertain = False, out_before = health,
                      out_after = JObj [(''health'', after), (''reset'', answer)],
                      out_message = (if ok then ''demo fault reset verified''
                        else ''demo fault reset did not reach healthy normal mode'')\<rparr>)))))"

definition read_k8s_snapshot :: "'w io \<Rightarrow> KubernetesClient \<Rightarrow> string \<Rightarrow> string \<Rightarrow> string \<Rightarrow> ('w, json) op" where
  "read_k8s_snapshot I c kind namespace name = get_workload I c kind namespace name"

definition replicas_at :: "string list \<Rightarrow> json \<Rightarrow> nat" where
  "replicas_at path j = (case Option.bind (json_pointer path j) json_as_u64 of None \<Rightarrow> 0 | Some n \<Rightarrow> n)"

definition execute_k8s_scale ::
    "'w io \<Rightarrow> KubernetesClient \<Rightarrow> string \<Rightarrow> string \<Rightarrow> string \<Rightarrow> nat \<Rightarrow> string \<Rightarrow> string \<Rightarrow> string \<Rightarrow> bool \<Rightarrow>
     ('w, ExecutionOutcome) op" where
  "execute_k8s_scale I c kind namespace name replicas resource_version uid operation_id dry_run =
     sbind (get_workload I c kind namespace name) (\<lambda>before.
       let current_uid = metadata_string before ''uid'';
           current_rv = metadata_string before ''resourceVersion''
       in if \<not> dry_run \<and> (current_uid \<noteq> uid \<or> current_rv \<noteq> resource_version)
          then sfail (OpsCodexError.Policy ''kubernetes target changed; resourceVersion/UID precondition failed'')
          else
            let patch_rv = (if resource_version = [] then current_rv else resource_version)
            in sbind (sattempt (patch_replicas I c kind namespace name replicas patch_rv operation_id dry_run))
              (\<lambda>patched. case patched of
                 Inr answer \<Rightarrow>
                   if dry_run then sret \<lparr>out_committed = False, out_verified = False, out_uncertain = False,
                      out_before = before, out_after = answer,
                      out_message = ''dry-run scale '' @ kind @ ''/'' @ name @ '' to '' @ show_nat replicas\<rparr>
                   else sbind (get_workload I c kind namespace name) (\<lambda>after.
                     let desired = replicas_at [''spec'', ''replicas''] after;
                         available = replicas_at [''status'', ''availableReplicas''] after;
                         verified = (desired = replicas \<and> available = replicas)
                     in sret \<lparr>out_committed = True, out_verified = verified, out_uncertain = False,
                          out_before = before, out_after = after,
                          out_message = (if verified then ''scaled '' @ kind @ ''/'' @ name @ '' to '' @ show_nat replicas
                            else ''scale of '' @ kind @ ''/'' @ name @ '' did not reach available replicas'')\<rparr>)
               | Inl err \<Rightarrow>
                   if result_unknown err
                   then sret \<lparr>out_committed = False, out_verified = False, out_uncertain = True,
                      out_before = before, out_after = JObj [(''error'', JStr (error_to_string err))],
                      out_message = ''kubernetes scale result is unknown''\<rparr>
                   else sfail err))"

section \<open>Building an action\<close>

definition required_str :: "json \<Rightarrow> string \<Rightarrow> string result" where
  "required_str v key = ok_or (OpsCodexError.Protocol (key @ '' required'')) (json_get_str key v)"

text \<open>What the requested kind and parameters turn into.\<close>

record ActionSpec =
  spec_target :: string
  spec_parameters :: json
  spec_effect :: string
  spec_expected :: string
  spec_verification :: string
  spec_blast :: string
  spec_preconditions :: "string list"

definition demo_fault_spec :: "workspace_id \<Rightarrow> json \<Rightarrow> ActionSpec result" where
  "demo_fault_spec w parameters =
     (if w \<noteq> ''local-demo''
      then Inl (OpsCodexError.Policy ''demo_fault_reset is only registered in the local-demo workspace'')
      else if str_or ''order-service'' (json_get_str ''service'' parameters) \<noteq> ''order-service''
      then Inl (OpsCodexError.Policy ''demo_fault_reset target must be order-service'')
      else if str_or ''normal'' (json_get_str ''mode'' parameters) \<noteq> ''normal''
      then Inl (OpsCodexError.Policy ''demo_fault_reset can only set mode=normal'')
      else Inr \<lparr>spec_target = ''demo:order-service'',
        spec_parameters = JObj [(''mode'', JStr ''normal''), (''service'', JStr ''order-service'')],
        spec_effect = effect_as_str ChangeReversible,
        spec_expected = ''Set demo fault mode to normal'',
        spec_verification = ''GET /health returns status=ok and mode=normal'',
        spec_blast = ''single local demo container'', spec_preconditions = [''loopback-only'']\<rparr>)"

definition k8s_scale_spec :: "json \<Rightarrow> ActionSpec result" where
  "k8s_scale_spec parameters =
     and_then (required_str parameters ''kind'') (\<lambda>kind.
       if kind \<notin> {''Deployment'', ''StatefulSet''}
       then Inl (OpsCodexError.Policy ''k8s_scale only supports Deployment or StatefulSet'')
       else
         and_then (required_str parameters ''namespace'') (\<lambda>namespace.
         and_then (required_str parameters ''name'') (\<lambda>name.
         and_then (ok_or (OpsCodexError.Protocol ''replicas required'')
                     (Option.bind (json_get ''replicas'' parameters) json_as_u64)) (\<lambda>replicas.
           if \<not> (1 \<le> replicas \<and> replicas \<le> 16)
           then Inl (OpsCodexError.Policy ''k8s_scale replicas must be between 1 and 16'')
           else Inr \<lparr>spec_target = ''k8s:'' @ namespace @ ''/'' @ kind @ ''/'' @ name,
             spec_parameters = JObj [(''kind'', JStr kind), (''name'', JStr name),
               (''namespace'', JStr namespace), (''replicas'', JNum (int replicas))],
             spec_effect = effect_as_str ChangeReversible,
             spec_expected = ''Scale '' @ kind @ ''/'' @ name @ '' to '' @ show_nat replicas,
             spec_verification = ''desired and available replicas match the approved count'',
             spec_blast = ''one '' @ kind @ '' in '' @ namespace, spec_preconditions = []\<rparr>))))"

definition action_spec :: "workspace_id \<Rightarrow> string \<Rightarrow> json \<Rightarrow> ActionSpec result" where
  "action_spec w kind parameters =
     (if kind = DEMO_FAULT_TOOL then demo_fault_spec w parameters
      else if kind = K8S_SCALE_TOOL then k8s_scale_spec parameters
      else Inl (OpsCodexError.Protocol (''unsupported remediation kind `'' @ kind @ ''`'')))"

definition proposed_action ::
    "ext \<Rightarrow> uuid \<Rightarrow> workspace_id \<Rightarrow> string \<Rightarrow> ActionSpec \<Rightarrow> time \<Rightarrow> time \<Rightarrow> uuid \<Rightarrow> uuid \<Rightarrow> ActionRecord" where
  "proposed_action E thread_id w kind spec now expires_at action_id plan =
     (let a = \<lparr>act_action_id = action_id, act_plan_id = plan, act_workspace_id = w,
            act_thread_id = thread_id, act_tool_id = kind, act_tool_version = TOOL_VERSION,
            act_schema_hash = schema_hash_for E kind, act_effect = spec_effect spec,
            act_normalized_target = spec_target spec, act_normalized_parameters = spec_parameters spec,
            act_preconditions = spec_preconditions spec, act_expected_effect = spec_expected spec,
            act_dry_run_result = None, act_verification_spec = spec_verification spec,
            act_rollback_spec = None, act_blast_radius = spec_blast spec,
            act_operation_id = uuid_string E action_id @ '':1'', act_request_hash = [],
            act_status = ActionStatus.Proposed, act_approval_id = None, act_consumed_approval = False,
            act_expires_at = expires_at, act_updated_at = now\<rparr>
      in a\<lparr>act_request_hash := action_request_hash E a\<rparr>)"

definition build_action ::
    "ext \<Rightarrow> 'w io \<Rightarrow> uuid \<Rightarrow> workspace_id \<Rightarrow> string \<Rightarrow> json \<Rightarrow> time \<Rightarrow> ('w sys, ActionRecord) op" where
  "build_action E I thread_id w kind parameters ttl =
     sbind (utc_now I) (\<lambda>now.
     sbind (slift (action_spec w kind parameters)) (\<lambda>spec.
     sbind (fresh_uuid I) (\<lambda>action_id.
     sbind (fresh_uuid I) (\<lambda>plan.
       sret (proposed_action E thread_id w kind spec now (now + ttl) action_id plan)))))"

definition dry_run_preconditions :: "string \<Rightarrow> json \<Rightarrow> string list" where
  "dry_run_preconditions kind before =
     (if kind \<noteq> K8S_SCALE_TOOL then []
      else [''uid='' @ str_or [] (Option.bind (json_pointer [''metadata'', ''uid''] before) json_as_str),
            ''resourceVersion='' @
              str_or [] (Option.bind (json_pointer [''metadata'', ''resourceVersion''] before) json_as_str),
            ''previousReplicas='' @ show_nat (replicas_at [''spec'', ''replicas''] before)])"

definition rollback_spec :: "ActionRecord \<Rightarrow> string" where
  "rollback_spec a =
     (if act_tool_id a = K8S_SCALE_TOOL
      then ''propose a new scale action back to '' @
        str_or ''unknown'' (find_map (strip_prefix ''previousReplicas='') (act_preconditions a)) @
        '' replicas; do not auto-execute''
      else ''re-diagnose and propose a new action; rollback is never automatic'')"

section \<open>Running an action\<close>

definition kube_for :: "RemediationRuntime \<Rightarrow> workspace_id \<Rightarrow> KubernetesClient result" where
  "kube_for rem w = ok_or (OpsCodexError.Policy (''workspace '' @ w @ '' has no remediation Kubernetes client''))
     (map_of (rem_kube rem) w)"

definition precondition_value :: "string \<Rightarrow> ActionRecord \<Rightarrow> string" where
  "precondition_value key a = str_or [] (find_map (strip_prefix key) (act_preconditions a))"

definition run_action :: "'w io \<Rightarrow> ActionRecord \<Rightarrow> bool \<Rightarrow> ('w sys, ExecutionOutcome) op" where
  "run_action I a dry_run =
     sbind (sgets (\<lambda>s. Inr (sys_rem s))) (\<lambda>rem.
      if act_tool_id a = DEMO_FAULT_TOOL
      then on_world (execute_demo_fault I (rem_demo_fault_url rem) dry_run)
      else if act_tool_id a = K8S_SCALE_TOOL
      then
        sbind (slift (kube_for rem (act_workspace_id a))) (\<lambda>client.
        sbind (slift (required_str (act_normalized_parameters a) ''kind'')) (\<lambda>kind.
        sbind (slift (required_str (act_normalized_parameters a) ''namespace'')) (\<lambda>namespace.
        sbind (slift (required_str (act_normalized_parameters a) ''name'')) (\<lambda>name.
        sbind (slift (ok_or (OpsCodexError.Protocol ''replicas required'')
                  (Option.bind (json_get ''replicas'' (act_normalized_parameters a)) json_as_u64))) (\<lambda>replicas.
          on_world (execute_k8s_scale I client kind namespace name (replicas mod 2 ^ 32)
            (precondition_value ''resourceVersion='' a) (precondition_value ''uid='' a)
            (act_operation_id a) dry_run))))))
      else sfail (OpsCodexError.Policy (''`'' @ act_tool_id a @ ''` is not a structured remediation action'')))"

definition check_preconditions :: "'w io \<Rightarrow> ActionRecord \<Rightarrow> ('w sys, unit) op" where
  "check_preconditions I a =
     sbind (sgets (\<lambda>s. Inr (sys_rem s))) (\<lambda>rem.
      if act_tool_id a = K8S_SCALE_TOOL
      then
        sbind (slift (kube_for rem (act_workspace_id a))) (\<lambda>client.
        sbind (slift (required_str (act_normalized_parameters a) ''kind'')) (\<lambda>kind.
        sbind (slift (required_str (act_normalized_parameters a) ''namespace'')) (\<lambda>namespace.
        sbind (slift (required_str (act_normalized_parameters a) ''name'')) (\<lambda>name.
        sbind (on_world (read_k8s_snapshot I client kind namespace name)) (\<lambda>snapshot.
          if metadata_string snapshot ''uid'' \<noteq> precondition_value ''uid='' a \<or>
             metadata_string snapshot ''resourceVersion'' \<noteq> precondition_value ''resourceVersion='' a
          then sfail (OpsCodexError.Policy ''kubernetes target changed; refusing to execute stale approval'')
          else sret ())))))
      else sret ())"

section \<open>Handlers\<close>

definition plan_for :: "ActionRecord \<Rightarrow> uuid list \<Rightarrow> ActionPlan" where
  "plan_for a claim_ids = \<lparr>plan_id = act_plan_id a, plan_workspace_id = act_workspace_id a,
     plan_thread_id = act_thread_id a, plan_diagnosis_claim_ids = claim_ids, plan_actions = [a],
     plan_created_at = act_updated_at a, plan_expires_at = act_expires_at a\<rparr>"

definition persist_action :: "ActionRecord \<Rightarrow> uuid list \<Rightarrow> ('w sys, unit) op" where
  "persist_action a claim_ids =
     sbind (on_db (put_action_plan (plan_for a claim_ids))) (\<lambda>_. on_db (put_action a))"

definition find_action :: "ext \<Rightarrow> uuid \<Rightarrow> ('w sys, ActionRecord) op" where
  "find_action E aid = sgets (\<lambda>s. ok_or (OpsCodexError.NotFound (''action '' @ uuid_string E aid)) (get_action aid (sys_db s)))"

definition policy_input :: "RemediationRuntime \<Rightarrow> workspace_id \<Rightarrow> Workspace option \<Rightarrow> string \<Rightarrow> CapabilityEffect \<Rightarrow> ActionPolicyInput" where
  "policy_input rem w workspace tool effect = \<lparr>api_workspace_id = w,
     api_allow_remediation = (case workspace of None \<Rightarrow> False | Some item \<Rightarrow> ws_allow_remediation item),
     api_max_effect = Option.bind workspace ws_max_effect, api_tool_id = tool, api_effect = effect,
     api_production_safe = rem_production_safe rem, api_kill_switch = rem_kill_switch rem,
     api_remediation_enabled = rem_enabled rem\<rparr>"

text \<open>The action's workspace, when workspaces are configured at all.\<close>

definition workspace_of :: "workspace_id \<Rightarrow> 'w sys \<Rightarrow> Workspace option result" where
  "workspace_of w s = (if sys_workspaces s = [] then Inr None
     else and_then (catalog_get (sys_workspaces s) w) (\<lambda>ws. Inr (Some ws)))"

definition deny_proposal :: "ext \<Rightarrow> 'w io \<Rightarrow> uuid \<Rightarrow> workspace_id \<Rightarrow> ActionRecord \<Rightarrow> uuid list \<Rightarrow> ('w sys, ActionRecord) op" where
  "deny_proposal E I thread_id w action claim_ids =
     (let a = action\<lparr>act_status := ActionStatus.PolicyDenied\<rparr> in
      sbind (persist_action a claim_ids) (\<lambda>_.
      sbind (audit E I ''action.policy_denied'' (Some w) (review_summary E a)) (\<lambda>_.
      sbind (emit_action E I thread_id a) (\<lambda>_.
        sfail (OpsCodexError.Policy ''remediation is denied by policy, kill switch, or workspace settings'')))))"

definition reject_uncertain ::
    "ext \<Rightarrow> 'w io \<Rightarrow> uuid \<Rightarrow> ActionRecord \<Rightarrow> uuid list \<Rightarrow> ExecutionOutcome \<Rightarrow> ('w sys, ActionRecord) op" where
  "reject_uncertain E I thread_id action claim_ids dry =
     (let a = action\<lparr>act_status := ActionStatus.Invalid, act_dry_run_result := Some (out_message dry)\<rparr> in
      sbind (persist_action a claim_ids) (\<lambda>_.
      sbind (emit_action E I thread_id a) (\<lambda>_. sfail (OpsCodexError.Tool (out_message dry)))))"

definition await_approval ::
    "ext \<Rightarrow> 'w io \<Rightarrow> uuid \<Rightarrow> workspace_id \<Rightarrow> string \<Rightarrow> ActionRecord \<Rightarrow> uuid list \<Rightarrow> ExecutionOutcome \<Rightarrow> ('w sys, ActionRecord) op" where
  "await_approval E I thread_id w kind action claim_ids dry =
     (let a1 = action\<lparr>act_dry_run_result := Some (out_message dry),
            act_preconditions := act_preconditions action @ dry_run_preconditions kind (out_before dry)\<rparr>;
          a2 = a1\<lparr>act_request_hash := action_request_hash E a1\<rparr>
      in sbind (slift (transition ActionStatus.DryRun ActionStatus.AwaitingApproval)) (\<lambda>st.
         sbind (fresh_uuid I) (\<lambda>approval.
           let a = a2\<lparr>act_status := st, act_approval_id := Some approval\<rparr> in
           sbind (persist_action a claim_ids) (\<lambda>_.
           sbind (audit E I ''action.awaiting_approval'' (Some w) (review_summary E a)) (\<lambda>_.
           sbind (emit_action E I thread_id a) (\<lambda>_. sret a))))))"

definition propose_action_plan ::
    "ext \<Rightarrow> 'w io \<Rightarrow> uuid \<Rightarrow> string \<Rightarrow> json \<Rightarrow> uuid list \<Rightarrow> ('w sys, ActionRecord) op" where
  "propose_action_plan E I thread_id kind parameters claim_ids =
     sbind (sgets (\<lambda>s. get_thread E thread_id (sys_db s))) (\<lambda>thread.
     let w = th_workspace_id thread in
     sbind (sgets (workspace_of w)) (\<lambda>workspace.
     sbind (sgets (\<lambda>s. Inr (rem_approval_ttl (sys_rem s)))) (\<lambda>ttl.
     sbind (build_action E I thread_id w kind parameters ttl) (\<lambda>action.
     sbind (slift (effect_parse (act_effect action))) (\<lambda>effect.
     sbind (sgets (\<lambda>s. Inr (evaluate_action (policy_input (sys_rem s) w workspace (act_tool_id action) effect)))) (\<lambda>decision.
       if deny_extension_remediation (act_tool_id action) \<or> decision = PolicyDecision.Deny
       then deny_proposal E I thread_id w action claim_ids
       else
         sbind (slift (transition ActionStatus.Proposed ActionStatus.DryRun)) (\<lambda>st.
           let action = action\<lparr>act_status := st\<rparr> in
           sbind (run_action I action True) (\<lambda>dry.
             if out_uncertain dry then reject_uncertain E I thread_id action claim_ids dry
             else await_approval E I thread_id w kind action claim_ids dry))))))))"

definition expire_if_needed :: "'w io \<Rightarrow> ActionRecord \<Rightarrow> ('w sys, ActionRecord) op" where
  "expire_if_needed I a =
     (if act_status a \<noteq> ActionStatus.AwaitingApproval then sret a
      else sbind (utc_now I) (\<lambda>now.
        if act_expires_at a \<le> now
        then sbind (slift (transition ActionStatus.AwaitingApproval ActionStatus.Expired)) (\<lambda>st.
             sbind (utc_now I) (\<lambda>later.
               let a' = a\<lparr>act_status := st, act_updated_at := later\<rparr>
               in sbind (on_db (put_action a')) (\<lambda>_. sret a')))
        else sret a))"

text \<open>The decision on the action that was read: the checks and the record that is written.\<close>

definition approve_decision :: "ext \<Rightarrow> string \<Rightarrow> bool \<Rightarrow> ActionRecord \<Rightarrow> ActionRecord result" where
  "approve_decision E request_hash approved a =
     (if act_status a \<noteq> ActionStatus.AwaitingApproval
      then Inl (OpsCodexError.Policy (''action '' @ uuid_string E (act_action_id a) @ '' is '' @ status_as_str (act_status a)))
      else if act_consumed_approval a then Inl (OpsCodexError.Policy ''approval was already consumed'')
      else if action_request_hash E a \<noteq> act_request_hash a \<or> action_request_hash E a \<noteq> request_hash
      then Inl (OpsCodexError.Policy ''approval request hash mismatch; refusing to bind approval'')
      else and_then (transition ActionStatus.AwaitingApproval
             (if approved then ActionStatus.Authorized else ActionStatus.Rejected)) (\<lambda>st.
        let a' = a\<lparr>act_status := st\<rparr>
        in Inr (if approved then a'\<lparr>act_consumed_approval := True\<rparr> else a')))"

definition approve_action :: "ext \<Rightarrow> 'w io \<Rightarrow> uuid \<Rightarrow> string \<Rightarrow> bool \<Rightarrow> ('w sys, ActionRecord) op" where
  "approve_action E I aid request_hash approved =
     sbind (find_action E aid) (\<lambda>found.
     sbind (expire_if_needed I found) (\<lambda>action.
     sbind (slift (approve_decision E request_hash approved action)) (\<lambda>decided.
     sbind (utc_now I) (\<lambda>now.
       let a = decided\<lparr>act_updated_at := now\<rparr> in
       sbind (on_db (put_action a)) (\<lambda>_.
       sbind (audit E I (if approved then ''action.authorized'' else ''action.rejected'')
                (Some (act_workspace_id a)) (review_summary E a)) (\<lambda>_.
       sbind (emit_action E I (act_thread_id a) a) (\<lambda>_. sret a)))))))"

subsection \<open>Execution\<close>

definition claim_or_refuse :: "ext \<Rightarrow> 'w io \<Rightarrow> uuid \<Rightarrow> ('w sys, ActionRecord) op" where
  "claim_or_refuse E I aid =
     sbind (utc_now I) (\<lambda>now.
     sbind (on_db (claim_action_for_execution E aid now)) (\<lambda>claimed.
       case claimed of
         Some a \<Rightarrow> sret a
       | None \<Rightarrow> sbind (find_action E aid) (\<lambda>a.
           sfail (OpsCodexError.Policy (''action '' @ uuid_string E (act_action_id a) @ '' is ''
             @ status_as_str (act_status a) @ '' and cannot be executed'')))))"

text \<open>Write the action with a new status and the time, and show it on the thread.\<close>

definition move_action :: "'w io \<Rightarrow> ActionStatus \<Rightarrow> ActionStatus \<Rightarrow> ActionRecord \<Rightarrow> ('w sys, ActionRecord) op" where
  "move_action I from_st to_st a =
     sbind (slift (transition from_st to_st)) (\<lambda>st.
     sbind (utc_now I) (\<lambda>now.
       let a' = a\<lparr>act_status := st, act_updated_at := now\<rparr>
       in sbind (on_db (put_action a')) (\<lambda>_. sret a')))"

definition outcome_summary :: "ext \<Rightarrow> ActionRecord \<Rightarrow> json \<Rightarrow> string \<Rightarrow> json" where
  "outcome_summary E a committed message = JObj
     [(''action_id'', JStr (uuid_string E (act_action_id a))), (''committed'', committed),
      (''message'', JStr message), (''request_hash'', JStr (act_request_hash a)),
      (''status'', JStr (status_as_str (act_status a)))]"

definition stop_stale :: "ext \<Rightarrow> 'w io \<Rightarrow> ActionRecord \<Rightarrow> OpsCodexError \<Rightarrow> ('w sys, ActionRecord) op" where
  "stop_stale E I action err =
     sbind (move_action I ActionStatus.PreconditionCheck ActionStatus.Stale action) (\<lambda>a.
     sbind (emit_action E I (act_thread_id a) a) (\<lambda>_. sfail err))"

definition runner_failed :: "ext \<Rightarrow> 'w io \<Rightarrow> ActionRecord \<Rightarrow> OpsCodexError \<Rightarrow> ('w sys, ActionRecord) op" where
  "runner_failed E I action err =
     (let message = ''action runner failed after execution began: '' @ error_to_string err in
      sbind (move_action I ActionStatus.Executing ActionStatus.NeedsReconciliation action) (\<lambda>a.
      sbind (audit E I ''action.needs_reconciliation'' (Some (act_workspace_id a))
               (outcome_summary E a JNull message)) (\<lambda>_.
      sbind (emit_action E I (act_thread_id a) a) (\<lambda>_.
        sfail (OpsCodexError.NeedsReconciliation message)))))"

definition settled_action :: "ActionRecord \<Rightarrow> ExecutionOutcome \<Rightarrow> ActionRecord result" where
  "settled_action a out =
     and_then (transition ActionStatus.Executing
        (if out_uncertain out then ActionStatus.NeedsReconciliation else ActionStatus.Verifying)) (\<lambda>st.
       if st \<noteq> ActionStatus.Verifying then Inr (a\<lparr>act_status := st\<rparr>)
       else and_then (transition ActionStatus.Verifying
              (if out_verified out then ActionStatus.Succeeded else ActionStatus.VerificationFailed)) (\<lambda>st2.
         if st2 \<noteq> ActionStatus.VerificationFailed then Inr (a\<lparr>act_status := st2\<rparr>)
         else and_then (transition ActionStatus.VerificationFailed ActionStatus.RollbackProposed) (\<lambda>st3.
           let a' = a\<lparr>act_status := st3\<rparr>
           in Inr (a'\<lparr>act_rollback_spec := Some (rollback_spec a')\<rparr>))))"

definition count_mutation :: "ExecutionOutcome \<Rightarrow> ('w sys, unit) op" where
  "count_mutation out = supd (\<lambda>s. if out_committed out
     then s\<lparr>sys_rem := (sys_rem s)\<lparr>rem_mutation_count := (rem_mutation_count (sys_rem s) + 1) mod 2 ^ 64\<rparr>\<rparr> else s)"

definition settle :: "ext \<Rightarrow> 'w io \<Rightarrow> ActionRecord \<Rightarrow> ExecutionOutcome \<Rightarrow> ('w sys, ActionRecord) op" where
  "settle E I action out =
     sbind (count_mutation out) (\<lambda>_.
     sbind (slift (settled_action action out)) (\<lambda>settled.
     sbind (utc_now I) (\<lambda>now.
       let a = settled\<lparr>act_updated_at := now\<rparr> in
       sbind (on_db (put_action a)) (\<lambda>_.
       sbind (audit E I (''action.'' @ status_as_str (act_status a)) (Some (act_workspace_id a))
                (outcome_summary E a (JBool (out_committed out)) (out_message out))) (\<lambda>_.
       sbind (emit_action E I (act_thread_id a) a) (\<lambda>_.
         if act_status a = ActionStatus.NeedsReconciliation
         then sfail (OpsCodexError.NeedsReconciliation (out_message out))
         else sret a))))))"

text \<open>The claimed action: its preconditions are checked again, then it runs.\<close>

definition run_claimed :: "ext \<Rightarrow> 'w io \<Rightarrow> ActionRecord \<Rightarrow> ('w sys, ActionRecord) op" where
  "run_claimed E I action =
     sbind (emit_action E I (act_thread_id action) action) (\<lambda>_.
     sbind (sattempt (check_preconditions I action)) (\<lambda>checked.
       case checked of
         Inl err \<Rightarrow> stop_stale E I action err
       | Inr _ \<Rightarrow>
           sbind (move_action I ActionStatus.PreconditionCheck ActionStatus.Executing action) (\<lambda>started.
           sbind (emit_action E I (act_thread_id started) started) (\<lambda>_.
           sbind (sattempt (run_action I started False)) (\<lambda>ran.
             case ran of
               Inl err \<Rightarrow> runner_failed E I started err
             | Inr out \<Rightarrow> settle E I started out)))))"

definition execute_action :: "ext \<Rightarrow> 'w io \<Rightarrow> uuid \<Rightarrow> ('w sys, ActionRecord) op" where
  "execute_action E I aid =
     sbind (sgets (\<lambda>s. if rem_kill_switch (sys_rem s) \<or> \<not> rem_enabled (sys_rem s)
        then Inl (OpsCodexError.Policy ''kill switch is blocking change operations'') else Inr ())) (\<lambda>_.
     sbind (claim_or_refuse E I aid) (run_claimed E I))"

subsection \<open>Recovery at start-up\<close>

definition recovered_status :: "time \<Rightarrow> ActionRecord \<Rightarrow> ActionStatus option" where
  "recovered_status now a =
     (if act_status a \<in> {ActionStatus.AwaitingApproval, ActionStatus.Authorized} \<and> act_expires_at a \<le> now
      then Some ActionStatus.Expired
      else if act_status a \<in> {ActionStatus.PreconditionCheck, ActionStatus.Executing, ActionStatus.Verifying}
      then Some ActionStatus.NeedsReconciliation
      else None)"

fun recover_actions :: "ext \<Rightarrow> 'w io \<Rightarrow> time \<Rightarrow> ActionRecord list \<Rightarrow> ('w sys, unit) op" where
  "recover_actions E I now [] = sret ()"
| "recover_actions E I now (a # rest) =
     (case recovered_status now a of
        None \<Rightarrow> recover_actions E I now rest
      | Some next \<Rightarrow>
          sbind (slift (transition (act_status a) next)) (\<lambda>st.
            let a' = a\<lparr>act_status := st, act_updated_at := now\<rparr> in
            sbind (on_db (put_action a')) (\<lambda>_.
            sbind (signore (emit_action E I (act_thread_id a') a')) (\<lambda>_.
              recover_actions E I now rest))))"

fun expire_approvals :: "time \<Rightarrow> DurableApproval list \<Rightarrow> ('w sys, unit) op" where
  "expire_approvals now [] = sret ()"
| "expire_approvals now (p # rest) =
     (if (case da_expires_at p of None \<Rightarrow> False | Some expires \<Rightarrow> expires \<le> now)
      then sbind (on_db (put_approval (p\<lparr>da_status := ApprovalStatus.Expired\<rparr>))) (\<lambda>_. expire_approvals now rest)
      else expire_approvals now rest)"

text \<open>The first part of \<open>recover\<close>: what is done before the open turns are classified.\<close>

definition recover_pending :: "ext \<Rightarrow> 'w io \<Rightarrow> ('w sys, unit) op" where
  "recover_pending E I =
     sbind (utc_now I) (\<lambda>now.
     sbind (sgets (\<lambda>s. Inr (list_pending_approvals (sys_db s)))) (\<lambda>approvals.
     sbind (expire_approvals now approvals) (\<lambda>_.
     sbind (sgets (\<lambda>s. Inr (list_action_recovery_candidates (sys_db s)))) (\<lambda>candidates.
       recover_actions E I now candidates))))"

end
