(* ===== verification/Guarantee.thy ===== *)
theory Guarantee
  imports Prelude
begin

text \<open>
  Reasoning about operations that change a state and may stop with an error at any point. A
  guarantee is a reflexive and transitive relation between the state before and after; an operation
  that gives a guarantee does so on every path, the error paths included, because what it wrote
  before it stopped stays written. The laws are proved once for every guarantee.
\<close>

definition always :: "('s \<Rightarrow> 's \<Rightarrow> bool) \<Rightarrow> ('e, 's, 'a) sm \<Rightarrow> bool" where
  "always R m \<longleftrightarrow> (\<forall>s. R s (snd (m s)))"

text \<open>
  \<open>guar R P m Q\<close>: started where \<open>P\<close> holds, \<open>m\<close> gives the guarantee \<open>R\<close>, and \<open>Q\<close> holds of its value and
  state when it ends without an error.
\<close>

definition guar ::
    "('s \<Rightarrow> 's \<Rightarrow> bool) \<Rightarrow> ('s \<Rightarrow> bool) \<Rightarrow> ('e, 's, 'a) sm \<Rightarrow> ('a \<Rightarrow> 's \<Rightarrow> bool) \<Rightarrow> bool" where
  "guar R P m Q \<longleftrightarrow> (\<forall>s. P s \<longrightarrow> R s (snd (m s)) \<and> (\<forall>x. fst (m s) = Inr x \<longrightarrow> Q x (snd (m s))))"

lemma alwaysI: "(\<And>s. R s (snd (m s))) \<Longrightarrow> always R m"
  by (simp add: always_def)

lemma alwaysD: "always R m \<Longrightarrow> R s (snd (m s))"
  by (simp add: always_def)

lemma guarI:
  "(\<And>s. P s \<Longrightarrow> R s (snd (m s))) \<Longrightarrow> (\<And>s x s'. P s \<Longrightarrow> m s = (Inr x, s') \<Longrightarrow> Q x s') \<Longrightarrow> guar R P m Q"
  unfolding guar_def by (metis prod.collapse)

lemma guarD: "guar R P m Q \<Longrightarrow> P s \<Longrightarrow> R s (snd (m s))"
  by (simp add: guar_def)

lemma guar_value: "guar R P m Q \<Longrightarrow> P s \<Longrightarrow> m s = (Inr x, s') \<Longrightarrow> Q x s'"
  by (metis guar_def fst_conv snd_conv)

lemma guar_conseq:
  "guar R P m Q \<Longrightarrow> (\<And>s. P' s \<Longrightarrow> P s) \<Longrightarrow> (\<And>x s. Q x s \<Longrightarrow> Q' x s) \<Longrightarrow> guar R P' m Q'"
  by (simp add: guar_def)

lemma guar_always: "always R m \<Longrightarrow> guar R P m (\<lambda>_ _. True)"
  by (simp add: always_def guar_def)

lemma guar_pre: "(\<And>s. P s \<Longrightarrow> guar R (\<lambda>t. t = s) m Q) \<Longrightarrow> guar R P m Q"
  by (simp add: guar_def)

lemma guar_sup: "(C \<Longrightarrow> guar R P m Q) \<Longrightarrow> guar R (\<lambda>s. C \<and> P s) m Q"
  by (simp add: guar_def)

locale guarantee =
  fixes R :: "'s \<Rightarrow> 's \<Rightarrow> bool"
  assumes R_refl: "R s s"
    and R_trans: "R s t \<Longrightarrow> R t u \<Longrightarrow> R s u"
begin

lemma always_bind: "always R m \<Longrightarrow> (\<And>x. always R (f x)) \<Longrightarrow> always R (sbind m f)"
  by (auto simp: always_def sbind_def split: prod.splits sum.splits intro: R_trans)
     (metis R_trans snd_conv)+

lemma always_base:
  "always R (sret x)" "always R (sfail e)" "always R (slift r)" "always R (sgets g)"
  by (simp_all add: always_def sm_simps R_refl)

lemma always_signore: "always R m \<Longrightarrow> always R (signore m)"
  by (simp add: always_def sm_simps)

lemma always_if: "(c \<Longrightarrow> always R m) \<Longrightarrow> (\<not> c \<Longrightarrow> always R n) \<Longrightarrow> always R (if c then m else n)"
  by simp

lemma guar_bind:
  assumes "guar R P m Q" and "\<And>x. guar R (Q x) (f x) Q'"
  shows "guar R P (sbind m f) Q'"
  unfolding guar_def
proof (intro allI impI conjI)
  fix s assume "P s"
  obtain r t where m: "m s = (r, t)" by fastforce
  have st: "R s t" using guarD [OF assms(1) \<open>P s\<close>] m by simp
  show "R s (snd (sbind m f s))"
    using st guarD [OF assms(2)] guar_value [OF assms(1) \<open>P s\<close>] m
    by (auto simp: sbind_def split: sum.split intro: R_trans)
  show "Q' x (snd (sbind m f s))" if "fst (sbind m f s) = Inr x" for x
    using that guar_value [OF assms(1) \<open>P s\<close>] guar_value [OF assms(2)] m
    by (auto simp: sbind_def split: sum.splits) (metis prod.collapse)
qed

lemma guar_sret: "(\<And>s. P s \<Longrightarrow> Q x s) \<Longrightarrow> guar R P (sret x) Q"
  by (simp add: guar_def sm_simps R_refl)

lemma guar_sfail: "guar R P (sfail e) Q"
  by (simp add: guar_def sm_simps R_refl)

lemma guar_slift: "(\<And>x s. P s \<Longrightarrow> r = Inr x \<Longrightarrow> Q x s) \<Longrightarrow> guar R P (slift r) Q"
  by (simp add: guar_def sm_simps R_refl)

lemma guar_sgets: "(\<And>x s. P s \<Longrightarrow> g s = Inr x \<Longrightarrow> Q x s) \<Longrightarrow> guar R P (sgets g) Q"
  by (simp add: guar_def sm_simps R_refl)

lemma guar_slift_bind: "(\<And>x. r = Inr x \<Longrightarrow> guar R P (f x) Q) \<Longrightarrow> guar R P (sbind (slift r) f) Q"
  by (cases r) (auto simp: guar_def sm_simps R_refl)

lemma guar_sgets_bind:
  "(\<And>x. guar R (\<lambda>s. P s \<and> g s = Inr x) (f x) Q) \<Longrightarrow> guar R P (sbind (sgets g) f) Q"
  by (rule guar_bind [OF guar_sgets [where Q = "\<lambda>x s. P s \<and> g s = Inr x"]]) simp_all

end

end
