(* ===== verification/RemediationSafety.thy ===== *)
theory RemediationSafety
  imports Remediation Guarantee
begin

text \<open>
  What the remediation handlers guarantee: actions only move along the status machine with their
  reviewed content unchanged, an approval binds the reviewed content, an action is executed at most
  once, the kill switch stops everything, and proposing changes nothing outside.
\<close>

section \<open>Handlers that leave the actions alone\<close>

definition same_actions :: "'w sys \<Rightarrow> 'w sys \<Rightarrow> bool" where
  "same_actions s s' \<longleftrightarrow> db_actions (sys_db s') = db_actions (sys_db s)"

interpretation same_actions: guarantee same_actions
  by unfold_locales (simp_all add: same_actions_def)

lemma append_event_actions: "db_actions (snd (append_event E i now cmd d)) = db_actions d"
  by (auto simp: append_event_def transaction_do_def insert_event_def sm_simps Let_def index_evidence_def
      upsert_evidence_def update_thread_def split: option.splits RuntimeEvent.splits sum.splits prod.splits if_splits)

lemma on_db_same: "(\<And>d. db_actions (snd (m d)) = db_actions d) \<Longrightarrow> always same_actions (on_db m)"
  by (simp add: always_def same_actions_def on_db_def split: prod.splits) (metis snd_conv)

lemma on_world_same: "always same_actions (on_world m)"
  by (simp add: always_def same_actions_def on_world_def split: prod.splits)

lemma utc_now_same: "always same_actions (utc_now I)" and fresh_uuid_same: "always same_actions (fresh_uuid I)"
  by (simp_all add: utc_now_def fresh_uuid_def on_world_same)

lemma emit_action_same: "always same_actions (emit_action E I t a)"
  unfolding emit_action_def store_append_def
  by (intro same_actions.always_bind on_db_same utc_now_same fresh_uuid_same append_event_actions)

lemma audit_same: "always same_actions (audit E I oper w j)"
  unfolding audit_def
  by (intro same_actions.always_bind on_db_same utc_now_same same_actions.always_base)
     (simp add: append_audit_def Let_def)

lemmas same_intros = same_actions.always_bind same_actions.always_base same_actions.always_if on_world_same

lemma run_action_same: "always same_actions (run_action I a dry)"
  unfolding run_action_def by (intro same_intros)

lemma check_preconditions_same: "always same_actions (check_preconditions I a)"
  unfolding check_preconditions_def by (intro same_intros)

section \<open>Actions move along the status machine\<close>

text \<open>What was reviewed: everything but the status, the consumed flag, the time and the rollback text.\<close>

definition reviewed :: "ActionRecord \<Rightarrow> ActionRecord" where
  "reviewed a = a\<lparr>act_status := ActionStatus.Proposed, act_consumed_approval := False, act_updated_at := 0,
     act_rollback_spec := None\<rparr>"

definition action_moved :: "ActionRecord \<Rightarrow> ActionRecord \<Rightarrow> bool" where
  "action_moved a a' \<longleftrightarrow> can_transition\<^sup>*\<^sup>* (act_status a) (act_status a') \<and> reviewed a' = reviewed a \<and>
     (act_consumed_approval a \<longrightarrow> act_consumed_approval a')"

definition actions_moved :: "db \<Rightarrow> db \<Rightarrow> bool" where
  "actions_moved d d' \<longleftrightarrow> (actions_inv d \<longrightarrow> actions_inv d' \<and>
     (\<forall>aid a. get_action aid d = Some a \<longrightarrow> (\<exists>a'. get_action aid d' = Some a' \<and> action_moved a a')))"

definition advance :: "'w sys \<Rightarrow> 'w sys \<Rightarrow> bool" where
  "advance s s' \<longleftrightarrow> actions_moved (sys_db s) (sys_db s')"

lemma action_moved_refl [simp]: "action_moved a a"
  by (simp add: action_moved_def)

lemma action_moved_trans: "action_moved a b \<Longrightarrow> action_moved b c \<Longrightarrow> action_moved a c"
  by (auto simp: action_moved_def)

lemma actions_moved_trans: "actions_moved d e \<Longrightarrow> actions_moved e f \<Longrightarrow> actions_moved d f"
  unfolding actions_moved_def by (meson action_moved_trans)

lemma actions_moved_refl: "actions_moved d d"
  by (simp add: actions_moved_def)

interpretation advance: guarantee advance
  by unfold_locales (auto simp: advance_def actions_moved_refl intro: actions_moved_trans)

lemma same_actions_advance: "same_actions s s' \<Longrightarrow> advance s s'"
  by (auto simp: same_actions_def advance_def actions_moved_def actions_inv_def get_action_def)

lemma always_same_advance: "always same_actions m \<Longrightarrow> always advance m"
  by (simp add: always_def same_actions_advance)

text \<open>The action \<open>a\<close> is stored under its identifier.\<close>

definition stored :: "ActionRecord \<Rightarrow> 'w sys \<Rightarrow> bool" where
  "stored a s \<longleftrightarrow> actions_inv (sys_db s) \<and> get_action (act_action_id a) (sys_db s) = Some a"

lemma stored_same: "same_actions s s' \<Longrightarrow> stored a s \<Longrightarrow> stored a s'"
  by (simp add: same_actions_def stored_def actions_inv_def get_action_def)

lemma guar_same: "always same_actions m \<Longrightarrow> guar advance (stored a) m (\<lambda>_. stored a)"
  unfolding always_def guar_def by (auto intro: same_actions_advance stored_same)

lemma guar_same_inv:
  "always same_actions m \<Longrightarrow> guar advance (\<lambda>s. actions_inv (sys_db s)) m (\<lambda>_ s. actions_inv (sys_db s))"
  unfolding always_def guar_def by (auto intro: same_actions_advance) (auto simp: same_actions_def actions_inv_def)

lemma put_action_advance:
  assumes "actions_inv d" and "get_action (act_action_id a) d = Some old" and "action_moved old a"
  shows "actions_moved d (snd (put_action a d))" and "\<exists>d'. put_action a d = (Inr (), d') \<and> get_action (act_action_id a) d' = Some a \<and> actions_inv d'"
proof -
  have "tbl_get ar_action_id (act_action_id a) (db_actions d) \<noteq> None"
    using assms(2) by (auto simp: get_action_def)
  then obtain d' where put: "put_action a d = (Inr (), d')" by (simp add: put_action_def)
  have inv: "actions_inv d'" using put_action_inv [OF assms(1), of a] put by simp
  have "\<exists>b'. get_action aid d' = Some b' \<and> action_moved b b'" if "get_action aid d = Some b" for aid b
    using get_put_action [OF put] that assms(2,3) by (cases "aid = act_action_id a") auto
  then show "actions_moved d (snd (put_action a d))"
    using inv put by (auto simp: actions_moved_def)
  show "\<exists>d'. put_action a d = (Inr (), d') \<and> get_action (act_action_id a) d' = Some a \<and> actions_inv d'"
    using put get_put_action(1) [OF put] inv by blast
qed

lemma reviewed_id: "reviewed a = reviewed b \<Longrightarrow> act_action_id a = act_action_id b"
  by (drule arg_cong [where f = act_action_id]) (simp add: reviewed_def)

lemma guar_put_action:
  assumes "action_moved old a"
  shows "guar advance (stored old) (on_db (put_action a)) (\<lambda>_. stored a)"
proof (rule guarI)
  have same_id: "act_action_id a = act_action_id old"
    by (rule reviewed_id) (use assms in \<open>simp add: action_moved_def\<close>)
  fix s assume s: "stored old s"
  then have pre: "actions_inv (sys_db s)" "get_action (act_action_id a) (sys_db s) = Some old"
    by (auto simp: stored_def same_id)
  note put = put_action_advance [OF pre assms]
  show "advance s (snd (on_db (put_action a) s))"
    using put(1) by (auto simp: advance_def on_db_def split: prod.splits)
  show "stored a s'" if "on_db (put_action a) s = (Inr x, s')" for x s'
  proof -
    from put(2) obtain d' where "put_action a (sys_db s) = (Inr (), d')"
      "get_action (act_action_id a) d' = Some a" "actions_inv d'" by blast
    with that show ?thesis by (auto simp: on_db_def stored_def)
  qed
qed

lemma guar_same_bind:
  "always same_actions m \<Longrightarrow> (\<And>x. guar advance (stored a) (f x) Q) \<Longrightarrow> guar advance (stored a) (sbind m f) Q"
  by (rule advance.guar_bind [OF guar_same])

lemma guar_put_bind:
  "action_moved old a \<Longrightarrow> guar advance (stored a) (f ()) Q \<Longrightarrow>
     guar advance (stored old) (sbind (on_db (put_action a)) f) Q"
  by (rule advance.guar_bind [OF guar_put_action]) simp_all

lemma sattempt_same: "always same_actions m \<Longrightarrow> always same_actions (sattempt m)"
  by (simp add: always_def sattempt_def split: prod.splits) (metis snd_conv)

lemma count_mutation_same: "always same_actions (count_mutation out)"
  by (simp add: always_def count_mutation_def sm_simps same_actions_def)

lemma find_action_stored:
  "guar advance (\<lambda>s. actions_inv (sys_db s)) (find_action E aid) (\<lambda>a s. stored a s \<and> act_action_id a = aid)"
  unfolding find_action_def
  by (rule advance.guar_sgets) (use get_actionD in \<open>force simp: stored_def\<close>)

lemma always_from_inv: "guar advance (\<lambda>s. actions_inv (sys_db s)) m Q \<Longrightarrow> always advance m"
  by (auto simp: always_def guar_def advance_def actions_moved_def)

lemma step_moved: "can_transition (act_status a) st \<Longrightarrow> act_status b = st \<Longrightarrow> reviewed b = reviewed a \<Longrightarrow>
    (act_consumed_approval a \<longrightarrow> act_consumed_approval b) \<Longrightarrow> action_moved a b"
  by (auto simp: action_moved_def)

lemmas fact_same = utc_now_same fresh_uuid_same emit_action_same audit_same run_action_same
  check_preconditions_same sattempt_same count_mutation_same

lemma expire_if_needed_stored:
  "guar advance (stored a) (expire_if_needed I a) stored"
  unfolding expire_if_needed_def Let_def
  by (auto simp: transition_def intro!: advance.guar_sret guar_same_bind advance.guar_slift_bind guar_put_bind fact_same
      step_moved [where st = ActionStatus.Expired] simp: reviewed_def)

lemma approve_decision_moved:
  "approve_decision E h ok a = Inr d \<Longrightarrow> action_moved a (d\<lparr>act_updated_at := now\<rparr>)"
  by (auto simp: approve_decision_def and_then_Inr_iff transition_Inr_iff Let_def reviewed_def action_moved_def
      split: if_splits)

lemmas advance_intros = guar_same_bind guar_put_bind advance.guar_slift_bind advance.guar_sret advance.guar_sfail fact_same

lemma approve_action_advance: "always advance (approve_action E I aid h ok)"
proof -
  have after: "guar advance (stored a) (sbind (slift (approve_decision E h ok a)) (\<lambda>decided.
     sbind (utc_now I) (\<lambda>now.
       let a = decided\<lparr>act_updated_at := now\<rparr> in
       sbind (on_db (put_action a)) (\<lambda>_.
       sbind (audit E I (if ok then ''action.authorized'' else ''action.rejected'')
                (Some (act_workspace_id a)) (review_summary E a)) (\<lambda>_.
       sbind (emit_action E I (act_thread_id a) a) (\<lambda>_. sret a)))))) (\<lambda>_ _. True)" for a
    unfolding Let_def by (intro advance_intros approve_decision_moved) simp_all
  show ?thesis
    unfolding approve_action_def
    by (rule always_from_inv, rule advance.guar_bind [OF find_action_stored],
        rule advance.guar_bind [OF guar_conseq [OF expire_if_needed_stored]]) (simp, assumption, rule after)
qed

lemma claim_advance:
  "guar advance (\<lambda>s. actions_inv (sys_db s)) (on_db (claim_action_for_execution E aid now))
     (\<lambda>c s. case c of None \<Rightarrow> actions_inv (sys_db s)
        | Some a \<Rightarrow> stored a s \<and> act_status a = ActionStatus.PreconditionCheck \<and> act_action_id a = aid)"
proof (rule guarI)
  fix s :: "'w sys"
  assume inv: "actions_inv (sys_db s)"
  let ?claim = "claim_action_for_execution E aid now (sys_db s)"
  note inv' = claim_inv [OF inv, of E aid now]
  show "advance s (snd (on_db (claim_action_for_execution E aid now) s))"
  proof (cases "get_action aid (sys_db s)")
    case None
    then show ?thesis
      by (simp add: on_db_def claim_action_for_execution_def transaction_do_def advance.R_refl)
  next
    case (Some a)
    have aid: "act_action_id a = aid" using get_actionD [OF inv Some] by blast
    have "actions_moved (sys_db s) (snd ?claim)"
      unfolding actions_moved_def
    proof (intro impI conjI allI inv')
      fix other b assume b: "get_action other (sys_db s) = Some b"
      note cas = cas_result(2) [OF inv, where old = a and st = ActionStatus.Authorized]
      show "\<exists>a'. get_action other (snd ?claim) = Some a' \<and> action_moved b a'"
        using Some b aid
        by (auto simp: claim_result [OF inv Some] cas action_moved_def reviewed_def)
    qed
    then show ?thesis by (simp add: advance_def on_db_def case_prod_unfold)
  qed
  show "case c of None \<Rightarrow> actions_inv (sys_db s')
      | Some a \<Rightarrow> stored a s' \<and> act_status a = ActionStatus.PreconditionCheck \<and> act_action_id a = aid"
    if run: "on_db (claim_action_for_execution E aid now) s = (Inr c, s')" for c s'
  proof -
    from run have claim: "?claim = (Inr c, sys_db s')" by (auto simp: on_db_def split: prod.splits)
    show ?thesis
    proof (cases c)
      case None
      with claim inv' show ?thesis by simp
    next
      case (Some a)
      note c = claimed_state [OF inv claim [unfolded Some]]
      have "actions_inv (sys_db s')" using inv' claim by simp
      moreover from c have "get_action aid (sys_db s') = Some a" by blast
      ultimately have "stored a s' \<and> act_action_id a = aid" using get_actionD by (fastforce simp: stored_def)
      with c show ?thesis by (auto simp: Some)
    qed
  qed
qed

lemma move_action_stored:
  assumes "act_status a = st" and "can_transition st st'"
  shows "guar advance (stored a) (move_action I st st' a) (\<lambda>b s. stored b s \<and> act_status b = st' \<and> action_moved a b)"
  unfolding move_action_def Let_def using assms
  by (auto intro!: advance_intros step_moved simp: transition_def reviewed_def action_moved_def)

lemma guar_stored_and:
  "(C \<Longrightarrow> guar advance (stored a) m Q) \<Longrightarrow> guar advance (\<lambda>s. stored a s \<and> C) m Q"
  by (auto simp: guar_def)

lemma executing_paths:
  "can_transition\<^sup>*\<^sup>* ActionStatus.Executing ActionStatus.NeedsReconciliation"
  "can_transition\<^sup>*\<^sup>* ActionStatus.Executing ActionStatus.Succeeded"
  "can_transition\<^sup>*\<^sup>* ActionStatus.Executing ActionStatus.RollbackProposed"
proof -
  have v: "can_transition\<^sup>*\<^sup>* ActionStatus.Executing ActionStatus.Verifying" by (rule r_into_rtranclp) simp
  then have f: "can_transition\<^sup>*\<^sup>* ActionStatus.Executing ActionStatus.VerificationFailed"
    by (rule rtranclp.rtrancl_into_rtrancl) simp
  show "can_transition\<^sup>*\<^sup>* ActionStatus.Executing ActionStatus.NeedsReconciliation" by (rule r_into_rtranclp) simp
  show "can_transition\<^sup>*\<^sup>* ActionStatus.Executing ActionStatus.Succeeded"
    using v by (rule rtranclp.rtrancl_into_rtrancl) simp
  show "can_transition\<^sup>*\<^sup>* ActionStatus.Executing ActionStatus.RollbackProposed"
    using f by (rule rtranclp.rtrancl_into_rtrancl) simp
qed

lemma settled_action_moved:
  "settled_action a out = Inr b \<Longrightarrow> act_status a = ActionStatus.Executing \<Longrightarrow> action_moved a (b\<lparr>act_updated_at := now\<rparr>)"
  by (auto simp: settled_action_def Let_def action_moved_def reviewed_def executing_paths split: if_splits)

lemma settle_advance:
  "act_status a = ActionStatus.Executing \<Longrightarrow> guar advance (stored a) (settle E I a out) (\<lambda>_ _. True)"
  unfolding settle_def Let_def
  by (intro advance_intros settled_action_moved) (auto intro!: advance_intros)

lemma runner_failed_advance:
  "act_status a = ActionStatus.Executing \<Longrightarrow> guar advance (stored a) (runner_failed E I a err) (\<lambda>_ _. True)"
  unfolding runner_failed_def Let_def
  by (rule advance.guar_bind [OF move_action_stored]) (auto intro!: advance_intros guar_stored_and)

lemma stop_stale_advance:
  "act_status a = ActionStatus.PreconditionCheck \<Longrightarrow> guar advance (stored a) (stop_stale E I a err) (\<lambda>_ _. True)"
  unfolding stop_stale_def
  by (rule advance.guar_bind [OF move_action_stored]) (auto intro!: advance_intros guar_stored_and)

lemma run_claimed_advance:
  assumes "act_status a = ActionStatus.PreconditionCheck"
  shows "guar advance (stored a) (run_claimed E I a) (\<lambda>_ _. True)"
proof -
  have started: "guar advance (\<lambda>s. stored b s \<and> act_status b = ActionStatus.Executing \<and> action_moved a b)
      (sbind (emit_action E I (act_thread_id b) b) (\<lambda>_.
       sbind (sattempt (run_action I b False)) (\<lambda>ran.
         case ran of Inl err \<Rightarrow> runner_failed E I b err | Inr out \<Rightarrow> settle E I b out))) (\<lambda>_ _. True)" for b
    by (rule guar_stored_and)
       (auto intro!: advance_intros runner_failed_advance settle_advance split: sum.splits)
  have "guar advance (stored a) (case checked of
         Inl err \<Rightarrow> stop_stale E I a err
       | Inr _ \<Rightarrow>
           sbind (move_action I ActionStatus.PreconditionCheck ActionStatus.Executing a) (\<lambda>started.
           sbind (emit_action E I (act_thread_id started) started) (\<lambda>_.
           sbind (sattempt (run_action I started False)) (\<lambda>ran.
             case ran of Inl err \<Rightarrow> runner_failed E I started err | Inr out \<Rightarrow> settle E I started out)))) (\<lambda>_ _. True)"
    for checked :: "OpsCodexError + unit"
    using stop_stale_advance [OF assms] advance.guar_bind [OF move_action_stored [OF assms] started]
    by (cases checked) simp_all
  then show ?thesis
    unfolding run_claimed_def
    by (intro guar_same_bind [OF emit_action_same] guar_same_bind [OF sattempt_same [OF check_preconditions_same]])
qed

lemma claim_or_refuse_stored:
  "guar advance (\<lambda>s. actions_inv (sys_db s)) (claim_or_refuse E I aid)
     (\<lambda>a s. stored a s \<and> act_status a = ActionStatus.PreconditionCheck \<and> act_action_id a = aid)"
proof -
  have "guar advance (\<lambda>s. case c of None \<Rightarrow> actions_inv (sys_db s)
        | Some a \<Rightarrow> stored a s \<and> act_status a = ActionStatus.PreconditionCheck \<and> act_action_id a = aid)
      (case c of Some a \<Rightarrow> sret a | None \<Rightarrow> sbind (find_action E aid) (\<lambda>a.
         sfail (OpsCodexError.Policy (''action '' @ uuid_string E (act_action_id a) @ '' is ''
           @ status_as_str (act_status a) @ '' and cannot be executed''))))
      (\<lambda>a s. stored a s \<and> act_status a = ActionStatus.PreconditionCheck \<and> act_action_id a = aid)" for c
    by (cases c) (auto intro!: advance.guar_sret advance.guar_bind [OF find_action_stored] advance.guar_sfail)
  then show ?thesis
    unfolding claim_or_refuse_def
    by (intro advance.guar_bind [OF guar_same_inv [OF utc_now_same]] advance.guar_bind [OF claim_advance])
qed

lemma execute_action_advance: "always advance (execute_action E I aid)"
  unfolding execute_action_def
  by (rule always_from_inv, rule advance.guar_bind [OF advance.guar_sgets], assumption,
      rule advance.guar_bind [OF claim_or_refuse_stored], rule guar_stored_and)
     (blast intro: run_claimed_advance)

text \<open>Recovery works on a list it read first, so the entries still to come must stay as they were read.\<close>

definition unsettled :: "ActionRecord list \<Rightarrow> 'w sys \<Rightarrow> bool" where
  "unsettled as s \<longleftrightarrow> actions_inv (sys_db s) \<and> (\<forall>a \<in> set as. get_action (act_action_id a) (sys_db s) = Some a)"

lemma recovered_status_step: "recovered_status now a = Some st \<Longrightarrow> can_transition (act_status a) st"
  by (auto simp: recovered_status_def split: if_splits)

lemma guar_put_unsettled:
  assumes "action_moved a a'" and "act_action_id a \<notin> act_action_id ` set rest"
  shows "guar advance (unsettled (a # rest)) (on_db (put_action a')) (\<lambda>_. unsettled rest)"
proof (rule guarI)
  fix s assume s: "unsettled (a # rest) s"
  then have st: "stored a s" by (simp add: unsettled_def stored_def)
  show "advance s (snd (on_db (put_action a') s))" using guarD [OF guar_put_action [OF assms(1)] st] .
  fix x s' assume run: "on_db (put_action a') s = (Inr x, s')"
  have id: "act_action_id a' = act_action_id a" by (rule reviewed_id) (use assms(1) in \<open>simp add: action_moved_def\<close>)
  from run have put: "put_action a' (sys_db s) = (Inr (), sys_db s')" by (auto simp: on_db_def split: prod.splits)
  have "actions_inv (sys_db s')" using guar_value [OF guar_put_action [OF assms(1)] st run] by (simp add: stored_def)
  moreover have "get_action (act_action_id b) (sys_db s') = Some b" if "b \<in> set rest" for b
  proof -
    have "act_action_id b \<noteq> act_action_id a'" using that assms(2) id by (metis imageI)
    with get_put_action(2) [OF put this] s that show ?thesis by (simp add: unsettled_def)
  qed
  ultimately show "unsettled rest s'" by (simp add: unsettled_def)
qed

lemma guar_same_unsettled: "always same_actions m \<Longrightarrow> guar advance (unsettled as) m (\<lambda>_. unsettled as)"
  unfolding always_def guar_def
  by (auto intro: same_actions_advance) (auto simp: same_actions_def actions_inv_def unsettled_def get_action_def)

lemma signore_same: "always same_actions m \<Longrightarrow> always same_actions (signore m)"
  by (rule same_actions.always_signore)

lemma recover_actions_advance:
  "distinct (map act_action_id as) \<Longrightarrow> guar advance (unsettled as) (recover_actions E I now as) (\<lambda>_ _. True)"
proof (induction as)
  case Nil
  show ?case by (simp add: advance.guar_sret)
next
  case (Cons a rest)
  have IH: "guar advance (unsettled rest) (recover_actions E I now rest) (\<lambda>_ _. True)" using Cons by simp
  show ?case
  proof (cases "recovered_status now a")
    case None
    have "guar advance (unsettled (a # rest)) (recover_actions E I now rest) (\<lambda>_ _. True)"
      by (rule guar_conseq [OF IH]) (simp_all add: unsettled_def)
    with None show ?thesis by simp
  next
    case (Some st)
    note step = recovered_status_step [OF Some]
    let ?a = "a\<lparr>act_status := st, act_updated_at := now\<rparr>"
    have moved: "action_moved a ?a" using step by (intro step_moved) (simp_all add: reviewed_def)
    have "guar advance (unsettled (a # rest)) (sbind (on_db (put_action ?a)) (\<lambda>_.
        sbind (signore (emit_action E I (act_thread_id ?a) ?a)) (\<lambda>_. recover_actions E I now rest))) (\<lambda>_ _. True)"
      using moved Cons.prems IH
      by (intro advance.guar_bind [OF guar_put_unsettled]
          advance.guar_bind [OF guar_same_unsettled [OF signore_same [OF emit_action_same]]]) auto
    with step show ?thesis by (simp add: Some Let_def sbind_def [of "slift _"] slift_def)
  qed
qed

lemma expire_approvals_same: "always same_actions (expire_approvals now ps)"
proof (induction ps)
  case (Cons p ps)
  have "always same_actions (on_db (put_approval a))" for a
    by (rule on_db_same) (simp add: put_approval_def sm_simps)
  with Cons show ?case by (auto intro!: same_intros)
qed (simp add: same_intros)

lemma candidates_unsettled:
  "actions_inv (sys_db s) \<Longrightarrow> unsettled (list_action_recovery_candidates (sys_db s)) s \<and>
     distinct (map act_action_id (list_action_recovery_candidates (sys_db s)))"
proof
  assume inv: "actions_inv (sys_db s)"
  then have ids: "map act_action_id (map ar_payload (filter P (db_actions (sys_db s)))) =
      map ar_action_id (filter P (db_actions (sys_db s)))" for P
    by (auto simp: actions_inv_def action_row_ok_def)
  show "distinct (map act_action_id (list_action_recovery_candidates (sys_db s)))"
    unfolding list_action_recovery_candidates_def ids using inv by (simp add: actions_inv_def distinct_map_filter)
  show "unsettled (list_action_recovery_candidates (sys_db s)) s"
    using inv by (auto simp: unsettled_def list_action_recovery_candidates_def get_action_def actions_inv_def
        action_row_ok_def tbl_get_distinct)
qed

lemma recover_pending_advance: "always advance (recover_pending E I)"
proof -
  have last: "guar advance (\<lambda>s. actions_inv (sys_db s) \<and> Inr (list_action_recovery_candidates (sys_db s)) = (Inr as :: _ result))
      (recover_actions E I now as) (\<lambda>_ _. True)" for as now
  proof (rule guar_pre)
    fix s :: "'a sys"
    assume "actions_inv (sys_db s) \<and> Inr (list_action_recovery_candidates (sys_db s)) = (Inr as :: _ result)"
    with candidates_unsettled [of s] have "unsettled as s" "distinct (map act_action_id as)" by auto
    with guar_conseq [OF recover_actions_advance [of as E I now], of "\<lambda>t. t = s"]
    show "guar advance (\<lambda>t. t = s) (recover_actions E I now as) (\<lambda>_ _. True)" by simp
  qed
  show ?thesis
    unfolding recover_pending_def
    by (rule always_from_inv, rule advance.guar_bind [OF guar_same_inv [OF utc_now_same]],
        rule advance.guar_bind [OF guar_same_inv [OF same_actions.always_base(4)]],
        rule advance.guar_bind [OF guar_same_inv [OF expire_approvals_same]],
        rule advance.guar_sgets_bind, rule last)
qed

text \<open>Proposing draws a new identifier; as long as it is not taken, no stored action is touched.\<close>

definition proposal_id :: "'w io \<Rightarrow> 'w sys \<Rightarrow> uuid" where
  "proposal_id I s = fst (io_uuid I (snd (io_now I (sys_world s))))"

definition unused :: "uuid \<Rightarrow> 'w sys \<Rightarrow> bool" where
  "unused i s \<longleftrightarrow> actions_inv (sys_db s) \<and> get_action i (sys_db s) = None"

lemma guar_same_unused: "always same_actions m \<Longrightarrow> guar advance (unused i) m (\<lambda>_. unused i)"
  unfolding always_def guar_def
  by (auto intro: same_actions_advance) (auto simp: same_actions_def actions_inv_def unused_def get_action_def)

lemma guar_put_new:
  "guar advance (unused (act_action_id a)) (on_db (put_action a)) (\<lambda>_ _. True)"
proof (rule guarI)
  fix s :: "'a sys"
  assume s: "unused (act_action_id a) s"
  show "advance s (snd (on_db (put_action a) s))"
  proof (cases "put_action a (sys_db s)")
    case (Pair r d)
    show ?thesis
    proof (cases r)
      case (Inl err)
      with Pair show ?thesis by (auto simp: on_db_def put_action_def advance.R_refl split: if_splits)
    next
      case (Inr u)
      with Pair have put: "put_action a (sys_db s) = (Inr (), d)" by simp
      have "actions_inv d" using put_action_inv [of "sys_db s" a] s put by (simp add: unused_def)
      moreover have "get_action aid d = Some b" if "get_action aid (sys_db s) = Some b" for aid b
        using get_put_action(2) [OF put] that s by (cases "aid = act_action_id a") (auto simp: unused_def)
      ultimately show ?thesis by (auto simp: on_db_def put advance_def actions_moved_def)
    qed
  qed
qed simp

lemma persist_new: "act_action_id a = i \<Longrightarrow> guar advance (unused i) (persist_action a cs) (\<lambda>_ _. True)"
proof -
  assume i: "act_action_id a = i"
  have "always same_actions (on_db (put_action_plan p))" for p
    by (rule on_db_same) (simp add: put_action_plan_def sm_simps)
  then show ?thesis
    unfolding persist_action_def i [symmetric] by (intro advance.guar_bind [OF guar_same_unused] guar_put_new)
qed

lemma guar_then_same:
  "guar advance P m (\<lambda>_ _. True) \<Longrightarrow> (\<And>x. always same_actions (f x)) \<Longrightarrow> guar advance P (sbind m f) (\<lambda>_ _. True)"
  by (rule advance.guar_bind) (auto intro: guar_always always_same_advance)

lemma deny_proposal_advance:
  "guar advance (unused (act_action_id a)) (deny_proposal E I t w a cs) (\<lambda>_ _. True)"
  unfolding deny_proposal_def Let_def
  by (intro guar_then_same persist_new same_intros fact_same) simp

lemma reject_uncertain_advance:
  "guar advance (unused (act_action_id a)) (reject_uncertain E I t a cs dry) (\<lambda>_ _. True)"
  unfolding reject_uncertain_def Let_def
  by (intro guar_then_same persist_new same_intros fact_same) simp

lemma await_approval_advance:
  "guar advance (unused (act_action_id a)) (await_approval E I t w kind a cs dry) (\<lambda>_ _. True)"
  unfolding await_approval_def Let_def
  by (intro advance.guar_slift_bind advance.guar_bind [OF guar_same_unused [OF fresh_uuid_same]] guar_then_same
      persist_new same_intros fact_same) simp

lemma build_action_run:
  "build_action E I t w kind ps ttl s = (Inr a, s') \<Longrightarrow>
     act_action_id a = proposal_id I s \<and> sys_db s' = sys_db s \<and>
     (\<exists>spec now plan. action_spec w kind ps = Inr spec \<and>
        a = proposed_action E t w kind spec now (now + ttl) (proposal_id I s) plan)"
  by (auto simp: build_action_def sbind_Inr_iff utc_now_def fresh_uuid_def on_world_def sask_def proposal_id_def
      proposed_action_def sret_def slift_def Let_def)

lemma propose_advance:
  assumes "get_action (proposal_id I s) (sys_db s) = None"
  shows "advance s (snd (propose_action_plan E I t kind ps cs s))"
proof (cases "actions_inv (sys_db s)")
  case True
  have built: "guar advance (\<lambda>u. u = s) (build_action E I t w kind ps ttl) (\<lambda>a. unused (act_action_id a))" for w ttl
  proof (rule guarI)
    fix u assume "u = s"
    have "always same_actions (build_action E I t w kind ps ttl)"
      unfolding build_action_def by (intro same_intros fact_same)
    from same_actions_advance [OF alwaysD [OF this]] show "advance u (snd (build_action E I t w kind ps ttl u))" .
    show "unused (act_action_id a) u'" if "build_action E I t w kind ps ttl u = (Inr a, u')" for a u'
      using build_action_run [OF that] \<open>u = s\<close> assms True by (simp add: unused_def)
  qed
  have decided: "guar advance (unused (act_action_id a)) (
       if deny_extension_remediation (act_tool_id a) \<or> decision = PolicyDecision.Deny
       then deny_proposal E I t w a cs
       else
         sbind (slift (transition ActionStatus.Proposed ActionStatus.DryRun)) (\<lambda>st.
           let action = a\<lparr>act_status := st\<rparr> in
           sbind (run_action I action True) (\<lambda>dry.
             if out_uncertain dry then reject_uncertain E I t action cs dry
             else await_approval E I t w kind action cs dry))) (\<lambda>_ _. True)" for a w decision
    using deny_proposal_advance [of a E I t w cs]
      reject_uncertain_advance [of "a\<lparr>act_status := ActionStatus.DryRun\<rparr>" E I t cs]
      await_approval_advance [of "a\<lparr>act_status := ActionStatus.DryRun\<rparr>" E I t w kind cs]
    by (auto simp: Let_def intro!: advance.guar_slift_bind advance.guar_bind [OF guar_same_unused [OF run_action_same]])
  have "guar advance (\<lambda>u. u = s) (propose_action_plan E I t kind ps cs) (\<lambda>_ _. True)"
    unfolding propose_action_plan_def Let_def
    by (rule advance.guar_bind [OF advance.guar_sgets], assumption, rule advance.guar_bind [OF advance.guar_sgets],
        assumption, rule advance.guar_bind [OF advance.guar_sgets], assumption, rule advance.guar_bind [OF built],
        rule advance.guar_slift_bind, rule advance.guar_bind [OF advance.guar_sgets], assumption)
       (rule decided [unfolded Let_def])
  from guarD [OF this refl] show ?thesis .
qed (simp add: advance_def actions_moved_def)

section \<open>Runs\<close>

text \<open>
  What can happen between two looks at the system: a proposal with an unused identifier, an approval
  or rejection, an execution, a recovery, a turn of the kill switch, or anything else that leaves the
  actions alone. Each handler counts with everything it wrote, whatever it returned.
\<close>

inductive rem_step :: "ext \<Rightarrow> 'w io \<Rightarrow> 'w sys \<Rightarrow> 'w sys \<Rightarrow> bool" for E I where
  propose: "get_action (proposal_id I s) (sys_db s) = None \<Longrightarrow>
     rem_step E I s (snd (propose_action_plan E I t kind ps cs s))"
| approve: "rem_step E I s (snd (approve_action E I aid h ok s))"
| execute: "rem_step E I s (snd (execute_action E I aid s))"
| recover: "rem_step E I s (snd (recover_pending E I s))"
| kill_switch: "rem_step E I s (snd (set_kill_switch on s))"
| elsewhere: "same_actions s s' \<Longrightarrow> rem_step E I s s'"

lemma rem_step_advance: "rem_step E I s s' \<Longrightarrow> advance s s'"
proof (induction rule: rem_step.induct)
  case (kill_switch s on)
  show ?case by (simp add: same_actions_advance same_actions_def set_kill_switch_def sm_simps)
qed (auto intro: propose_advance alwaysD [OF approve_action_advance] alwaysD [OF execute_action_advance]
    alwaysD [OF recover_pending_advance] same_actions_advance)

lemma rem_run_advance: "(rem_step E I)\<^sup>*\<^sup>* s s' \<Longrightarrow> advance s s'"
  by (induction rule: rtranclp_induct) (auto intro: advance.R_refl advance.R_trans rem_step_advance)

subsection \<open>An action that was claimed\<close>

text \<open>Once claimed, an action is beyond authorisation for ever.\<close>

definition claimed :: "uuid \<Rightarrow> 'w sys \<Rightarrow> bool" where
  "claimed aid s \<longleftrightarrow> actions_inv (sys_db s) \<and>
     (\<exists>a. get_action aid (sys_db s) = Some a \<and> can_transition\<^sup>*\<^sup>* ActionStatus.PreconditionCheck (act_status a))"

lemma claimed_advance: "claimed aid s \<Longrightarrow> advance s s' \<Longrightarrow> claimed aid s'"
proof -
  assume "claimed aid s" and adv: "advance s s'"
  then obtain a where a: "actions_inv (sys_db s)" "get_action aid (sys_db s) = Some a"
    "can_transition\<^sup>*\<^sup>* ActionStatus.PreconditionCheck (act_status a)" by (auto simp: claimed_def)
  with adv obtain a' where a': "actions_inv (sys_db s')" "get_action aid (sys_db s') = Some a'" "action_moved a a'"
    by (auto simp: advance_def actions_moved_def)
  with a(3) have "can_transition\<^sup>*\<^sup>* ActionStatus.PreconditionCheck (act_status a')"
    by (auto simp: action_moved_def intro: rtranclp_trans)
  with a' show ?thesis by (auto simp: claimed_def)
qed

lemma transitions_level: "can_transition\<^sup>*\<^sup>* s t \<Longrightarrow> s = t \<or> status_level s < status_level t"
  by (induction rule: rtranclp_induct) (auto dest!: can_transition_level)

lemma claimed_not_authorized:
  "can_transition\<^sup>*\<^sup>* ActionStatus.PreconditionCheck st \<Longrightarrow> st \<noteq> ActionStatus.Authorized"
  by (auto dest!: transitions_level)

text \<open>\<open>idle I s s'\<close>: nothing changed but that the clock may have been read once.\<close>

definition idle :: "'w io \<Rightarrow> 'w sys \<Rightarrow> 'w sys \<Rightarrow> bool" where
  "idle I s s' \<longleftrightarrow> s' = s \<or> s' = s\<lparr>sys_world := snd (io_now I (sys_world s))\<rparr>"

lemma utc_now_run: "utc_now I s = (Inr (fst (io_now I (sys_world s))), s\<lparr>sys_world := snd (io_now I (sys_world s))\<rparr>)"
  by (simp add: utc_now_def on_world_def sask_def)

lemma claimed_refused:
  assumes "claimed aid s"
  shows "\<exists>err s'. execute_action E I aid s = (Inl err, s') \<and> idle I s s'"
proof (cases "rem_kill_switch (sys_rem s) \<or> \<not> rem_enabled (sys_rem s)")
  case True
  then show ?thesis by (auto simp: execute_action_def sm_simps idle_def)
next
  case False
  from assms obtain a where a: "actions_inv (sys_db s)" "get_action aid (sys_db s) = Some a"
    "act_status a \<noteq> ActionStatus.Authorized" by (auto simp: claimed_def dest: claimed_not_authorized)
  have "claim_action_for_execution E aid now (sys_db s) = (Inr None, sys_db s)" for now
    using claim_result [OF a(1,2)] a(3) by simp
  with False a(2) show ?thesis
    by (auto simp: execute_action_def claim_or_refuse_def find_action_def sm_simps utc_now_run on_db_def idle_def)
qed

text \<open>An execution either finds nothing to claim and does nothing, or leaves the action claimed.\<close>

lemma execute_idle_or_claimed:
  assumes inv: "actions_inv (sys_db s)" and run: "execute_action E I aid s = (r, s')"
  shows "sys_world s' \<in> {sys_world s, snd (io_now I (sys_world s))} \<and> sys_rem s' = sys_rem s \<or> claimed aid s'"
proof (cases "rem_kill_switch (sys_rem s) \<or> \<not> rem_enabled (sys_rem s)")
  case True
  with run show ?thesis by (auto simp: execute_action_def sm_simps)
next
  case False
  then have exec: "execute_action E I aid s = sbind (claim_or_refuse E I aid) (run_claimed E I) s"
    by (simp add: execute_action_def sm_simps)
  obtain c u where claim: "claim_or_refuse E I aid s = (c, u)" by fastforce
  show ?thesis
  proof (cases c)
    case (Inl err)
    then have "s' = u" using run exec claim by (simp add: sbind_def)
    moreover have "sys_world u = snd (io_now I (sys_world s)) \<and> sys_rem u = sys_rem s"
      using claim Inl
      by (auto simp: claim_or_refuse_def sm_simps utc_now_run on_db_def find_action_def split: prod.splits sum.splits option.splits)
    ultimately show ?thesis by simp
  next
    case (Inr a)
    with claim guar_value [OF claim_or_refuse_stored inv] have st: "stored a u"
      "act_status a = ActionStatus.PreconditionCheck" and aid: "act_action_id a = aid" by auto
    have "claimed aid u" using st aid by (auto simp: claimed_def stored_def)
    moreover have "advance u s'"
      using guarD [OF run_claimed_advance [OF st(2)] st(1), of E I] run exec claim Inr by (simp add: sbind_def)
    ultimately show ?thesis using claimed_advance by blast
  qed
qed

subsection \<open>Approval\<close>

lemma expire_if_needed_run:
  "expire_if_needed I a s = (Inr b, s') \<Longrightarrow> act_status b = ActionStatus.AwaitingApproval \<Longrightarrow>
     b = a \<and> sys_db s' = sys_db s \<and> fst (io_now I (sys_world s)) < act_expires_at a"
  by (auto simp: expire_if_needed_def sbind_Inr_iff sret_def slift_def utc_now_run Let_def split: if_splits)

lemma same_get_action: "same_actions s s' \<Longrightarrow> get_action aid (sys_db s') = get_action aid (sys_db s)"
  by (simp add: same_actions_def get_action_def)

lemma same_run: "always same_actions m \<Longrightarrow> m s = (r, s') \<Longrightarrow> get_action aid (sys_db s') = get_action aid (sys_db s)"
  using alwaysD [of same_actions m s] by (simp add: same_get_action)

lemma approve_decision_Inr:
  "approve_decision E h ok a = Inr d \<Longrightarrow> act_status a = ActionStatus.AwaitingApproval \<and> \<not> act_consumed_approval a \<and>
     action_request_hash E a = h \<and> act_request_hash a = h \<and>
     d = a\<lparr>act_status := (if ok then ActionStatus.Authorized else ActionStatus.Rejected), act_consumed_approval := ok\<rparr>"
  by (cases a) (auto simp: approve_decision_def and_then_Inr_iff transition_Inr_iff Let_def split: if_splits)

lemma approve_action_run:
  assumes "approve_action E I aid h ok s = (Inr a, s')"
  shows "\<exists>old d now. get_action aid (sys_db s) = Some old \<and> approve_decision E h ok old = Inr d \<and>
    a = d\<lparr>act_updated_at := now\<rparr> \<and> fst (io_now I (sys_world s)) < act_expires_at old \<and>
    get_action (act_action_id a) (sys_db s') = Some a \<and>
    (\<forall>other. other \<noteq> act_action_id a \<longrightarrow> get_action other (sys_db s') = get_action other (sys_db s))"
proof -
  from assms obtain old action d s1 s2 s3 s4 now where steps:
    "get_action aid (sys_db s) = Some old" "expire_if_needed I old s = (Inr action, s1)"
    "approve_decision E h ok action = Inr d" "utc_now I s1 = (Inr now, s2)" "a = d\<lparr>act_updated_at := now\<rparr>"
    "on_db (put_action a) s2 = (Inr (), s3)"
    "audit E I (if ok then ''action.authorized'' else ''action.rejected'') (Some (act_workspace_id a)) (review_summary E a) s3 = (Inr (), s4)"
    "\<exists>e. emit_action E I (act_thread_id a) a s4 = (Inr e, s')"
    by (auto simp: approve_action_def sbind_Inr_iff find_action_def sgets_def slift_def sret_def Let_def)
  have st: "act_status action = ActionStatus.AwaitingApproval" using approve_decision_Inr [OF steps(3)] by simp
  note old = expire_if_needed_run [OF steps(2) st]
  from steps(6) have put: "put_action a (sys_db s2) = (Inr (), sys_db s3)" by (auto simp: on_db_def split: prod.splits)
  from steps(4) have "sys_db s2 = sys_db s1" by (auto simp: utc_now_run)
  moreover from steps(8) same_run [OF emit_action_same] same_run [OF audit_same steps(7)]
  have "get_action i (sys_db s') = get_action i (sys_db s3)" for i by metis
  ultimately show ?thesis using steps(1,3,5) old get_put_action [OF put]
    by (intro exI [of _ old] exI [of _ d] exI [of _ now]) auto
qed

subsection \<open>What is sent\<close>

text \<open>
  \<open>world_steps I P\<close>: the world changed only by reading the clock, drawing identifiers and sending
  requests that satisfy \<open>P\<close>.
\<close>

definition io_step :: "'w io \<Rightarrow> (HttpRequest \<Rightarrow> bool) \<Rightarrow> 'w \<Rightarrow> 'w \<Rightarrow> bool" where
  "io_step I P w w' \<longleftrightarrow> w' = snd (io_now I w) \<or> w' = snd (io_uuid I w) \<or> (\<exists>rq. P rq \<and> w' = snd (io_send I rq w))"

definition world_steps :: "'w io \<Rightarrow> (HttpRequest \<Rightarrow> bool) \<Rightarrow> 'w \<Rightarrow> 'w \<Rightarrow> bool" where
  "world_steps I P = (io_step I P)\<^sup>*\<^sup>*"

definition sent_only :: "'w io \<Rightarrow> (HttpRequest \<Rightarrow> bool) \<Rightarrow> 'w sys \<Rightarrow> 'w sys \<Rightarrow> bool" where
  "sent_only I P s s' \<longleftrightarrow> world_steps I P (sys_world s) (sys_world s')"

interpretation worlds: guarantee "world_steps I P" for I P
  by unfold_locales (auto simp: world_steps_def)

interpretation sent: guarantee "sent_only I P" for I P
  by unfold_locales (auto simp: sent_only_def intro: worlds.R_refl worlds.R_trans)

lemma world_step: "io_step I P w w' \<Longrightarrow> world_steps I P w w'"
  by (simp add: world_steps_def)

lemma send_step: "P rq \<Longrightarrow> world_steps I P w (snd (io_send I rq w))"
  by (rule world_step) (auto simp: io_step_def)

lemma always_sattempt: "always R m \<Longrightarrow> always R (sattempt m)"
  by (simp add: always_def sattempt_def case_prod_unfold)

lemma always_case_sum:
  "(\<And>e. always R (f e)) \<Longrightarrow> (\<And>x. always R (g x)) \<Longrightarrow> always R (case r of Inl e \<Rightarrow> f e | Inr x \<Rightarrow> g x)"
  by (cases r) simp_all

lemma send_request_sent: "P rq \<Longrightarrow> always (world_steps I P) (send_request I msg rq)"
  by (rule alwaysI, rule world_step) (auto simp: io_step_def send_request_world)

lemma get_workload_sent:
  "(\<And>url. P (get_request c url)) \<Longrightarrow> always (world_steps I P) (get_workload I c kind ns name)"
proof (rule alwaysI)
  fix w assume P: "\<And>url. P (get_request c url)"
  from get_workload_world [of I c kind ns name w] show "world_steps I P w (snd (get_workload I c kind ns name w))"
    using P by (elim disjE exE conjE) (simp_all add: worlds.R_refl send_step)
qed

lemma patch_replicas_sent:
  "(\<And>url body. P (patch_request c (if dry then url_append_pairs I [(''dryRun'', ''All'')] url else url) body)) \<Longrightarrow>
     always (world_steps I P) (patch_replicas I c kind ns name n rv oper dry)"
proof (rule alwaysI)
  fix w assume P: "\<And>url body. P (patch_request c (if dry then url_append_pairs I [(''dryRun'', ''All'')] url else url) body)"
  from patch_replicas_world [of I c kind ns name n rv oper dry w]
  show "world_steps I P w (snd (patch_replicas I c kind ns name n rv oper dry w))"
    using P by (elim disjE exE conjE) (simp_all only: worlds.R_refl send_step)
qed

lemma send_json_sent: "P rq \<Longrightarrow> always (world_steps I P) (send_json I rq)"
  unfolding send_json_def
  by (intro worlds.always_bind send_request_sent)
     (auto intro!: worlds.always_bind worlds.always_base worlds.always_if split: prod.split)

text \<open>A request that changes nothing: a read, or a change the server is told to only try.\<close>

definition harmless :: "'w io \<Rightarrow> HttpRequest \<Rightarrow> bool" where
  "harmless I rq \<longleftrightarrow> rq_method rq = GET \<or>
     (rq_method rq = PATCH \<and> (\<exists>url. rq_url rq = url_append_pairs I [(''dryRun'', ''All'')] url))"

lemma harmless_requests [simp]:
  "harmless I (get_request c url)" "harmless I (demo_request GET url)"
  "harmless I (patch_request c (url_append_pairs I [(''dryRun'', ''All'')] url) body)"
  by (auto simp: harmless_def get_request_def demo_request_def patch_request_def)

lemma dry_demo_fault_sent: "always (world_steps I (harmless I)) (execute_demo_fault I base True)"
  unfolding execute_demo_fault_def get_json_def Let_def if_True
  by (intro worlds.always_bind worlds.always_base send_json_sent) simp

lemma dry_k8s_scale_sent:
  "always (world_steps I (harmless I)) (execute_k8s_scale I c kind ns name n rv uid oper True)"
  unfolding execute_k8s_scale_def Let_def
  by (intro worlds.always_bind worlds.always_base worlds.always_if get_workload_sent always_case_sum always_sattempt
      patch_replicas_sent) simp_all

lemma on_world_sent: "always (world_steps I P) m \<Longrightarrow> always (sent_only I P) (on_world m)"
  by (simp add: always_def sent_only_def on_world_def case_prod_unfold)

lemma on_db_sent: "always (sent_only I P) (on_db m)"
  by (simp add: always_def sent_only_def on_db_def worlds.R_refl case_prod_unfold)

lemma utc_now_sent: "always (sent_only I P) (utc_now I)" and fresh_uuid_sent: "always (sent_only I P) (fresh_uuid I)"
  unfolding utc_now_def fresh_uuid_def
  by (rule on_world_sent, rule alwaysI, rule world_step, simp add: sask_def io_step_def)+

lemmas sent_intros = sent.always_bind sent.always_base sent.always_if on_db_sent utc_now_sent fresh_uuid_sent

lemma emit_action_sent: "always (sent_only I P) (emit_action E I t a)"
  unfolding emit_action_def store_append_def by (intro sent_intros)

lemma audit_sent: "always (sent_only I P) (audit E I oper w j)"
  unfolding audit_def by (intro sent_intros)

lemma persist_action_sent: "always (sent_only I P) (persist_action a cs)"
  unfolding persist_action_def by (intro sent_intros)

lemmas report_sent = sent_intros emit_action_sent audit_sent persist_action_sent

lemma dry_run_action_sent: "always (sent_only I (harmless I)) (run_action I a True)"
  unfolding run_action_def
  by (intro sent.always_bind sent.always_base sent.always_if on_world_sent dry_demo_fault_sent dry_k8s_scale_sent)

lemma build_action_sent: "always (sent_only I P) (build_action E I t w kind ps ttl)"
  unfolding build_action_def by (intro sent_intros)

lemma deny_proposal_sent: "always (sent_only I P) (deny_proposal E I t w a cs)"
  unfolding deny_proposal_def Let_def by (intro report_sent)

lemma propose_sent: "always (sent_only I (harmless I)) (propose_action_plan E I t kind ps cs)"
  unfolding propose_action_plan_def Let_def reject_uncertain_def await_approval_def
  by (intro report_sent build_action_sent deny_proposal_sent dry_run_action_sent)

subsection \<open>The kill switch\<close>

definition stopped :: "'w sys \<Rightarrow> bool" where
  "stopped s \<longleftrightarrow> rem_kill_switch (sys_rem s) \<or> \<not> rem_enabled (sys_rem s)"

lemma stopped_denies: "stopped s \<Longrightarrow> evaluate_action (policy_input (sys_rem s) w ws tool eff) = PolicyDecision.Deny"
  by (auto simp: stopped_def evaluate_action_def policy_input_def)

lemma build_action_stopped:
  "guar (sent_only I P) stopped (build_action E I t w kind ps ttl) (\<lambda>_. stopped)"
proof (rule guarI)
  show "sent_only I P s (snd (build_action E I t w kind ps ttl s))" for s by (rule alwaysD [OF build_action_sent])
  show "stopped s'" if "stopped s" "build_action E I t w kind ps ttl s = (Inr a, s')" for s a s'
    using that by (auto simp: stopped_def build_action_def sbind_Inr_iff utc_now_def fresh_uuid_def on_world_def
        sask_def sret_def slift_def)
qed

lemma guar_sent_bind:
  "always (sent_only I P) m \<Longrightarrow> (\<And>x. guar (sent_only I P) (\<lambda>_. True) (f x) Q) \<Longrightarrow> guar (sent_only I P) A (sbind m f) Q"
  by (rule sent.guar_bind [OF guar_always])

lemma deny_proposal_fails: "guar (sent_only I P) A (deny_proposal E I t w a cs) (\<lambda>_ _. False)"
  unfolding deny_proposal_def Let_def
  by (intro guar_sent_bind persist_action_sent audit_sent emit_action_sent sent.guar_sfail)

lemma propose_stopped: "guar (sent_only I P) stopped (propose_action_plan E I t kind ps cs) (\<lambda>_ _. False)"
proof -
  have last: "guar (sent_only I P) (\<lambda>s. stopped s \<and>
      Inr (evaluate_action (policy_input (sys_rem s) w ws (act_tool_id a) eff)) = (Inr decision :: _ result))
     (if deny_extension_remediation (act_tool_id a) \<or> decision = PolicyDecision.Deny
       then deny_proposal E I t w a cs else m) (\<lambda>_ _. False)" for w ws a eff decision m
  proof (cases "decision = PolicyDecision.Deny")
    case True
    then show ?thesis using deny_proposal_fails by simp
  next
    case False
    then show ?thesis by (auto simp: guar_def stopped_denies)
  qed
  show ?thesis
    unfolding propose_action_plan_def Let_def
    by (rule sent.guar_bind [OF sent.guar_sgets], assumption, rule sent.guar_bind [OF sent.guar_sgets], assumption,
        rule sent.guar_bind [OF sent.guar_sgets], assumption, rule sent.guar_bind [OF build_action_stopped],
        rule sent.guar_slift_bind, rule sent.guar_sgets_bind, rule last)
qed

section \<open>Properties\<close>

text \<open>
  C27: actions only move along the status machine. Through any sequence of proposals, approvals,
  executions, recoveries and turns of the kill switch, including those that fail half way, every
  stored action stays stored, its status only moves along legal transitions, everything that was
  reviewed stays as it was, and a consumed approval stays consumed.
\<close>

theorem actions_follow_the_status_machine:
  assumes "actions_inv (sys_db s)" and "get_action aid (sys_db s) = Some a" and "(rem_step E I)\<^sup>*\<^sup>* s s'"
  shows "\<exists>a'. get_action aid (sys_db s') = Some a' \<and> can_transition\<^sup>*\<^sup>* (act_status a) (act_status a') \<and>
    reviewed a' = reviewed a \<and> (act_consumed_approval a \<longrightarrow> act_consumed_approval a')"
  using rem_run_advance [OF assms(3)] assms(1,2) by (auto simp: advance_def actions_moved_def action_moved_def)

definition demo_sys :: "db \<Rightarrow> bool \<Rightarrow> demo_world sys" where
  "demo_sys d kill = \<lparr>sys_db = d, sys_rem = new_remediation True kill False ''http://localhost'' [] 100 ''op'',
     sys_workspaces = [], sys_world = demo_world0 []\<rparr>"

theorem actions_follow_the_status_machine_witness:
  "\<exists>a'. get_action (act_action_id sample_action)
        (sys_db (snd (execute_action demo_ext demo_io (act_action_id sample_action) (demo_sys authorized_db False)))) = Some a' \<and>
     can_transition\<^sup>*\<^sup>* (act_status authorized_action) (act_status a') \<and> reviewed a' = reviewed authorized_action"
proof -
  have "(rem_step demo_ext demo_io)\<^sup>*\<^sup>* (demo_sys authorized_db False)
      (snd (execute_action demo_ext demo_io (act_action_id sample_action) (demo_sys authorized_db False)))"
    by (rule r_into_rtranclp, rule rem_step.execute)
  from actions_follow_the_status_machine [OF _ _ this, of "act_action_id sample_action" authorized_action] show ?thesis
    using authorized_db_inv authorized_db_get by (auto simp: demo_sys_def)
qed

text \<open>
  C26: an action is executed at most once. Either an execution sends nothing (it reads the clock at
  most), or the action is used up: after any further proposals, approvals, recoveries, restarts and
  executions, executing it again is refused and changes nothing.
\<close>

theorem action_is_executed_at_most_once:
  assumes "actions_inv (sys_db s)" and "execute_action E I aid s = (r, s1)"
  shows "sys_world s1 \<in> {sys_world s, snd (io_now I (sys_world s))} \<or>
    (\<forall>s2. (rem_step E I)\<^sup>*\<^sup>* s1 s2 \<longrightarrow> (\<exists>err s3. execute_action E I aid s2 = (Inl err, s3) \<and> idle I s2 s3))"
  using execute_idle_or_claimed [OF assms] claimed_advance [OF _ rem_run_advance] claimed_refused by blast

theorem action_is_executed_at_most_once_witness:
  "let s1 = snd (execute_action demo_ext demo_io (act_action_id sample_action) (demo_sys authorized_db False))
   in sys_world s1 \<in> {demo_world0 [], snd (io_now demo_io (demo_world0 []))} \<or>
      (\<exists>err s3. execute_action demo_ext demo_io (act_action_id sample_action) s1 = (Inl err, s3) \<and> idle demo_io s1 s3)"
  using action_is_executed_at_most_once [of "demo_sys authorized_db False" demo_ext demo_io "act_action_id sample_action"
      "fst (execute_action demo_ext demo_io (act_action_id sample_action) (demo_sys authorized_db False))"
      "snd (execute_action demo_ext demo_io (act_action_id sample_action) (demo_sys authorized_db False))"]
    authorized_db_inv
  unfolding Let_def by (auto simp: demo_sys_def)

text \<open>
  C28: an approval binds exactly what was reviewed. When an approval or a rejection succeeds, the
  stored action awaited approval, had not expired, had no consumed approval, and both its stored
  request hash and the hash of its stored content are the hash the operator sent. The action becomes
  authorized with its approval consumed, or rejected; nothing else of it changes but the time, and
  no other action changes at all.
\<close>

theorem approval_binds_reviewed_action:
  assumes "actions_inv (sys_db s)" and "approve_action E I aid h ok s = (Inr a, s')"
  shows "\<exists>old now. get_action aid (sys_db s) = Some old \<and> act_status old = ActionStatus.AwaitingApproval \<and>
    \<not> act_consumed_approval old \<and> fst (io_now I (sys_world s)) < act_expires_at old \<and>
    action_request_hash E old = h \<and> act_request_hash old = h \<and>
    a = old\<lparr>act_status := (if ok then ActionStatus.Authorized else ActionStatus.Rejected),
      act_consumed_approval := ok, act_updated_at := now\<rparr> \<and>
    get_action aid (sys_db s') = Some a \<and>
    (\<forall>other. other \<noteq> aid \<longrightarrow> get_action other (sys_db s') = get_action other (sys_db s))"
proof -
  from approve_action_run [OF assms(2)] obtain old d now where r: "get_action aid (sys_db s) = Some old"
    "approve_decision E h ok old = Inr d" "a = d\<lparr>act_updated_at := now\<rparr>"
    "fst (io_now I (sys_world s)) < act_expires_at old" "get_action (act_action_id a) (sys_db s') = Some a"
    "\<forall>other. other \<noteq> act_action_id a \<longrightarrow> get_action other (sys_db s') = get_action other (sys_db s)" by blast
  note d = approve_decision_Inr [OF r(2)]
  have "act_action_id a = aid" using get_actionD [OF assms(1) r(1)] d by (simp add: r(3)) blast
  with r d show ?thesis by auto
qed

definition awaiting_action :: ActionRecord where
  "awaiting_action = (let a = sample_action\<lparr>act_status := ActionStatus.AwaitingApproval, act_expires_at := 100,
       act_thread_id := 9\<rparr>
     in a\<lparr>act_request_hash := action_request_hash demo_ext a\<rparr>)"

definition awaiting_db :: db where
  "awaiting_db = sample_db\<lparr>db_actions := [action_row_of awaiting_action]\<rparr>"

lemma awaiting_db_inv: "actions_inv awaiting_db"
  by (simp add: actions_inv_def awaiting_db_def action_row_ok_def)

lemma awaiting_db_get: "get_action (act_action_id sample_action) awaiting_db = Some awaiting_action"
  by (simp add: get_action_def awaiting_db_def awaiting_action_def Let_def)

lemma awaiting_action_hash: "action_request_hash demo_ext awaiting_action = act_request_hash awaiting_action"
  by (simp add: awaiting_action_def Let_def action_request_hash_def action_request_preimage_def)

lemma awaiting_action_simps [simp]:
  "act_status awaiting_action = ActionStatus.AwaitingApproval" "act_consumed_approval awaiting_action = False"
  "act_expires_at awaiting_action = 100" "act_thread_id awaiting_action = 9"
  "act_action_id awaiting_action = act_action_id sample_action"
  by (simp_all add: awaiting_action_def Let_def sample_action_def)

text \<open>An append to the sample thread succeeds in every state that only differs in other tables.\<close>

lemma sample_append_ok:
  assumes "db_events d = db_events sample_db" and "db_threads d = db_threads sample_db"
  shows "\<exists>e d'. append_event demo_ext 0 now (new_append 9 None ev) d = (Inr e, d')"
proof (rule append_event_succeeds)
  have tl: "thread_log t d = thread_log t sample_db" for t by (rule thread_log_cong) (rule assms(1))
  show "store_inv d" using sample_db_inv by (simp add: store_inv_def assms tl)
  show "store_log d (ap_thread_id (new_append 9 None ev)) = Some sample_log"
    using sample_db_log(1) by (auto simp: store_log_def assms tl new_append_def split: if_splits)
  show "Suc (length sample_log) < 2 ^ 63" by (simp add: sample_log_def)
  show "tbl_get er_event_id 0 (db_events d) = None" by (simp add: assms(1) sample_db_def sample_log_def)
qed

lemma sample_emit_ok:
  assumes "db_events (sys_db s) = db_events sample_db" and "db_threads (sys_db s) = db_threads sample_db"
    and "dw_next (sys_world s) = 0" and "act_thread_id a = 9"
  shows "\<exists>e s'. emit_action demo_ext demo_io (act_thread_id a) a s = (Inr e, s')"
proof -
  let ?ev = "ActionUpdated (act_action_id a) (act_plan_id a) (status_as_str (act_status a)) (act_tool_id a)
      (act_request_hash a) (review_summary demo_ext a)"
  from sample_append_ok [OF assms(1,2), of "dw_clock (sys_world s)" ?ev] obtain e d where
    "append_event demo_ext 0 (dw_clock (sys_world s)) (new_append 9 None ?ev) (sys_db s) = (Inr e, d)" by blast
  then show ?thesis
    using assms(3,4) by (simp add: emit_action_def store_append_def sm_simps utc_now_run fresh_uuid_def on_world_def
        sask_def on_db_def)
qed

lemma approve_demo_run:
  "\<exists>a s'. approve_action demo_ext demo_io (act_action_id sample_action) (act_request_hash awaiting_action) True
     (demo_sys awaiting_db False) = (Inr a, s')"
proof -
  let ?a = "awaiting_action\<lparr>act_status := ActionStatus.Authorized, act_consumed_approval := True, act_updated_at := 1\<rparr>"
  have dec: "approve_decision demo_ext (act_request_hash awaiting_action) True awaiting_action =
      Inr (awaiting_action\<lparr>act_status := ActionStatus.Authorized, act_consumed_approval := True\<rparr>)"
    by (simp add: approve_decision_def awaiting_action_hash)
  obtain d1 where d1: "put_action ?a awaiting_db = (Inr (), d1)"
    "db_events d1 = db_events sample_db" "db_threads d1 = db_threads sample_db"
    by (auto simp: put_action_def awaiting_db_def tbl_get_def)
  define d2 where "d2 = snd (append_audit demo_ext 2 ''op'' (Some (act_workspace_id ?a)) ''action.authorized''
      (review_summary demo_ext ?a) d1)"
  have audited: "append_audit demo_ext 2 ''op'' (Some (act_workspace_id ?a)) ''action.authorized''
      (review_summary demo_ext ?a) d1 = (Inr (), d2)" "db_events d2 = db_events sample_db" "db_threads d2 = db_threads sample_db"
    using d1 by (simp_all add: d2_def append_audit_def Let_def)
  let ?s = "(demo_sys awaiting_db False)\<lparr>sys_db := d2, sys_world := (demo_world0 [])\<lparr>dw_clock := 3\<rparr>\<rparr>"
  obtain e s' where emit: "emit_action demo_ext demo_io 9 ?a ?s = (Inr e, s')"
    using sample_emit_ok [of ?s ?a] audited by (auto simp: demo_world0_def demo_sys_def)
  show ?thesis
    using emit audited(1) d1(1)
    by (simp add: approve_action_def sm_simps find_action_def demo_sys_def awaiting_db_get expire_if_needed_def
      utc_now_run demo_world0_def dec Let_def on_db_def audit_def new_remediation_def)
qed

theorem approval_binds_reviewed_action_witness:
  "\<exists>a s' now. approve_action demo_ext demo_io (act_action_id sample_action) (act_request_hash awaiting_action) True
       (demo_sys awaiting_db False) = (Inr a, s') \<and>
     a = awaiting_action\<lparr>act_status := ActionStatus.Authorized, act_consumed_approval := True, act_updated_at := now\<rparr> \<and>
     get_action (act_action_id sample_action) (sys_db s') = Some a"
proof -
  have inv: "actions_inv (sys_db (demo_sys awaiting_db False))" by (simp add: demo_sys_def awaiting_db_inv)
  obtain a s' where run: "approve_action demo_ext demo_io (act_action_id sample_action)
      (act_request_hash awaiting_action) True (demo_sys awaiting_db False) = (Inr a, s')" using approve_demo_run by blast
  from approval_binds_reviewed_action [OF inv run] run show ?thesis
    by (auto simp: demo_sys_def awaiting_db_get)
qed

text \<open>
  C29: the kill switch stops changes. While it is on, or remediation is off, executing is refused and
  changes nothing at all, and proposing always fails without sending a single request: the world
  changes only by reading the clock and drawing identifiers.
\<close>

theorem kill_switch_stops_changes:
  assumes "rem_kill_switch (sys_rem s) \<or> \<not> rem_enabled (sys_rem s)"
  shows "execute_action E I aid s = (Inl (OpsCodexError.Policy ''kill switch is blocking change operations''), s) \<and>
    \<not> is_ok (fst (propose_action_plan E I t kind ps cs s)) \<and>
    world_steps I (\<lambda>_. False) (sys_world s) (sys_world (snd (propose_action_plan E I t kind ps cs s)))"
proof -
  have "stopped s" using assms by (simp add: stopped_def)
  with propose_stopped [of I "\<lambda>_. False" E t kind ps cs]
  have "sent_only I (\<lambda>_. False) s (snd (propose_action_plan E I t kind ps cs s))"
    "\<not> is_ok (fst (propose_action_plan E I t kind ps cs s))"
    by (auto simp: guar_def is_ok_iff)
  with assms show ?thesis by (simp add: execute_action_def sm_simps sent_only_def)
qed

theorem kill_switch_stops_changes_witness:
  "execute_action demo_ext demo_io 1 (demo_sys authorized_db True) =
     (Inl (OpsCodexError.Policy ''kill switch is blocking change operations''), demo_sys authorized_db True)"
  using kill_switch_stops_changes [of "demo_sys authorized_db True" demo_ext demo_io 1]
  by (simp add: demo_sys_def new_remediation_def)

text \<open>
  A proposal changes nothing outside. Whatever is proposed and whatever the servers answer, all
  requests sent on the way are reads or carry the server's dry-run flag; and no stored action is
  touched when the new identifier is unused.
\<close>

theorem proposal_only_tries:
  assumes "get_action (proposal_id I s) (sys_db s) = None" and "actions_inv (sys_db s)"
  shows "world_steps I (harmless I) (sys_world s) (sys_world (snd (propose_action_plan E I t kind ps cs s))) \<and>
    (\<forall>aid a. get_action aid (sys_db s) = Some a \<longrightarrow>
       (\<exists>a'. get_action aid (sys_db (snd (propose_action_plan E I t kind ps cs s))) = Some a' \<and> action_moved a a'))"
  using alwaysD [OF propose_sent [of I E t kind ps cs], of s] propose_advance [OF assms(1), of E t kind ps cs] assms(2)
  by (auto simp: sent_only_def advance_def actions_moved_def)

theorem proposal_only_tries_witness:
  "world_steps demo_io (harmless demo_io) (demo_world0 [])
     (sys_world (snd (propose_action_plan demo_ext demo_io 9 K8S_SCALE_TOOL JNull [] (demo_sys sample_db False))))"
proof -
  have "get_action (proposal_id demo_io (demo_sys sample_db False)) (sys_db (demo_sys sample_db False)) = None"
    "actions_inv (sys_db (demo_sys sample_db False))"
    by (simp_all add: demo_sys_def get_action_def sample_db_def empty_db_def actions_inv_def)
  from proposal_only_tries [OF this, of demo_ext 9 K8S_SCALE_TOOL JNull "[]"] show ?thesis by (simp add: demo_sys_def)
qed

text \<open>
  What runs is what was asked for. The parameters a scale action is stored with are read back
  unchanged when it runs: the kind is one of the two that can be scaled, the number of replicas lies
  between 1 and 16 and survives the conversion to 32 bits.
\<close>

theorem scale_parameters_round_trip:
  assumes "k8s_scale_spec ps = Inr spec"
  shows "\<exists>kind ns name n. required_str ps ''kind'' = Inr kind \<and> required_str ps ''namespace'' = Inr ns \<and>
    required_str ps ''name'' = Inr name \<and> json_get ''replicas'' ps = Some (JNum (int n)) \<and>
    kind \<in> {''Deployment'', ''StatefulSet''} \<and> 1 \<le> n \<and> n \<le> 16 \<and> n mod 2 ^ 32 = n \<and>
    required_str (spec_parameters spec) ''kind'' = Inr kind \<and>
    required_str (spec_parameters spec) ''namespace'' = Inr ns \<and>
    required_str (spec_parameters spec) ''name'' = Inr name \<and>
    Option.bind (json_get ''replicas'' (spec_parameters spec)) json_as_u64 = Some n"
proof -
  have num: "j = JNum (int n)" if "json_as_u64 j = Some n" for j n
    using that by (cases j) (auto split: if_splits)
  from assms obtain kind ns name n where "required_str ps ''kind'' = Inr kind" "required_str ps ''namespace'' = Inr ns"
    "required_str ps ''name'' = Inr name" "Option.bind (json_get ''replicas'' ps) json_as_u64 = Some n"
    "kind \<in> {''Deployment'', ''StatefulSet''}" "1 \<le> n" "n \<le> 16"
    "spec_parameters spec = JObj [(''kind'', JStr kind), (''name'', JStr name),
               (''namespace'', JStr ns), (''replicas'', JNum (int n))]"
    by (auto simp: k8s_scale_spec_def and_then_Inr_iff split: if_splits)
  moreover from this(4) have "json_get ''replicas'' ps = Some (JNum (int n))"
    by (cases "json_get ''replicas'' ps") (auto dest: num)
  ultimately show ?thesis
    by (intro exI [of _ kind] exI [of _ ns] exI [of _ name] exI [of _ n])
       (simp add: required_str_def json_get_str_def)
qed

theorem scale_parameters_round_trip_witness:
  "\<exists>spec. k8s_scale_spec (JObj [(''kind'', JStr ''Deployment''), (''name'', JStr ''api''),
      (''namespace'', JStr ''demo''), (''replicas'', JNum 3)]) = Inr spec \<and>
     Option.bind (json_get ''replicas'' (spec_parameters spec)) json_as_u64 = Some 3"
proof -
  let ?ps = "JObj [(''kind'', JStr ''Deployment''), (''name'', JStr ''api''), (''namespace'', JStr ''demo''),
    (''replicas'', JNum 3)]"
  obtain spec where spec: "k8s_scale_spec ?ps = Inr spec"
    by (simp add: k8s_scale_spec_def required_str_def json_get_str_def)
  from scale_parameters_round_trip [OF spec] spec show ?thesis by auto
qed

section \<open>Two approvals at once\<close>

text \<open>
  The approval handler reads the action, checks it and writes it back without comparing again. When
  two approvals of the same action overlap, the second one writes what it decided on the old record
  even after the action has been claimed, and the action can be claimed a second time.
\<close>

lemma put_existing:
  assumes "actions_inv d" and "get_action (act_action_id b) d = Some x"
  shows "\<exists>d'. put_action b d = (Inr (), d') \<and> actions_inv d' \<and> get_action (act_action_id b) d' = Some b"
proof -
  have "tbl_get ar_action_id (act_action_id b) (db_actions d) \<noteq> None" using assms(2) by (auto simp: get_action_def)
  then obtain d' where put: "put_action b d = (Inr (), d')" by (simp add: put_action_def)
  with put_action_inv [OF assms(1), of b] get_put_action(1) [OF put] show ?thesis by auto
qed

lemma stale_approval_reopens_claim:
  assumes inv: "actions_inv d0" and get: "get_action aid d0 = Some a" and ok: "approve_decision E h True a = Inr b"
    and now: "now < act_expires_at a"
  shows "\<exists>d1 c d2 d3 d4. put_action b d0 = (Inr (), d1) \<and>
    claim_action_for_execution E aid now d1 = (Inr (Some c), d2) \<and>
    put_action b d2 = (Inr (), d3) \<and> claim_action_for_execution E aid now d3 = (Inr (Some c), d4)"
proof -
  note d = approve_decision_Inr [OF ok]
  have b: "b = a\<lparr>act_status := ActionStatus.Authorized, act_consumed_approval := True\<rparr>" using d by simp
  have hash: "action_request_hash E b = act_request_hash b"
    using d by (simp add: b action_request_hash_def action_request_preimage_def)
  have id: "act_action_id b = aid" using get_actionD [OF inv get] by (auto simp: b)
  have claim: "\<exists>d'. claim_action_for_execution E aid now e =
      (Inr (Some (b\<lparr>act_status := ActionStatus.PreconditionCheck, act_updated_at := now\<rparr>)), d')"
    if "actions_inv e" "get_action aid e = Some b" for e
    using claim_result [OF that, of E now] now hash by (auto simp: b)
  obtain d1 where d1: "put_action b d0 = (Inr (), d1)" "actions_inv d1" "get_action aid d1 = Some b"
    using put_existing [OF inv, of b a] get id by auto
  obtain c d2 where d2: "claim_action_for_execution E aid now d1 = (Inr (Some c), d2)"
    "c = b\<lparr>act_status := ActionStatus.PreconditionCheck, act_updated_at := now\<rparr>"
    using claim [OF d1(2,3)] by blast
  have "actions_inv d2" "get_action aid d2 = Some c"
    using claim_inv [OF d1(2), of E aid now] claimed_state [OF d1(2) d2(1)] d2(1) by auto
  then obtain d3 where d3: "put_action b d2 = (Inr (), d3)" "actions_inv d3" "get_action aid d3 = Some b"
    using put_existing [of d2 b c] id by auto
  obtain d4 where "claim_action_for_execution E aid now d3 = (Inr (Some c), d4)"
    using claim [OF d3(2,3)] d2(2) by blast
  with d1(1) d2(1) d3(1) show ?thesis by blast
qed

end
