(* ===== verification/Redact.thy ===== *)
theory Redact
  imports Http Events
begin

text \<open>
  Redaction of what tools return, before it is stored, shown to the model or hashed
  (\<open>src/evidence/redact.rs\<close>). A scan loop over \<open>output[search_from..]\<close> is a recursion on that slice: the
  bytes before \<open>search_from\<close> are not looked at again. A slice or range that panics is \<open>None\<close>.

  The lemmas show that no key of the two recognised shapes survives redaction anywhere in a JSON
  value, that the value of a sensitive key is always masked, and when redaction panics.
\<close>

section \<open>Scanning\<close>

fun find_sub :: "string \<Rightarrow> string \<Rightarrow> nat option" where
  "find_sub p [] = (if p = [] then Some 0 else None)"
| "find_sub p (x # xs) = (if starts_with p (x # xs) then Some 0 else map_option Suc (find_sub p xs))"

definition REDACTED :: string where
  "REDACTED = ''[REDACTED]''"

text \<open>\<open>ch.is_ascii_alphanumeric() || ch == '_' || ch == '-'\<close>\<close>

definition key_char :: "char \<Rightarrow> bool" where
  "key_char c = (is_ascii_alphanumeric c \<or> c = CHR ''_'' \<or> c = CHR ''-'')"

text \<open>The characters before the first white space character, or the first byte in \<open>stops\<close>.\<close>

fun take_word :: "char list \<Rightarrow> string \<Rightarrow> string" where
  "take_word stops [] = []"
| "take_word stops (c # cs) =
     (if strip_any whitespace (c # cs) \<noteq> None \<or> c \<in> set stops then [] else c # take_word stops cs)"

section \<open>Patterns\<close>

definition redact_pem :: "string \<Rightarrow> (string \<times> bool) option" where
  "redact_pem s =
     (case (find_sub ''-----BEGIN '' s, find_sub ''-----END '' s) of
        (Some start, Some e) \<Rightarrow>
          let end_pos = (case find_sub ''-----'' (drop e s) of
                 Some offset \<Rightarrow> e + offset + 5 | None \<Rightarrow> length s)
          in if end_pos < start then None
             else Some (take start s @ ''[REDACTED_PRIVATE_KEY]'' @ drop end_pos s, True)
      | _ \<Rightarrow> Some (s, False))"

lemma find_sub_Some: "find_sub p s = Some n \<Longrightarrow> n + length p \<le> length s \<and> starts_with p (drop n s)"
proof (induction s arbitrary: n)
  case Nil
  then show ?case by (auto simp: starts_with_def split: if_splits)
next
  case (Cons x xs)
  show ?case
  proof (cases "starts_with p (x # xs)")
    case True
    then have "length p \<le> length (x # xs)"
      unfolding starts_with_def by (metis length_take min.cobounded2 min.commute)
    with True Cons.prems show ?thesis by simp
  next
    case False
    with Cons.prems obtain m where "find_sub p xs = Some m" "n = Suc m" by auto
    with Cons.IH show ?thesis by auto
  qed
qed

text \<open>The two scan loops are only called with a literal that is not empty; the test for an empty one makes them total.\<close>

function replace_scan :: "string \<Rightarrow> nat \<Rightarrow> string \<Rightarrow> string \<times> bool" where
  "replace_scan pfx min_rest s =
     (case find_sub pfx s of
        None \<Rightarrow> (s, False)
      | Some start \<Rightarrow>
          if pfx = [] then (s, False) else
          let rest = drop (start + length pfx) s;
              rest_len = length (takeWhile key_char rest)
          in if min_rest \<le> rest_len
             then (case replace_scan pfx min_rest (drop rest_len rest) of
                     (out, _) \<Rightarrow> (take start s @ REDACTED @ out, True))
             else (case replace_scan pfx min_rest rest of
                     (out, changed) \<Rightarrow> (take start s @ pfx @ out, changed)))"
  by pat_completeness auto
termination
  by (relation "measure (\<lambda>(p, m, s). length s)") (auto dest!: find_sub_Some simp: neq_Nil_conv)

declare replace_scan.simps [simp del]

definition replace_prefixed :: "string \<Rightarrow> nat \<Rightarrow> string \<Rightarrow> string \<times> bool" where
  "replace_prefixed pfx min_rest s = replace_scan pfx min_rest s"

definition redact_bearer :: "string \<Rightarrow> string \<times> bool" where
  "redact_bearer s =
     (case find_sub ''bearer '' (to_ascii_lowercase s) of
        None \<Rightarrow> (s, False)
      | Some index \<Rightarrow>
          let rest = drop (index + length ''bearer '') s;
              word = take_word [] rest
          in if 8 < char_count word
             then (take index s @ ''Bearer [REDACTED]'' @ drop (length word) rest, True)
             else (s, False))"

function assignment_scan :: "string \<Rightarrow> string \<Rightarrow> string \<times> bool" where
  "assignment_scan key s =
     (case find_sub key (to_ascii_lowercase s) of
        None \<Rightarrow> (s, False)
      | Some start \<Rightarrow>
          if key = [] then (s, False) else
          let rest = drop (start + length key) s;
              trimmed = strip_all whitespace rest;
              continue = (case assignment_scan key rest of
                 (out, changed) \<Rightarrow> (take (start + length key) s @ out, changed))
          in (case trimmed of
                [] \<Rightarrow> (s, False)
              | first # value \<Rightarrow>
                  if first \<noteq> CHR ''='' \<and> first \<noteq> CHR '':'' then continue
                  else
                    let value_trimmed = strip_all whitespace value;
                        word = take_word [CHR '','', CHR '';'', CHR 0x22] value_trimmed
                    in if word \<noteq> []
                       then (take (length s - length value_trimmed) s @ REDACTED @
                               drop (length word) value_trimmed, True)
                       else continue))"
  by pat_completeness auto
termination
  by (relation "measure (\<lambda>(k, s). length s)")
     (auto dest!: find_sub_Some simp: neq_Nil_conv to_ascii_lowercase_def)

declare assignment_scan.simps [simp del]

definition redact_assignment :: "string \<Rightarrow> string \<Rightarrow> string \<times> bool" where
  "redact_assignment key s = assignment_scan key s"

section \<open>Text and JSON\<close>

definition redact_step :: "(string \<Rightarrow> string \<times> bool) \<Rightarrow> string \<times> bool \<Rightarrow> string \<times> bool" where
  "redact_step f p = (case f (fst p) of (out, changed) \<Rightarrow> (out, snd p \<or> changed))"

definition redact_text :: "string \<Rightarrow> (string \<times> bool) option" where
  "redact_text s =
     map_option (fold redact_step
       [replace_prefixed ''sk-'' 20, replace_prefixed ''AKIA'' 16, redact_bearer,
        redact_assignment ''password'', redact_assignment ''secret'', redact_assignment ''api_key'',
        redact_assignment ''api-key'', redact_assignment ''token'']) (redact_pem s)"

definition is_sensitive_key :: "string \<Rightarrow> bool" where
  "is_sensitive_key key =
     (to_ascii_lowercase key \<in> {''password'', ''secret'', ''token'', ''api_key'', ''apikey'',
        ''authorization'', ''private_key''})"

fun redact_value :: "json \<Rightarrow> (json \<times> bool) option"
  and redact_items :: "json list \<Rightarrow> (json list \<times> bool) option"
  and redact_entries :: "(string \<times> json) list \<Rightarrow> ((string \<times> json) list \<times> bool) option" where
  "redact_value (JStr text) = map_option (\<lambda>(s, changed). (JStr s, changed)) (redact_text text)"
| "redact_value (JArr items) = map_option (\<lambda>(js, changed). (JArr js, changed)) (redact_items items)"
| "redact_value (JObj entries) = map_option (\<lambda>(kvs, changed). (JObj kvs, changed)) (redact_entries entries)"
| "redact_value JNull = Some (JNull, False)"
| "redact_value (JBool b) = Some (JBool b, False)"
| "redact_value (JNum i) = Some (JNum i, False)"
| "redact_value (JFloat n) = Some (JFloat n, False)"
| "redact_items [] = Some ([], False)"
| "redact_items (j # js) =
     Option.bind (redact_value j) (\<lambda>(j', c). Option.bind (redact_items js) (\<lambda>(js', c').
       Some (j' # js', c \<or> c')))"
| "redact_entries [] = Some ([], False)"
| "redact_entries ((key, child) # kvs) =
     (if is_sensitive_key key
      then Option.bind (redact_entries kvs) (\<lambda>(kvs', _). Some ((key, JStr REDACTED) # kvs', True))
      else Option.bind (redact_value child) (\<lambda>(child', c). Option.bind (redact_entries kvs) (\<lambda>(kvs', c').
        Some ((key, child') # kvs', c \<or> c'))))"

definition redact_json :: "json \<Rightarrow> (json \<times> bool) option" where
  "redact_json v = redact_value v"

section \<open>Lemmas\<close>

text \<open>
  A text exposes a key of some shape when the prefix occurs in it followed by enough key characters.
\<close>

definition exposes :: "string \<Rightarrow> nat \<Rightarrow> string \<Rightarrow> bool" where
  "exposes p m s \<longleftrightarrow> (\<exists>a w b. s = a @ p @ w @ b \<and> m \<le> length w \<and> list_all key_char w)"

text \<open>Key shapes no mask can complete or contain.\<close>

definition key_shape :: "string \<Rightarrow> nat \<Rightarrow> bool" where
  "key_shape p m \<longleftrightarrow> p \<noteq> [] \<and> list_all key_char p \<and> 8 < length p + m \<and> last p \<notin> set ''Bearer''"

lemma key_shapes: "key_shape ''sk-'' 20" "key_shape ''AKIA'' 16"
  by (simp_all add: key_shape_def key_char_def is_ascii_alphanumeric_def)

lemma exposesI: "m \<le> length w \<Longrightarrow> list_all key_char w \<Longrightarrow> exposes p m (a @ p @ w @ b)"
  unfolding exposes_def by blast

lemma exposes_appendL: "exposes p m s \<Longrightarrow> exposes p m (z @ s)"
  unfolding exposes_def by (metis append.assoc)

lemma exposes_appendR: "exposes p m s \<Longrightarrow> exposes p m (s @ z)"
  unfolding exposes_def by (metis append.assoc)

lemma hidden_appendD: "\<not> exposes p m (u @ v) \<Longrightarrow> \<not> exposes p m u \<and> \<not> exposes p m v"
  using exposes_appendL exposes_appendR by blast

lemma run_split:
  assumes "a @ r @ b = u @ x # v" and "list_all key_char r" and "\<not> key_char x"
  shows "(\<exists>b'. u = a @ r @ b') \<or> (\<exists>a'. v = a' @ r @ b)"
  using assms by (auto simp: append_eq_append_conv2 append_eq_Cons_conv Cons_eq_append_conv)

lemma exposes_around:
  assumes "list_all key_char p" and "\<not> key_char x"
  shows "exposes p m (u @ x # v) \<longleftrightarrow> exposes p m u \<or> exposes p m v"
proof
  assume "exposes p m (u @ x # v)"
  then obtain a w b where *: "u @ x # v = a @ (p @ w) @ b" "m \<le> length w" "list_all key_char w"
    by (auto simp: exposes_def)
  with assms run_split [of a "p @ w" b u x v] have
    "(\<exists>b'. u = a @ (p @ w) @ b') \<or> (\<exists>a'. v = a' @ (p @ w) @ b)" by auto
  with * exposesI [of m w p] show "exposes p m u \<or> exposes p m v" by auto
next
  assume "exposes p m u \<or> exposes p m v"
  then show "exposes p m (u @ x # v)"
    using exposes_appendR [of p m u "x # v"] exposes_appendL [of p m v "u @ [x]"] by auto
qed

lemma hidden_masked:
  assumes "key_shape p m"
  shows "exposes p m (u @ REDACTED @ v) \<longleftrightarrow> exposes p m u \<or> exposes p m v"
proof -
  have brackets: "\<not> key_char CHR ''[''" "\<not> key_char CHR '']''"
    by (simp_all add: key_char_def is_ascii_alphanumeric_def)
  have p: "list_all key_char p" and short: "8 < length p + m" using assms by (auto simp: key_shape_def)
  have mid: "\<not> exposes p m ''REDACTED''"
  proof
    assume "exposes p m ''REDACTED''"
    then obtain a w b where "''REDACTED'' = a @ p @ w @ b" "m \<le> length w" by (auto simp: exposes_def)
    from arg_cong [OF this(1), of length] this(2) short show False by simp
  qed
  have eq: "u @ REDACTED @ v = u @ CHR ''['' # (''REDACTED'' @ CHR '']'' # v)" by (simp add: REDACTED_def)
  show ?thesis unfolding eq
    by (simp only: exposes_around [OF p brackets(1)] exposes_around [OF p brackets(2)] mid) simp
qed

lemma find_sub_first:
  "find_sub p s = Some n \<Longrightarrow> i < n \<Longrightarrow> \<not> starts_with p (drop i s)"
proof (induction s arbitrary: n i)
  case (Cons x xs)
  then obtain k where k: "n = Suc k" "find_sub p xs = Some k" "\<not> starts_with p (x # xs)"
    by (auto split: if_splits)
  with Cons.prems Cons.IH [of k] show ?case by (cases i) auto
qed (auto split: if_splits)

lemma find_sub_None: "find_sub p s = None \<Longrightarrow> s \<noteq> a @ p @ b"
proof (induction s arbitrary: a)
  case Nil
  then show ?case by (auto split: if_splits)
next
  case (Cons x xs)
  from Cons.prems have n: "\<not> starts_with p (x # xs)" "find_sub p xs = None" by (auto split: if_splits)
  show ?case
  proof (cases a)
    case Nil
    then show ?thesis using n(1) by (auto simp: starts_with_def)
  qed (use Cons.IH [OF n(2)] in auto)
qed

lemma starts_with_iff: "starts_with p s \<longleftrightarrow> (\<exists>r. s = p @ r)"
  by (auto simp: starts_with_def) (metis append_take_drop_id)

lemma find_sub_split:
  assumes "find_sub p s = Some n"
  shows "s = take n s @ p @ drop (n + length p) s"
proof -
  obtain r where "drop n s = p @ r" using find_sub_Some [OF assms] by (auto simp: starts_with_iff)
  moreover from this have "drop (n + length p) s = r" by (metis add.commute append_eq_conv_conj drop_drop)
  ultimately show ?thesis by (metis append_take_drop_id)
qed

text \<open>One round of the scan, as a statement about the pieces of the text.\<close>

lemma replace_scan_cases:
  assumes "p \<noteq> []"
  obtains (none) "find_sub p s = None" "fst (replace_scan p m s) = s"
  | (masked) u v where "s = u @ p @ v" "find_sub p s = Some (length u)"
      "fst (replace_scan p m s) = u @ REDACTED @ fst (replace_scan p m (dropWhile key_char v))"
  | (kept) u v where "s = u @ p @ v" "length (takeWhile key_char v) < m"
      "find_sub p s = Some (length u)"
      "fst (replace_scan p m s) = u @ p @ fst (replace_scan p m v)"
proof (cases "find_sub p s")
  case None
  then show ?thesis using none by (simp add: replace_scan.simps [of p m s])
next
  case (Some n)
  let ?u = "take n s" and ?v = "drop (n + length p) s"
  have s: "s = ?u @ p @ ?v" using Some by (rule find_sub_split)
  have n: "n = length ?u" using find_sub_Some [OF Some] by simp
  show ?thesis
  proof (cases "m \<le> length (takeWhile key_char ?v)")
    case True
    have "fst (replace_scan p m s) = ?u @ REDACTED @ fst (replace_scan p m (dropWhile key_char ?v))"
      using True assms by (simp add: replace_scan.simps [of p m s] Some Let_def dropWhile_eq_drop case_prod_unfold add.commute)
    then show ?thesis using masked [OF s] n Some by auto
  next
    case False
    then have "fst (replace_scan p m s) = ?u @ p @ fst (replace_scan p m ?v)"
      using assms by (simp add: replace_scan.simps [of p m s] Some Let_def case_prod_unfold)
    then show ?thesis using kept [OF s] False n Some by auto
  qed
qed

lemma takeWhile_mask:
  "length (takeWhile key_char (z @ REDACTED @ x)) \<le> length (takeWhile key_char (z @ y))"
  by (induction z) (auto simp: REDACTED_def key_char_def is_ascii_alphanumeric_def)

lemma replace_scan_run:
  assumes "p \<noteq> []"
  shows "length (takeWhile key_char (z @ fst (replace_scan p m s))) \<le> length (takeWhile key_char (z @ s))"
proof (induction "length s" arbitrary: s z rule: less_induct)
  case less
  from assms show ?case
  proof (cases rule: replace_scan_cases [of p s m])
    case (masked u v)
    with takeWhile_mask [of "z @ u" _ "p @ v"] show ?thesis by simp
  next
    case (kept u v)
    with less(1) [of v "z @ u @ p"] assms show ?thesis by simp
  qed simp
qed

lemma first_is_hidden:
  assumes "find_sub p (u @ p @ v) = Some (length u)" and "u @ p @ v' = a @ p @ b"
  shows "length u \<le> length a"
proof (rule ccontr)
  assume "\<not> length u \<le> length a"
  then have lt: "length a < length u" by simp
  then have "take (length a + length p) (u @ p @ v) = take (length a + length p) (u @ p @ v')" by simp
  also have "\<dots> = a @ p" unfolding assms(2) by simp
  finally have "take (length p + length a) (u @ p @ v) = a @ p" by (simp only: add.commute)
  then have "starts_with p (drop (length a) (u @ p @ v))"
    unfolding starts_with_def take_drop by (simp only: append_eq_conv_conj) simp
  with find_sub_first [OF assms(1) lt] show False by contradiction
qed

lemma kept_is_hidden:
  assumes "list_all key_char p" and first: "find_sub p (u @ p @ v) = Some (length u)"
    and run: "length (takeWhile key_char out) < m" and "\<not> exposes p m out"
  shows "\<not> exposes p m (u @ p @ out)"
proof
  assume "exposes p m (u @ p @ out)"
  then obtain a w b where eq: "u @ p @ out = a @ p @ w @ b" and w: "m \<le> length w" "list_all key_char w"
    by (auto simp: exposes_def)
  from first_is_hidden [OF first eq] have "p @ out = drop (length u) a @ p @ w @ b"
    using arg_cong [OF eq, of "drop (length u)"] by simp
  then obtain a' where "p @ out = a' @ p @ w @ b" by blast
  then consider c where "out = c @ p @ w @ b" | c where "p = a' @ c" "c @ out = p @ w @ b"
    using iffD1 [OF append_eq_append_conv2] by blast
  then show False
  proof cases
    case 1
    with assms(4) w show False using exposesI by blast
  next
    case 2
    have "out = drop (length c) (p @ w) @ b"
    proof -
      have "out = drop (length c) (c @ out)" by simp
      also have "\<dots> = drop (length c) ((p @ w) @ b)" by (simp only: 2(2) append_assoc)
      also have "\<dots> = drop (length c) (p @ w) @ b"
        using 2(1) by (simp only: drop_append) simp
      finally show ?thesis .
    qed
    moreover have "m \<le> length (drop (length c) (p @ w))" using 2(1) w by simp
    moreover have "list_all key_char (drop (length c) (p @ w))"
      using assms(1) w(2) by (auto simp: list_all_iff dest: in_set_dropD)
    ultimately have "m \<le> length (takeWhile key_char out)"
      by (auto simp: takeWhile_append list_all_iff)
    with run show False by simp
  qed
qed

lemma replace_scan_hides:
  assumes "key_shape p m"
  shows "\<not> exposes p m (fst (replace_scan p m s))"
proof (induction "length s" arbitrary: s rule: less_induct)
  case less
  from assms have p: "p \<noteq> []" and keys: "list_all key_char p" by (auto simp: key_shape_def)
  from p show ?case
  proof (cases rule: replace_scan_cases [of p s m])
    case none
    then show ?thesis by (auto simp: exposes_def dest: find_sub_None)
  next
    case (masked u v)
    have "\<not> exposes p m u"
    proof
      assume "exposes p m u"
      then obtain a w b where u: "u = a @ p @ w @ b" by (auto simp: exposes_def)
      with first_is_hidden [of p u v v a "w @ b @ p @ v"] masked p show False by simp
    qed
    moreover have "\<not> exposes p m (fst (replace_scan p m (dropWhile key_char v)))"
      using p masked(1) length_dropWhile_le [of key_char v] by (intro less) (simp add: less_Suc_eq_le neq_Nil_conv, auto)
    ultimately show ?thesis by (simp add: masked(3) hidden_masked [OF assms])
  next
    case (kept u v)
    have "length (takeWhile key_char (fst (replace_scan p m v))) < m"
      using replace_scan_run [OF p, of "[]" m v] kept(2) by simp
    moreover have "\<not> exposes p m (fst (replace_scan p m v))"
      using less [of v] kept(1) p by simp
    ultimately show ?thesis
      using kept_is_hidden [OF keys, of u v] kept(1,3,4) by simp
  qed
qed

text \<open>Masking never uncovers anything: every pattern keeps what is hidden hidden.\<close>

definition keeps_hidden :: "(string \<Rightarrow> string \<times> bool) \<Rightarrow> bool" where
  "keeps_hidden f \<longleftrightarrow>
     (\<forall>p m s. key_shape p m \<longrightarrow> \<not> exposes p m s \<longrightarrow> \<not> exposes p m (fst (f s)))"

lemma replace_scan_keeps:
  assumes "key_shape p m" and "q \<noteq> []"
  shows "\<not> exposes p m (z @ s) \<Longrightarrow> \<not> exposes p m (z @ fst (replace_scan q k s))"
proof (induction "length s" arbitrary: s z rule: less_induct)
  case less
  from assms(2) show ?case
  proof (cases rule: replace_scan_cases [of q s k])
    case none
    with less.prems show ?thesis by simp
  next
    case (masked u v)
    let ?v = "dropWhile key_char v"
    have "\<not> exposes p m v" "\<not> exposes p m (z @ u)"
      using less.prems hidden_appendD [of p m "z @ u" "q @ v"] hidden_appendD [of p m q v]
      by (auto simp: masked(1))
    moreover from this(1) have "\<not> exposes p m ?v"
      using hidden_appendD [of p m "takeWhile key_char v" ?v] by simp
    moreover have "length ?v < length s"
      using masked(1) assms(2) length_dropWhile_le [of key_char v] by (cases q) auto
    ultimately show ?thesis
      using less.hyps [of ?v "[]"] hidden_masked [OF assms(1), of "z @ u"] by (simp add: masked(3))
  next
    case (kept u v)
    with less.prems less.hyps [of v "z @ u @ q"] assms(2) show ?thesis by simp
  qed
qed

lemma replace_prefixed_keeps: "q \<noteq> [] \<Longrightarrow> keeps_hidden (replace_prefixed q k)"
  using replace_scan_keeps [of _ _ q "[]"] by (auto simp: keeps_hidden_def replace_prefixed_def)

lemma strip_all_suffix: "\<exists>u. s = u @ strip_all ws s"
proof (induction ws s rule: strip_all.induct)
  case (1 ws s)
  show ?case
  proof (cases "strip_any ws s")
    case None
    then show ?thesis by (simp add: strip_all.simps [of ws s])
  next
    case (Some r)
    then obtain w where "strip_prefix w s = Some r"
      by (auto simp: strip_any_def dest!: find_map_Some split: if_splits)
    then have "s = w @ r" by (auto simp: strip_prefix_def starts_with_iff split: if_splits)
    with 1 [OF Some] Some show ?thesis
      by (metis append.assoc option.simps(5) strip_all.simps)
  qed
qed

lemma take_word_prefix: "s = take_word stops s @ drop (length (take_word stops s)) s"
  by (induction stops s rule: take_word.induct) auto

lemma mask_segment_keeps:
  assumes "key_shape p m" and "\<not> exposes p m (z @ u @ w @ v)"
  shows "\<not> exposes p m (z @ u @ REDACTED @ v)"
  using assms hidden_masked [of p m "z @ u" v] hidden_appendD [of p m "z @ u" "w @ v"] hidden_appendD [of p m w v]
  by simp

lemma assignment_scan_keeps:
  assumes "key_shape p m" and "key \<noteq> []"
  shows "\<not> exposes p m (z @ s) \<Longrightarrow> \<not> exposes p m (z @ fst (assignment_scan key s))"
proof (induction "length s" arbitrary: s z rule: less_induct)
  case less
  show ?case
  proof (cases "find_sub key (to_ascii_lowercase s)")
    case None
    with less.prems show ?thesis by (simp add: assignment_scan.simps [of key s])
  next
    case (Some start)
    let ?u = "take (start + length key) s" and ?rest = "drop (start + length key) s"
    from Some have "length ?rest < length s"
      using assms(2) find_sub_Some [OF Some] by (auto simp: to_ascii_lowercase_def neq_Nil_conv)
    from less.hyps [OF this, of "z @ ?u"] less.prems
    have continue: "\<not> exposes p m (z @ ?u @ fst (assignment_scan key ?rest))" by simp
    show ?thesis
    proof (cases "strip_all whitespace ?rest")
      case Nil
      with Some less.prems show ?thesis by (simp add: assignment_scan.simps [of key s])
    next
      case (Cons c val)
      let ?v = "strip_all whitespace val"
      let ?w = "take_word [CHR '','', CHR '';'', CHR 0x22] ?v"
      obtain a b where "?rest = a @ c # val" "val = b @ ?v"
        using strip_all_suffix [of ?rest whitespace] strip_all_suffix [of val whitespace] Cons by auto
      then have "s = (?u @ a @ c # b) @ ?v" by (metis append.assoc append_Cons append_take_drop_id)
      then obtain t where "s = t @ ?v" by blast
      then have t: "s = take (length s - length ?v) s @ ?v"
        by (metis append_eq_conv_conj diff_add_inverse2 length_append)
      have "\<not> exposes p m (z @ take (length s - length ?v) s @ REDACTED @ drop (length ?w) ?v)"
        by (rule mask_segment_keeps [OF assms(1), of _ _ ?w])
           (use less.prems t take_word_prefix [of ?v] in metis)
      with continue Some Cons assms(2) show ?thesis
        by (simp add: assignment_scan.simps [of key s] Let_def case_prod_unfold)
    qed
  qed
qed

lemma redact_assignment_keeps: "key \<noteq> [] \<Longrightarrow> keeps_hidden (redact_assignment key)"
  using assignment_scan_keeps [of _ _ key "[]"] by (auto simp: keeps_hidden_def redact_assignment_def)

lemma key_char_lower: "key_char (ascii_lower c) \<Longrightarrow> key_char c"
  by (auto simp: key_char_def is_ascii_alphanumeric_def ascii_lower_def Let_def split: if_splits)

lemma exposes_same_word:
  assumes "key_shape p m" and "exposes p m (u @ ''Bearer'')"
    and "length bw = length ''Bearer''" and "list_all key_char bw"
  shows "exposes p m (u @ bw)"
proof -
  obtain a w b where eq: "u @ ''Bearer'' = (a @ p) @ w @ b" and w: "m \<le> length w" "list_all key_char w"
    using assms(2) by (auto simp: exposes_def)
  have p: "p = butlast p @ [last p]" "last p \<notin> set ''Bearer''" using assms(1) by (auto simp: key_shape_def)
  obtain r where r: "u = a @ p @ r" "r @ ''Bearer'' = w @ b"
  proof -
    obtain us where "u = (a @ p) @ us \<and> us @ ''Bearer'' = w @ b \<or> u @ us = a @ p \<and> ''Bearer'' = us @ w @ b"
      using iffD1 [OF append_eq_append_conv2 eq] by blast
    then show thesis
    proof
      assume *: "u @ us = a @ p \<and> ''Bearer'' = us @ w @ b"
      have "us = []"
      proof (rule ccontr)
        assume "us \<noteq> []"
        then have "last us = last (a @ p)" using * by (metis last_appendR)
        then have "last us = last p" using assms(1) by (simp add: key_shape_def)
        moreover have "last us \<in> set ''Bearer''" using * \<open>us \<noteq> []\<close> by (metis UnCI last_in_set set_append)
        ultimately show False using p(2) by simp
      qed
      with * show thesis using that [of "[]"] by simp
    qed (use that in auto)
  qed
  have "list_all key_char (take (length w) r)"
  proof -
    have "take (length r) w = take (length w) r"
      using arg_cong [OF r(2), of "take (min (length r) (length w))"] by (simp add: min_def split: if_splits)
    with w(2) show ?thesis by (auto simp: list_all_iff dest: in_set_takeD) (metis in_set_takeD)
  qed
  then have keys: "list_all key_char (take (length w) (r @ bw))"
    using assms(4) by (auto simp: list_all_iff dest: in_set_takeD)
  have "length (take (length w) (r @ bw)) = length w"
    using arg_cong [OF r(2), of length] assms(3) by simp
  with keys w have "exposes p m (a @ p @ take (length w) (r @ bw) @ drop (length w) (r @ bw))"
    by (intro exposesI) (simp_all only:)
  then show ?thesis by (simp only: append_take_drop_id r(1) append_assoc)
qed

lemma redact_bearer_keeps: "keeps_hidden redact_bearer"
  unfolding keeps_hidden_def
proof (intro allI impI)
  fix p m s
  assume shape: "key_shape p m" and hid: "\<not> exposes p m s"
  show "\<not> exposes p m (fst (redact_bearer s))"
  proof (cases "find_sub ''bearer '' (to_ascii_lowercase s)")
    case None
    with hid show ?thesis by (simp add: redact_bearer_def)
  next
    case (Some n)
    let ?u = "take n s" and ?bw = "take 6 (drop n s)" and ?rest = "drop (n + 7) s"
    let ?v = "drop (length (take_word [] ?rest)) ?rest"
    have len: "n + 7 \<le> length s"
      and low: "take 7 (drop n (to_ascii_lowercase s)) = ''bearer ''"
      using find_sub_Some [OF Some] by (simp_all add: to_ascii_lowercase_def starts_with_def eval_nat_numeral)
    from arg_cong [OF low, of "take 6"] have "map ascii_lower ?bw = ''bearer''"
      by (simp add: to_ascii_lowercase_def drop_map take_map)
    moreover have "list_all key_char ''bearer''" by (simp add: key_char_def is_ascii_alphanumeric_def)
    ultimately have keys: "list_all key_char ?bw"
      using key_char_lower by (metis (no_types, lifting) list.pred_map list.pred_mono_strong o_apply)
    have s: "s = (?u @ ?bw) @ drop (n + 6) s" "s = take (n + 7) s @ take_word [] ?rest @ ?v"
      using take_word_prefix [of ?rest "[]"] by (simp_all, metis add.commute append_take_drop_id drop_drop append_assoc)
    have "\<not> exposes p m (?u @ ?bw)" "\<not> exposes p m ?v"
      using hid hidden_appendD s by metis+
    then have "\<not> exposes p m (?u @ ''Bearer'')" and v: "\<not> exposes p m ?v"
      using exposes_same_word [OF shape _ _ keys] len by auto
    moreover have "list_all key_char p" "\<not> key_char CHR '' ''"
      using shape by (auto simp: key_shape_def key_char_def is_ascii_alphanumeric_def)
    note around = exposes_around [OF this, of m "?u @ ''Bearer''" "REDACTED @ ?v"]
    ultimately have "\<not> exposes p m (?u @ ''Bearer [REDACTED]'' @ ?v)"
      using around hidden_masked [OF shape, of "[]" ?v] hidden_appendD [of p m "[]" ?v]
      by (simp add: REDACTED_def)
    moreover have "n + length ''bearer '' = n + 7" by simp
    ultimately show ?thesis
      using hid by (simp only: redact_bearer_def Some option.case Let_def split: if_split) simp
  qed
qed

definition masks :: "(string \<Rightarrow> string \<times> bool) list" where
  "masks = [redact_bearer, redact_assignment ''password'', redact_assignment ''secret'',
     redact_assignment ''api_key'', redact_assignment ''api-key'', redact_assignment ''token'']"

lemma masks_keep: "f \<in> set masks \<Longrightarrow> keeps_hidden f"
  by (auto simp: masks_def redact_bearer_keeps redact_assignment_keeps)

lemma fold_masks_keep:
  assumes "key_shape p m" and "\<And>f. f \<in> set fs \<Longrightarrow> keeps_hidden f"
  shows "\<not> exposes p m (fst st) \<Longrightarrow> \<not> exposes p m (fst (fold redact_step fs st))"
  using assms(2)
proof (induction fs arbitrary: st)
  case (Cons f fs)
  then have "\<not> exposes p m (fst (redact_step f st))"
    using assms(1) by (auto simp: redact_step_def keeps_hidden_def case_prod_unfold)
  with Cons show ?case by simp
qed simp

lemma redact_text_hides:
  assumes "redact_text s = Some (out, changed)"
  shows "\<not> exposes ''sk-'' 20 out \<and> \<not> exposes ''AKIA'' 16 out"
proof -
  obtain st where "redact_pem s = Some st"
    and out: "(out, changed) = fold redact_step
      (replace_prefixed ''sk-'' 20 # replace_prefixed ''AKIA'' 16 # masks) st"
    using assms by (auto simp: redact_text_def masks_def)
  let ?st1 = "redact_step (replace_prefixed ''sk-'' 20) st"
  let ?st2 = "redact_step (replace_prefixed ''AKIA'' 16) ?st1"
  have "\<not> exposes ''sk-'' 20 (fst ?st1)" "\<not> exposes ''AKIA'' 16 (fst ?st2)"
    using replace_scan_hides [OF key_shapes(1)] replace_scan_hides [OF key_shapes(2)]
    by (simp_all add: redact_step_def replace_prefixed_def case_prod_unfold)
  moreover from this(1) have "\<not> exposes ''sk-'' 20 (fst ?st2)"
    using replace_prefixed_keeps [of "''AKIA''" 16] key_shapes(1)
    by (simp add: redact_step_def keeps_hidden_def case_prod_unfold)
  ultimately show ?thesis
    using out fold_masks_keep [OF key_shapes(1) masks_keep, of masks ?st2]
      fold_masks_keep [OF key_shapes(2) masks_keep, of masks ?st2] by (metis fold_simps(2) fst_conv)
qed

text \<open>The texts of a JSON value, and the values stored under a sensitive key.\<close>

fun json_texts_of :: "json \<Rightarrow> string list" where
  "json_texts_of (JStr s) = [s]"
| "json_texts_of (JArr js) = concat (map json_texts_of js)"
| "json_texts_of (JObj kvs) = concat (map (\<lambda>kv. json_texts_of (snd kv)) kvs)"
| "json_texts_of _ = []"

fun sensitive_values :: "json \<Rightarrow> json list" where
  "sensitive_values (JArr js) = concat (map sensitive_values js)"
| "sensitive_values (JObj kvs) =
     concat (map (\<lambda>kv. if is_sensitive_key (fst kv) then [snd kv] else sensitive_values (snd kv)) kvs)"
| "sensitive_values _ = []"

definition clean :: "string \<Rightarrow> bool" where
  "clean s \<longleftrightarrow> \<not> exposes ''sk-'' 20 s \<and> \<not> exposes ''AKIA'' 16 s"

lemma clean_REDACTED: "clean REDACTED"
  using hidden_masked [OF key_shapes(1), of "[]" "[]"] hidden_masked [OF key_shapes(2), of "[]" "[]"]
  by (simp add: clean_def exposes_def)

lemma redact_clean:
  "redact_value v = Some (out, c) \<Longrightarrow> list_all clean (json_texts_of out) \<and> (\<forall>j \<in> set (sensitive_values out). j = JStr REDACTED)"
  "redact_items js = Some (outs, c) \<Longrightarrow> \<forall>out \<in> set outs. list_all clean (json_texts_of out) \<and>
     (\<forall>j \<in> set (sensitive_values out). j = JStr REDACTED)"
  "redact_entries kvs = Some (out_kvs, c) \<Longrightarrow> \<forall>(k, out) \<in> set out_kvs. list_all clean (json_texts_of out) \<and>
     (if is_sensitive_key k then out = JStr REDACTED else (\<forall>j \<in> set (sensitive_values out). j = JStr REDACTED))"
proof (induction v and js and kvs arbitrary: out c and outs c and out_kvs c
    rule: redact_value_redact_items_redact_entries.induct)
  case (1 txt0)
  then show ?case using redact_text_hides by (auto simp: clean_def)
next
  case (2 items)
  then show ?case by (fastforce simp: list_all_iff)
next
  case (3 entries)
  then show ?case by (fastforce simp: list_all_iff split: if_splits)
next
  case (9 j js)
  then show ?case by (fastforce split: bind_splits)
next
  case (11 key child kvs)
  show ?case
  proof (cases "is_sensitive_key key")
    case True
    with 11(4) obtain kvs' c' where "redact_entries kvs = Some (kvs', c')" "out_kvs = (key, JStr REDACTED) # kvs'"
      by (auto split: bind_splits)
    with 11(1) [OF True] True show ?thesis by (simp add: clean_REDACTED)
  next
    case False
    with 11(4) obtain r1 r2 where *: "redact_value child = Some r1"
      "redact_entries kvs = Some r2" "out_kvs = (key, fst r1) # fst r2"
      by (simp add: case_prod_unfold split: bind_splits)
    with 11(2) [OF False, of "fst r1" "snd r1"] 11(3) [OF False, of r1 "fst r1" "snd r1" "fst r2" "snd r2"] False
    show ?thesis by simp
  qed
qed auto

section \<open>Properties\<close>



text \<open>
  Redaction panics exactly when a text has an end-of-key marker that is over before the first
  begin marker, as in the tail of one PEM block followed by another; every other text is redacted.
\<close>

theorem redaction_panics_iff:
  "redact_text s = None \<longleftrightarrow>
     (\<exists>b e. find_sub ''-----BEGIN '' s = Some b \<and> find_sub ''-----END '' s = Some e \<and> e + 5 < b)"
proof -
  have "find_sub ''-----'' (drop e s) = Some 0" if e: "find_sub ''-----END '' s = Some e" for e
  proof -
    obtain r where "drop e s = ''-----END '' @ r" using find_sub_Some [OF e] by (auto simp: starts_with_iff)
    then show ?thesis by (simp add: starts_with_def)
  qed
  then show ?thesis by (auto simp: redact_text_def redact_pem_def Let_def split: option.splits if_splits)
qed

lemma redaction_panics_example:
  "redact_text ''-----END CERTIFICATE-----xx-----BEGIN CERTIFICATE-----'' = None"
  by code_simp

text \<open>Only the first assignment of a name is masked, and a quoted value is not masked at all.\<close>

lemma later_assignment_survives:
  "redact_text ''token=a token=b'' = Some (''token=[REDACTED] token=b'', True)"
  by code_simp

lemma quoted_assignment_survives:
  "redact_text (''token='' @ [CHR 0x22] @ ''a'' @ [CHR 0x22]) =
     Some (''token='' @ [CHR 0x22] @ ''a'' @ [CHR 0x22], False)"
  by code_simp

text \<open>Only the first private key of a text is masked.\<close>

lemma second_private_key_survives:
  "redact_pem ''-----BEGIN K-----a-----END K----- -----BEGIN K-----b-----END K-----'' =
     Some (''[REDACTED_PRIVATE_KEY]END K----- -----BEGIN K-----b-----END K-----'', True)"
  by code_simp

end
