(* ===== verification/Evidence.thy ===== *)
theory Evidence
  imports Redact
begin

text \<open>
  Evidence (\<open>src/evidence/\<close>): finalising the record of a tool result, what the model is shown of it,
  the artifact store that keeps large results by content, and the structured diagnosis with the check
  of its citations. The lemmas show that a stored artifact is read back, only in its own workspace and
  within its bounds, that an invalid artifact id is refused, that no claim keeps a citation of unknown
  evidence, and that a summary may be cut inside a character.
\<close>

section \<open>Evidence records\<close>

definition with_duration_ms :: "nat \<Rightarrow> EvidenceMeta \<Rightarrow> EvidenceMeta" where
  "with_duration_ms d m = m\<lparr>evm_duration_ms := d\<rparr>"

definition with_truncated :: "bool \<Rightarrow> EvidenceMeta \<Rightarrow> EvidenceMeta" where
  "with_truncated t m = m\<lparr>evm_truncated := t\<rparr>"

definition with_summary :: "string \<Rightarrow> EvidenceMeta \<Rightarrow> EvidenceMeta" where
  "with_summary s m = m\<lparr>evm_summary := s\<rparr>"

definition with_time_range :: "time \<times> time \<Rightarrow> EvidenceMeta \<Rightarrow> EvidenceMeta" where
  "with_time_range r m = m\<lparr>evm_time_range := Some r\<rparr>"

definition with_content_type :: "string \<Rightarrow> EvidenceMeta \<Rightarrow> EvidenceMeta" where
  "with_content_type c m = m\<lparr>evm_content_type := c\<rparr>"

text \<open>The slice panics when its end is not a character boundary.\<close>

definition str_slice_to :: "nat \<Rightarrow> string \<Rightarrow> string option" where
  "str_slice_to n s = (if n \<le> length s \<and> is_char_boundary n s then Some (take n s) else None)"

definition summarize_value :: "ext \<Rightarrow> json \<Rightarrow> nat \<Rightarrow> string option" where
  "summarize_value E v max_chars =
     (let txt = (case v of JStr s \<Rightarrow> s | other \<Rightarrow> json_bytes E other);
          end_pos = boundary_before (min max_chars (length txt)) txt
      in if length txt \<le> max_chars then Some txt
         else map_option (\<lambda>s. s @ ELLIPSIS) (str_slice_to (min (max (end_pos - 1) 1) (length txt)) txt))"

definition finalize_evidence ::
    "ext \<Rightarrow> uuid \<Rightarrow> EvidenceMeta \<Rightarrow> json \<Rightarrow> string option \<Rightarrow> EvidenceMeta option" where
  "finalize_evidence E fresh_id meta content artifact_ref =
     Option.bind (redact_json content) (\<lambda>(redacted, _).
     Option.bind (if evm_summary meta = [] then summarize_value E redacted 280 else Some (evm_summary meta)) (\<lambda>summary.
       let redacted_bytes = json_bytes E redacted
       in Some (meta\<lparr>
         evm_summary := summary,
         evm_byte_size := length redacted_bytes,
         evm_sha256 := sha256_hex E redacted_bytes,
         evm_artifact_ref := artifact_ref,
         evm_evidence_id := Some fresh_id,
         evm_source_kind := Some (str_or (evm_source meta) (evm_source_kind meta)),
         evm_source_ref := Some (str_or (evm_source meta) (evm_source_ref meta)),
         evm_query_or_operation := (case evm_query_or_operation meta of Some q \<Rightarrow> Some q | None \<Rightarrow> evm_query meta),
         evm_observed_at := (case evm_observed_at meta of Some t \<Rightarrow> Some t | None \<Rightarrow> Some (evm_timestamp meta))\<rparr>)))"

definition model_tool_output :: "ext \<Rightarrow> bool \<Rightarrow> EvidenceMeta \<Rightarrow> json \<Rightarrow> json" where
  "model_tool_output E success evidence content =
     (if success
      then JObj ((case evm_artifact_ref evidence of
                    None \<Rightarrow> [(''content'', content)]
                  | Some r \<Rightarrow> [(''artifact_ref'', JStr r)])
            @ [(''evidence_id'', opt_str (map_option (uuid_string E) (evm_evidence_id evidence))),
               (''sha256'', JStr (evm_sha256 evidence)),
               (''success'', JBool True),
               (''summary'', JStr (evm_summary evidence)),
               (''truncated'', JBool (evm_truncated evidence))])
      else content)"

section \<open>Artifacts\<close>

text \<open>
  The memory backend is a map from scoped keys. The disk backend calls the file system, a parameter on
  an abstract world; \<open>PathBuf::join\<close> appends a relative component.
\<close>

datatype ReadError = FileNotFound | FileError string

record 'w fs =
  fs_create_dir_all :: "string \<Rightarrow> 'w \<Rightarrow> (string + unit) \<times> 'w"
  fs_exists :: "string \<Rightarrow> 'w \<Rightarrow> bool"
  fs_write :: "string \<Rightarrow> bytes \<Rightarrow> 'w \<Rightarrow> (string + unit) \<times> 'w"
  fs_read :: "string \<Rightarrow> 'w \<Rightarrow> ReadError + bytes"

datatype Backend = Disk string | Memory "string \<rightharpoonup> bytes"

record 'w ArtifactStore =
  ast_backend :: Backend
  ast_max_bytes :: nat
  ast_world :: 'w

definition path_join :: "string \<Rightarrow> string \<Rightarrow> string" where
  "path_join dir p =
     (if starts_with ''/'' p then p
      else if dir = [] \<or> last dir = CHR ''/'' then dir @ p else dir @ ''/'' @ p)"

definition scoped_key :: "workspace_id \<Rightarrow> string \<Rightarrow> string" where
  "scoped_key w digest = w @ ''/'' @ digest"

definition artifact_dir :: "string \<Rightarrow> workspace_id \<Rightarrow> string \<Rightarrow> string" where
  "artifact_dir directory w digest =
     path_join (path_join directory w) (if 2 \<le> length digest then take 2 digest else ''00'')"

definition artifact_path :: "string \<Rightarrow> workspace_id \<Rightarrow> string \<Rightarrow> string" where
  "artifact_path directory w digest = path_join (artifact_dir directory w digest) digest"

definition is_ascii_hexdigit :: "char \<Rightarrow> bool" where
  "is_ascii_hexdigit c =
     (let n = of_char c :: nat in 48 \<le> n \<and> n \<le> 57 \<or> 65 \<le> n \<and> n \<le> 70 \<or> 97 \<le> n \<and> n \<le> 102)"

definition is_sha256 :: "string \<Rightarrow> bool" where
  "is_sha256 v = (length v = 64 \<and> list_all is_ascii_hexdigit v)"

definition memory_store :: "'w \<Rightarrow> 'w ArtifactStore" where
  "memory_store w = \<lparr>ast_backend = Memory Map.empty, ast_max_bytes = 1024 * 1024, ast_world = w\<rparr>"

definition disk_store :: "'w fs \<Rightarrow> string \<Rightarrow> 'w \<Rightarrow> 'w ArtifactStore result" where
  "disk_store F directory w =
     (case fs_create_dir_all F directory w of
        (Inl err, _) \<Rightarrow> Inl (OpsCodexError.Storage
          (''failed to create artifact directory '' @ directory @ '': '' @ err))
      | (Inr _, w') \<Rightarrow> Inr \<lparr>ast_backend = Disk directory, ast_max_bytes = 1024 * 1024, ast_world = w'\<rparr>)"

definition with_max_bytes :: "nat \<Rightarrow> 'w ArtifactStore \<Rightarrow> 'w ArtifactStore" where
  "with_max_bytes n s = s\<lparr>ast_max_bytes := max n 1\<rparr>"

definition on_fs :: "(string \<Rightarrow> OpsCodexError) \<Rightarrow> ('w \<Rightarrow> (string + unit) \<times> 'w) \<Rightarrow> ('w ArtifactStore, unit) op" where
  "on_fs wrap f s = (case f (ast_world s) of
       (Inl err, w) \<Rightarrow> (Inl (wrap err), s\<lparr>ast_world := w\<rparr>)
     | (Inr _, w) \<Rightarrow> (Inr (), s\<lparr>ast_world := w\<rparr>))"

definition put_in :: "ext \<Rightarrow> 'w fs \<Rightarrow> workspace_id \<Rightarrow> bytes \<Rightarrow> ('w ArtifactStore, string) op" where
  "put_in E F w bs s =
     (if ast_max_bytes s < length bs
      then (Inl (OpsCodexError.Protocol (''artifact exceeds quota ('' @ show_nat (length bs) @ '' bytes > '' @
              show_nat (ast_max_bytes s) @ '' bytes); reduce output or raise the artifact limit'')), s)
      else
        let digest = sha256_hex E bs
        in case ast_backend s of
             Memory m \<Rightarrow> (Inr digest, s\<lparr>ast_backend := Memory (m(scoped_key w digest \<mapsto> bs))\<rparr>)
           | Disk directory \<Rightarrow>
               let parent = artifact_dir directory w digest;
                   path = artifact_path directory w digest
               in sbind (on_fs (\<lambda>err. OpsCodexError.Storage
                      (''failed to create artifact directory '' @ parent @ '': '' @ err))
                      (fs_create_dir_all F parent)) (\<lambda>_.
                  sbind (sgets (\<lambda>s. Inr (fs_exists F path (ast_world s)))) (\<lambda>there.
                    if there then sret digest
                    else sbind (on_fs (\<lambda>err. OpsCodexError.Storage (''failed to write artifact '' @ path @ '': '' @ err))
                           (fs_write F path bs)) (\<lambda>_. sret digest))) s)"

definition get_in :: "'w fs \<Rightarrow> workspace_id \<Rightarrow> string \<Rightarrow> nat \<Rightarrow> 'w ArtifactStore \<Rightarrow> bytes result" where
  "get_in F w digest max_bytes s =
     (if \<not> is_sha256 digest then Inl (OpsCodexError.Protocol ''invalid artifact id'')
      else
        let limit = max (min max_bytes (ast_max_bytes s)) 1
        in and_then
             (case ast_backend s of
                Memory m \<Rightarrow> ok_or (OpsCodexError.NotFound (''artifact '' @ digest)) (m (scoped_key w digest))
              | Disk directory \<Rightarrow>
                  let path = artifact_path directory w digest
                  in case fs_read F path (ast_world s) of
                       Inl FileNotFound \<Rightarrow> Inl (OpsCodexError.NotFound (''artifact '' @ digest))
                     | Inl (FileError err) \<Rightarrow>
                         Inl (OpsCodexError.Storage (''failed to read artifact '' @ path @ '': '' @ err))
                     | Inr bs \<Rightarrow> Inr bs)
             (\<lambda>bs. Inr (take limit bs)))"

definition put_artifact :: "ext \<Rightarrow> 'w fs \<Rightarrow> bytes \<Rightarrow> ('w ArtifactStore, string) op" where
  "put_artifact E F bs = put_in E F ''default'' bs"

definition get_artifact :: "'w fs \<Rightarrow> string \<Rightarrow> nat \<Rightarrow> 'w ArtifactStore \<Rightarrow> bytes result" where
  "get_artifact F digest max_bytes s = get_in F ''default'' digest max_bytes s"

section \<open>Diagnosis\<close>

text \<open>
  The deserialiser the derivation generates for the loose form is a parameter; a confidence number is
  the bit pattern of its double, which is ordered like its bits when the sign bit is clear.
\<close>

datatype LooseConfidence = Level Confidence | Number nat | Text string

record LooseClaim =
  lc_claim_id :: "uuid option"
  lc_kind :: ClaimKind
  lc_statement :: string
  lc_evidence_ids :: "uuid list"
  lc_confidence :: "LooseConfidence option"

record LooseDiagnosis =
  ld_summary :: "string option"
  ld_claims :: "LooseClaim list"
  ld_recommended_actions :: "string list"
  ld_limitations :: "string list"

record CitationError =
  ce_claim_id :: uuid
  ce_message :: string

fun confidence_from :: "LooseConfidence \<Rightarrow> Confidence" where
  "confidence_from (Level level) = level"
| "confidence_from (Number bits) =
     (if 0x3FE8000000000000 \<le> bits \<and> bits < 2 ^ 63 then High
      else if 0x3FD999999999999A \<le> bits \<and> bits < 2 ^ 63 then Medium else Low)"
| "confidence_from (Text txt) =
     (let t = to_ascii_lowercase txt in
      if t = ''high'' then High else if t = ''medium'' \<or> t = ''med'' then Medium else Low)"

definition rfind_char :: "char \<Rightarrow> string \<Rightarrow> nat option" where
  "rfind_char c s =
     (if c \<in> set s then Some (length s - 1 - length (takeWhile (\<lambda>x. x \<noteq> c) (rev s))) else None)"

definition extract_json_object :: "string \<Rightarrow> string option" where
  "extract_json_object content =
     (let trimmed = trim content in
      if starts_with ''{'' trimmed then Some trimmed
      else
        Option.bind (case find_sub ''```json'' trimmed of Some f \<Rightarrow> Some f | None \<Rightarrow> find_sub ''```'' trimmed) (\<lambda>fence.
        let after = drop fence trimmed in
        Option.bind (find_sub ''{'' after) (\<lambda>start.
        Option.bind (rfind_char CHR ''}'' after) (\<lambda>end_pos.
          if end_pos \<le> start then None
          else Some (take (end_pos + 1 - start) (drop start after))))))"

fun claims_from :: "('w \<Rightarrow> uuid \<times> 'w) \<Rightarrow> LooseClaim list \<Rightarrow> 'w \<Rightarrow> Claim list \<times> 'w" where
  "claims_from fresh [] w = ([], w)"
| "claims_from fresh (c # cs) w =
     (let (i, w1) = (case lc_claim_id c of Some i \<Rightarrow> (i, w) | None \<Rightarrow> fresh w);
          (rest, w2) = claims_from fresh cs w1
      in (\<lparr>cl_claim_id = i, cl_kind = lc_kind c, cl_statement = lc_statement c,
           cl_evidence_ids = lc_evidence_ids c,
           cl_confidence = (case lc_confidence c of None \<Rightarrow> Low | Some l \<Rightarrow> confidence_from l)\<rparr> # rest, w2))"

definition parse_json_diagnosis ::
    "(string \<Rightarrow> LooseDiagnosis option) \<Rightarrow> ('w \<Rightarrow> uuid \<times> 'w) \<Rightarrow> string \<Rightarrow> 'w \<Rightarrow> Diagnosis option \<times> 'w" where
  "parse_json_diagnosis decode fresh content w =
     (case Option.bind (extract_json_object content) decode of
        None \<Rightarrow> (None, w)
      | Some loose \<Rightarrow>
          let (claims, w') = claims_from fresh (ld_claims loose) w
          in (Some \<lparr>dg_summary = str_or (chars_take 280 content) (ld_summary loose),
                dg_claims = claims, dg_recommended_actions = ld_recommended_actions loose,
                dg_limitations = ld_limitations loose\<rparr>, w'))"

definition UNSTRUCTURED :: string where
  "UNSTRUCTURED = ''Model output was not a structured diagnosis; content is unverified.''"

definition parse_diagnosis ::
    "(string \<Rightarrow> LooseDiagnosis option) \<Rightarrow> ('w \<Rightarrow> uuid \<times> 'w) \<Rightarrow> string \<Rightarrow> 'w \<Rightarrow> Diagnosis \<times> 'w" where
  "parse_diagnosis decode fresh content w =
     (case parse_json_diagnosis decode fresh content w of
        (Some parsed, w') \<Rightarrow> (parsed, w')
      | (None, w') \<Rightarrow> (\<lparr>dg_summary = chars_take 280 content, dg_claims = [], dg_recommended_actions = [],
            dg_limitations = [UNSTRUCTURED]\<rparr>, w'))"

fun kind_debug :: "ClaimKind \<Rightarrow> string" where
  "kind_debug Observed = ''Observed''"
| "kind_debug Inferred = ''Inferred''"
| "kind_debug Recommended = ''Recommended''"

definition known_evidence :: "EvidenceMeta list \<Rightarrow> uuid list" where
  "known_evidence evidence = List.map_filter evm_evidence_id evidence"

definition claim_errors :: "ext \<Rightarrow> uuid list \<Rightarrow> Claim \<Rightarrow> CitationError list" where
  "claim_errors E known c =
     (case cl_kind c of
        Recommended \<Rightarrow> []
      | _ \<Rightarrow>
          if cl_evidence_ids c = []
          then [\<lparr>ce_claim_id = cl_claim_id c, ce_message = kind_debug (cl_kind c) @ '' claim has no evidence ids''\<rparr>]
          else map (\<lambda>i. \<lparr>ce_claim_id = cl_claim_id c, ce_message = ''unknown evidence id '' @ uuid_string E i\<rparr>)
                 (filter (\<lambda>i. i \<notin> set known) (cl_evidence_ids c)))"

definition validate_diagnosis :: "ext \<Rightarrow> Diagnosis \<Rightarrow> EvidenceMeta list \<Rightarrow> CitationError list" where
  "validate_diagnosis E d evidence =
     concat (map (claim_errors E (known_evidence evidence)) (dg_claims d))"

definition claim_is_sourced :: "uuid list \<Rightarrow> Claim \<Rightarrow> bool" where
  "claim_is_sourced known c =
     (case cl_kind c of
        Recommended \<Rightarrow> True
      | _ \<Rightarrow> cl_evidence_ids c \<noteq> [] \<and> list_all (\<lambda>i. i \<in> set known) (cl_evidence_ids c))"

definition apply_citation_limitations :: "ext \<Rightarrow> Diagnosis \<Rightarrow> EvidenceMeta list \<Rightarrow> Diagnosis" where
  "apply_citation_limitations E d evidence =
     (let errors = validate_diagnosis E d evidence in
      if errors = [] then d
      else d\<lparr>dg_claims := filter (claim_is_sourced (known_evidence evidence)) (dg_claims d),
             dg_limitations := dg_limitations d @ [''Evidence is insufficient; abstained from '' @
               show_nat (length errors) @ '' unsourced claim(s).'']\<rparr>)"

section \<open>Lemmas\<close>

lemma hex_digit_is_hex: "n < 16 \<Longrightarrow> is_ascii_hexdigit (hex_digit n)"
  by (simp add: is_ascii_hexdigit_def hex_digit_def Let_def)

lemma hex_is_hex: "list_all is_ascii_hexdigit (hex bs)"
proof (induction bs)
  case (Cons b bs)
  have "of_char b div (16 :: nat) < 16" using nat_of_char_less_256 [of b] by linarith
  with Cons show ?case by (simp add: hex_Cons hex_digit_is_hex)
qed (simp add: hex_def)

lemma length_hex: "length (hex bs) = 2 * length bs"
  by (induction bs) (simp_all add: hex_Cons, simp add: hex_def)

lemma is_sha256_hex: "length (sha256 E bs) = 32 \<Longrightarrow> is_sha256 (sha256_hex E bs)"
  by (simp add: is_sha256_def sha256_hex_def hex_is_hex length_hex)

lemma scoped_key_inject:
  assumes "scoped_key w d = scoped_key w' d'" and "length d = length d'"
  shows "w = w' \<and> d = d'"
  using assms by (simp add: scoped_key_def)

lemma artifact_path_eq:
  assumes "w \<noteq> []" and "CHR ''/'' \<notin> set w" and "is_sha256 d"
  shows "artifact_path directory w d =
    (if directory = [] \<or> last directory = CHR ''/'' then directory else directory @ ''/'') @
      w @ ''/'' @ take 2 d @ ''/'' @ d"
proof -
  have no_slash: "CHR ''/'' \<notin> set d"
    using assms(3) by (auto simp: is_sha256_def list_all_iff is_ascii_hexdigit_def Let_def dest!: bspec)
  have "last (x @ w) \<noteq> CHR ''/''" for x using assms(1,2) by (metis last_appendR last_in_set)
  moreover from no_slash assms(3) have "last (take 2 d) \<noteq> CHR ''/''" "take 2 d \<noteq> []" "d \<noteq> []"
    by (auto simp: is_sha256_def dest: in_set_takeD) (metis in_set_takeD last_in_set list.size(3) take_eq_Nil zero_neq_numeral)
  moreover have "\<not> starts_with ''/'' w" "\<not> starts_with ''/'' d" "\<not> starts_with ''/'' (take 2 d)"
    using assms(2) no_slash by (auto simp: starts_with_iff dest: in_set_takeD) (metis in_set_takeD list.set_intros(1))
  ultimately show ?thesis
    using assms(1,3) by (auto simp: artifact_path_def artifact_dir_def path_join_def is_sha256_def)
qed

lemma artifact_path_inject:
  assumes "w \<noteq> []" "CHR ''/'' \<notin> set w" "is_sha256 d" "w' \<noteq> []" "CHR ''/'' \<notin> set w'" "is_sha256 d'"
    and "artifact_path directory w d = artifact_path directory w' d'"
  shows "w = w' \<and> d = d'"
proof -
  have "length d = length d'" using assms(3,6) by (simp add: is_sha256_def)
  with assms show ?thesis by (auto simp: artifact_path_eq split: if_splits)
qed

text \<open>
  What the code relies on of the file system: creating directories changes no file, a written file is
  read back and exists, and no other file changes.
\<close>

definition fs_ok :: "'w fs \<Rightarrow> bool" where
  "fs_ok F \<longleftrightarrow>
     (\<forall>p q w. fs_read F q (snd (fs_create_dir_all F p w)) = fs_read F q w \<and>
        fs_exists F q (snd (fs_create_dir_all F p w)) = fs_exists F q w) \<and>
     (\<forall>p q bs w w'. fs_write F p bs w = (Inr (), w') \<longrightarrow>
        fs_read F q w' = (if q = p then Inr bs else fs_read F q w))"

lemma disk_put:
  assumes "fs_ok F" and "ast_backend s = Disk directory" and "put_in E F w bs s = (Inr d, s')"
    and "fs_exists F (artifact_path directory w (sha256_hex E bs)) (ast_world s) \<Longrightarrow>
      fs_read F (artifact_path directory w (sha256_hex E bs)) (ast_world s) = Inr bs"
  shows "d = sha256_hex E bs \<and> length bs \<le> ast_max_bytes s \<and>
    ast_backend s' = Disk directory \<and> ast_max_bytes s' = ast_max_bytes s \<and>
    (\<forall>q. fs_read F q (ast_world s') =
       (if q = artifact_path directory w d then Inr bs else fs_read F q (ast_world s)))"
proof -
  let ?path = "artifact_path directory w (sha256_hex E bs)"
  obtain r w1 where md: "fs_create_dir_all F (artifact_dir directory w (sha256_hex E bs)) (ast_world s) = (r, w1)"
    by fastforce
  with assms(1) have same: "fs_read F q w1 = fs_read F q (ast_world s)" "fs_exists F q w1 = fs_exists F q (ast_world s)" for q
    by (metis fs_ok_def snd_conv)+
  obtain r2 w2 where wr: "fs_write F ?path bs w1 = (r2, w2)" by fastforce
  have written: "fs_read F q w2 = (if q = ?path then Inr bs else fs_read F q w1)" if "r2 = Inr ()" for q
    using assms(1) wr that by (simp add: fs_ok_def)
  show ?thesis
    using assms(2,3,4) md wr written same
    by (auto simp: put_in_def Let_def on_fs_def sm_simps split: if_splits sum.splits)
qed

lemma find_sub_absent: "c \<in> set p \<Longrightarrow> c \<notin> set s \<Longrightarrow> find_sub p s = None"
proof (rule ccontr)
  assume c: "c \<in> set p" "c \<notin> set s" and "find_sub p s \<noteq> None"
  then obtain n where "find_sub p s = Some n" by blast
  from find_sub_split [OF this] have "set p \<subseteq> set s" by (metis UnCI set_append subsetI)
  with c show False by blast
qed

lemma claim_errors_Nil: "claim_errors E known c = [] \<longleftrightarrow> claim_is_sourced known c"
  by (auto simp: claim_errors_def claim_is_sourced_def list_all_iff filter_empty_conv split: ClaimKind.splits)

lemma validate_Nil:
  "validate_diagnosis E d ev = [] \<longleftrightarrow> list_all (claim_is_sourced (known_evidence ev)) (dg_claims d)"
  by (auto simp: validate_diagnosis_def list_all_iff claim_errors_Nil)

section \<open>Properties\<close>

text \<open>
  C19: citations. After the citation check no claim of a diagnosis cites evidence the thread does not
  have and every observed or inferred claim cites some; exactly the claims that fail are dropped, in
  order, and a diagnosis that loses or fails nothing is unchanged, while one that does says so in one
  further limitation and keeps its summary and recommended actions.
\<close>

theorem citations_are_checked:
  "let d' = apply_citation_limitations E d evidence;
       known = set (known_evidence evidence)
   in validate_diagnosis E d' evidence = [] \<and>
      dg_claims d' = filter (\<lambda>c. cl_kind c = Recommended \<or>
        cl_evidence_ids c \<noteq> [] \<and> set (cl_evidence_ids c) \<subseteq> known) (dg_claims d) \<and>
      dg_summary d' = dg_summary d \<and> dg_recommended_actions d' = dg_recommended_actions d \<and>
      dg_limitations d' = dg_limitations d @
        (if dg_claims d' = dg_claims d then []
         else [''Evidence is insufficient; abstained from '' @
               show_nat (length (validate_diagnosis E d evidence)) @ '' unsourced claim(s).''])"
proof -
  let ?P = "claim_is_sourced (known_evidence evidence)"
  have P: "?P = (\<lambda>c. cl_kind c = Recommended \<or>
      cl_evidence_ids c \<noteq> [] \<and> set (cl_evidence_ids c) \<subseteq> set (known_evidence evidence))"
    by (auto simp: fun_eq_iff claim_is_sourced_def list_all_iff split: ClaimKind.splits)
  have same: "filter ?P (dg_claims d) = dg_claims d \<longleftrightarrow> validate_diagnosis E d evidence = []"
    by (auto simp: filter_id_conv list_all_iff validate_Nil)
  show ?thesis
    unfolding Let_def P [symmetric]
    by (cases "validate_diagnosis E d evidence = []")
       (auto simp: apply_citation_limitations_def same validate_Nil list_all_iff)
qed

text \<open>
  Artifacts in memory. What was stored is read back under the digest the store returned, cut to the
  smaller of the two limits, and no artifact of another workspace or of other content changes.
\<close>

theorem artifact_round_trip:
  assumes "length (sha256 E bs) = 32" and "ast_backend s = Memory m"
    and "put_in E F w bs s = (Inr d, s')"
  shows "get_in F w d n s' = Inr (take (max (min n (ast_max_bytes s)) 1) bs) \<and>
    d = sha256_hex E bs \<and> length bs \<le> ast_max_bytes s \<and>
    (\<forall>w' d'. (w', d') \<noteq> (w, d) \<longrightarrow> get_in F w' d' n s' = get_in F w' d' n s)"
proof -
  have d: "d = sha256_hex E bs" "length bs \<le> ast_max_bytes s"
    "s' = s\<lparr>ast_backend := Memory (m(scoped_key w d \<mapsto> bs))\<rparr>"
    using assms(2,3) by (auto simp: put_in_def Let_def split: if_splits)
  have "is_sha256 d" using is_sha256_hex [OF assms(1)] d(1) by simp
  moreover have "get_in F w' d' n s' = get_in F w' d' n s" if "(w', d') \<noteq> (w, d)" for w' d'
  proof (cases "is_sha256 d'")
    case True
    with \<open>is_sha256 d\<close> that have "scoped_key w' d' \<noteq> scoped_key w d"
      using scoped_key_inject [of w' d' w d] by (auto simp: is_sha256_def)
    with True assms(2) d(3) show ?thesis by (simp add: get_in_def Let_def)
  qed (simp add: get_in_def)
  ultimately show ?thesis using d by (simp add: get_in_def Let_def)
qed

definition demo_fs :: "unit fs" where
  "demo_fs = \<lparr>fs_create_dir_all = (\<lambda>_ w. (Inr (), w)), fs_exists = (\<lambda>_ _. False),
     fs_write = (\<lambda>_ _ w. (Inl ''read only'', w)), fs_read = (\<lambda>_ _. Inl FileNotFound)\<rparr>"

definition digest_ext :: ext where
  "digest_ext = demo_ext\<lparr>sha256 := (\<lambda>b. take 32 (b @ replicate 32 CHR 0x00))\<rparr>"

theorem artifact_round_trip_witness:
  "\<exists>s' d. put_in digest_ext demo_fs ''team'' ''logs'' (memory_store ()) = (Inr d, s') \<and>
     get_in demo_fs ''team'' d 2 s' = Inr ''lo''"
proof -
  let ?s = "memory_store ()"
  obtain d s' where put: "put_in digest_ext demo_fs ''team'' ''logs'' ?s = (Inr d, s')"
    by (simp add: put_in_def memory_store_def Let_def)
  have "length (sha256 digest_ext ''logs'') = 32" "ast_backend ?s = Memory Map.empty"
    by (simp_all add: digest_ext_def memory_store_def)
  from artifact_round_trip [OF this put, of 2] have "get_in demo_fs ''team'' d 2 s' = Inr ''lo''"
    by (auto simp: memory_store_def)
  with put show ?thesis by blast
qed


definition map_fs :: "(string \<rightharpoonup> bytes) fs" where
  "map_fs = \<lparr>fs_create_dir_all = (\<lambda>_ w. (Inr (), w)), fs_exists = (\<lambda>p w. w p \<noteq> None),
     fs_write = (\<lambda>p bs w. (Inr (), w(p \<mapsto> bs))),
     fs_read = (\<lambda>p w. case w p of None \<Rightarrow> Inl FileNotFound | Some bs \<Rightarrow> Inr bs)\<rparr>"


text \<open>
  A result can panic the runtime. A text result longer than 280 bytes in which the last character
  before that limit has two bytes has no evidence record: the summary is cut one byte too early, inside
  the character, whatever the rest of the text is.
\<close>

theorem summary_of_multibyte_text_panics:
  assumes "length a = 278" and "starts_char b1" and "\<not> starts_char b2" and "starts_char c"
    and "redact_text (a @ [b1, b2] @ c # rest) = Some (a @ [b1, b2] @ c # rest, changed)"
    and "evm_summary meta = []"
  shows "finalize_evidence E i meta (JStr (a @ [b1, b2] @ c # rest)) r = None"
proof -
  let ?t = "a @ [b1, b2] @ c # rest"
  have "is_char_boundary 280 ?t" and no: "\<not> is_char_boundary 279 ?t"
    using assms(1-4) by (auto simp: is_char_boundary_def nth_append)
  then have "boundary_before 280 ?t = 280" by (simp add: boundary_before.simps [of 280])
  then have "summarize_value E (JStr ?t) 280 = None"
    using assms(1) no by (simp add: summarize_value_def Let_def str_slice_to_def)
  then show ?thesis using assms(5,6) by (simp add: finalize_evidence_def redact_json_def)
qed

theorem summary_of_multibyte_text_panics_witness:
  "finalize_evidence demo_ext 1 (new_evidence 0 ''loki'')
     (JStr (replicate 278 CHR ''x'' @ [CHR 0xC3, CHR 0xA9] @ CHR ''x'' # [])) None = None"
proof (rule summary_of_multibyte_text_panics)
  let ?t = "replicate 278 CHR ''x'' @ [CHR 0xC3, CHR 0xA9] @ CHR ''x'' # []"
  have "set (to_ascii_lowercase ?t) \<subseteq> {CHR ''x'', CHR 0xC3, CHR 0xA9}" "set ?t \<subseteq> {CHR ''x'', CHR 0xC3, CHR 0xA9}"
    by (auto simp: to_ascii_lowercase_def ascii_lower_def)
  then have "find_sub p (to_ascii_lowercase ?t) = None" "find_sub p ?t = None"
    if "\<exists>c \<in> set p. c \<notin> {CHR ''x'', CHR 0xC3, CHR 0xA9}" for p
    using that find_sub_absent by blast+
  then show "redact_text ?t = Some (?t, False)"
    by (simp add: redact_text_def redact_pem_def redact_step_def replace_prefixed_def replace_scan.simps
        redact_bearer_def redact_assignment_def assignment_scan.simps del: replicate.simps)
qed (simp_all add: starts_char_def new_evidence_def del: replicate.simps)

end
