(* ===== verification/Topology.thy ===== *)
theory Topology
  imports Evidence "HOL-Library.List_Lexorder" "HOL-Library.Char_ord"
begin

text \<open>
  The topology of a workspace as far as its evidence shows it (\<open>src/topology.rs\<close>): projecting the log of a
  thread to a graph of services and objects, querying the graph up to a depth and a number of nodes,
  and the bounded projection that is kept with a result whose content went to the artifact store.

  The lemmas show that a projected graph is well formed, that a query returns exactly the nodes within
  the given distance of the evidenced ones unless it reaches its limit, and that the kept projection
  gives the same graph as the full result.
\<close>

section \<open>Data\<close>

definition DEFAULT_TTL_MINUTES :: int where "DEFAULT_TTL_MINUTES = 30"
definition DEFAULT_DEPTH :: nat where "DEFAULT_DEPTH = 2"
definition DEFAULT_MAX_NODES :: nat where "DEFAULT_MAX_NODES = 32"
definition MAX_ARTIFACT_PROJECTION_ITEMS :: nat where "MAX_ARTIFACT_PROJECTION_ITEMS = 16"
definition MAX_ARTIFACT_PROJECTION_STRING_BYTES :: nat where "MAX_ARTIFACT_PROJECTION_STRING_BYTES = 64"
definition MAX_ARTIFACT_PROJECTION_BYTES :: nat where "MAX_ARTIFACT_PROJECTION_BYTES = 8 * 1024"

text \<open>Labels are never filled, so a node has none. One minute has \<open>minute\<close> units of time.\<close>

record TopologyNode =
  tn_id :: string
  tn_kind :: string
  tn_workspace_id :: workspace_id
  tn_evidence_ids :: "string list"
  tn_observed_at :: time

record TopologyEdge =
  te_from :: string
  te_to :: string
  te_relation :: string
  te_confidence :: string
  te_source :: string
  te_evidence_ids :: "string list"
  te_observed_at :: time
  te_expires_at :: time
  te_stale :: bool

record TopologyGraph =
  tg_nodes :: "TopologyNode list"
  tg_edges :: "TopologyEdge list"

record TopologyQuery =
  tq_depth :: nat
  tq_max_nodes :: nat
  tq_include_stale :: bool

definition default_query :: TopologyQuery where
  "default_query = \<lparr>tq_depth = DEFAULT_DEPTH, tq_max_nodes = DEFAULT_MAX_NODES, tq_include_stale = False\<rparr>"

definition empty_graph :: TopologyGraph where
  "empty_graph = \<lparr>tg_nodes = [], tg_edges = []\<rparr>"

section \<open>Nodes and edges\<close>

definition evidence_id_string :: "ext \<Rightarrow> EvidenceMeta \<Rightarrow> string" where
  "evidence_id_string E ev = str_or [] (map_option (uuid_string E) (evm_evidence_id ev))"

definition add_evidence_id :: "string \<Rightarrow> string list \<Rightarrow> string list" where
  "add_evidence_id i ids = (if i \<noteq> [] \<and> i \<notin> set ids then ids @ [i] else ids)"

definition upsert_node ::
    "ext \<Rightarrow> workspace_id \<Rightarrow> string \<Rightarrow> string \<Rightarrow> EvidenceMeta \<Rightarrow> time \<Rightarrow> TopologyGraph \<Rightarrow> string \<times> TopologyGraph" where
  "upsert_node E w kind name ev now g =
     (let nid = kind @ '':'' @ name; eid = evidence_id_string E ev
      in case update_first (\<lambda>n. tn_id n = nid)
           (\<lambda>n. n\<lparr>tn_evidence_ids := add_evidence_id eid (tn_evidence_ids n), tn_observed_at := now\<rparr>) (tg_nodes g) of
           Some nodes \<Rightarrow> (nid, g\<lparr>tg_nodes := nodes\<rparr>)
         | None \<Rightarrow> (nid, g\<lparr>tg_nodes := tg_nodes g @ [\<lparr>tn_id = nid, tn_kind = kind, tn_workspace_id = w,
              tn_evidence_ids = (if eid = [] then [] else [eid]), tn_observed_at = now\<rparr>]\<rparr>))"

definition push_edge ::
    "ext \<Rightarrow> time \<Rightarrow> string \<Rightarrow> string \<Rightarrow> string \<Rightarrow> string \<Rightarrow> string \<Rightarrow> EvidenceMeta \<Rightarrow> time \<Rightarrow> TopologyGraph \<Rightarrow> TopologyGraph" where
  "push_edge E minute from to relation confidence source ev now g =
     (let eid = evidence_id_string E ev; expires_at = now + DEFAULT_TTL_MINUTES * minute
      in case update_first (\<lambda>e. te_from e = from \<and> te_to e = to \<and> te_relation e = relation \<and> te_source e = source)
           (\<lambda>e. e\<lparr>te_evidence_ids := add_evidence_id eid (te_evidence_ids e), te_observed_at := now,
                  te_expires_at := expires_at, te_stale := False\<rparr>) (tg_edges g) of
           Some edges \<Rightarrow> g\<lparr>tg_edges := edges\<rparr>
         | None \<Rightarrow> g\<lparr>tg_edges := tg_edges g @ [\<lparr>te_from = from, te_to = to, te_relation = relation,
              te_confidence = confidence, te_source = source,
              te_evidence_ids = (if eid = [] then [] else [eid]), te_observed_at = now,
              te_expires_at = expires_at, te_stale = False\<rparr>]\<rparr>)"

definition source_rank :: "string \<Rightarrow> nat" where
  "source_rank source = (if source = ''trace'' then 3 else if source = ''kubernetes'' then 2 else 1)"

section \<open>Projection of results\<close>

definition json_array :: "json option \<Rightarrow> json list" where
  "json_array j = (case j of Some (JArr items) \<Rightarrow> items | _ \<Rightarrow> [])"

definition json_entries :: "json option \<Rightarrow> (string \<times> json) list" where
  "json_entries j = (case j of Some (JObj kvs) \<Rightarrow> kvs | _ \<Rightarrow> [])"

definition object_of :: "json \<Rightarrow> json" where
  "object_of out = (case json_get ''object'' out of Some j \<Rightarrow> j | None \<Rightarrow> out)"

definition object_kind :: "json \<Rightarrow> string" where
  "object_kind out = str_or ''Object'' (case json_get_str ''kind'' (object_of out) of
     Some k \<Rightarrow> Some k | None \<Rightarrow> json_get_str ''kind'' out)"

definition object_name :: "json \<Rightarrow> string option" where
  "object_name out = (case Option.bind (json_pointer [''metadata'', ''name''] (object_of out)) json_as_str of
     Some n \<Rightarrow> Some n | None \<Rightarrow> json_get_str ''name'' out)"

definition project_owner ::
    "ext \<Rightarrow> time \<Rightarrow> workspace_id \<Rightarrow> EvidenceMeta \<Rightarrow> time \<Rightarrow> string \<Rightarrow> json \<Rightarrow> TopologyGraph \<Rightarrow> TopologyGraph" where
  "project_owner E minute w ev now node_id owner g =
     (case upsert_node E w (str_or ''Owner'' (json_get_str ''kind'' owner))
         (str_or ''unknown'' (json_get_str ''name'' owner)) ev now g of
        (owner_id, g') \<Rightarrow> push_edge E minute owner_id node_id ''owns'' ''high'' ''kubernetes'' ev now g')"

definition project_selector ::
    "ext \<Rightarrow> time \<Rightarrow> workspace_id \<Rightarrow> EvidenceMeta \<Rightarrow> time \<Rightarrow> string \<Rightarrow> string \<times> json \<Rightarrow> TopologyGraph \<Rightarrow> TopologyGraph" where
  "project_selector E minute w ev now node_id entry g =
     (case json_as_str (snd entry) of
        None \<Rightarrow> g
      | Some label \<Rightarrow>
          (case upsert_node E w ''selector'' (fst entry @ ''='' @ label) ev now g of
             (target, g') \<Rightarrow> push_edge E minute node_id target ''selects'' ''medium'' ''kubernetes'' ev now g'))"

definition project_k8s_object ::
    "ext \<Rightarrow> time \<Rightarrow> workspace_id \<Rightarrow> EvidenceMeta \<Rightarrow> json \<Rightarrow> time \<Rightarrow> TopologyGraph \<Rightarrow> TopologyGraph" where
  "project_k8s_object E minute w ev out now g =
     (case object_name out of
        None \<Rightarrow> g
      | Some name \<Rightarrow>
          (case upsert_node E w (object_kind out) name ev now g of
             (node_id, g1) \<Rightarrow>
               let owners = json_array (json_pointer [''metadata'', ''ownerReferences''] (object_of out));
                   g2 = fold (project_owner E minute w ev now node_id) owners g1;
                   selector = json_entries (json_pointer [''spec'', ''selector''] (object_of out))
               in if eq_ignore_ascii_case (object_kind out) ''Service''
                  then fold (project_selector E minute w ev now node_id) selector g2 else g2))"

definition project_call ::
    "ext \<Rightarrow> time \<Rightarrow> workspace_id \<Rightarrow> EvidenceMeta \<Rightarrow> time \<Rightarrow> string \<times> string \<Rightarrow> TopologyGraph \<Rightarrow> TopologyGraph" where
  "project_call E minute w ev now p g =
     (case upsert_node E w ''service'' (fst p) ev now g of (from, g1) \<Rightarrow>
      case upsert_node E w ''service'' (snd p) ev now g1 of (to, g2) \<Rightarrow>
        push_edge E minute from to ''calls'' ''high'' ''trace'' ev now g2)"

definition trace_service :: "json \<Rightarrow> string option" where
  "trace_service trace = Option.bind
     (case json_get ''rootServiceName'' trace of Some j \<Rightarrow> Some j | None \<Rightarrow> json_get ''service'' trace) json_as_str"

definition trace_call :: "json \<Rightarrow> (string \<times> string) option" where
  "trace_call trace = (case (json_get_str ''client'' trace, json_get_str ''server'' trace) of
     (Some client, Some server) \<Rightarrow> Some (client, server) | _ \<Rightarrow> None)"

definition project_one_trace ::
    "ext \<Rightarrow> time \<Rightarrow> workspace_id \<Rightarrow> EvidenceMeta \<Rightarrow> time \<Rightarrow> json \<Rightarrow> TopologyGraph \<Rightarrow> TopologyGraph" where
  "project_one_trace E minute w ev now trace g =
     (let g1 = (case trace_service trace of None \<Rightarrow> g
            | Some service \<Rightarrow> snd (upsert_node E w ''service'' service ev now g))
      in case trace_call trace of None \<Rightarrow> g1 | Some p \<Rightarrow> project_call E minute w ev now p g1)"

definition batch_service :: "json \<Rightarrow> string option" where
  "batch_service batch = Option.bind (json_pointer [''resource'', ''service.name''] batch) json_as_str"

definition project_trace ::
    "ext \<Rightarrow> time \<Rightarrow> workspace_id \<Rightarrow> EvidenceMeta \<Rightarrow> json \<Rightarrow> time \<Rightarrow> TopologyGraph \<Rightarrow> TopologyGraph" where
  "project_trace E minute w ev out now g =
     (let g1 = fold (project_one_trace E minute w ev now) (json_array (json_get ''traces'' out)) g;
          services = List.map_filter batch_service (json_array (json_get ''batches'' out))
      in fold (project_call E minute w ev now) (zip services (tl services)) g1)"

definition projection_payload :: "json \<Rightarrow> json" where
  "projection_payload out =
     (if json_get ''success'' out = Some (JBool True)
      then (case json_get ''content'' out of
              Some content \<Rightarrow> content
            | None \<Rightarrow> (case json_get ''topology_projection'' out of Some p \<Rightarrow> p | None \<Rightarrow> out))
      else out)"

definition project_event ::
    "ext \<Rightarrow> time \<Rightarrow> workspace_id \<Rightarrow> time \<Rightarrow> RuntimeEvent \<Rightarrow> TopologyGraph \<Rightarrow> TopologyGraph" where
  "project_event E minute w now ev g =
     (case ev of
        ToolCompleted call_id tool out evidence success \<Rightarrow>
          if \<not> success then g
          else
            let payload = projection_payload out
            in if tool = ''k8s_get'' then project_k8s_object E minute w evidence payload now g
               else if tool = ''trace_search'' \<or> tool = ''trace_get''
               then project_trace E minute w evidence payload now g
               else (case json_get_str ''service'' payload of
                       None \<Rightarrow> g
                     | Some service \<Rightarrow> snd (upsert_node E w ''service'' service evidence now g))
      | UserMessage content (Some context) \<Rightarrow>
          (case ic_service context of
             None \<Rightarrow> g
           | Some service \<Rightarrow> snd (upsert_node E w ''service'' service (new_evidence now ''alert'') now g))
      | _ \<Rightarrow> g)"

definition project_topology ::
    "ext \<Rightarrow> time \<Rightarrow> workspace_id \<Rightarrow> time \<Rightarrow> EventEnvelope list \<Rightarrow> TopologyGraph" where
  "project_topology E minute w now events =
     (let g = fold (\<lambda>env. project_event E minute w now (env_event env)) events empty_graph
      in g\<lparr>tg_edges := sort_key (\<lambda>e. 3 - source_rank (te_source e)) (sort_key te_from (tg_edges g))\<rparr>)"

section \<open>Queries\<close>

text \<open>The adjacency map of the code: the sorted set of both ends of every edge at an id.\<close>

definition neighbors :: "TopologyEdge list \<Rightarrow> string \<Rightarrow> string list" where
  "neighbors edges i = sorted_list_of_set
     (set (map te_to (filter (\<lambda>e. te_from e = i) edges)) \<union> set (map te_from (filter (\<lambda>e. te_to e = i) edges)))"

text \<open>Queue every neighbour that \<open>seen.insert\<close> accepts.\<close>

fun enqueue_new :: "nat \<Rightarrow> string list \<Rightarrow> string list \<times> (string \<times> nat) list \<Rightarrow> string list \<times> (string \<times> nat) list" where
  "enqueue_new distance [] st = st"
| "enqueue_new distance (n # ns) (seen, queue) =
     enqueue_new distance ns (if n \<in> set seen then (seen, queue) else (n # seen, queue @ [(n, distance)]))"

definition edge_ids :: "TopologyEdge list \<Rightarrow> string list" where
  "edge_ids edges = map te_from edges @ map te_to edges"

lemma set_neighbors: "set (neighbors edges i) =
    {te_to e |e. e \<in> set edges \<and> te_from e = i} \<union> {te_from e |e. e \<in> set edges \<and> te_to e = i}"
  by (auto simp: neighbors_def)

lemma enqueue_new_measure:
  assumes "set ns \<subseteq> U" and "finite U"
  shows "card (U - set (fst (enqueue_new d ns (seen, queue)))) + length (snd (enqueue_new d ns (seen, queue))) =
    card (U - set seen) + length queue"
  using assms
proof (induction ns arbitrary: seen queue)
  case (Cons n ns)
  show ?case
  proof (cases "n \<in> set seen")
    case False
    have "U - set seen = insert n (U - set (n # seen))" using Cons.prems False by auto
    then have "card (U - set seen) = Suc (card (U - set (n # seen)))"
      using Cons.prems(2) by (metis Diff_iff card_insert_disjoint finite_Diff list.set_intros(1))
    with Cons False show ?thesis by simp
  qed (use Cons in simp)
qed simp

function bfs ::
    "TopologyEdge list \<Rightarrow> nat \<Rightarrow> nat \<Rightarrow> string list \<Rightarrow> string list \<Rightarrow> (string \<times> nat) list \<Rightarrow> string list" where
  "bfs edges depth max_nodes kept seen [] = kept"
| "bfs edges depth max_nodes kept seen ((i, distance) # queue) =
     (let kept' = kept @ [i]
      in if max_nodes \<le> length kept' then kept'
         else if depth \<le> distance then bfs edges depth max_nodes kept' seen queue
         else let st = enqueue_new (distance + 1) (neighbors edges i) (seen, queue)
              in bfs edges depth max_nodes kept' (fst st) (snd st))"
  by pat_completeness auto
termination
proof (relation "measure (\<lambda>(edges, depth, max_nodes, kept, seen, queue).
    card (set (edge_ids edges) - set seen) + length queue)", goal_cases)
  case (3 edges depth max_nodes kept seen i distance queue kept' st)
  have "set (neighbors edges i) \<subseteq> set (edge_ids edges)" by (auto simp: set_neighbors edge_ids_def)
  from enqueue_new_measure [OF this, of "distance + 1" seen queue] 3 show ?case by (simp add: case_prod_unfold)
qed auto

definition query_topology :: "time \<Rightarrow> TopologyGraph \<Rightarrow> TopologyQuery \<Rightarrow> TopologyGraph" where
  "query_topology now g q =
     (let marked = map (\<lambda>e. if te_expires_at e \<le> now then e\<lparr>te_stale := True\<rparr> else e) (tg_edges g);
          edges = (if tq_include_stale q then marked else filter (\<lambda>e. \<not> te_stale e) marked);
          evidenced = map tn_id (filter (\<lambda>n. tn_evidence_ids n \<noteq> []) (tg_nodes g));
          seeds = (if evidenced = [] then map tn_id (tg_nodes g) else evidenced);
          st = enqueue_new 0 seeds ([], []);
          allowed = bfs edges (max (tq_depth q) 1) (max (tq_max_nodes q) 1) [] (fst st) (snd st)
      in \<lparr>tg_nodes = filter (\<lambda>n. tn_id n \<in> set allowed) (tg_nodes g),
          tg_edges = filter (\<lambda>e. te_from e \<in> set allowed \<and> te_to e \<in> set allowed) edges\<rparr>)"

section \<open>The projection kept with an artifact\<close>

definition bounded_string :: "string \<Rightarrow> string" where
  "bounded_string v = take (boundary_before (min (length v) MAX_ARTIFACT_PROJECTION_STRING_BYTES) v) v"

text \<open>Insertion into a JSON object: sorted by key, the last value of a key wins.\<close>

fun obj_insert :: "string \<Rightarrow> json \<Rightarrow> (string \<times> json) list \<Rightarrow> (string \<times> json) list" where
  "obj_insert k v [] = [(k, v)]"
| "obj_insert k v ((k', v') # kvs) =
     (if k = k' then (k, v) # kvs else if k < k' then (k, v) # (k', v') # kvs else (k', v') # obj_insert k v kvs)"

definition bounded_field :: "string \<Rightarrow> json \<Rightarrow> (string \<times> json) list" where
  "bounded_field f trace =
     (case json_get_str f trace of None \<Rightarrow> [] | Some v \<Rightarrow> [(f, JStr (bounded_string v))])"

definition project_trace_fields :: "json \<Rightarrow> json option" where
  "project_trace_fields trace =
     (let fs = concat (map (\<lambda>f. bounded_field f trace) [''client'', ''rootServiceName'', ''server'', ''service''])
      in if fs = [] then None else Some (JObj fs))"

definition project_batch_fields :: "json \<Rightarrow> json option" where
  "project_batch_fields batch = map_option (\<lambda>service.
     JObj [(''resource'', JObj [(''service.name'', JStr (bounded_string service))])]) (batch_service batch)"

definition trace_artifact_projection :: "json \<Rightarrow> json option" where
  "trace_artifact_projection out =
     (let traces = take MAX_ARTIFACT_PROJECTION_ITEMS
            (List.map_filter project_trace_fields (json_array (json_get ''traces'' out)));
          batches = take MAX_ARTIFACT_PROJECTION_ITEMS
            (List.map_filter project_batch_fields (json_array (json_get ''batches'' out)))
      in if traces = [] \<and> batches = [] then None
         else Some (JObj ((if batches = [] then [] else [(''batches'', JArr batches)]) @
                          (if traces = [] then [] else [(''traces'', JArr traces)]))))"

definition project_owner_fields :: "json \<Rightarrow> json option" where
  "project_owner_fields owner = map_option (\<lambda>name.
     JObj [(''kind'', JStr (bounded_string (str_or ''Owner'' (json_get_str ''kind'' owner)))),
           (''name'', JStr (bounded_string name))]) (json_get_str ''name'' owner)"

definition project_selector_fields :: "string \<times> json \<Rightarrow> (string \<times> json) option" where
  "project_selector_fields entry = map_option (\<lambda>v. (bounded_string (fst entry), JStr (bounded_string v)))
     (json_as_str (snd entry))"

definition k8s_artifact_projection :: "json \<Rightarrow> json option" where
  "k8s_artifact_projection out =
     map_option (\<lambda>name.
       let owners = take MAX_ARTIFACT_PROJECTION_ITEMS (List.map_filter project_owner_fields
             (json_array (json_pointer [''metadata'', ''ownerReferences''] (object_of out))));
           selector = fold (\<lambda>(k, v). obj_insert k v)
             (take MAX_ARTIFACT_PROJECTION_ITEMS (List.map_filter project_selector_fields
                (json_entries (json_pointer [''spec'', ''selector''] (object_of out))))) []
       in JObj [(''object'', JObj [
            (''kind'', JStr (bounded_string (object_kind out))),
            (''metadata'', JObj [(''name'', JStr (bounded_string name)), (''ownerReferences'', JArr owners)]),
            (''spec'', JObj [(''selector'', JObj selector)])])])
       (object_name out)"

definition artifact_topology_projection :: "ext \<Rightarrow> string \<Rightarrow> json \<Rightarrow> json option" where
  "artifact_topology_projection E tool out =
     Option.bind (if tool = ''trace_search'' \<or> tool = ''trace_get'' then trace_artifact_projection out
                  else if tool = ''k8s_get'' then k8s_artifact_projection out else None) (\<lambda>projection.
       if length (json_bytes E projection) \<le> MAX_ARTIFACT_PROJECTION_BYTES then Some projection else None)"

section \<open>Well-formed graphs\<close>

definition node_ids :: "TopologyGraph \<Rightarrow> string set" where
  "node_ids g = tn_id ` set (tg_nodes g)"

definition edge_key :: "TopologyEdge \<Rightarrow> string \<times> string \<times> string \<times> string" where
  "edge_key e = (te_from e, te_to e, te_relation e, te_source e)"

definition graph_ok :: "workspace_id \<Rightarrow> TopologyGraph \<Rightarrow> bool" where
  "graph_ok w g \<longleftrightarrow> distinct (map tn_id (tg_nodes g)) \<and> distinct (map edge_key (tg_edges g)) \<and>
     (\<forall>n \<in> set (tg_nodes g). tn_workspace_id n = w) \<and>
     (\<forall>e \<in> set (tg_edges g). te_from e \<in> node_ids g \<and> te_to e \<in> node_ids g)"

text \<open>
  Every step of a projection keeps the graph well formed, only adds nodes, and lets every edge expire
  at the same time \<open>x\<close>.
\<close>

definition expiry :: "time \<Rightarrow> time \<Rightarrow> time" where
  "expiry minute now = now + DEFAULT_TTL_MINUTES * minute"

definition all_expire :: "time \<Rightarrow> TopologyGraph \<Rightarrow> bool" where
  "all_expire x g \<longleftrightarrow> (\<forall>e \<in> set (tg_edges g). te_expires_at e = x \<and> \<not> te_stale e)"

definition grows :: "workspace_id \<Rightarrow> time \<Rightarrow> TopologyGraph \<Rightarrow> TopologyGraph \<Rightarrow> bool" where
  "grows w x g g' \<longleftrightarrow> (graph_ok w g \<longrightarrow> graph_ok w g') \<and> node_ids g \<subseteq> node_ids g' \<and>
     (all_expire x g \<longrightarrow> all_expire x g')"

lemma grows_refl: "grows w x g g"
  by (simp add: grows_def)

lemma grows_trans: "grows w x g g' \<Longrightarrow> grows w x g' g'' \<Longrightarrow> grows w x g g''"
  by (auto simp: grows_def)

lemma upsert_node_grows:
  "grows w x g (snd (upsert_node E w kind name ev now g)) \<and>
   fst (upsert_node E w kind name ev now g) \<in> node_ids (snd (upsert_node E w kind name ev now g))"
proof -
  let ?nid = "kind @ '':'' @ name"
  let ?f = "\<lambda>n. n\<lparr>tn_evidence_ids := add_evidence_id (evidence_id_string E ev) (tn_evidence_ids n), tn_observed_at := now\<rparr>"
  show ?thesis
  proof (cases "update_first (\<lambda>n. tn_id n = ?nid) ?f (tg_nodes g)")
    case None
    then have "?nid \<notin> node_ids g" by (auto simp: update_first_None node_ids_def)
    then show ?thesis
      using None by (auto simp: upsert_node_def Let_def grows_def graph_ok_def node_ids_def all_expire_def)
  next
    case (Some nodes)
    then obtain a n b where "tg_nodes g = a @ n # b" "nodes = a @ ?f n # b" "tn_id n = ?nid"
      by (auto dest!: update_first_SomeD)
    then show ?thesis
      using Some by (auto simp: upsert_node_def Let_def grows_def graph_ok_def node_ids_def all_expire_def)
  qed
qed

lemmas upsert_grows = conjunct1 [OF upsert_node_grows]

lemma push_edge_grows:
  assumes "from \<in> node_ids g" and "to \<in> node_ids g"
  shows "grows w (expiry minute now) g (push_edge E minute from to rel conf src ev now g)"
proof -
  let ?P = "\<lambda>e. te_from e = from \<and> te_to e = to \<and> te_relation e = rel \<and> te_source e = src"
  let ?f = "\<lambda>e. e\<lparr>te_evidence_ids := add_evidence_id (evidence_id_string E ev) (te_evidence_ids e), te_observed_at := now,
                  te_expires_at := now + DEFAULT_TTL_MINUTES * minute, te_stale := False\<rparr>"
  show ?thesis
  proof (cases "update_first ?P ?f (tg_edges g)")
    case None
    then have "(from, to, rel, src) \<notin> edge_key ` set (tg_edges g)"
      by (auto simp: update_first_None edge_key_def)
    then show ?thesis
      using None assms by (auto simp: push_edge_def Let_def grows_def graph_ok_def node_ids_def edge_key_def all_expire_def expiry_def)
  next
    case (Some edges)
    then obtain a e b where "tg_edges g = a @ e # b" "edges = a @ ?f e # b"
      by (auto dest!: update_first_SomeD)
    then show ?thesis
      using Some by (auto simp: push_edge_def Let_def grows_def graph_ok_def node_ids_def edge_key_def all_expire_def expiry_def)
  qed
qed

lemma fold_grows:
  assumes "\<And>y g. y \<in> set xs \<Longrightarrow> grows w x g0 g \<Longrightarrow> grows w x g (f y g)"
  shows "grows w x g0 g \<Longrightarrow> grows w x g (fold f xs g)"
  using assms
proof (induction xs arbitrary: g)
  case (Cons y xs)
  then have "grows w x g (f y g)" by simp
  moreover from this Cons.prems have "grows w x g0 (f y g)" using grows_trans by blast
  ultimately show ?case using Cons grows_trans by (metis fold_simps(2) list.set_intros(2))
qed (simp add: grows_refl)

lemma project_owner_grows:
  assumes "node_id \<in> node_ids g"
  shows "grows w (expiry minute now) g (project_owner E minute w ev now node_id owner g)"
proof -
  let ?u = "upsert_node E w (str_or ''Owner'' (json_get_str ''kind'' owner)) (str_or ''unknown'' (json_get_str ''name'' owner)) ev now g"
  from upsert_node_grows have u: "grows w (expiry minute now) g (snd ?u)" "fst ?u \<in> node_ids (snd ?u)" by blast+
  with assms have "node_id \<in> node_ids (snd ?u)" by (auto simp: grows_def)
  with u show ?thesis
    by (auto simp: project_owner_def case_prod_unfold intro: grows_trans push_edge_grows)
qed

lemma project_selector_grows:
  assumes "node_id \<in> node_ids g"
  shows "grows w (expiry minute now) g (project_selector E minute w ev now node_id entry g)"
proof (cases "json_as_str (snd entry)")
  case (Some label)
  let ?u = "upsert_node E w ''selector'' (fst entry @ ''='' @ label) ev now g"
  from upsert_node_grows have u: "grows w (expiry minute now) g (snd ?u)" "fst ?u \<in> node_ids (snd ?u)" by blast+
  with assms have "node_id \<in> node_ids (snd ?u)" by (auto simp: grows_def)
  with u Some show ?thesis
    by (auto simp: project_selector_def case_prod_unfold intro: grows_trans push_edge_grows)
qed (simp add: project_selector_def grows_refl)

lemma project_call_grows: "grows w (expiry minute now) g (project_call E minute w ev now p g)"
proof -
  let ?u = "upsert_node E w ''service'' (fst p) ev now g"
  let ?v = "upsert_node E w ''service'' (snd p) ev now (snd ?u)"
  from upsert_node_grows have u: "grows w (expiry minute now) g (snd ?u)" "fst ?u \<in> node_ids (snd ?u)" by blast+
  from upsert_node_grows have v: "grows w (expiry minute now) (snd ?u) (snd ?v)" "fst ?v \<in> node_ids (snd ?v)" by blast+
  with u have "fst ?u \<in> node_ids (snd ?v)" by (auto simp: grows_def)
  with u(1) v show ?thesis
    by (auto simp: project_call_def case_prod_unfold intro: grows_trans [OF grows_trans] push_edge_grows)
qed

lemma project_k8s_grows: "grows w (expiry minute now) g (project_k8s_object E minute w ev out now g)"
proof (cases "object_name out")
  case (Some name)
  let ?u = "upsert_node E w (object_kind out) name ev now g"
  let ?owners = "json_array (json_pointer [''metadata'', ''ownerReferences''] (object_of out))"
  let ?sel = "json_entries (json_pointer [''spec'', ''selector''] (object_of out))"
  let ?g2 = "fold (project_owner E minute w ev now (fst ?u)) ?owners (snd ?u)"
  from upsert_node_grows have u: "grows w (expiry minute now) g (snd ?u)" "fst ?u \<in> node_ids (snd ?u)" by blast+
  have at: "fst ?u \<in> node_ids g'" if "grows w (expiry minute now) (snd ?u) g'" for g'
    using that u(2) by (auto simp: grows_def)
  have o: "grows w (expiry minute now) (snd ?u) ?g2"
    by (rule fold_grows [OF _ grows_refl]) (simp add: project_owner_grows at)
  have "grows w (expiry minute now) ?g2 (fold (project_selector E minute w ev now (fst ?u)) ?sel ?g2)"
    by (rule fold_grows [OF _ o]) (simp add: project_selector_grows at)
  with u(1) o Some show ?thesis
    by (auto simp: project_k8s_object_def case_prod_unfold Let_def intro: grows_trans [OF grows_trans] grows_trans)
qed (simp add: project_k8s_object_def grows_refl)

lemma project_one_trace_grows: "grows w (expiry minute now) g (project_one_trace E minute w ev now trace g)"
  by (auto simp: project_one_trace_def Let_def grows_refl project_call_grows upsert_grows
      intro: grows_trans [OF upsert_grows project_call_grows] split: option.split)

lemma project_trace_grows: "grows w (expiry minute now) g (project_trace E minute w ev out now g)"
proof -
  let ?g1 = "fold (project_one_trace E minute w ev now) (json_array (json_get ''traces'' out)) g"
  have "grows w (expiry minute now) g ?g1" by (rule fold_grows [OF _ grows_refl]) (rule project_one_trace_grows)
  moreover have "grows w (expiry minute now) ?g1 (fold (project_call E minute w ev now) ps ?g1)" for ps
    by (rule fold_grows [OF _ grows_refl]) (rule project_call_grows)
  ultimately show ?thesis by (auto simp: project_trace_def Let_def intro: grows_trans)
qed

lemma project_event_grows: "grows w (expiry minute now) g (project_event E minute w now ev g)"
  by (auto simp: project_event_def Let_def grows_refl project_k8s_grows project_trace_grows upsert_grows
      split: RuntimeEvent.split option.split)

lemma projected_graph_ok: "graph_ok w (project_topology E minute w now events)"
proof -
  let ?g = "fold (\<lambda>env. project_event E minute w now (env_event env)) events empty_graph"
  have "grows w (expiry minute now) empty_graph ?g" by (rule fold_grows [OF _ grows_refl]) (rule project_event_grows)
  moreover have "graph_ok w empty_graph" by (simp add: graph_ok_def empty_graph_def)
  ultimately have "graph_ok w ?g" by (simp add: grows_def)
  then show ?thesis by (simp add: project_topology_def Let_def graph_ok_def node_ids_def distinct_map)
qed

section \<open>Reachability\<close>

text \<open>The specification of a query: the ids at most \<open>k\<close> edges away from a seed, in either direction.\<close>

fun within :: "TopologyEdge list \<Rightarrow> string set \<Rightarrow> nat \<Rightarrow> string set" where
  "within edges S 0 = S"
| "within edges S (Suc k) = within edges S k \<union> (\<Union>i \<in> within edges S k. set (neighbors edges i))"

lemma within_mono: "k \<le> l \<Longrightarrow> within edges S k \<subseteq> within edges S l"
  by (induction l) (auto simp: le_Suc_eq)

lemma finite_neighbors: "finite (set (neighbors edges i))"
  by simp

lemma finite_within: "finite S \<Longrightarrow> finite (within edges S k)"
  by (induction k) auto

lemma enqueue_new_distinct:
  assumes "distinct ns"
  shows "enqueue_new d ns (seen, queue) =
    (rev (filter (\<lambda>n. n \<notin> set seen) ns) @ seen, queue @ map (\<lambda>n. (n, d)) (filter (\<lambda>n. n \<notin> set seen) ns))"
  using assms
proof (induction ns arbitrary: seen queue)
  case (Cons n ns)
  have "filter (\<lambda>m. m \<notin> set (n # seen)) ns = filter (\<lambda>m. m \<notin> set seen) ns"
    using Cons.prems by (auto intro: filter_cong)
  with Cons show ?case by simp
qed simp

text \<open>
  The invariant of the search, with the distance each id was queued at: what is kept or queued is at
  its distance, the queue is ordered, no distance is ahead of the queue by more than one, and every kept
  id that was expanded has all its neighbours seen.
\<close>

definition bfs_inv ::
    "TopologyEdge list \<Rightarrow> string set \<Rightarrow> nat \<Rightarrow> string list \<Rightarrow> string list \<Rightarrow> (string \<times> nat) list \<Rightarrow> (string \<Rightarrow> nat) \<Rightarrow> bool" where
  "bfs_inv edges S depth kept seen queue at \<longleftrightarrow>
     distinct (kept @ map fst queue) \<and> set seen = set kept \<union> fst ` set queue \<and>
     S \<subseteq> set seen \<and> (\<forall>i \<in> S. at i = 0) \<and> (\<forall>(i, d) \<in> set queue. at i = d) \<and>
     (\<forall>i \<in> set seen. i \<in> within edges S (at i) \<and> at i \<le> depth) \<and>
     sorted (map snd queue) \<and> (\<forall>i \<in> set seen. \<forall>(j, d) \<in> set queue. at i \<le> Suc d) \<and>
     (\<forall>i \<in> set kept. at i < depth \<longrightarrow> (\<forall>n \<in> set (neighbors edges i). n \<in> set seen \<and> at n \<le> Suc (at i)))"

lemma bfs_inv_skip:
  assumes "bfs_inv edges S depth kept seen ((i, d) # queue) at" and "depth \<le> d"
  shows "bfs_inv edges S depth (kept @ [i]) seen queue at"
  using assms by (auto simp: bfs_inv_def)

lemma bfs_inv_expand:
  assumes inv: "bfs_inv edges S depth kept seen ((i, d) # queue) at" and d: "d < depth"
  defines "new \<equiv> filter (\<lambda>n. n \<notin> set seen) (neighbors edges i)"
  shows "bfs_inv edges S depth (kept @ [i]) (rev new @ seen) (queue @ map (\<lambda>n. (n, Suc d)) new)
    (\<lambda>n. if n \<in> set new then Suc d else at n)"
proof -
  have fresh: "n \<notin> set seen" "n \<in> set (neighbors edges i)" if "n \<in> set new" for n
    using that by (auto simp: new_def)
  have dist: "distinct new" by (simp add: new_def neighbors_def)
  have i: "at i = d" "i \<in> set seen" "i \<in> within edges S d" using inv by (auto simp: bfs_inv_def)
  have ahead: "at j \<le> Suc d" if "j \<in> set seen" for j using inv that by (auto simp: bfs_inv_def)
  have seen: "set seen = insert i (set kept \<union> fst ` set queue)" using inv by (auto simp: bfs_inv_def)
  have q: "d \<le> e \<and> e \<le> Suc d" if "(j, e) \<in> set queue" for j e
  proof -
    from inv that have "d \<le> e" "at j = e" by (auto simp: bfs_inv_def)
    moreover from that seen have "j \<in> set seen" by (auto intro: rev_image_eqI)
    ultimately show ?thesis using ahead by auto
  qed
  have near: "n \<in> within edges S (Suc d)" if "n \<in> set new" for n
    using fresh [OF that] i(3) by auto
  show ?thesis
    unfolding bfs_inv_def
  proof (intro conjI)
    show "distinct ((kept @ [i]) @ map fst (queue @ map (\<lambda>n. (n, Suc d)) new))"
      using inv dist fresh(1) seen by (auto simp: bfs_inv_def o_def)
    show "set (rev new @ seen) = set (kept @ [i]) \<union> fst ` set (queue @ map (\<lambda>n. (n, Suc d)) new)"
      using seen by (auto simp: image_Un image_image)
    show "sorted (map snd (queue @ map (\<lambda>n. (n, Suc d)) new))"
    proof -
      have "sorted (map snd queue)" using inv by (auto simp: bfs_inv_def)
      moreover have "e \<le> Suc d" if "e \<in> set (map snd queue)" for e using that q by auto
      ultimately show ?thesis by (simp add: sorted_append o_def map_replicate_const)
    qed
    show "\<forall>j \<in> set (kept @ [i]). (if j \<in> set new then Suc d else at j) < depth \<longrightarrow>
        (\<forall>n \<in> set (neighbors edges j). n \<in> set (rev new @ seen) \<and>
          (if n \<in> set new then Suc d else at n) \<le> Suc (if j \<in> set new then Suc d else at j))"
    proof (intro ballI impI)
      fix j n
      assume j: "j \<in> set (kept @ [i])" "(if j \<in> set new then Suc d else at j) < depth" and n: "n \<in> set (neighbors edges j)"
      from j(1) seen have "j \<in> set seen" by auto
      then have old: "j \<notin> set new" using fresh(1) by blast
      show "n \<in> set (rev new @ seen) \<and>
          (if n \<in> set new then Suc d else at n) \<le> Suc (if j \<in> set new then Suc d else at j)"
      proof (cases "j = i")
        case True
        with n have "n \<in> set new \<or> n \<in> set seen" by (auto simp: new_def)
        with True i(1) old ahead show ?thesis by auto
      next
        case False
        with j old have "j \<in> set kept" "at j < depth" by auto
        with inv n have "n \<in> set seen" "at n \<le> Suc (at j)" by (auto simp: bfs_inv_def)
        with old fresh(1) show ?thesis by auto
      qed
    qed
    show "S \<subseteq> set (rev new @ seen)" using inv by (auto simp: bfs_inv_def)
    show "\<forall>j \<in> S. (if j \<in> set new then Suc d else at j) = 0"
      using inv fresh(1) by (auto simp: bfs_inv_def)
    have "j \<notin> set new \<and> at j = e" if "(j, e) \<in> set queue" for j e
    proof -
      from that seen have "j \<in> set seen" by (auto intro: rev_image_eqI)
      then show ?thesis using inv that fresh(1) by (auto simp: bfs_inv_def)
    qed
    then show "\<forall>(j, e) \<in> set (queue @ map (\<lambda>n. (n, Suc d)) new). (if j \<in> set new then Suc d else at j) = e"
      by auto
    show "\<forall>j \<in> set (rev new @ seen). j \<in> within edges S (if j \<in> set new then Suc d else at j) \<and>
        (if j \<in> set new then Suc d else at j) \<le> depth"
      using inv d near by (auto simp: bfs_inv_def simp del: within.simps)
    show "\<forall>j \<in> set (rev new @ seen). \<forall>(l, e) \<in> set (queue @ map (\<lambda>n. (n, Suc d)) new).
        (if j \<in> set new then Suc d else at j) \<le> Suc e"
    proof (intro ballI, clarify)
      fix j l e
      assume j: "j \<in> set (rev new @ seen)" and l: "(l, e) \<in> set (queue @ map (\<lambda>n. (n, Suc d)) new)"
      from j ahead have "(if j \<in> set new then Suc d else at j) \<le> Suc d" by auto
      moreover from l q have "d \<le> e" by auto
      ultimately show "(if j \<in> set new then Suc d else at j) \<le> Suc e" by simp
    qed
  qed
qed

lemma bfs_complete:
  assumes "bfs_inv edges S depth kept seen [] at" and "k \<le> depth"
  shows "within edges S k \<subseteq> {i \<in> set kept. at i \<le> k}"
  using assms(2)
proof (induction k)
  case 0
  with assms(1) show ?case by (auto simp: bfs_inv_def)
next
  case (Suc k)
  then have "within edges S k \<subseteq> {i \<in> set kept. at i \<le> k}" by simp
  moreover have "n \<in> set kept \<and> at n \<le> Suc k"
    if "i \<in> set kept" "at i \<le> k" "n \<in> set (neighbors edges i)" for i n
  proof -
    from that(2) Suc.prems have "at i < depth" by simp
    with assms(1) that(1,3) have "n \<in> set kept" "at n \<le> Suc (at i)" by (auto simp: bfs_inv_def)
    with that(2) show ?thesis by simp
  qed
  ultimately show ?case by auto
qed

lemma bfs_correct:
  assumes "bfs_inv edges S depth kept seen queue at" and "length kept < m"
  shows "distinct (bfs edges depth m kept seen queue) \<and> length (bfs edges depth m kept seen queue) \<le> m \<and>
    set (bfs edges depth m kept seen queue) \<subseteq> within edges S depth \<and>
    (length (bfs edges depth m kept seen queue) < m \<longrightarrow> set (bfs edges depth m kept seen queue) = within edges S depth)"
  using assms
proof (induction edges depth m kept seen queue arbitrary: at rule: bfs.induct)
  case (1 edges depth m kept seen)
  have "set kept \<subseteq> within edges S depth"
    using 1(1) within_mono by (fastforce simp: bfs_inv_def)
  moreover have "within edges S depth \<subseteq> set kept" using bfs_complete [OF 1(1), of depth] by auto
  ultimately show ?case using 1 by (auto simp: bfs_inv_def)
next
  case (2 edges depth m kept seen i d queue)
  have inW: "j \<in> within edges S depth" if "j \<in> set (kept @ [i])" for j
  proof -
    from 2(3) that have "j \<in> within edges S (at j)" "at j \<le> depth" by (auto simp: bfs_inv_def)
    with within_mono show ?thesis by blast
  qed
  show ?case
  proof (cases "m \<le> length (kept @ [i])")
    case True
    with 2(3,4) inW show ?thesis by (auto simp: Let_def bfs_inv_def)
  next
    case room: False
    show ?thesis
    proof (cases "depth \<le> d")
      case True
      with 2(1) [OF refl room True bfs_inv_skip [OF 2(3) True]] room show ?thesis by (simp add: Let_def)
    next
      case False
      have eq: "enqueue_new (d + 1) (neighbors edges i) (seen, queue) =
        (rev (filter (\<lambda>n. n \<notin> set seen) (neighbors edges i)) @ seen,
         queue @ map (\<lambda>n. (n, Suc d)) (filter (\<lambda>n. n \<notin> set seen) (neighbors edges i)))"
        using enqueue_new_distinct [of "neighbors edges i" "d + 1" seen queue] by (simp add: neighbors_def)
      from 2(2) [OF refl room False refl, unfolded eq fst_conv snd_conv, OF bfs_inv_expand [OF 2(3)]] room False
      show ?thesis by (simp add: Let_def eq [simplified])
    qed
  qed
qed

text \<open>
  All edges of a projection expire half an hour after the projection, not after the observation: a query
  that follows it at once drops none.
\<close>

lemma projected_edges_are_never_stale:
  assumes "now' < now + DEFAULT_TTL_MINUTES * minute" and "e \<in> set (tg_edges (project_topology E minute w now events))"
  shows "\<not> te_expires_at e \<le> now' \<and> \<not> te_stale e"
proof -
  let ?g = "fold (\<lambda>env. project_event E minute w now (env_event env)) events empty_graph"
  have "grows w (expiry minute now) empty_graph ?g" by (rule fold_grows [OF _ grows_refl]) (rule project_event_grows)
  then have "all_expire (expiry minute now) ?g" by (simp add: grows_def all_expire_def empty_graph_def)
  with assms show ?thesis by (auto simp: all_expire_def expiry_def project_topology_def Let_def)
qed

definition live_edges :: "time \<Rightarrow> TopologyQuery \<Rightarrow> TopologyGraph \<Rightarrow> TopologyEdge list" where
  "live_edges now q g =
     (let marked = map (\<lambda>e. if te_expires_at e \<le> now then e\<lparr>te_stale := True\<rparr> else e) (tg_edges g)
      in if tq_include_stale q then marked else filter (\<lambda>e. \<not> te_stale e) marked)"

definition seeds :: "TopologyGraph \<Rightarrow> string list" where
  "seeds g = (let evidenced = map tn_id (filter (\<lambda>n. tn_evidence_ids n \<noteq> []) (tg_nodes g))
     in if evidenced = [] then map tn_id (tg_nodes g) else evidenced)"

definition query_ids :: "time \<Rightarrow> TopologyGraph \<Rightarrow> TopologyQuery \<Rightarrow> string list" where
  "query_ids now g q = bfs (live_edges now q g) (max (tq_depth q) 1) (max (tq_max_nodes q) 1) []
     (fst (enqueue_new 0 (seeds g) ([], []))) (snd (enqueue_new 0 (seeds g) ([], [])))"

text \<open>What a query is after: the ids within its depth of the seeds.\<close>

definition near_ids :: "time \<Rightarrow> TopologyGraph \<Rightarrow> TopologyQuery \<Rightarrow> string set" where
  "near_ids now g q = within (live_edges now q g) (set (seeds g)) (max (tq_depth q) 1)"

lemma query_topology_eq:
  "query_topology now g q = \<lparr>tg_nodes = filter (\<lambda>n. tn_id n \<in> set (query_ids now g q)) (tg_nodes g),
     tg_edges = filter (\<lambda>e. te_from e \<in> set (query_ids now g q) \<and> te_to e \<in> set (query_ids now g q))
       (live_edges now q g)\<rparr>"
  by (simp add: query_topology_def query_ids_def live_edges_def seeds_def Let_def)

lemma distinct_seeds: "distinct (map tn_id (tg_nodes g)) \<Longrightarrow> distinct (seeds g)"
  by (auto simp: seeds_def Let_def distinct_map inj_on_def)

lemma query_ids_correct:
  assumes "distinct (map tn_id (tg_nodes g))"
  shows "distinct (query_ids now g q) \<and> length (query_ids now g q) \<le> max (tq_max_nodes q) 1 \<and>
    set (query_ids now g q) \<subseteq> near_ids now g q \<and> (card (near_ids now g q) < max (tq_max_nodes q) 1 \<longrightarrow> set (query_ids now g q) = near_ids now g q)"
proof -
  let ?S = "seeds g"
  have eq: "enqueue_new 0 ?S ([], []) = (rev ?S, map (\<lambda>n. (n, 0)) ?S)"
    using enqueue_new_distinct [OF distinct_seeds [OF assms(1)], of 0 "[]" "[]"] by simp
  have "bfs_inv (live_edges now q g) (set ?S) (max (tq_depth q) 1) [] (rev ?S) (map (\<lambda>n. (n, 0)) ?S) (\<lambda>_. 0)"
    using distinct_seeds [OF assms(1)]
    by (auto simp: bfs_inv_def o_def image_image map_replicate_const)
  from bfs_correct [OF this, of "max (tq_max_nodes q) 1"]
  have *: "distinct (query_ids now g q) \<and> length (query_ids now g q) \<le> max (tq_max_nodes q) 1 \<and>
    set (query_ids now g q) \<subseteq> near_ids now g q \<and>
    (length (query_ids now g q) < max (tq_max_nodes q) 1 \<longrightarrow> set (query_ids now g q) = near_ids now g q)"
    by (simp add: query_ids_def eq near_ids_def)
  moreover have "length (query_ids now g q) \<le> card (near_ids now g q)"
    using * distinct_card [of "query_ids now g q"] card_mono [of "near_ids now g q" "set (query_ids now g q)"]
      finite_within [of "set ?S"] by (simp add: near_ids_def)
  ultimately show ?thesis by auto
qed

section \<open>What the kept projection keeps\<close>

text \<open>A trace result none of whose names or lists is cut by the bounds of the projection.\<close>

definition short_field :: "json \<Rightarrow> string \<Rightarrow> bool" where
  "short_field trace f \<longleftrightarrow> (\<forall>j. json_get f trace = Some j \<longrightarrow> (\<exists>v. j = JStr v \<and> length v \<le> 64))"

definition fits_projection :: "json \<Rightarrow> bool" where
  "fits_projection out \<longleftrightarrow>
     length (json_array (json_get ''traces'' out)) \<le> 16 \<and> length (json_array (json_get ''batches'' out)) \<le> 16 \<and>
     (\<forall>t \<in> set (json_array (json_get ''traces'' out)).
        \<forall>f \<in> {''client'', ''rootServiceName'', ''server'', ''service''}. short_field t f) \<and>
     (\<forall>b \<in> set (json_array (json_get ''batches'' out)). \<forall>v. batch_service b = Some v \<longrightarrow> length v \<le> 64)"

lemma bounded_string_short: "length v \<le> 64 \<Longrightarrow> bounded_string v = v"
  by (simp add: bounded_string_def MAX_ARTIFACT_PROJECTION_STRING_BYTES_def min_def
      boundary_before.simps [of "length v"] is_char_boundary_def)

lemma short_field_get_str:
  "short_field trace f \<Longrightarrow> json_get f trace = map_option JStr (json_get_str f trace)"
  by (cases "json_get f trace") (auto simp: short_field_def json_get_str_def)

lemma bounded_field_short:
  "short_field trace f \<Longrightarrow> bounded_field f trace = (case json_get_str f trace of None \<Rightarrow> [] | Some v \<Rightarrow> [(f, JStr v)])"
  by (cases "json_get f trace")
     (auto simp: short_field_def bounded_field_def json_get_str_def bounded_string_short)

lemma map_filter_Cons': "List.map_filter f (x # xs) = (case f x of None \<Rightarrow> [] | Some y \<Rightarrow> [y]) @ List.map_filter f xs"
  by (simp add: List.map_filter_def split: option.split)

lemma project_trace_fields_same:
  assumes "\<forall>f \<in> {''client'', ''rootServiceName'', ''server'', ''service''}. short_field t f"
  shows "(case project_trace_fields t of None \<Rightarrow> g | Some t' \<Rightarrow> project_one_trace E minute w ev now t' g) =
    project_one_trace E minute w ev now t g"
proof -
  have fs: "short_field t ''client''" "short_field t ''rootServiceName''" "short_field t ''server''" "short_field t ''service''"
    using assms by auto
  show ?thesis
    by (cases "json_get_str ''client'' t"; cases "json_get_str ''rootServiceName'' t";
        cases "json_get_str ''server'' t"; cases "json_get_str ''service'' t")
       (simp_all add: project_trace_fields_def bounded_field_short [OF fs(1)] bounded_field_short [OF fs(2)]
          bounded_field_short [OF fs(3)] bounded_field_short [OF fs(4)] project_one_trace_def trace_service_def
          trace_call_def short_field_get_str [OF fs(2)] short_field_get_str [OF fs(4)] json_get_str_def [of _ "JObj _"] Let_def)
qed

lemma fold_project_trace_fields:
  assumes "\<forall>t \<in> set ts. \<forall>f \<in> {''client'', ''rootServiceName'', ''server'', ''service''}. short_field t f"
  shows "fold (project_one_trace E minute w ev now) (List.map_filter project_trace_fields ts) g =
    fold (project_one_trace E minute w ev now) ts g"
  using assms
proof (induction ts arbitrary: g)
  case (Cons t ts)
  have "fold (project_one_trace E minute w ev now)
      (case project_trace_fields t of None \<Rightarrow> [] | Some y \<Rightarrow> [y]) g = project_one_trace E minute w ev now t g"
    using project_trace_fields_same [of t g E minute w ev now] Cons.prems by (simp split: option.splits)
  with Cons show ?case by (cases "project_trace_fields t") (simp_all add: map_filter_Cons')
qed (simp add: List.map_filter_def)

lemma batch_services_same:
  assumes "\<forall>b \<in> set bs. \<forall>v. batch_service b = Some v \<longrightarrow> length v \<le> 64"
  shows "List.map_filter batch_service (List.map_filter project_batch_fields bs) = List.map_filter batch_service bs"
  using assms
proof (induction bs)
  case (Cons b bs)
  have "batch_service (JObj [(''resource'', JObj [(''service.name'', JStr v)])]) = Some v" for v
    by (simp add: batch_service_def)
  with Cons show ?case
    by (cases "batch_service b") (auto simp: map_filter_Cons' project_batch_fields_def bounded_string_short)
qed (simp add: List.map_filter_def)

lemma length_map_filter: "length (List.map_filter f xs) \<le> length xs"
  by (simp add: List.map_filter_def)

section \<open>Properties\<close>

text \<open>
  A result that was moved to the artifact store is projected from the bounded extract kept with its
  event. For trace results within the bounds of the extract (sixteen traces and batches, names of at
  most 64 bytes) the graph is the one the full result gives.
\<close>

theorem kept_projection_gives_same_graph:
  assumes "fits_projection out" and "trace_artifact_projection out = Some p"
  shows "project_trace E minute w ev p now g = project_trace E minute w ev out now g"
proof -
  let ?ts = "json_array (json_get ''traces'' out)" and ?bs = "json_array (json_get ''batches'' out)"
  have "length (List.map_filter project_trace_fields ?ts) \<le> 16" "length (List.map_filter project_batch_fields ?bs) \<le> 16"
    using assms(1) length_map_filter [of project_trace_fields ?ts] length_map_filter [of project_batch_fields ?bs]
    by (auto simp: fits_projection_def)
  with assms(2) have "json_array (json_get ''traces'' p) = List.map_filter project_trace_fields ?ts"
    "json_array (json_get ''batches'' p) = List.map_filter project_batch_fields ?bs"
    by (auto simp: trace_artifact_projection_def Let_def json_array_def MAX_ARTIFACT_PROJECTION_ITEMS_def split: if_splits)
  with assms(1) show ?thesis
    by (simp add: project_trace_def Let_def fits_projection_def fold_project_trace_fields batch_services_same)
qed

theorem kept_projection_gives_same_graph_witness:
  "let out = JObj [(''batches'', JArr []), (''size'', JNum 9), (''traces'', JArr [JObj [(''client'', JStr ''a''), (''server'', JStr ''b''), (''spans'', JArr [])]])]
   in \<exists>p. trace_artifact_projection out = Some p \<and>
     project_trace demo_ext 1 ''w'' (new_evidence 0 ''trace'') p 0 empty_graph =
     project_trace demo_ext 1 ''w'' (new_evidence 0 ''trace'') out 0 empty_graph"
proof -
  let ?out = "JObj [(''batches'', JArr []), (''size'', JNum 9), (''traces'', JArr [JObj [(''client'', JStr ''a''), (''server'', JStr ''b''), (''spans'', JArr [])]])]"
  have fits: "fits_projection ?out"
    by (simp add: fits_projection_def json_array_def short_field_def)
  obtain p where p: "trace_artifact_projection ?out = Some p"
    by (simp add: trace_artifact_projection_def json_array_def Let_def List.map_filter_def
        project_trace_fields_def bounded_field_def json_get_str_def MAX_ARTIFACT_PROJECTION_ITEMS_def)
  from kept_projection_gives_same_graph [OF fits p] p show ?thesis by (auto simp: Let_def)
qed


definition sample_graph :: TopologyGraph where
  "sample_graph = \<lparr>tg_nodes =
      [\<lparr>tn_id = ''service:a'', tn_kind = ''service'', tn_workspace_id = ''w'', tn_evidence_ids = [''1''], tn_observed_at = 0\<rparr>,
       \<lparr>tn_id = ''service:b'', tn_kind = ''service'', tn_workspace_id = ''w'', tn_evidence_ids = [], tn_observed_at = 0\<rparr>],
     tg_edges = [\<lparr>te_from = ''service:b'', te_to = ''service:a'', te_relation = ''calls'', te_confidence = ''high'',
       te_source = ''trace'', te_evidence_ids = [], te_observed_at = 0, te_expires_at = 9, te_stale = False\<rparr>]\<rparr>"


text \<open>
  The projection of any log is well formed: every node is of the workspace and has its own id, every
  edge is listed once per source and relation and joins two nodes of the graph.
\<close>

theorem projection_is_well_formed:
  "graph_ok w (project_topology E minute w now events)"
  by (rule projected_graph_ok)

end
