(* ===== verification/Agent.thy ===== *)
theory Agent
  imports RemediationSafety Skill Topology
begin

text \<open>
  The agent runtime (\<open>src/runtime/agent.rs\<close>): starting and resuming a turn, the loop of model and tool
  calls, authorising and executing one tool, finalising its result, checkpoints, compaction, approvals
  and the recovery at start-up; and the counters of \<open>src/telemetry.rs\<close>.

  The runtime waits at four places: for a turn slot, for the model, for an approval and for a tool. What
  happens there is a parameter: it says how the wait ends and may change the whole state, as the tasks
  that run meanwhile do. Between two waits a turn is taken to run without interference. The model and
  the tools are reached through their traits, so they are such parameters too.
\<close>

section \<open>Configuration and state\<close>

definition MAX_TURN_INPUT_BYTES :: nat where "MAX_TURN_INPUT_BYTES = 32 * 1024"
definition INLINE_ARTIFACT_BYTES :: nat where "INLINE_ARTIFACT_BYTES = 8 * 1024"

record RuntimeConfig =
  rc_max_steps :: nat
  rc_max_concurrent_turns :: nat
  rc_model_timeout :: time
  rc_tool_timeout :: time
  rc_context_items :: nat
  rc_context :: ContextBudget
  rc_inline_artifact_bytes :: nat
  rc_approval_ttl :: time
  rc_lease_ttl :: time

definition default_runtime_config :: "time \<Rightarrow> RuntimeConfig" where
  "default_runtime_config second =
     \<lparr>rc_max_steps = 12, rc_max_concurrent_turns = 4, rc_model_timeout = 120 * second,
      rc_tool_timeout = 30 * second, rc_context_items = 100, rc_context = default_budget,
      rc_inline_artifact_bytes = INLINE_ARTIFACT_BYTES, rc_approval_ttl = 3600 * second,
      rc_lease_ttl = 30 * second\<rparr>"

definition with_store_timeouts :: "time \<Rightarrow> time \<Rightarrow> RuntimeConfig \<Rightarrow> RuntimeConfig" where
  "with_store_timeouts approval_ttl lease_ttl c = c\<lparr>rc_approval_ttl := approval_ttl, rc_lease_ttl := lease_ttl\<rparr>"

text \<open>The counters a turn changes; the sums of latencies are left out.\<close>

record RuntimeMetrics =
  m_turns_started :: nat
  m_turns_completed :: nat
  m_turns_failed :: nat
  m_turns_cancelled :: nat
  m_model_calls :: nat
  m_model_errors :: nat
  m_tool_calls :: nat
  m_tool_errors :: nat
  m_store_appends :: nat
  m_store_errors :: nat

definition new_metrics :: RuntimeMetrics where
  "new_metrics = \<lparr>m_turns_started = 0, m_turns_completed = 0, m_turns_failed = 0, m_turns_cancelled = 0,
     m_model_calls = 0, m_model_errors = 0, m_tool_calls = 0, m_tool_errors = 0, m_store_appends = 0,
     m_store_errors = 0\<rparr>"

text \<open>An atomic counter wraps.\<close>

definition inc :: "nat \<Rightarrow> nat" where
  "inc n = (n + 1) mod 2 ^ 64"

text \<open>
  The state: what the remediation handlers share with the turns, the approval broker, the artifact
  store, the threads with an active turn, the free turn slots, the counters, and the envelopes sent to
  the subscribers.
\<close>

record 'w agent =
  ag_sys :: "'w sys"
  ag_broker :: ApprovalBroker
  ag_artifacts :: "'w ArtifactStore"
  ag_active :: "uuid set"
  ag_slots :: nat
  ag_metrics :: RuntimeMetrics
  ag_bus :: "EventEnvelope list"

datatype stop = Returned OpsCodexError | Panicked

type_synonym ('w, 'a) aop = "(stop, 'w agent, 'a) sm"

section \<open>Model, tools and waits\<close>

record TurnInput =
  ti_content :: string
  ti_incident_context :: "IncidentContext option"

datatype TurnStart = Fresh TurnInput | Resume RecoveryReport

record ToolSchema =
  ts_name :: string
  ts_description :: string
  ts_parameters :: json

record ModelRequest =
  mq_instructions :: string
  mq_input :: "ModelItem list"
  mq_tools :: "ToolSchema list"

datatype ModelOutput = Message string | Call string string json

record ModelResponse =
  mr_outputs :: "ModelOutput list"
  mr_response_id :: "string option"
  mr_usage :: "nat \<times> nat \<times> nat"

datatype ModelEnd = ModelCancelled | ModelTimedOut | ModelDone "ModelResponse result"

datatype WaitEnd = WaitCancelled | WaitElapsed | WaitReady

record ToolOutput =
  to_content :: json
  to_evidence :: EvidenceMeta

datatype ToolEnd = ToolCancelled | ToolTimedOut | ToolReturned nat "ToolOutput result"

record ToolLaunch =
  tl_name :: string
  tl_arguments :: json
  tl_workspace :: workspace_id
  tl_thread :: uuid
  tl_turn :: uuid
  tl_call_id :: string

record TurnEventContext =
  tc_thread :: uuid
  tc_turn :: uuid
  tc_workspace :: workspace_id
  tc_tools :: ToolRegistry
  tc_causation :: "uuid option"
  tc_lease :: Lease
  tc_step :: nat

text \<open>
  Everything a runtime is built from: the libraries, the configuration, the registries and skills by
  workspace, its owner id, and the four waits. The model is asked with a request and gives the text
  deltas that arrived and how the call ended. A tool is identified by its launch; the turn and call id
  in it are for naming the launch only.
\<close>

record 'w runtime =
  ro_ext :: ext
  ro_io :: "'w io"
  ro_codec :: codec
  ro_fs :: "'w fs"
  ro_decode_diagnosis :: "string \<Rightarrow> LooseDiagnosis option"
  ro_report_text :: "RecoveryReport \<Rightarrow> string"
  ro_report_parse :: "string \<Rightarrow> string + RecoveryReport"
  ro_config :: RuntimeConfig
  ro_system_instructions :: string
  ro_tools :: ToolRegistry
  ro_workspace_tools :: "(string \<times> ToolRegistry) list"
  ro_workspace_skills :: "(string \<times> SkillCatalog) list"
  ro_skill_budget_bytes :: nat
  ro_owner_id :: string
  ro_wait_slot :: "'w agent \<Rightarrow> WaitEnd \<times> 'w agent"
  ro_model :: "ModelRequest \<Rightarrow> 'w agent \<Rightarrow> (string list \<times> ModelEnd) \<times> 'w agent"
  ro_wait_approval :: "nat \<Rightarrow> 'w agent \<Rightarrow> WaitEnd \<times> 'w agent"
  ro_execute :: "ToolLaunch \<Rightarrow> 'w agent \<Rightarrow> ToolEnd \<times> 'w agent"

text \<open>
  \<open>schemas\<close>, sorted by name: every tool reports the name, description and schema of its descriptor.
\<close>

definition registry_schemas :: "ToolRegistry \<Rightarrow> ToolSchema list" where
  "registry_schemas r = map (\<lambda>name. case reg_tools r name of
       Some t \<Rightarrow> \<lparr>ts_name = rt_name t, ts_description = cd_description (rt_descriptor t),
                  ts_parameters = cd_input_schema (rt_descriptor t)\<rparr>
     | None \<Rightarrow> \<lparr>ts_name = name, ts_description = [], ts_parameters = JNull\<rparr>)
     (sorted_list_of_set (dom (reg_tools r)))"

section \<open>Lifting the operations of the parts\<close>

definition on_sys :: "('w sys, 'a) op \<Rightarrow> ('w, 'a) aop" where
  "on_sys m s = (case m (ag_sys s) of (r, t) \<Rightarrow> (map_sum Returned id r, s\<lparr>ag_sys := t\<rparr>))"

definition on_store :: "(db, 'a) op \<Rightarrow> ('w, 'a) aop" where
  "on_store m = on_sys (on_db m)"

definition on_broker :: "(ApprovalBroker \<Rightarrow> 'a \<times> ApprovalBroker) \<Rightarrow> ('w, 'a) aop" where
  "on_broker f s = (case f (ag_broker s) of (x, b) \<Rightarrow> (Inr x, s\<lparr>ag_broker := b\<rparr>))"

definition on_artifacts :: "('w ArtifactStore, 'a) op \<Rightarrow> ('w, 'a) aop" where
  "on_artifacts m s = (case m (ag_artifacts s) of (r, a) \<Rightarrow> (map_sum Returned id r, s\<lparr>ag_artifacts := a\<rparr>))"

definition arefuse :: "OpsCodexError \<Rightarrow> ('w, 'a) aop" where
  "arefuse err = sfail (Returned err)"

definition alift :: "'a result \<Rightarrow> ('w, 'a) aop" where
  "alift r = slift (map_sum Returned id r)"

definition unless_panic :: "'a option \<Rightarrow> ('w, 'a) aop" where
  "unless_panic x = slift (ok_or Panicked x)"

definition reads :: "(db \<Rightarrow> 'a) \<Rightarrow> ('w, 'a) aop" where
  "reads f = sgets (\<lambda>s. Inr (f (sys_db (ag_sys s))))"

definition reads_result :: "(db \<Rightarrow> 'a result) \<Rightarrow> ('w, 'a) aop" where
  "reads_result f = sbind (reads f) alift"

definition now_of :: "'w runtime \<Rightarrow> ('w, time) aop" where
  "now_of R = on_sys (utc_now (ro_io R))"

definition new_id :: "'w runtime \<Rightarrow> ('w, uuid) aop" where
  "new_id R = on_sys (fresh_uuid (ro_io R))"

definition count :: "(RuntimeMetrics \<Rightarrow> RuntimeMetrics) \<Rightarrow> ('w, unit) aop" where
  "count f = supd (\<lambda>s. s\<lparr>ag_metrics := f (ag_metrics s)\<rparr>)"

definition or_else :: "'a \<Rightarrow> 'a result \<Rightarrow> 'a" where
  "or_else d r = (case r of Inl _ \<Rightarrow> d | Inr x \<Rightarrow> x)"

section \<open>Events and checkpoints\<close>

definition emit ::
    "'w runtime \<Rightarrow> uuid \<Rightarrow> uuid option \<Rightarrow> uuid option \<Rightarrow> RuntimeEvent \<Rightarrow> ('w, EventEnvelope) aop" where
  "emit R thread_id turn_id causation_id event s =
     (case sbind (new_id R) (\<lambda>i. sbind (now_of R) (\<lambda>now.
         on_store (append_event (ro_ext R) i now \<lparr>ap_thread_id = thread_id, ap_turn_id = turn_id,
           ap_item_id = None, ap_causation_id = causation_id, ap_stream_kind = None, ap_event = event\<rparr>))) s of
        (Inr envelope, s') \<Rightarrow>
          (Inr envelope, s'\<lparr>ag_metrics := (ag_metrics s')\<lparr>m_store_appends := inc (m_store_appends (ag_metrics s'))\<rparr>,
             ag_bus := ag_bus s' @ [envelope]\<rparr>)
      | (Inl err, s') \<Rightarrow>
          (Inl err, s'\<lparr>ag_metrics := (ag_metrics s')\<lparr>m_store_errors := inc (m_store_errors (ag_metrics s'))\<rparr>\<rparr>))"

definition emit_id ::
    "'w runtime \<Rightarrow> TurnEventContext \<Rightarrow> uuid option \<Rightarrow> RuntimeEvent \<Rightarrow> ('w, uuid option) aop" where
  "emit_id R ctx causation event =
     sbind (emit R (tc_thread ctx) (Some (tc_turn ctx)) causation event) (\<lambda>env. sret (Some (env_event_id env)))"

definition write_checkpoint ::
    "'w runtime \<Rightarrow> uuid \<Rightarrow> uuid \<Rightarrow> nat \<Rightarrow> CheckpointPhase \<Rightarrow> ResumePolicy \<Rightarrow> PendingOperation option \<Rightarrow> Lease \<Rightarrow>
     ('w, unit) aop" where
  "write_checkpoint R thread_id turn_id step phase resume_policy pending lease =
     sbind (now_of R) (\<lambda>t.
     sbind (on_store (refresh_lease t (ls_lease_id lease) (ls_fencing_token lease) (rc_lease_ttl (ro_config R)))) (\<lambda>_.
     sbind (reads (\<lambda>d. or_else [] (model_context (ro_ext R) thread_id (rc_context (ro_config R)) d))) (\<lambda>items.
     sbind (new_id R) (\<lambda>i.
     sbind (reads (\<lambda>d. or_else 0 (last_seq (ro_ext R) thread_id d))) (\<lambda>seq.
     sbind (now_of R) (\<lambda>now.
       on_store (put_checkpoint \<lparr>cp_checkpoint_id = uuid_string (ro_ext R) i, cp_turn_id = turn_id,
         cp_thread_id = thread_id, cp_step = step, cp_phase = phase,
         cp_context_input_hash = Some (context_input_hash (ro_ext R) items),
         cp_pending_operation = pending, cp_last_committed_seq = seq, cp_resume_policy = resume_policy,
         cp_created_at = now\<rparr>)))))))"

definition checkpoint_of ::
    "'w runtime \<Rightarrow> TurnEventContext \<Rightarrow> CheckpointPhase \<Rightarrow> ResumePolicy \<Rightarrow> PendingOperation option \<Rightarrow> ('w, unit) aop" where
  "checkpoint_of R ctx phase policy pending =
     write_checkpoint R (tc_thread ctx) (tc_turn ctx) (tc_step ctx) phase policy pending (tc_lease ctx)"

section \<open>Tool results\<close>

definition json_set :: "string \<Rightarrow> json \<Rightarrow> json \<Rightarrow> json" where
  "json_set k v j = (case j of JObj kvs \<Rightarrow> JObj (obj_insert k v kvs) | _ \<Rightarrow> j)"

text \<open>What a successful result becomes: stored content, evidence record and the view of the model.\<close>

definition success_result ::
    "'w runtime \<Rightarrow> TurnEventContext \<Rightarrow> string \<Rightarrow> json \<Rightarrow> EvidenceMeta \<Rightarrow> ('w, json \<times> EvidenceMeta) aop" where
  "success_result R ctx name content meta =
     (let bs = json_bytes (ro_ext R) content
      in sbind (if rc_inline_artifact_bytes (ro_config R) < length bs
                then sbind (on_artifacts (put_in (ro_ext R) (ro_fs R) (tc_workspace ctx) bs)) (\<lambda>d. sret (Some d))
                else sret None) (\<lambda>artifact_ref.
         sbind (new_id R) (\<lambda>i.
         sbind (unless_panic (finalize_evidence (ro_ext R) i meta content artifact_ref)) (\<lambda>evidence.
           let shown = model_tool_output (ro_ext R) True evidence content
           in sret (case (evm_artifact_ref evidence, artifact_topology_projection (ro_ext R) name content) of
                      (Some _, Some p) \<Rightarrow> json_set ''topology_projection'' p shown
                    | _ \<Rightarrow> shown, evidence)))))"

definition emit_tool_result ::
    "'w runtime \<Rightarrow> TurnEventContext \<Rightarrow> uuid option \<Rightarrow> string \<Rightarrow> string \<Rightarrow> ToolOutput \<Rightarrow> bool \<Rightarrow> ('w, uuid option) aop" where
  "emit_tool_result R ctx causation call_id name result success =
     sbind (unless_panic (redact_json (to_content result))) (\<lambda>(content, _).
     sbind (if success then success_result R ctx name content (to_evidence result)
            else sret (content, to_evidence result)) (\<lambda>(shown, evidence).
     sbind (emit_id R ctx causation (RuntimeEvent.ToolCompleted call_id name shown evidence success)) (\<lambda>event_id.
     sbind (checkpoint_of R ctx CheckpointPhase.ToolCompleted SkipCompletedTool None) (\<lambda>_.
       sret event_id))))"

definition error_content :: "OpsCodexError \<Rightarrow> json" where
  "error_content err = JObj [(''class'', JStr (class_as_str (connector_class err))),
     (''error'', JStr (error_to_string err)), (''retryable'', JBool (class_retryable (connector_class err)))]"

definition emit_tool_error ::
    "'w runtime \<Rightarrow> TurnEventContext \<Rightarrow> uuid option \<Rightarrow> string \<Rightarrow> string \<Rightarrow> json \<Rightarrow> OpsCodexError \<Rightarrow> ('w, uuid option) aop" where
  "emit_tool_error R ctx causation call_id name arguments err =
     sbind (now_of R) (\<lambda>now.
       emit_tool_result R ctx causation call_id name
         \<lparr>to_content = error_content err,
          to_evidence = with_query (json_bytes (ro_ext R) arguments) (new_evidence now name)\<rparr> False)"

section \<open>Authorising a tool\<close>

fun recovery_as_str :: "RecoveryMode \<Rightarrow> string" where
  "recovery_as_str RecoveryMode.NoneNeeded = ''none_needed''"
| "recovery_as_str RecoveryMode.Idempotent = ''idempotent''"
| "recovery_as_str RecoveryMode.NeedsReconciliation = ''needs_reconciliation''"

definition pending_operation_for ::
    "'w runtime \<Rightarrow> TurnEventContext \<Rightarrow> string \<Rightarrow> string \<Rightarrow> json \<Rightarrow> CapabilityDescriptor \<Rightarrow> PendingOperation" where
  "pending_operation_for R ctx call_id name arguments d =
     \<lparr>op_operation_id = pending_operation_id (ro_ext R) (tc_turn ctx) call_id, op_call_id = call_id,
      op_tool = name, op_arguments = arguments, op_effect = effect_as_str (cd_effect d),
      op_recovery = map_option recovery_as_str (cd_recovery d)\<rparr>"

text \<open>
  The answer of an approval: the wait ends by cancellation, by the time to live or because the channel
  has something. A wait that ends otherwise than by an answer drops its receiver.
\<close>

definition drop_wait :: "nat \<Rightarrow> ('w, unit) aop" where
  "drop_wait ch = supd (\<lambda>s. s\<lparr>ag_broker := (ag_broker s)\<lparr>br_channels := drop_receiver ch (br_channels (ag_broker s))\<rparr>\<rparr>)"

definition channel_of :: "nat \<Rightarrow> ('w, Channel) aop" where
  "channel_of ch = sgets (\<lambda>s. Inr (br_channels (ag_broker s) ! ch))"

definition wait_approval :: "'w runtime \<Rightarrow> nat \<Rightarrow> ('w, WaitEnd) aop" where
  "wait_approval R ch = sask (ro_wait_approval R ch)"

definition durable_request ::
    "'w runtime \<Rightarrow> TurnEventContext \<Rightarrow> uuid \<Rightarrow> string \<Rightarrow> json \<Rightarrow> string \<Rightarrow> time \<Rightarrow> DurableApproval" where
  "durable_request R ctx approval_id name arguments schema_hash expires_at =
     \<lparr>da_approval_id = approval_id, da_thread_id = Some (tc_thread ctx), da_turn_id = Some (tc_turn ctx),
      da_tool = name, da_arguments = arguments,
      da_request_hash = approval_request_hash (ro_ext R) name arguments (Some schema_hash),
      da_schema_hash = Some schema_hash, da_status = ApprovalStatus.Pending, da_expires_at = Some expires_at\<rparr>"

text \<open>
  The durable request, its checkpoint and its event. The receiver is dropped when one of them fails.
\<close>

definition holding :: "nat \<Rightarrow> ('w, 'a) aop \<Rightarrow> ('w, 'a) aop" where
  "holding ch m s = (case m s of (Inl stop, s') \<Rightarrow> (Inl stop, snd (drop_wait ch s')) | (Inr x, s') \<Rightarrow> (Inr x, s'))"

definition announce_approval ::
    "'w runtime \<Rightarrow> TurnEventContext \<Rightarrow> uuid option \<Rightarrow> string \<Rightarrow> uuid \<Rightarrow> string \<Rightarrow> json \<Rightarrow> CapabilityDescriptor \<Rightarrow>
     ('w, DurableApproval \<times> uuid option) aop" where
  "announce_approval R ctx causation call_id approval_id name arguments d =
     sbind (now_of R) (\<lambda>now.
     let request = durable_request R ctx approval_id name arguments (pv_schema_hash (cd_provenance d))
           (now + rc_approval_ttl (ro_config R)) in
     sbind (on_store (put_approval request)) (\<lambda>_.
     sbind (checkpoint_of R ctx CheckpointPhase.WaitingApproval WaitApproval
         (Some (pending_operation_for R ctx call_id name arguments d))) (\<lambda>_.
     sbind (emit_id R ctx causation (RuntimeEvent.ApprovalRequired approval_id name arguments)) (\<lambda>i.
       sret (request, i)))))"

definition approval_answer ::
    "'w runtime \<Rightarrow> TurnEventContext \<Rightarrow> uuid \<Rightarrow> nat \<Rightarrow> DurableApproval \<Rightarrow> ('w, bool) aop" where
  "approval_answer R ctx approval_id ch request =
     sbind (wait_approval R ch) (\<lambda>ended.
       case ended of
         WaitCancelled \<Rightarrow> sbind (drop_wait ch) (\<lambda>_. arefuse OpsCodexError.Cancelled)
       | WaitElapsed \<Rightarrow>
           sbind (drop_wait ch) (\<lambda>_.
           sbind (reads (get_approval approval_id)) (\<lambda>found.
             let expired = (case found of Some a \<Rightarrow> a | None \<Rightarrow> request\<lparr>da_request_hash := []\<rparr>)
             in sbind (signore (on_store (put_approval (expired\<lparr>da_status := ApprovalStatus.Expired\<rparr>)))) (\<lambda>_.
                sret False)))
       | WaitReady \<Rightarrow>
           sbind (channel_of ch) (\<lambda>c.
             case c of
               Delivered v \<Rightarrow> sret v
             | _ \<Rightarrow> arefuse (OpsCodexError.Policy ''approval channel closed'')))"

definition record_answer :: "uuid \<Rightarrow> bool \<Rightarrow> ('w, unit) aop" where
  "record_answer approval_id approved =
     sbind (reads (get_approval approval_id)) (\<lambda>found.
       case found of
         None \<Rightarrow> sret ()
       | Some durable \<Rightarrow>
           signore (on_store (put_approval (durable\<lparr>da_status :=
             (if approved then ApprovalStatus.Approved
              else if da_status durable = ApprovalStatus.Expired then ApprovalStatus.Expired
              else ApprovalStatus.Rejected)\<rparr>))))"

text \<open>What authorising ends with: go on with this causation, or the turn has the event of an error.\<close>

datatype Gate = Proceed "uuid option" | Finished "uuid option"

definition refuse_tool ::
    "'w runtime \<Rightarrow> TurnEventContext \<Rightarrow> uuid option \<Rightarrow> string \<Rightarrow> string \<Rightarrow> json \<Rightarrow> OpsCodexError \<Rightarrow> ('w, Gate) aop" where
  "refuse_tool R ctx causation call_id name arguments err =
     sbind (emit_tool_error R ctx causation call_id name arguments err) (\<lambda>i. sret (Finished i))"

definition ask_approval ::
    "'w runtime \<Rightarrow> TurnEventContext \<Rightarrow> uuid option \<Rightarrow> string \<Rightarrow> string \<Rightarrow> json \<Rightarrow> CapabilityDescriptor \<Rightarrow>
     ('w, Gate) aop" where
  "ask_approval R ctx causation call_id name arguments d =
     (let schema_hash = pv_schema_hash (cd_provenance d)
      in sbind (new_id R) (\<lambda>i.
         sbind (on_broker (broker_request_with_hash i name arguments schema_hash)) (\<lambda>(approval_id, ch).
         sbind (holding ch (announce_approval R ctx causation call_id approval_id name arguments d)) (\<lambda>(request, causation).
         sbind (approval_answer R ctx approval_id ch request) (\<lambda>approved.
         sbind (record_answer approval_id approved) (\<lambda>_.
         sbind (emit_id R ctx causation (RuntimeEvent.ApprovalResolved approval_id approved)) (\<lambda>causation.
         sbind (emit_id R ctx causation (RuntimeEvent.ToolAuthorized call_id name
             (if approved then ''allow'' else ''deny''))) (\<lambda>causation.
           if \<not> approved
           then refuse_tool R ctx causation call_id name arguments (OpsCodexError.Policy ''approval rejected'')
           else
             case registry_descriptor (tc_tools ctx) name of
               Inl err \<Rightarrow> refuse_tool R ctx causation call_id name arguments err
             | Inr current \<Rightarrow>
                 if pv_schema_hash (cd_provenance current) \<noteq> schema_hash
                 then refuse_tool R ctx causation call_id name arguments
                        (OpsCodexError.Policy ''capability schema changed; approval invalidated'')
                 else sret (Proceed causation)))))))))"

definition authorize_tool ::
    "'w runtime \<Rightarrow> TurnEventContext \<Rightarrow> uuid option \<Rightarrow> string \<Rightarrow> string \<Rightarrow> json \<Rightarrow> CapabilityDescriptor \<Rightarrow>
     ('w, Gate) aop" where
  "authorize_tool R ctx causation call_id name arguments d =
     (case evaluate_capability d of
        PolicyDecision.Deny \<Rightarrow>
          sbind (emit_id R ctx causation (RuntimeEvent.ToolAuthorized call_id name ''deny'')) (\<lambda>causation.
            refuse_tool R ctx causation call_id name arguments (OpsCodexError.Policy ''tool is forbidden''))
      | PolicyDecision.Ask \<Rightarrow> ask_approval R ctx causation call_id name arguments d
      | PolicyDecision.Allow \<Rightarrow>
          sbind (emit_id R ctx causation (RuntimeEvent.ToolAuthorized call_id name ''allow'')) (\<lambda>causation.
            sret (Proceed causation)))"

section \<open>Executing a tool\<close>

definition launch_of :: "TurnEventContext \<Rightarrow> string \<Rightarrow> string \<Rightarrow> json \<Rightarrow> ToolLaunch" where
  "launch_of ctx call_id name arguments =
     \<lparr>tl_name = name, tl_arguments = arguments, tl_workspace = tc_workspace ctx, tl_thread = tc_thread ctx,
      tl_turn = tc_turn ctx, tl_call_id = call_id\<rparr>"

definition finish_tool ::
    "'w runtime \<Rightarrow> TurnEventContext \<Rightarrow> uuid option \<Rightarrow> string \<Rightarrow> string \<Rightarrow> json \<Rightarrow> ToolEnd \<Rightarrow> ('w, uuid option) aop" where
  "finish_tool R ctx causation call_id name arguments ended =
     (let failed = (\<lambda>err. sbind (count (\<lambda>m. m\<lparr>m_tool_errors := inc (m_tool_errors m)\<rparr>)) (\<lambda>_.
            emit_tool_error R ctx causation call_id name arguments err))
      in case ended of
           ToolCancelled \<Rightarrow> arefuse OpsCodexError.Cancelled
         | ToolTimedOut \<Rightarrow> failed (OpsCodexError.Timeout (''tool '' @ name))
         | ToolReturned ms (Inl err) \<Rightarrow> failed err
         | ToolReturned ms (Inr out) \<Rightarrow>
             sbind (count (\<lambda>m. m\<lparr>m_tool_calls := inc (m_tool_calls m)\<rparr>)) (\<lambda>_.
               emit_tool_result R ctx causation call_id name
                 (out\<lparr>to_evidence := (to_evidence out)\<lparr>evm_duration_ms := ms\<rparr>\<rparr>) True))"

definition run_tool ::
    "'w runtime \<Rightarrow> TurnEventContext \<Rightarrow> uuid option \<Rightarrow> string \<Rightarrow> string \<Rightarrow> json \<Rightarrow> CapabilityDescriptor \<Rightarrow>
     ('w, uuid option) aop" where
  "run_tool R ctx causation call_id name arguments d =
     (let resume_policy = (if tool_is_retryable (cd_effect d) (cd_recovery d) then RetryObserve else Reconcile)
      in sbind (checkpoint_of R ctx CheckpointPhase.ToolRunning resume_policy
                  (Some (pending_operation_for R ctx call_id name arguments d))) (\<lambda>_.
         sbind (emit_id R ctx causation (RuntimeEvent.ToolExecutionStarted call_id name)) (\<lambda>causation.
         sbind (sask (ro_execute R (launch_of ctx call_id name arguments))) (\<lambda>ended.
           finish_tool R ctx causation call_id name arguments ended))))"

definition execute_tool ::
    "'w runtime \<Rightarrow> TurnEventContext \<Rightarrow> string \<Rightarrow> string \<Rightarrow> json \<Rightarrow> bool \<Rightarrow> ('w, uuid option) aop" where
  "execute_tool R ctx call_id name arguments already_authorized =
     sbind (if already_authorized then sret (tc_causation ctx)
            else emit_id R ctx (tc_causation ctx) (RuntimeEvent.ToolProposed call_id name arguments)) (\<lambda>causation.
       case registry_descriptor (tc_tools ctx) name of
         Inl err \<Rightarrow> emit_tool_error R ctx causation call_id name arguments err
       | Inr d \<Rightarrow>
           sbind (if already_authorized then sret (Proceed causation)
                  else authorize_tool R ctx causation call_id name arguments d) (\<lambda>gate.
             case gate of
               Finished i \<Rightarrow> sret i
             | Proceed causation \<Rightarrow> run_tool R ctx causation call_id name arguments d))"

section \<open>Resuming a tool\<close>

definition expires_now :: "'w runtime \<Rightarrow> DurableApproval \<Rightarrow> ('w, bool) aop" where
  "expires_now R a =
     (case da_expires_at a of
        None \<Rightarrow> sret False
      | Some expires \<Rightarrow> sbind (now_of R) (\<lambda>now. sret (expires \<le> now)))"

definition restored_answer :: "'w runtime \<Rightarrow> nat \<Rightarrow> ('w, bool) aop" where
  "restored_answer R ch =
     sbind (wait_approval R ch) (\<lambda>ended.
       case ended of
         WaitCancelled \<Rightarrow> sbind (drop_wait ch) (\<lambda>_. arefuse OpsCodexError.Cancelled)
       | _ \<Rightarrow> sbind (channel_of ch) (\<lambda>c. sret (case c of Delivered v \<Rightarrow> v | _ \<Rightarrow> False)))"

text \<open>
  The approval of an interrupted turn, looked at again: \<open>Proceed\<close> when the turn may go on with the tool,
  \<open>Finished\<close> when its rejection was recorded.
\<close>

definition resume_approval ::
    "'w runtime \<Rightarrow> TurnEventContext \<Rightarrow> PendingOperation \<Rightarrow> DurableApproval \<Rightarrow> ('w, Gate) aop" where
  "resume_approval R ctx operation pending =
     (let rejected = refuse_tool R ctx None (op_call_id operation) (op_tool operation) (op_arguments operation)
            (OpsCodexError.Policy ''approval rejected'')
      in case da_status pending of
           ApprovalStatus.Approved \<Rightarrow> sret (Proceed None)
         | ApprovalStatus.Rejected \<Rightarrow> rejected
         | ApprovalStatus.Expired \<Rightarrow> rejected
         | ApprovalStatus.Pending \<Rightarrow>
             sbind (on_broker (broker_restore \<lparr>pa_id = da_approval_id pending, pa_tool = da_tool pending,
                 pa_arguments = da_arguments pending, pa_schema_hash = da_schema_hash pending\<rparr>)) (\<lambda>ch.
             sbind (restored_answer R ch) (\<lambda>approved.
             sbind (on_store (put_approval (pending\<lparr>da_status :=
                 (if approved then ApprovalStatus.Approved else ApprovalStatus.Rejected)\<rparr>))) (\<lambda>_.
             sbind (signore (emit R (tc_thread ctx) (Some (tc_turn ctx)) None
                 (RuntimeEvent.ApprovalResolved (da_approval_id pending) approved))) (\<lambda>_.
               if \<not> approved then rejected else sret (Proceed None))))))"

definition resume_pending_tool ::
    "'w runtime \<Rightarrow> TurnEventContext \<Rightarrow> PendingOperation \<Rightarrow> ResumePolicy \<Rightarrow> ('w, uuid option) aop" where
  "resume_pending_tool R ctx operation policy =
     (let run = execute_tool R ctx (op_call_id operation) (op_tool operation) (op_arguments operation) True
      in if policy \<noteq> WaitApproval then run
         else
           sbind (reads (approval_for_turn (tc_turn ctx))) (\<lambda>found.
             case found of
               None \<Rightarrow> arefuse (OpsCodexError.Policy ''resume found no durable approval for this turn'')
             | Some durable \<Rightarrow>
                 sbind (expires_now R durable) (\<lambda>late.
                 sbind (if late \<and> da_status durable = ApprovalStatus.Pending
                        then sbind (on_store (put_approval (durable\<lparr>da_status := ApprovalStatus.Expired\<rparr>)))
                               (\<lambda>_. sret (durable\<lparr>da_status := ApprovalStatus.Expired\<rparr>))
                        else sret durable) (\<lambda>pending.
                 sbind (resume_approval R ctx operation pending) (\<lambda>gate.
                   case gate of
                     Finished i \<Rightarrow> sret i
                   | Proceed _ \<Rightarrow>
                       sbind (alift (registry_descriptor (tc_tools ctx) (op_tool operation))) (\<lambda>d.
                         if da_schema_hash pending \<noteq> None \<and> da_schema_hash pending \<noteq> Some (pv_schema_hash (cd_provenance d))
                         then arefuse (OpsCodexError.Policy ''capability schema changed; approval invalidated'')
                         else if approval_request_hash (ro_ext R) (op_tool operation) (op_arguments operation)
                                (da_schema_hash pending) \<noteq> da_request_hash pending
                         then arefuse (OpsCodexError.Policy ''approval request hash mismatch; refusing to execute'')
                         else run))))))"

section \<open>Compaction\<close>

fun contributes :: "RuntimeEvent \<Rightarrow> bool" where
  "contributes (UserMessage _ _) = True"
| "contributes (AssistantCompleted _ _) = True"
| "contributes (ToolStarted _ _ _) = True"
| "contributes (ToolProposed _ _ _) = True"
| "contributes (RuntimeEvent.ToolCompleted _ _ _ _ _) = True"
| "contributes _ = False"

definition evidence_ids_of :: "ext \<Rightarrow> EventEnvelope list \<Rightarrow> string list" where
  "evidence_ids_of E envs = List.map_filter (\<lambda>e. case env_event e of
       RuntimeEvent.ToolCompleted _ _ _ evidence _ \<Rightarrow> map_option (uuid_string E) (evm_evidence_id evidence)
     | _ \<Rightarrow> None) envs"

text \<open>The events a compaction would cover: the first \<open>drop_count\<close> that contribute a model item.\<close>

definition compaction_cover :: "EventEnvelope list \<Rightarrow> nat \<Rightarrow> EventEnvelope list" where
  "compaction_cover history drop_count = take drop_count (filter (\<lambda>e. contributes (env_event e)) history)"

definition already_covered :: "EventEnvelope list \<Rightarrow> nat \<Rightarrow> nat \<Rightarrow> bool" where
  "already_covered history a b =
     list_ex (\<lambda>(x, y). x \<le> a \<and> b \<le> y) (compacted_ranges history)"

definition compaction_event ::
    "ext \<Rightarrow> ContextBudget \<Rightarrow> EventEnvelope list \<Rightarrow> string \<Rightarrow> RuntimeEvent option" where
  "compaction_event E budget history summary_id =
     (let full = model_items_from_events E history;
          bounded = build_model_context E full budget;
          covered = compaction_cover history (length full - length bounded)
      in if length full \<le> length bounded \<or> covered = [] then None
         else if already_covered history (env_seq (hd covered)) (env_seq (last covered)) then None
         else Some (ContextCompacted summary_id (env_seq (hd covered)) (env_seq (last covered))
                (map (\<lambda>e. uuid_string E (env_event_id e)) covered) (evidence_ids_of E covered)
                (context_input_hash E full) (Some ''local'') (Some ''deterministic-suffix'') (Some ''v0.5'')
                (local_summary E covered)))"

definition maybe_compact :: "'w runtime \<Rightarrow> uuid \<Rightarrow> uuid \<Rightarrow> ('w, unit) aop" where
  "maybe_compact R thread_id turn_id =
     sbind (reads_result (events_after (ro_ext R) thread_id 0)) (\<lambda>history.
       case compaction_event (ro_ext R) (rc_context (ro_config R)) history [] of
         None \<Rightarrow> sret ()
       | Some _ \<Rightarrow>
           sbind (new_id R) (\<lambda>i.
             case compaction_event (ro_ext R) (rc_context (ro_config R)) history (uuid_string (ro_ext R) i) of
               None \<Rightarrow> sret ()
             | Some event \<Rightarrow> signore (emit R thread_id (Some turn_id) None event)))"

section \<open>The model\<close>

fun emit_deltas :: "'w runtime \<Rightarrow> TurnEventContext \<Rightarrow> string list \<Rightarrow> uuid option \<Rightarrow> ('w, uuid option) aop" where
  "emit_deltas R ctx [] last_id = sret last_id"
| "emit_deltas R ctx (delta # deltas) last_id =
     sbind (emit_id R ctx last_id (AssistantDelta delta)) (emit_deltas R ctx deltas)"

definition complete_model ::
    "'w runtime \<Rightarrow> TurnEventContext \<Rightarrow> uuid option \<Rightarrow> ModelRequest \<Rightarrow> ('w, ModelResponse \<times> bool \<times> uuid option) aop" where
  "complete_model R ctx causation request =
     sbind (sask (ro_model R request)) (\<lambda>(deltas, ended).
     sbind (emit_deltas R ctx deltas causation) (\<lambda>last_id.
       case ended of
         ModelCancelled \<Rightarrow> arefuse OpsCodexError.Cancelled
       | ModelTimedOut \<Rightarrow> arefuse (OpsCodexError.Timeout ''model'')
       | ModelDone (Inl err) \<Rightarrow>
           sbind (count (\<lambda>m. m\<lparr>m_model_errors := inc (m_model_errors m)\<rparr>)) (\<lambda>_. arefuse err)
       | ModelDone (Inr response) \<Rightarrow>
           sbind (count (\<lambda>m. m\<lparr>m_model_calls := inc (m_model_calls m)\<rparr>)) (\<lambda>_.
             sret (response, deltas \<noteq> [], last_id))))"

definition finalize_turn_diagnosis :: "ext \<Rightarrow> Diagnosis \<Rightarrow> EventEnvelope list \<Rightarrow> Diagnosis" where
  "finalize_turn_diagnosis E d envs = apply_citation_limitations E d
     (List.map_filter (\<lambda>e. case env_event e of
        RuntimeEvent.ToolCompleted _ _ _ evidence success \<Rightarrow> if success then Some evidence else None
      | _ \<Rightarrow> None) envs)"

definition handle_message ::
    "'w runtime \<Rightarrow> TurnEventContext \<Rightarrow> bool \<Rightarrow> string \<Rightarrow> uuid option \<Rightarrow> ('w, uuid option) aop" where
  "handle_message R ctx streamed content last_id =
     sbind (if streamed then sret last_id else emit_id R ctx last_id (AssistantDelta content)) (\<lambda>last_id.
     sbind (on_sys (on_world (sask (parse_diagnosis (ro_decode_diagnosis R) (io_uuid (ro_io R)) content)))) (\<lambda>parsed.
     sbind (reads_result (events_after (ro_ext R) (tc_thread ctx) 0)) (\<lambda>envs.
       emit_id R ctx last_id (AssistantCompleted content
         (Some (finalize_turn_diagnosis (ro_ext R) parsed envs))))))"

text \<open>The outputs of one model step: the last event, and whether a tool was called.\<close>

fun handle_outputs ::
    "'w runtime \<Rightarrow> TurnEventContext \<Rightarrow> bool \<Rightarrow> ModelOutput list \<Rightarrow> uuid option \<Rightarrow> bool \<Rightarrow>
     ('w, uuid option \<times> bool) aop" where
  "handle_outputs R ctx streamed [] last_id called = sret (last_id, called)"
| "handle_outputs R ctx streamed (Message content # outs) last_id called =
     sbind (handle_message R ctx streamed content last_id) (\<lambda>i. handle_outputs R ctx streamed outs i called)"
| "handle_outputs R ctx streamed (Call call_id name arguments # outs) last_id called =
     sbind (execute_tool R (ctx\<lparr>tc_causation := last_id\<rparr>) call_id name arguments False)
       (\<lambda>i. handle_outputs R ctx streamed outs i True)"

section \<open>The loop of a turn\<close>

definition compose_instructions ::
    "string \<Rightarrow> SkillCatalog option \<Rightarrow> TurnInput \<Rightarrow> nat \<Rightarrow> string option" where
  "compose_instructions system skills input budget_bytes =
     (case skills of
        None \<Rightarrow> Some system
      | Some catalog \<Rightarrow>
          if catalog = [] then Some system
          else map_option (\<lambda>rendered. system @ [CHR 0x0A, CHR 0x0A] @ rendered)
            (skill_render catalog (Option.bind (ti_incident_context input) ic_service) (ti_content input) budget_bytes))"

definition tools_for :: "'w runtime \<Rightarrow> workspace_id \<Rightarrow> ToolRegistry result" where
  "tools_for R w =
     (if ro_workspace_tools R = [] then Inr (ro_tools R)
      else ok_or (OpsCodexError.Policy (''workspace `'' @ w @ ''` is not configured'')) (map_of (ro_workspace_tools R) w))"

definition saturating_step :: "nat \<Rightarrow> nat" where
  "saturating_step step = min (step + 1) (2 ^ 32 - 1)"

text \<open>One round: compaction, checkpoint, model call and its outputs.\<close>

definition turn_round ::
    "'w runtime \<Rightarrow> TurnEventContext \<Rightarrow> string \<Rightarrow> uuid option \<Rightarrow> ('w, uuid option \<times> bool) aop" where
  "turn_round R ctx instructions last_id =
     sbind (maybe_compact R (tc_thread ctx) (tc_turn ctx)) (\<lambda>_.
     sbind (checkpoint_of R ctx CheckpointPhase.ModelRunning ReplayModel None) (\<lambda>_.
     sbind (reads_result (model_context (ro_ext R) (tc_thread ctx) (rc_context (ro_config R)))) (\<lambda>items.
     sbind (complete_model R ctx last_id \<lparr>mq_instructions = instructions, mq_input = items,
         mq_tools = registry_schemas (tc_tools ctx)\<rparr>) (\<lambda>(response, streamed, model_event_id).
       handle_outputs R ctx streamed (mr_outputs response)
         (case model_event_id of Some i \<Rightarrow> Some i | None \<Rightarrow> last_id) False))))"

fun turn_loop ::
    "'w runtime \<Rightarrow> TurnEventContext \<Rightarrow> string \<Rightarrow> nat \<Rightarrow> uuid option \<Rightarrow> ('w, unit) aop" where
  "turn_loop R ctx instructions 0 last_id = arefuse OpsCodexError.MaxStepsExceeded"
| "turn_loop R ctx instructions (Suc n) last_id =
     sbind (turn_round R ctx instructions last_id) (\<lambda>(last_id, called).
       if called
       then turn_loop R (ctx\<lparr>tc_step := saturating_step (tc_step ctx)\<rparr>) instructions n last_id
       else
         sbind (checkpoint_of R ctx CheckpointPhase.Completed NoResume None) (\<lambda>_.
         sbind (emit_id R ctx last_id TurnCompleted) (\<lambda>_. sret ())))"

text \<open>
  How a turn starts: a fresh one records the message, a resumed one continues its pending tool. The
  context of a resumed tool has step 0.
\<close>

definition start_turn ::
    "'w runtime \<Rightarrow> TurnEventContext \<Rightarrow> TurnStart \<Rightarrow> ('w, nat \<times> uuid option) aop" where
  "start_turn R ctx start =
     (case start of
        Fresh input \<Rightarrow>
          sbind (emit_id R ctx None (UserMessage (ti_content input) (ti_incident_context input))) (\<lambda>_.
          sbind (emit_id R ctx None TurnStarted) (\<lambda>_.
          sbind (checkpoint_of R ctx CheckpointPhase.Queued ReplayModel None) (\<lambda>_.
            sret (0, None))))
      | Resume report \<Rightarrow>
          if rr_resume_policy report = Reconcile
          then arefuse (OpsCodexError.NeedsReconciliation (rr_user_action report))
          else
            let step = (case rr_checkpoint report of Some c \<Rightarrow> cp_step c | None \<Rightarrow> 0)
            in if rr_resume_policy report \<in> {RetryObserve, WaitApproval}
               then (case Option.bind (rr_checkpoint report) cp_pending_operation of
                       None \<Rightarrow> sret (step, None)
                     | Some operation \<Rightarrow>
                         sbind (resume_pending_tool R ctx operation (rr_resume_policy report)) (\<lambda>i.
                           sret (step, i)))
               else sret (step, None))"

definition skill_input :: "TurnStart \<Rightarrow> TurnInput" where
  "skill_input start = (case start of Fresh input \<Rightarrow> input
     | Resume _ \<Rightarrow> \<lparr>ti_content = [], ti_incident_context = None\<rparr>)"

definition run_turn_inner ::
    "'w runtime \<Rightarrow> uuid \<Rightarrow> uuid \<Rightarrow> TurnStart \<Rightarrow> Lease \<Rightarrow> ('w, unit) aop" where
  "run_turn_inner R thread_id turn_id start lease =
     sbind (reads_result (get_thread (ro_ext R) thread_id)) (\<lambda>thread.
     let w = th_workspace_id thread in
     sbind (sgets (\<lambda>s. Inr (sys_workspaces (ag_sys s)))) (\<lambda>cat.
     sbind (if cat = [] then sret () else sbind (alift (catalog_get cat w)) (\<lambda>_. sret ())) (\<lambda>_.
     sbind (alift (tools_for R w)) (\<lambda>tools.
     sbind (unless_panic (compose_instructions (ro_system_instructions R) (map_of (ro_workspace_skills R) w)
         (skill_input start) (ro_skill_budget_bytes R))) (\<lambda>instructions.
     let ctx = \<lparr>tc_thread = thread_id, tc_turn = turn_id, tc_workspace = w, tc_tools = tools,
           tc_causation = None, tc_lease = lease, tc_step = 0\<rparr> in
     sbind (start_turn R ctx start) (\<lambda>(step, last_id).
       turn_loop R (ctx\<lparr>tc_step := step\<rparr>) instructions (rc_max_steps (ro_config R)) last_id))))))"

section \<open>Turns\<close>

text \<open>A result looked at instead of returned; a panic unwinds through it.\<close>

definition attempt :: "('w, 'a) aop \<Rightarrow> ('w, OpsCodexError + 'a) aop" where
  "attempt m s = (case m s of
       (Inl (Returned err), s') \<Rightarrow> (Inr (Inl err), s')
     | (Inl Panicked, s') \<Rightarrow> (Inl Panicked, s')
     | (Inr x, s') \<Rightarrow> (Inr (Inr x), s'))"

text \<open>The slot permit and the guard of the active thread are given back on every way out.\<close>

definition with_slot :: "('w, 'a) aop \<Rightarrow> ('w, 'a) aop" where
  "with_slot m s = (case m (s\<lparr>ag_slots := ag_slots s - 1\<rparr>) of (r, s') \<Rightarrow> (r, s'\<lparr>ag_slots := ag_slots s' + 1\<rparr>))"

definition with_active :: "uuid \<Rightarrow> ('w, 'a) aop \<Rightarrow> ('w, 'a) aop" where
  "with_active thread_id m s =
     (if thread_id \<in> ag_active s then (Inl (Returned OpsCodexError.TurnAlreadyRunning), s)
      else case m (s\<lparr>ag_active := insert thread_id (ag_active s)\<rparr>) of
             (r, s') \<Rightarrow> (r, s'\<lparr>ag_active := ag_active s' - {thread_id}\<rparr>))"

definition take_lease :: "'w runtime \<Rightarrow> uuid \<Rightarrow> uuid \<Rightarrow> ('w, Lease) aop" where
  "take_lease R turn_id thread_id =
     sbind (now_of R) (\<lambda>now. sbind (new_id R) (\<lambda>i.
       on_store (acquire_lease (uuid_string (ro_ext R) i) now turn_id thread_id (ro_owner_id R)
         (rc_lease_ttl (ro_config R)))))"

definition turn_record ::
    "uuid \<Rightarrow> uuid \<Rightarrow> TurnStatus \<Rightarrow> string option \<Rightarrow> string option \<Rightarrow> time \<Rightarrow> time \<Rightarrow> TurnRecord" where
  "turn_record turn_id thread_id status lease_id checkpoint_id created updated =
     \<lparr>tu_id = turn_id, tu_thread_id = thread_id, tu_status = status, tu_active_lease_id = lease_id,
      tu_last_checkpoint_id = checkpoint_id, tu_created_at = created, tu_updated_at = updated\<rparr>"

fun final_status :: "OpsCodexError + unit \<Rightarrow> TurnStatus" where
  "final_status (Inr _) = TurnStatus.Completed"
| "final_status (Inl OpsCodexError.Cancelled) = TurnStatus.Cancelled"
| "final_status (Inl (OpsCodexError.NeedsReconciliation _)) = TurnStatus.NeedsReconciliation"
| "final_status (Inl _) = TurnStatus.Failed"

definition claimed_turn :: "'w runtime \<Rightarrow> uuid \<Rightarrow> uuid \<Rightarrow> TurnInput \<Rightarrow> ('w, unit) aop" where
  "claimed_turn R thread_id turn_id input =
     sbind (take_lease R turn_id thread_id) (\<lambda>lease.
     sbind (now_of R) (\<lambda>now.
     sbind (on_store (upsert_turn (turn_record turn_id thread_id TurnStatus.Running (Some (ls_lease_id lease)) None now now))) (\<lambda>_.
     sbind (attempt (run_turn_inner R thread_id turn_id (Fresh input) lease)) (\<lambda>result.
     sbind (now_of R) (\<lambda>later.
     sbind (signore (on_store (upsert_turn (turn_record turn_id thread_id (final_status result) None None now later)))) (\<lambda>_.
     sbind (signore (on_store (release_lease (ls_lease_id lease) (ls_fencing_token lease)))) (\<lambda>_.
       alift result)))))))"

definition admitted_turn :: "'w runtime \<Rightarrow> uuid \<Rightarrow> uuid \<Rightarrow> TurnInput \<Rightarrow> ('w, unit) aop" where
  "admitted_turn R thread_id turn_id input =
     sbind (sask (ro_wait_slot R)) (\<lambda>ended.
       if ended \<noteq> WaitReady then arefuse OpsCodexError.Cancelled
       else with_slot (with_active thread_id (claimed_turn R thread_id turn_id input)))"

definition check_turn_input :: "'w runtime \<Rightarrow> TurnInput \<Rightarrow> unit result" where
  "check_turn_input R input =
     and_then (case ti_incident_context input of None \<Rightarrow> Inr () | Some c \<Rightarrow> incident_validate (ro_ext R) (ro_codec R) c) (\<lambda>_.
       let n = length (ti_content input); limit = cb_max_bytes (rc_context (ro_config R)) in
       if MAX_TURN_INPUT_BYTES < n
       then Inl (OpsCodexError.Protocol (''turn input exceeds '' @ show_nat MAX_TURN_INPUT_BYTES @ '' bytes; shorten the prompt''))
       else if limit < n
       then Inl (OpsCodexError.Protocol (''turn input exceeds context budget ('' @ show_nat n @ '' bytes > '' @ show_nat limit @
              '' bytes); shorten the prompt or raise runtime.context_max_bytes''))
       else Inr ())"

definition report_end :: "'w runtime \<Rightarrow> uuid \<Rightarrow> uuid \<Rightarrow> OpsCodexError + unit \<Rightarrow> ('w, unit) aop" where
  "report_end R thread_id turn_id result =
     (case result of
        Inr _ \<Rightarrow> count (\<lambda>m. m\<lparr>m_turns_completed := inc (m_turns_completed m)\<rparr>)
      | Inl err \<Rightarrow>
          if err = OpsCodexError.Cancelled
          then sbind (count (\<lambda>m. m\<lparr>m_turns_cancelled := inc (m_turns_cancelled m)\<rparr>)) (\<lambda>_.
                 signore (emit R thread_id (Some turn_id) None TurnCancelled))
          else sbind (count (\<lambda>m. m\<lparr>m_turns_failed := inc (m_turns_failed m)\<rparr>)) (\<lambda>_.
                 signore (emit R thread_id (Some turn_id) None (TurnFailed (error_to_string err)))))"

definition run_turn :: "'w runtime \<Rightarrow> uuid \<Rightarrow> uuid \<Rightarrow> TurnInput \<Rightarrow> ('w, unit) aop" where
  "run_turn R thread_id turn_id input =
     sbind (alift (check_turn_input R input)) (\<lambda>_.
     sbind (count (\<lambda>m. m\<lparr>m_turns_started := inc (m_turns_started m)\<rparr>)) (\<lambda>_.
     sbind (attempt (admitted_turn R thread_id turn_id input)) (\<lambda>result.
     sbind (report_end R thread_id turn_id result) (\<lambda>_.
       alift result))))"

section \<open>Recovery and resuming\<close>

definition recovery_report :: "'w runtime \<Rightarrow> uuid \<Rightarrow> ('w, RecoveryReport) aop" where
  "recovery_report R turn_id =
     sbind (reads (get_turn turn_id)) (\<lambda>t.
     sbind (alift (ok_or (OpsCodexError.NotFound (''turn '' @ uuid_string (ro_ext R) turn_id)) t)) (\<lambda>turn.
     sbind (reads (last_checkpoint turn_id)) (\<lambda>c.
     sbind (alift (ok_or (OpsCodexError.NotFound (''checkpoint for turn '' @ uuid_string (ro_ext R) turn_id)) c)) (\<lambda>checkpoint.
     sbind (reads_result (events_after (ro_ext R) (tu_thread_id turn) 0)) (\<lambda>envs.
       sret (classify_checkpoint checkpoint envs))))))"

definition resumed_run :: "'w runtime \<Rightarrow> RecoveryReport \<Rightarrow> uuid \<Rightarrow> ('w, unit) aop" where
  "resumed_run R report turn_id =
     sbind (take_lease R turn_id (rr_thread_id report)) (\<lambda>lease.
     sbind (attempt (run_turn_inner R (rr_thread_id report) turn_id (Resume report) lease)) (\<lambda>result.
     sbind (signore (on_store (release_lease (ls_lease_id lease) (ls_fencing_token lease)))) (\<lambda>_.
       alift result)))"

definition resume_turn :: "'w runtime \<Rightarrow> uuid \<Rightarrow> string option \<Rightarrow> ('w, RecoveryReport) aop" where
  "resume_turn R turn_id idempotency_key =
     sbind (recovery_report R turn_id) (\<lambda>report.
       if rr_resume_policy report = Reconcile
       then arefuse (OpsCodexError.NeedsReconciliation (rr_user_action report))
       else
         sbind (case idempotency_key of
             None \<Rightarrow> sret None
           | Some key \<Rightarrow> sbind (now_of R) (\<lambda>now.
               on_store (remember_resume now key turn_id (ro_report_text R report)))) (\<lambda>existing.
         case existing of
           Some payload \<Rightarrow>
             alift (case ro_report_parse R payload of
               Inl err \<Rightarrow> Inl (OpsCodexError.Storage (''invalid resume payload: '' @ err)) | Inr r \<Rightarrow> Inr r)
         | None \<Rightarrow>
             sbind (sask (ro_wait_slot R)) (\<lambda>ended.
               if ended \<noteq> WaitReady then arefuse OpsCodexError.Cancelled
               else
                 sbind (with_slot (with_active (rr_thread_id report) (resumed_run R report turn_id))) (\<lambda>_.
                   sret report))))"

definition resolve_approval :: "'w runtime \<Rightarrow> uuid \<Rightarrow> bool \<Rightarrow> ('w, unit) aop" where
  "resolve_approval R aid approved =
     (let resolve = (\<lambda>v s. case broker_resolve (ro_ext R) aid v (ag_broker s) of
            (r, b) \<Rightarrow> (map_sum Returned id r, s\<lparr>ag_broker := b\<rparr>))
      in sbind (reads (get_approval aid)) (\<lambda>found.
         case found of
           None \<Rightarrow> resolve approved
         | Some durable \<Rightarrow>
             if da_status durable \<noteq> ApprovalStatus.Pending
             then arefuse (OpsCodexError.Policy (''approval '' @ uuid_string (ro_ext R) aid @ '' is '' @
                    approval_as_str (da_status durable)))
             else
               sbind (expires_now R durable) (\<lambda>late.
                 if late
                 then
                   sbind (on_store (put_approval (durable\<lparr>da_status := ApprovalStatus.Expired\<rparr>))) (\<lambda>_.
                   sbind (signore (resolve False)) (\<lambda>_.
                     arefuse (OpsCodexError.Policy (''approval '' @ uuid_string (ro_ext R) aid @ '' expired''))))
                 else
                   sbind (on_store (put_approval (durable\<lparr>da_status :=
                       (if approved then ApprovalStatus.Approved else ApprovalStatus.Rejected)\<rparr>))) (\<lambda>_.
                   sbind (attempt (resolve approved)) (\<lambda>result.
                     case result of
                       Inr _ \<Rightarrow> sret ()
                     | Inl (OpsCodexError.NotFound _) \<Rightarrow> sret ()
                     | Inl err \<Rightarrow> arefuse err)))))"

text \<open>One open turn after a restart.\<close>

definition recover_turn :: "'w runtime \<Rightarrow> TurnRecord \<Rightarrow> ('w, RecoveryReport list) aop" where
  "recover_turn R turn =
     sbind (signore (on_store (force_release_turn_lease (tu_id turn)))) (\<lambda>_.
     sbind (reads (last_checkpoint (tu_id turn))) (\<lambda>found.
       case found of
         None \<Rightarrow>
           sbind (now_of R) (\<lambda>now.
           sbind (on_store (upsert_turn (turn_record (tu_id turn) (tu_thread_id turn) TurnStatus.Interrupted None
               (tu_last_checkpoint_id turn) (tu_created_at turn) now))) (\<lambda>_.
             sret []))
       | Some checkpoint \<Rightarrow>
           sbind (reads_result (events_after (ro_ext R) (tu_thread_id turn) 0)) (\<lambda>envs.
           let report = classify_checkpoint checkpoint envs in
           sbind (now_of R) (\<lambda>now.
           sbind (on_store (upsert_turn (turn_record (tu_id turn) (tu_thread_id turn) (rr_status report) None
               (Some (cp_checkpoint_id checkpoint)) (tu_created_at turn) now))) (\<lambda>_.
             sret [report])))))"

fun recover_turns :: "'w runtime \<Rightarrow> TurnRecord list \<Rightarrow> ('w, RecoveryReport list) aop" where
  "recover_turns R [] = sret []"
| "recover_turns R (turn # turns) =
     sbind (recover_turn R turn) (\<lambda>reports.
     sbind (recover_turns R turns) (\<lambda>rest. sret (reports @ rest)))"

definition recover :: "'w runtime \<Rightarrow> ('w, RecoveryReport list) aop" where
  "recover R =
     sbind (on_sys (recover_pending (ro_ext R) (ro_io R))) (\<lambda>_.
     sbind (reads list_open_turns) (recover_turns R))"

end
