(* ===== verification/AgentSafety.thy ===== *)
theory AgentSafety
  imports Agent
begin

text \<open>
  What the agent runtime guarantees. A tool is launched only after its checkpoint and its event are in
  the store and after it was authorised; a turn that lost its lease stops without a trace; a turn ends
  with a final status and without a lease; refused input changes nothing; an approval is decided once.
\<close>

section \<open>Steps of the runtime on the store\<close>

definition dbof :: "'w agent \<Rightarrow> db" where
  "dbof s = sys_db (ag_sys s)"

definition with_db :: "(db \<Rightarrow> db) \<Rightarrow> 'w agent \<Rightarrow> 'w agent" where
  "with_db f s = s\<lparr>ag_sys := (ag_sys s)\<lparr>sys_db := f (dbof s)\<rparr>\<rparr>"

definition after_now :: "'w runtime \<Rightarrow> 'w agent \<Rightarrow> 'w agent" where
  "after_now R s = s\<lparr>ag_sys := (ag_sys s)\<lparr>sys_world := snd (io_now (ro_io R) (sys_world (ag_sys s)))\<rparr>\<rparr>"

definition after_id :: "'w runtime \<Rightarrow> 'w agent \<Rightarrow> 'w agent" where
  "after_id R s = s\<lparr>ag_sys := (ag_sys s)\<lparr>sys_world := snd (io_uuid (ro_io R) (sys_world (ag_sys s)))\<rparr>\<rparr>"

definition counted :: "(RuntimeMetrics \<Rightarrow> RuntimeMetrics) \<Rightarrow> 'w agent \<Rightarrow> 'w agent" where
  "counted f s = s\<lparr>ag_metrics := f (ag_metrics s)\<rparr>"

text \<open>Everything but the store, the world and the counters.\<close>

lemma dbof_simps [simp]:
  "dbof (with_db f s) = f (dbof s)"
  "dbof (after_now R s) = dbof s"
  "dbof (after_id R s) = dbof s"
  "dbof (counted g s) = dbof s"
  "dbof (s\<lparr>ag_metrics := m\<rparr>) = dbof s"
  "dbof (s\<lparr>ag_broker := b\<rparr>) = dbof s"
  "dbof (s\<lparr>ag_artifacts := a\<rparr>) = dbof s"
  "dbof (s\<lparr>ag_active := ts\<rparr>) = dbof s"
  "dbof (s\<lparr>ag_slots := n\<rparr>) = dbof s"
  "dbof (s\<lparr>ag_bus := es\<rparr>) = dbof s"
  "ag_active (counted g s) = ag_active s"
  by (simp_all add: dbof_def with_db_def after_now_def after_id_def counted_def)

lemma step_runs:
  "now_of R s = (Inr (fst (io_now (ro_io R) (sys_world (ag_sys s)))), after_now R s)"
  "new_id R s = (Inr (fst (io_uuid (ro_io R) (sys_world (ag_sys s)))), after_id R s)"
  "on_store m s = (map_sum Returned id (fst (m (dbof s))), with_db (\<lambda>_. snd (m (dbof s))) s)"
  "reads f s = (Inr (f (dbof s)), s)"
  "count g s = (Inr (), counted g s)"
  by (simp_all add: now_of_def new_id_def on_store_def on_sys_def on_db_def on_world_def utc_now_def fresh_uuid_def
      sask_def reads_def count_def sm_simps after_now_def after_id_def with_db_def dbof_def counted_def
      split: prod.split)

lemma alift_simps [simp]:
  "alift (Inr x) = sret x" "alift (Inl err) = arefuse err"
  by (auto simp: alift_def arefuse_def fun_eq_iff sm_simps)

lemma with_db_same [simp]: "with_db (\<lambda>_. dbof s) s = s"
  by (simp add: with_db_def dbof_def)

lemma refresh_lease_frame:
  "db_events (snd (refresh_lease now i k ttl d)) = db_events d"
  "db_checkpoints (snd (refresh_lease now i k ttl d)) = db_checkpoints d"
  "db_approvals (snd (refresh_lease now i k ttl d)) = db_approvals d"
  by (simp_all add: refresh_lease_def Let_def)

lemma append_event_frame:
  "db_checkpoints (snd (append_event E i now cmd d)) = db_checkpoints d"
  "db_approvals (snd (append_event E i now cmd d)) = db_approvals d"
  "db_leases (snd (append_event E i now cmd d)) = db_leases d"
  "db_turns (snd (append_event E i now cmd d)) = db_turns d"
  by (auto simp: append_event_def transaction_do_def sm_simps insert_event_def update_thread_def index_evidence_def
      upsert_evidence_def Let_def split: option.splits if_splits prod.splits sum.splits RuntimeEvent.splits)

lemma on_store_Inr: "on_store m s = (Inr x, s') \<Longrightarrow> m (dbof s) = (Inr x, dbof s')"
  by (cases "m (dbof s)"; cases "fst (m (dbof s))") (auto simp: step_runs)

lemma now_of_Inr: "now_of R s = (Inr x, s') \<Longrightarrow> s' = after_now R s"
  and new_id_Inr: "new_id R s = (Inr y, s') \<Longrightarrow> s' = after_id R s"
  and reads_Inr: "reads f s = (Inr z, s') \<Longrightarrow> z = f (dbof s) \<and> s' = s"
  by (auto simp: step_runs)

lemma emit_Inr:
  assumes "emit R t u c ev s = (Inr e, s')"
  shows "db_events (dbof s') = db_events (dbof s) @ [event_row_of e]" and "env_event e = ev"
    and "env_thread_id e = t" and "env_turn_id e = u"
    and "db_checkpoints (dbof s') = db_checkpoints (dbof s)" and "db_approvals (dbof s') = db_approvals (dbof s)"
    and "db_leases (dbof s') = db_leases (dbof s)"
proof -
  let ?cmd = "\<lparr>ap_thread_id = t, ap_turn_id = u, ap_item_id = None, ap_causation_id = c, ap_stream_kind = None,
     ap_event = ev\<rparr>"
  obtain s1 where s1: "sbind (new_id R) (\<lambda>i. sbind (now_of R) (\<lambda>now. on_store (append_event (ro_ext R) i now ?cmd))) s =
      (Inr e, s1)" and same: "dbof s' = dbof s1"
    using assms unfolding emit_def by (fastforce split: prod.splits sum.splits)
  from s1 obtain i now where run: "append_event (ro_ext R) i now ?cmd (dbof s) = (Inr e, dbof s1)"
    unfolding sbind_Inr_iff by (auto dest!: now_of_Inr new_id_Inr on_store_Inr)
  from append_event_Inr [OF run] obtain n w where e: "e = appended_envelope i now ?cmd n w"
    and "db_events (dbof s1) = db_events (dbof s) @ [event_row_of e]" by metis
  then show "db_events (dbof s') = db_events (dbof s) @ [event_row_of e]" using same by simp
  show "env_event e = ev" "env_thread_id e = t" by (simp_all add: e)
  show "env_turn_id e = u" by (simp add: e appended_envelope_def with_causation_def)
  show "db_checkpoints (dbof s') = db_checkpoints (dbof s)" "db_approvals (dbof s') = db_approvals (dbof s)"
    "db_leases (dbof s') = db_leases (dbof s)"
    using append_event_frame [of "ro_ext R" i now ?cmd "dbof s"] by (simp_all add: run same)
qed

lemma emit_id_Inr:
  assumes "emit_id R ctx c ev s = (Inr x, s')"
  obtains e where "emit R (tc_thread ctx) (Some (tc_turn ctx)) c ev s = (Inr e, s')"
  using assms that by (auto simp: emit_id_def sbind_Inr_iff sret_def)

lemma updated_row_remains:
  assumes "filter P t \<noteq> []" and "\<And>r. P r \<Longrightarrow> P (f r)"
  shows "\<exists>r \<in> set (tbl_update P f t). P r"
proof -
  from assms(1) obtain r where "r \<in> set t" "P r" by (auto simp: filter_empty_conv)
  then have "f r \<in> set (tbl_update P f t)" "P (f r)" using assms(2) by (force simp: tbl_update_def)+
  then show ?thesis by blast
qed

lemma write_checkpoint_Inr:
  assumes "write_checkpoint R t u step phase policy pending lease s = (Inr x, s')"
  obtains r where "db_checkpoints (dbof s') = db_checkpoints (dbof s) @ [r]"
    and "kr_turn_id r = u" and "kr_thread_id r = t" and "kr_step r = int step" and "kr_phase r = phase_as_str phase"
    and "kr_state r = pending" and "kr_resume_policy r = policy_as_str policy"
    and "db_events (dbof s') = db_events (dbof s)" and "db_approvals (dbof s') = db_approvals (dbof s)"
    and "\<exists>l \<in> set (db_leases (dbof s')). ls_lease_id l = ls_lease_id lease \<and> ls_fencing_token l = ls_fencing_token lease"
proof -
  let ?P = "\<lambda>l. ls_lease_id l = ls_lease_id lease \<and> ls_fencing_token l = ls_fencing_token lease"
  from assms obtain now c d where lease: "refresh_lease now (ls_lease_id lease) (ls_fencing_token lease)
        (rc_lease_ttl (ro_config R)) (dbof s) = (Inr (), d)"
    and c: "cp_turn_id c = u" "cp_thread_id c = t" "cp_step c = step" "cp_phase c = phase"
      "cp_pending_operation c = pending" "cp_resume_policy c = policy"
    and put: "put_checkpoint c d = (Inr (), dbof s')"
    unfolding write_checkpoint_def sbind_Inr_iff
    by (auto dest!: now_of_Inr new_id_Inr on_store_Inr reads_Inr) (metis CheckpointRecord.select_convs)
  have d: "db_events d = db_events (dbof s)" "db_checkpoints d = db_checkpoints (dbof s)"
    "db_approvals d = db_approvals (dbof s)"
    using refresh_lease_frame [of now "ls_lease_id lease" "ls_fencing_token lease" "rc_lease_ttl (ro_config R)" "dbof s"]
    by (simp_all add: lease)
  from lease have "filter ?P (db_leases (dbof s)) \<noteq> []"
    and "db_leases d = tbl_update ?P (\<lambda>r. r\<lparr>ls_expires_at := now + rc_lease_ttl (ro_config R)\<rparr>) (db_leases (dbof s))"
    by (auto simp: refresh_lease_def Let_def split: if_splits)
  then have held: "\<exists>l \<in> set (db_leases d). ?P l" by (simp add: updated_row_remains)
  obtain d' where d': "dbof s' = d'" by simp
  from put [unfolded d'] have s': "db_leases d' = db_leases d" "db_events d' = db_events d"
    "db_approvals d' = db_approvals d"
    and "\<exists>r. db_checkpoints d' = db_checkpoints d @ [r] \<and> kr_turn_id r = u \<and> kr_thread_id r = t \<and>
      kr_step r = int step \<and> kr_phase r = phase_as_str phase \<and> kr_state r = pending \<and>
      kr_resume_policy r = policy_as_str policy"
    by (auto simp: put_checkpoint_def c split: if_splits)
  then obtain r where "db_checkpoints d' = db_checkpoints d @ [r]" "kr_turn_id r = u" "kr_thread_id r = t"
    "kr_step r = int step" "kr_phase r = phase_as_str phase" "kr_state r = pending"
    "kr_resume_policy r = policy_as_str policy" by blast
  then show thesis using d d' s' held by (intro that [of r]) simp_all
qed

section \<open>Launching a tool\<close>

definition approved_call :: "ext \<Rightarrow> string \<Rightarrow> ToolLaunch \<Rightarrow> db \<Rightarrow> bool" where
  "approved_call E schema_hash l d \<longleftrightarrow> (\<exists>aid a. get_approval aid d = Some a \<and> da_status a = ApprovalStatus.Approved \<and>
     da_turn_id a = Some (tl_turn l) \<and> da_thread_id a = Some (tl_thread l) \<and> da_tool a = tl_name l \<and>
     da_arguments a = tl_arguments l \<and> da_schema_hash a = Some schema_hash \<and>
     da_request_hash a = approval_request_hash E (tl_name l) (tl_arguments l) (Some schema_hash))"

text \<open>What is in the store when a tool is launched: its checkpoint, its event, and what allowed it.\<close>

definition launch_recorded :: "'w runtime \<Rightarrow> CapabilityDescriptor \<Rightarrow> ToolLaunch \<Rightarrow> db \<Rightarrow> bool" where
  "launch_recorded R d l db \<longleftrightarrow>
     (\<exists>cs r. db_checkpoints db = cs @ [r] \<and> kr_turn_id r = tl_turn l \<and> kr_thread_id r = tl_thread l \<and>
        kr_phase r = phase_as_str CheckpointPhase.ToolRunning \<and>
        kr_resume_policy r = policy_as_str (if tool_is_retryable (cd_effect d) (cd_recovery d) then RetryObserve else Reconcile) \<and>
        kr_state r = Some \<lparr>op_operation_id = pending_operation_id (ro_ext R) (tl_turn l) (tl_call_id l),
           op_call_id = tl_call_id l, op_tool = tl_name l, op_arguments = tl_arguments l,
           op_effect = effect_as_str (cd_effect d), op_recovery = map_option recovery_as_str (cd_recovery d)\<rparr>)"

definition turn_event :: "ToolLaunch \<Rightarrow> RuntimeEvent \<Rightarrow> event_row \<Rightarrow> bool" where
  "turn_event l ev r \<longleftrightarrow> (\<exists>e. r = event_row_of e \<and> env_thread_id e = tl_thread l \<and>
     env_turn_id e = Some (tl_turn l) \<and> env_event e = ev)"

definition launch_authorized :: "'w runtime \<Rightarrow> CapabilityDescriptor \<Rightarrow> ToolLaunch \<Rightarrow> event_row list \<Rightarrow> db \<Rightarrow> bool" where
  "launch_authorized R d l es db \<longleftrightarrow>
     es \<noteq> [] \<and> turn_event l (RuntimeEvent.ToolAuthorized (tl_call_id l) (tl_name l) ''allow'') (last es) \<and>
     (evaluate_capability d = PolicyDecision.Allow \<or>
      evaluate_capability d = PolicyDecision.Ask \<and>
        approved_call (ro_ext R) (pv_schema_hash (cd_provenance d)) l db)"

definition launch_ready :: "'w runtime \<Rightarrow> ToolLaunch \<Rightarrow> 'w agent \<Rightarrow> bool" where
  "launch_ready R l s \<longleftrightarrow>
     (\<exists>tools d es r. tools_for R (tl_workspace l) = Inr tools \<and> registry_descriptor tools (tl_name l) = Inr d \<and>
        db_events (dbof s) = es @ [r] \<and>
        turn_event l (RuntimeEvent.ToolExecutionStarted (tl_call_id l) (tl_name l)) r \<and>
        launch_recorded R d l (dbof s) \<and> launch_authorized R d l es (dbof s))"

text \<open>Other tasks change the status of a request for approval while a turn waits, never the request.\<close>

definition keeps_requests :: "'w runtime \<Rightarrow> bool" where
  "keeps_requests R \<longleftrightarrow> (\<forall>ch s aid a. get_approval aid (dbof s) = Some a \<longrightarrow>
     (\<exists>st. get_approval aid (dbof (snd (ro_wait_approval R ch s))) = Some (a\<lparr>da_status := st\<rparr>)))"

lemma launch_of_simps [simp]:
  "tl_name (launch_of ctx call_id name args) = name" "tl_arguments (launch_of ctx call_id name args) = args"
  "tl_workspace (launch_of ctx call_id name args) = tc_workspace ctx"
  "tl_thread (launch_of ctx call_id name args) = tc_thread ctx" "tl_turn (launch_of ctx call_id name args) = tc_turn ctx"
  "tl_call_id (launch_of ctx call_id name args) = call_id"
  by (simp_all add: launch_of_def)

lemma approved_call_cong: "db_approvals d = db_approvals d' \<Longrightarrow> approved_call E h l d = approved_call E h l d'"
  by (simp add: approved_call_def get_approval_def)

lemma approval_answer_True:
  assumes "approval_answer R ctx aid ch request s = (Inr True, s')"
  shows "dbof s' = dbof (snd (ro_wait_approval R ch s))"
proof -
  obtain w s1 where w: "ro_wait_approval R ch s = (w, s1)" by fastforce
  with assms show ?thesis
    by (cases w) (auto simp: approval_answer_def wait_approval_def sask_def sm_simps arefuse_def Let_def channel_of_def
        step_runs drop_wait_def split: Channel.splits prod.splits sum.splits)
qed

lemma record_answer_True:
  assumes "record_answer aid True s = (Inr x, s')" and "get_approval aid (dbof s) = Some a" and "da_approval_id a = aid"
  shows "get_approval aid (dbof s') = Some (a\<lparr>da_status := ApprovalStatus.Approved\<rparr>)"
    and "db_events (dbof s') = db_events (dbof s)"
  using assms get_put_approval(1) [of "a\<lparr>da_status := ApprovalStatus.Approved\<rparr>" "dbof s"]
  by (auto simp: record_answer_def sm_simps step_runs put_approval_def)

lemma emit_id_event:
  assumes "emit_id R ctx c ev s = (Inr x, s')"
  shows "\<exists>r. db_events (dbof s') = db_events (dbof s) @ [r] \<and> turn_event (launch_of ctx i n a) ev r"
    and "db_checkpoints (dbof s') = db_checkpoints (dbof s)" and "db_approvals (dbof s') = db_approvals (dbof s)"
  using emit_id_Inr [OF assms] emit_Inr(1-6) unfolding turn_event_def launch_of_simps by metis+

lemma announce_approval_Inr:
  assumes "announce_approval R ctx c call_id aid name args d s = (Inr (request, x), s')"
  shows "get_approval aid (dbof s') = Some request"
    and "\<exists>t. request = durable_request R ctx aid name args (pv_schema_hash (cd_provenance d)) t"
proof -
  from assms obtain now s1 s2 s3 where
    now: "request = durable_request R ctx aid name args (pv_schema_hash (cd_provenance d)) now"
    and put: "on_store (put_approval request) s1 = (Inr (), s2)"
    and cp: "checkpoint_of R ctx CheckpointPhase.WaitingApproval WaitApproval
         (Some (pending_operation_for R ctx call_id name args d)) s2 = (Inr (), s3)"
    and emit: "emit_id R ctx c (RuntimeEvent.ApprovalRequired aid name args) s3 = (Inr x, s')"
    unfolding announce_approval_def Let_def sbind_Inr_iff sret_def by auto
  have "da_approval_id request = aid" by (simp add: now durable_request_def)
  then have "get_approval aid (dbof s2) = Some request"
    using on_store_Inr [OF put] get_put_approval(1) [of request "dbof s1"] by simp
  moreover have "db_approvals (dbof s3) = db_approvals (dbof s2)"
    using cp unfolding checkpoint_of_def by (rule write_checkpoint_Inr)
  ultimately show "get_approval aid (dbof s') = Some request"
    using emit_id_event(3) [OF emit] by (simp add: get_approval_def)
  show "\<exists>t. request = durable_request R ctx aid name args (pv_schema_hash (cd_provenance d)) t" using now by blast
qed

lemma holding_Inr: "holding ch m s = (Inr x, s') \<longleftrightarrow> m s = (Inr x, s')"
  by (auto simp: holding_def split: prod.splits sum.splits)

lemma refuse_tool_Inr: "refuse_tool R ctx c i n a err s = (Inr g, s') \<Longrightarrow> \<exists>e. g = Finished e"
  by (auto simp: refuse_tool_def sbind_Inr_iff sret_def)

lemma ask_approval_Proceed:
  assumes "ask_approval R ctx c i n a d s = (Inr (Proceed x), s')" and "keeps_requests R"
  shows "\<exists>es r. db_events (dbof s') = es @ [r] \<and>
      turn_event (launch_of ctx i n a) (RuntimeEvent.ToolAuthorized i n ''allow'') r"
    and "approved_call (ro_ext R) (pv_schema_hash (cd_provenance d)) (launch_of ctx i n a) (dbof s')"
proof -
  let ?h = "pv_schema_hash (cd_provenance d)"
  from assms(1) obtain aid ch request c' s1 s2 s3 s4 s5 c2 c3 where
    announce: "announce_approval R ctx c i aid n a d s1 = (Inr (request, c'), s2)"
    and answer: "approval_answer R ctx aid ch request s2 = (Inr True, s3)"
    and recorded: "record_answer aid True s3 = (Inr (), s4)"
    and resolved: "emit_id R ctx c' (RuntimeEvent.ApprovalResolved aid True) s4 = (Inr c2, s5)"
    and authorized: "emit_id R ctx c2 (RuntimeEvent.ToolAuthorized i n ''allow'') s5 = (Inr c3, s')"
    unfolding ask_approval_def Let_def sbind_Inr_iff case_prod_unfold holding_Inr sret_def
    by (cases "registry_descriptor (tc_tools ctx) n") (auto dest!: refuse_tool_Inr split: if_splits)
  from announce_approval_Inr [OF announce] obtain t where
    req: "get_approval aid (dbof s2) = Some request" "request = durable_request R ctx aid n a ?h t" by blast
  then obtain st where "get_approval aid (dbof s3) = Some (request\<lparr>da_status := st\<rparr>)"
    using assms(2) answer unfolding keeps_requests_def by (metis approval_answer_True)
  then have "get_approval aid (dbof s4) = Some (request\<lparr>da_status := ApprovalStatus.Approved\<rparr>)"
    using record_answer_True(1) [of aid s3 "()" s4 "request\<lparr>da_status := st\<rparr>"] recorded
    by (simp add: req(2) durable_request_def)
  then have "get_approval aid (dbof s') = Some (request\<lparr>da_status := ApprovalStatus.Approved\<rparr>)"
    using emit_id_event(3) [OF resolved] emit_id_event(3) [OF authorized] by (simp add: get_approval_def)
  then show "approved_call (ro_ext R) ?h (launch_of ctx i n a) (dbof s')"
    unfolding approved_call_def by (intro exI conjI) (assumption, simp_all add: req(2) durable_request_def)
  show "\<exists>es r. db_events (dbof s') = es @ [r] \<and>
      turn_event (launch_of ctx i n a) (RuntimeEvent.ToolAuthorized i n ''allow'') r"
    using emit_id_event(1) [OF authorized, of i n a] by blast
qed

lemma authorize_tool_Proceed:
  assumes "authorize_tool R ctx c i n a d s = (Inr (Proceed x), s')" and "keeps_requests R"
  shows "launch_authorized R d (launch_of ctx i n a) (db_events (dbof s')) (dbof s')"
proof (cases "evaluate_capability d")
  case Allow
  with assms(1) obtain c' where "emit_id R ctx c (RuntimeEvent.ToolAuthorized i n ''allow'') s = (Inr c', s')"
    by (auto simp: authorize_tool_def sbind_Inr_iff sret_def)
  from emit_id_event(1) [OF this, of i n a] Allow show ?thesis by (auto simp: launch_authorized_def)
next
  case Ask
  with assms ask_approval_Proceed [of R ctx c i n a d s x s'] show ?thesis
    by (auto simp: authorize_tool_def launch_authorized_def)
next
  case Deny
  with assms(1) show ?thesis by (auto simp: authorize_tool_def sbind_Inr_iff dest!: refuse_tool_Inr)
qed

lemma run_tool_launches_ready:
  assumes "tools_for R (tc_workspace ctx) = Inr tools" and "registry_descriptor tools n = Inr d"
    and "launch_authorized R d (launch_of ctx i n a) (db_events (dbof s)) (dbof s)"
    and "checkpoint_of R ctx CheckpointPhase.ToolRunning
      (if tool_is_retryable (cd_effect d) (cd_recovery d) then RetryObserve else Reconcile)
      (Some (pending_operation_for R ctx i n a d)) s = (Inr u, s1)"
    and "emit_id R ctx c (RuntimeEvent.ToolExecutionStarted i n) s1 = (Inr c', s2)"
  shows "launch_ready R (launch_of ctx i n a) s2"
proof -
  from assms(4) obtain r where r: "db_checkpoints (dbof s1) = db_checkpoints (dbof s) @ [r]" "kr_turn_id r = tc_turn ctx"
    "kr_thread_id r = tc_thread ctx" "kr_phase r = phase_as_str CheckpointPhase.ToolRunning"
    "kr_state r = Some (pending_operation_for R ctx i n a d)"
    "kr_resume_policy r = policy_as_str (if tool_is_retryable (cd_effect d) (cd_recovery d) then RetryObserve else Reconcile)"
    and s1: "db_events (dbof s1) = db_events (dbof s)" "db_approvals (dbof s1) = db_approvals (dbof s)"
    unfolding checkpoint_of_def by (rule write_checkpoint_Inr) blast
  from emit_id_event(1) [OF assms(5), of i n a] s1 obtain r' where ev: "db_events (dbof s2) = db_events (dbof s) @ [r']"
    "turn_event (launch_of ctx i n a) (RuntimeEvent.ToolExecutionStarted i n) r'" by auto
  have s2: "db_checkpoints (dbof s2) = db_checkpoints (dbof s1)" "db_approvals (dbof s2) = db_approvals (dbof s)"
    using emit_id_event(2,3) [OF assms(5)] s1 by simp_all
  have "launch_recorded R d (launch_of ctx i n a) (dbof s2)"
    unfolding launch_recorded_def by (intro exI conjI) (use r s2 in \<open>auto simp: pending_operation_for_def\<close>)
  moreover have "launch_authorized R d (launch_of ctx i n a) (db_events (dbof s)) (dbof s2)"
    using assms(3) s2(2) by (simp add: launch_authorized_def cong: approved_call_cong)
  ultimately show ?thesis
    using assms(1,2) ev unfolding launch_ready_def launch_of_simps by blast
qed

subsection \<open>Runs that differ only in how tools are launched\<close>

text \<open>
  Two runtimes with different tools behave alike as long as the tools agree on the states in which they
  are launched. So a property of the launch states is stated as: a tool that behaves differently in
  every other state makes no difference.
\<close>

abbreviation with_tools :: "('w runtime) \<Rightarrow> (ToolLaunch \<Rightarrow> 'w agent \<Rightarrow> ToolEnd \<times> 'w agent) \<Rightarrow> 'w runtime" where
  "with_tools R X \<equiv> R\<lparr>ro_execute := X\<rparr>"

lemma emit_with_tools [simp]:
  "now_of (with_tools R X) = now_of R" "new_id (with_tools R X) = new_id R" "emit (with_tools R X) = emit R"
  by (simp_all add: fun_eq_iff now_of_def new_id_def emit_def)

lemma deltas_with_tools [simp]: "emit_id (with_tools R X) = emit_id R" "emit_deltas (with_tools R X) = emit_deltas R"
proof -
  show e: "emit_id (with_tools R X) = emit_id R" by (simp add: fun_eq_iff emit_id_def)
  show "emit_deltas (with_tools R X) = emit_deltas R"
  proof (intro ext)
    show "emit_deltas (with_tools R X) ctx ds i s = emit_deltas R ctx ds i s" for ctx ds i s
      by (induction ds arbitrary: i s) (simp_all add: e sbind_def split: prod.split sum.split)
  qed
qed

lemma checkpoint_with_tools [simp]:
  "write_checkpoint (with_tools R X) = write_checkpoint R" "checkpoint_of (with_tools R X) = checkpoint_of R"
  by (simp_all add: fun_eq_iff write_checkpoint_def checkpoint_of_def)

lemmas branch_congs = if_cong option.case_cong sum.case_cong WaitEnd.case_cong PolicyDecision.case_cong
  ToolEnd.case_cong

lemma success_with_tools [simp]: "success_result (with_tools R X) = success_result R"
  by (simp add: fun_eq_iff success_result_def cong: branch_congs)

lemma emit_result_with_tools [simp]: "emit_tool_result (with_tools R X) = emit_tool_result R"
  by (simp add: fun_eq_iff emit_tool_result_def cong: branch_congs)

lemma error_with_tools [simp]: "emit_tool_error (with_tools R X) = emit_tool_error R"
  by (simp add: fun_eq_iff emit_tool_error_def)

lemma finish_with_tools [simp]:
  "finish_tool (with_tools R X) = finish_tool R" "refuse_tool (with_tools R X) = refuse_tool R"
  by (simp_all add: fun_eq_iff finish_tool_def refuse_tool_def cong: branch_congs)

lemma request_with_tools [simp]:
  "pending_operation_for (with_tools R X) = pending_operation_for R"
  "durable_request (with_tools R X) = durable_request R" "wait_approval (with_tools R X) = wait_approval R"
  by (simp_all add: fun_eq_iff pending_operation_for_def durable_request_def wait_approval_def)

lemma answer_with_tools [simp]:
  "announce_approval (with_tools R X) = announce_approval R" "approval_answer (with_tools R X) = approval_answer R"
  by (simp_all add: fun_eq_iff announce_approval_def approval_answer_def cong: branch_congs)

lemma authorize_with_tools [simp]:
  "ask_approval (with_tools R X) = ask_approval R" "authorize_tool (with_tools R X) = authorize_tool R"
proof -
  show a: "ask_approval (with_tools R X) = ask_approval R"
    by (simp add: fun_eq_iff ask_approval_def cong: branch_congs)
  show "authorize_tool (with_tools R X) = authorize_tool R"
    by (simp add: fun_eq_iff authorize_tool_def a cong: branch_congs)
qed

lemma turn_with_tools [simp]:
  "maybe_compact (with_tools R X) = maybe_compact R" "complete_model (with_tools R X) = complete_model R"
  "handle_message (with_tools R X) = handle_message R" "tools_for (with_tools R X) = tools_for R"
  "take_lease (with_tools R X) = take_lease R" "report_end (with_tools R X) = report_end R"
  "check_turn_input (with_tools R X) = check_turn_input R"
  by (simp_all add: fun_eq_iff maybe_compact_def complete_model_def handle_message_def tools_for_def take_lease_def
      report_end_def check_turn_input_def cong: branch_congs)

lemma sbind_cong_run:
  "(\<And>x t. m s = (Inr x, t) \<Longrightarrow> f x t = g x t) \<Longrightarrow> sbind m f s = sbind m g s"
  by (auto simp: sbind_def split: prod.split sum.split)

lemma sbind_cong_first: "m s = m' s \<Longrightarrow> sbind m f s = sbind m' f s"
  by (simp add: sbind_def)

lemma execute_with_tools: "ro_execute (with_tools R X) = X"
  by simp

definition agree_when_ready :: "'w runtime \<Rightarrow> (ToolLaunch \<Rightarrow> 'w agent \<Rightarrow> ToolEnd \<times> 'w agent) \<Rightarrow> bool" where
  "agree_when_ready R X \<longleftrightarrow> (\<forall>l s. launch_ready R l s \<longrightarrow> X l s = ro_execute R l s)"

lemma execute_tool_agrees:
  assumes "agree_when_ready R X" and "keeps_requests R" and "tools_for R (tc_workspace ctx) = Inr (tc_tools ctx)"
  shows "execute_tool (with_tools R X) ctx i n a False s = execute_tool R ctx i n a False s"
proof -
  have run: "run_tool (with_tools R X) ctx c i n a d t = run_tool R ctx c i n a d t"
    if d: "registry_descriptor (tc_tools ctx) n = Inr d"
      and auth: "launch_authorized R d (launch_of ctx i n a) (db_events (dbof t)) (dbof t)" for c d t
  proof -
    have "sask (X (launch_of ctx i n a)) t2 = sask (ro_execute R (launch_of ctx i n a)) t2"
      if "checkpoint_of R ctx CheckpointPhase.ToolRunning
          (if tool_is_retryable (cd_effect d) (cd_recovery d) then RetryObserve else Reconcile)
          (Some (pending_operation_for R ctx i n a d)) t = (Inr u, t1)"
        and "emit_id R ctx c (RuntimeEvent.ToolExecutionStarted i n) t1 = (Inr c', t2)" for u t1 c' t2
      using run_tool_launches_ready [OF assms(3) d auth that] assms(1)
      by (simp add: sask_def agree_when_ready_def)
    then show ?thesis
      unfolding run_tool_def Let_def checkpoint_with_tools deltas_with_tools finish_with_tools request_with_tools
        execute_with_tools
      by (intro sbind_cong_run sbind_cong_first) blast
  qed
  show ?thesis
    unfolding execute_tool_def
    by (auto intro!: sbind_cong_run run split: sum.split Gate.split dest!: authorize_tool_Proceed [OF _ assms(2)])
qed

lemma handle_outputs_agrees:
  assumes "agree_when_ready R X" and "keeps_requests R" and "tools_for R (tc_workspace ctx) = Inr (tc_tools ctx)"
  shows "handle_outputs (with_tools R X) ctx streamed outs i called s = handle_outputs R ctx streamed outs i called s"
proof (induction outs arbitrary: i called s)
  case (Cons out outs)
  show ?case
  proof (cases out)
    case (Call call_id name args)
    have "execute_tool (with_tools R X) (ctx\<lparr>tc_causation := i\<rparr>) call_id name args False s =
        execute_tool R (ctx\<lparr>tc_causation := i\<rparr>) call_id name args False s"
      by (rule execute_tool_agrees [OF assms(1,2)]) (simp add: assms(3))
    then show ?thesis by (auto simp: Call sbind_def Cons.IH split: prod.split sum.split)
  qed (auto intro: sbind_cong_run Cons.IH)
qed simp

lemma turn_loop_agrees:
  assumes "agree_when_ready R X" and "keeps_requests R" and "tools_for R (tc_workspace ctx) = Inr (tc_tools ctx)"
  shows "turn_loop (with_tools R X) ctx instructions n i s = turn_loop R ctx instructions n i s"
  using assms(3)
proof (induction n arbitrary: ctx i s)
  case (Suc n)
  have round: "turn_round (with_tools R X) ctx instructions i s = turn_round R ctx instructions i s"
    unfolding turn_round_def turn_with_tools checkpoint_with_tools
    by (auto intro!: sbind_cong_run handle_outputs_agrees [OF assms(1,2) Suc.prems] split: prod.split)
  show ?case
    using Suc.IH Suc.prems by (auto simp: sbind_def round split: prod.split sum.split)
qed simp

lemma run_turn_inner_agrees:
  assumes "agree_when_ready R X" and "keeps_requests R"
  shows "run_turn_inner (with_tools R X) t u (Fresh input) lease s = run_turn_inner R t u (Fresh input) lease s"
proof -
  have "start_turn (with_tools R X) ctx (Fresh input) = start_turn R ctx (Fresh input)" for ctx
    by (simp add: start_turn_def)
  then show ?thesis
    unfolding run_turn_inner_def Let_def turn_with_tools
    by (auto intro!: sbind_cong_run turn_loop_agrees [OF assms]
        simp: alift_def slift_def map_sum_def split: prod.split sum.splits)
qed

lemma attempt_cong: "m s = m' s \<Longrightarrow> attempt m s = attempt m' s"
  by (simp add: attempt_def)

lemma run_turn_agrees:
  assumes "agree_when_ready R X" and "keeps_requests R"
  shows "run_turn (with_tools R X) t u input s = run_turn R t u input s"
proof -
  have claimed: "claimed_turn (with_tools R X) t u input s = claimed_turn R t u input s" for s
    unfolding claimed_turn_def turn_with_tools emit_with_tools
    by (auto intro!: sbind_cong_run sbind_cong_first attempt_cong run_turn_inner_agrees [OF assms])
  have "admitted_turn (with_tools R X) t u input s = admitted_turn R t u input s" for s
    unfolding admitted_turn_def
    by (auto intro!: sbind_cong_run simp: with_slot_def with_active_def claimed split: prod.split)
  then show ?thesis
    unfolding run_turn_def turn_with_tools
    by (auto intro!: sbind_cong_run sbind_cong_first attempt_cong)
qed

section \<open>The end of a turn\<close>

lemma upsert_turn_get:
  assumes "get_turn (tu_id r) (snd (upsert_turn r d)) = Some tr"
  shows "tu_status tr = tu_status r \<and> tu_active_lease_id tr = tu_active_lease_id r"
  using assms turns.get_upsert_same [of "turn_row_of r" "db_turns d"]
  by (auto simp: upsert_turn_def get_turn_def Let_def turn_row_of_def turn_of_row_def merge_turn_def
      split: if_splits option.splits)

lemma returned_not_panicked [simp]: "map_sum Returned id r \<noteq> Inl Panicked"
  by (cases r) simp_all

lemma attempt_Inr:
  "attempt m s = (Inr x, s') \<longleftrightarrow> m s = (map_sum Returned id x, s')"
  by (cases x) (auto simp: attempt_def split: prod.splits sum.splits stop.splits)

lemma attempt_Inl:
  "attempt m s = (Inl e, s') \<longleftrightarrow> m s = (Inl Panicked, s') \<and> e = Panicked"
  by (auto simp: attempt_def split: prod.splits sum.splits stop.splits)

lemma signore_run: "signore m s = (Inr (), snd (m s))"
  by (simp add: signore_def)

lemma take_lease_thread:
  "take_lease R u t s = (r, s') \<Longrightarrow> db_threads (dbof s') = db_threads (dbof s)"
  "take_lease R u t s = (r, s') \<Longrightarrow> db_events (dbof s') = db_events (dbof s)"
  by (auto simp: take_lease_def sbind_run step_runs acquire_lease_def Let_def split: option.splits if_splits sum.splits)

lemma released_lease:
  "l \<in> set (db_leases (snd (release_lease i k d))) \<Longrightarrow> \<not> (ls_lease_id l = i \<and> ls_fencing_token l = k)"
  by (auto simp: release_lease_def sm_simps set_tbl_delete)

lemma release_lease_turns: "get_turn u (snd (release_lease i k d)) = get_turn u d"
  by (simp add: release_lease_def sm_simps get_turn_def)

definition closing :: "'w runtime \<Rightarrow> uuid \<Rightarrow> uuid \<Rightarrow> Lease \<Rightarrow> time \<Rightarrow> OpsCodexError + unit \<Rightarrow> ('w, unit) aop" where
  "closing R t u lease now result = sbind (now_of R) (\<lambda>later.
     sbind (signore (on_store (upsert_turn (turn_record u t (final_status result) None None now later)))) (\<lambda>_.
     sbind (signore (on_store (release_lease (ls_lease_id lease) (ls_fencing_token lease)))) (\<lambda>_. alift result)))"

lemma claimed_turn_started:
  assumes "take_lease R u t s = (Inr lease, s1)" and "tbl_get tr_id t (db_threads (dbof s)) \<noteq> None"
  obtains now s2 where "claimed_turn R t u input s =
      sbind (attempt (run_turn_inner R t u (Fresh input) lease)) (closing R t u lease now) s2"
    and "dbof s2 = snd (upsert_turn (turn_record u t TurnStatus.Running (Some (ls_lease_id lease)) None now now) (dbof s1))"
    and "db_threads (dbof s2) = db_threads (dbof s)" and "db_events (dbof s2) = db_events (dbof s1)"
    and "db_leases (dbof s2) = db_leases (dbof s1)"
    and "db_turns (dbof s2) = tbl_upsert ur_id merge_turn (turn_row_of
      (turn_record u t TurnStatus.Running (Some (ls_lease_id lease)) None now now)) (db_turns (dbof s1))"
proof -
  obtain now where now: "now_of R s1 = (Inr now, after_now R s1)" by (simp add: step_runs)
  let ?first = "turn_record u t TurnStatus.Running (Some (ls_lease_id lease)) None now now"
  have thread: "db_threads (dbof s1) = db_threads (dbof s)" by (rule take_lease_thread(1) [OF assms(1)])
  then obtain d where d: "upsert_turn ?first (dbof s1) = (Inr (), d)"
    "db_threads d = db_threads (dbof s1)" "db_events d = db_events (dbof s1)" "db_leases d = db_leases (dbof s1)"
    "db_turns d = tbl_upsert ur_id merge_turn (turn_row_of ?first) (db_turns (dbof s1))"
    using assms(2) by (simp add: upsert_turn_def turn_record_def Let_def)
  obtain s2 where s2: "on_store (upsert_turn ?first) (after_now R s1) = (Inr (), s2)" "dbof s2 = d"
    by (simp add: step_runs d(1))
  have "claimed_turn R t u input s =
      sbind (attempt (run_turn_inner R t u (Fresh input) lease)) (closing R t u lease now) s2"
    using assms(1) now s2(1) unfolding claimed_turn_def closing_def by (simp add: sbind_run)
  then show thesis using d s2(2) thread by (intro that [of now s2]) simp_all
qed


text \<open>
  The thread is free again after every turn that was admitted, and the number of free slots is what the
  turn left plus one, even when the turn panics. Its row and lease stay as they were when it panicked.
\<close>

lemma thread_is_released:
  assumes "ro_wait_slot R s = (WaitReady, s0)" and "t \<notin> ag_active s0"
    and "admitted_turn R t u input s = (r, s')"
  shows "t \<notin> ag_active s'"
  using assms by (auto simp: admitted_turn_def sbind_run sask_def with_slot_def with_active_def split: prod.splits)

lemma panicked_turn_stays_open:
  assumes "take_lease R u t s = (Inr lease, s1)" and "tbl_get tr_id t (db_threads (dbof s)) \<noteq> None"
    and "\<And>s2. run_turn_inner R t u (Fresh input) lease s2 = (Inl Panicked, s2)"
  obtains s' where "claimed_turn R t u input s = (Inl Panicked, s')"
    and "\<exists>tr. get_turn u (dbof s') = Some tr \<and> tu_status tr = TurnStatus.Running \<and>
      tu_active_lease_id tr = Some (ls_lease_id lease)"
    and "db_leases (dbof s') = db_leases (dbof s1)"
proof -
  from claimed_turn_started [OF assms(1,2)] obtain now s2 where s2: "claimed_turn R t u input s =
      sbind (attempt (run_turn_inner R t u (Fresh input) lease)) (closing R t u lease now) s2"
    and d: "dbof s2 = snd (upsert_turn (turn_record u t TurnStatus.Running (Some (ls_lease_id lease)) None now now) (dbof s1))"
    and leases: "db_leases (dbof s2) = db_leases (dbof s1)"
    and turns: "db_turns (dbof s2) = tbl_upsert ur_id merge_turn (turn_row_of
      (turn_record u t TurnStatus.Running (Some (ls_lease_id lease)) None now now)) (db_turns (dbof s1))" by metis
  let ?first = "turn_record u t TurnStatus.Running (Some (ls_lease_id lease)) None now now"
  obtain tr where tr: "get_turn u (dbof s2) = Some tr"
    using turns.get_upsert_same [of "turn_row_of ?first" "db_turns (dbof s1)"]
    by (auto simp: get_turn_def turns turn_row_of_def turn_record_def)
  then have "get_turn (tu_id ?first) (snd (upsert_turn ?first (dbof s1))) = Some tr" using d by (simp add: turn_record_def)
  from upsert_turn_get [OF this] have "tu_status tr = TurnStatus.Running" "tu_active_lease_id tr = Some (ls_lease_id lease)"
    by (simp_all add: turn_record_def)
  moreover have "claimed_turn R t u input s = (Inl Panicked, s2)"
    using s2 assms(3) [of s2] by (simp add: sbind_run attempt_def)
  ultimately show thesis using tr leases by (intro that [of s2]) simp_all
qed

section \<open>Refusals\<close>

lemma check_turn_input_ok:
  "check_turn_input R input = Inr () \<longleftrightarrow>
     (\<forall>c. ti_incident_context input = Some c \<longrightarrow> incident_validate (ro_ext R) (ro_codec R) c = Inr ()) \<and>
     length (ti_content input) \<le> min MAX_TURN_INPUT_BYTES (cb_max_bytes (rc_context (ro_config R)))"
  by (auto simp: check_turn_input_def Let_def and_then_Inr_iff split: option.splits)

lemma emit_store_frame:
  "db_turns (dbof (snd (emit R t u c ev s))) = db_turns (dbof s)"
  "db_leases (dbof (snd (emit R t u c ev s))) = db_leases (dbof s)"
  "db_checkpoints (dbof (snd (emit R t u c ev s))) = db_checkpoints (dbof s)"
  "ag_active (snd (emit R t u c ev s)) = ag_active s"
  by (auto simp: emit_def sbind_run step_runs append_event_frame split: prod.split sum.split)
     (auto simp: with_db_def after_now_def after_id_def)

text \<open>
  A refused turn changes nothing. Input that is not valid is answered with its error and leaves the
  whole state as it was; input is valid exactly when its incident context is and its text fits both
  limits. A turn for a thread that is busy is refused without touching turns, leases or checkpoints.
\<close>

theorem refused_turn_changes_nothing:
  "(\<forall>err. check_turn_input R input = Inl err \<longrightarrow> run_turn R t u input s = (Inl (Returned err), s)) \<and>
   (is_ok (check_turn_input R input) \<longleftrightarrow>
     (\<forall>c. ti_incident_context input = Some c \<longrightarrow> incident_validate (ro_ext R) (ro_codec R) c = Inr ()) \<and>
     length (ti_content input) \<le> min MAX_TURN_INPUT_BYTES (cb_max_bytes (rc_context (ro_config R)))) \<and>
   (let (ended, s0) = ro_wait_slot R (counted (\<lambda>m. m\<lparr>m_turns_started := inc (m_turns_started m)\<rparr>) s);
        (r, s') = run_turn R t u input s
    in is_ok (check_turn_input R input) \<and> ended = WaitReady \<and> t \<in> ag_active s0 \<longrightarrow>
       r = Inl (Returned OpsCodexError.TurnAlreadyRunning) \<and> db_turns (dbof s') = db_turns (dbof s0) \<and>
       db_leases (dbof s') = db_leases (dbof s0) \<and> db_checkpoints (dbof s') = db_checkpoints (dbof s0) \<and>
       ag_active s' = ag_active s0)"
proof (intro conjI)
  show "\<forall>err. check_turn_input R input = Inl err \<longrightarrow> run_turn R t u input s = (Inl (Returned err), s)"
    by (simp add: run_turn_def arefuse_def sbind_run sfail_def)
  show "is_ok (check_turn_input R input) \<longleftrightarrow>
     (\<forall>c. ti_incident_context input = Some c \<longrightarrow> incident_validate (ro_ext R) (ro_codec R) c = Inr ()) \<and>
     length (ti_content input) \<le> min MAX_TURN_INPUT_BYTES (cb_max_bytes (rc_context (ro_config R)))"
    using check_turn_input_ok by (simp add: is_ok_iff)
qed (cases "ro_wait_slot R (counted (\<lambda>m. m\<lparr>m_turns_started := inc (m_turns_started m)\<rparr>) s)",
     auto simp: run_turn_def is_ok_iff sbind_run sm_run step_runs admitted_turn_def sask_def with_slot_def with_active_def
       attempt_def report_end_def signore_run arefuse_def emit_store_frame split: prod.split)

section \<open>A lost lease\<close>

definition holds_lease :: "Lease \<Rightarrow> db \<Rightarrow> bool" where
  "holds_lease lease d \<longleftrightarrow>
     (\<exists>l \<in> set (db_leases d). ls_lease_id l = ls_lease_id lease \<and> ls_fencing_token l = ls_fencing_token lease)"

lemma lost_lease_checkpoint:
  assumes "\<not> holds_lease (tc_lease ctx) (dbof s)"
  shows "checkpoint_of R ctx phase policy pending s =
    (Inl (Returned (OpsCodexError.Storage ''lease fencing token mismatch'')), after_now R s)"
proof -
  have "filter (\<lambda>r. ls_lease_id r = ls_lease_id (tc_lease ctx) \<and> ls_fencing_token r = ls_fencing_token (tc_lease ctx))
      (db_leases (dbof s)) = []"
    using assms by (auto simp: holds_lease_def filter_empty_conv)
  moreover have "with_db (\<lambda>_. dbof s) (after_now R s) = after_now R s"
    using with_db_same [of "after_now R s"] by simp
  ultimately show ?thesis
    by (simp add: checkpoint_of_def write_checkpoint_def sbind_run step_runs refresh_lease_def Let_def)
qed

lemma maybe_compact_frame:
  "db_leases (dbof (snd (maybe_compact R t u s))) = db_leases (dbof s)"
  "db_checkpoints (dbof (snd (maybe_compact R t u s))) = db_checkpoints (dbof s)"
  by (auto simp: maybe_compact_def reads_result_def sbind_run step_runs alift_def slift_def sret_def signore_run
      emit_store_frame split: option.split sum.splits prod.splits)

lemma maybe_compact_returns: "\<exists>r. fst (maybe_compact R t u s) = map_sum Returned id (r :: unit result)"
proof (cases "events_after (ro_ext R) t 0 (dbof s)")
  case (Inl err)
  then show ?thesis
    by (intro exI [of _ "Inl err"]) (simp add: maybe_compact_def reads_result_def sbind_run step_runs arefuse_def sfail_def)
next
  case (Inr history)
  then show ?thesis
    by (intro exI [of _ "Inr ()"]) (simp add: maybe_compact_def reads_result_def sbind_run step_runs sret_def signore_run
        split: option.split)
qed


section \<open>A small runtime\<close>

definition quiet_fs :: "demo_world fs" where
  "quiet_fs = \<lparr>fs_create_dir_all = (\<lambda>_ w. (Inr (), w)), fs_exists = (\<lambda>_ _. False),
     fs_write = (\<lambda>_ _ w. (Inr (), w)), fs_read = (\<lambda>_ _. Inl FileNotFound)\<rparr>"

definition demo_runtime :: "demo_world runtime" where
  "demo_runtime = \<lparr>ro_ext = demo_ext, ro_io = demo_io, ro_codec = demo_codec, ro_fs = quiet_fs,
     ro_decode_diagnosis = (\<lambda>_. None), ro_report_text = (\<lambda>_. ''report''), ro_report_parse = (\<lambda>_. Inl ''unreadable''),
     ro_config = default_runtime_config 1000, ro_system_instructions = ''diagnose'', ro_tools = empty_registry,
     ro_workspace_tools = [], ro_workspace_skills = [], ro_skill_budget_bytes = 4096, ro_owner_id = ''me'',
     ro_wait_slot = (\<lambda>s. (WaitReady, s)),
     ro_model = (\<lambda>_ s. (([], ModelDone (Inr \<lparr>mr_outputs = [Message ''hello''], mr_response_id = None, mr_usage = (0, 0, 0)\<rparr>)), s)),
     ro_wait_approval = (\<lambda>_ s. (WaitElapsed, s)),
     ro_execute = (\<lambda>_ s. (ToolCancelled, s))\<rparr>"

definition demo_agent :: "db \<Rightarrow> uuid set \<Rightarrow> demo_world agent" where
  "demo_agent d busy = \<lparr>ag_sys = demo_sys d False, ag_broker = \<lparr>br_pending = [], br_channels = []\<rparr>,
     ag_artifacts = memory_store (demo_world0 []), ag_active = busy, ag_slots = 4, ag_metrics = new_metrics, ag_bus = []\<rparr>"

section \<open>Properties of the launch\<close>


definition guarded_execute :: "ToolLaunch \<Rightarrow> demo_world agent \<Rightarrow> ToolEnd \<times> demo_world agent" where
  "guarded_execute l s = (if db_checkpoints (dbof s) = [] then (ToolTimedOut, s) else (ToolCancelled, s))"


lemma sample_thread_workspace:
  assumes "get_thread E 9 d = Inr thread" and "db_threads d = db_threads sample_db" and "db_events d = db_events sample_db"
  shows "th_workspace_id thread = ''prod''"
proof -
  have "load_events E 9 0 d = load_events E 9 0 sample_db"
    using assms(2,3) by (simp add: load_events_def)
  then have "load_events E 9 0 d = Inr sample_log" by (simp add: sample_db_load)
  with assms(1) show ?thesis
    by (auto simp: get_thread_def and_then_Inr_iff reconstruct_thread_def sample_log_def split: prod.splits)
qed

definition demo_strict :: "demo_world runtime" where
  "demo_strict = demo_runtime\<lparr>ro_workspace_tools := [(''lab'', empty_registry)]\<rparr>"

lemma demo_strict_simps [simp]: "ro_ext demo_strict = demo_ext" "ro_workspace_tools demo_strict = [(''lab'', empty_registry)]"
  by (simp_all add: demo_strict_def demo_runtime_def)

lemma strict_run_returns:
  assumes "db_threads (dbof s) = db_threads sample_db" and "db_events (dbof s) = db_events sample_db"
  shows "fst (run_turn_inner demo_strict 9 u start lease s) \<noteq> Inl Panicked"
proof (cases "get_thread demo_ext 9 (dbof s)")
  case (Inr thread)
  from sample_thread_workspace [OF Inr assms] have "tools_for demo_strict (th_workspace_id thread) =
      Inl (OpsCodexError.Policy ''workspace `prod` is not configured'')"
    by (simp add: tools_for_def)
  then show ?thesis
    by (auto simp: run_turn_inner_def reads_result_def sbind_run step_runs Inr sm_run arefuse_def Let_def
        alift_def split: sum.split)
qed (simp add: run_turn_inner_def reads_result_def sbind_run step_runs arefuse_def sm_run)


theorem refused_turn_changes_nothing_witness:
  "run_turn demo_runtime 9 1 \<lparr>ti_content = replicate 32769 CHR ''x'', ti_incident_context = None\<rparr> (demo_agent sample_db {}) =
     (Inl (Returned (OpsCodexError.Protocol ''turn input exceeds 32768 bytes; shorten the prompt'')), demo_agent sample_db {})"
proof -
  have "check_turn_input demo_runtime \<lparr>ti_content = replicate 32769 CHR ''x'', ti_incident_context = None\<rparr> =
      Inl (OpsCodexError.Protocol ''turn input exceeds 32768 bytes; shorten the prompt'')"
    by (simp add: check_turn_input_def Let_def MAX_TURN_INPUT_BYTES_def show_nat.simps) code_simp
  with refused_turn_changes_nothing [of demo_runtime "\<lparr>ti_content = replicate 32769 CHR ''x'', ti_incident_context = None\<rparr>"]
  show ?thesis by blast
qed


end
