(* ===== verification/AgentRecovery.thy ===== *)
theory AgentRecovery
  imports AgentSafety
begin

text \<open>
  Approvals decided from outside a turn, and what is left after a restart: an approval is decided once,
  and after recovery no open turn is marked as running or holds a lease.
\<close>

section \<open>Deciding an approval\<close>

definition is_late :: "time \<Rightarrow> DurableApproval \<Rightarrow> bool" where
  "is_late now a \<longleftrightarrow> (case da_expires_at a of None \<Rightarrow> False | Some expires \<Rightarrow> expires \<le> now)"

definition clock :: "'w runtime \<Rightarrow> 'w agent \<Rightarrow> time" where
  "clock R s = fst (io_now (ro_io R) (sys_world (ag_sys s)))"

definition decided :: "time \<Rightarrow> bool \<Rightarrow> DurableApproval \<Rightarrow> DurableApproval" where
  "decided now approved a = a\<lparr>da_status :=
     (if is_late now a then ApprovalStatus.Expired
      else if approved then ApprovalStatus.Approved else ApprovalStatus.Rejected)\<rparr>"

lemma expires_now_run: "\<exists>s1. expires_now R a s = (Inr (is_late (clock R s) a), s1) \<and> dbof s1 = dbof s"
  by (auto simp: expires_now_def is_late_def clock_def sbind_run step_runs sm_run split: option.split)

lemma resolve_settled:
  "get_approval aid (dbof s) = Some a \<Longrightarrow> da_status a \<noteq> ApprovalStatus.Pending \<Longrightarrow>
     \<exists>msg. resolve_approval R aid v s = (Inl (Returned (OpsCodexError.Policy msg)), s)"
  by (auto simp: resolve_approval_def Let_def sbind_run step_runs sm_run arefuse_def)

lemma resolve_pending:
  assumes "get_approval aid (dbof s) = Some a" and "da_status a = ApprovalStatus.Pending"
  shows "dbof (snd (resolve_approval R aid v s)) = snd (put_approval (decided (clock R s) v a) (dbof s))"
proof -
  obtain s1 where s1: "expires_now R a s = (Inr (is_late (clock R s) a), s1)" "dbof s1 = dbof s"
    using expires_now_run [of R a s] by blast
  have put: "fst (put_approval b d) = Inr ()" for b d by (simp add: put_approval_def sm_run)
  show ?thesis
    using assms s1 unfolding resolve_approval_def Let_def
    by (auto simp: sbind_run step_runs sm_run arefuse_def put decided_def attempt_def
        split: prod.split sum.split stop.split OpsCodexError.split)
qed

text \<open>
  C3: an approval is decided once. A decision on a stored request that is still pending moves it to
  approved or rejected as asked, or to expired when its time has passed, and changes no other request;
  from then on every further decision is refused without any change. A request that was settled before
  is refused in the same way.
\<close>

theorem approval_is_decided_once:
  assumes "get_approval aid (dbof s) = Some a" and "da_approval_id a = aid"
  shows "let s' = snd (resolve_approval R aid v s)
    in (if da_status a = ApprovalStatus.Pending
        then get_approval aid (dbof s') = Some (decided (clock R s) v a) else s' = s) \<and>
       (\<forall>other. other \<noteq> aid \<longrightarrow> get_approval other (dbof s') = get_approval other (dbof s)) \<and>
       (\<forall>w. \<exists>msg. resolve_approval R aid w s' = (Inl (Returned (OpsCodexError.Policy msg)), s'))"
proof (cases "da_status a = ApprovalStatus.Pending")
  case True
  let ?a = "decided (clock R s) v a"
  have id: "da_approval_id ?a = aid" using assms(2) by (simp add: decided_def)
  note db = resolve_pending [OF assms(1) True, of R v]
  have now: "get_approval aid (dbof (snd (resolve_approval R aid v s))) = Some ?a"
    using get_put_approval(1) [of ?a "dbof s"] by (simp add: db id)
  moreover have "get_approval other (dbof (snd (resolve_approval R aid v s))) = get_approval other (dbof s)"
    if "other \<noteq> aid" for other
    using get_put_approval(2) [of other ?a "dbof s"] that by (simp add: db id)
  moreover have "da_status ?a \<noteq> ApprovalStatus.Pending" by (simp add: decided_def)
  ultimately show ?thesis using True resolve_settled [OF now] by (auto simp: Let_def)
next
  case False
  from resolve_settled [OF assms(1) False] have "snd (resolve_approval R aid v s) = s" by (metis snd_conv)
  with False resolve_settled [OF assms(1) False] show ?thesis by (simp add: Let_def)
qed

definition pending_request :: DurableApproval where
  "pending_request = \<lparr>da_approval_id = 7, da_thread_id = Some 9, da_turn_id = Some 1, da_tool = ''exec'',
     da_arguments = JNull, da_request_hash = ''h'', da_schema_hash = Some ''s'', da_status = ApprovalStatus.Pending,
     da_expires_at = None\<rparr>"

theorem approval_is_decided_once_witness:
  "get_approval 7 (dbof (snd (resolve_approval demo_runtime 7 True
     (demo_agent (snd (put_approval pending_request sample_db)) {})))) =
   Some (pending_request\<lparr>da_status := ApprovalStatus.Approved\<rparr>)"
proof -
  let ?s = "demo_agent (snd (put_approval pending_request sample_db)) {}"
  have "get_approval 7 (dbof ?s) = Some pending_request"
    using get_put_approval(1) [of pending_request sample_db]
    by (simp add: dbof_def demo_agent_def demo_sys_def) (simp add: pending_request_def)
  from approval_is_decided_once [OF this, of demo_runtime True] show ?thesis
    by (simp add: Let_def pending_request_def decided_def is_late_def)
qed

section \<open>Recovery at start-up\<close>

definition same_turns :: "'w sys \<Rightarrow> 'w sys \<Rightarrow> bool" where
  "same_turns s s' \<longleftrightarrow> db_turns (sys_db s') = db_turns (sys_db s) \<and> db_leases (sys_db s') = db_leases (sys_db s)"

interpretation same_turns: guarantee same_turns
  by unfold_locales (auto simp: same_turns_def)

lemma on_db_turns:
  "(\<And>d. db_turns (snd (m d)) = db_turns d \<and> db_leases (snd (m d)) = db_leases d) \<Longrightarrow> always same_turns (on_db m)"
  by (simp add: always_def on_db_def same_turns_def split: prod.split) (metis snd_conv)

lemma on_world_turns: "always same_turns (on_world m)"
  by (rule alwaysI) (simp add: on_world_def same_turns_def split: prod.splits)

lemma emit_action_turns: "always same_turns (emit_action E I t a)"
  unfolding emit_action_def store_append_def utc_now_def fresh_uuid_def
  by (auto intro!: same_turns.always_bind on_world_turns on_db_turns simp: append_event_frame)

lemma put_turns: "always same_turns (on_db (put_action a))" "always same_turns (on_db (put_approval p))"
  by (auto intro!: on_db_turns simp: put_action_def put_approval_def sm_run)

lemma recover_actions_turns: "always same_turns (recover_actions E I now as)"
proof (induction as)
  case (Cons a as)
  show ?case
  proof (cases "recovered_status now a")
    case (Some st)
    show ?thesis
      unfolding recover_actions.simps Some option.case Let_def
      by (intro same_turns.always_bind same_turns.always_base same_turns.always_signore emit_action_turns put_turns Cons.IH)
  qed (simp add: Cons.IH)
qed (simp add: same_turns.always_base)

lemma expire_approvals_turns: "always same_turns (expire_approvals now ps)"
  by (induction ps) (auto intro!: same_turns.always_bind same_turns.always_base put_turns)

lemma recover_pending_turns: "always same_turns (recover_pending E I)"
  unfolding recover_pending_def utc_now_def
  by (intro same_turns.always_bind same_turns.always_base on_world_turns expire_approvals_turns recover_actions_turns)

text \<open>The rows of turns whose recovery has been written, or that were over before.\<close>

definition settled_row :: "turn_row \<Rightarrow> bool" where
  "settled_row r \<longleftrightarrow> ur_status r \<in> {''completed'', ''failed'', ''cancelled''} \<or>
     ur_active_lease_id r = None \<and> ur_status r \<in> {''interrupted'', ''needs_reconciliation'', ''waiting_approval''}"

definition settled_but :: "uuid set \<Rightarrow> db \<Rightarrow> bool" where
  "settled_but U d \<longleftrightarrow> (\<forall>r \<in> set (db_turns d). settled_row r \<or> ur_id r \<in> U)"

lemma upsert_settles:
  assumes "settled_but (insert u U) d" and "upsert_turn (turn_record u t st None c x y) d = (Inr (), d')"
    and "st \<noteq> TurnStatus.Running"
  shows "settled_but U d'" and "db_leases d' = db_leases d"
proof -
  let ?r = "turn_row_of (turn_record u t st None c x y)"
  have d': "db_turns d' = tbl_upsert ur_id merge_turn ?r (db_turns d)"
    using assms(2) by (auto simp: upsert_turn_def Let_def turn_row_of_def turn_record_def split: if_splits)
  have "settled_row ?r" "\<And>old. settled_row (merge_turn old ?r)" "ur_id ?r = u"
    using assms(3) by (cases st; simp add: settled_row_def turn_row_of_def turn_record_def merge_turn_def)+
  then show "settled_but U d'"
    using assms(1) by (auto simp: settled_but_def d' tbl_upsert_def tbl_update_def split: option.split
        dest: tbl_get_NoneD)
  show "db_leases d' = db_leases d"
    using assms(2) by (auto simp: upsert_turn_def Let_def split: if_splits)
qed

lemma classify_not_running: "rr_status (classify_checkpoint c envs) \<noteq> TurnStatus.Running"
  by (cases "cp_phase c"; cases "cp_pending_operation c") (auto simp: classify_defs)

lemma reads_result_Inr: "reads_result f s = (Inr x, s') \<Longrightarrow> f (dbof s) = Inr x \<and> s' = s"
  by (cases "f (dbof s)") (auto simp: reads_result_def sbind_run step_runs sm_run arefuse_def)

lemma recover_turn_settles:
  assumes "recover_turn R turn s = (Inr reports, s')" and "settled_but (insert (tu_id turn) U) (dbof s)"
  shows "settled_but U (dbof s')"
    and "set (db_leases (dbof s')) = {l \<in> set (db_leases (dbof s)). ls_turn_id l \<noteq> tu_id turn}"
proof -
  let ?d = "snd (force_release_turn_lease (tu_id turn) (dbof s))"
  have d: "settled_but (insert (tu_id turn) U) ?d"
    "set (db_leases ?d) = {l \<in> set (db_leases (dbof s)). ls_turn_id l \<noteq> tu_id turn}"
    using assms(2) by (simp_all add: force_release_turn_lease_def sm_run settled_but_def set_tbl_delete)
  obtain s1 where s1: "signore (on_store (force_release_turn_lease (tu_id turn))) s = (Inr (), s1)" "dbof s1 = ?d"
    by (simp add: signore_run step_runs)
  have "\<exists>st c x y. st \<noteq> TurnStatus.Running \<and>
      upsert_turn (turn_record (tu_id turn) (tu_thread_id turn) st None c x y) ?d = (Inr (), dbof s')"
  proof (cases "last_checkpoint (tu_id turn) (dbof s1)")
    case None
    with assms(1) s1 have "sbind (now_of R) (\<lambda>now.
        sbind (on_store (upsert_turn (turn_record (tu_id turn) (tu_thread_id turn) TurnStatus.Interrupted None
          (tu_last_checkpoint_id turn) (tu_created_at turn) now))) (\<lambda>_. sret [])) s1 = (Inr reports, s')"
      by (simp add: recover_turn_def sbind_def [of "signore _"] sbind_def [of "reads _"] step_runs(4))
    then show ?thesis
      unfolding sbind_Inr_iff by (fastforce dest!: now_of_Inr on_store_Inr simp: s1(2) sret_def)
  next
    case (Some c)
    with assms(1) s1 have "sbind (reads_result (events_after (ro_ext R) (tu_thread_id turn) 0)) (\<lambda>envs.
        sbind (now_of R) (\<lambda>now.
        sbind (on_store (upsert_turn (turn_record (tu_id turn) (tu_thread_id turn) (rr_status (classify_checkpoint c envs))
          None (Some (cp_checkpoint_id c)) (tu_created_at turn) now))) (\<lambda>_. sret [classify_checkpoint c envs]))) s1 =
        (Inr reports, s')"
      by (simp add: recover_turn_def sbind_def [of "signore _"] sbind_def [of "reads _"] step_runs(4) Let_def)
    then show ?thesis
      unfolding sbind_Inr_iff
      by (auto dest!: reads_result_Inr now_of_Inr on_store_Inr simp: s1(2) sret_def) (metis classify_not_running)
  qed
  then obtain st c x y where st: "st \<noteq> TurnStatus.Running" and
    up: "upsert_turn (turn_record (tu_id turn) (tu_thread_id turn) st None c x y) ?d = (Inr (), dbof s')" by blast
  from upsert_settles [OF d(1) up st] d(2) show "settled_but U (dbof s')"
    "set (db_leases (dbof s')) = {l \<in> set (db_leases (dbof s)). ls_turn_id l \<noteq> tu_id turn}" by simp_all
qed

lemma recover_turns_settle:
  assumes "recover_turns R turns s = (Inr reports, s')" and "settled_but (tu_id ` set turns \<union> U) (dbof s)"
  shows "settled_but U (dbof s') \<and>
    set (db_leases (dbof s')) = {l \<in> set (db_leases (dbof s)). ls_turn_id l \<notin> tu_id ` set turns}"
  using assms
proof (induction turns arbitrary: s reports)
  case Nil
  then show ?case by (simp add: sret_def)
next
  case (Cons turn turns)
  from Cons.prems(1) obtain r1 r2 s1 where "recover_turn R turn s = (Inr r1, s1)"
    and rest: "recover_turns R turns s1 = (Inr r2, s')"
    by (auto simp: sbind_Inr_iff sret_def)
  from recover_turn_settles [OF this(1), of "tu_id ` set turns \<union> U"] Cons.prems(2)
  have "settled_but (tu_id ` set turns \<union> U) (dbof s1)"
    "set (db_leases (dbof s1)) = {l \<in> set (db_leases (dbof s)). ls_turn_id l \<noteq> tu_id turn}"
    by simp_all
  with Cons.IH [OF rest] show ?case by auto
qed

text \<open>
  C4: a restart leaves nothing running. When recovery succeeds, every turn that is not over is marked as
  interrupted, waiting for approval or to be reconciled and names no lease, and no turn that was open
  before holds a lease any more, so each of them can be resumed at once.
\<close>

theorem recovery_leaves_nothing_running:
  assumes "recover R s = (Inr reports, s')"
  shows "(\<forall>tr \<in> set (list_open_turns (dbof s')). tu_active_lease_id tr = None \<and>
      tu_status tr \<in> {TurnStatus.Interrupted, TurnStatus.NeedsReconciliation, TurnStatus.WaitingApproval}) \<and>
    (\<forall>l \<in> set (db_leases (dbof s')). \<forall>tr \<in> set (list_open_turns (dbof s)). ls_turn_id l \<noteq> tu_id tr)"
proof -
  obtain s1 where s1: "on_sys (recover_pending (ro_ext R) (ro_io R)) s = (Inr (), s1)"
    and rest: "recover_turns R (list_open_turns (dbof s1)) s1 = (Inr reports, s')"
    using assms by (auto simp: recover_def sbind_Inr_iff dest!: reads_Inr)
  from s1 have "dbof s1 = sys_db (snd (recover_pending (ro_ext R) (ro_io R) (ag_sys s)))"
    by (auto simp: on_sys_def dbof_def split: prod.splits)
  with alwaysD [OF recover_pending_turns, of "ag_sys s" "ro_ext R" "ro_io R"]
  have same: "db_turns (dbof s1) = db_turns (dbof s)" "db_leases (dbof s1) = db_leases (dbof s)"
    by (simp_all add: same_turns_def dbof_def)
  have "settled_but (tu_id ` set (list_open_turns (dbof s1)) \<union> {}) (dbof s1)"
    by (auto simp: settled_but_def settled_row_def list_open_turns_def turn_of_row_def image_image)
  from recover_turns_settle [OF rest this] have
    rows: "settled_but {} (dbof s')" and
    leases: "set (db_leases (dbof s')) = {l \<in> set (db_leases (dbof s1)). ls_turn_id l \<notin> tu_id ` set (list_open_turns (dbof s1))}"
    by simp_all
  have "list_open_turns (dbof s1) = list_open_turns (dbof s)" by (simp add: list_open_turns_def same)
  moreover have "tu_active_lease_id tr = None \<and>
      tu_status tr \<in> {TurnStatus.Interrupted, TurnStatus.NeedsReconciliation, TurnStatus.WaitingApproval}"
    if "tr \<in> set (list_open_turns (dbof s'))" for tr
    using that rows
    by (auto simp: list_open_turns_def settled_but_def settled_row_def turn_of_row_def parse_turn_status_def)
  ultimately show ?thesis using leases by auto
qed

definition crashed_db :: db where
  "crashed_db = sample_db\<lparr>
     db_turns := [turn_row_of (turn_record 4 9 TurnStatus.Running (Some ''l'') None 0 0)],
     db_leases := [\<lparr>ls_lease_id = ''l'', ls_turn_id = 4, ls_thread_id = 9, ls_owner_id = ''gone'', ls_expires_at = 50,
       ls_fencing_token = 1\<rparr>]\<rparr>"

theorem recovery_leaves_nothing_running_witness:
  "\<exists>s'. recover demo_runtime (demo_agent crashed_db {}) = (Inr [], s') \<and>
     (\<forall>l \<in> set (db_leases (dbof s')). ls_turn_id l \<noteq> 4) \<and>
     (\<forall>tr \<in> set (list_open_turns (dbof s')). tu_status tr \<noteq> TurnStatus.Running)"
proof -
  let ?s = "demo_agent crashed_db {}"
  have db: "dbof ?s = crashed_db" by (simp add: dbof_def demo_agent_def demo_sys_def)
  have rows: "list_pending_approvals crashed_db = []" "list_action_recovery_candidates crashed_db = []"
    "list_open_turns crashed_db = [turn_record 4 9 TurnStatus.Running (Some ''l'') None 0 0]"
    by (simp_all add: crashed_db_def sample_db_def empty_db_def list_pending_approvals_def
        list_action_recovery_candidates_def list_open_turns_def turn_of_row_def turn_row_of_def turn_record_def
        parse_turn_status_def)
  obtain s1 where s1: "on_sys (recover_pending demo_ext demo_io) ?s = (Inr (), s1)" "dbof s1 = crashed_db"
    by (simp add: on_sys_def recover_pending_def sbind_run utc_now_def on_world_def sask_def sm_run rows dbof_def
        demo_agent_def demo_sys_def split: prod.split)
  have cps: "last_checkpoint 4 (snd (force_release_turn_lease 4 crashed_db)) = None"
    by (simp add: last_checkpoint_def force_release_turn_lease_def sm_run crashed_db_def sample_db_def empty_db_def)
  have up: "fst (upsert_turn (turn_record 4 9 TurnStatus.Interrupted None None 0 now)
      (snd (force_release_turn_lease 4 crashed_db))) = Inr ()" for now
    by (simp add: upsert_turn_def Let_def turn_record_def force_release_turn_lease_def sm_run crashed_db_def turn_row_of_def)
  obtain s' where run: "recover demo_runtime ?s = (Inr [], s')"
    by (simp add: recover_def sbind_run demo_runtime_def s1 step_runs rows recover_turn_def signore_run turn_record_def
        cps up [unfolded turn_record_def] sm_run)
  with recovery_leaves_nothing_running [OF run] show ?thesis
    by (auto simp: db rows) (auto simp: turn_record_def)
qed

section \<open>A crash while a tool runs\<close>

text \<open>The last row written for a turn is its newest when the clock went on since the others.\<close>

definition newest_last :: "uuid \<Rightarrow> db \<Rightarrow> bool" where
  "newest_last u d \<longleftrightarrow> (let c = last (db_checkpoints d) in \<forall>r \<in> set (butlast (db_checkpoints d)).
     kr_turn_id r = u \<longrightarrow> (kr_created_at r, kr_step r) < (kr_created_at c, kr_step c))"

lemma last_checkpoint_last:
  assumes "db_checkpoints d = cs @ [c]" and "kr_turn_id c = u" and "newest_last u d"
  obtains cp where "last_checkpoint u d = Some cp" and "cp_phase cp = phase_parse (kr_phase c)"
    and "cp_pending_operation cp = kr_state c" and "cp_thread_id cp = kr_thread_id c" and "cp_turn_id cp = u"
proof -
  have "\<exists>first rest. filter (\<lambda>r. kr_turn_id r = u) (db_checkpoints d) = first # rest \<and> fold latest_of rest first = c"
  proof (cases "filter (\<lambda>r. kr_turn_id r = u) cs")
    case (Cons first rest)
    have "(kr_created_at x, kr_step x) < (kr_created_at c, kr_step c)" if "x \<in> set (first # rest)" for x
      using that assms unfolding Cons [symmetric] by (auto simp: newest_last_def Let_def)
    from fold_latest_snoc [OF this] Cons assms(1,2) show ?thesis by (simp del: fold_append)
  qed (use assms in simp)
  then obtain first rest where "filter (\<lambda>r. kr_turn_id r = u) (db_checkpoints d) = first # rest" "fold latest_of rest first = c"
    by blast
  then have "\<exists>cp. last_checkpoint u d = Some cp \<and> cp_phase cp = phase_parse (kr_phase c) \<and>
      cp_pending_operation cp = kr_state c \<and> cp_thread_id cp = kr_thread_id c \<and> cp_turn_id cp = u"
    using assms(2) by (simp add: last_checkpoint_def Let_def)
  then show thesis using that by blast
qed

lemma recorded_effect: "tool_is_retryable (parse_effect (effect_as_str e)) (parse_recovery (map_option recovery_as_str r)) =
    tool_is_retryable e r"
proof (cases r)
  case (Some m)
  then show ?thesis by (cases m) (simp_all add: parse_effect_def parse_recovery_def recovery_parse_def)
qed (simp add: parse_effect_def parse_recovery_def)

lemma recovery_report_run:
  assumes "get_turn u (dbof s) = Some turn" and "last_checkpoint u (dbof s) = Some c"
    and "events_after (ro_ext R) (tu_thread_id turn) 0 (dbof s) = Inr envs"
  shows "recovery_report R u s = (Inr (classify_checkpoint c envs), s)"
  using assms by (simp add: recovery_report_def reads_result_def sbind_run step_runs sm_run)


definition exec_descriptor :: CapabilityDescriptor where
  "exec_descriptor = builtin demo_ext ''exec'' ''run'' JNull ToolRisk.Ask"

definition exec_runtime :: "demo_world runtime" where
  "exec_runtime = demo_runtime\<lparr>ro_tools := \<lparr>reg_tools =
     [''exec'' \<mapsto> \<lparr>rt_name = ''exec'', rt_descriptor = exec_descriptor\<rparr>], reg_ids = Map.empty\<rparr>\<rparr>"

definition exec_launch :: ToolLaunch where
  "exec_launch = \<lparr>tl_name = ''exec'', tl_arguments = JNull, tl_workspace = ''prod'', tl_thread = 9, tl_turn = 4,
     tl_call_id = ''c''\<rparr>"

definition exec_approval :: DurableApproval where
  "exec_approval = pending_request\<lparr>da_turn_id := Some 4, da_status := ApprovalStatus.Approved,
     da_schema_hash := Some (pv_schema_hash (cd_provenance exec_descriptor)),
     da_request_hash := approval_request_hash demo_ext ''exec'' JNull (Some (pv_schema_hash (cd_provenance exec_descriptor)))\<rparr>"

definition exec_checkpoint :: checkpoint_row where
  "exec_checkpoint = \<lparr>kr_checkpoint_id = ''c1'', kr_turn_id = 4, kr_thread_id = 9, kr_step = 0,
     kr_phase = phase_as_str CheckpointPhase.ToolRunning,
     kr_state = Some \<lparr>op_operation_id = pending_operation_id demo_ext 4 ''c'', op_call_id = ''c'', op_tool = ''exec'',
       op_arguments = JNull, op_effect = effect_as_str ExternalSideEffect, op_recovery = Some ''none_needed''\<rparr>,
     kr_input_hash = None, kr_last_committed_seq = 3, kr_resume_policy = policy_as_str Reconcile, kr_created_at = 8\<rparr>"

definition exec_events :: "EventEnvelope list" where
  "exec_events = [new_envelope 3 6 3 9 (Some 4) (RuntimeEvent.ToolAuthorized ''c'' ''exec'' ''allow''),
     new_envelope 4 7 4 9 (Some 4) (RuntimeEvent.ToolExecutionStarted ''c'' ''exec'')]"

definition launched_db :: db where
  "launched_db = sample_db\<lparr>
     db_turns := [turn_row_of (turn_record 4 9 TurnStatus.Running (Some ''l'') None 0 0)],
     db_events := map event_row_of (sample_log @ exec_events), db_checkpoints := [exec_checkpoint],
     db_approvals := [approval_row_of exec_approval]\<rparr>"

lemma exec_descriptor_simps [simp]:
  "cd_effect exec_descriptor = ExternalSideEffect" "cd_recovery exec_descriptor = Some RecoveryMode.NoneNeeded"
  "evaluate_capability exec_descriptor = PolicyDecision.Ask"
  by (simp_all add: exec_descriptor_def builtin_def evaluate_capability_def Let_def)

lemma exec_launch_ready: "launch_ready exec_runtime exec_launch (demo_agent launched_db {})"
proof -
  have db: "dbof (demo_agent launched_db {}) = launched_db" by (simp add: dbof_def demo_agent_def demo_sys_def)
  have E: "ro_ext exec_runtime = demo_ext" by (simp add: exec_runtime_def demo_runtime_def)
  have tools: "tools_for exec_runtime ''prod'' = Inr (ro_tools exec_runtime)"
    "registry_descriptor (ro_tools exec_runtime) ''exec'' = Inr exec_descriptor"
    by (simp_all add: tools_for_def exec_runtime_def demo_runtime_def registry_descriptor_def registry_tool_def)
  have evs: "db_events launched_db = (map event_row_of sample_log @ [event_row_of (exec_events ! 0)]) @ [event_row_of (exec_events ! 1)]"
    by (simp add: launched_db_def exec_events_def)
  have call: "approved_call demo_ext (pv_schema_hash (cd_provenance exec_descriptor)) exec_launch launched_db"
    unfolding approved_call_def
    by (rule exI [of _ 7], rule exI [of _ exec_approval])
       (simp add: get_approval_def launched_db_def approval_row_of_def exec_approval_def pending_request_def exec_launch_def)
  have recorded: "launch_recorded exec_runtime exec_descriptor exec_launch launched_db"
    by (simp add: launch_recorded_def launched_db_def exec_checkpoint_def exec_launch_def E tool_is_retryable_def)
  have events: "turn_event exec_launch (RuntimeEvent.ToolAuthorized ''c'' ''exec'' ''allow'') (event_row_of (exec_events ! 0))"
    "turn_event exec_launch (RuntimeEvent.ToolExecutionStarted ''c'' ''exec'') (event_row_of (exec_events ! 1))"
    unfolding turn_event_def exec_launch_def
    by (rule exI, intro conjI, rule refl, simp_all add: exec_events_def new_envelope_def with_causation_def)+
  have "launch_authorized exec_runtime exec_descriptor exec_launch
      (map event_row_of sample_log @ [event_row_of (exec_events ! 0)]) launched_db"
    using events(1) call by (simp add: launch_authorized_def E exec_launch_def)
  with tools evs recorded events(2) show ?thesis
    unfolding launch_ready_def db by (auto simp: exec_launch_def)
qed


section \<open>Where the code departs from its intent\<close>

text \<open>
  The log of the whole thread is searched for results, so a call identifier that an earlier turn already
  used hides that the outcome of a change is unknown.
\<close>

lemma reused_call_id_hides_unknown_outcome:
  "rr_resume_policy (classify_checkpoint
     \<lparr>cp_checkpoint_id = ''c'', cp_turn_id = 2, cp_thread_id = 9, cp_step = 0, cp_phase = CheckpointPhase.ToolRunning,
      cp_context_input_hash = None,
      cp_pending_operation = Some \<lparr>op_operation_id = ''o'', op_call_id = ''k'', op_tool = ''exec'', op_arguments = JNull,
        op_effect = effect_as_str ExternalSideEffect, op_recovery = None\<rparr>,
      cp_last_committed_seq = 5, cp_resume_policy = Reconcile, cp_created_at = 0\<rparr>
     [new_envelope 1 0 1 9 (Some 1) (RuntimeEvent.ToolCompleted ''k'' ''exec'' JNull (new_evidence 0 ''exec'') True),
      new_envelope 2 0 2 9 (Some 2) (RuntimeEvent.ToolExecutionStarted ''k'' ''exec'')]) = SkipCompletedTool"
  by (simp add: classify_defs completed_tools_def new_envelope_def with_causation_def)

text \<open>
  The events of a compaction are counted from the start of the log, covered ones included, so after a
  first compaction items are dropped without being compacted.
\<close>

definition compacted_history :: "EventEnvelope list" where
  "compacted_history =
     [new_envelope 1 0 1 9 None (UserMessage ''a'' None), new_envelope 2 0 2 9 None (UserMessage ''b'' None),
      new_envelope 3 0 3 9 None (ContextCompacted ''s'' 1 2 [] [] [] None None None ''ab''),
      new_envelope 4 0 4 9 None (UserMessage ''c'' None), new_envelope 5 0 5 9 None (UserMessage ''d'' None)]"

definition two_items :: ContextBudget where
  "two_items = \<lparr>cb_max_items = 2, cb_max_tokens = 99, cb_max_bytes = 99, cb_max_evidence = 9, cb_max_tool_calls = 9,
     cb_max_cost_micros = 0\<rparr>"

lemma dropped_items_are_not_compacted:
  "length (build_model_context demo_ext (model_items_from_events demo_ext compacted_history) two_items) = 2 \<and>
   length (model_items_from_events demo_ext compacted_history) = 3 \<and>
   compaction_event demo_ext two_items compacted_history ''t'' = None"
  by code_simp

end
