(* ===== verification/AgentBounds.thy ===== *)
theory AgentBounds
  imports AgentSafety
begin

text \<open>
  How often a turn asks the model: at most as often as the configured number of steps, whatever the model
  answers and however often the tools fail.
\<close>

section \<open>Operations that do not ask the model\<close>

definition asked :: "('w \<Rightarrow> nat) \<Rightarrow> 'w agent \<Rightarrow> nat" where
  "asked g s = g (sys_world (ag_sys s))"

text \<open>A count of the model calls, kept by the world: only the model raises it, by at most one per call.\<close>

definition model_counter :: "'w runtime \<Rightarrow> ('w \<Rightarrow> nat) \<Rightarrow> bool" where
  "model_counter R g \<longleftrightarrow>
     (\<forall>w. g (snd (io_now (ro_io R) w)) = g w) \<and> (\<forall>w. g (snd (io_uuid (ro_io R) w)) = g w) \<and>
     (\<forall>rq s. asked g (snd (ro_model R rq s)) \<le> Suc (asked g s)) \<and>
     (\<forall>ch s. asked g (snd (ro_wait_approval R ch s)) = asked g s) \<and>
     (\<forall>l s. asked g (snd (ro_execute R l s)) = asked g s) \<and>
     (\<forall>s. asked g (snd (ro_wait_slot R s)) = asked g s)"

definition silent :: "('w \<Rightarrow> nat) \<Rightarrow> 'w agent \<Rightarrow> 'w agent \<Rightarrow> bool" where
  "silent g s t \<longleftrightarrow> asked g t = asked g s"

interpretation silent: guarantee "silent g" for g
  by unfold_locales (auto simp: silent_def)

lemma asked_simps [simp]:
  "asked g (with_db h s) = asked g s" "asked g (counted k s) = asked g s"
  "asked g (s\<lparr>ag_broker := b\<rparr>) = asked g s" "asked g (s\<lparr>ag_artifacts := a\<rparr>) = asked g s"
  "asked g (s\<lparr>ag_metrics := m\<rparr>) = asked g s" "asked g (s\<lparr>ag_bus := es\<rparr>) = asked g s"
  "asked g (s\<lparr>ag_slots := n\<rparr>) = asked g s" "asked g (s\<lparr>ag_active := ts\<rparr>) = asked g s"
  by (simp_all add: asked_def with_db_def counted_def)

lemma silent_steps:
  "model_counter R g \<Longrightarrow> always (silent g) (now_of R)" "model_counter R g \<Longrightarrow> always (silent g) (new_id R)"
  "always (silent g) (on_store m)" "always (silent g) (reads k)" "always (silent g) (count h)"
  "always (silent g) (on_broker b)" "always (silent g) (on_artifacts p)" "always (silent g) (arefuse err)"
  "always (silent g) (alift r)" "always (silent g) (unless_panic x)" "always (silent g) (drop_wait ch)"
  "always (silent g) (channel_of ch)"
  by (auto simp: always_def silent_def step_runs model_counter_def on_broker_def on_artifacts_def arefuse_def alift_def
      unless_panic_def drop_wait_def channel_of_def sm_run split: prod.split)
     (simp_all add: asked_def after_now_def after_id_def)

lemma silent_waits:
  assumes "model_counter R g"
  shows "always (silent g) (wait_approval R ch)" "always (silent g) (sask (ro_execute R l))"
    "always (silent g) (sask (ro_wait_slot R))"
  using assms by (auto simp: always_def silent_def model_counter_def wait_approval_def sask_def split: prod.split)

lemma always_cases:
  "(\<And>a. r = Inl a \<Longrightarrow> always S (f a)) \<Longrightarrow> (\<And>b. r = Inr b \<Longrightarrow> always S (h b)) \<Longrightarrow>
     always S (case r of Inl a \<Rightarrow> f a | Inr b \<Rightarrow> h b)"
  "(x = None \<Longrightarrow> always S m) \<Longrightarrow> (\<And>y. x = Some y \<Longrightarrow> always S (k y)) \<Longrightarrow>
     always S (case x of None \<Rightarrow> m | Some y \<Rightarrow> k y)"
  "(\<And>a b. p = (a, b) \<Longrightarrow> always S (q a b)) \<Longrightarrow> always S (case p of (a, b) \<Rightarrow> q a b)"
  by (auto split: sum.split option.split prod.split)

lemmas silent_intros = silent.always_bind silent.always_base silent.always_if silent.always_signore always_cases

lemma silent_emit:
  assumes "model_counter R g"
  shows "always (silent g) (emit R t u c ev)" "always (silent g) (emit_id R ctx c ev)"
proof -
  have "always (silent g) (sbind (new_id R) (\<lambda>i. sbind (now_of R) (\<lambda>now. on_store (append_event (ro_ext R) i now cmd))))" for cmd
    by (intro silent_intros silent_steps assms)
  then show e: "always (silent g) (emit R t u c ev)" for t u c
    by (auto simp: always_def emit_def silent_def split: prod.split sum.split) (metis snd_conv)+
  show "always (silent g) (emit_id R ctx c ev)"
    unfolding emit_id_def by (intro silent_intros e)
qed

lemma silent_checkpoint:
  "model_counter R g \<Longrightarrow> always (silent g) (write_checkpoint R t u n ph po pe l)"
  "model_counter R g \<Longrightarrow> always (silent g) (checkpoint_of R ctx ph po pe)"
  unfolding checkpoint_of_def write_checkpoint_def by (intro silent_intros silent_steps; assumption)+

lemmas silent_parts = silent_steps silent_waits silent_emit silent_checkpoint

lemma silent_result:
  assumes "model_counter R g"
  shows "always (silent g) (success_result R ctx n j m)" "always (silent g) (emit_tool_result R ctx c i n out ok)"
    "always (silent g) (emit_tool_error R ctx c i n a err)" "always (silent g) (refuse_tool R ctx c i n a err)"
proof -
  show s: "always (silent g) (success_result R ctx n j m)" for n j m
    unfolding success_result_def Let_def by (intro silent_intros silent_parts assms)
  show r: "always (silent g) (emit_tool_result R ctx c i n out ok)" for c n out ok
    unfolding emit_tool_result_def by (intro silent_intros silent_parts s assms)
  show e: "always (silent g) (emit_tool_error R ctx c i n a err)" for err
    unfolding emit_tool_error_def by (intro silent_intros silent_parts r assms)
  show "always (silent g) (refuse_tool R ctx c i n a err)"
    unfolding refuse_tool_def by (intro silent_intros e)
qed

lemma silent_holding: "always (silent g) m \<Longrightarrow> always (silent g) (holding ch m)"
  by (auto simp: always_def silent_def holding_def drop_wait_def sm_run split: prod.split sum.split) (metis snd_conv)+

lemma silent_ask:
  assumes "model_counter R g"
  shows "always (silent g) (ask_approval R ctx c i n a d)"
proof -
  have announce: "always (silent g) (announce_approval R ctx c i aid n a d)" for aid
    unfolding announce_approval_def Let_def by (intro silent_intros silent_parts assms)
  have answer: "always (silent g) (approval_answer R ctx aid ch rq)" for aid ch rq
  proof -
    have "always (silent g) (case w of
         WaitCancelled \<Rightarrow> sbind (drop_wait ch) (\<lambda>_. arefuse OpsCodexError.Cancelled)
       | WaitElapsed \<Rightarrow> sbind (drop_wait ch) (\<lambda>_. sbind (reads (get_approval aid)) (\<lambda>found.
             let expired = (case found of Some a \<Rightarrow> a | None \<Rightarrow> rq\<lparr>da_request_hash := []\<rparr>)
             in sbind (signore (on_store (put_approval (expired\<lparr>da_status := ApprovalStatus.Expired\<rparr>)))) (\<lambda>_. sret False)))
       | WaitReady \<Rightarrow> sbind (channel_of ch) (\<lambda>c. case c of Delivered v \<Rightarrow> sret v
             | _ \<Rightarrow> arefuse (OpsCodexError.Policy ''approval channel closed'')))" for w
      unfolding Let_def
      by (cases w; simp; intro silent_intros silent_parts assms)
         (auto split: Channel.split intro!: silent_intros silent_parts assms)
    then show ?thesis unfolding approval_answer_def by (intro silent_intros silent_parts assms)
  qed
  have noted: "always (silent g) (record_answer aid b)" for aid b
    unfolding record_answer_def by (intro silent_intros silent_parts assms)
  show ?thesis
    unfolding ask_approval_def Let_def
    by (intro silent_intros silent_parts silent_result silent_holding announce answer noted assms)
qed

lemma silent_execute:
  assumes "model_counter R g"
  shows "always (silent g) (execute_tool R ctx i n a already)"
proof -
  have authorize: "always (silent g) (authorize_tool R ctx c i n a d)" for c d
    unfolding authorize_tool_def
    by (cases "evaluate_capability d"; simp; intro silent_intros silent_parts silent_result silent_ask assms)
  have finish: "always (silent g) (finish_tool R ctx c i n a e)" for c e
    unfolding finish_tool_def Let_def
    by (auto split: ToolEnd.split sum.split intro!: silent_intros silent_parts silent_result assms)
  have run: "always (silent g) (run_tool R ctx c i n a d)" for c d
    unfolding run_tool_def Let_def by (intro silent_intros silent_parts finish assms)
  have gate: "always (silent g) (case gate of Finished i \<Rightarrow> sret i | Proceed c \<Rightarrow> run_tool R ctx c i n a d)" for gate d
    by (cases gate) (simp_all add: silent.always_base run)
  show ?thesis
    unfolding execute_tool_def by (intro silent_intros silent_parts silent_result authorize gate assms)
qed

section \<open>Counting the calls of a turn\<close>

definition calls :: "('w \<Rightarrow> nat) \<Rightarrow> nat \<Rightarrow> ('w, 'a) aop \<Rightarrow> bool" where
  "calls g k m \<longleftrightarrow> (\<forall>s. asked g (snd (m s)) \<le> asked g s + k)"

lemma calls_silent: "always (silent g) m \<Longrightarrow> calls g k m"
  by (simp add: calls_def always_def silent_def)

lemma calls_bind: "calls g j m \<Longrightarrow> (\<And>x. calls g k (f x)) \<Longrightarrow> calls g (j + k) (sbind m f)"
  by (auto simp: calls_def sbind_def split: prod.split sum.split) (metis add.assoc add_le_mono1 le_trans snd_conv trans_le_add1)+

lemma calls_first: "calls g k m \<Longrightarrow> (\<And>x. always (silent g) (f x)) \<Longrightarrow> calls g k (sbind m f)"
  using calls_bind [of g k m 0 f] calls_silent by fastforce

lemma calls_then: "always (silent g) m \<Longrightarrow> (\<And>x. calls g k (f x)) \<Longrightarrow> calls g k (sbind m f)"
  using calls_bind [of g 0 m k f] calls_silent by fastforce

lemma silent_reads_result: "always (silent g) (reads_result q)"
  unfolding reads_result_def by (intro silent_intros silent_parts)

lemma silent_model_parts:
  assumes "model_counter R g"
  shows "always (silent g) (maybe_compact R t u)"
    "always (silent g) (emit_deltas R ctx ds i)" "always (silent g) (handle_message R ctx b c i)"
    "always (silent g) (handle_outputs R ctx b outs i called)"
proof -
  show "always (silent g) (maybe_compact R t u)"
    unfolding maybe_compact_def by (intro silent_intros silent_parts silent_reads_result assms)
  show "always (silent g) (emit_deltas R ctx ds i)"
    by (induction ds arbitrary: i) (auto intro!: silent_intros silent_parts assms)
  have claims: "g (snd (claims_from (io_uuid (ro_io R)) cs w)) = g w" for cs w
  proof (induction cs arbitrary: w)
    case (Cons c cs)
    then show ?case
      using assms by (auto simp: Let_def model_counter_def split: prod.split option.split) (metis snd_conv)+
  qed simp
  have "always (silent g) (on_sys (on_world (sask (parse_diagnosis D (io_uuid (ro_io R)) c))))" for D c
    using claims by (auto simp: always_def silent_def asked_def on_sys_def on_world_def sask_def parse_diagnosis_def
        parse_json_diagnosis_def split: prod.split option.split) (metis snd_conv)
  then show m: "always (silent g) (handle_message R ctx b c i)" for b c i
    unfolding handle_message_def by (intro silent_intros silent_parts silent_reads_result assms)
  show "always (silent g) (handle_outputs R ctx b outs i called)"
  proof (induction outs arbitrary: i called)
    case (Cons out outs)
    then show ?case by (cases out) (auto intro!: silent_intros m silent_execute assms)
  qed (simp add: silent.always_base)
qed

lemma calls_complete_model: "model_counter R g \<Longrightarrow> calls g 1 (complete_model R ctx c rq)"
proof -
  assume R: "model_counter R g"
  have "always (silent g) (sbind (emit_deltas R ctx deltas c) (\<lambda>last_id.
       case ended of
         ModelCancelled \<Rightarrow> arefuse OpsCodexError.Cancelled
       | ModelTimedOut \<Rightarrow> arefuse (OpsCodexError.Timeout ''model'')
       | ModelDone (Inl err) \<Rightarrow>
           sbind (count (\<lambda>m. m\<lparr>m_model_errors := inc (m_model_errors m)\<rparr>)) (\<lambda>_. arefuse err)
       | ModelDone (Inr response) \<Rightarrow>
           sbind (count (\<lambda>m. m\<lparr>m_model_calls := inc (m_model_calls m)\<rparr>)) (\<lambda>_.
             sret (response, deltas \<noteq> [], last_id))))" for deltas ended
    by (auto split: ModelEnd.split sum.split intro!: silent_intros silent_parts silent_model_parts R)
  then show ?thesis
    using R unfolding complete_model_def
    by (intro calls_first) (auto simp: calls_def sask_def model_counter_def split: prod.split)
qed

lemma calls_turn_loop:
  assumes "model_counter R g"
  shows "calls g n (turn_loop R ctx ins n i)"
proof (induction n arbitrary: ctx i)
  case (Suc n)
  have round: "calls g 1 (turn_round R ctx ins i)"
    unfolding turn_round_def
    by (intro calls_then [OF silent_model_parts(1) [OF assms]] calls_then [OF silent_checkpoint(2) [OF assms]]
        calls_then [OF silent_reads_result] calls_first [OF calls_complete_model [OF assms]] silent_intros
        silent_model_parts assms)
  have rest: "calls g n (case p of (last_id, called) \<Rightarrow>
       if called then turn_loop R (ctx\<lparr>tc_step := saturating_step (tc_step ctx)\<rparr>) ins n last_id
       else sbind (checkpoint_of R ctx CheckpointPhase.Completed NoResume None) (\<lambda>_.
         sbind (emit_id R ctx last_id TurnCompleted) (\<lambda>_. sret ())))" for p
    by (cases p) (auto intro!: Suc.IH calls_silent silent_intros silent_parts assms)
  show ?case using calls_bind [OF round rest] by simp
qed (auto intro!: calls_silent silent_parts)

lemma calls_case: "(\<And>a b. p = (a, b) \<Longrightarrow> calls g k (f a b)) \<Longrightarrow> calls g k (case p of (a, b) \<Rightarrow> f a b)"
  by (cases p) simp

lemma calls_if: "calls g k m \<Longrightarrow> calls g k n \<Longrightarrow> calls g k (if c then m else n)"
  by simp

lemma calls_option: "calls g k m \<Longrightarrow> (\<And>y. calls g k (f y)) \<Longrightarrow> calls g k (case x of None \<Rightarrow> m | Some y \<Rightarrow> f y)"
  by (cases x) simp_all

lemma calls_run_turn_inner:
  assumes "model_counter R g"
  shows "calls g (rc_max_steps (ro_config R)) (run_turn_inner R t u start lease)"
proof -
  have expires: "always (silent g) (expires_now R a)" for a
    unfolding expires_now_def by (intro silent_intros silent_parts assms)
  have answer: "always (silent g) (restored_answer R ch)" for ch
  proof -
    have "always (silent g) (case w of WaitCancelled \<Rightarrow> sbind (drop_wait ch) (\<lambda>_. arefuse OpsCodexError.Cancelled)
       | _ \<Rightarrow> sbind (channel_of ch) (\<lambda>c. sret (case c of Delivered v \<Rightarrow> v | _ \<Rightarrow> False)))" for w
      by (cases w; simp; intro silent_intros silent_parts)
    then show ?thesis unfolding restored_answer_def by (intro silent_intros silent_parts assms)
  qed
  have approval: "always (silent g) (resume_approval R ctx oper pending)" for ctx oper pending
    unfolding resume_approval_def Let_def
    by (cases "da_status pending"; simp; intro silent_intros silent_parts silent_result answer assms)
  have resume: "always (silent g) (resume_pending_tool R ctx oper policy)" for ctx oper policy
    unfolding resume_pending_tool_def Let_def
    by (auto split: Gate.split intro!: silent_intros silent_parts silent_result silent_execute expires approval assms)
  have start: "always (silent g) (start_turn R ctx start)" for ctx
    unfolding start_turn_def Let_def
    by (cases start; simp; intro silent_intros silent_parts resume assms impI conjI)
  show ?thesis
    unfolding run_turn_inner_def Let_def
    by (intro calls_then [OF silent_reads_result] calls_then [OF silent_steps(9)] calls_then [OF silent_steps(10)]
        calls_then [OF start] calls_then [OF silent.always_base(4)] calls_then [OF silent.always_if] silent_intros silent_steps
        calls_case calls_turn_loop [OF assms])
qed

lemma calls_wrappers:
  "calls g k m \<Longrightarrow> calls g k (attempt m)" "calls g k m \<Longrightarrow> calls g k (with_slot m)"
  "calls g k m \<Longrightarrow> calls g k (with_active t m)"
proof -
  assume m: "calls g k m"
  show "calls g k (attempt m)"
    using m unfolding calls_def attempt_def by (auto split: prod.split sum.split stop.split) (metis snd_conv)+
  show "calls g k (with_slot m)"
    using m unfolding calls_def with_slot_def by (auto split: prod.split) (metis asked_simps(7) snd_conv)
  show "calls g k (with_active t m)"
    using m unfolding calls_def with_active_def by (auto split: prod.split) (metis asked_simps(8) snd_conv)
qed

lemma silent_take_lease: "model_counter R g \<Longrightarrow> always (silent g) (take_lease R u t)"
  unfolding take_lease_def by (intro silent_intros silent_parts)

text \<open>
  C10: a turn asks the model at most as often as it has steps. Whatever the model and the tools answer, a
  turn that is started or resumed calls the model at most \<open>max_steps\<close> times, and it always ends.
\<close>

theorem turn_asks_at_most_max_steps:
  assumes "model_counter R g"
  shows "asked g (snd (run_turn R t u input s)) \<le> asked g s + rc_max_steps (ro_config R) \<and>
    asked g (snd (resume_turn R u key s)) \<le> asked g s + rc_max_steps (ro_config R)"
proof -
  let ?n = "rc_max_steps (ro_config R)"
  note inner = calls_wrappers(1) [OF calls_run_turn_inner [OF assms]]
  note silent = silent_intros silent_parts silent_take_lease assms
  have claimed: "calls g ?n (claimed_turn R t u input)"
    unfolding claimed_turn_def
    by (intro calls_then [OF silent_take_lease] calls_then [OF silent_steps(1)] calls_then [OF silent_steps(3)]
        calls_first [OF inner] silent)
  have admitted: "calls g ?n (admitted_turn R t u input)"
  proof -
    have "calls g ?n (if ended \<noteq> WaitReady then arefuse OpsCodexError.Cancelled
        else with_slot (with_active t (claimed_turn R t u input)))" for ended
      by (simp add: calls_wrappers claimed calls_silent [OF silent_steps(8)])
    then show ?thesis unfolding admitted_turn_def by (intro calls_then [OF silent_waits(3)] assms)
  qed
  have "always (silent g) (report_end R t u result)" for result
    unfolding report_end_def by (cases result; simp; intro silent conjI impI)
  then have "calls g ?n (run_turn R t u input)"
    unfolding run_turn_def
    by (intro calls_then [OF silent_steps(9)] calls_then [OF silent_steps(5)] calls_first [OF calls_wrappers(1) [OF admitted]]
        silent) simp
  moreover have report: "always (silent g) (recovery_report R u)"
    unfolding recovery_report_def by (intro silent silent_reads_result)
  have "calls g ?n (resumed_run R report u)" for report
    unfolding resumed_run_def
    by (intro calls_then [OF silent_take_lease] calls_first [OF inner] silent)
  then have "calls g ?n (sbind (with_slot (with_active (rr_thread_id report) (resumed_run R report u))) (\<lambda>_. sret report))"
    for report by (intro calls_first calls_wrappers silent)
  then have "calls g ?n (if ended \<noteq> WaitReady then arefuse OpsCodexError.Cancelled
      else sbind (with_slot (with_active (rr_thread_id report) (resumed_run R report u))) (\<lambda>_. sret report))" for ended report
    by (simp add: calls_silent [OF silent_steps(8)])
  then have go: "calls g ?n (sbind (sask (ro_wait_slot R)) (\<lambda>ended. if ended \<noteq> WaitReady then arefuse OpsCodexError.Cancelled
      else sbind (with_slot (with_active (rr_thread_id report) (resumed_run R report u))) (\<lambda>_. sret report)))" for report
    by (intro calls_then [OF silent_waits(3) [OF assms]])
  have key: "always (silent g) (case key of None \<Rightarrow> sret None
      | Some k \<Rightarrow> sbind (now_of R) (\<lambda>now. on_store (remember_resume now k u (ro_report_text R report))))" for report
    by (intro silent)
  have "calls g ?n (if rr_resume_policy report = Reconcile
      then arefuse (OpsCodexError.NeedsReconciliation (rr_user_action report)) else sbind (case key of None \<Rightarrow> sret None
      | Some k \<Rightarrow> sbind (now_of R) (\<lambda>now. on_store (remember_resume now k u (ro_report_text R report)))) (\<lambda>existing.
      case existing of Some payload \<Rightarrow> alift (f payload)
      | None \<Rightarrow> sbind (sask (ro_wait_slot R)) (\<lambda>ended. if ended \<noteq> WaitReady then arefuse OpsCodexError.Cancelled
      else sbind (with_slot (with_active (rr_thread_id report) (resumed_run R report u))) (\<lambda>_. sret report))))" for f report
    by (intro calls_if calls_option calls_then [OF key] go calls_silent [OF silent_steps(8)] calls_silent [OF silent_steps(9)])
  then have "calls g ?n (resume_turn R u key)"
    unfolding resume_turn_def by (intro calls_then [OF report])
  ultimately show ?thesis by (simp add: calls_def)
qed

text \<open>A model that leaves a trace of each call in the world.\<close>

definition traced_runtime :: "demo_world runtime" where
  "traced_runtime = demo_runtime\<lparr>ro_model := (\<lambda>_ s. (([], ModelTimedOut),
     s\<lparr>ag_sys := (ag_sys s)\<lparr>sys_world := (sys_world (ag_sys s))\<lparr>dw_replies :=
       SendTimedOut # dw_replies (sys_world (ag_sys s))\<rparr>\<rparr>\<rparr>))\<rparr>"

theorem turn_asks_at_most_max_steps_witness:
  "length (dw_replies (sys_world (ag_sys (snd (run_turn traced_runtime 9 1
     \<lparr>ti_content = ''why'', ti_incident_context = None\<rparr> (demo_agent sample_db {})))))) \<le> 12"
proof -
  have "model_counter traced_runtime (\<lambda>w. length (dw_replies w))"
    by (simp add: model_counter_def asked_def traced_runtime_def demo_runtime_def)
  from turn_asks_at_most_max_steps [OF this, where s = "demo_agent sample_db {}" and t = 9 and u = 1 and
      input = "\<lparr>ti_content = ''why'', ti_incident_context = None\<rparr>"] show ?thesis
    by (simp add: asked_def demo_agent_def demo_sys_def demo_world0_def traced_runtime_def demo_runtime_def
        default_runtime_config_def)
qed

end
