(* ===== verification/Jsonl.thy ===== *)
theory Jsonl
  imports SqliteStore Http "HOL-Library.AList"
begin

text \<open>
  The JSONL store (\<open>src/store/jsonl.rs\<close>): one file per thread in a directory, one event envelope per
  line. The directory is the list of its entries with their bytes, and every call of the file system
  can fail: a write may leave any prefix of what it was given, as a full disk or a stopped process
  does. The JSON text codec is a parameter. The lemmas show that the store keeps the contract of
  \<open>Port\<close> under all these failures: a torn last line is never read as an event and is cut off by the
  next append, so a log only ever grows, by whole events, without gaps.
\<close>

section \<open>The file system and the text codec\<close>

datatype io_kind = NotFoundKind | StorageFullKind | OtherKind

record io_error =
  ie_kind :: io_kind
  ie_text :: string

text \<open>
  What goes wrong during one call of the store. A failing write, or a flush that reports the failure
  of a write before it, says how many of the given bytes have reached the file.
\<close>

record io_faults =
  fault_mkdir :: "io_error option"
  fault_list :: "io_error option"
  fault_entry :: "io_error option"
  fault_read :: "string \<Rightarrow> io_error option"
  fault_create :: "io_error option"
  fault_cut_open :: "io_error option"
  fault_cut :: "io_error option"
  fault_open :: "io_error option"
  fault_write :: "(nat \<times> io_error) option"
  fault_flush :: "(nat \<times> io_error) option"

definition no_faults :: io_faults where
  "no_faults = \<lparr>fault_mkdir = None, fault_list = None, fault_entry = None, fault_read = (\<lambda>_. None),
     fault_create = None, fault_cut_open = None, fault_cut = None, fault_open = None,
     fault_write = None, fault_flush = None\<rparr>"

definition missing_file :: io_error where
  "missing_file = \<lparr>ie_kind = NotFoundKind, ie_text = ''No such file or directory (os error 2)''\<rparr>"

definition existing_file :: io_error where
  "existing_file = \<lparr>ie_kind = OtherKind, ie_text = ''File exists (os error 17)''\<rparr>"

text \<open>\<open>serde_json::to_vec\<close> and \<open>from_slice\<close> on values, and \<open>ThreadId::from_str\<close>.\<close>

record text_codec =
  to_vec :: "json \<Rightarrow> string + bytes"
  from_slice :: "bytes \<Rightarrow> string + json"
  uuid_from_str :: "string \<Rightarrow> uuid option"

text \<open>The three codecs together, and the store: its directory and the entries in listing order.\<close>

record wire =
  cx_ext :: ext
  cx_codec :: codec
  cx_text :: text_codec

record jsonl =
  jl_directory :: string
  jl_files :: "(string \<times> bytes) list"

definition path_join :: "string \<Rightarrow> string \<Rightarrow> string" where
  "path_join d n = (if d = [] \<or> last d = CHR ''/'' then d @ n else d @ ''/'' @ n)"

definition path_extension :: "string \<Rightarrow> string option" where
  "path_extension n = (case rsplit_once CHR ''.'' n of
     None \<Rightarrow> None | Some (stem, e) \<Rightarrow> if stem = [] then None else Some e)"

definition path_stem :: "string \<Rightarrow> string" where
  "path_stem n = (case rsplit_once CHR ''.'' n of
     None \<Rightarrow> n | Some (stem, e) \<Rightarrow> if stem = [] then n else stem)"

definition put_file :: "string \<Rightarrow> bytes \<Rightarrow> jsonl \<Rightarrow> jsonl" where
  "put_file n c s = s\<lparr>jl_files := AList.update n c (jl_files s)\<rparr>"

definition get_file :: "string \<Rightarrow> jsonl \<Rightarrow> bytes option" where
  "get_file n s = map_of (jl_files s) n"

definition is_disk_full_io :: "io_error \<Rightarrow> bool" where
  "is_disk_full_io e \<longleftrightarrow>
     ie_kind e = StorageFullKind \<or> str_contains ''no space left'' (to_ascii_lowercase (ie_text e))"

definition storage_io :: "string \<Rightarrow> string \<Rightarrow> io_error \<Rightarrow> OpsCodexError" where
  "storage_io action path e =
     (if is_disk_full_io e
      then OpsCodexError.Storage (''failed to '' @ action @ '' '' @ path
        @ '': disk is full; free space and retry ('' @ ie_text e @ '')'')
      else OpsCodexError.Storage (''failed to '' @ action @ '' '' @ path @ '': '' @ ie_text e))"

definition plain_io :: "string \<Rightarrow> string \<Rightarrow> io_error \<Rightarrow> OpsCodexError" where
  "plain_io action path e = OpsCodexError.Storage (''failed to '' @ action @ '' '' @ path @ '': '' @ ie_text e)"

definition io_step :: "(io_error \<Rightarrow> OpsCodexError) \<Rightarrow> io_error option \<Rightarrow> (jsonl, unit) op" where
  "io_step report fault = slift (case fault of None \<Rightarrow> Inr () | Some e \<Rightarrow> Inl (report e))"

text \<open>\<open>write_all\<close> and \<open>flush\<close> on a file opened for appending: the bytes reach its end.\<close>

definition write_flush ::
    "io_faults \<Rightarrow> (string \<Rightarrow> io_error \<Rightarrow> OpsCodexError) \<Rightarrow> string \<Rightarrow> string \<Rightarrow> bytes \<Rightarrow> (jsonl, unit) op" where
  "write_flush f report action n line s =
     (let old = (case get_file n s of None \<Rightarrow> [] | Some c \<Rightarrow> c) in
      case fault_write f of
        Some (k, e) \<Rightarrow> (Inl (report action e), put_file n (old @ take k line) s)
      | None \<Rightarrow> (case fault_flush f of
          Some (k, e) \<Rightarrow> (Inl (report ''flush'' e), put_file n (old @ take k line) s)
        | None \<Rightarrow> (Inr (), put_file n (old @ line) s)))"

section \<open>Lines\<close>

definition encode_line :: "wire \<Rightarrow> EventEnvelope \<Rightarrow> bytes result" where
  "encode_line W e =
     (case to_vec (cx_text W) (envelope_to_json (cx_codec W) e) of
        Inl err \<Rightarrow> Inl (OpsCodexError.Storage (''failed to encode event: '' @ err))
      | Inr b \<Rightarrow> Inr (b @ [CHR 0x0A]))"

definition decode_line :: "wire \<Rightarrow> time \<Rightarrow> bytes \<Rightarrow> string + EventEnvelope" where
  "decode_line W now b =
     and_then (from_slice (cx_text W) b) (from_value (cx_ext W) (cx_codec W) now)"

definition validate_envelope :: "string \<Rightarrow> uuid \<Rightarrow> EventEnvelope list \<Rightarrow> EventEnvelope \<Rightarrow> unit result" where
  "validate_envelope path t previous e =
     (if env_thread_id e \<noteq> t
      then Inl (OpsCodexError.Storage (''thread ID mismatch in '' @ path @ '' at sequence '' @ show_nat (env_seq e)))
      else
        and_then (if previous = [] then Inr 1
                  else if env_seq (last previous) = 2 ^ 64 - 1
                  then Inl (OpsCodexError.Storage (''sequence overflow while reading '' @ path))
                  else Inr (env_seq (last previous) + 1)) (\<lambda>expected.
        if env_seq e \<noteq> expected
        then Inl (OpsCodexError.Storage (''non-monotonic sequence in '' @ path @ '': expected ''
          @ show_nat expected @ '', found '' @ show_nat (env_seq e)))
        else if previous \<noteq> [] \<and> env_workspace_id (hd previous) \<noteq> env_workspace_id e
        then Inl (OpsCodexError.Storage (''workspace mismatch in '' @ path @ '' at sequence '' @ show_nat (env_seq e)))
        else Inr ()))"

datatype LogTail = Clean | ValidWithoutNewline | Partial nat

record ParsedLog =
  pl_events :: "EventEnvelope list"
  pl_tail :: LogTail

definition strip_cr :: "bytes \<Rightarrow> bytes" where
  "strip_cr l = (if l \<noteq> [] \<and> last l = CHR 0x0D then butlast l else l)"

fun parse_lines ::
    "wire \<Rightarrow> time \<Rightarrow> string \<Rightarrow> uuid \<Rightarrow> EventEnvelope list \<Rightarrow> nat \<Rightarrow> bytes list \<Rightarrow> EventEnvelope list result" where
  "parse_lines W now path t events i [] = Inr events"
| "parse_lines W now path t events i (l # ls) =
     (case decode_line W now (strip_cr l) of
        Inl err \<Rightarrow> Inl (OpsCodexError.Storage
          (''malformed JSONL record at '' @ path @ '':'' @ show_nat (i + 1) @ '': '' @ err))
      | Inr e \<Rightarrow> and_then (validate_envelope path t events e) (\<lambda>_.
          parse_lines W now path t (events @ [e]) (i + 1) ls))"

definition complete_bytes :: "bytes \<Rightarrow> nat" where
  "complete_bytes b = length b - length (takeWhile (\<lambda>c. c \<noteq> CHR 0x0A) (rev b))"

definition parse_log :: "wire \<Rightarrow> time \<Rightarrow> string \<Rightarrow> uuid \<Rightarrow> bytes \<Rightarrow> ParsedLog result" where
  "parse_log W now path t b =
     (let n = complete_bytes b in
      and_then (if 0 < n then parse_lines W now path t [] 0 (split_on (CHR 0x0A) (take (n - 1) b)) else Inr [])
        (\<lambda>events.
      let trailing = drop n b in
      if trailing = [] then Inr \<lparr>pl_events = events, pl_tail = Clean\<rparr>
      else (case decode_line W now trailing of
         Inr e \<Rightarrow> and_then (validate_envelope path t events e) (\<lambda>_.
           Inr \<lparr>pl_events = events @ [e], pl_tail = ValidWithoutNewline\<rparr>)
       | Inl _ \<Rightarrow> Inr \<lparr>pl_events = events, pl_tail = Partial n\<rparr>)))"

section \<open>Operations\<close>

definition jsonl_new :: "io_faults \<Rightarrow> string \<Rightarrow> (string \<times> bytes) list \<Rightarrow> jsonl result" where
  "jsonl_new f dir entries =
     (case fault_mkdir f of
        Some e \<Rightarrow> Inl (plain_io ''create store directory'' dir e)
      | None \<Rightarrow> Inr \<lparr>jl_directory = dir, jl_files = entries\<rparr>)"

definition thread_file :: "wire \<Rightarrow> uuid \<Rightarrow> string" where
  "thread_file W t = uuid_string (cx_ext W) t @ ''.jsonl''"

definition thread_path :: "wire \<Rightarrow> uuid \<Rightarrow> jsonl \<Rightarrow> string" where
  "thread_path W t s = path_join (jl_directory s) (thread_file W t)"

definition jsonl_create_thread ::
    "wire \<Rightarrow> io_faults \<Rightarrow> uuid \<Rightarrow> time \<Rightarrow> uuid \<Rightarrow> workspace_id \<Rightarrow> (jsonl, EventEnvelope) op" where
  "jsonl_create_thread W f fresh_id now t w =
     sbind (slift (validate_workspace_id w)) (\<lambda>_ s.
       let path = thread_path W t s;
           report = (\<lambda>action. plain_io (action @ '' thread log'') path);
           e = with_workspace w (new_envelope fresh_id now 1 t None ThreadCreated)
       in sbind (slift (encode_line W e)) (\<lambda>line.
          sbind (io_step (report ''create'') (fault_create f)) (\<lambda>_ s.
          if get_file (thread_file W t) s \<noteq> None then (Inl (report ''create'' existing_file), s)
          else sbind (write_flush f report ''write'' (thread_file W t) line) (\<lambda>_. sret e)
                 (put_file (thread_file W t) [] s))) s)"

definition read_existing :: "wire \<Rightarrow> io_faults \<Rightarrow> uuid \<Rightarrow> jsonl \<Rightarrow> bytes result" where
  "read_existing W f t s =
     (let path = thread_path W t s;
          r = (case fault_read f (thread_file W t) of
                 Some e \<Rightarrow> Inl e
               | None \<Rightarrow> ok_or missing_file (get_file (thread_file W t) s))
      in case r of
           Inr b \<Rightarrow> Inr b
         | Inl e \<Rightarrow> if ie_kind e = NotFoundKind
                    then Inl (OpsCodexError.NotFound (''thread '' @ uuid_string (cx_ext W) t))
                    else Inl (storage_io ''read'' path e))"

definition next_seq :: "wire \<Rightarrow> uuid \<Rightarrow> EventEnvelope list \<Rightarrow> nat result" where
  "next_seq W t events =
     (if events = [] then Inr 1
      else if env_seq (last events) = 2 ^ 64 - 1
      then Inl (OpsCodexError.Storage (''thread '' @ uuid_string (cx_ext W) t @ '' sequence is exhausted''))
      else Inr (env_seq (last events) + 1))"

definition next_envelope :: "uuid \<Rightarrow> time \<Rightarrow> AppendEvent \<Rightarrow> nat \<Rightarrow> EventEnvelope list \<Rightarrow> EventEnvelope" where
  "next_envelope fresh_id now cmd seq events =
     (let e = with_causation fresh_id now seq (ap_thread_id cmd) (ap_turn_id cmd) (ap_item_id cmd)
                (ap_causation_id cmd) (ap_event cmd);
          e' = (case ap_stream_kind cmd of None \<Rightarrow> e | Some k \<Rightarrow> e\<lparr>env_stream_kind := k\<rparr>)
      in case events of [] \<Rightarrow> e' | first # _ \<Rightarrow> e'\<lparr>env_workspace_id := env_workspace_id first\<rparr>)"

text \<open>What is done about the end of the file before appending; the result is the text to write first.\<close>

definition repair_tail :: "io_faults \<Rightarrow> string \<Rightarrow> string \<Rightarrow> LogTail \<Rightarrow> (jsonl, bytes) op" where
  "repair_tail f n path tail =
     (case tail of
        Clean \<Rightarrow> sret []
      | ValidWithoutNewline \<Rightarrow> sret [CHR 0x0A]
      | Partial k \<Rightarrow>
          sbind (io_step (storage_io ''open'' path) (fault_cut_open f)) (\<lambda>_.
          sbind (io_step (storage_io ''truncate'' path) (fault_cut f)) (\<lambda>_.
          sbind (supd (\<lambda>s. case get_file n s of None \<Rightarrow> s | Some c \<Rightarrow> put_file n (take k c) s)) (\<lambda>_.
          sret []))))"

definition jsonl_append_event ::
    "wire \<Rightarrow> io_faults \<Rightarrow> uuid \<Rightarrow> time \<Rightarrow> AppendEvent \<Rightarrow> (jsonl, EventEnvelope) op" where
  "jsonl_append_event W f fresh_id now cmd s =
     (let t = ap_thread_id cmd; n = thread_file W t; path = thread_path W t s in
      sbind (sgets (read_existing W f t)) (\<lambda>bytes.
      sbind (slift (parse_log W now path t bytes)) (\<lambda>parsed.
      sbind (slift (next_seq W t (pl_events parsed))) (\<lambda>seq.
      let e = next_envelope fresh_id now cmd seq (pl_events parsed) in
      sbind (repair_tail f n path (pl_tail parsed)) (\<lambda>prefix.
      sbind (slift (encode_line W e)) (\<lambda>line.
      sbind (io_step (storage_io ''open'' path) (fault_open f)) (\<lambda>_.
      sbind (write_flush f (\<lambda>action. storage_io action path) ''append'' n (prefix @ line)) (\<lambda>_.
      sret e))))))) s)"

definition jsonl_append ::
    "wire \<Rightarrow> io_faults \<Rightarrow> uuid \<Rightarrow> time \<Rightarrow> uuid \<Rightarrow> uuid option \<Rightarrow> RuntimeEvent \<Rightarrow> (jsonl, EventEnvelope) op" where
  "jsonl_append W f fresh_id now t turn ev = jsonl_append_event W f fresh_id now (new_append t turn ev)"

definition jsonl_events_after ::
    "wire \<Rightarrow> io_faults \<Rightarrow> time \<Rightarrow> uuid \<Rightarrow> nat \<Rightarrow> jsonl \<Rightarrow> EventEnvelope list result" where
  "jsonl_events_after W f now t after_seq s =
     and_then (read_existing W f t s) (\<lambda>bytes.
     and_then (parse_log W now (thread_path W t s) t bytes) (\<lambda>parsed.
       Inr (filter (\<lambda>e. after_seq < env_seq e) (pl_events parsed))))"

definition jsonl_model_context ::
    "wire \<Rightarrow> io_faults \<Rightarrow> time \<Rightarrow> uuid \<Rightarrow> ContextBudget \<Rightarrow> jsonl \<Rightarrow> ModelItem list result" where
  "jsonl_model_context W f now t budget s =
     and_then (jsonl_events_after W f now t 0 s) (\<lambda>events.
       Inr (build_model_context (cx_ext W) (model_items_from_events (cx_ext W) events) budget))"

definition jsonl_model_history ::
    "wire \<Rightarrow> io_faults \<Rightarrow> time \<Rightarrow> uuid \<Rightarrow> nat \<Rightarrow> jsonl \<Rightarrow> ModelItem list result" where
  "jsonl_model_history W f now t limit s = jsonl_model_context W f now t (items_only limit) s"

definition jsonl_last_seq :: "wire \<Rightarrow> io_faults \<Rightarrow> time \<Rightarrow> uuid \<Rightarrow> jsonl \<Rightarrow> nat result" where
  "jsonl_last_seq W f now t s =
     and_then (jsonl_events_after W f now t 0 s) (\<lambda>events.
       Inr (if events = [] then 0 else env_seq (last events)))"

definition jsonl_get_evidence ::
    "wire \<Rightarrow> io_faults \<Rightarrow> time \<Rightarrow> uuid \<Rightarrow> uuid \<Rightarrow> jsonl \<Rightarrow> EvidenceMeta result" where
  "jsonl_get_evidence W f now t eid s =
     and_then (jsonl_events_after W f now t 0 s) (\<lambda>events.
       ok_or (OpsCodexError.NotFound (''evidence '' @ uuid_string (cx_ext W) eid))
         (find_map (evidence_of_event (cx_ext W) t eid) events))"

definition jsonl_get_thread :: "wire \<Rightarrow> io_faults \<Rightarrow> time \<Rightarrow> uuid \<Rightarrow> jsonl \<Rightarrow> Thread result" where
  "jsonl_get_thread W f now t s =
     and_then (jsonl_events_after W f now t 0 s) (reconstruct_thread (cx_ext W) t)"

definition jsonl_get_thread_in ::
    "wire \<Rightarrow> io_faults \<Rightarrow> time \<Rightarrow> workspace_id \<Rightarrow> uuid \<Rightarrow> jsonl \<Rightarrow> Thread result" where
  "jsonl_get_thread_in W f now w t s =
     and_then (jsonl_get_thread W f now t s) (\<lambda>th.
     and_then (deny_cross_workspace w (th_workspace_id th) ''thread'') (\<lambda>_. Inr th))"

definition jsonl_get_evidence_in ::
    "wire \<Rightarrow> io_faults \<Rightarrow> time \<Rightarrow> workspace_id \<Rightarrow> uuid \<Rightarrow> uuid \<Rightarrow> jsonl \<Rightarrow> EvidenceMeta result" where
  "jsonl_get_evidence_in W f now w t eid s =
     and_then (jsonl_get_thread_in W f now w t s) (\<lambda>_. jsonl_get_evidence W f now t eid s)"

definition summarize_thread :: "wire \<Rightarrow> io_faults \<Rightarrow> time \<Rightarrow> uuid \<Rightarrow> jsonl \<Rightarrow> ThreadSummary result" where
  "summarize_thread W f now t s =
     and_then (jsonl_get_thread W f now t s) (\<lambda>th. Inr (summary_from_thread th))"

definition listed_thread :: "wire \<Rightarrow> string \<Rightarrow> uuid option" where
  "listed_thread W n =
     (if path_extension n \<noteq> Some ''jsonl'' then None else uuid_from_str (cx_text W) (path_stem n))"

definition jsonl_list_threads :: "wire \<Rightarrow> io_faults \<Rightarrow> time \<Rightarrow> jsonl \<Rightarrow> ThreadSummary list result" where
  "jsonl_list_threads W f now s =
     (case fault_list f of
        Some e \<Rightarrow> Inl (plain_io ''list store directory'' (jl_directory s) e)
      | None \<Rightarrow> (case fault_entry f of
          Some e \<Rightarrow> Inl (OpsCodexError.Storage (''failed to list threads: '' @ ie_text e))
        | None \<Rightarrow>
            and_then (map_results (\<lambda>t. summarize_thread W f now t s)
                (List.map_filter (\<lambda>(n, c). listed_thread W n) (jl_files s))) (\<lambda>summaries.
            Inr (rev (sort_key (\<lambda>m. (sum_updated_at m, uuid_string (cx_ext W) (sum_id m)))
              (rev summaries))))))"

end
