(* ===== verification/JsonlSafety.thy ===== *)
theory JsonlSafety
  imports Jsonl
begin

text \<open>
  What the files of the JSONL store can look like after any sequence of calls and failures, and what
  follows: reading gives back whole events, appending repairs a torn end, and the store keeps the
  contract \<open>event_log_store\<close> of \<open>Port\<close> under every fault.
\<close>

section \<open>Text of a log\<close>

abbreviation LF :: char where "LF \<equiv> CHR 0x0A"

text \<open>
  What is relied on of the codecs: whatever was encoded is decoded to the same value; compact JSON text
  of an object contains no line feed, does not end in a carriage return and no proper prefix of it is
  a JSON text; and different threads have different names.
\<close>

definition text_ok :: "wire \<Rightarrow> bytes \<Rightarrow> json \<Rightarrow> bool" where
  "text_ok W b j \<longleftrightarrow> from_slice (cx_text W) b = Inr j \<and> b \<noteq> [] \<and> LF \<notin> set b \<and> last b \<noteq> CHR 0x0D \<and>
     (\<forall>k < length b. \<not> is_ok (from_slice (cx_text W) (take k b)))"

definition codec_law :: "wire \<Rightarrow> bool" where
  "codec_law W \<longleftrightarrow> inj (uuid_string (cx_ext W)) \<and>
     (\<forall>e b. to_vec (cx_text W) (envelope_to_json (cx_codec W) e) = Inr b \<longrightarrow>
        codec_ok (cx_codec W) e \<and> text_ok W b (envelope_to_json (cx_codec W) e))"

definition stored :: "wire \<Rightarrow> EventEnvelope \<Rightarrow> bool" where
  "stored W e \<longleftrightarrow> is_ok (encode_line W e) \<and> env_schema_version e < 2 ^ 32 \<and> env_seq e < 2 ^ 64"

definition line_bytes :: "wire \<Rightarrow> EventEnvelope \<Rightarrow> bytes" where
  "line_bytes W e = (case to_vec (cx_text W) (envelope_to_json (cx_codec W) e) of Inl _ \<Rightarrow> [] | Inr b \<Rightarrow> b)"

definition log_text :: "wire \<Rightarrow> EventEnvelope list \<Rightarrow> bytes" where
  "log_text W L = concat (map (\<lambda>e. line_bytes W e @ [LF]) L)"

lemma log_text_simps [simp]:
  "log_text W [] = []"
  "log_text W (L @ [e]) = log_text W L @ line_bytes W e @ [LF]"
  by (simp_all add: log_text_def)

lemma log_text_end: "L \<noteq> [] \<Longrightarrow> log_text W L \<noteq> [] \<and> last (log_text W L) = LF"
  by (cases L rule: rev_cases) auto

lemma encode_line_Inr: "encode_line W e = Inr b \<longleftrightarrow> is_ok (encode_line W e) \<and> b = line_bytes W e @ [LF]"
  by (auto simp: encode_line_def line_bytes_def split: sum.splits)

lemma stored_line:
  assumes "codec_law W" and "stored W e"
  shows "text_ok W (line_bytes W e) (envelope_to_json (cx_codec W) e)"
    and "decode_line W now (line_bytes W e) = Inr e"
proof -
  from assms obtain b where b: "to_vec (cx_text W) (envelope_to_json (cx_codec W) e) = Inr b"
    by (auto simp: stored_def encode_line_def split: sum.splits)
  with assms(1) have ok: "codec_ok (cx_codec W) e" "text_ok W b (envelope_to_json (cx_codec W) e)"
    by (auto simp: codec_law_def)
  with b show "text_ok W (line_bytes W e) (envelope_to_json (cx_codec W) e)" by (simp add: line_bytes_def)
  from ok b assms(2) show "decode_line W now (line_bytes W e) = Inr e"
    by (simp add: decode_line_def line_bytes_def text_ok_def decode_encoded stored_def)
qed

lemma strip_cr_line: "text_ok W b j \<Longrightarrow> strip_cr b = b"
  by (simp add: strip_cr_def text_ok_def)

subsection \<open>Splitting a file into lines\<close>

lemma complete_bytes_eq:
  assumes "LF \<notin> set tail" and "b = [] \<or> last b = LF"
  shows "complete_bytes (b @ tail) = length b"
proof -
  have "takeWhile (\<lambda>c. c \<noteq> LF) (rev tail @ rev b) = rev tail @ takeWhile (\<lambda>c. c \<noteq> LF) (rev b)"
    using assms(1) by (subst takeWhile_append2) auto
  moreover have "takeWhile (\<lambda>c. c \<noteq> LF) (rev b) = []"
    using assms(2) by (cases b rule: rev_cases) auto
  ultimately show ?thesis by (simp add: complete_bytes_def)
qed

lemma split_on_no_sep: "c \<notin> set b \<Longrightarrow> split_on c b = [b]"
  by (induction b) auto

lemma split_on_sep: "c \<notin> set b \<Longrightarrow> split_on c (b @ c # r) = b # split_on c r"
  by (induction b) auto

lemma split_on_lines:
  assumes "\<forall>b \<in> set bs. c \<notin> set b" and "bs \<noteq> []"
  shows "split_on c (butlast (concat (map (\<lambda>b. b @ [c]) bs))) = bs"
  using assms
proof (induction bs)
  case (Cons b bs)
  then show ?case
    by (cases "bs = []") (auto simp: split_on_no_sep split_on_sep butlast_append)
qed simp

lemma complete_log: "LF \<notin> set tail \<Longrightarrow> complete_bytes (log_text W L @ tail) = length (log_text W L)"
  using log_text_end [of L W] by (intro complete_bytes_eq) (auto simp: log_text_def)

section \<open>Reading\<close>

definition valid_jsonl :: "wire \<Rightarrow> uuid \<Rightarrow> EventEnvelope list \<Rightarrow> bool" where
  "valid_jsonl W t L \<longleftrightarrow> gap_free L \<and> length L < 2 ^ 64 \<and>
     (\<exists>w. \<forall>e \<in> set L. stored W e \<and> env_thread_id e = t \<and> env_workspace_id e = w)"

lemma valid_jsonl_Nil [simp]: "valid_jsonl W t []"
  by (simp add: valid_jsonl_def)

lemma valid_jsonl_snoc:
  "valid_jsonl W t (L @ [e]) \<longleftrightarrow>
     valid_jsonl W t L \<and> env_seq e = Suc (length L) \<and> Suc (length L) < 2 ^ 64 \<and> stored W e \<and>
     env_thread_id e = t \<and> (L \<noteq> [] \<longrightarrow> env_workspace_id e = env_workspace_id (hd L))"
proof (cases "L = []")
  case False
  then have "hd L \<in> set L" by simp
  with False show ?thesis unfolding valid_jsonl_def gap_free_snoc by auto
qed (use gap_free_snoc [of "[]" e] in \<open>auto simp: valid_jsonl_def\<close>)

lemma valid_jsonl_append: "valid_jsonl W t (L @ M) \<Longrightarrow> valid_jsonl W t L"
  by (induction M rule: rev_induct) (auto simp: valid_jsonl_snoc simp flip: append_assoc)

lemma valid_jsonl_last: "valid_jsonl W t L \<Longrightarrow> L \<noteq> [] \<Longrightarrow> env_seq (last L) = length L"
  by (cases L rule: rev_cases) (auto simp: valid_jsonl_snoc)

lemma validate_next:
  assumes "valid_jsonl W t (L @ [e])"
  shows "validate_envelope path t L e = Inr ()"
  using assms valid_jsonl_last [of W t L]
  by (auto simp: validate_envelope_def valid_jsonl_snoc Let_def)

lemma parse_lines_valid:
  assumes law: "codec_law W" and "valid_jsonl W t (L @ M)"
  shows "parse_lines W now path t L i (map (line_bytes W) M) = Inr (L @ M)"
  using assms(2)
proof (induction M arbitrary: L i)
  case (Cons e M)
  from Cons.prems valid_jsonl_append [of W t "L @ [e]" M]
  have e: "valid_jsonl W t (L @ [e])" by simp
  then have "stored W e" by (simp add: valid_jsonl_snoc)
  with stored_line [OF law this] Cons.IH [of "L @ [e]" "i + 1"] Cons.prems validate_next [OF e]
  show ?case by (simp add: strip_cr_line)
qed simp

text \<open>The end of a file that is no event: nothing, or text without a line feed that is not JSON.\<close>

definition torn :: "wire \<Rightarrow> bytes \<Rightarrow> bool" where
  "torn W tail \<longleftrightarrow> LF \<notin> set tail \<and> (tail = [] \<or> \<not> is_ok (from_slice (cx_text W) tail))"

text \<open>The file holds the log: all lines and a torn end, or all lines but the last line feed.\<close>

definition log_file :: "wire \<Rightarrow> EventEnvelope list \<Rightarrow> bytes \<Rightarrow> bool" where
  "log_file W L c \<longleftrightarrow> (\<exists>tail. c = log_text W L @ tail \<and> torn W tail) \<or>
     (\<exists>M e. L = M @ [e] \<and> c = log_text W M @ line_bytes W e)"

lemma log_file_text [simp]: "log_file W L (log_text W L)"
  by (auto simp: log_file_def torn_def)

lemma parse_complete:
  assumes law: "codec_law W" and val: "valid_jsonl W t L"
  shows "(if 0 < length (log_text W L) then parse_lines W now path t [] 0
      (split_on LF (take (length (log_text W L) - 1) (log_text W L @ tail))) else Inr []) = Inr L"
proof (cases "L = []")
  case False
  have "\<forall>b \<in> set (map (line_bytes W) L). LF \<notin> set b"
    using val stored_line(1) [OF law] by (fastforce simp: valid_jsonl_def text_ok_def)
  with split_on_lines [of "map (line_bytes W) L" LF] False
  have "split_on LF (butlast (log_text W L)) = map (line_bytes W) L"
    by (simp add: log_text_def comp_def)
  with parse_lines_valid [OF law, of t "[]" L] val log_text_end [OF False, of W]
  show ?thesis by (simp add: butlast_conv_take)
qed simp

text \<open>How far the end of a file is from the text of its log.\<close>

fun repaired :: "LogTail \<Rightarrow> bytes \<Rightarrow> bytes \<Rightarrow> bool" where
  "repaired Clean c b = (c = b)"
| "repaired ValidWithoutNewline c b = (c @ [LF] = b)"
| "repaired (Partial k) c b = (take k c = b)"

lemma parse_log_file:
  assumes law: "codec_law W" and val: "valid_jsonl W t L" and holds: "log_file W L c"
  shows "\<exists>tl. parse_log W now path t c = Inr \<lparr>pl_events = L, pl_tail = tl\<rparr> \<and> repaired tl c (log_text W L)"
  using holds unfolding log_file_def
proof (elim disjE exE conjE)
  fix tail assume c: "c = log_text W L @ tail" "torn W tail"
  then have n: "complete_bytes c = length (log_text W L)"
    by (simp add: torn_def complete_log)
  show ?thesis
  proof (cases "tail = []")
    case True
    with c n parse_complete [OF law val, of now path "[]"] show ?thesis by (auto simp: parse_log_def Let_def)
  next
    case False
    with c obtain err where "decode_line W now tail = Inl err"
      by (auto simp: torn_def decode_line_def is_ok_def split: sum.splits)
    with False c n parse_complete [OF law val, of now path tail] show ?thesis
      by (auto simp: parse_log_def Let_def)
  qed
next
  fix M e assume L: "L = M @ [e]" and c: "c = log_text W M @ line_bytes W e"
  with val have e: "stored W e" and M: "valid_jsonl W t M" by (simp_all add: valid_jsonl_snoc)
  note line = stored_line [OF law e]
  from c line(1) have n: "complete_bytes c = length (log_text W M)"
    by (simp add: text_ok_def complete_log)
  from line(1) have "line_bytes W e \<noteq> []" by (simp add: text_ok_def)
  with c n L line(2) validate_next [of W t M e path] val parse_complete [OF law M, of now path "line_bytes W e"]
  show ?thesis by (auto simp: parse_log_def Let_def)
qed

section \<open>Writing\<close>

lemma log_file_write:
  assumes law: "codec_law W" and e: "stored W e"
  shows "log_file W L (log_text W L @ take k (line_bytes W e @ [LF])) \<or>
    log_file W (L @ [e]) (log_text W L @ take k (line_bytes W e @ [LF]))"
proof -
  let ?b = "line_bytes W e"
  note b = stored_line(1) [OF law e]
  consider "k < length ?b" | "k = length ?b" | "length ?b < k" by linarith
  then show ?thesis
  proof cases
    case 1
    then have "torn W (take k ?b)" using b by (auto simp: torn_def text_ok_def dest: in_set_takeD)
    with 1 show ?thesis by (auto simp: log_file_def)
  next
    case 2
    then show ?thesis by (auto simp: log_file_def)
  next
    case 3
    then have "log_text W L @ take k (?b @ [LF]) = log_text W (L @ [e])" by simp
    then show ?thesis by (metis log_file_text)
  qed
qed

text \<open>The whole call: repair the end, then write some prefix of what is to be written.\<close>

lemma log_file_append:
  assumes law: "codec_law W" and e: "stored W e" and L: "log_file W L c"
    and p: "c' @ p = log_text W L" and same: "p = [] \<or> p = [LF] \<and> c' = c"
  shows "log_file W L (c' @ take k (p @ line_bytes W e @ [LF])) \<or>
    log_file W (L @ [e]) (c' @ take k (p @ line_bytes W e @ [LF]))"
proof (cases "length p \<le> k")
  case True
  then have "c' @ take k (p @ line_bytes W e @ [LF]) = log_text W L @ take (k - length p) (line_bytes W e @ [LF])"
    by (simp flip: p)
  with log_file_write [OF law e] show ?thesis by metis
next
  case False
  with same L show ?thesis by (cases k) auto
qed

section \<open>The store\<close>

definition jsonl_log :: "wire \<Rightarrow> jsonl \<Rightarrow> uuid \<Rightarrow> EventEnvelope list option" where
  "jsonl_log W s t = map_option (\<lambda>c.
     case parse_log W 0 (thread_path W t s) t c of Inl _ \<Rightarrow> [] | Inr p \<Rightarrow> pl_events p) (get_file (thread_file W t) s)"

definition jsonl_inv :: "wire \<Rightarrow> jsonl \<Rightarrow> bool" where
  "jsonl_inv W s \<longleftrightarrow> codec_law W \<and>
     (\<forall>t c. get_file (thread_file W t) s = Some c \<longrightarrow> (\<exists>L. valid_jsonl W t L \<and> log_file W L c))"

lemma get_put_file [simp]: "get_file n (put_file m c s) = (if n = m then Some c else get_file n s)"
  by (simp add: get_file_def put_file_def update_conv')

lemma thread_path_put [simp]: "thread_path W t (put_file n c s) = thread_path W t s"
  by (simp add: thread_path_def put_file_def)

lemma thread_file_inject: "codec_law W \<Longrightarrow> thread_file W t = thread_file W u \<longleftrightarrow> t = u"
  by (auto simp: thread_file_def codec_law_def dest: injD)

lemma jsonl_inv_empty: "codec_law W \<Longrightarrow> jsonl_inv W \<lparr>jl_directory = d, jl_files = []\<rparr>"
  by (simp add: jsonl_inv_def get_file_def)

lemma jsonl_log_None: "jsonl_log W s t = None \<longleftrightarrow> get_file (thread_file W t) s = None"
  by (simp add: jsonl_log_def)

text \<open>The log of a thread is what its file holds, and reading finds it, at any time.\<close>

lemma jsonl_log_Some:
  assumes "jsonl_inv W s" and "jsonl_log W s t = Some L"
  shows "\<exists>c. get_file (thread_file W t) s = Some c \<and> valid_jsonl W t L \<and> log_file W L c"
proof -
  from assms(2) obtain c where c: "get_file (thread_file W t) s = Some c"
    by (auto simp: jsonl_log_def)
  with assms(1) obtain M where M: "valid_jsonl W t M" "log_file W M c" and law: "codec_law W"
    by (auto simp: jsonl_inv_def)
  from parse_log_file [OF law M, of 0 "thread_path W t s"] c assms(2)
  have "M = L" by (auto simp: jsonl_log_def)
  with c M show ?thesis by blast
qed

lemma jsonl_log_put:
  assumes "codec_law W" and "valid_jsonl W t L" and "log_file W L c"
  shows "jsonl_log W (put_file (thread_file W t) c s) = (jsonl_log W s)(t \<mapsto> L)"
  using parse_log_file [OF assms, of 0 "thread_path W t s"] thread_file_inject [OF assms(1)]
  by (auto simp: jsonl_log_def fun_eq_iff)

lemma jsonl_inv_put:
  assumes "jsonl_inv W s" and "valid_jsonl W t L" and "log_file W L c"
  shows "jsonl_inv W (put_file (thread_file W t) c s)"
  using assms thread_file_inject [of W] by (auto simp: jsonl_inv_def)

lemma read_existing_Inr:
  assumes "read_existing W f t s = Inr c"
  shows "get_file (thread_file W t) s = Some c"
  using assms by (auto simp: read_existing_def Let_def split: option.splits sum.splits if_splits)

lemma read_existing_ok:
  "fault_read f (thread_file W t) = None \<Longrightarrow> get_file (thread_file W t) s = Some c \<Longrightarrow>
     read_existing W f t s = Inr c"
  by (simp add: read_existing_def)

lemma events_after_log:
  assumes "jsonl_inv W s" and "jsonl_log W s t = Some L" and "fault_read f (thread_file W t) = None"
  shows "jsonl_events_after W f now t n s = Inr (filter (\<lambda>e. n < env_seq e) L)"
proof -
  obtain c where c: "get_file (thread_file W t) s = Some c" "valid_jsonl W t L" "log_file W L c"
    using jsonl_log_Some [OF assms(1,2)] by blast
  moreover have "codec_law W" using assms(1) by (simp add: jsonl_inv_def)
  ultimately show ?thesis
    using parse_log_file [of W t L c now "thread_path W t s"] read_existing_ok [OF assms(3) c(1)]
    by (auto simp: jsonl_events_after_def)
qed

subsection \<open>Appending under faults\<close>

lemma write_flush_effect:
  "\<exists>k r. write_flush f report action n line s =
     (r, put_file n ((case get_file n s of None \<Rightarrow> [] | Some c \<Rightarrow> c) @ take k line) s) \<and>
     (is_ok r \<longrightarrow> length line \<le> k) \<and>
     (fault_write f = None \<and> fault_flush f = None \<longrightarrow> r = Inr ())"
  by (cases "fault_write f"; cases "fault_flush f")
    (auto simp: write_flush_def intro: exI [of _ "length line"])

lemma put_same: "get_file n s = Some c \<Longrightarrow> put_file n c s = s"
  by (simp add: put_file_def get_file_def update_triv)

lemma put_put [simp]: "put_file n c (put_file n d s) = put_file n c s"
  by (simp add: put_file_def)

lemma repair_tail_effect:
  assumes "get_file n s = Some c" and "repaired tail c b"
  shows "(\<exists>err. repair_tail f n path tail s = (Inl err, s)) \<or>
    (\<exists>c' p. repair_tail f n path tail s = (Inr p, put_file n c' s) \<and> c' @ p = b \<and>
       (p = [] \<or> p = [LF] \<and> c' = c))"
proof (cases tail)
  case Clean
  with assms show ?thesis by (simp add: repair_tail_def sm_simps put_same)
next
  case ValidWithoutNewline
  with assms have "repair_tail f n path tail s = (Inr [LF], put_file n c s)" "c @ [LF] = b"
    by (simp_all add: repair_tail_def sm_simps put_same)
  then show ?thesis by blast
next
  case (Partial k)
  with assms show ?thesis
    by (cases "fault_cut_open f"; cases "fault_cut f") (simp_all add: repair_tail_def io_step_def sm_simps)
qed

lemma next_envelope_valid:
  assumes "valid_jsonl W (ap_thread_id cmd) L" and "next_seq W (ap_thread_id cmd) L = Inr n"
    and "is_ok (encode_line W (next_envelope i now cmd n L))"
  shows "valid_jsonl W (ap_thread_id cmd) (L @ [next_envelope i now cmd n L])"
proof -
  have n: "n = Suc (length L)" "Suc (length L) < 2 ^ 64"
    using assms(2) valid_jsonl_last [OF assms(1)] assms(1)
    by (auto simp: next_seq_def valid_jsonl_def split: if_splits)
  have "env_thread_id (next_envelope i now cmd n L) = ap_thread_id cmd"
    "env_seq (next_envelope i now cmd n L) = n"
    "env_schema_version (next_envelope i now cmd n L) = EVENT_SCHEMA_VERSION"
    "L \<noteq> [] \<Longrightarrow> env_workspace_id (next_envelope i now cmd n L) = env_workspace_id (hd L)"
    by (auto simp: next_envelope_def with_causation_def Let_def split: list.split option.split)
  with assms n show ?thesis by (simp add: valid_jsonl_snoc stored_def EVENT_SCHEMA_VERSION_def)
qed

lemma next_envelope_event: "env_event (next_envelope i now cmd n L) = ap_event cmd"
  by (auto simp: next_envelope_def with_causation_def Let_def split: list.split option.split)

text \<open>
  One append, whatever fails: the log is as before, or has the event added; and it has when the call
  succeeds.
\<close>

lemma append_effect:
  assumes inv: "jsonl_inv W s" and log: "jsonl_log W s (ap_thread_id cmd) = Some L"
    and run: "jsonl_append_event W f i now cmd s = (r, s')"
  shows "jsonl_inv W s' \<and>
    (jsonl_log W s' = jsonl_log W s \<and> \<not> is_ok r \<or>
     (\<exists>e. jsonl_log W s' = (jsonl_log W s)(ap_thread_id cmd \<mapsto> L @ [e]) \<and> env_event e = ap_event cmd \<and>
        (\<forall>x. r = Inr x \<longrightarrow> x = e)))"
proof -
  let ?t = "ap_thread_id cmd" let ?n = "thread_file W ?t" let ?p = "thread_path W ?t s"
  have law: "codec_law W" using inv by (simp add: jsonl_inv_def)
  obtain c where c: "get_file ?n s = Some c" "valid_jsonl W ?t L" "log_file W L c"
    using jsonl_log_Some [OF inv log] by blast
  obtain tail where p: "parse_log W now ?p ?t c = Inr \<lparr>pl_events = L, pl_tail = tail\<rparr>"
      "repaired tail c (log_text W L)"
    using parse_log_file [OF law c(2,3)] by blast
  have put: "jsonl_inv W (put_file ?n d s)" "jsonl_log W (put_file ?n d s) = (jsonl_log W s)(?t \<mapsto> M)"
    if "valid_jsonl W ?t M" "log_file W M d" for M d
    using jsonl_inv_put [OF inv that] jsonl_log_put [OF law that] by blast+
  have same: "(jsonl_log W s)(?t \<mapsto> L) = jsonl_log W s" using log by auto
  show ?thesis
  proof (cases "\<exists>n. read_existing W f ?t s = Inr c \<and> next_seq W ?t L = Inr n")
    case False
    have "read_existing W f ?t s = Inr x \<Longrightarrow> x = c" for x using read_existing_Inr c(1) by fastforce
    with False have "(\<exists>err. read_existing W f ?t s = Inl err) \<or>
        read_existing W f ?t s = Inr c \<and> (\<exists>err. next_seq W ?t L = Inl err)"
      by (metis sum.exhaust)
    with run p(1) have "s' = s \<and> \<not> is_ok r"
      by (auto simp: jsonl_append_event_def Let_def sm_simps)
    with inv show ?thesis by blast
  next
    case True
    then obtain n where n: "read_existing W f ?t s = Inr c" "next_seq W ?t L = Inr n" by blast
    let ?e = "next_envelope i now cmd n L"
    from repair_tail_effect [OF c(1) p(2), of f ?p]
    consider err where "repair_tail f ?n ?p tail s = (Inl err, s)"
      | c' p where "repair_tail f ?n ?p tail s = (Inr p, put_file ?n c' s)"
          "c' @ p = log_text W L" "p = [] \<or> p = [LF] \<and> c' = c" by blast
    then show ?thesis
    proof cases
      case (1 err)
      with run p(1) n have "s' = s \<and> \<not> is_ok r"
        by (auto simp: jsonl_append_event_def Let_def sm_simps)
      with inv show ?thesis by blast
    next
      case (2 c' p')
      have c': "log_file W L c'" using 2(2,3) c(3) by auto
      have run': "(r, s') = (case encode_line W ?e of Inl err \<Rightarrow> (Inl err, put_file ?n c' s)
        | Inr line \<Rightarrow> (case fault_open f of Some err \<Rightarrow> (Inl (storage_io ''open'' ?p err), put_file ?n c' s)
            | None \<Rightarrow> (case write_flush f (\<lambda>action. storage_io action ?p) ''append'' ?n (p' @ line)
                  (put_file ?n c' s) of
                (Inl err, s2) \<Rightarrow> (Inl err, s2) | (Inr _, s2) \<Rightarrow> (Inr ?e, s2))))"
        using run p(1) n 2(1)
        by (auto simp: jsonl_append_event_def Let_def sm_simps io_step_def split: sum.splits option.splits prod.splits)
      show ?thesis
      proof (cases "is_ok (encode_line W ?e) \<and> fault_open f = None")
        case False
        with run' have "s' = put_file ?n c' s \<and> \<not> is_ok r" by (auto split: sum.splits option.splits)
        with put [OF c(2) c'] same show ?thesis by simp
      next
        case True
        then have line: "encode_line W ?e = Inr (line_bytes W ?e @ [LF])" by (simp add: encode_line_Inr)
        have val: "valid_jsonl W ?t (L @ [?e])" using next_envelope_valid c(2) n(2) True by blast
        then have st: "stored W ?e" by (simp add: valid_jsonl_snoc)
        from write_flush_effect [of f "\<lambda>action. storage_io action ?p" "''append''" ?n
            "p' @ line_bytes W ?e @ [LF]" "put_file ?n c' s"]
        obtain k r0 where w: "write_flush f (\<lambda>action. storage_io action ?p) ''append'' ?n
            (p' @ line_bytes W ?e @ [LF]) (put_file ?n c' s) =
              (r0, put_file ?n (c' @ take k (p' @ line_bytes W ?e @ [LF])) s)"
          "is_ok r0 \<Longrightarrow> length (p' @ line_bytes W ?e @ [LF]) \<le> k" by auto
        let ?c = "c' @ take k (p' @ line_bytes W ?e @ [LF])"
        have s': "s' = put_file ?n ?c s" and r: "is_ok r \<longleftrightarrow> is_ok r0" "r = Inr x \<Longrightarrow> x = ?e" for x
          using run' line True w(1) by (auto split: sum.splits)
        show ?thesis
        proof (cases "log_file W (L @ [?e]) ?c")
          case True
          from put [OF val True] s' r(2) next_envelope_event show ?thesis by blast
        next
          case False
          have "is_ok r0 \<Longrightarrow> ?c = log_text W (L @ [?e])" using w(2) 2(2) by (simp flip: 2(2))
          with False have "\<not> is_ok r" using r(1) log_file_text by metis
          moreover have "log_file W L ?c"
            using log_file_append [OF law st c(3) 2(2,3)] False by blast
          ultimately show ?thesis using put [OF c(2)] same s' by auto
        qed
      qed
    qed
  qed
qed

text \<open>Creating a thread can fail after the file exists: then the log is empty, or complete.\<close>

lemma create_effect:
  assumes inv: "jsonl_inv W s" and run: "jsonl_create_thread W f i now t w s = (r, s')"
  shows "jsonl_inv W s' \<and>
    (jsonl_log W s' = jsonl_log W s \<and> \<not> is_ok r \<or>
     jsonl_log W s t = None \<and> jsonl_log W s' = (jsonl_log W s)(t \<mapsto> []) \<and> \<not> is_ok r \<or>
     jsonl_log W s t = None \<and> (\<exists>e. jsonl_log W s' = (jsonl_log W s)(t \<mapsto> [e]) \<and>
       env_event e = ThreadCreated \<and> (\<forall>x. r = Inr x \<longrightarrow> x = e)))"
proof -
  let ?n = "thread_file W t" let ?e = "with_workspace w (new_envelope i now 1 t None ThreadCreated)"
  let ?rep = "\<lambda>action. plain_io (action @ '' thread log'') (thread_path W t s)"
  have law: "codec_law W" using inv by (simp add: jsonl_inv_def)
  show ?thesis
  proof (cases "is_ok (validate_workspace_id w) \<and> is_ok (encode_line W ?e) \<and> fault_create f = None \<and>
      get_file ?n s = None")
    case False
    with run have "s' = s \<and> \<not> is_ok r"
      by (auto simp: jsonl_create_thread_def Let_def sm_simps io_step_def is_ok_iff split: sum.splits option.splits)
    with inv show ?thesis by blast
  next
    case True
    then have line: "encode_line W ?e = Inr (line_bytes W ?e @ [LF])" by (simp add: encode_line_Inr)
    from True obtain u where u: "validate_workspace_id w = Inr u" by (auto simp: is_ok_iff)
    from write_flush_effect [of f ?rep "''write''" ?n "line_bytes W ?e @ [LF]" "put_file ?n [] s"]
    obtain k r0 where w: "write_flush f ?rep ''write'' ?n (line_bytes W ?e @ [LF]) (put_file ?n [] s) =
        (r0, put_file ?n (take k (line_bytes W ?e @ [LF])) s)"
      "is_ok r0 \<Longrightarrow> length (line_bytes W ?e @ [LF]) \<le> k" by auto
    let ?c = "take k (line_bytes W ?e @ [LF])"
    have s': "s' = put_file ?n ?c s" and r: "is_ok r \<longleftrightarrow> is_ok r0" "r = Inr x \<Longrightarrow> x = ?e" for x
      using run True u line w(1)
      by (auto simp: jsonl_create_thread_def Let_def sm_simps io_step_def split: sum.splits)
    have none: "jsonl_log W s t = None" using True by (simp add: jsonl_log_None)
    have val: "valid_jsonl W t [?e]" and st: "stored W ?e"
      using True valid_jsonl_snoc [of W t "[]" ?e]
      by (simp_all add: stored_def with_workspace_def new_envelope_def with_causation_def EVENT_SCHEMA_VERSION_def)
    show ?thesis
    proof (cases "log_file W [?e] ?c")
      case True
      with jsonl_inv_put [OF inv val True] jsonl_log_put [OF law val True] s' r(2) none created_simps(4)
      show ?thesis by blast
    next
      case False
      have "is_ok r0 \<Longrightarrow> ?c = log_text W [?e]" using w(2) by (simp add: log_text_def)
      with False have "\<not> is_ok r" using r(1) log_file_text by metis
      moreover have "log_file W [] ?c"
        using log_file_write [OF law st, of "[]" k] False by simp
      ultimately show ?thesis
        using jsonl_inv_put [OF inv valid_jsonl_Nil] jsonl_log_put [OF law valid_jsonl_Nil] none s' by auto
    qed
  qed
qed

lemma append_missing:
  assumes "jsonl_log W s (ap_thread_id cmd) = None"
  shows "\<exists>err. jsonl_append_event W f i now cmd s = (Inl err, s)"
proof -
  obtain err where "read_existing W f (ap_thread_id cmd) s = Inl err"
    using assms read_existing_Inr [of W f "ap_thread_id cmd" s]
    by (cases "read_existing W f (ap_thread_id cmd) s") (auto simp: jsonl_log_None)
  then show ?thesis by (simp add: jsonl_append_event_def Let_def sm_simps)
qed

lemma log_grew_new: "l t = None \<Longrightarrow> length new \<le> 1 \<Longrightarrow> log_grew t l (l(t \<mapsto> new))"
  unfolding log_grew_def by (rule disjI2, rule exI [of _ new]) simp

lemma log_grew_more: "l t = Some L \<Longrightarrow> log_grew t l (l(t \<mapsto> L @ [e]))"
  using log_grew_entry [of t l e] by simp

text \<open>
  The contract of the store interface, with a different fault in every call: the faults are a function
  of the identifier the call draws.
\<close>

interpretation jsonl_store: event_log_store "jsonl_inv W" "jsonl_log W"
    "\<lambda>i. jsonl_create_thread W (f i) i" "\<lambda>i. jsonl_append_event W (f i) i"
    "jsonl_events_after W no_faults now" "2 ^ 64" for W f now
proof
  show "gap_free L \<and> length L < 2 ^ 64" if "jsonl_inv W s" "jsonl_log W s t = Some L" for s t L
    using jsonl_log_Some [OF that] by (auto simp: valid_jsonl_def)
  show "jsonl_inv W s' \<and> log_grew t (jsonl_log W s) (jsonl_log W s')"
    if "jsonl_inv W s" "jsonl_create_thread W (f i) i now t w s = (Inl err, s')" for s i now t w err s'
    using create_effect [OF that] log_grew_new [of "jsonl_log W s" t "[]"]
      log_grew_new [of "jsonl_log W s" t "[e]" for e] by auto
  show "jsonl_inv W s' \<and> jsonl_log W s t = None \<and> jsonl_log W s' = (jsonl_log W s)(t \<mapsto> [e]) \<and>
      env_event e = ThreadCreated"
    if "jsonl_inv W s" "jsonl_create_thread W (f i) i now t w s = (Inr e, s')" for s i now t w e s'
    using create_effect [OF that] by auto
  show "jsonl_inv W s' \<and> log_grew (ap_thread_id cmd) (jsonl_log W s) (jsonl_log W s')"
    if "jsonl_inv W s" "jsonl_append_event W (f i) i now cmd s = (Inl err, s')" for s i now cmd err s'
  proof (cases "jsonl_log W s (ap_thread_id cmd)")
    case None
    with append_missing [OF None, of "f i" i now] that show ?thesis by auto
  next
    case (Some L)
    from append_effect [OF that(1) Some that(2)] Some show ?thesis by (auto intro: log_grew_more)
  qed
  show "jsonl_inv W s' \<and> jsonl_log W s' = (jsonl_log W s)(ap_thread_id cmd \<mapsto> L @ [e]) \<and> env_event e = ap_event cmd"
    if "jsonl_inv W s" "jsonl_append_event W (f i) i now cmd s = (Inr e, s')"
      "jsonl_log W s (ap_thread_id cmd) = Some L" for s i now cmd e s' L
    using append_effect [OF that(1,3,2)] by auto
  show "jsonl_log W s (ap_thread_id cmd) \<noteq> None"
    if "jsonl_append_event W (f i) i now cmd s = (Inr e, s')" for s i now cmd e s'
    using that append_missing by (metis Inl_Inr_False fst_conv)
  show "jsonl_events_after W no_faults now t n s = Inr (filter (\<lambda>e. n < env_seq e) L)"
    if "jsonl_inv W s" "jsonl_log W s t = Some L" for s t L n
    using events_after_log [OF that] by (simp add: no_faults_def)
qed simp

subsection \<open>What is read from the directory\<close>

lemma events_after_Inr:
  assumes "jsonl_inv W s" and "jsonl_events_after W f now t n s = Inr L'"
  shows "\<exists>L. jsonl_log W s t = Some L \<and> L' = filter (\<lambda>e. n < env_seq e) L"
proof -
  from assms(2) obtain c where c: "read_existing W f t s = Inr c"
    by (auto simp: jsonl_events_after_def and_then_Inr_iff)
  then have "get_file (thread_file W t) s = Some c" by (rule read_existing_Inr)
  then obtain L where L: "jsonl_log W s t = Some L" using jsonl_log_None [of W s t] by fastforce
  then obtain c' where c': "get_file (thread_file W t) s = Some c'" "valid_jsonl W t L" "log_file W L c'"
    using jsonl_log_Some [OF assms(1)] by blast
  moreover have "codec_law W" using assms(1) by (simp add: jsonl_inv_def)
  ultimately show ?thesis
    using assms(2) c L read_existing_Inr [OF c] parse_log_file [of W t L c now "thread_path W t s"]
    by (auto simp: jsonl_events_after_def)
qed

lemma log_positive: "jsonl_inv W s \<Longrightarrow> jsonl_log W s t = Some L \<Longrightarrow> filter (\<lambda>e. 0 < env_seq e) L = L"
  using jsonl_log_Some [of W s t L] by (auto simp: valid_jsonl_def gap_free_filter)

lemma get_thread_Inr:
  assumes "jsonl_inv W s" and "jsonl_get_thread W f now t s = Inr th"
  shows "th_id th = t \<and> (\<exists>L. jsonl_log W s t = Some L \<and> L \<noteq> [] \<and> env_event (hd L) = ThreadCreated)"
proof -
  from assms(2) obtain L where L: "jsonl_events_after W f now t 0 s = Inr L"
      "reconstruct_thread (cx_ext W) t L = Inr th"
    by (auto simp: jsonl_get_thread_def and_then_Inr_iff)
  with events_after_Inr [OF assms(1) L(1)] log_positive [OF assms(1)] have "jsonl_log W s t = Some L" by auto
  with L(2) show ?thesis
    by (auto simp: reconstruct_thread_def split: list.splits if_splits prod.splits)
qed

definition listed_threads :: "wire \<Rightarrow> jsonl \<Rightarrow> uuid list" where
  "listed_threads W s = List.map_filter (\<lambda>(n, c). listed_thread W n) (jl_files s)"

lemma map_results_set:
  "map_results g xs = Inr ys \<Longrightarrow> set ys = {y. \<exists>x \<in> set xs. g x = Inr y} \<and> (\<forall>x \<in> set xs. is_ok (g x))"
  by (induction xs arbitrary: ys) (auto simp: and_then_Inr_iff)

lemma list_threads_Inr:
  assumes "jsonl_inv W s" and "jsonl_list_threads W f now s = Inr sums"
  shows "sum_id ` set sums = set (listed_threads W s) \<and>
    (\<forall>t \<in> set (listed_threads W s).
       \<exists>L. jsonl_log W s t = Some L \<and> L \<noteq> [] \<and> env_event (hd L) = ThreadCreated)"
proof -
  from assms(2) obtain ys where ys:
      "map_results (\<lambda>t. summarize_thread W f now t s) (listed_threads W s) = Inr ys" "set sums = set ys"
    by (auto simp: jsonl_list_threads_def listed_threads_def and_then_Inr_iff split: option.splits)
  have sm: "sum_id m = t \<and> (\<exists>L. jsonl_log W s t = Some L \<and> L \<noteq> [] \<and> env_event (hd L) = ThreadCreated)"
    if "summarize_thread W f now t s = Inr m" for t m
    using that get_thread_Inr [OF assms(1)]
    by (fastforce simp: summarize_thread_def and_then_Inr_iff summary_from_thread_def)
  note res = map_results_set [OF ys(1)]
  have "sum_id ` set sums = set (listed_threads W s)"
    using res sm ys(2) by (force simp: is_ok_iff)
  moreover from res sm have "\<forall>t \<in> set (listed_threads W s).
      \<exists>L. jsonl_log W s t = Some L \<and> L \<noteq> [] \<and> env_event (hd L) = ThreadCreated"
    by (auto simp: is_ok_iff)
  ultimately show ?thesis by blast
qed

subsection \<open>A working store\<close>

lemma no_faults_simps [simp]:
  "fault_read no_faults n = None" "fault_open no_faults = None" "fault_write no_faults = None"
  "fault_flush no_faults = None" "fault_cut_open no_faults = None" "fault_cut no_faults = None"
  by (simp_all add: no_faults_def)

lemma repair_no_faults: "\<exists>p s'. repair_tail no_faults n path tail s = (Inr p, s')"
  by (cases tail) (auto simp: repair_tail_def io_step_def sm_simps)

lemma append_no_faults:
  assumes inv: "jsonl_inv W s" and log: "jsonl_log W s (ap_thread_id cmd) = Some L"
    and room: "Suc (length L) < 2 ^ 64"
    and enc: "is_ok (encode_line W (next_envelope i now cmd (Suc (length L)) L))"
  shows "\<exists>s'. jsonl_append_event W no_faults i now cmd s =
    (Inr (next_envelope i now cmd (Suc (length L)) L), s')"
proof -
  let ?t = "ap_thread_id cmd" let ?n = "thread_file W ?t" let ?p = "thread_path W ?t s"
  obtain c where c: "get_file ?n s = Some c" "valid_jsonl W ?t L" "log_file W L c"
    using jsonl_log_Some [OF inv log] by blast
  moreover have "codec_law W" using inv by (simp add: jsonl_inv_def)
  ultimately obtain tail where p: "parse_log W now ?p ?t c = Inr \<lparr>pl_events = L, pl_tail = tail\<rparr>"
    using parse_log_file by blast
  obtain q s1 where rep: "repair_tail no_faults ?n ?p tail s = (Inr q, s1)" using repair_no_faults by blast
  have seq: "next_seq W ?t L = Inr (Suc (length L))"
    using room valid_jsonl_last [OF c(2)] by (auto simp: next_seq_def)
  obtain s2 where w: "write_flush no_faults rpt ''append'' ?n line s1 = (Inr (), s2 line)" for rpt line
    by (simp add: write_flush_def)
  show ?thesis
    using enc p rep seq w c(1)
    by (auto simp: jsonl_append_event_def Let_def sm_simps io_step_def read_existing_ok is_ok_iff)
qed

text \<open>A file left empty by a failed creation makes the whole listing fail.\<close>

lemma empty_log_stops_listing:
  assumes "jsonl_inv W s" and "t \<in> set (listed_threads W s)" and "jsonl_log W s t = Some []"
  shows "\<not> is_ok (jsonl_list_threads W f now s)"
  using list_threads_Inr [OF assms(1), of f now] assms(2,3) by (fastforce simp: is_ok_iff)

section \<open>An instance of the codecs\<close>

text \<open>
  A wire format that encodes two envelopes and nothing else, each as a short text in braces, and reads
  these texts back: it shows that the law of the codecs can hold.
\<close>

definition demo_created :: EventEnvelope where
  "demo_created = with_workspace default_workspace (new_envelope 7 5 1 3 None ThreadCreated)"

definition demo_started :: EventEnvelope where
  "demo_started = with_workspace default_workspace (new_envelope 8 6 2 3 None TurnStarted)"

definition wire_codec :: codec where
  "wire_codec = demo_codec\<lparr>event_of_json := (\<lambda>j.
     if json_get_str ''type'' j = Some ''turn_started'' then Inr TurnStarted
     else if json_get_str ''type'' j = Some ''thread_created'' then Inr ThreadCreated else Inl ''event'')\<rparr>"

definition demo_wire :: wire where
  "demo_wire = \<lparr>cx_ext = demo_ext\<lparr>uuid_string := (\<lambda>u. replicate u CHR ''a'')\<rparr>, cx_codec = wire_codec,
     cx_text = \<lparr>
       to_vec = (\<lambda>j. if j = envelope_to_json wire_codec demo_created then Inr ''{x}''
         else if j = envelope_to_json wire_codec demo_started then Inr ''{xx}'' else Inl ''unknown''),
       from_slice = (\<lambda>b. if b = ''{x}'' then Inr (envelope_to_json wire_codec demo_created)
         else if b = ''{xx}'' then Inr (envelope_to_json wire_codec demo_started) else Inl ''syntax''),
       uuid_from_str = (\<lambda>s. if s = replicate (length s) CHR ''a'' then Some (length s) else None)\<rparr>\<rparr>"

lemma demo_wire_simps [simp]:
  "cx_codec demo_wire = wire_codec"
  "uuid_string (cx_ext demo_wire) u = replicate u CHR ''a''"
  "from_slice (cx_text demo_wire) b = (if b = ''{x}'' then Inr (envelope_to_json wire_codec demo_created)
     else if b = ''{xx}'' then Inr (envelope_to_json wire_codec demo_started) else Inl ''syntax'')"
  "to_vec (cx_text demo_wire) j = (if j = envelope_to_json wire_codec demo_created then Inr ''{x}''
     else if j = envelope_to_json wire_codec demo_started then Inr ''{xx}'' else Inl ''unknown'')"
  by (simp_all add: demo_wire_def)

lemma event_name_cases:
  "event_name ev = ''thread_created'' \<longleftrightarrow> ev = ThreadCreated"
  "event_name ev = ''turn_started'' \<longleftrightarrow> ev = TurnStarted"
  by (cases ev; simp)+

lemma wire_event: "envelope_to_json wire_codec e = envelope_to_json wire_codec d \<Longrightarrow>
    event_name (env_event e) = event_name (env_event d)"
  by (drule arg_cong [where f = "json_get ''type''"])
     (simp add: envelope_to_json_def map_add_def split: option.splits)

lemma wire_codec_ok:
  "event_of_json wire_codec (event_to_json wire_codec (env_event e)) = Inr (env_event e) \<Longrightarrow> codec_ok wire_codec e"
  by (cases "env_stream_kind e") (simp_all add: codec_ok_def uuid_codec_def wire_codec_def demo_codec_def)

lemma demo_wire_law: "codec_law demo_wire"
proof -
  have inj: "inj (uuid_string (cx_ext demo_wire))"
    by (rule injI) (metis demo_wire_simps(2) length_replicate)
  have law: "codec_ok wire_codec e \<and> text_ok demo_wire b (envelope_to_json wire_codec e)"
    if run: "to_vec (cx_text demo_wire) (envelope_to_json wire_codec e) = Inr b" for e b
  proof -
    consider "envelope_to_json wire_codec e = envelope_to_json wire_codec demo_created" "b = ''{x}''"
      | "envelope_to_json wire_codec e = envelope_to_json wire_codec demo_started" "b = ''{xx}''"
      using run by (auto split: if_splits)
    then show ?thesis
    proof cases
      case 1
      from wire_event [OF 1(1)] have "env_event e = ThreadCreated"
        by (simp add: demo_created_def event_name_cases)
      then have "codec_ok wire_codec e"
        by (intro wire_codec_ok) (simp add: wire_codec_def demo_codec_def json_get_str_def)
      moreover have "text_ok demo_wire b (envelope_to_json wire_codec e)"
        unfolding 1 text_ok_def by (auto simp: less_Suc_eq numeral_eq_Suc)
      ultimately show ?thesis by simp
    next
      case 2
      from wire_event [OF 2(1)] have "env_event e = TurnStarted"
        by (simp add: demo_started_def event_name_cases)
      then have "codec_ok wire_codec e"
        by (intro wire_codec_ok) (simp add: wire_codec_def demo_codec_def json_get_str_def)
      moreover have "text_ok demo_wire b (envelope_to_json wire_codec e)"
        unfolding 2 text_ok_def by (auto simp: less_Suc_eq numeral_eq_Suc)
      ultimately show ?thesis by simp
    qed
  qed
  from inj law show ?thesis by (simp add: codec_law_def)
qed

definition demo_store :: jsonl where
  "demo_store = \<lparr>jl_directory = ''data'', jl_files = [(''aaa.jsonl'', ''{x}'' @ [LF])]\<rparr>"

lemma replicate_three: "''aaa'' = replicate t CHR ''a'' \<longleftrightarrow> t = 3"
  by (auto simp: numeral_3_eq_3 dest: arg_cong [where f = length])

lemma demo_store_log: "jsonl_inv demo_wire demo_store \<and> jsonl_log demo_wire demo_store 3 = Some [demo_created]"
proof -
  have val: "valid_jsonl demo_wire 3 [demo_created]"
    by (auto simp: valid_jsonl_def gap_free_def stored_def encode_line_def demo_created_def with_workspace_def
        new_envelope_def with_causation_def EVENT_SCHEMA_VERSION_def)
  have holds: "log_file demo_wire [demo_created] (''{x}'' @ [LF])"
    using log_file_text [of demo_wire "[demo_created]"] by (simp add: log_text_def line_bytes_def)
  have f: "thread_file demo_wire 3 = ''aaa.jsonl''" by (simp add: thread_file_def numeral_3_eq_3)
  have empty: "jsonl_inv demo_wire \<lparr>jl_directory = ''data'', jl_files = []\<rparr>"
    using demo_wire_law by (rule jsonl_inv_empty)
  have st: "demo_store = put_file (thread_file demo_wire 3) (''{x}'' @ [LF]) \<lparr>jl_directory = ''data'', jl_files = []\<rparr>"
    by (simp add: demo_store_def put_file_def f)
  show ?thesis
    unfolding st jsonl_log_put [OF demo_wire_law val holds] using jsonl_inv_put [OF empty val holds] by simp
qed

lemma demo_store_logs: "jsonl_log demo_wire demo_store t = (if t = 3 then Some [demo_created] else None)"
proof (cases "t = 3")
  case False
  have "replicate t CHR ''a'' @ ''.jsonl'' = ''aaa'' @ ''.jsonl'' \<longleftrightarrow> replicate t CHR ''a'' = ''aaa''"
    by (rule append_same_eq)
  with False replicate_three [of t] have "get_file (thread_file demo_wire t) demo_store = None"
    by (auto simp: get_file_def demo_store_def thread_file_def)
  with False show ?thesis by (simp add: jsonl_log_None)
qed (simp add: demo_store_log)

lemma new_append_thread [simp]: "ap_thread_id (new_append t u ev) = t"
  by (simp add: new_append_def)

lemma demo_append: "next_envelope 8 6 (new_append 3 None TurnStarted) (Suc (Suc 0)) [demo_created] = demo_started"
  by (simp add: next_envelope_def new_append_def demo_started_def demo_created_def with_workspace_def
      new_envelope_def with_causation_def)

section \<open>Properties\<close>

text \<open>
  C22: appends are all or nothing. Whatever fails during an append to the JSONL store, after any number
  of bytes of the line, the log reads afterwards as before or with exactly the new event at its end;
  it reads with the event whenever the append reported success.
\<close>

theorem append_is_all_or_nothing:
  assumes "jsonl_inv W s" and "jsonl_log W s (ap_thread_id cmd) = Some L"
    and "jsonl_append_event W f i now cmd s = (r, s')"
  shows "\<exists>new. jsonl_events_after W no_faults later (ap_thread_id cmd) 0 s' = Inr (L @ new) \<and>
    (new = [] \<and> \<not> is_ok r \<or> (\<exists>e. new = [e] \<and> env_event e = ap_event cmd \<and> r \<in> {Inr e} \<union> range Inl))"
proof -
  let ?t = "ap_thread_id cmd"
  have eff: "jsonl_inv W s'"
    "jsonl_log W s' = jsonl_log W s \<and> \<not> is_ok r \<or>
     (\<exists>e. jsonl_log W s' = (jsonl_log W s)(?t \<mapsto> L @ [e]) \<and> env_event e = ap_event cmd \<and> (\<forall>x. r = Inr x \<longrightarrow> x = e))"
    using append_effect [OF assms] by blast+
  have read: "jsonl_events_after W no_faults later ?t 0 s' = Inr M" if "jsonl_log W s' ?t = Some M" for M
    using events_after_log [OF eff(1) that, of no_faults later 0] log_positive [OF eff(1) that] by simp
  from eff(2) show ?thesis
  proof (elim disjE exE conjE)
    assume "jsonl_log W s' = jsonl_log W s" "\<not> is_ok r"
    with read [of L] assms(2) show ?thesis by auto
  next
    fix e assume e: "jsonl_log W s' = (jsonl_log W s)(?t \<mapsto> L @ [e])" "env_event e = ap_event cmd"
      "\<forall>x. r = Inr x \<longrightarrow> x = e"
    then have "r \<in> {Inr e} \<union> range Inl" by (cases r) auto
    with e read [of "L @ [e]"] show ?thesis by auto
  qed
qed

theorem append_is_all_or_nothing_witness:
  "\<exists>new. jsonl_events_after demo_wire no_faults 9 3 0
      (snd (jsonl_append_event demo_wire (no_faults\<lparr>fault_write := Some (2, existing_file)\<rparr>) 8 6
        (new_append 3 None TurnStarted) demo_store)) = Inr ([demo_created] @ new)"
  using append_is_all_or_nothing [of demo_wire demo_store "new_append 3 None TurnStarted" "[demo_created]"
      "no_faults\<lparr>fault_write := Some (2, existing_file)\<rparr>" 8 6 _ _ 9, OF _ _ surjective_pairing] demo_store_log
  by auto

text \<open>
  Appending repairs the log. In every state the store can reach, torn last line included, an append
  that meets no fault succeeds, and the log then reads with the event behind everything it had.
\<close>

theorem append_repairs_log:
  assumes "jsonl_inv W s" and "jsonl_log W s (ap_thread_id cmd) = Some L" and "Suc (length L) < 2 ^ 64"
    and "is_ok (encode_line W (next_envelope i now cmd (Suc (length L)) L))"
  shows "jsonl_events_after W no_faults later (ap_thread_id cmd) 0
      (snd (jsonl_append_event W no_faults i now cmd s)) =
    Inr (L @ [next_envelope i now cmd (Suc (length L)) L])"
proof -
  let ?e = "next_envelope i now cmd (Suc (length L)) L"
  from append_no_faults [OF assms] obtain s' where s': "jsonl_append_event W no_faults i now cmd s = (Inr ?e, s')" ..
  from append_effect [OF assms(1,2) s'] have inv: "jsonl_inv W s'"
    and log: "jsonl_log W s' (ap_thread_id cmd) = Some (L @ [?e])" by auto
  show ?thesis using events_after_log [OF inv log, of no_faults later 0] log_positive [OF inv log] s' by simp
qed

theorem append_repairs_log_witness:
  "jsonl_events_after demo_wire no_faults 9 3 0
      (snd (jsonl_append_event demo_wire no_faults 8 6 (new_append 3 None TurnStarted) demo_store)) =
    Inr [demo_created, demo_started]"
  using append_repairs_log [of demo_wire demo_store "new_append 3 None TurnStarted" "[demo_created]" 8 6 9]
    demo_store_log
  by (simp add: demo_append encode_line_def)

text \<open>
  C23: a reader of the JSONL store misses nothing. Through any calls of the store, each with its own
  faults, the log of a thread only grows, and a reader that resumes behind the events it has seen gets
  exactly the events added since, numbered without a gap.
\<close>

theorem faulty_store_reader_misses_nothing:
  assumes "jsonl_inv W s" and "log_room (jsonl_log W) (2 ^ 64) s (length cmds)" and "jsonl_log W s t = Some seen"
  shows "\<exists>fresh.
    jsonl_log W (fold (log_step (\<lambda>i. jsonl_create_thread W (f i) i) (\<lambda>i. jsonl_append_event W (f i) i)) cmds s) t =
      Some (seen @ fresh) \<and>
    jsonl_events_after W no_faults now t (length seen)
      (fold (log_step (\<lambda>i. jsonl_create_thread W (f i) i) (\<lambda>i. jsonl_append_event W (f i) i)) cmds s) = Inr fresh \<and>
    map env_seq fresh = [Suc (length seen)..<Suc (length seen + length fresh)]"
  using assms by (rule jsonl_store.reader_resumes)

theorem faulty_store_reader_misses_nothing_witness:
  "\<exists>fresh. jsonl_events_after demo_wire no_faults 9 3 1
      (fold (log_step (\<lambda>i. jsonl_create_thread demo_wire no_faults i) (\<lambda>i. jsonl_append_event demo_wire no_faults i))
        [AppendTo 8 6 (new_append 3 None TurnStarted)] demo_store) = Inr fresh"
proof -
  have "log_room (jsonl_log demo_wire) (2 ^ 64) demo_store 1" by (simp add: log_room_def demo_store_logs)
  with faulty_store_reader_misses_nothing [of demo_wire demo_store "[AppendTo 8 6 (new_append 3 None TurnStarted)]"
      3 "[demo_created]" "\<lambda>_. no_faults" 9] demo_store_log
  show ?thesis by auto
qed

end
