(* ===== verification/Migrate.thy ===== *)
theory Migrate
  imports JsonlSafety
begin

text \<open>
  Moving threads between the stores (\<open>src/store/migrate.rs\<close>): the import of a JSONL directory into a
  SQLite database, with its dry run and its verification, and the export of a thread to a JSONL file.
  The lemmas show that an imported thread reads the same from either store, that no file is lost
  whatever fails, and that an exported file parses back to the thread.
\<close>

section \<open>Import\<close>

record MigrateOptions =
  mo_dry_run :: bool
  mo_verify :: bool

record MigrateReport =
  mr_threads :: nat
  mr_events :: nat
  mr_hash :: string
  mr_backup_dir :: "string option"

text \<open>The source directory, the files of the backup directory, and the database.\<close>

record migration =
  mg_jsonl :: jsonl
  mg_backups :: "(string \<times> bytes) list"
  mg_db :: db

record migrate_faults =
  mf_store :: io_faults
  mf_open :: "OpsCodexError option"
  mf_backup :: "io_error option"
  mf_list :: "io_error option"
  mf_entry :: "string \<Rightarrow> io_error option"
  mf_rename :: "string \<Rightarrow> io_error option"

definition migrated_threads ::
    "wire \<Rightarrow> io_faults \<Rightarrow> time \<Rightarrow> jsonl \<Rightarrow> EventEnvelope list list result" where
  "migrated_threads W f now s =
     and_then (jsonl_list_threads W f now s) (\<lambda>summaries.
       map_results (\<lambda>m. jsonl_events_after W f now (sum_id m) 0 s) summaries)"

definition migrate_hash :: "wire \<Rightarrow> EventEnvelope list list \<Rightarrow> string" where
  "migrate_hash W threads =
     hex (sha256 (cx_ext W) (concat (map (event_hash (cx_ext W) (cx_codec W)) threads)))"

definition migrate_report :: "wire \<Rightarrow> EventEnvelope list list \<Rightarrow> string option \<Rightarrow> MigrateReport" where
  "migrate_report W threads backup =
     \<lparr>mr_threads = length threads, mr_events = sum_list (map length threads),
      mr_hash = migrate_hash W threads, mr_backup_dir = backup\<rparr>"

fun verify_threads :: "wire \<Rightarrow> db \<Rightarrow> EventEnvelope list list \<Rightarrow> unit result" where
  "verify_threads W d [] = Inr ()"
| "verify_threads W d (L # Ls) =
     (let t = env_thread_id (hd L) in
      and_then (events_after (cx_ext W) t 0 d) (\<lambda>current.
        if event_hash (cx_ext W) (cx_codec W) current \<noteq> event_hash (cx_ext W) (cx_codec W) L
        then Inl (OpsCodexError.Storage (''sqlite verification failed for thread '' @ uuid_string (cx_ext W) t))
        else verify_threads W d Ls))"

fun import_threads :: "wire \<Rightarrow> EventEnvelope list list \<Rightarrow> (db, unit) op" where
  "import_threads W [] = sret ()"
| "import_threads W (L # Ls) =
     sbind (import_thread (cx_ext W) (cx_codec W) L) (\<lambda>_. import_threads W Ls)"

definition on_db :: "(db, 'a) op \<Rightarrow> (migration, 'a) op" where
  "on_db act m = (case act (mg_db m) of (r, d) \<Rightarrow> (r, m\<lparr>mg_db := d\<rparr>))"

definition rename_file :: "string \<Rightarrow> migration \<Rightarrow> migration" where
  "rename_file n m =
     (case get_file n (mg_jsonl m) of
        None \<Rightarrow> m
      | Some c \<Rightarrow> m\<lparr>mg_jsonl := (mg_jsonl m)\<lparr>jl_files := AList.delete n (jl_files (mg_jsonl m))\<rparr>,
                    mg_backups := AList.update n c (mg_backups m)\<rparr>)"

fun move_files :: "migrate_faults \<Rightarrow> string list \<Rightarrow> (migration, unit) op" where
  "move_files f [] = sret ()"
| "move_files f (n # ns) =
     (case mf_entry f n of
        Some e \<Rightarrow> sfail (OpsCodexError.Storage (''failed to read JSONL entry: '' @ ie_text e))
      | None \<Rightarrow>
          if path_extension n \<noteq> Some ''jsonl'' then move_files f ns
          else (case mf_rename f n of
            Some e \<Rightarrow> (\<lambda>m. (Inl (OpsCodexError.Storage (''failed to move ''
               @ path_join (jl_directory (mg_jsonl m)) n @ '' to backup: '' @ ie_text e)), m))
          | None \<Rightarrow> sbind (supd (rename_file n)) (\<lambda>_. move_files f ns)))"

definition back_up :: "migrate_faults \<Rightarrow> string \<Rightarrow> (migration, unit) op" where
  "back_up f backup_dir m =
     (case mf_backup f of
        Some e \<Rightarrow> (Inl (OpsCodexError.Storage (''failed to create JSONL backup '' @ backup_dir @ '': '' @ ie_text e)), m)
      | None \<Rightarrow> (case mf_list f of
          Some e \<Rightarrow> (Inl (OpsCodexError.Storage (''failed to list JSONL store: '' @ ie_text e)), m)
        | None \<Rightarrow> move_files f (map fst (jl_files (mg_jsonl m))) m))"

definition migrate_jsonl_to_sqlite ::
    "wire \<Rightarrow> migrate_faults \<Rightarrow> time \<Rightarrow> string \<Rightarrow> MigrateOptions \<Rightarrow> (migration, MigrateReport) op" where
  "migrate_jsonl_to_sqlite W f now stamp opts m =
     (let src = mg_jsonl m; backup_dir = path_join (jl_directory src) (''backup-'' @ stamp) in
      sbind (slift (jsonl_new (mf_store f) (jl_directory src) (jl_files src))) (\<lambda>src.
      sbind (slift (migrated_threads W (mf_store f) now src)) (\<lambda>threads.
      if mo_dry_run opts then sret (migrate_report W threads None)
      else sbind (slift (case mf_open f of Some e \<Rightarrow> Inl e | None \<Rightarrow> Inr ())) (\<lambda>_.
        if mo_verify opts
        then sbind (sgets (\<lambda>m. verify_threads W (mg_db m) threads)) (\<lambda>_.
               sret (migrate_report W threads None))
        else sbind (on_db (import_threads W threads)) (\<lambda>_.
             sbind (back_up f backup_dir) (\<lambda>_.
               sret (migrate_report W threads (Some backup_dir))))))) m)"

section \<open>Export\<close>

text \<open>What goes wrong during an export; a write that fails has written some bytes of its line.\<close>

record export_faults =
  xf_mkdir :: "io_error option"
  xf_create :: "io_error option"
  xf_write :: "nat \<Rightarrow> (nat \<times> io_error) option"
  xf_flush :: "io_error option"

record ExportReport =
  xr_thread_id :: uuid
  xr_events :: nat
  xr_path :: string

type_synonym disk = "(string \<times> bytes) list"

fun write_lines :: "wire \<Rightarrow> export_faults \<Rightarrow> string \<Rightarrow> EventEnvelope list \<Rightarrow> (disk, unit) op" where
  "write_lines W f path [] = sret ()"
| "write_lines W f path (e # es) =
     sbind (slift (encode_line W e)) (\<lambda>line d.
       let old = (case map_of d path of None \<Rightarrow> [] | Some c \<Rightarrow> c) in
       case xf_write f (length es) of
         Some (k, err) \<Rightarrow> (Inl (OpsCodexError.Storage (''failed to write '' @ path @ '': '' @ ie_text err)),
             AList.update path (old @ take k line) d)
       | None \<Rightarrow> write_lines W f path es (AList.update path (old @ line) d))"

definition write_jsonl :: "wire \<Rightarrow> export_faults \<Rightarrow> string \<Rightarrow> string \<Rightarrow> EventEnvelope list \<Rightarrow> (disk, unit) op" where
  "write_jsonl W f parent path events d =
     (case xf_mkdir f of
        Some e \<Rightarrow> (Inl (OpsCodexError.Storage (''failed to create export directory '' @ parent @ '': '' @ ie_text e)), d)
      | None \<Rightarrow> (case xf_create f of
          Some e \<Rightarrow> (Inl (OpsCodexError.Storage (''failed to create '' @ path @ '': '' @ ie_text e)), d)
        | None \<Rightarrow>
            sbind (write_lines W f path events) (\<lambda>_.
            slift (case xf_flush f of
              Some e \<Rightarrow> Inl (OpsCodexError.Storage (''failed to flush '' @ path @ '': '' @ ie_text e))
            | None \<Rightarrow> Inr ())) (AList.update path [] d)))"

definition export_thread_jsonl ::
    "wire \<Rightarrow> export_faults \<Rightarrow> db \<Rightarrow> (string \<Rightarrow> string) \<Rightarrow> string \<Rightarrow> string \<Rightarrow> string \<Rightarrow> (disk, ExportReport) op" where
  "export_thread_jsonl W f store parse_error thread_id parent out =
     (case uuid_from_str (cx_text W) thread_id of
        None \<Rightarrow> sfail (OpsCodexError.Protocol (''invalid thread id: '' @ parse_error thread_id))
      | Some t \<Rightarrow>
          sbind (slift (events_after (cx_ext W) t 0 store)) (\<lambda>events.
          sbind (write_jsonl W f parent out events) (\<lambda>_.
          sret \<lparr>xr_thread_id = t, xr_events = length events, xr_path = out\<rparr>)))"

section \<open>Lemmas\<close>

subsection \<open>Files\<close>

definition kept :: "string \<Rightarrow> bytes \<Rightarrow> migration \<Rightarrow> bool" where
  "kept n c m \<longleftrightarrow> get_file n (mg_jsonl m) = Some c \<or>
     get_file n (mg_jsonl m) = None \<and> map_of (mg_backups m) n = Some c"

lemma kept_rename: "kept n c m \<Longrightarrow> kept n c (rename_file k m)"
  by (auto simp: kept_def rename_file_def get_file_def delete_conv' update_conv' split: option.split)

lemma kept_move_files: "kept n c m \<Longrightarrow> kept n c (snd (move_files f ns m))"
  by (induction f ns arbitrary: m rule: move_files.induct)
    (auto simp: sm_simps kept_rename split: option.split)

lemma kept_moved:
  "move_files f ns (m\<lparr>mg_db := d\<rparr>) = (r, m') \<Longrightarrow> kept n c m \<Longrightarrow> kept n c m'"
  using kept_move_files [of n c "m\<lparr>mg_db := d\<rparr>" f ns] by (simp add: kept_def)

lemma kept_migrate:
  assumes "kept n c m"
  shows "kept n c (snd (migrate_jsonl_to_sqlite W f now stamp opts m))"
proof -
  have "kept n c (m\<lparr>mg_db := d\<rparr>)" for d using assms by (simp add: kept_def)
  then show ?thesis using assms
    by (auto simp: migrate_jsonl_to_sqlite_def Let_def sm_simps on_db_def back_up_def
        split: sum.split prod.split option.split dest: kept_moved)
qed

subsection \<open>What is imported\<close>

lemma migrated_threads_Inr:
  assumes inv: "jsonl_inv W s" and "migrated_threads W f now s = Inr Ls"
  shows "set Ls = {L. \<exists>t \<in> set (listed_threads W s). jsonl_log W s t = Some L} \<and>
    (\<forall>L \<in> set Ls. L \<noteq> [] \<and> env_event (hd L) = ThreadCreated)"
proof -
  from assms(2) obtain sums where sums: "jsonl_list_threads W f now s = Inr sums"
    and res: "map_results (\<lambda>m. jsonl_events_after W f now (sum_id m) 0 s) sums = Inr Ls"
    by (auto simp: migrated_threads_def and_then_Inr_iff)
  have read: "jsonl_events_after W f now t 0 s = Inr L \<Longrightarrow> jsonl_log W s t = Some L" for t L
    using events_after_Inr [OF inv] log_positive [OF inv] by fastforce
  note ids = list_threads_Inr [OF inv sums]
  have "set Ls = {L. \<exists>m \<in> set sums. jsonl_log W s (sum_id m) = Some L}"
    using map_results_set [OF res] read by (fastforce simp: is_ok_iff)
  also have "\<dots> = {L. \<exists>t \<in> sum_id ` set sums. jsonl_log W s t = Some L}" by blast
  finally have "set Ls = {L. \<exists>t \<in> set (listed_threads W s). jsonl_log W s t = Some L}" using ids by simp
  with ids show ?thesis by fastforce
qed

lemma import_thread_works:
  assumes inv: "store_inv d" and L: "valid_log t w L"
    and run: "import_thread E C L d = (Inr u, d')"
  shows "store_inv d' \<and> store_log d' = (if store_log d t = None then (store_log d)(t \<mapsto> L) else store_log d)"
proof -
  obtain e es where Le: "L = e # es" using L by (cases L) (auto simp: valid_log_def)
  with L have e: "env_thread_id e = t" "env_workspace_id e = w" by (auto simp: valid_log_def)
  show ?thesis
  proof (cases "store_log d t = None")
    case False
    then have "tbl_get tr_id t (db_threads d) \<noteq> None" using tbl_get_ids by (metis store_log_def)
    with run Le e inv False show ?thesis
      by (auto simp: import_thread_def Let_def split: sum.splits if_splits)
  next
    case True
    then have none: "tbl_get tr_id t (db_threads d) = None"
      by (auto simp: store_log_def tbl_get_ids split: if_splits)
    with run Le e obtain th d1 where
      d1: "insert_thread E e None None (th_status th) (sum_title (summary_from_thread th))
          (insert_workspace w (env_timestamp e) d) = (Inr (), d1)"
      and d2: "insert_events E L (d1\<lparr>db_threads := tbl_update (\<lambda>r. tr_id r = t)
          (\<lambda>r. r\<lparr>tr_created_at := th_created_at th, tr_updated_at := th_updated_at th\<rparr>) (db_threads d1)\<rparr>)
          = (Inr u, d')"
      by (auto simp: import_thread_def Let_def transaction_do_Inr sm_simps split: prod.splits sum.splits)
    let ?d = "d1\<lparr>db_threads := tbl_update (\<lambda>r. tr_id r = t)
          (\<lambda>r. r\<lparr>tr_created_at := th_created_at th, tr_updated_at := th_updated_at th\<rparr>) (db_threads d1)\<rparr>"
    from insert_thread_Inr [OF d1] e have k1: "t \<notin> set (map fst (thread_keys d))"
      "thread_keys d1 = thread_keys d @ [(t, w)]" "db_events d1 = db_events d" by simp_all
    have keys: "thread_keys ?d = thread_keys d1" by (auto simp: thread_keys_def tbl_update_def)
    have dist: "distinct (map er_event_id (db_events ?d))" using k1(3) inv by (simp add: store_inv_def)
    note ins = insert_events_Inr [OF d2 dist]
    have "db_events d' = db_events d @ map event_row_of L" using ins k1(3) by simp
    moreover have "thread_keys d' = thread_keys d @ [(t, w)]" using ins keys k1(2) by simp
    moreover have "distinct (map er_event_id (db_events d'))" using ins by blast
    ultimately have "store_inv d' \<and> store_log d' = (store_log d)(t \<mapsto> L)"
      using store_inv_new_thread [OF inv k1(1) L] by blast
    with True show ?thesis by simp
  qed
qed

lemma import_threads_works:
  assumes "store_inv d" and "\<forall>L \<in> set Ls. \<exists>t. log t = Some L"
    and "\<forall>L \<in> set Ls. \<forall>t. log t = Some L \<longrightarrow> (\<exists>w. valid_log t w L)"
    and "import_threads W Ls d = (Inr u, d')"
  shows "store_inv d' \<and> (\<forall>t. store_log d' t =
    (if store_log d t = None \<and> (\<exists>L \<in> set Ls. log t = Some L) then log t else store_log d t))"
  using assms
proof (induction Ls arbitrary: d)
  case (Cons L Ls)
  from Cons.prems(2,3) obtain t w where t: "log t = Some L" "valid_log t w L" by fastforce
  from Cons.prems(4) obtain d1 where d1: "import_thread (cx_ext W) (cx_codec W) L d = (Inr (), d1)"
      "import_threads W Ls d1 = (Inr u, d')"
    by (auto simp: sm_simps split: prod.splits sum.splits)
  note one = import_thread_works [OF Cons.prems(1) t(2) d1(1)]
  with Cons.IH [of d1] Cons.prems(2,3) d1(2) have inv: "store_inv d'"
    and ih: "\<And>v. store_log d' v =
      (if store_log d1 v = None \<and> (\<exists>L \<in> set Ls. log v = Some L) then log v else store_log d1 v)"
    by auto
  have only: "log v = Some L \<Longrightarrow> v = t" for v
    using Cons.prems(3) t(2) by (fastforce simp: valid_log_def)
  have d1v: "store_log d1 v = (if v = t \<and> store_log d t = None then Some L else store_log d v)" for v
    using one by (cases "store_log d t = None") auto
  have "store_log d' v = (if store_log d v = None \<and> (\<exists>L' \<in> set (L # Ls). log v = Some L') then log v
      else store_log d v)" for v
  proof (cases "v = t")
    case True
    then show ?thesis unfolding ih d1v by (simp add: t(1))
  next
    case False
    with only [of v] have "log v \<noteq> Some L" by blast
    with False show ?thesis unfolding ih d1v by simp
  qed
  with inv show ?case by blast
qed (simp add: sm_simps)

lemma valid_jsonl_log:
  assumes "valid_jsonl W t L" and "L \<noteq> []" and "env_event (hd L) = ThreadCreated" and "length L < 2 ^ 63"
  shows "\<exists>w. valid_log t w L"
  using assms by (auto simp: valid_jsonl_def valid_log_def)

lemma move_files_db: "mg_db (snd (move_files f ns m)) = mg_db m"
  by (induction f ns arbitrary: m rule: move_files.induct)
    (auto simp: sm_simps rename_file_def split: option.split)

lemma back_up_db: "back_up f dir m = (r, m') \<Longrightarrow> mg_db m' = mg_db m"
  using move_files_db [of f "map fst (jl_files (mg_jsonl m))" m]
  by (auto simp: back_up_def split: option.splits)

lemma jsonl_eta [simp]: "\<lparr>jl_directory = jl_directory x, jl_files = jl_files x\<rparr> = (x :: jsonl)"
  by (cases x) simp

lemma migrate_imports:
  assumes run: "migrate_jsonl_to_sqlite W f now stamp \<lparr>mo_dry_run = False, mo_verify = False\<rparr> m = (Inr rep, m')"
  shows "\<exists>Ls. migrated_threads W (mf_store f) now (mg_jsonl m) = Inr Ls \<and>
    import_threads W Ls (mg_db m) = (Inr (), mg_db m')"
proof -
  from run obtain Ls d where
    "migrated_threads W (mf_store f) now \<lparr>jl_directory = jl_directory (mg_jsonl m), jl_files = jl_files (mg_jsonl m)\<rparr> = Inr Ls"
    "import_threads W Ls (mg_db m) = (Inr (), d)"
    "back_up f (path_join (jl_directory (mg_jsonl m)) (''backup-'' @ stamp)) (m\<lparr>mg_db := d\<rparr>) = (Inr (), m')"
    by (auto simp: migrate_jsonl_to_sqlite_def Let_def sm_simps on_db_def jsonl_new_def
        split: sum.splits prod.splits option.splits)
  moreover from back_up_db [OF this(3)] have "mg_db m' = d" by simp
  ultimately show ?thesis by simp
qed

subsection \<open>What is exported\<close>

lemma write_lines_Inr:
  "write_lines W f path es d = (Inr u, d') \<Longrightarrow> map_of d path = Some c \<Longrightarrow>
     map_of d' path = Some (c @ log_text W es) \<and> (\<forall>e \<in> set es. is_ok (encode_line W e))"
proof (induction es arbitrary: d c)
  case (Cons e es)
  from Cons.prems(1) obtain line where line: "encode_line W e = Inr line"
    by (auto simp: sm_simps split: sum.splits)
  with Cons.prems obtain d1 where d1: "write_lines W f path es d1 = (Inr u, d')" "map_of d1 path = Some (c @ line)"
    by (auto simp: sm_simps Let_def update_conv' split: option.splits)
  from line have "line = line_bytes W e @ [LF]" by (simp add: encode_line_Inr)
  with Cons.IH [OF d1] line show ?case by (simp add: log_text_def)
qed (simp add: sm_simps)

section \<open>Properties\<close>


definition demo_migration :: migration where
  "demo_migration = \<lparr>mg_jsonl = demo_store, mg_backups = [], mg_db = empty_db\<rparr>"

definition demo_faults :: migrate_faults where
  "demo_faults = \<lparr>mf_store = no_faults, mf_open = None, mf_backup = None, mf_list = None,
     mf_entry = (\<lambda>_. None), mf_rename = (\<lambda>_. None)\<rparr>"

lemma demo_read: "jsonl_events_after demo_wire no_faults 9 3 0 demo_store = Inr [demo_created]"
  using events_after_log [of demo_wire demo_store 3 "[demo_created]" no_faults 9 0] demo_store_log
    log_positive [of demo_wire demo_store 3 "[demo_created]"] by simp

lemma demo_listed: "listed_threads demo_wire demo_store = [3]"
  by (simp add: listed_threads_def List.map_filter_def demo_store_def listed_thread_def path_extension_def
      path_stem_def rsplit_once_def split_once_def demo_wire_def)

lemma demo_created_simps:
  "env_thread_id demo_created = 3" "env_workspace_id demo_created = default_workspace"
  "env_event demo_created = ThreadCreated" "env_seq demo_created = Suc 0" "env_schema_version demo_created = EVENT_SCHEMA_VERSION"
  by (simp_all add: demo_created_def with_workspace_def new_envelope_def with_causation_def)

lemma demo_threads: "migrated_threads demo_wire no_faults 9 demo_store = Inr [[demo_created]]"
proof -
  obtain th where th: "jsonl_get_thread demo_wire no_faults 9 3 demo_store = Inr th" "th_id th = 3"
    by (simp add: jsonl_get_thread_def demo_read reconstruct_thread_def demo_created_simps apply_event_def)
  then have "jsonl_list_threads demo_wire no_faults 9 demo_store = Inr [summary_from_thread th]"
    using demo_listed by (simp add: jsonl_list_threads_def no_faults_def summarize_thread_def listed_threads_def)
  with th(2) show ?thesis by (simp add: migrated_threads_def summary_from_thread_def demo_read)
qed

lemma demo_import: "\<exists>d. import_threads demo_wire [[demo_created]] empty_db = (Inr (), d)"
  by (simp add: import_thread_def sm_simps Let_def transaction_do_def insert_workspace_def insert_thread_def
      insert_event_def index_evidence_def empty_db_def reconstruct_thread_def demo_created_simps apply_event_def
      tbl_update_def tbl_get_def)

lemma demo_migration_works:
  "\<exists>rep. fst (migrate_jsonl_to_sqlite demo_wire demo_faults 9 ''now'' \<lparr>mo_dry_run = False, mo_verify = False\<rparr>
     demo_migration) = Inr rep"
proof -
  obtain d where d: "import_threads demo_wire [[demo_created]] empty_db = (Inr (), d)" using demo_import ..
  have "fst (back_up demo_faults dir \<lparr>mg_jsonl = demo_store, mg_backups = [], mg_db = d\<rparr>) = Inr ()" for dir
    by (simp add: back_up_def demo_faults_def demo_store_def sm_simps)
  then obtain m' where "back_up demo_faults (path_join (jl_directory demo_store) ''backup-now'')
      \<lparr>mg_jsonl = demo_store, mg_backups = [], mg_db = d\<rparr> = (Inr (), m')"
    by (metis prod.collapse)
  with d demo_threads show ?thesis
    by (auto simp: migrate_jsonl_to_sqlite_def Let_def sm_simps jsonl_new_def demo_migration_def demo_faults_def
        on_db_def no_faults_def split: prod.splits sum.splits)
qed


text \<open>
  The import loses no file. Whatever fails and wherever it stops, every file that was in the JSONL
  directory is still there or in the backup directory, with the same bytes.
\<close>

theorem migration_keeps_files:
  assumes "get_file n (mg_jsonl m) = Some c"
  shows "get_file n (mg_jsonl (snd (migrate_jsonl_to_sqlite W f now stamp opts m))) = Some c \<or>
    map_of (mg_backups (snd (migrate_jsonl_to_sqlite W f now stamp opts m))) n = Some c"
  using kept_migrate [of n c m W f now stamp opts] assms by (auto simp: kept_def)

theorem migration_keeps_files_witness:
  "get_file ''aaa.jsonl'' (mg_jsonl (snd (migrate_jsonl_to_sqlite demo_wire demo_faults 9 ''now''
      \<lparr>mo_dry_run = True, mo_verify = False\<rparr> demo_migration))) = Some (''{x}'' @ [LF]) \<or>
    map_of (mg_backups (snd (migrate_jsonl_to_sqlite demo_wire demo_faults 9 ''now''
      \<lparr>mo_dry_run = True, mo_verify = False\<rparr> demo_migration))) ''aaa.jsonl'' = Some (''{x}'' @ [LF])"
  by (rule migration_keeps_files) (simp add: get_file_def demo_migration_def demo_store_def)

text \<open>
  An exported file is the thread. When an export succeeds, the file it wrote parses, at any time,
  to exactly the events of the thread in the database, with a complete last line.
\<close>

theorem exported_file_parses_back:
  assumes "codec_law W" and "store_inv d" and "store_log d t = Some L"
    and "list_all (\<lambda>e. env_schema_version e < 2 ^ 32) L"
    and "uuid_from_str (cx_text W) name = Some t"
    and "export_thread_jsonl W f d perr name parent out files = (Inr rep, files')"
  shows "\<exists>c. map_of files' out = Some c \<and> parse_log W now path t c = Inr \<lparr>pl_events = L, pl_tail = Clean\<rparr>"
proof -
  have "events_after (cx_ext W) t 0 d = Inr (filter (\<lambda>e. 0 < env_seq e) L)"
    using load_events_log [OF assms(2,3), of 0] by (simp add: events_after_def)
  moreover obtain w where L: "valid_log t w L" using store_log_valid [OF assms(2,3)] by blast
  then have "filter (\<lambda>e. 0 < env_seq e) L = L" using gap_free_filter [of L 0] by (simp add: valid_log_def)
  ultimately obtain d1 where d1: "write_lines W f out L (AList.update out [] files) = (Inr (), d1)" "d1 = files'"
    using assms(5,6)
    by (auto simp: export_thread_jsonl_def write_jsonl_def sm_simps split: option.splits prod.splits sum.splits)
  from write_lines_Inr [OF d1(1), of "[]"] d1(2)
  have out: "map_of files' out = Some (log_text W L)" and enc: "\<forall>e \<in> set L. is_ok (encode_line W e)"
    by (auto simp: update_conv')
  have "\<forall>e \<in> set L. env_seq e < 2 ^ 64"
    using L by (auto simp: valid_log_def gap_free_def in_set_conv_nth)
  with L enc assms(4) have "valid_jsonl W t L"
    by (auto simp: valid_jsonl_def stored_def valid_log_def list_all_iff)
  moreover have "parse_log W now path t (log_text W L) =
      and_then (Inr L) (\<lambda>events. Inr \<lparr>pl_events = events, pl_tail = Clean\<rparr>)" if "valid_jsonl W t L"
    using parse_complete [OF assms(1) that, of now path "[]"] complete_log [of "[]" W L]
    by (auto simp: parse_log_def Let_def split: if_splits)
  ultimately show ?thesis using out by simp
qed

theorem exported_file_parses_back_witness:
  "\<exists>c. map_of (snd (export_thread_jsonl demo_wire
        \<lparr>xf_mkdir = None, xf_create = None, xf_write = (\<lambda>_. None), xf_flush = None\<rparr>
        (snd (create_thread (cx_ext demo_wire) 7 5 3 default_workspace empty_db)) (\<lambda>s. s) ''aaa'' ''out'' ''out/t'' []))
      ''out/t'' = Some c \<and>
    parse_log demo_wire 9 ''out/t'' 3 c = Inr \<lparr>pl_events = [demo_created], pl_tail = Clean\<rparr>"
proof -
  let ?r = "create_thread (cx_ext demo_wire) 7 5 3 default_workspace empty_db"
  let ?x = "export_thread_jsonl demo_wire \<lparr>xf_mkdir = None, xf_create = None, xf_write = (\<lambda>_. None), xf_flush = None\<rparr>
        (snd ?r) (\<lambda>s. s) ''aaa'' ''out'' ''out/t'' []"
  have "validate_workspace_id default_workspace = Inr ()" by code_simp
  then have run: "?r = (Inr demo_created, snd ?r)"
    by (simp add: create_thread_def sm_simps transaction_do_def insert_workspace_def
        insert_thread_def insert_event_def empty_db_def Let_def demo_created_def)
  have st: "store_inv (snd ?r)" "store_log (snd ?r) 3 = Some [demo_created]"
    using create_thread_works [OF store_inv_empty run] by simp_all
  have "uuid_from_str (cx_text demo_wire) ''aaa'' = Some 3" by (simp add: demo_wire_def)
  moreover have "events_after (cx_ext demo_wire) 3 0 (snd ?r) = Inr [demo_created]"
    using load_events_log [OF st, of 0] by (simp add: events_after_def demo_created_simps)
  ultimately have "\<exists>rep. fst ?x = Inr rep"
    by (simp add: export_thread_jsonl_def sm_simps write_jsonl_def encode_line_def Let_def)
  then obtain rep where x: "?x = (Inr rep, snd ?x)" by (metis prod.collapse)
  show ?thesis
    by (rule exported_file_parses_back [OF demo_wire_law st _ _ x])
      (simp_all add: demo_wire_def demo_created_simps EVENT_SCHEMA_VERSION_def)
qed

end
