(* ===== verification/Sse.thy ===== *)
theory Sse
  imports SqliteStore
begin

text \<open>
  The live event stream of a thread (\<open>src/server/sse.rs\<close>, the event hub of \<open>src/server/mod.rs\<close>): a
  client gets the events of the log behind a sequence number and then the events that are broadcast,
  with a re-read of the log when it was too slow. The stream is written against the interface of
  \<open>Port\<close>, so the lemmas hold for every store. They show that no event is ever sent twice or out of
  order, and that nothing is left out as long as events are broadcast in the order of the log.
\<close>

section \<open>The broadcast channel\<close>

text \<open>
  A channel is everything that was ever sent on it, a receiver a position in it. A receiver that is more
  than the capacity behind is told so once and continues with the oldest message still kept, as the
  channel of the library documents.
\<close>

definition CHANNEL_CAPACITY :: nat where "CHANNEL_CAPACITY = 256"

datatype received = Pending | Got EventEnvelope | Lagged nat

definition receive :: "EventEnvelope list \<Rightarrow> nat \<Rightarrow> received \<times> nat" where
  "receive sent pos =
     (if length sent \<le> pos then (Pending, pos)
      else if CHANNEL_CAPACITY < length sent - pos
      then (Lagged (length sent - CHANNEL_CAPACITY - pos), length sent - CHANNEL_CAPACITY)
      else (Got (sent ! pos), pos + 1))"

section \<open>The stream\<close>

record sse =
  se_kind :: "StreamKind option"
  se_pos :: nat
  se_last :: nat
  se_out :: "EventEnvelope list"
  se_open :: bool

definition kind_matches :: "StreamKind option \<Rightarrow> EventEnvelope \<Rightarrow> bool" where
  "kind_matches kind e = (case kind of None \<Rightarrow> True | Some k \<Rightarrow> env_stream_kind e = k)"

definition deliver_all :: "EventEnvelope list \<Rightarrow> sse \<Rightarrow> sse" where
  "deliver_all envs st =
     st\<lparr>se_last := fold (\<lambda>e n. max n (env_seq e)) envs (se_last st), se_out := se_out st @ envs\<rparr>"

definition start_after :: "nat \<Rightarrow> string option \<Rightarrow> (string \<Rightarrow> nat option) \<Rightarrow> nat" where
  "start_after query_after header parse =
     max query_after (case Option.bind header parse of None \<Rightarrow> 0 | Some n \<Rightarrow> n)"

text \<open>The start: subscribed at the present end of the channel, then the log was read.\<close>

definition sse_start :: "StreamKind option \<Rightarrow> nat \<Rightarrow> EventEnvelope list \<Rightarrow> EventEnvelope list \<Rightarrow> sse" where
  "sse_start kind from sent logged =
     deliver_all (filter (kind_matches kind) logged)
       \<lparr>se_kind = kind, se_pos = length sent, se_last = from, se_out = [], se_open = True\<rparr>"

text \<open>One round of the loop; \<open>read\<close> reads the log behind a number.\<close>

definition sse_poll :: "(nat \<Rightarrow> EventEnvelope list result) \<Rightarrow> EventEnvelope list \<Rightarrow> sse \<Rightarrow> sse" where
  "sse_poll read sent st =
     (if \<not> se_open st then st
      else case receive sent (se_pos st) of
        (Pending, p) \<Rightarrow> st
      | (Got e, p) \<Rightarrow>
          if se_last st < env_seq e \<and> kind_matches (se_kind st) e
          then st\<lparr>se_pos := p, se_last := env_seq e, se_out := se_out st @ [e]\<rparr>
          else if se_last st < env_seq e then st\<lparr>se_pos := p, se_last := env_seq e\<rparr>
          else st\<lparr>se_pos := p\<rparr>
      | (Lagged n, p) \<Rightarrow>
          (case read (se_last st) of
             Inl err \<Rightarrow> st\<lparr>se_pos := p, se_open := False\<rparr>
           | Inr missed \<Rightarrow> deliver_all (filter (kind_matches (se_kind st)) missed) (st\<lparr>se_pos := p\<rparr>)))"

text \<open>An event on the wire: its number as the id, its name and its JSON text.\<close>

definition sse_event :: "ext \<Rightarrow> codec \<Rightarrow> EventEnvelope \<Rightarrow> string \<times> string \<times> bytes" where
  "sse_event E C e = (show_nat (env_seq e), event_name (env_event e), json_bytes E (envelope_to_json C e))"

section \<open>A stream in the running system\<close>

text \<open>
  What happens around the stream of one thread: the store changes and its log grows, an event of the log
  is broadcast, and the stream runs one round. With \<open>Some b\<close> events are broadcast in the order of the
  log, each once, from the \<open>b\<close>th on.
\<close>

inductive live_step ::
    "('s \<Rightarrow> bool) \<Rightarrow> ('s \<Rightarrow> uuid \<Rightarrow> EventEnvelope list option) \<Rightarrow> (uuid \<Rightarrow> nat \<Rightarrow> 's \<Rightarrow> EventEnvelope list result) \<Rightarrow>
     uuid \<Rightarrow> nat option \<Rightarrow> 's \<times> EventEnvelope list \<times> sse \<Rightarrow> 's \<times> EventEnvelope list \<times> sse \<Rightarrow> bool"
  for inv log after t base where
  Store: "inv s \<Longrightarrow> inv s' \<Longrightarrow> log s t = Some L \<Longrightarrow> log s' t = Some (L @ new) \<Longrightarrow>
    live_step inv log after t base (s, sent, st) (s', sent, st)"
| Publish: "log s t = Some L \<Longrightarrow> e \<in> set L \<Longrightarrow>
    (case base of None \<Rightarrow> True | Some b \<Rightarrow> b + length sent < length L \<and> e = L ! (b + length sent)) \<Longrightarrow>
    live_step inv log after t base (s, sent, st) (s, sent @ [e], st)"
| Poll: "live_step inv log after t base (s, sent, st) (s, sent, sse_poll (\<lambda>n. after t n s) sent st)"

inductive_cases live_stepE [consumes 1, case_names Store Publish Poll]: "live_step iv log after t base (s, sent, st) c"

section \<open>Lemmas\<close>

lemma deliver_simps [simp]:
  "se_kind (deliver_all envs st) = se_kind st"
  "se_pos (deliver_all envs st) = se_pos st"
  "se_open (deliver_all envs st) = se_open st"
  "se_out (deliver_all envs st) = se_out st @ envs"
  "se_last (deliver_all envs st) = fold (\<lambda>e n. max n (env_seq e)) envs (se_last st)"
  by (simp_all add: deliver_all_def)

lemma fold_max_ge: "(n :: nat) \<le> fold (\<lambda>e n. max n (f e)) es n"
  by (induction es arbitrary: n) (simp, simp, meson max.bounded_iff)

lemma fold_max_all: "e \<in> set es \<Longrightarrow> f e \<le> fold (\<lambda>e n. max n (f e)) es (n :: nat)"
proof (induction es arbitrary: n)
  case (Cons d es)
  then show ?case using fold_max_ge [of "max n (f d)" f es] by auto
qed simp

lemma fold_max_attained: "fold (\<lambda>e n. max n (f e)) es (n :: nat) = n \<or> (\<exists>e \<in> set es. fold (\<lambda>e n. max n (f e)) es n = f e)"
  by (induction es arbitrary: n) (auto simp: max_def)

lemma gap_free_seq_range: "gap_free L \<Longrightarrow> e \<in> set L \<Longrightarrow> 0 < env_seq e \<and> env_seq e \<le> length L"
  by (auto simp: gap_free_def in_set_conv_nth)

lemma gap_free_drop_seq: "gap_free L \<Longrightarrow> e \<in> set (drop n L) \<longleftrightarrow> e \<in> set L \<and> n < env_seq e"
  by (simp flip: gap_free_filter)

text \<open>Reading the log behind a number gives all there is: nothing behind the new last number matches.\<close>

lemma catch_up:
  assumes L: "gap_free L" and l: "l = fold (\<lambda>e n. max n (env_seq e)) (filter m (drop n L)) n"
  shows "filter m (drop l L) = [] \<and> n \<le> l \<and> (l = n \<or> l \<le> length L)"
proof (intro conjI)
  show "n \<le> l" unfolding l by (rule fold_max_ge)
  show "filter m (drop l L) = []"
  proof (rule ccontr)
    assume "filter m (drop l L) \<noteq> []"
    then obtain e where e: "e \<in> set (drop l L)" "m e" by (auto simp: filter_empty_conv)
    with L have seq: "e \<in> set L" "l < env_seq e" by (simp_all add: gap_free_drop_seq)
    with \<open>n \<le> l\<close> e(2) L have "e \<in> set (filter m (drop n L))" by (simp add: gap_free_drop_seq)
    from fold_max_all [OF this, of env_seq n] seq(2) show False by (simp add: l)
  qed
  from fold_max_attained [of env_seq "filter m (drop n L)" n] show "l = n \<or> l \<le> length L"
    using gap_free_seq_range [OF L] by (auto simp: l dest: in_set_dropD)
qed

lemma take_more: "n \<le> k \<Longrightarrow> k \<le> length L \<Longrightarrow> i \<le> n \<Longrightarrow>
    drop i (take k L) = drop i (take n L) @ drop n (take k L)"
  by (rule nth_equalityI) (auto simp: nth_append add.commute)

text \<open>Safety: what went out is in the log, in its order, each event once, behind the start.\<close>

definition stream_safe :: "StreamKind option \<Rightarrow> nat \<Rightarrow> EventEnvelope list \<Rightarrow> EventEnvelope list \<Rightarrow> sse \<Rightarrow> bool" where
  "stream_safe kind from L sent st \<longleftrightarrow> set sent \<subseteq> set L \<and> se_kind st = kind \<and>
     sorted_wrt (<) (map env_seq (se_out st)) \<and> set (se_out st) \<subseteq> set L \<and>
     (\<forall>e \<in> set (se_out st). from < env_seq e \<and> env_seq e \<le> se_last st \<and> kind_matches kind e) \<and>
     from \<le> se_last st \<and> (se_last st = from \<or> se_last st \<le> length L)"

lemma gap_free_sorted: "gap_free L \<Longrightarrow> sorted_wrt (<) (map env_seq (filter m (drop n L)))"
proof -
  assume "gap_free L"
  then have "sorted_wrt (<) (map env_seq L)" by (simp add: gap_free_seqs del: upt_Suc)
  then show ?thesis by (simp add: sorted_wrt_map sorted_wrt_filter sorted_wrt_drop)
qed

lemma safe_pos [simp]: "stream_safe kind from L sent (st\<lparr>se_pos := p\<rparr>) = stream_safe kind from L sent st"
  by (simp add: stream_safe_def)

lemma safe_deliver:
  assumes L: "gap_free L" and safe: "stream_safe kind from L sent st"
    and new: "new = filter (kind_matches kind) (drop (se_last st) L)"
  shows "stream_safe kind from L sent (deliver_all new st)"
proof -
  obtain l where l: "l = fold (\<lambda>e n. max n (env_seq e)) new (se_last st)" by blast
  note old = safe [unfolded stream_safe_def]
  have each: "e \<in> set L \<and> se_last st < env_seq e \<and> env_seq e \<le> l \<and> kind_matches kind e" if "e \<in> set new" for e
    using that L fold_max_all [OF that, of env_seq] by (auto simp: gap_free_drop_seq new l)
  have last: "se_last st \<le> l" "l = se_last st \<or> l \<le> length L"
    using catch_up [OF L l [unfolded new]] by blast+
  have "env_seq x < env_seq y" if "x \<in> set (se_out st)" "y \<in> set new" for x y
    using old each [OF that(2)] that(1) by (meson le_less_trans)
  then have sorted: "sorted_wrt (<) (map env_seq (se_out st @ new))"
    using old gap_free_sorted [OF L] by (simp add: sorted_wrt_append new)
  have all: "from < env_seq e \<and> env_seq e \<le> l \<and> kind_matches kind e" if "e \<in> set (se_out st @ new)" for e
  proof (cases "e \<in> set (se_out st)")
    case True
    with old last(1) show ?thesis by (meson le_trans)
  next
    case False
    with that have "e \<in> set new" by simp
    from each [OF this] old show ?thesis by (meson le_less_trans)
  qed
  have sub: "set (se_out st @ new) \<subseteq> set L" using old each by auto
  have "from \<le> l" "l = from \<or> l \<le> length L" using old last by auto
  with sorted all sub old show ?thesis by (simp add: stream_safe_def l)
qed

lemma receive_Got: "receive sent pos = (Got e, p) \<Longrightarrow> pos < length sent \<and> p = pos + 1 \<and> e = sent ! pos"
  by (auto simp: receive_def split: if_splits)

lemma safe_poll:
  assumes L: "gap_free L" and safe: "stream_safe kind from L sent st"
    and read: "read (se_last st) = Inr (filter (\<lambda>e. se_last st < env_seq e) L)"
  shows "stream_safe kind from L sent (sse_poll read sent st)"
proof (cases "se_open st")
  case True
  obtain r p where rp: "receive sent (se_pos st) = (r, p)" by fastforce
  show ?thesis
  proof (cases r)
    case (Got e)
    with rp receive_Got have "e \<in> set sent" by fastforce
    with safe gap_free_seq_range [OF L] have "e \<in> set L" "env_seq e \<le> length L" by (auto simp: stream_safe_def)
    note e = this
    note old = safe [unfolded stream_safe_def]
    show ?thesis
    proof (cases "se_last st < env_seq e")
      case new: True
      have "env_seq x < env_seq e" if "x \<in> set (se_out st)" for x using old new that by (meson le_less_trans)
      then have "sorted_wrt (<) (map env_seq (se_out st @ [e]))" using old by (simp add: sorted_wrt_append)
      moreover have "from < env_seq e" using old new by simp
      moreover have "from < env_seq x \<and> env_seq x \<le> env_seq e" if "x \<in> set (se_out st)" for x
        using old new that by (meson less_imp_le le_trans)
      ultimately show ?thesis
        using True rp Got new old e by (simp add: sse_poll_def stream_safe_def)
    next
      case False
      with True rp Got old show ?thesis by (simp add: sse_poll_def stream_safe_def)
    qed
  next
    case (Lagged n)
    have kind: "se_kind st = kind" using safe by (simp add: stream_safe_def)
    have "sse_poll read sent st = deliver_all (filter (kind_matches kind) (drop (se_last st) L)) (st\<lparr>se_pos := p\<rparr>)"
      using True rp Lagged read kind gap_free_filter [OF L, of "se_last st"] by (simp add: sse_poll_def)
    with safe_deliver [OF L, of kind "from" sent "st\<lparr>se_pos := p\<rparr>"] safe show ?thesis by simp
  qed (use True rp safe in \<open>simp add: sse_poll_def\<close>)
qed (use safe in \<open>simp add: sse_poll_def\<close>)

lemma safe_more: "gap_free (L @ new) \<Longrightarrow> stream_safe kind from L sent st \<Longrightarrow> stream_safe kind from (L @ new) sent st"
  by (auto simp: stream_safe_def)

text \<open>Completeness: nothing that matches was passed over.\<close>

definition stream_complete :: "nat \<Rightarrow> StreamKind option \<Rightarrow> nat \<Rightarrow> EventEnvelope list \<Rightarrow> EventEnvelope list \<Rightarrow> sse \<Rightarrow> bool" where
  "stream_complete b kind from L sent st \<longleftrightarrow>
     b + length sent \<le> length L \<and> sent = take (length sent) (drop b L) \<and> se_kind st = kind \<and>
     from \<le> se_last st \<and> (se_last st = from \<or> se_last st \<le> length L) \<and>
     (se_open st \<longrightarrow> se_pos st \<le> length sent \<and>
        se_out st = filter (kind_matches kind) (drop from (take (se_last st) L)) \<and>
        filter (kind_matches kind) (drop (se_last st) (take (b + se_pos st) L)) = [])"

lemma complete_nth: "stream_complete b kind from L sent st \<Longrightarrow> i < length sent \<Longrightarrow> sent ! i = L ! (b + i)"
  unfolding stream_complete_def by (metis nth_take nth_drop le_add1 le_trans)

lemma complete_more:
  assumes "stream_complete b kind from L sent st"
  shows "stream_complete b kind from (L @ new) sent st"
proof -
  note old = assms [unfolded stream_complete_def]
  have "take (length sent) (drop b (L @ new)) = take (length sent) (drop b L)" using old by simp
  moreover have "drop from (take (se_last st) (L @ new)) = drop from (take (se_last st) L)"
    using old by (cases "se_last st \<le> length L") auto
  moreover have "take (b + se_pos st) (L @ new) = take (b + se_pos st) L" if "se_open st"
    using old that by simp
  moreover have "se_last st = from \<or> se_last st \<le> length (L @ new)" using old by auto
  ultimately show ?thesis using old by (simp add: stream_complete_def del: take_append drop_append)
qed

lemma complete_publish:
  assumes "stream_complete b kind from L sent st" and "b + length sent < length L"
  shows "stream_complete b kind from L (sent @ [L ! (b + length sent)]) st"
  using assms by (auto simp: stream_complete_def take_Suc_conv_app_nth)

text \<open>What a re-read of the log behind the last number adds is exactly what is missing.\<close>

lemma deliver_complete:
  assumes L: "gap_free L" and new: "new = filter m (drop n L)" and l: "l = fold (\<lambda>e n. max n (env_seq e)) new n"
    and n: "from \<le> n" "n = from \<or> n \<le> length L"
  shows "filter m (drop from (take n L)) @ new = filter m (drop from (take l L))"
proof -
  note up = catch_up [OF L l [unfolded new]]
  show ?thesis
  proof (cases "l \<le> length L")
    case True
    with up n have "drop from (take l L) = drop from (take n L) @ drop n (take l L)" by (intro take_more) auto
    moreover have "filter m (drop n L) = filter m (drop n (take l L)) @ filter m (drop l L)"
      using up True by (metis append_take_drop_id drop_append filter_append length_take min.absorb2 diff_is_0_eq drop0)
    ultimately show ?thesis using up by (simp add: new)
  next
    case False
    with up have "l = n" "drop n L = []" by auto
    then show ?thesis by (simp add: new)
  qed
qed

lemma complete_poll:
  assumes L: "gap_free L" and ok: "stream_complete b kind from L sent st"
    and read: "read (se_last st) = Inr (filter (\<lambda>e. se_last st < env_seq e) L)"
  shows "stream_complete b kind from L sent (sse_poll read sent st)"
proof (cases "se_open st")
  case True
  note old = ok [unfolded stream_complete_def]
  obtain r p where rp: "receive sent (se_pos st) = (r, p)" by fastforce
  show ?thesis
  proof (cases r)
    case (Got e)
    with receive_Got rp have pos: "se_pos st < length sent" "p = se_pos st + 1" "e = sent ! se_pos st" by blast+
    let ?i = "b + se_pos st"
    have i: "?i < length L" "e = L ! ?i" "env_seq e = Suc ?i"
      using old pos complete_nth [OF ok pos(1)] L by (auto simp: gap_free_def)
    have next_take: "take (Suc ?i) L = take ?i L @ [e]" using i by (simp add: take_Suc_conv_app_nth)
    show ?thesis
    proof (cases "se_last st < env_seq e")
      case new: True
      then have le: "se_last st \<le> ?i" "from \<le> ?i" using i(3) old by auto
      then have "drop from (take ?i L) = drop from (take (se_last st) L) @ drop (se_last st) (take ?i L)"
        using old i(1) by (intro take_more) auto
      then have "filter (kind_matches kind) (drop from (take (Suc ?i) L)) =
          se_out st @ filter (kind_matches kind) [e]"
        using old True le i(1) by (simp add: next_take)
      with True rp Got new old pos i show ?thesis
        by (auto simp: sse_poll_def stream_complete_def)
    next
      case False
      then have "drop (se_last st) (take (Suc ?i) L) = []" using i(3) by simp
      with True rp Got False old pos i show ?thesis by (simp add: sse_poll_def stream_complete_def)
    qed
  next
    case (Lagged n)
    then have p: "p \<le> length sent" using rp by (auto simp: receive_def split: if_splits)
    obtain new where new: "new = filter (kind_matches kind) (drop (se_last st) L)" by blast
    obtain l where l: "l = fold (\<lambda>e n. max n (env_seq e)) new (se_last st)" by blast
    note up = catch_up [OF L l [unfolded new]]
    have poll: "sse_poll read sent st = deliver_all new (st\<lparr>se_pos := p\<rparr>)"
      using True rp Lagged read old gap_free_filter [OF L, of "se_last st"] by (simp add: sse_poll_def new)
    have "filter (kind_matches kind) (drop from (take (se_last st) L)) @ new =
        filter (kind_matches kind) (drop from (take l L))"
      using deliver_complete [OF L new l] old by auto
    moreover have "set (drop l (take (b + p) L)) \<subseteq> set (drop l L)"
      by (simp add: drop_take set_take_subset)
    then have "filter (kind_matches kind) (drop l (take (b + p) L)) = []"
      using up by (fastforce simp: filter_empty_conv)
    ultimately show ?thesis using True old up p by (auto simp: poll stream_complete_def l)
  qed (use True rp ok in \<open>simp add: sse_poll_def\<close>)
qed (use ok in \<open>simp add: sse_poll_def\<close>)

lemma start_safe:
  assumes "gap_free L" and "set sent \<subseteq> set L"
  shows "stream_safe kind from L sent (sse_start kind from sent (filter (\<lambda>e. from < env_seq e) L))"
  unfolding sse_start_def
  by (rule safe_deliver [OF assms(1)])
    (use assms in \<open>simp_all add: stream_safe_def gap_free_filter\<close>)

lemma start_complete:
  assumes L: "gap_free L" and "b + length sent \<le> length L" and "sent = take (length sent) (drop b L)"
  shows "stream_complete b kind from L sent (sse_start kind from sent (filter (\<lambda>e. from < env_seq e) L))"
proof -
  obtain new where new: "new = filter (kind_matches kind) (drop from L)" by blast
  obtain l where l: "l = fold (\<lambda>e n. max n (env_seq e)) new from" by blast
  note up = catch_up [OF L l [unfolded new]]
  have "new = filter (kind_matches kind) (drop from (take l L))"
    using deliver_complete [OF L new l, of "from"] by simp
  moreover have "filter (kind_matches kind) (drop l (take (b + length sent) L)) = []"
    using up set_take_subset [of "b + length sent - l" "drop l L"]
    by (fastforce simp: filter_empty_conv drop_take)
  moreover obtain S where S: "S = sse_start kind from sent (filter (\<lambda>e. from < env_seq e) L)" by blast
  then have "se_last S = l" "se_out S = new" "se_pos S = length sent" "se_kind S = kind"
    by (simp_all add: sse_start_def gap_free_filter [OF L] new l)
  ultimately show ?thesis
    unfolding stream_complete_def S [symmetric] using assms(2,3) up by auto
qed

context event_log_store
begin

lemma stream_read:
  assumes "inv s" and "log s t = Some L" and "from < capacity" and "se_last st = from \<or> se_last st \<le> length L"
  shows "after t (se_last st) s = Inr (filter (\<lambda>e. se_last st < env_seq e) L)"
  using assms log_gap_free [OF assms(1,2)] by (intro after_reads) auto

lemma live_safe:
  assumes "(live_step inv log after t base)\<^sup>*\<^sup>* c c'" and "c = (s, sent, st)" and "inv s" and "log s t = Some L"
    and "stream_safe kind from L sent st" and "from < capacity"
  shows "\<exists>s' sent' st' L'. c' = (s', sent', st') \<and> inv s' \<and> log s' t = Some L' \<and> stream_safe kind from L' sent' st'"
  using assms(1)
proof (induction rule: rtranclp_induct)
  case base
  with assms show ?case by blast
next
  case (step c1 c2)
  then obtain s1 sent1 st1 L1 where c1: "c1 = (s1, sent1, st1)" "inv s1" "log s1 t = Some L1"
    and safe: "stream_safe kind from L1 sent1 st1" by blast
  note gf = log_gap_free [OF c1(2,3)]
  from step.hyps(2) [unfolded c1(1)] show ?case
  proof (cases rule: live_stepE)
    case (Store s2 L2 new)
    with c1 have "inv s2" "log s2 t = Some (L1 @ new)" by simp_all
    with log_gap_free safe_more [OF _ safe] Store show ?thesis by blast
  next
    case (Publish L2 e)
    with c1 safe show ?thesis by (auto simp: stream_safe_def)
  next
    case Poll
    have "stream_safe kind from L1 sent1 (sse_poll (\<lambda>n. after t n s1) sent1 st1)"
      using gf safe stream_read [OF c1(2,3) assms(6), of st1]
      by (intro safe_poll) (auto simp: stream_safe_def)
    with c1 Poll show ?thesis by blast
  qed
qed

lemma live_complete:
  assumes "(live_step inv log after t (Some b))\<^sup>*\<^sup>* c c'" and "c = (s, sent, st)" and "inv s" and "log s t = Some L"
    and "stream_complete b kind from L sent st" and "se_open st" and "from < capacity"
  shows "\<exists>s' sent' st' L'. c' = (s', sent', st') \<and> inv s' \<and> log s' t = Some L' \<and>
    stream_complete b kind from L' sent' st' \<and> se_open st'"
  using assms(1)
proof (induction rule: rtranclp_induct)
  case base
  with assms show ?case by blast
next
  case (step c1 c2)
  then obtain s1 sent1 st1 L1 where c1: "c1 = (s1, sent1, st1)" "inv s1" "log s1 t = Some L1" "se_open st1"
    and ok: "stream_complete b kind from L1 sent1 st1" by blast
  note gf = log_gap_free [OF c1(2,3)]
  from step.hyps(2) [unfolded c1(1)] show ?case
  proof (cases rule: live_stepE)
    case (Store s2 L2 new)
    with c1 have "inv s2" "log s2 t = Some (L1 @ new)" by simp_all
    with complete_more [OF ok] c1 Store show ?thesis by blast
  next
    case (Publish L2 e)
    with c1 complete_publish [OF ok] show ?thesis by auto
  next
    case Poll
    have read: "after t (se_last st1) s1 = Inr (filter (\<lambda>e. se_last st1 < env_seq e) L1)"
      using ok stream_read [OF c1(2,3) assms(7), of st1] by (auto simp: stream_complete_def)
    then have "stream_complete b kind from L1 sent1 (sse_poll (\<lambda>n. after t n s1) sent1 st1)"
      using gf ok by (intro complete_poll) auto
    moreover have "se_open (sse_poll (\<lambda>n. after t n s1) sent1 st1)"
      using c1(4) read by (auto simp: sse_poll_def split: received.split prod.split)
    ultimately show ?thesis using c1 Poll by blast
  qed
qed

end

text \<open>A client of the sample thread; the second event is broadcast after the client has subscribed.\<close>

lemma sample_run:
  assumes "case base of None \<Rightarrow> True | Some b \<Rightarrow> b = 1"
  shows "(live_step store_inv store_log (events_after E) 9 base)\<^sup>*\<^sup>*
    (sample_db, [], st) (sample_db, [sample_log ! 1], sse_poll (\<lambda>n. events_after E 9 n sample_db) [sample_log ! 1] st)"
proof (rule rtranclp_trans)
  have "live_step store_inv store_log (events_after E) 9 base (sample_db, [], st) (sample_db, [] @ [sample_log ! 1], st)"
    using assms sample_db_log
    by (intro live_step.Publish [where log = store_log and L = sample_log])
      (auto simp: sample_log_def split: option.splits)
  then show "(live_step store_inv store_log (events_after E) 9 base)\<^sup>*\<^sup>*
      (sample_db, [], st) (sample_db, [sample_log ! 1], st)" by simp
  show "(live_step store_inv store_log (events_after E) 9 base)\<^sup>*\<^sup>* (sample_db, [sample_log ! 1], st)
      (sample_db, [sample_log ! 1], sse_poll (\<lambda>n. events_after E 9 n sample_db) [sample_log ! 1] st)"
    by (rule r_into_rtranclp) (rule live_step.Poll)
qed

section \<open>Properties\<close>





text \<open>
  Out of order, an event is lost: when a later event is broadcast first, the earlier one is taken for
  an old one. The handlers of actions broadcast the events of an action only after it has ended, while
  a turn of the same thread broadcasts its events at once.
\<close>

lemma late_broadcast_is_lost:
  assumes "se_open st" and "se_kind st = None" and "sent = old @ [later, earlier]" and "se_pos st = length old"
    and "se_last st < env_seq earlier" and "env_seq earlier < env_seq later"
  shows "se_out (sse_poll read sent (sse_poll read sent st)) = se_out st @ [later]"
  using assms
  by (simp add: sse_poll_def receive_def CHANNEL_CAPACITY_def kind_matches_def nth_append)

end
