(* ===== verification/Server.thy ===== *)
theory Server
  imports Agent Sse
begin

text \<open>
  The HTTP interface (\<open>src/server/mod.rs\<close>, \<open>src/server/routes.rs\<close>): the registry of active turns, the
  errors and their status codes, every handler, and the tasks the handlers start. A handler takes its
  request as the framework hands it over, already decoded, and answers with a body or an error.

  A turn runs in a task of its own. The task first runs the turn and then frees the thread in the
  registry, in two steps, since other requests are handled in between.
\<close>

section \<open>Active turns\<close>

text \<open>A cancellation token is a number.\<close>

record ActiveTurns =
  at_by_thread :: "uuid \<rightharpoonup> uuid"
  at_by_turn :: "uuid \<rightharpoonup> nat"

definition no_turns :: ActiveTurns where
  "no_turns = \<lparr>at_by_thread = Map.empty, at_by_turn = Map.empty\<rparr>"

definition at_insert :: "uuid \<Rightarrow> uuid \<Rightarrow> nat \<Rightarrow> ActiveTurns \<Rightarrow> bool \<times> ActiveTurns" where
  "at_insert thread_id turn_id token a =
     (if at_by_thread a thread_id \<noteq> None then (False, a)
      else (True, \<lparr>at_by_thread = (at_by_thread a)(thread_id \<mapsto> turn_id),
                   at_by_turn = (at_by_turn a)(turn_id \<mapsto> token)\<rparr>))"

definition at_remove :: "uuid \<Rightarrow> uuid \<Rightarrow> ActiveTurns \<Rightarrow> ActiveTurns" where
  "at_remove thread_id turn_id a =
     \<lparr>at_by_thread = (if at_by_thread a thread_id = Some turn_id then (at_by_thread a)(thread_id := None)
                      else at_by_thread a),
      at_by_turn = (at_by_turn a)(turn_id := None)\<rparr>"

definition at_cancellation :: "uuid \<Rightarrow> ActiveTurns \<Rightarrow> nat option" where
  "at_cancellation turn_id a = at_by_turn a turn_id"

section \<open>Errors\<close>

record ApiError =
  ae_status :: nat
  ae_code :: string
  ae_message :: string

definition bad_request :: "string \<Rightarrow> ApiError" where
  "bad_request message = \<lparr>ae_status = 400, ae_code = ''bad_request'', ae_message = message\<rparr>"

definition conflict :: "string \<Rightarrow> ApiError" where
  "conflict message = \<lparr>ae_status = 409, ae_code = ''conflict'', ae_message = message\<rparr>"

definition not_found :: "string \<Rightarrow> ApiError" where
  "not_found message = \<lparr>ae_status = 404, ae_code = ''not_found'', ae_message = message\<rparr>"

fun api_error :: "OpsCodexError \<Rightarrow> ApiError" where
  "api_error (OpsCodexError.NotFound message) = not_found message"
| "api_error OpsCodexError.TurnAlreadyRunning = conflict ''thread already has an active turn''"
| "api_error (OpsCodexError.NeedsReconciliation message) = conflict message"
| "api_error (OpsCodexError.Protocol message) = bad_request message"
| "api_error (OpsCodexError.Policy message) = \<lparr>ae_status = 403, ae_code = ''forbidden'', ae_message = message\<rparr>"
| "api_error other = \<lparr>ae_status = 500, ae_code = ''internal_error'', ae_message = error_to_string other\<rparr>"

definition error_response :: "ApiError \<Rightarrow> nat \<times> json" where
  "error_response e = (ae_status e, JObj [(''error'',
     JObj [(''code'', JStr (ae_code e)), (''message'', JStr (ae_message e))])])"

definition api_not_found :: ApiError where
  "api_not_found = not_found ''API route not found''"

text \<open>A handler ends with a body, is refused, or panics.\<close>

datatype api_end = Refused ApiError | Aborted

section \<open>State\<close>

datatype TurnWork = RunTurn TurnInput | ResumeTurn string

datatype TaskPhase = Spawned | Ended | Died

record turn_task =
  tk_thread :: uuid
  tk_turn :: uuid
  tk_token :: nat
  tk_work :: TurnWork
  tk_phase :: TaskPhase

record 'w server =
  sv_agent :: "'w agent"
  sv_turns :: ActiveTurns
  sv_cancelled :: "nat set"
  sv_next_token :: nat
  sv_tasks :: "turn_task list"

definition new_server :: "'w agent \<Rightarrow> 'w server" where
  "new_server a = \<lparr>sv_agent = a, sv_turns = no_turns, sv_cancelled = {}, sv_next_token = 0, sv_tasks = []\<rparr>"

text \<open>
  What the server is built on: the runtime, as it behaves for a token that is or is not cancelled; the
  parser of ids; the number parser of the library; the identifiers and instants a fork draws; and the
  length of a minute on the clock.
\<close>

record 'w host =
  ho_runtime :: "bool \<Rightarrow> 'w runtime"
  ho_parse_uuid :: "string \<Rightarrow> uuid option"
  ho_parse_u64 :: "string \<Rightarrow> nat option"
  ho_fork_draws :: "'w \<Rightarrow> ((nat \<Rightarrow> uuid) \<times> (nat \<Rightarrow> time) \<times> time \<times> uuid) \<times> 'w"
  ho_minute :: time

type_synonym ('w, 'a) hop = "(api_end, 'w server, 'a) sm"

abbreviation runtime_of :: "'w host \<Rightarrow> 'w runtime" where "runtime_of H \<equiv> ho_runtime H False"
abbreviation ext_of :: "'w host \<Rightarrow> ext" where "ext_of H \<equiv> ro_ext (ho_runtime H False)"
abbreviation io_of :: "'w host \<Rightarrow> 'w io" where "io_of H \<equiv> ro_io (ho_runtime H False)"

section \<open>Lifting\<close>

fun stop_end :: "stop \<Rightarrow> api_end" where
  "stop_end (Returned err) = Refused (api_error err)"
| "stop_end Panicked = Aborted"

definition on_agent :: "('w, 'a) aop \<Rightarrow> ('w, 'a) hop" where
  "on_agent m s = (case m (sv_agent s) of (r, a) \<Rightarrow> (map_sum stop_end id r, s\<lparr>sv_agent := a\<rparr>))"

definition refuse_api :: "ApiError \<Rightarrow> ('w, 'a) hop" where
  "refuse_api e = sfail (Refused e)"

definition from_result :: "'a result \<Rightarrow> ('w, 'a) hop" where
  "from_result r = slift (map_sum (\<lambda>err. Refused (api_error err)) id r)"

definition db_of :: "'w server \<Rightarrow> db" where
  "db_of s = sys_db (ag_sys (sv_agent s))"

definition asks :: "(db \<Rightarrow> 'a result) \<Rightarrow> ('w, 'a) hop" where
  "asks f = on_agent (reads_result f)"

definition parse_id :: "'w host \<Rightarrow> string \<Rightarrow> string \<Rightarrow> ('w, uuid) hop" where
  "parse_id H kind v = slift (ok_or (Refused (bad_request (''invalid '' @ kind @ '' id''))) (ho_parse_uuid H v))"

text \<open>The hub: everything sent for a thread, in order, is the channel of that thread.\<close>

definition hub_send :: "EventEnvelope \<Rightarrow> ('w, unit) hop" where
  "hub_send e = supd (\<lambda>s. s\<lparr>sv_agent := (sv_agent s)\<lparr>ag_bus := ag_bus (sv_agent s) @ [e]\<rparr>\<rparr>)"

definition channel_sent :: "uuid \<Rightarrow> 'w server \<Rightarrow> EventEnvelope list" where
  "channel_sent t s = filter (\<lambda>e. env_thread_id e = t) (ag_bus (sv_agent s))"

definition new_token :: "('w, nat) hop" where
  "new_token s = (Inr (sv_next_token s), s\<lparr>sv_next_token := sv_next_token s + 1\<rparr>)"

text \<open>A turn is registered and its task started, or the thread is busy.\<close>

definition register_turn :: "uuid \<Rightarrow> uuid \<Rightarrow> TurnWork \<Rightarrow> ('w, unit) hop" where
  "register_turn thread_id turn_id work =
     sbind new_token (\<lambda>token s.
       case at_insert thread_id turn_id token (sv_turns s) of
         (False, a) \<Rightarrow> (Inl (Refused (conflict ''thread already has an active turn'')), s\<lparr>sv_turns := a\<rparr>)
       | (True, a) \<Rightarrow> (Inr (), s\<lparr>sv_turns := a, sv_tasks := sv_tasks s @
             [\<lparr>tk_thread = thread_id, tk_turn = turn_id, tk_token = token, tk_work = work, tk_phase = Spawned\<rparr>]\<rparr>))"

section \<open>Reading\<close>

definition ready :: "ThreadSummary list result \<Rightarrow> nat \<Rightarrow> nat \<times> json" where
  "ready threads workspaces = (case threads of
       Inr ts \<Rightarrow> (200, JObj [(''status'', JStr ''ready''), (''store'', JStr ''ok''),
         (''threads'', JNum (int (length ts))), (''workspaces'', JNum (int workspaces))])
     | Inl err \<Rightarrow> (503, JObj [(''error'', JObj [(''code'', JStr ''storage_error''),
         (''message'', JStr (error_to_string err))]), (''status'', JStr ''not_ready''), (''store'', JStr ''error'')]))"

definition health :: json where "health = JObj [(''status'', JStr ''ok'')]"

definition ready_api :: "'w host \<Rightarrow> 'w server \<Rightarrow> nat \<times> json" where
  "ready_api H s = ready (Inr (list_threads (ext_of H) (db_of s))) (length (sys_workspaces (ag_sys (sv_agent s))))"

definition list_workspaces :: "'w server \<Rightarrow> WorkspaceSummary list" where
  "list_workspaces s = map workspace_summary (sys_workspaces (ag_sys (sv_agent s)))"

text \<open>The skills of one workspace, or those of all, each version once.\<close>

fun dedup_by :: "('a \<Rightarrow> 'a \<Rightarrow> bool) \<Rightarrow> 'a list \<Rightarrow> 'a list" where
  "dedup_by same (x # y # zs) = (if same x y then dedup_by same (x # zs) else x # dedup_by same (y # zs))"
| "dedup_by same xs = xs"

definition skills_for :: "(string \<times> SkillCatalog) list \<Rightarrow> workspace_id \<Rightarrow> SkillSummary list" where
  "skills_for skills w = (case map_of skills w of None \<Rightarrow> [] | Some catalog \<Rightarrow> skill_summaries catalog)"

definition all_skill_summaries :: "(string \<times> SkillCatalog) list \<Rightarrow> workspace_id option \<Rightarrow> SkillSummary list" where
  "all_skill_summaries skills w = (case w of
       Some workspace_id \<Rightarrow> skills_for skills workspace_id
     | None \<Rightarrow> dedup_by (\<lambda>a b. ss_id a = ss_id b \<and> ss_version a = ss_version b)
         (sort_key (\<lambda>x. (ss_id x, ss_version x)) (concat (map (skill_summaries \<circ> snd) skills))))"

definition list_skills :: "'w host \<Rightarrow> workspace_id option \<Rightarrow> SkillSummary list" where
  "list_skills H w = all_skill_summaries (ro_workspace_skills (runtime_of H)) w"

definition list_threads_api :: "'w host \<Rightarrow> workspace_id option \<Rightarrow> ('w, ThreadSummary list) hop" where
  "list_threads_api H w =
     sbind (on_agent (reads (list_threads (ext_of H)))) (\<lambda>threads.
       case w of
         None \<Rightarrow> sret threads
       | Some workspace_id \<Rightarrow>
           sbind (from_result (validate_workspace_id workspace_id)) (\<lambda>_.
             sret (filter (\<lambda>t. sum_workspace_id t = workspace_id) threads)))"

record ThreadQuery =
  qy_after :: nat
  qy_limit :: "nat option"
  qy_stream_kind :: "StreamKind option"

record ThreadDetail =
  td_thread :: Thread
  td_title :: "string option"
  td_events :: "EventEnvelope list"

text \<open>What of the events behind a number a page holds.\<close>

definition page_of :: "ThreadQuery \<Rightarrow> EventEnvelope list \<Rightarrow> EventEnvelope list" where
  "page_of q events =
     (let kept = filter (kind_matches (qy_stream_kind q)) events
      in case qy_limit q of None \<Rightarrow> kept | Some limit \<Rightarrow> take (max limit 1) kept)"

definition get_thread_api :: "'w host \<Rightarrow> string \<Rightarrow> ThreadQuery \<Rightarrow> ('w, ThreadDetail) hop" where
  "get_thread_api H path q =
     sbind (parse_id H ''thread'' path) (\<lambda>thread_id.
     sbind (asks (get_thread (ext_of H) thread_id)) (\<lambda>thread.
     sbind (asks (events_after (ext_of H) thread_id (qy_after q))) (\<lambda>events.
       sret \<lparr>td_thread = thread,
             td_title = find_map (\<lambda>item. case item of UserMessageItem c \<Rightarrow> Some (chars_take 120 c) | _ \<Rightarrow> None) (th_items thread),
             td_events = page_of q events\<rparr>)))"

text \<open>The start of the event stream; the rest of it is \<open>sse_poll\<close>.\<close>

definition thread_events ::
    "'w host \<Rightarrow> string \<Rightarrow> nat \<Rightarrow> StreamKind option \<Rightarrow> string option \<Rightarrow> ('w, uuid \<times> sse) hop" where
  "thread_events H path query_after kind header =
     sbind (parse_id H ''thread'' path) (\<lambda>thread_id.
     sbind (asks (get_thread (ext_of H) thread_id)) (\<lambda>_.
     sbind (sgets (\<lambda>s. Inr (channel_sent thread_id s))) (\<lambda>sent.
     let from = start_after query_after header (ho_parse_u64 H) in
     sbind (asks (events_after (ext_of H) thread_id from)) (\<lambda>replay.
       sret (thread_id, sse_start kind from sent replay)))))"

definition get_evidence_api :: "'w host \<Rightarrow> string \<Rightarrow> string \<Rightarrow> workspace_id option \<Rightarrow> ('w, EvidenceMeta) hop" where
  "get_evidence_api H thread_path evidence_path w =
     sbind (parse_id H ''thread'' thread_path) (\<lambda>thread_id.
     sbind (parse_id H ''evidence'' evidence_path) (\<lambda>evidence_id.
       case w of
         Some workspace_id \<Rightarrow> asks (get_evidence_in (ext_of H) workspace_id thread_id evidence_id)
       | None \<Rightarrow> asks (get_evidence (ext_of H) thread_id evidence_id)))"

definition default_artifact_bytes :: nat where "default_artifact_bytes = 64 * 1024"

definition get_artifact_api :: "'w host \<Rightarrow> string \<Rightarrow> nat option \<Rightarrow> workspace_id option \<Rightarrow> ('w, bytes) hop" where
  "get_artifact_api H sha max_bytes w =
     sbind (sgets (\<lambda>s. Inr (ag_artifacts (sv_agent s)))) (\<lambda>artifacts.
       from_result (get_in (ro_fs (runtime_of H)) (str_or default_workspace w) sha
         (case max_bytes of None \<Rightarrow> default_artifact_bytes | Some n \<Rightarrow> n) artifacts))"

record TopologyApiQuery =
  tp_workspace_id :: "workspace_id option"
  tp_depth :: "nat option"
  tp_max_nodes :: "nat option"
  tp_include_stale :: "bool option"

definition or_use :: "'a \<Rightarrow> 'a option \<Rightarrow> 'a" where
  "or_use d x = (case x of None \<Rightarrow> d | Some v \<Rightarrow> v)"

definition get_topology :: "'w host \<Rightarrow> string \<Rightarrow> TopologyApiQuery \<Rightarrow> ('w, TopologyGraph) hop" where
  "get_topology H path q =
     sbind (parse_id H ''thread'' path) (\<lambda>thread_id.
     sbind (asks (get_thread (ext_of H) thread_id)) (\<lambda>thread.
     sbind (case tp_workspace_id q of
         None \<Rightarrow> sret ()
       | Some w \<Rightarrow> from_result (deny_cross_workspace w (th_workspace_id thread) ''thread'')) (\<lambda>_.
     sbind (asks (events_after (ext_of H) thread_id 0)) (\<lambda>events.
     sbind (on_agent (now_of (runtime_of H))) (\<lambda>projected_at.
     sbind (on_agent (now_of (runtime_of H))) (\<lambda>now.
       sret (query_topology now (project_topology (ext_of H) (ho_minute H) (th_workspace_id thread) projected_at events)
         \<lparr>tq_depth = or_use 2 (tp_depth q), tq_max_nodes = or_use 32 (tp_max_nodes q),
          tq_include_stale = or_use False (tp_include_stale q)\<rparr>)))))))"

definition list_audit_api :: "'w host \<Rightarrow> ('w, AuditRecord list) hop" where
  "list_audit_api H =
     sbind (asks (\<lambda>d. verify_audit_chain (ext_of H) (list_audit d))) (\<lambda>_. on_agent (reads list_audit))"

definition list_action_plans :: "'w host \<Rightarrow> string \<Rightarrow> ('w, ActionRecord list) hop" where
  "list_action_plans H path =
     sbind (parse_id H ''thread'' path) (\<lambda>thread_id.
     sbind (asks (get_thread (ext_of H) thread_id)) (\<lambda>_.
       on_agent (reads (list_actions_for_thread thread_id))))"

definition get_remediation :: "'w server \<Rightarrow> bool \<times> bool \<times> nat" where
  "get_remediation s = (let r = sys_rem (ag_sys (sv_agent s))
     in (rem_enabled r, rem_kill_switch r, rem_mutation_count r))"

definition get_recovery :: "'w host \<Rightarrow> string \<Rightarrow> ('w, RecoveryReport) hop" where
  "get_recovery H path =
     sbind (parse_id H ''turn'' path) (\<lambda>turn_id. on_agent (recovery_report (runtime_of H) turn_id))"

section \<open>Changing\<close>

definition server_uuid :: "'w host \<Rightarrow> ('w, uuid) hop" where
  "server_uuid H = on_agent (new_id (runtime_of H))"

definition check_context :: "'w host \<Rightarrow> IncidentContext option \<Rightarrow> ('w, unit) hop" where
  "check_context H context = from_result (case context of None \<Rightarrow> Inr ()
     | Some c \<Rightarrow> incident_validate (ext_of H) (ro_codec (runtime_of H)) c)"

record CreateThreadRequest =
  cr_workspace_id :: "workspace_id option"
  cr_incident_context :: "IncidentContext option"

definition create_thread_api :: "'w host \<Rightarrow> CreateThreadRequest option \<Rightarrow> ('w, uuid \<times> workspace_id) hop" where
  "create_thread_api H body =
     (let request = (case body of None \<Rightarrow> \<lparr>cr_workspace_id = None, cr_incident_context = None\<rparr> | Some r \<Rightarrow> r);
          w = str_or default_workspace (cr_workspace_id request)
      in sbind (check_context H (cr_incident_context request)) (\<lambda>_.
         sbind (from_result (validate_workspace_id w)) (\<lambda>_.
         sbind (sgets (\<lambda>s. Inr (sys_workspaces (ag_sys (sv_agent s))))) (\<lambda>catalog.
         sbind (if catalog = [] then sret () else sbind (from_result (catalog_get catalog w)) (\<lambda>_. sret ())) (\<lambda>_.
         sbind (server_uuid H) (\<lambda>thread_id.
         sbind (server_uuid H) (\<lambda>event_id.
         sbind (on_agent (now_of (runtime_of H))) (\<lambda>now.
         sbind (on_agent (on_store (create_thread (ext_of H) event_id now thread_id w))) (\<lambda>created.
         sbind (hub_send created) (\<lambda>_.
           sret (thread_id, w)))))))))))"

record CreateTurnRequest =
  ct_input :: string
  ct_incident_context :: "IncidentContext option"

definition create_turn :: "'w host \<Rightarrow> string \<Rightarrow> CreateTurnRequest \<Rightarrow> ('w, uuid) hop" where
  "create_turn H path request =
     sbind (parse_id H ''thread'' path) (\<lambda>thread_id.
     sbind (asks (get_thread (ext_of H) thread_id)) (\<lambda>_.
     let input = trim (ct_input request) in
     if input = [] then refuse_api (bad_request ''input must not be empty'')
     else if 32 * 1024 < length input then refuse_api (bad_request ''input exceeds 32 KiB'')
     else
       sbind (check_context H (ct_incident_context request)) (\<lambda>_.
       sbind (server_uuid H) (\<lambda>turn_id.
       sbind (register_turn thread_id turn_id
           (RunTurn \<lparr>ti_content = input, ti_incident_context = ct_incident_context request\<rparr>)) (\<lambda>_.
         sret turn_id)))))"

definition idempotency_key :: "string option \<Rightarrow> string option" where
  "idempotency_key header = (case map_option trim header of None \<Rightarrow> None
     | Some key \<Rightarrow> if key = [] then None else Some key)"

definition resume_turn_api :: "'w host \<Rightarrow> string \<Rightarrow> string option \<Rightarrow> ('w, RecoveryReport) hop" where
  "resume_turn_api H path header =
     sbind (parse_id H ''turn'' path) (\<lambda>turn_id.
     sbind (slift (ok_or (Refused (bad_request ''Idempotency-Key is required'')) (idempotency_key header))) (\<lambda>key.
     sbind (on_agent (recovery_report (runtime_of H) turn_id)) (\<lambda>report.
       if rr_resume_policy report = Reconcile
       then refuse_api (api_error (OpsCodexError.NeedsReconciliation (rr_user_action report)))
       else
         sbind (register_turn (rr_thread_id report) turn_id (ResumeTurn key)) (\<lambda>_. sret report))))"

definition interrupt_turn :: "'w host \<Rightarrow> string \<Rightarrow> ('w, uuid) hop" where
  "interrupt_turn H path =
     sbind (parse_id H ''turn'' path) (\<lambda>turn_id.
     sbind (sgets (\<lambda>s. ok_or (Refused (not_found (''active turn '' @ uuid_string (ext_of H) turn_id)))
         (at_cancellation turn_id (sv_turns s)))) (\<lambda>token.
     sbind (supd (\<lambda>s. s\<lparr>sv_cancelled := insert token (sv_cancelled s)\<rparr>)) (\<lambda>_.
       sret turn_id)))"

definition resolve_approval_api :: "'w host \<Rightarrow> string \<Rightarrow> bool \<Rightarrow> ('w, uuid \<times> string) hop" where
  "resolve_approval_api H path approved =
     sbind (parse_id H ''approval'' path) (\<lambda>approval_id.
     sbind (on_agent (resolve_approval (runtime_of H) approval_id approved)) (\<lambda>_.
       sret (approval_id, if approved then ''approved'' else ''rejected'')))"

definition fork_thread_api :: "'w host \<Rightarrow> string \<Rightarrow> nat \<Rightarrow> string option \<Rightarrow> ('w, uuid) hop" where
  "fork_thread_api H path at_seq title =
     sbind (parse_id H ''thread'' path) (\<lambda>thread_id.
     sbind (on_agent (on_sys (on_world (sask (ho_fork_draws H))))) (\<lambda>(ids, clock, now, new_t).
     sbind (on_agent (on_store (fork_thread (ext_of H) ids clock now thread_id at_seq new_t title))) (\<lambda>created.
     sbind (hub_send created) (\<lambda>_.
       sret (env_thread_id created)))))"

subsection \<open>Actions\<close>

fun send_all :: "EventEnvelope list \<Rightarrow> ('w, unit) hop" where
  "send_all [] = sret ()"
| "send_all (e # es) = sbind (hub_send e) (\<lambda>_. send_all es)"

definition publish_new_events :: "'w host \<Rightarrow> uuid \<Rightarrow> nat \<Rightarrow> ('w, unit) hop" where
  "publish_new_events H thread_id after =
     sbind (asks (events_after (ext_of H) thread_id after)) send_all"

text \<open>The number of the last event, or 0 for a thread that cannot be read.\<close>

definition seq_before :: "'w host \<Rightarrow> uuid \<Rightarrow> ('w, nat) hop" where
  "seq_before H thread_id = on_agent (reads (\<lambda>d. or_else 0 (last_seq (ext_of H) thread_id d)))"

fun parse_claims :: "'w host \<Rightarrow> string list \<Rightarrow> ('w, uuid list) hop" where
  "parse_claims H [] = sret []"
| "parse_claims H (c # cs) = sbind (parse_id H ''claim'' c) (\<lambda>i. sbind (parse_claims H cs) (\<lambda>is. sret (i # is)))"

record ProposeActionRequest =
  pa_kind :: string
  pa_parameters :: json
  pa_claim_ids :: "string list"

definition propose_action_api :: "'w host \<Rightarrow> string \<Rightarrow> ProposeActionRequest \<Rightarrow> ('w, ActionRecord) hop" where
  "propose_action_api H path request =
     sbind (parse_id H ''thread'' path) (\<lambda>thread_id.
     if trim (pa_kind request) = [] then refuse_api (bad_request ''kind must not be empty'')
     else
       sbind (parse_claims H (pa_claim_ids request)) (\<lambda>claim_ids.
       sbind (seq_before H thread_id) (\<lambda>after.
       sbind (on_agent (on_sys (propose_action_plan (ext_of H) (io_of H) thread_id (pa_kind request)
           (pa_parameters request) claim_ids))) (\<lambda>action.
       sbind (publish_new_events H thread_id after) (\<lambda>_.
         sret action)))))"

definition stored_action :: "'w host \<Rightarrow> uuid \<Rightarrow> ('w, ActionRecord) hop" where
  "stored_action H action_id =
     asks (\<lambda>d. ok_or (OpsCodexError.NotFound (''action '' @ uuid_string (ext_of H) action_id)) (get_action action_id d))"

definition approve_action_api :: "'w host \<Rightarrow> string \<Rightarrow> string \<Rightarrow> bool \<Rightarrow> ('w, ActionRecord) hop" where
  "approve_action_api H path request_hash approved =
     (if trim request_hash = [] then refuse_api (bad_request ''request_hash is required to bind an approval'')
      else
        sbind (parse_id H ''action'' path) (\<lambda>action_id.
        sbind (stored_action H action_id) (\<lambda>existing.
        sbind (seq_before H (act_thread_id existing)) (\<lambda>after.
        sbind (on_agent (on_sys (approve_action (ext_of H) (io_of H) action_id request_hash approved))) (\<lambda>action.
        sbind (publish_new_events H (act_thread_id action) after) (\<lambda>_.
          sret action))))))"

definition execute_action_api :: "'w host \<Rightarrow> string \<Rightarrow> ('w, ActionRecord) hop" where
  "execute_action_api H path =
     sbind (parse_id H ''action'' path) (\<lambda>action_id.
     sbind (stored_action H action_id) (\<lambda>existing.
     sbind (seq_before H (act_thread_id existing)) (\<lambda>after.
     sbind (on_agent (on_sys (execute_action (ext_of H) (io_of H) action_id))) (\<lambda>action.
     sbind (publish_new_events H (act_thread_id action) after) (\<lambda>_.
       sret action)))))"

definition set_kill_switch_api :: "bool \<Rightarrow> ('w, bool \<times> bool \<times> nat) hop" where
  "set_kill_switch_api enabled =
     sbind (on_agent (on_sys (set_kill_switch enabled))) (\<lambda>_. sgets (\<lambda>s. Inr (get_remediation s)))"

section \<open>Requests\<close>

datatype Request =
    ListThreads "workspace_id option"
  | CreateThread "CreateThreadRequest option"
  | GetThread string ThreadQuery
  | CreateTurn string CreateTurnRequest
  | ForkThread string nat "string option"
  | ThreadEvents string nat "StreamKind option" "string option"
  | GetTopology string TopologyApiQuery
  | GetEvidence string string "workspace_id option"
  | GetArtifact string "nat option" "workspace_id option"
  | ResolveApproval string bool
  | ListActionPlans string
  | ProposeAction string ProposeActionRequest
  | ApproveAction string string bool
  | ExecuteAction string
  | SetKillSwitch bool
  | ListAudit
  | InterruptTurn string
  | ResumeTurnRequest string "string option"
  | GetRecovery string

definition answers :: "nat \<Rightarrow> ('w, 'a) hop \<Rightarrow> ('w, nat) hop" where
  "answers status m = sbind m (\<lambda>_. sret status)"

text \<open>The route of a request and the status code of its success.\<close>

fun route :: "'w host \<Rightarrow> Request \<Rightarrow> ('w, nat) hop" where
  "route H (ListThreads w) = answers 200 (list_threads_api H w)"
| "route H (CreateThread body) = answers 201 (create_thread_api H body)"
| "route H (GetThread p q) = answers 200 (get_thread_api H p q)"
| "route H (CreateTurn p r) = answers 202 (create_turn H p r)"
| "route H (ForkThread p n title) = answers 201 (fork_thread_api H p n title)"
| "route H (ThreadEvents p n kind header) = answers 200 (thread_events H p n kind header)"
| "route H (GetTopology p q) = answers 200 (get_topology H p q)"
| "route H (GetEvidence p e w) = answers 200 (get_evidence_api H p e w)"
| "route H (GetArtifact d n w) = answers 200 (get_artifact_api H d n w)"
| "route H (ResolveApproval p v) = answers 200 (resolve_approval_api H p v)"
| "route H (ListActionPlans p) = answers 200 (list_action_plans H p)"
| "route H (ProposeAction p r) = answers 201 (propose_action_api H p r)"
| "route H (ApproveAction p h v) = answers 200 (approve_action_api H p h v)"
| "route H (ExecuteAction p) = answers 200 (execute_action_api H p)"
| "route H (SetKillSwitch v) = answers 200 (set_kill_switch_api v)"
| "route H ListAudit = answers 200 (list_audit_api H)"
| "route H (InterruptTurn p) = answers 202 (interrupt_turn H p)"
| "route H (ResumeTurnRequest p header) = answers 202 (resume_turn_api H p header)"
| "route H (GetRecovery p) = answers 200 (get_recovery H p)"

section \<open>Tasks\<close>

text \<open>
  A task runs its turn; the turn watches the token. Whatever the turn returns, the task goes on to free
  the thread. A turn that panics takes its task with it.
\<close>

definition turn_work :: "'w host \<Rightarrow> bool \<Rightarrow> turn_task \<Rightarrow> ('w, unit) aop" where
  "turn_work H cancelled k = (case tk_work k of
       RunTurn input \<Rightarrow> run_turn (ho_runtime H cancelled) (tk_thread k) (tk_turn k) input
     | ResumeTurn key \<Rightarrow> sbind (resume_turn (ho_runtime H cancelled) (tk_turn k) (Some key)) (\<lambda>_. sret ()))"

definition set_phase :: "turn_task \<Rightarrow> TaskPhase \<Rightarrow> turn_task list \<Rightarrow> turn_task list" where
  "set_phase k phase = map (\<lambda>j. if j = k then k\<lparr>tk_phase := phase\<rparr> else j)"

definition run_task :: "'w host \<Rightarrow> turn_task \<Rightarrow> 'w server \<Rightarrow> 'w server" where
  "run_task H k s = (case turn_work H (tk_token k \<in> sv_cancelled s) k (sv_agent s) of
       (Inl Panicked, a) \<Rightarrow> s\<lparr>sv_agent := a, sv_tasks := set_phase k Died (sv_tasks s)\<rparr>
     | (_, a) \<Rightarrow> s\<lparr>sv_agent := a, sv_tasks := set_phase k Ended (sv_tasks s)\<rparr>)"

definition end_task :: "turn_task \<Rightarrow> 'w server \<Rightarrow> 'w server" where
  "end_task k s = s\<lparr>sv_turns := at_remove (tk_thread k) (tk_turn k) (sv_turns s),
                     sv_tasks := filter (\<lambda>j. j \<noteq> k) (sv_tasks s)\<rparr>"

text \<open>One step of the server: a request is handled, a task runs its turn, or a task ends.\<close>

inductive server_step :: "'w host \<Rightarrow> 'w server \<Rightarrow> 'w server \<Rightarrow> bool" for H where
  Handle: "server_step H s (snd (route H req s))"
| Run: "k \<in> set (sv_tasks s) \<Longrightarrow> tk_phase k = Spawned \<Longrightarrow> server_step H s (run_task H k s)"
| End: "k \<in> set (sv_tasks s) \<Longrightarrow> tk_phase k = Ended \<Longrightarrow> server_step H s (end_task k s)"

inductive_cases server_stepE [consumes 1, case_names Handle Run End]: "server_step H s s'"

end
