(* ===== verification/ServerSafety.thy ===== *)
theory ServerSafety
  imports AgentSafety Server
begin

text \<open>
  What the server guarantees: a thread is busy exactly while one task works on it, so it never has two
  turns; interrupting a turn reaches that turn only; refused turns leave no trace; reading changes
  nothing; the pages of a log add up to the log.
\<close>

section \<open>Runs\<close>

lemma on_agent_fields:
  "sv_turns (snd (on_agent m s)) = sv_turns s" "sv_tasks (snd (on_agent m s)) = sv_tasks s"
  "sv_cancelled (snd (on_agent m s)) = sv_cancelled s" "sv_next_token (snd (on_agent m s)) = sv_next_token s"
  "sv_agent (snd (on_agent m s)) = snd (m (sv_agent s))"
  by (simp_all add: on_agent_def split: prod.split)

lemma on_agent_Inr: "on_agent m s = (Inr x, s') \<longleftrightarrow> (\<exists>a. m (sv_agent s) = (Inr x, a) \<and> s' = s\<lparr>sv_agent := a\<rparr>)"
  by (cases "m (sv_agent s)"; cases "fst (m (sv_agent s))") (auto simp: on_agent_def)

lemma asks_run: "asks f s = (map_sum (\<lambda>err. Refused (api_error err)) id (f (db_of s)), s)"
  by (cases "f (db_of s)")
    (auto simp: asks_def on_agent_def reads_result_def reads_def alift_def sm_run sbind_run db_of_def)

lemma reads_run: "on_agent (reads f) s = (Inr (f (db_of s)), s)"
  by (simp add: on_agent_def reads_def sm_run db_of_def)

lemma api_runs:
  "from_result r s = (map_sum (\<lambda>err. Refused (api_error err)) id r, s)"
  "refuse_api e s = (Inl (Refused e), s)"
  "parse_id H kind v s = (ok_or (Refused (bad_request (''invalid '' @ kind @ '' id''))) (ho_parse_uuid H v), s)"
  "new_token s = (Inr (sv_next_token s), s\<lparr>sv_next_token := sv_next_token s + 1\<rparr>)"
  "hub_send env s = (Inr (), s\<lparr>sv_agent := (sv_agent s)\<lparr>ag_bus := ag_bus (sv_agent s) @ [env]\<rparr>\<rparr>)"
  by (simp_all add: from_result_def refuse_api_def parse_id_def new_token_def hub_send_def sm_run)

lemmas server_runs = asks_run reads_run api_runs sm_run sbind_run check_context_def

section \<open>The registry\<close>

text \<open>
  The registry of threads is the list of tasks: a thread is registered with the turn of its only task.
\<close>

definition turns_inv :: "'w server \<Rightarrow> bool" where
  "turns_inv s \<longleftrightarrow> distinct (map tk_thread (sv_tasks s)) \<and>
     at_by_thread (sv_turns s) = map_of (map (\<lambda>k. (tk_thread k, tk_turn k)) (sv_tasks s))"

text \<open>The same for the tokens, as long as no two tasks work on the same turn.\<close>

definition tokens_inv :: "'w server \<Rightarrow> bool" where
  "tokens_inv s \<longleftrightarrow> distinct (map tk_turn (sv_tasks s)) \<and> distinct (map tk_token (sv_tasks s)) \<and>
     (\<forall>k \<in> set (sv_tasks s). tk_token k < sv_next_token s) \<and>
     at_by_turn (sv_turns s) = map_of (map (\<lambda>k. (tk_turn k, tk_token k)) (sv_tasks s))"

text \<open>What a handler may do to the registry: nothing, or add a task for a free thread.\<close>

definition registers :: "'w server \<Rightarrow> 'w server \<Rightarrow> bool" where
  "registers s s' \<longleftrightarrow> sv_next_token s \<le> sv_next_token s' \<and>
     (sv_turns s' = sv_turns s \<and> sv_tasks s' = sv_tasks s \<or>
      (\<exists>k. sv_tasks s' = sv_tasks s @ [k] \<and> tk_phase k = Spawned \<and> at_by_thread (sv_turns s) (tk_thread k) = None \<and>
         sv_next_token s \<le> tk_token k \<and> tk_token k < sv_next_token s' \<and>
         at_by_thread (sv_turns s') = (at_by_thread (sv_turns s))(tk_thread k \<mapsto> tk_turn k) \<and>
         at_by_turn (sv_turns s') = (at_by_turn (sv_turns s))(tk_turn k \<mapsto> tk_token k)))"

definition same_registry :: "'w server \<Rightarrow> 'w server \<Rightarrow> bool" where
  "same_registry s s' \<longleftrightarrow> sv_turns s' = sv_turns s \<and> sv_tasks s' = sv_tasks s \<and> sv_next_token s' = sv_next_token s"

interpretation same_reg: guarantee same_registry
  by unfold_locales (auto simp: same_registry_def)

lemma same_leaves:
  "always same_registry (on_agent m)" "always same_registry (asks f)" "always same_registry (from_result r)"
  "always same_registry (refuse_api e)" "always same_registry (parse_id H kind v)" "always same_registry (hub_send env)"
  "always same_registry (server_uuid H)" "always same_registry (seq_before H t)" "always same_registry (stored_action H a)"
  "always same_registry (supd (\<lambda>s. s\<lparr>sv_cancelled := g s\<rparr>))" "always same_registry (check_context H c)"
  by (simp_all add: always_def same_registry_def on_agent_fields asks_def from_result_def refuse_api_def parse_id_def
      hub_send_def server_uuid_def seq_before_def stored_action_def check_context_def sm_run)

lemma same_send_all: "always same_registry (send_all es)"
  by (induction es) (auto intro: same_reg.always_bind same_leaves same_reg.always_base)

lemma same_parse_claims: "always same_registry (parse_claims H cs)"
  by (induction cs) (auto intro!: same_reg.always_bind same_leaves same_reg.always_base)

lemma same_publish: "always same_registry (publish_new_events H t n)"
  unfolding publish_new_events_def by (intro same_reg.always_bind same_leaves same_send_all)

lemmas same_rules = same_reg.always_bind same_reg.always_base same_leaves same_publish same_parse_claims
  same_reg.always_if

lemma same_handlers:
  "always same_registry (list_threads_api H w)" "always same_registry (create_thread_api H b)"
  "always same_registry (get_thread_api H p q)" "always same_registry (fork_thread_api H p n title)"
  "always same_registry (thread_events H p n kind header)" "always same_registry (get_topology H p tq)"
  "always same_registry (get_evidence_api H p ev w)" "always same_registry (get_artifact_api H d mb w)"
  "always same_registry (resolve_approval_api H p v)" "always same_registry (list_action_plans H p)"
  "always same_registry (propose_action_api H p r)" "always same_registry (approve_action_api H p h v)"
  "always same_registry (execute_action_api H p)" "always same_registry (set_kill_switch_api v)"
  "always same_registry (list_audit_api H)" "always same_registry (interrupt_turn H p)"
  "always same_registry (get_recovery H p)"
  unfolding list_threads_api_def create_thread_api_def get_thread_api_def fork_thread_api_def thread_events_def
    get_topology_def get_evidence_api_def get_artifact_api_def resolve_approval_api_def list_action_plans_def
    propose_action_api_def approve_action_api_def execute_action_api_def set_kill_switch_api_def list_audit_api_def
    interrupt_turn_def get_recovery_def Let_def case_prod_unfold
  by (auto intro!: same_rules split: option.split)

lemma registers_same: "always same_registry m \<Longrightarrow> always registers m"
  by (simp add: always_def same_registry_def registers_def)

lemma registers_bind:
  assumes "always same_registry m" and "\<And>x. always registers (f x)"
  shows "always registers (sbind m f)"
proof (rule alwaysI)
  fix s
  obtain r t where m: "m s = (r, t)" by fastforce
  have "same_registry s t" using alwaysD [OF assms(1), of s] by (simp add: m)
  moreover from this have "registers s t" by (simp add: same_registry_def registers_def)
  moreover have "registers t (snd (f x t))" for x using assms(2) by (simp add: always_def)
  ultimately show "registers s (snd (sbind m f s))"
    by (cases r) (simp_all add: m sbind_run registers_def same_registry_def)
qed

lemma registers_then: "always registers m \<Longrightarrow> always registers (sbind m (\<lambda>_. sret x))"
  by (auto simp: always_def sbind_run sm_run split: prod.splits sum.splits) (metis snd_conv)+

lemma registers_turn: "always registers (register_turn t u work)"
  by (auto simp: always_def registers_def register_turn_def server_runs at_insert_def)

lemma registers_new_handlers:
  "always registers (create_turn H p r)" "always registers (resume_turn_api H p header)"
  unfolding create_turn_def resume_turn_api_def Let_def
  by (auto intro!: registers_bind registers_then registers_turn registers_same [OF same_rules(2)] same_leaves
        registers_same [OF same_leaves(4)] same_reg.always_base split: if_splits)

lemma registers_route: "always registers (route H req)"
  by (cases req) (simp_all add: answers_def registers_then registers_same same_handlers registers_new_handlers)

section \<open>Steps\<close>

lemma turns_inv_new: "turns_inv (new_server a)" and tokens_inv_new: "tokens_inv (new_server a)"
  by (simp_all add: turns_inv_def tokens_inv_def new_server_def no_turns_def)

lemma map_of_snoc: "k \<notin> set (map fst xs) \<Longrightarrow> map_of (xs @ [(k, v)]) = (map_of xs)(k \<mapsto> v)"
  by (induction xs) (auto simp: fun_eq_iff)

lemma registers_turns:
  assumes "turns_inv s" and "registers s s'"
  shows "turns_inv s'"
proof (cases "sv_tasks s' = sv_tasks s \<and> sv_turns s' = sv_turns s")
  case False
  with assms(2) obtain k where k: "sv_tasks s' = sv_tasks s @ [k]"
    "at_by_thread (sv_turns s) (tk_thread k) = None"
    "at_by_thread (sv_turns s') = (at_by_thread (sv_turns s))(tk_thread k \<mapsto> tk_turn k)"
    by (auto simp: registers_def)
  then have "tk_thread k \<notin> tk_thread ` set (sv_tasks s)"
    using assms(1) by (auto simp: turns_inv_def map_of_eq_None_iff image_image)
  with assms(1) k show ?thesis by (simp add: turns_inv_def map_of_snoc image_image del: map_of_append)
qed (use assms(1) in \<open>simp add: turns_inv_def\<close>)

lemma registers_tokens:
  assumes "tokens_inv s" and "registers s s'" and "distinct (map tk_turn (sv_tasks s'))"
  shows "tokens_inv s'"
proof (cases "sv_tasks s' = sv_tasks s \<and> sv_turns s' = sv_turns s")
  case True
  with assms(1,2) show ?thesis by (auto simp: tokens_inv_def registers_def)
next
  case False
  with assms(2) obtain k where k: "sv_tasks s' = sv_tasks s @ [k]" "sv_next_token s \<le> tk_token k"
    "tk_token k < sv_next_token s'" "sv_next_token s \<le> sv_next_token s'"
    "at_by_turn (sv_turns s') = (at_by_turn (sv_turns s))(tk_turn k \<mapsto> tk_token k)"
    by (auto simp: registers_def)
  moreover have "tk_token k \<notin> tk_token ` set (sv_tasks s)" using assms(1) k(2) by (auto simp: tokens_inv_def)
  ultimately show ?thesis using assms(1,3) by (auto simp: tokens_inv_def map_of_snoc image_image simp del: map_of_append)
qed

lemma set_phase_maps [simp]:
  "map tk_thread (set_phase k p ks) = map tk_thread ks" "map tk_turn (set_phase k p ks) = map tk_turn ks"
  "map tk_token (set_phase k p ks) = map tk_token ks"
  "map (\<lambda>k. (tk_thread k, tk_turn k)) (set_phase k p ks) = map (\<lambda>k. (tk_thread k, tk_turn k)) ks"
  "map (\<lambda>k. (tk_turn k, tk_token k)) (set_phase k p ks) = map (\<lambda>k. (tk_turn k, tk_token k)) ks"
  by (simp_all add: set_phase_def)

lemma set_phase_tokens: "j \<in> set (set_phase k p ks) \<Longrightarrow> \<exists>i \<in> set ks. tk_token j = tk_token i"
  by (auto simp: set_phase_def split: if_splits)

lemma run_task_fields:
  "sv_turns (run_task H k s) = sv_turns s" "sv_next_token (run_task H k s) = sv_next_token s"
  "sv_cancelled (run_task H k s) = sv_cancelled s"
  "\<exists>p \<in> {Ended, Died}. sv_tasks (run_task H k s) = set_phase k p (sv_tasks s)"
  by (auto simp: run_task_def split: prod.split sum.split stop.split)

lemma map_of_filter_fst:
  "distinct (map f ks) \<Longrightarrow> k \<in> set ks \<Longrightarrow>
     map_of (map (\<lambda>j. (f j, g j)) (filter (\<lambda>j. j \<noteq> k) ks)) = (map_of (map (\<lambda>j. (f j, g j)) ks))(f k := None)"
proof -
  assume d: "distinct (map f ks)" "k \<in> set ks"
  have "filter (\<lambda>j. j \<noteq> k) ks = filter (\<lambda>j. f j \<noteq> f k) ks"
    using d by (intro filter_cong) (auto simp: distinct_map inj_on_def)
  moreover have "map_of (map (\<lambda>j. (f j, g j)) (filter (\<lambda>j. f j \<noteq> a) ks)) = (map_of (map (\<lambda>j. (f j, g j)) ks))(a := None)" for a
    by (induction ks) auto
  ultimately show ?thesis by simp
qed

lemma step_turns:
  assumes "server_step H s s'" and inv: "turns_inv s"
  shows "turns_inv s'"
  using assms(1)
proof (cases rule: server_stepE)
  case (Handle req)
  with inv registers_turns alwaysD [OF registers_route] show ?thesis by metis
next
  case (Run k)
  with inv run_task_fields [of H k s] show ?thesis by (auto simp: turns_inv_def)
next
  case (End k)
  have reg: "map_of (map (\<lambda>k. (tk_thread k, tk_turn k)) (sv_tasks s)) (tk_thread k) = Some (tk_turn k)"
    using inv End(2) by (simp add: turns_inv_def map_of_eq_Some_iff o_def)
  from End(2) inv show ?thesis
    by (simp add: End(1) turns_inv_def end_task_def at_remove_def reg map_of_filter_fst distinct_map_filter)
qed

lemma step_tokens:
  assumes "server_step H s s'" and inv: "tokens_inv s" and new: "distinct (map tk_turn (sv_tasks s'))"
  shows "tokens_inv s'"
  using assms(1)
proof (cases rule: server_stepE)
  case (Handle req)
  with inv new registers_tokens alwaysD [OF registers_route] show ?thesis by metis
next
  case (Run k)
  with inv run_task_fields [of H k s] show ?thesis by (auto simp: tokens_inv_def dest!: set_phase_tokens)
next
  case (End k)
  from End(2) inv show ?thesis
    by (simp add: End(1) tokens_inv_def end_task_def at_remove_def map_of_filter_fst distinct_map_filter)
qed

lemma reachable_turns: "(server_step H)\<^sup>*\<^sup>* s s' \<Longrightarrow> turns_inv s \<Longrightarrow> turns_inv s'"
  by (induction rule: rtranclp_induct) (auto intro: step_turns)

text \<open>Runs in which no turn id is drawn twice, as the ids of the library promise.\<close>

definition fresh_step :: "'w host \<Rightarrow> 'w server \<Rightarrow> 'w server \<Rightarrow> bool" where
  "fresh_step H s s' \<longleftrightarrow> server_step H s s' \<and> distinct (map tk_turn (sv_tasks s'))"

lemma reachable_tokens: "(fresh_step H)\<^sup>*\<^sup>* s s' \<Longrightarrow> tokens_inv s \<Longrightarrow> tokens_inv s'"
  by (induction rule: rtranclp_induct) (auto simp: fresh_step_def intro: step_tokens)

section \<open>Turns over the interface\<close>

lemma register_turn_run:
  "register_turn t u work s = (if at_by_thread (sv_turns s) t \<noteq> None
     then (Inl (Refused (conflict ''thread already has an active turn'')), s\<lparr>sv_next_token := sv_next_token s + 1\<rparr>)
     else (Inr (), s\<lparr>sv_next_token := sv_next_token s + 1,
       sv_turns := \<lparr>at_by_thread = (at_by_thread (sv_turns s))(t \<mapsto> u), at_by_turn = (at_by_turn (sv_turns s))(u \<mapsto> sv_next_token s)\<rparr>,
       sv_tasks := sv_tasks s @ [\<lparr>tk_thread = t, tk_turn = u, tk_token = sv_next_token s, tk_work = work, tk_phase = Spawned\<rparr>]\<rparr>))"
  by (simp add: register_turn_def server_runs at_insert_def)

text \<open>What a valid request for a turn is.\<close>

definition turn_input_of :: "CreateTurnRequest \<Rightarrow> TurnInput" where
  "turn_input_of r = \<lparr>ti_content = trim (ct_input r), ti_incident_context = ct_incident_context r\<rparr>"

definition turn_request_error :: "'w host \<Rightarrow> string \<Rightarrow> CreateTurnRequest \<Rightarrow> db \<Rightarrow> ApiError option" where
  "turn_request_error H path r d =
     (case ho_parse_uuid H path of
        None \<Rightarrow> Some (bad_request ''invalid thread id'')
      | Some t \<Rightarrow>
          (case get_thread (ext_of H) t d of
             Inl err \<Rightarrow> Some (api_error err)
           | Inr _ \<Rightarrow>
               if trim (ct_input r) = [] then Some (bad_request ''input must not be empty'')
               else if 32 * 1024 < length (trim (ct_input r)) then Some (bad_request ''input exceeds 32 KiB'')
               else (case ct_incident_context r of
                 None \<Rightarrow> None
               | Some c \<Rightarrow> (case incident_validate (ext_of H) (ro_codec (runtime_of H)) c of
                   Inl err \<Rightarrow> Some (api_error err) | Inr _ \<Rightarrow> None))))"

lemma server_uuid_run:
  "server_uuid H s = (Inr (fst (io_uuid (io_of H) (sys_world (ag_sys (sv_agent s))))),
     s\<lparr>sv_agent := (sv_agent s)\<lparr>ag_sys := (ag_sys (sv_agent s))\<lparr>sys_world :=
       snd (io_uuid (io_of H) (sys_world (ag_sys (sv_agent s))))\<rparr>\<rparr>\<rparr>)"
  by (simp add: server_uuid_def on_agent_def new_id_def on_sys_def on_world_def fresh_uuid_def sask_def split: prod.split)

lemma create_turn_run:
  "create_turn H path r s =
     (case turn_request_error H path r (db_of s) of
        Some e \<Rightarrow> (Inl (Refused e), s)
      | None \<Rightarrow>
          (let t = the (ho_parse_uuid H path); u = fst (io_uuid (io_of H) (sys_world (ag_sys (sv_agent s))));
               s1 = snd (server_uuid H s)
           in case register_turn t u (RunTurn (turn_input_of r)) s1 of
                (Inl e, s2) \<Rightarrow> (Inl e, s2) | (Inr _, s2) \<Rightarrow> (Inr u, s2)))"
  by (auto simp: create_turn_def turn_request_error_def server_runs ok_or_def Let_def turn_input_of_def server_uuid_run
      split: option.splits sum.splits prod.splits)

text \<open>
  C8: a request for a turn either starts exactly that turn or changes nothing. A request that is not
  valid is refused with its error and leaves the whole state as it was; a valid one for a busy thread is
  refused as a conflict; a valid one for a free thread adds one task with the trimmed input, registers
  it and makes it cancellable. In no case does the handler write to the store or broadcast an event.
\<close>

theorem turn_is_started_or_refused:
  "case turn_request_error H path r (db_of s) of
     Some e \<Rightarrow> create_turn H path r s = (Inl (Refused e), s)
   | None \<Rightarrow>
       (let (result, s') = create_turn H path r s; t = the (ho_parse_uuid H path)
        in db_of s' = db_of s \<and> ag_bus (sv_agent s') = ag_bus (sv_agent s) \<and> sv_cancelled s' = sv_cancelled s \<and>
           (if at_by_thread (sv_turns s) t \<noteq> None
            then result = Inl (Refused (conflict ''thread already has an active turn'')) \<and>
              sv_turns s' = sv_turns s \<and> sv_tasks s' = sv_tasks s
            else (\<exists>u. result = Inr u \<and> at_by_thread (sv_turns s') = (at_by_thread (sv_turns s))(t \<mapsto> u) \<and>
              at_cancellation u (sv_turns s') = Some (sv_next_token s) \<and>
              sv_tasks s' = sv_tasks s @ [\<lparr>tk_thread = t, tk_turn = u, tk_token = sv_next_token s,
                tk_work = RunTurn (turn_input_of r), tk_phase = Spawned\<rparr>])))"
  by (simp add: create_turn_run register_turn_run server_uuid_run Let_def db_of_def at_cancellation_def split: option.split)

text \<open>
  C7: a thread has at most one turn at work. Whatever requests are handled and however tasks run in
  between, no two tasks work on the same thread, and a thread counts as busy with a turn exactly while
  the task of that turn has not freed it.
\<close>

theorem thread_has_one_turn:
  assumes "(server_step H)\<^sup>*\<^sup>* (new_server a) s"
  shows "distinct (map tk_thread (sv_tasks s)) \<and>
    (at_by_thread (sv_turns s) t = Some u \<longleftrightarrow> (t, u) \<in> (\<lambda>k. (tk_thread k, tk_turn k)) ` set (sv_tasks s))"
  using reachable_turns [OF assms turns_inv_new] by (simp add: turns_inv_def map_of_eq_Some_iff o_def)

text \<open>
  C9: an interrupt reaches exactly the turn it names. In every reachable state it cancels the token of
  the task that works on the turn, which no other task has, and when no task works on the turn it is
  answered with not found and changes nothing.
\<close>

theorem interrupt_reaches_one_turn:
  assumes "(fresh_step H)\<^sup>*\<^sup>* (new_server a) s" and "ho_parse_uuid H path = Some u"
  shows "interrupt_turn H path s = (case find (\<lambda>k. tk_turn k = u) (sv_tasks s) of
       Some k \<Rightarrow> (Inr u, s\<lparr>sv_cancelled := insert (tk_token k) (sv_cancelled s)\<rparr>)
     | None \<Rightarrow> (Inl (Refused (not_found (''active turn '' @ uuid_string (ext_of H) u))), s)) \<and>
    distinct (map tk_token (sv_tasks s))"
proof -
  have inv: "tokens_inv s" by (rule reachable_tokens [OF assms(1) tokens_inv_new])
  have "map_of (map (\<lambda>k. (tk_turn k, tk_token k)) ks) u = map_option tk_token (find (\<lambda>k. tk_turn k = u) ks)" for ks
    by (induction ks) auto
  with inv have "at_cancellation u (sv_turns s) = map_option tk_token (find (\<lambda>k. tk_turn k = u) (sv_tasks s))"
    by (simp only: tokens_inv_def at_cancellation_def)
  with inv assms(2) show ?thesis
    by (cases "find (\<lambda>k. tk_turn k = u) (sv_tasks s)")
      (simp_all add: tokens_inv_def interrupt_turn_def server_runs ok_or_def)
qed

text \<open>
  A turn that ended frees its thread. After the task has ended, any valid request for a turn on that
  thread is accepted, in every reachable state and whatever became of the turn.
\<close>

theorem ended_turn_frees_thread:
  assumes "(server_step H)\<^sup>*\<^sup>* (new_server a) s" and "k \<in> set (sv_tasks s)" and "tk_phase k = Ended"
    and "ho_parse_uuid H path = Some (tk_thread k)" and "turn_request_error H path r (db_of s) = None"
  shows "server_step H s (end_task k s) \<and> is_ok (fst (create_turn H path r (end_task k s)))"
proof -
  have inv: "turns_inv s" by (rule reachable_turns [OF assms(1) turns_inv_new])
  then have "turns_inv (end_task k s)" using step_turns server_step.End assms(2,3) by metis
  moreover have "tk_thread k \<notin> tk_thread ` set (sv_tasks (end_task k s))"
    using inv assms(2) by (auto simp: turns_inv_def end_task_def distinct_map inj_on_def)
  ultimately have "at_by_thread (sv_turns (end_task k s)) (tk_thread k) = None"
    by (auto simp: turns_inv_def map_of_eq_None_iff image_image)
  moreover have "db_of (end_task k s) = db_of s" by (simp add: end_task_def db_of_def)
  ultimately show ?thesis
    using assms server_step.End [of k s H]
    by (simp add: create_turn_run register_turn_run server_uuid_run Let_def is_ok_def)
qed

text \<open>
  A turn that panicked never frees its thread: its task never ends, so every further request for a turn
  of that thread is a conflict until the process restarts.
\<close>

lemma died_task_stays:
  assumes "(server_step H)\<^sup>*\<^sup>* s s'" and "k \<in> set (sv_tasks s)" and "tk_phase k = Died"
  shows "k \<in> set (sv_tasks s')"
  using assms(1)
proof (induction rule: rtranclp_induct)
  case (step t t')
  from step(2) show ?case
  proof (cases rule: server_stepE)
    case (Handle req)
    with step(3) alwaysD [OF registers_route, of t H req] show ?thesis by (auto simp: registers_def)
  next
    case (Run j)
    with assms(3) have "j \<noteq> k" by auto
    with step(3) run_task_fields(4) [of H j t] Run(1) show ?thesis by (force simp: set_phase_def)
  next
    case (End j)
    with assms(3) have "j \<noteq> k" by auto
    with step(3) End(1) show ?thesis by (simp add: end_task_def)
  qed
qed (rule assms(2))

lemma panicked_turn_blocks_thread:
  assumes "(server_step H)\<^sup>*\<^sup>* (new_server a) s" and "k \<in> set (sv_tasks s)" and "tk_phase k = Died"
    and "(server_step H)\<^sup>*\<^sup>* s s'" and "ho_parse_uuid H path = Some (tk_thread k)"
  shows "\<exists>e. fst (create_turn H path r s') = Inl (Refused e)"
proof -
  have "turns_inv s'" using reachable_turns turns_inv_new assms(1,4) by (metis rtranclp_trans)
  with died_task_stays [OF assms(4,2,3)] have "at_by_thread (sv_turns s') (tk_thread k) = Some (tk_turn k)"
    by (simp add: turns_inv_def map_of_eq_Some_iff o_def)
  then show ?thesis
    using assms(5) by (auto simp: create_turn_run register_turn_run server_uuid_run Let_def split: option.split)
qed

text \<open>
  A turn that was accepted may never begin: when its input is over the budget of the model context, the
  runtime refuses it before it writes anything, and nothing but a log line of the process tells.
\<close>

lemma accepted_turn_vanishes:
  assumes "tk_work k = RunTurn input" and "ti_incident_context input = None"
    and "length (ti_content input) \<le> MAX_TURN_INPUT_BYTES"
    and "cb_max_bytes (rc_context (ro_config (ho_runtime H (tk_token k \<in> sv_cancelled s)))) < length (ti_content input)"
  shows "sv_agent (run_task H k s) = sv_agent s"
proof -
  have "\<exists>err. turn_work H (tk_token k \<in> sv_cancelled s) k (sv_agent s) = (Inl (Returned err), sv_agent s)"
    using assms by (simp add: turn_work_def run_turn_def check_turn_input_def and_then_def alift_def Let_def sm_run sbind_run)
  then show ?thesis by (auto simp: run_task_def)
qed

section \<open>Reading\<close>

definition is_read :: "Request \<Rightarrow> bool" where
  "is_read req = (case req of ListThreads _ \<Rightarrow> True | GetThread _ _ \<Rightarrow> True | ThreadEvents _ _ _ _ \<Rightarrow> True
     | GetEvidence _ _ _ \<Rightarrow> True | GetArtifact _ _ _ \<Rightarrow> True | ListActionPlans _ \<Rightarrow> True | ListAudit \<Rightarrow> True
     | GetRecovery _ \<Rightarrow> True | _ \<Rightarrow> False)"

definition untouched :: "'w server \<Rightarrow> 'w server \<Rightarrow> bool" where
  "untouched s t \<longleftrightarrow> t = s"

interpretation unchanged: guarantee untouched
  by unfold_locales (simp_all add: untouched_def)

lemma unchanged_leaves:
  "always untouched (on_agent (reads f))" "always untouched (asks g)" "always untouched (from_result r)"
  "always untouched (parse_id H kind v)" "always untouched (on_agent (recovery_report R u))"
proof -
  have "snd (recovery_report R u a) = a" for a
    by (auto simp: recovery_report_def reads_def reads_result_def alift_def sm_run sbind_run split: sum.split)
  moreover have "snd (on_agent (recovery_report R u) s) = s\<lparr>sv_agent := snd (recovery_report R u (sv_agent s))\<rparr>" for s
    by (simp add: on_agent_def split: prod.split)
  ultimately show "always untouched (on_agent (recovery_report R u))"
    by (simp add: always_def untouched_def)
qed (simp_all add: always_def untouched_def asks_run reads_run api_runs)

lemmas unchanged_rules = unchanged.always_bind unchanged.always_base unchanged_leaves

lemma unchanged_handlers:
  "always untouched (list_threads_api H w)" "always untouched (get_thread_api H p q)"
  "always untouched (thread_events H p n kind header)" "always untouched (get_evidence_api H p ev w)"
  "always untouched (get_artifact_api H d mb w)" "always untouched (list_action_plans H p)"
  "always untouched (list_audit_api H)" "always untouched (get_recovery H p)"
  unfolding list_threads_api_def get_thread_api_def thread_events_def get_evidence_api_def get_artifact_api_def
    list_action_plans_def list_audit_api_def get_recovery_def Let_def
  by (auto intro!: unchanged_rules split: option.split)

lemma read_runs: "is_read req \<Longrightarrow> always untouched (route H req)"
  by (cases req) (simp_all add: is_read_def answers_def unchanged_handlers unchanged_rules)

text \<open>
  Reading changes nothing. Listing and reading threads, opening an event stream and reading
  evidence, artifacts, actions, the audit log and a recovery report leave the whole state of the server
  as it was, whether they succeed or not.
\<close>

theorem reading_changes_nothing: "is_read req \<Longrightarrow> snd (route H req s) = s"
  using alwaysD [OF read_runs] by (metis untouched_def)

lemma get_thread_log:
  assumes "store_inv d" and "store_log d t = Some L"
  obtains th where "get_thread E t d = Inr th" and "th_items th = fst (project L)"
proof -
  from store_log_valid [OF assms] obtain row where row: "tbl_get tr_id t (db_threads d) = Some row"
    "valid_log t (tr_workspace_id row) L" by blast
  have "load_events E t 0 d = Inr L"
    using load_events_log [OF assms, of 0] gap_free_filter [of L 0] row(2) by (simp add: valid_log_def)
  with row that show thesis by (simp add: get_thread_def and_then_def valid_log_def reconstruct_thread_ok load_lineage_def)
qed

text \<open>A client that reads a thread page by page, each from the last number of the page before.\<close>

fun read_pages :: "'w host \<Rightarrow> string \<Rightarrow> StreamKind option \<Rightarrow> nat \<Rightarrow> nat \<Rightarrow> nat \<Rightarrow> 'w server \<Rightarrow> EventEnvelope list" where
  "read_pages H path kind limit 0 after s = []"
| "read_pages H path kind limit (Suc n) after s =
     (case fst (get_thread_api H path \<lparr>qy_after = after, qy_limit = Some limit, qy_stream_kind = kind\<rparr> s) of
        Inl _ \<Rightarrow> []
      | Inr d \<Rightarrow> if td_events d = [] then []
          else td_events d @ read_pages H path kind limit n (env_seq (last (td_events d))) s)"

lemma page_rest:
  assumes "sorted_wrt (<) (map f ks)" and "ks \<noteq> []" and "0 < (n :: nat)"
  shows "filter (\<lambda>e. f (last (take n ks)) < (f e :: nat)) ks = drop n ks"
proof -
  have ks: "ks = take n ks @ drop n ks" by simp
  have take: "\<not> f (last (take n ks)) < f e" if "e \<in> set (take n ks)" for e
  proof -
    from that obtain i where i: "i < length (take n ks)" "e = take n ks ! i" by (auto simp: in_set_conv_nth)
    have "last (take n ks) = take n ks ! (length (take n ks) - 1)" using assms(2,3) by (simp add: last_conv_nth)
    moreover have "f (ks ! i) \<le> f (ks ! j)" if "i \<le> j" "j < length ks" for j
      using assms(1) that by (cases "i = j") (auto simp: sorted_wrt_iff_nth_less intro: less_imp_le)
    ultimately show ?thesis using i by (auto simp: not_less)
  qed
  have drop: "f (last (take n ks)) < f e" if "e \<in> set (drop n ks)" for e
  proof -
    have "last (take n ks) \<in> set (take n ks)" using assms(2,3) by simp
    moreover have "sorted_wrt (<) (map f (take n ks @ drop n ks))" using assms(1) by simp
    ultimately show ?thesis using that unfolding map_append sorted_wrt_append by auto
  qed
  have "filter (\<lambda>e. f (last (take n ks)) < f e) (take n ks @ drop n ks) = drop n ks"
    using take drop by (simp only: filter_append) (simp add: filter_empty_conv)
  then show ?thesis by simp
qed

lemma read_pages_log:
  assumes inv: "store_inv (db_of s)" and log: "store_log (db_of s) t = Some L"
    and path: "ho_parse_uuid H path = Some t" and L: "gap_free L" "length L < 2 ^ 63"
  shows "from < 2 ^ 63 \<Longrightarrow> length (filter (kind_matches kind) (filter (\<lambda>e. from < env_seq e) L)) \<le> n \<Longrightarrow>
    read_pages H path kind limit n from s = filter (kind_matches kind) (filter (\<lambda>e. from < env_seq e) L)"
proof (induction n arbitrary: "from")
  case (Suc n)
  obtain ks where ks: "ks = filter (kind_matches kind) (filter (\<lambda>e. from < env_seq e) L)" by blast
  obtain th where th: "get_thread (ext_of H) t (db_of s) = Inr th" using get_thread_log [OF inv log] by metis
  have "events_after (ext_of H) t from (db_of s) = Inr (filter (\<lambda>e. from < env_seq e) L)"
    unfolding events_after_def by (rule load_events_log [OF inv log Suc.prems(1)])
  with th path obtain title where page: "fst (get_thread_api H path
        \<lparr>qy_after = from, qy_limit = Some limit, qy_stream_kind = kind\<rparr> s) =
      Inr \<lparr>td_thread = th, td_title = title, td_events = take (max limit 1) ks\<rparr>"
    by (simp add: get_thread_api_def server_runs ok_or_def page_of_def Let_def ks)
  show ?case
  proof (cases "ks = []")
    case False
    obtain m where m: "m = env_seq (last (take (max limit 1) ks))" by blast
    have sorted: "sorted_wrt (<) (map env_seq ks)"
      using gap_free_sorted [OF L(1), of "kind_matches kind" "from"] by (simp add: ks gap_free_filter [OF L(1)])
    have "take (max limit 1) ks \<noteq> []" using False by simp
    then have "last (take (max limit 1) ks) \<in> set ks" by (rule in_set_takeD [OF last_in_set])
    then have "last (take (max limit 1) ks) \<in> set L" and low: "from < m" by (simp_all add: ks m)
    with gap_free_seq_range [OF L(1)] have "m \<le> length L" unfolding m by blast
    from this L(2) have high: "m < 2 ^ 63" by (rule le_less_trans)
    have "filter (kind_matches kind) (filter (\<lambda>e. m < env_seq e) L) = filter (\<lambda>e. m < env_seq e) ks"
      unfolding ks filter_filter using low by (intro filter_cong) auto
    also have "\<dots> = drop (max limit 1) ks"
      unfolding m using page_rest [OF sorted False, of "max limit 1"] by simp
    finally have rest: "filter (kind_matches kind) (filter (\<lambda>e. m < env_seq e) L) = drop (max limit 1) ks" .
    moreover have "length (drop (max limit 1) ks) \<le> n" using Suc.prems(2) by (simp add: ks)
    ultimately have "read_pages H path kind limit n m s = drop (max limit 1) ks"
      using Suc.IH [OF high] by simp
    then show ?thesis unfolding ks [symmetric] using False by (simp add: page m)
  qed (simp add: page ks)
qed (simp split: if_splits)

text \<open>
  The pages of a thread add up to its log. A client that reads page by page, with any limit and from
  any number on, gets exactly the events of the log behind that number and of the requested kind, in
  order and each once, with at most one request for each of them.
\<close>

theorem pages_add_up_to_the_log:
  assumes "store_inv (db_of s)" and "store_log (db_of s) t = Some L" and "ho_parse_uuid H path = Some t"
    and "from < 2 ^ 63" and "length (filter (kind_matches kind) (filter (\<lambda>e. from < env_seq e) L)) \<le> n"
  shows "read_pages H path kind limit n from s = filter (kind_matches kind) (filter (\<lambda>e. from < env_seq e) L)"
proof -
  from store_log_valid [OF assms(1,2)] have "gap_free L" "length L < 2 ^ 63" by (auto simp: valid_log_def)
  from read_pages_log [OF assms(1-3) this assms(4,5)] show ?thesis .
qed

section \<open>Creating a thread\<close>

lemma create_thread_row:
  assumes "create_thread E i now t w d = (Inr e, d')"
  shows "e = with_workspace w (new_envelope i now 1 t None ThreadCreated)" and "validate_workspace_id w = Inr ()"
    and "load_lineage E t d' = Inr (None, None)"
proof -
  let ?e = "with_workspace w (new_envelope i now 1 t None ThreadCreated)"
  from assms obtain s1 where r: "insert_thread E ?e None None ThreadStatus.Idle None
        (insert_workspace w (env_timestamp ?e) d) = (Inr (), s1)" "insert_event ?e s1 = (Inr (), d')" "e = ?e"
      "validate_workspace_id w = Inr ()"
    by (auto simp: create_thread_def transaction_do_Inr sm_simps Let_def split: prod.splits sum.splits)
  show "e = ?e" "validate_workspace_id w = Inr ()" by (rule r)+
  show "load_lineage E t d' = Inr (None, None)"
    using r(1,2) by (auto simp: insert_event_Inr insert_thread_def load_lineage_def tbl_get_append
        with_workspace_def new_envelope_def with_causation_def split: if_splits option.splits)
qed

lemma agent_op_Inr:
  "on_agent (on_store m) s = (Inr x, s') \<Longrightarrow>
     m (db_of s) = (Inr x, db_of s') \<and> ag_bus (sv_agent s') = ag_bus (sv_agent s)"
  "server_uuid H s = (Inr y, s') \<Longrightarrow> db_of s' = db_of s \<and> ag_bus (sv_agent s') = ag_bus (sv_agent s)"
  "on_agent (now_of R) s = (Inr z, s') \<Longrightarrow> db_of s' = db_of s \<and> ag_bus (sv_agent s') = ag_bus (sv_agent s)"
  "hub_send e s = (Inr u, s') \<Longrightarrow> db_of s' = db_of s \<and> ag_bus (sv_agent s') = ag_bus (sv_agent s) @ [e]"
proof -
  show "on_agent (on_store m) s = (Inr x, s') \<Longrightarrow>
     m (db_of s) = (Inr x, db_of s') \<and> ag_bus (sv_agent s') = ag_bus (sv_agent s)"
    by (cases "m (db_of s)"; cases "fst (m (db_of s))")
      (auto simp: on_agent_Inr on_store_def on_sys_def on_db_def db_of_def)
qed (auto simp: server_uuid_run on_agent_Inr now_of_def on_sys_def on_world_def utc_now_def sask_def db_of_def hub_send_def
    sm_run split: prod.splits)

lemma create_thread_api_Inr:
  assumes "create_thread_api H body s = (Inr (t, w), s')"
  obtains i now e where "create_thread (ext_of H) i now t w (db_of s) = (Inr e, db_of s')"
    and "ag_bus (sv_agent s') = ag_bus (sv_agent s) @ [e]"
    and "w = str_or default_workspace (Option.bind body cr_workspace_id)"
proof -
  from assms obtain s1 i s2 now s3 e s4 where r: "server_uuid H s = (Inr t, s1)" "server_uuid H s1 = (Inr i, s2)"
      "on_agent (now_of (runtime_of H)) s2 = (Inr now, s3)"
      "on_agent (on_store (create_thread (ext_of H) i now t w)) s3 = (Inr e, s4)" "hub_send e s4 = (Inr (), s')"
    and w: "w = str_or default_workspace (cr_workspace_id (case body of
        None \<Rightarrow> \<lparr>cr_workspace_id = None, cr_incident_context = None\<rparr> | Some r \<Rightarrow> r))"
    unfolding create_thread_api_def Let_def sbind_Inr_iff
    by (auto simp: sm_run api_runs check_context_def on_agent_fields sbind_Inr_iff split: if_splits)
  from w have w': "w = str_or default_workspace (Option.bind body cr_workspace_id)" by (cases body) simp_all
  from r(1-3,5) agent_op_Inr(1) [OF r(4)] show thesis
    by (intro that [OF _ _ w']) (auto dest!: agent_op_Inr(2-4))
qed

text \<open>
  A new thread can be read at once. When the handler answers with an id, the id was free, the
  thread is idle, empty and without a parent, its log is the one event that was broadcast, and the
  workspace is the requested one, or the default one, and valid.
\<close>

theorem created_thread_is_readable:
  assumes "store_inv (db_of s)" and "create_thread_api H body s = (Inr (t, w), s')" and "ho_parse_uuid H path = Some t"
  shows "validate_workspace_id w = Inr () \<and> w = str_or default_workspace (Option.bind body cr_workspace_id) \<and>
    store_inv (db_of s') \<and> store_log (db_of s) t = None \<and>
    (\<exists>e now. channel_sent t s' = channel_sent t s @ [e] \<and>
      fst (get_thread_api H path \<lparr>qy_after = 0, qy_limit = None, qy_stream_kind = None\<rparr> s') = Inr
        \<lparr>td_thread = \<lparr>th_id = t, th_workspace_id = w, th_items = [], th_status = ThreadStatus.Idle,
           th_created_at = now, th_updated_at = now, th_parent_thread_id = None, th_forked_at_seq = None\<rparr>,
         td_title = None, td_events = [e]\<rparr>)"
proof -
  obtain i now e where run: "create_thread (ext_of H) i now t w (db_of s) = (Inr e, db_of s')"
    and bus: "ag_bus (sv_agent s') = ag_bus (sv_agent s) @ [e]"
    and w: "w = str_or default_workspace (Option.bind body cr_workspace_id)"
    using create_thread_api_Inr [OF assms(2)] by metis
  note made = create_thread_works [OF assms(1) run]
  note row = create_thread_row [OF run]
  from made have log: "store_log (db_of s') t = Some [e]" by simp
  have load: "load_events (ext_of H) t 0 (db_of s') = Inr [e]"
    using load_events_log [OF conjunct1 [OF made] log, of 0 "ext_of H"]
    by (simp add: row(1) with_workspace_def new_envelope_def with_causation_def)
  have "get_thread (ext_of H) t (db_of s') = Inr \<lparr>th_id = t, th_workspace_id = w, th_items = [],
      th_status = ThreadStatus.Idle, th_created_at = now, th_updated_at = now, th_parent_thread_id = None,
      th_forked_at_seq = None\<rparr>"
    using made by (simp add: get_thread_def load and_then_def reconstruct_thread_ok row project_def apply_event_def
        with_workspace_def new_envelope_def with_causation_def)
  then have "fst (get_thread_api H path \<lparr>qy_after = 0, qy_limit = None, qy_stream_kind = None\<rparr> s') = Inr
        \<lparr>td_thread = \<lparr>th_id = t, th_workspace_id = w, th_items = [], th_status = ThreadStatus.Idle,
           th_created_at = now, th_updated_at = now, th_parent_thread_id = None, th_forked_at_seq = None\<rparr>,
         td_title = None, td_events = [e]\<rparr>"
    using assms(3) by (simp add: get_thread_api_def server_runs ok_or_def page_of_def kind_matches_def events_after_def load)
  moreover have "channel_sent t s' = channel_sent t s @ [e]"
    by (simp add: channel_sent_def bus row(1) with_workspace_def new_envelope_def with_causation_def)
  ultimately show ?thesis using made row(2) w by blast
qed

section \<open>Events of actions\<close>

lemma send_all_run: "send_all es s = (Inr (), s\<lparr>sv_agent := (sv_agent s)\<lparr>ag_bus := ag_bus (sv_agent s) @ es\<rparr>\<rparr>)"
  by (induction es arbitrary: s) (simp_all add: server_runs)

lemma on_sys_bus: "ag_bus (snd (on_sys m a)) = ag_bus a"
  by (simp add: on_sys_def split: prod.split)

lemma publish_run:
  "publish_new_events H t n s = (case events_after (ext_of H) t n (db_of s) of
     Inl err \<Rightarrow> (Inl (Refused (api_error err)), s)
   | Inr es \<Rightarrow> (Inr (), s\<lparr>sv_agent := (sv_agent s)\<lparr>ag_bus := ag_bus (sv_agent s) @ es\<rparr>\<rparr>))"
  by (simp add: publish_new_events_def server_runs send_all_run split: sum.split)

text \<open>
  An execution that succeeds broadcasts what was appended to the thread in the meantime. One that fails
  broadcasts nothing, also where it has moved the action on and recorded that: the clients that follow
  the thread live do not learn of it.
\<close>

lemma failed_action_is_not_broadcast:
  assumes "execute_action_api H path s = (Inl err, s')"
  shows "ag_bus (sv_agent s') = ag_bus (sv_agent s)"
proof -
  have "ag_bus (sv_agent (snd (on_agent (on_sys m) t))) = ag_bus (sv_agent t)" for m and t :: "'a server"
    by (simp add: on_agent_fields on_sys_bus)
  note bus = this [of "execute_action (ext_of H) (io_of H) a" for a]
  show ?thesis
    using assms bus unfolding execute_action_api_def stored_action_def seq_before_def
    by (simp add: server_runs publish_run split: sum.splits prod.splits) (metis snd_conv)+
qed

section \<open>A concrete server\<close>

text \<open>A server over one thread with a context budget of one byte, so that turns end at once.\<close>

definition demo_host :: "demo_world host" where
  "demo_host = \<lparr>ho_runtime = (\<lambda>_. demo_runtime\<lparr>ro_config := (default_runtime_config 1000)\<lparr>rc_context := default_budget\<lparr>cb_max_bytes := 1\<rparr>\<rparr>\<rparr>),
     ho_parse_uuid = map_of [(''nine'', 9), (''zero'', 0)], ho_parse_u64 = (\<lambda>_. None),
     ho_fork_draws = (\<lambda>w. ((id, int, 0, 0), w)), ho_minute = 60\<rparr>"

definition demo_question :: CreateTurnRequest where
  "demo_question = \<lparr>ct_input = '' why '', ct_incident_context = None\<rparr>"

definition demo_start :: "demo_world server" where
  "demo_start = new_server (demo_agent sample_db {})"

definition demo_busy :: "demo_world server" where
  "demo_busy = snd (route demo_host (CreateTurn ''nine'' demo_question) demo_start)"

definition demo_task :: turn_task where
  "demo_task = \<lparr>tk_thread = 9, tk_turn = 0, tk_token = 0,
     tk_work = RunTurn \<lparr>ti_content = ''why'', ti_incident_context = None\<rparr>, tk_phase = Spawned\<rparr>"

lemma demo_host_simps [simp]:
  "ext_of demo_host = demo_ext" "io_of demo_host = demo_io" "ho_parse_uuid demo_host ''nine'' = Some 9"
  "ho_parse_uuid demo_host ''zero'' = Some 0"
  by (simp_all add: demo_host_def demo_runtime_def)

lemma demo_start_simps [simp]:
  "db_of demo_start = sample_db" "sv_turns demo_start = no_turns" "sv_tasks demo_start = []"
  "sv_next_token demo_start = 0" "sys_world (ag_sys (sv_agent demo_start)) = demo_world0 []"
  "sv_cancelled demo_start = {}"
  by (simp_all add: demo_start_def new_server_def db_of_def demo_agent_def demo_sys_def)

lemma demo_question_ok: "db_of s = sample_db \<Longrightarrow> turn_request_error demo_host ''nine'' demo_question (db_of s) = None"
proof -
  have input: "trim (ct_input demo_question) = ''why''" by code_simp
  obtain th where "get_thread demo_ext 9 sample_db = Inr th" using get_thread_log [OF sample_db_inv sample_db_log(1)] by metis
  then show "db_of s = sample_db \<Longrightarrow> turn_request_error demo_host ''nine'' demo_question (db_of s) = None"
    by (simp add: turn_request_error_def input) (simp add: demo_question_def)
qed

lemma demo_busy_simps:
  "sv_tasks demo_busy = [demo_task]" "db_of demo_busy = sample_db" "sv_cancelled demo_busy = {}"
proof -
  have input: "turn_input_of demo_question = \<lparr>ti_content = ''why'', ti_incident_context = None\<rparr>" by code_simp
  note run = create_turn_run [of demo_host "''nine''" demo_question demo_start]
  show "sv_tasks demo_busy = [demo_task]" "db_of demo_busy = sample_db" "sv_cancelled demo_busy = {}"
    using demo_question_ok [of demo_start]
    by (simp_all add: demo_busy_def answers_def sbind_run sm_run run register_turn_run server_uuid_run Let_def no_turns_def
        demo_world0_def demo_task_def input db_of_def [of "_ \<lparr> sv_tasks := _ \<rparr>"] split: prod.splits)
      (simp add: db_of_def [symmetric])
qed

lemma demo_reach: "(fresh_step demo_host)\<^sup>*\<^sup>* (new_server (demo_agent sample_db {})) demo_busy"
  unfolding demo_start_def [symmetric]
  by (rule r_into_rtranclp) (auto simp: fresh_step_def demo_busy_simps demo_busy_def [symmetric] intro: server_step.Handle
      [of demo_host demo_start "CreateTurn ''nine'' demo_question", folded demo_busy_def])

lemma fresh_steps: "(fresh_step H)\<^sup>*\<^sup>* s s' \<Longrightarrow> (server_step H)\<^sup>*\<^sup>* s s'"
  by (induction rule: rtranclp_induct) (auto simp: fresh_step_def intro: rtranclp.rtrancl_into_rtrancl)

definition demo_over :: "demo_world server" where
  "demo_over = run_task demo_host demo_task demo_busy"

lemma demo_over_simps: "sv_tasks demo_over = [demo_task\<lparr>tk_phase := Ended\<rparr>]" "db_of demo_over = sample_db"
proof -
  have "\<exists>err. turn_work demo_host c demo_task s = (Inl (Returned err), s)" for c s
    by (simp add: turn_work_def demo_task_def demo_host_def demo_runtime_def run_turn_def check_turn_input_def and_then_def
        Let_def MAX_TURN_INPUT_BYTES_def sbind_run arefuse_def sm_run)
  then obtain err where "turn_work demo_host (tk_token demo_task \<in> sv_cancelled demo_busy) demo_task (sv_agent demo_busy) =
      (Inl (Returned err), sv_agent demo_busy)" by blast
  then show "sv_tasks demo_over = [demo_task\<lparr>tk_phase := Ended\<rparr>]" "db_of demo_over = sample_db"
    by (simp_all add: demo_over_def run_task_def demo_busy_simps set_phase_def)
      (simp add: db_of_def [symmetric] demo_busy_simps db_of_def [of "sv_tasks_update _ _"])
qed

lemma demo_over_reach: "(server_step demo_host)\<^sup>*\<^sup>* (new_server (demo_agent sample_db {})) demo_over"
proof -
  have "server_step demo_host demo_busy demo_over"
    unfolding demo_over_def by (rule server_step.Run) (simp_all add: demo_busy_simps demo_task_def)
  with fresh_steps [OF demo_reach] show ?thesis by simp
qed

theorem thread_has_one_turn_witness:
  "distinct (map tk_thread (sv_tasks demo_busy)) \<and> at_by_thread (sv_turns demo_busy) 9 = Some 0"
  using thread_has_one_turn [OF fresh_steps [OF demo_reach], of 9 0] by (simp add: demo_busy_simps demo_task_def)

theorem interrupt_reaches_one_turn_witness:
  "interrupt_turn demo_host ''zero'' demo_busy = (Inr 0, demo_busy\<lparr>sv_cancelled := {0}\<rparr>)"
  using interrupt_reaches_one_turn [OF demo_reach, of "''zero''" 0] by (simp add: demo_busy_simps demo_task_def)

theorem ended_turn_frees_thread_witness:
  "is_ok (fst (create_turn demo_host ''nine'' demo_question (end_task (demo_task\<lparr>tk_phase := Ended\<rparr>) demo_over)))"
  using ended_turn_frees_thread [OF demo_over_reach, of "demo_task\<lparr>tk_phase := Ended\<rparr>" "''nine''" demo_question]
    demo_question_ok [of demo_over]
  by (simp add: demo_over_simps demo_task_def)

theorem reading_changes_nothing_witness: "snd (route demo_host ListAudit demo_start) = demo_start"
  by (rule reading_changes_nothing) (simp add: is_read_def)

theorem pages_add_up_to_the_log_witness:
  "read_pages demo_host ''nine'' None 1 2 0 demo_start = sample_log"
  using pages_add_up_to_the_log [of demo_start 9 sample_log demo_host "''nine''" 0 None 2 1]
  by (simp add: sample_db_inv sample_db_log kind_matches_def) (simp add: sample_log_def)

theorem created_thread_is_readable_witness:
  "store_inv (db_of (snd (create_thread_api demo_host None (new_server (demo_agent empty_db {}))))) \<and>
   (\<exists>e. channel_sent 0 (snd (create_thread_api demo_host None (new_server (demo_agent empty_db {})))) = [e])"
proof -
  let ?s = "new_server (demo_agent empty_db {})"
  have "validate_workspace_id ''default'' = Inr ()" by code_simp
  then have "\<exists>s. create_thread_api demo_host None ?s = (Inr (0, ''default''), s)"
    by (simp add: create_thread_api_def check_context_def server_runs server_uuid_run on_agent_def now_of_def on_store_def
        on_sys_def on_db_def on_world_def utc_now_def sask_def demo_host_def demo_runtime_def new_server_def
        demo_agent_def demo_sys_def demo_world0_def default_workspace_def create_thread_def transaction_do_def Let_def
        insert_workspace_def insert_thread_def insert_event_def empty_db_def tbl_get_def
        with_workspace_def new_envelope_def with_causation_def event_row_of_def db_of_def)
  then obtain s where s: "create_thread_api demo_host None ?s = (Inr (0, ''default''), s)" by blast
  have "store_inv (db_of ?s)" by (simp add: db_of_def new_server_def demo_agent_def demo_sys_def store_inv_empty)
  moreover have "channel_sent 0 ?s = []" by (simp add: channel_sent_def new_server_def demo_agent_def)
  ultimately show ?thesis using created_thread_is_readable [OF _ s, of "''zero''"] unfolding s by auto
qed

end
