(* ===== verification/Net.thy ===== *)
theory Net
  imports Http
begin

text \<open>
  The textual forms of IP and socket addresses, as the standard library of the program reads them. The
  configuration (\<open>src/config.rs\<close>) and the server start (\<open>src/ops.rs\<close>) decide with them which addresses
  may be bound. A parser takes a text and gives a value with the rest of the text; an alternative that
  fails consumes nothing.
\<close>

section \<open>Parsers\<close>

type_synonym 'a parser = "string \<Rightarrow> ('a \<times> string) option"

definition pret :: "'a \<Rightarrow> 'a parser" where "pret x s = Some (x, s)"
definition pfail :: "'a parser" where "pfail s = None"

definition pbind :: "'a parser \<Rightarrow> ('a \<Rightarrow> 'b parser) \<Rightarrow> 'b parser" where
  "pbind p f s = (case p s of None \<Rightarrow> None | Some (x, r) \<Rightarrow> f x r)"

definition por :: "'a parser \<Rightarrow> 'a parser \<Rightarrow> 'a parser" where
  "por p q s = (case p s of None \<Rightarrow> q s | Some y \<Rightarrow> Some y)"

definition pchar :: "char \<Rightarrow> unit parser" where
  "pchar c s = (case s of [] \<Rightarrow> None | x # r \<Rightarrow> if x = c then Some ((), r) else None)"

definition ptry :: "'a parser \<Rightarrow> 'a option parser" where
  "ptry p s = (case p s of None \<Rightarrow> Some (None, s) | Some (x, r) \<Rightarrow> Some (Some x, r))"

definition digit_value :: "char \<Rightarrow> nat option" where
  "digit_value c =
     (let n = of_char c :: nat
      in if 48 \<le> n \<and> n \<le> 57 then Some (n - 48) else if 97 \<le> n \<and> n \<le> 102 then Some (n - 87)
         else if 65 \<le> n \<and> n \<le> 70 then Some (n - 55) else None)"

definition is_digit_of :: "nat \<Rightarrow> char \<Rightarrow> bool" where
  "is_digit_of radix c = (case digit_value c of None \<Rightarrow> False | Some d \<Rightarrow> d < radix)"

definition number_of :: "nat \<Rightarrow> string \<Rightarrow> nat" where
  "number_of radix s = foldl (\<lambda>n c. n * radix + the (digit_value c)) 0 s"

text \<open>\<open>read_number\<close>: all digits there are, at most so many, without a leading zero, up to a greatest value.\<close>

definition read_number :: "nat \<Rightarrow> nat option \<Rightarrow> bool \<Rightarrow> nat \<Rightarrow> nat parser" where
  "read_number radix max_digits zero_prefix most s =
     (let ds = takeWhile (is_digit_of radix) s
      in if ds = [] \<or> (case max_digits of None \<Rightarrow> False | Some m \<Rightarrow> m < length ds) \<or>
            (\<not> zero_prefix \<and> hd ds = CHR ''0'' \<and> 1 < length ds) \<or> most < number_of radix ds
         then None else Some (number_of radix ds, drop (length ds) s))"

text \<open>\<open>read_separator\<close>: every part but the first comes after the separator.\<close>

definition separated :: "char \<Rightarrow> nat \<Rightarrow> 'a parser \<Rightarrow> 'a parser" where
  "separated c i p = (if 0 < i then pbind (pchar c) (\<lambda>_. p) else p)"

section \<open>Addresses\<close>

datatype IpAddr = V4 nat nat nat nat | V6 "nat list"

definition read_octet :: "nat parser" where "read_octet = read_number 10 (Some 3) False 255"

definition read_ipv4 :: "(nat \<times> nat \<times> nat \<times> nat) parser" where
  "read_ipv4 =
     pbind (separated CHR ''.'' 0 read_octet) (\<lambda>a. pbind (separated CHR ''.'' 1 read_octet) (\<lambda>b.
     pbind (separated CHR ''.'' 2 read_octet) (\<lambda>c. pbind (separated CHR ''.'' 3 read_octet) (\<lambda>d.
       pret (a, b, c, d)))))"

text \<open>
  The groups before or behind the double colon, at most \<open>limit\<close>, from the \<open>i\<close>th on: a group may be a
  whole IPv4 address when there is room for two, which ends them. The flag says that it did.
\<close>

function read_groups :: "nat \<Rightarrow> nat \<Rightarrow> nat list \<Rightarrow> (nat list \<times> bool) parser" where
  "read_groups limit i groups =
     (if limit \<le> i then pret (groups, False)
      else pbind (if i < limit - 1 then ptry (separated CHR '':'' i read_ipv4) else pret None) (\<lambda>v4.
        case v4 of
          Some (a, b, c, d) \<Rightarrow> pret (groups @ [a * 256 + b, c * 256 + d], True)
        | None \<Rightarrow>
            pbind (ptry (separated CHR '':'' i (read_number 16 (Some 4) True 65535))) (\<lambda>group.
              case group of
                Some g \<Rightarrow> read_groups limit (i + 1) (groups @ [g])
              | None \<Rightarrow> pret (groups, False))))"
  by pat_completeness auto
termination by (relation "measure (\<lambda>(limit, i, _). limit - i)") auto

declare read_groups.simps [simp del]

definition read_ipv6 :: "nat list parser" where
  "read_ipv6 =
     pbind (read_groups 8 0 []) (\<lambda>(head, head_ipv4).
       if length head = 8 then pret head
       else if head_ipv4 then pfail
       else
         pbind (pchar CHR '':'') (\<lambda>_. pbind (pchar CHR '':'') (\<lambda>_.
         pbind (read_groups (8 - (length head + 1)) 0 []) (\<lambda>(tail, _).
           pret (head @ replicate (8 - length head - length tail) 0 @ tail)))))"

definition read_ip :: "IpAddr parser" where
  "read_ip = por (pbind read_ipv4 (\<lambda>(a, b, c, d). pret (V4 a b c d))) (pbind read_ipv6 (\<lambda>g. pret (V6 g)))"

text \<open>A text is an address when nothing is left.\<close>

definition parse_all :: "'a parser \<Rightarrow> string \<Rightarrow> 'a option" where
  "parse_all p s = (case p s of Some (x, []) \<Rightarrow> Some x | _ \<Rightarrow> None)"

definition parse_ip :: "string \<Rightarrow> IpAddr option" where "parse_ip = parse_all read_ip"

fun is_loopback :: "IpAddr \<Rightarrow> bool" where
  "is_loopback (V4 a b c d) = (a = 127)"
| "is_loopback (V6 groups) = (groups = [0, 0, 0, 0, 0, 0, 0, 1])"

definition read_port :: "nat parser" where
  "read_port = pbind (pchar CHR '':'') (\<lambda>_. read_number 10 None True 65535)"

definition read_scope :: "nat parser" where
  "read_scope = pbind (pchar CHR ''%'') (\<lambda>_. read_number 10 None True (2 ^ 32 - 1))"

definition read_socket :: "(IpAddr \<times> nat) parser" where
  "read_socket =
     por (pbind read_ipv4 (\<lambda>(a, b, c, d). pbind read_port (\<lambda>port. pret (V4 a b c d, port))))
         (pbind (pchar CHR ''['') (\<lambda>_. pbind read_ipv6 (\<lambda>g. pbind (ptry read_scope) (\<lambda>_.
          pbind (pchar CHR '']'') (\<lambda>_. pbind read_port (\<lambda>port. pret (V6 g, port)))))))"

definition parse_socket :: "string \<Rightarrow> (IpAddr \<times> nat) option" where "parse_socket = parse_all read_socket"

section \<open>Text behind a text\<close>

text \<open>
  A parser that never looks past a character reads the same when anything follows that character.
\<close>

definition stops_at :: "char \<Rightarrow> 'a parser \<Rightarrow> bool" where
  "stops_at c p \<longleftrightarrow> (\<forall>s t. p (s @ c # t) = map_option (\<lambda>(x, r). (x, r @ c # t)) (p s))"

named_theorems stops

lemma stops_atI: "(\<And>s t. p (s @ c # t) = map_option (\<lambda>(x, r). (x, r @ c # t)) (p s)) \<Longrightarrow> stops_at c p"
  by (simp add: stops_at_def)

lemma stops_pret [stops]: "stops_at c (pret x)" and stops_pfail [stops]: "stops_at c pfail"
  by (simp_all add: stops_at_def pret_def pfail_def)

lemma stops_pbind [stops]: "stops_at c p \<Longrightarrow> (\<And>x. stops_at c (f x)) \<Longrightarrow> stops_at c (pbind p f)"
  by (auto simp: stops_at_def pbind_def split: option.split)

lemma stops_por [stops]: "stops_at c p \<Longrightarrow> stops_at c q \<Longrightarrow> stops_at c (por p q)"
  by (auto simp: stops_at_def por_def split: option.split)

lemma stops_pchar [stops]: "d \<noteq> c \<Longrightarrow> stops_at c (pchar d)"
  by (auto simp: stops_at_def pchar_def split: list.split)

lemma stops_ptry [stops]: "stops_at c p \<Longrightarrow> stops_at c (ptry p)"
  by (auto simp: stops_at_def ptry_def split: option.split)

lemma stops_separated [stops]: "d \<noteq> c \<Longrightarrow> stops_at c p \<Longrightarrow> stops_at c (separated d i p)"
  by (simp add: separated_def stops)

lemma stops_number: "\<not> is_digit_of radix c \<Longrightarrow> stops_at c (read_number radix m z most)"
proof (rule stops_atI)
  fix s t assume c: "\<not> is_digit_of radix c"
  have "takeWhile (is_digit_of radix) (s @ c # t) = takeWhile (is_digit_of radix) s"
    using c by (induction s) auto
  moreover have "length (takeWhile (is_digit_of radix) s) \<le> length s" by (rule length_takeWhile_le)
  ultimately show "read_number radix m z most (s @ c # t) =
      map_option (\<lambda>(x, r). (x, r @ c # t)) (read_number radix m z most s)"
    by (simp add: read_number_def Let_def)
qed

lemma stops_ipv4 [stops]: "c \<noteq> CHR ''.'' \<Longrightarrow> \<not> is_digit_of 10 c \<Longrightarrow> stops_at c read_ipv4"
  by (simp add: read_ipv4_def read_octet_def stops stops_number)

lemma stops_groups [stops]:
  assumes "c \<noteq> CHR ''.''" and "c \<noteq> CHR '':''" and "\<not> is_digit_of 10 c" and "\<not> is_digit_of 16 c"
  shows "stops_at c (read_groups limit i groups)"
proof (induction limit i groups rule: read_groups.induct)
  case (1 limit i groups)
  show ?case
    unfolding read_groups.simps [of limit i groups]
    using assms 1 by (auto intro!: stops stops_number split: option.split)
qed

lemma stops_ipv6 [stops]:
  "c \<noteq> CHR ''.'' \<Longrightarrow> c \<noteq> CHR '':'' \<Longrightarrow> \<not> is_digit_of 10 c \<Longrightarrow> \<not> is_digit_of 16 c \<Longrightarrow> stops_at c read_ipv6"
  by (auto simp: read_ipv6_def intro!: stops)

lemma stops_at_run: "stops_at c p \<Longrightarrow> p s = Some (x, []) \<Longrightarrow> p (s @ c # t) = Some (x, c # t)"
  and stops_at_none: "stops_at c p \<Longrightarrow> p s = None \<Longrightarrow> p (s @ c # t) = None"
  by (simp_all add: stops_at_def)

end
