(* ===== verification/Config.thy ===== *)
theory Config
  imports Agent Net
begin

text \<open>
  The configuration (\<open>src/config.rs\<close>): its records and defaults, its validation, what the other parts are
  built from it, and the checks of \<open>src/ops.rs\<close> on it, with the address the server listens on. Reading the
  TOML text, the URL parser, the environment and the file system are parameters.
\<close>

section \<open>Data\<close>

record ModelConfig =
  mc_provider :: string
  mc_model :: string
  mc_api_key_env :: string
  mc_endpoint :: string
  mc_reasoning_effort :: "string option"

definition default_model_config :: ModelConfig where
  "default_model_config = \<lparr>mc_provider = ''openai'', mc_model = ''gpt-5.2'', mc_api_key_env = ''OPENAI_API_KEY'',
     mc_endpoint = ''https://api.openai.com/v1/responses'', mc_reasoning_effort = None\<rparr>"

record RuntimeSettings =
  rs_max_steps :: nat
  rs_max_concurrent_turns :: nat
  rs_tool_timeout_seconds :: nat
  rs_model_timeout_seconds :: nat
  rs_max_output_bytes :: nat
  rs_context_items :: nat
  rs_context_max_tokens :: nat
  rs_context_max_bytes :: nat
  rs_context_max_evidence :: nat
  rs_context_max_tool_calls :: nat
  rs_context_max_cost_micros :: nat
  rs_inline_artifact_bytes :: nat

definition default_runtime_settings :: RuntimeSettings where
  "default_runtime_settings = \<lparr>rs_max_steps = 12, rs_max_concurrent_turns = 4, rs_tool_timeout_seconds = 30,
     rs_model_timeout_seconds = 120, rs_max_output_bytes = 64 * 1024, rs_context_items = 100,
     rs_context_max_tokens = 24000, rs_context_max_bytes = 96000, rs_context_max_evidence = 32,
     rs_context_max_tool_calls = 24, rs_context_max_cost_micros = 0, rs_inline_artifact_bytes = 8 * 1024\<rparr>"

record LokiConfig =
  lc_url :: string
  lc_tenant_header :: string
  lc_tenant_env :: string
  lc_max_range_seconds :: nat
  lc_max_lines :: nat

definition default_loki_config :: LokiConfig where
  "default_loki_config = \<lparr>lc_url = ''http://localhost:3100'', lc_tenant_header = ''X-Scope-OrgID'',
     lc_tenant_env = ''LOKI_TENANT'', lc_max_range_seconds = 3600, lc_max_lines = 200\<rparr>"

record TempoConfig =
  tc_url :: string
  tc_max_range_seconds :: nat

definition default_tempo_config :: TempoConfig where
  "default_tempo_config = \<lparr>tc_url = ''http://localhost:3200'', tc_max_range_seconds = 3600\<rparr>"

record TargetConfig =
  tg_allowed_containers :: "string list"
  tg_allowed_hosts :: "string list"

definition default_target_config :: TargetConfig where
  "default_target_config = \<lparr>tg_allowed_containers = [''order-service''],
     tg_allowed_hosts = [''localhost'', ''127.0.0.1'', ''order-service'']\<rparr>"

record ExtensionsConfig =
  xc_production_safe :: bool
  xc_allow_custom_tools :: bool
  xc_max_skill_context_bytes :: nat

definition default_extensions_config :: ExtensionsConfig where
  "default_extensions_config = \<lparr>xc_production_safe = False, xc_allow_custom_tools = False,
     xc_max_skill_context_bytes = 4 * 1024\<rparr>"

record ExtensionConfigEntry =
  ee_id :: string
  ee_kind :: string
  ee_enabled :: bool
  ee_trusted_local :: bool
  ee_path :: "string option"
  ee_command :: "string option"
  ee_args :: "string list"
  ee_cwd :: "string option"
  ee_url :: "string option"
  ee_allowlist_hosts :: "string list"
  ee_workspaces :: "string list"
  ee_effect :: "string option"
  ee_recovery :: "string option"
  ee_version :: "string option"
  ee_max_restarts :: "nat option"
  ee_env :: "string list"

definition default_extension_entry :: ExtensionConfigEntry where
  "default_extension_entry = \<lparr>ee_id = [], ee_kind = [], ee_enabled = True, ee_trusted_local = False, ee_path = None,
     ee_command = None, ee_args = [], ee_cwd = None, ee_url = None, ee_allowlist_hosts = [], ee_workspaces = [],
     ee_effect = None, ee_recovery = None, ee_version = None, ee_max_restarts = None, ee_env = []\<rparr>"

definition default_skill_entry :: SkillConfigEntry where
  "default_skill_entry = \<lparr>sce_path = [], sce_enabled = True, sce_workspaces = []\<rparr>"

record StoreConfig =
  st_backend :: string
  st_sqlite_path :: "string option"
  st_jsonl_dir :: "string option"
  st_approval_ttl_seconds :: nat
  st_lease_ttl_seconds :: nat

definition default_store_config :: StoreConfig where
  "default_store_config = \<lparr>st_backend = ''sqlite'', st_sqlite_path = None, st_jsonl_dir = None,
     st_approval_ttl_seconds = 3600, st_lease_ttl_seconds = 30\<rparr>"

record RemediationConfig =
  rmc_enabled :: bool
  rmc_kill_switch :: bool
  rmc_demo_fault_url :: string
  rmc_approval_ttl_seconds :: nat

definition default_remediation_config :: RemediationConfig where
  "default_remediation_config = \<lparr>rmc_enabled = False, rmc_kill_switch = False,
     rmc_demo_fault_url = ''http://127.0.0.1:8080'', rmc_approval_ttl_seconds = 1800\<rparr>"

record Config =
  cf_model :: ModelConfig
  cf_runtime :: RuntimeSettings
  cf_prometheus_url :: string
  cf_loki :: LokiConfig
  cf_tempo :: TempoConfig
  cf_targets :: TargetConfig
  cf_tools_exec :: bool
  cf_server_host :: string
  cf_server_port :: nat
  cf_workspaces :: "WorkspaceConfigEntry list"
  cf_extensions :: ExtensionsConfig
  cf_extension :: "ExtensionConfigEntry list"
  cf_skills :: "SkillConfigEntry list"
  cf_store :: StoreConfig
  cf_remediation :: RemediationConfig

definition default_config :: Config where
  "default_config = \<lparr>cf_model = default_model_config, cf_runtime = default_runtime_settings,
     cf_prometheus_url = ''http://localhost:9090'', cf_loki = default_loki_config, cf_tempo = default_tempo_config,
     cf_targets = default_target_config, cf_tools_exec = False, cf_server_host = ''127.0.0.1'', cf_server_port = 3000,
     cf_workspaces = [], cf_extensions = default_extensions_config, cf_extension = [], cf_skills = [],
     cf_store = default_store_config, cf_remediation = default_remediation_config\<rparr>"

section \<open>Validation\<close>

definition trim_matches :: "(char \<Rightarrow> bool) \<Rightarrow> string \<Rightarrow> string" where
  "trim_matches P s = rev (dropWhile P (rev (dropWhile P s)))"

definition bare_host :: "string \<Rightarrow> string" where
  "bare_host host = trim_matches (\<lambda>c. c = CHR ''['' \<or> c = CHR '']'') (trim host)"

definition is_loopback_bind_host :: "string \<Rightarrow> bool" where
  "is_loopback_bind_host host =
     (let h = bare_host host
      in eq_ignore_ascii_case h ''localhost'' \<or>
         (case parse_ip h of None \<Rightarrow> False | Some ip \<Rightarrow> is_loopback ip))"

definition ensure :: "bool \<Rightarrow> string \<Rightarrow> unit result" where
  "ensure ok message = (if ok then Inr () else Inl (OpsCodexError.Protocol message))"

definition runtime_values :: "RuntimeSettings \<Rightarrow> (string \<times> nat) list" where
  "runtime_values r =
     [(''max_steps'', rs_max_steps r), (''max_concurrent_turns'', rs_max_concurrent_turns r),
      (''tool_timeout_seconds'', rs_tool_timeout_seconds r), (''model_timeout_seconds'', rs_model_timeout_seconds r),
      (''max_output_bytes'', rs_max_output_bytes r), (''context_items'', rs_context_items r),
      (''context_max_tokens'', rs_context_max_tokens r), (''context_max_bytes'', rs_context_max_bytes r),
      (''context_max_evidence'', rs_context_max_evidence r), (''context_max_tool_calls'', rs_context_max_tool_calls r),
      (''inline_artifact_bytes'', rs_inline_artifact_bytes r)]"

fun all_positive :: "(string \<times> nat) list \<Rightarrow> unit result" where
  "all_positive [] = Inr ()"
| "all_positive ((name, v) # vs) =
     and_then (ensure (v \<noteq> 0) (''runtime.'' @ name @ '' must be greater than zero'')) (\<lambda>_. all_positive vs)"

definition EFFORTS :: "string list" where
  "EFFORTS = [''none'', ''minimal'', ''low'', ''medium'', ''high'', ''xhigh'']"

definition LOOPBACK_NAMES :: "string list" where
  "LOOPBACK_NAMES = [''127.0.0.1'', ''localhost'', ''::1'']"

fun check_workspaces :: "WorkspaceConfigEntry list \<Rightarrow> string set \<Rightarrow> unit result" where
  "check_workspaces [] seen = Inr ()"
| "check_workspaces (w # ws) seen =
     and_then (validate_workspace_id (trim (we_id w))) (\<lambda>_.
     and_then (ensure (trim (we_id w) \<notin> seen) (''duplicate workspace id `'' @ we_id w @ ''`'')) (\<lambda>_.
     and_then (ensure (we_max_concurrent_turns w \<noteq> Some 0)
        ''workspace.max_concurrent_turns must be greater than zero'') (\<lambda>_.
     and_then (case we_max_effect w of None \<Rightarrow> Inr () | Some v \<Rightarrow> and_then (effect_parse v) (\<lambda>_. Inr ())) (\<lambda>_.
       check_workspaces ws (insert (trim (we_id w)) seen)))))"

fun check_extensions :: "ExtensionConfigEntry list \<Rightarrow> string set \<Rightarrow> unit result" where
  "check_extensions [] seen = Inr ()"
| "check_extensions (x # xs) seen =
     and_then (ensure (trim (ee_id x) \<noteq> []) ''extension.id must not be empty'') (\<lambda>_.
     and_then (ensure (trim (ee_id x) \<notin> seen) (''duplicate extension id `'' @ ee_id x @ ''`'')) (\<lambda>_.
     and_then (ensure (ee_kind x \<in> set [''custom'', ''mcp'', ''mcp_http''])
        (''unsupported extension kind `'' @ ee_kind x @ ''`'')) (\<lambda>_.
       check_extensions xs (insert (trim (ee_id x)) seen))))"

definition check_model :: "ModelConfig \<Rightarrow> unit result" where
  "check_model m =
     and_then (ensure (trim (mc_model m) \<noteq> []) ''model.model must not be empty'') (\<lambda>_.
       ensure (case mc_reasoning_effort m of None \<Rightarrow> True | Some e \<Rightarrow> e \<in> set EFFORTS)
         ''model.reasoning_effort must be one of none, minimal, low, medium, high, or xhigh'')"

definition check_limits :: "Config \<Rightarrow> unit result" where
  "check_limits c =
     and_then (ensure (lc_max_range_seconds (cf_loki c) \<noteq> 0 \<and> tc_max_range_seconds (cf_tempo c) \<noteq> 0)
        ''loki.max_range_seconds and tempo.max_range_seconds must be greater than zero'') (\<lambda>_.
     and_then (ensure (lc_max_lines (cf_loki c) \<noteq> 0) ''loki.max_lines must be greater than zero'') (\<lambda>_.
     and_then (ensure (xc_max_skill_context_bytes (cf_extensions c) \<noteq> 0)
        ''extensions.max_skill_context_bytes must be greater than zero'') (\<lambda>_.
     and_then (ensure (st_approval_ttl_seconds (cf_store c) \<noteq> 0 \<and> st_lease_ttl_seconds (cf_store c) \<noteq> 0)
        ''store.approval_ttl_seconds and store.lease_ttl_seconds must be greater than zero'') (\<lambda>_.
       ensure (rmc_approval_ttl_seconds (cf_remediation c) \<noteq> 0)
         ''remediation.approval_ttl_seconds must be greater than zero''))))"

definition check_hosts :: "(string \<Rightarrow> string + Url) \<Rightarrow> Config \<Rightarrow> unit result" where
  "check_hosts parse_url c =
     and_then (case parse_url (rmc_demo_fault_url (cf_remediation c)) of
         Inl err \<Rightarrow> Inl (OpsCodexError.Protocol (''invalid remediation.demo_fault_url: '' @ err)) | Inr u \<Rightarrow> Inr u) (\<lambda>demo_url.
     and_then (ensure (case url_host demo_url of None \<Rightarrow> False | Some h \<Rightarrow> h \<in> set LOOPBACK_NAMES)
        ''remediation.demo_fault_url must be a loopback host'') (\<lambda>_.
       ensure (is_loopback_bind_host (cf_server_host c))
         ''without TLS, server.host must be a loopback address (127.0.0.1, localhost, or ::1)''))"

definition validate :: "(string \<Rightarrow> string + Url) \<Rightarrow> Config \<Rightarrow> unit result" where
  "validate parse_url c =
     and_then (all_positive (runtime_values (cf_runtime c))) (\<lambda>_.
     and_then (check_model (cf_model c)) (\<lambda>_.
     and_then (check_limits c) (\<lambda>_.
     and_then (check_hosts parse_url c) (\<lambda>_.
     and_then (ensure (st_backend (cf_store c) \<in> set [''sqlite'', ''jsonl''])
        (''store.backend must be sqlite or jsonl, not `'' @ st_backend (cf_store c) @ ''`'')) (\<lambda>_.
     and_then (check_workspaces (cf_workspaces c) {}) (\<lambda>_.
     and_then (check_extensions (cf_extension c) {}) (\<lambda>_.
       ensure (\<not> (xc_production_safe (cf_extensions c) \<and> cf_tools_exec c))
         ''extensions.production_safe cannot be combined with tools.exec'')))))))"

section \<open>Loading\<close>

definition from_toml :: "(string \<Rightarrow> string + Url) \<Rightarrow> (string \<Rightarrow> string + Config) \<Rightarrow> string \<Rightarrow> Config result" where
  "from_toml parse_url toml source =
     and_then (case toml source of Inl err \<Rightarrow> Inl (OpsCodexError.Protocol (''invalid config: '' @ err)) | Inr c \<Rightarrow> Inr c) (\<lambda>c.
     and_then (validate parse_url c) (\<lambda>_. Inr c))"

definition home_dir :: "(string \<Rightarrow> string option) \<Rightarrow> string" where
  "home_dir env = (case env ''OPSCODEX_HOME'' of Some path \<Rightarrow> path
     | None \<Rightarrow> path_join (or_default ''.'' (env ''HOME'')) ''.opscodex'')"

definition default_path :: "(string \<Rightarrow> string option) \<Rightarrow> string" where
  "default_path env = path_join (home_dir env) ''config.toml''"

text \<open>\<open>read\<close> gives nothing for a path that does not exist.\<close>

definition load :: "(string \<Rightarrow> string + Url) \<Rightarrow> (string \<Rightarrow> string + Config) \<Rightarrow> (string \<Rightarrow> string option) \<Rightarrow>
    (string \<Rightarrow> (string + string) option) \<Rightarrow> string option \<Rightarrow> Config result" where
  "load parse_url toml env read given =
     (let path = or_default (default_path env) given
      in case read path of
           None \<Rightarrow> Inr default_config
         | Some (Inl err) \<Rightarrow> Inl (OpsCodexError.Storage (''could not read '' @ path @ '': '' @ err))
         | Some (Inr source) \<Rightarrow> from_toml parse_url toml source)"

definition api_key :: "(string \<Rightarrow> string option) \<Rightarrow> Config \<Rightarrow> string result" where
  "api_key env c = ok_or (OpsCodexError.Model (''environment variable '' @ mc_api_key_env (cf_model c) @ '' is not set''))
     (env (mc_api_key_env (cf_model c)))"

definition sqlite_path :: "(string \<Rightarrow> string option) \<Rightarrow> Config \<Rightarrow> string" where
  "sqlite_path env c = or_default (path_join (home_dir env) ''state.sqlite3'') (st_sqlite_path (cf_store c))"

section \<open>What is built from it\<close>

definition workspace_defaults :: "Config \<Rightarrow> WorkspaceDefaults" where
  "workspace_defaults c = \<lparr>wd_prometheus_url = cf_prometheus_url c, wd_loki_url = lc_url (cf_loki c),
     wd_loki_tenant_header = lc_tenant_header (cf_loki c), wd_loki_tenant_env = lc_tenant_env (cf_loki c),
     wd_tempo_url = tc_url (cf_tempo c), wd_allowed_hosts = tg_allowed_hosts (cf_targets c),
     wd_allowed_containers = tg_allowed_containers (cf_targets c),
     wd_max_concurrent_turns = rs_max_concurrent_turns (cf_runtime c), wd_workspaces = cf_workspaces c\<rparr>"

definition runtime_config :: "time \<Rightarrow> RuntimeSettings \<Rightarrow> RuntimeConfig" where
  "runtime_config second s = \<lparr>rc_max_steps = rs_max_steps s, rc_max_concurrent_turns = rs_max_concurrent_turns s,
     rc_model_timeout = int (rs_model_timeout_seconds s) * second, rc_tool_timeout = int (rs_tool_timeout_seconds s) * second,
     rc_context_items = rs_context_items s,
     rc_context = \<lparr>cb_max_items = rs_context_items s, cb_max_tokens = rs_context_max_tokens s,
       cb_max_bytes = rs_context_max_bytes s, cb_max_evidence = rs_context_max_evidence s,
       cb_max_tool_calls = rs_context_max_tool_calls s, cb_max_cost_micros = rs_context_max_cost_micros s\<rparr>,
     rc_inline_artifact_bytes = rs_inline_artifact_bytes s, rc_approval_ttl = 3600 * second, rc_lease_ttl = 30 * second\<rparr>"

section \<open>The address to listen on\<close>

definition deny_non_loopback_bind :: "string \<Rightarrow> unit result" where
  "deny_non_loopback_bind host = ensure (is_loopback_bind_host host)
     ''without TLS, OpsCodex can only bind loopback (127.0.0.1, localhost, or ::1)''"

definition validate_config :: "(string \<Rightarrow> string + Url) \<Rightarrow> Config \<Rightarrow> unit result" where
  "validate_config parse_url c = and_then (validate parse_url c) (\<lambda>_. deny_non_loopback_bind (cf_server_host c))"

definition parse_listen_addr :: "string \<Rightarrow> nat \<Rightarrow> (IpAddr \<times> nat) result" where
  "parse_listen_addr host port =
     and_then (deny_non_loopback_bind host) (\<lambda>_.
       let h = bare_host host; dotted = h @ '':'' @ show_nat port
       in case parse_socket dotted of
            Some address \<Rightarrow> Inr address
          | None \<Rightarrow> ok_or (OpsCodexError.Protocol (''invalid listen address '' @ dotted @ '': invalid socket address syntax''))
              (parse_socket (''['' @ h @ '']:'' @ show_nat port)))"

section \<open>Checks\<close>

datatype CheckStatus = Ok | Degraded | Failing

record Check =
  ck_name :: string
  ck_status :: CheckStatus
  ck_detail :: string

definition check_of :: "string \<Rightarrow> string result \<Rightarrow> Check" where
  "check_of name r = (case r of Inr detail \<Rightarrow> \<lparr>ck_name = name, ck_status = Ok, ck_detail = detail\<rparr>
     | Inl err \<Rightarrow> \<lparr>ck_name = name, ck_status = Failing, ck_detail = error_to_string err\<rparr>)"

text \<open>The checks of the store and of the audit log are made when the database file exists.\<close>

definition doctor :: "(string \<Rightarrow> string + Url) \<Rightarrow> string \<Rightarrow> (string result \<times> string result) option \<Rightarrow> Config \<Rightarrow> CheckStatus \<times> Check list" where
  "doctor parse_url path store c =
     (let checks =
        [check_of ''config'' (and_then (validate_config parse_url c) (\<lambda>_. Inr ''configuration is valid'')),
         (if is_loopback_bind_host (cf_server_host c)
          then \<lparr>ck_name = ''bind'', ck_status = Ok, ck_detail = ''server binds loopback '' @ cf_server_host c\<rparr>
          else \<lparr>ck_name = ''bind'', ck_status = Failing, ck_detail =
            ''server.host `'' @ cf_server_host c @ ''` is not loopback; TLS is required for non-loopback binds''\<rparr>),
         check_of ''workspaces'' (and_then (catalog_from_config (workspace_defaults c)) (\<lambda>cat.
            Inr (show_nat (length cat) @ '' workspace(s) configured''))),
         (if xc_production_safe (cf_extensions c) \<and> cf_tools_exec c
          then \<lparr>ck_name = ''exec'', ck_status = Failing, ck_detail = ''production_safe profile cannot enable exec''\<rparr>
          else if cf_tools_exec c
          then \<lparr>ck_name = ''exec'', ck_status = Degraded,
                ck_detail = ''exec is enabled; it remains approval-gated and is not remediation''\<rparr>
          else \<lparr>ck_name = ''exec'', ck_status = Ok, ck_detail = ''exec is disabled''\<rparr>),
         (if rmc_enabled (cf_remediation c)
          then \<lparr>ck_name = ''remediation'', ck_status = Degraded, ck_detail =
            ''remediation is enabled; change operations still require exact request-hash approval''\<rparr>
          else \<lparr>ck_name = ''remediation'', ck_status = Ok, ck_detail = ''remediation is disabled''\<rparr>)]
        @ (case store of
             Some (verified, audited) \<Rightarrow> [check_of ''store'' verified, check_of ''audit'' audited]
           | None \<Rightarrow> [\<lparr>ck_name = ''store'', ck_status = Degraded, ck_detail =
               ''sqlite file '' @ path @ '' is not present yet; it will be created on first run''\<rparr>]);
        status = (if list_ex (\<lambda>k. ck_status k = Failing) checks then Failing
                  else if list_ex (\<lambda>k. ck_status k = Degraded) checks then Degraded else Ok)
      in (status, checks))"

section \<open>Lemmas\<close>

lemma ensure_ok [simp]: "ensure b m = Inr u \<longleftrightarrow> b"
  by (simp add: ensure_def)

lemma workspace_entry_ok:
  assumes "validate_workspace_id (trim (we_id w)) = Inr ()"
    and "(case we_max_effect w of None \<Rightarrow> Inr () | Some v \<Rightarrow> and_then (effect_parse v) (\<lambda>_. Inr ())) = Inr ()"
  obtains ws where "workspace_from_entry d w = Inr ws" and "ws_id ws = trim (we_id w)"
  using assms by (auto simp: workspace_from_entry_def Let_def and_then_def split: option.splits sum.splits)

lemma insert_entries_ok:
  "check_workspaces ws seen = Inr () \<Longrightarrow> ws_id ` set cat = seen \<Longrightarrow>
     \<exists>cat'. catalog_insert_entries d ws cat = Inr cat' \<and>
       ws_id ` set cat' = seen \<union> (\<lambda>w. trim (we_id w)) ` set ws"
proof (induction ws arbitrary: seen cat)
  case (Cons w ws)
  from Cons.prems(1) have ok: "validate_workspace_id (trim (we_id w)) = Inr ()" "trim (we_id w) \<notin> seen"
      "(case we_max_effect w of None \<Rightarrow> Inr () | Some v \<Rightarrow> and_then (effect_parse v) (\<lambda>_. Inr ())) = Inr ()"
      "check_workspaces ws (insert (trim (we_id w)) seen) = Inr ()"
    by (auto simp: and_then_Inr_iff)
  obtain n where n: "workspace_from_entry d w = Inr n" "ws_id n = trim (we_id w)"
    using workspace_entry_ok [OF ok(1,3)] .
  have "tbl_get ws_id (trim (we_id w)) cat = None" using ok(2) Cons.prems(2) by (auto simp: tbl_get_None_iff)
  then have "catalog_insert n cat = Inr (insort_key ws_id n cat)"
    using ok(1) n(2) by (simp add: catalog_insert_def and_then_def)
  with Cons.IH [OF ok(4), of "insort_key ws_id n cat"] n Cons.prems(2) show ?case
    by (simp add: and_then_def set_insort_key)
qed simp

lemma default_workspace_ok:
  assumes "''default'' \<notin> ws_id ` set cat"
  shows "is_ok (and_then (legacy_default d) (\<lambda>ws. catalog_insert ws cat))"
proof -
  have ok: "validate_workspace_id ''default'' = Inr ()" by code_simp
  obtain n where n: "legacy_default d = Inr n" "ws_id n = ''default''"
    using workspace_entry_ok [of "default_entry\<lparr>we_id := ''default'', we_display_name := Some ''Local demo'',
      we_environment := Some ''local''\<rparr>" d] by (auto simp: legacy_default_def ok default_entry_def)
  have "tbl_get ws_id ''default'' cat = None" using assms by (auto simp: tbl_get_None_iff)
  with n ok show ?thesis by (simp add: catalog_insert_def and_then_def is_ok_def)
qed

lemma validate_checks:
  "validate p c = Inr () \<longleftrightarrow> all_positive (runtime_values (cf_runtime c)) = Inr () \<and> check_model (cf_model c) = Inr () \<and>
     check_limits c = Inr () \<and> check_hosts p c = Inr () \<and> st_backend (cf_store c) \<in> set [''sqlite'', ''jsonl''] \<and>
     check_workspaces (cf_workspaces c) {} = Inr () \<and> check_extensions (cf_extension c) {} = Inr () \<and>
     \<not> (xc_production_safe (cf_extensions c) \<and> cf_tools_exec c)"
  by (auto simp: validate_def and_then_Inr_iff)

text \<open>
  A validated configuration can be run. Its workspaces always form a catalogue, no limit of the
  runtime is zero, and the server host names a loopback address.
\<close>

theorem validated_config_can_run:
  assumes "validate p c = Inr ()"
  shows "is_ok (catalog_from_config (workspace_defaults c)) \<and> is_loopback_bind_host (cf_server_host c) \<and>
    (let r = runtime_config 1000 (cf_runtime c) in 0 < rc_max_steps r \<and> 0 < rc_max_concurrent_turns r \<and>
       0 < rc_model_timeout r \<and> 0 < rc_tool_timeout r \<and> 0 < cb_max_bytes (rc_context r) \<and>
       0 < cb_max_items (rc_context r) \<and> 0 < cb_max_tokens (rc_context r))"
proof -
  note ok = assms [unfolded validate_checks]
  have "is_ok (catalog_from_config (workspace_defaults c))"
  proof (cases "cf_workspaces c = []")
    case True
    then show ?thesis using default_workspace_ok [of "[]"] by (simp add: catalog_from_config_def workspace_defaults_def)
  next
    case False
    obtain cat where cat: "catalog_insert_entries (workspace_defaults c) (cf_workspaces c) [] = Inr cat"
      using insert_entries_ok [of "cf_workspaces c" "{}" "[]" "workspace_defaults c"] ok by auto
    then show ?thesis
      using False default_workspace_ok [of cat "workspace_defaults c"]
      by (auto simp: catalog_from_config_def workspace_defaults_def and_then_def is_ok_def tbl_get_None_iff)
  qed
  moreover have "is_loopback_bind_host (cf_server_host c)"
    using ok by (auto simp: check_hosts_def and_then_Inr_iff)
  ultimately show ?thesis
    using ok by (simp add: runtime_config_def runtime_values_def and_then_Inr_iff)
qed

subsection \<open>Listening\<close>

lemma digit_show [simp]: "n < 10 \<Longrightarrow> digit_value (char_of (48 + n)) = Some n"
  by (simp add: digit_value_def Let_def of_char_of)

lemma show_nat_digits: "list_all (is_digit_of 10) (show_nat n) \<and> show_nat n \<noteq> [] \<and> number_of 10 (show_nat n) = n"
proof (induction n rule: show_nat.induct)
  case (1 n)
  show ?case
  proof (cases "n < 10")
    case True
    then show ?thesis by (simp add: show_nat.simps [of n] is_digit_of_def number_of_def)
  next
    case False
    have "n mod 10 < 10" by simp
    with False 1 show ?thesis by (simp add: show_nat.simps [of n] is_digit_of_def number_of_def)
  qed
qed

lemma read_port_show: "port < 65536 \<Longrightarrow> read_port (CHR '':'' # show_nat port) = Some (port, [])"
  using show_nat_digits [of port]
  by (simp add: read_port_def pbind_def pchar_def read_number_def Let_def list_all_iff takeWhile_eq_all_conv [THEN iffD2])

lemma colon_stops: "CHR '':'' \<noteq> CHR ''.''" "\<not> is_digit_of 10 CHR '':''"
  and bracket_stops: "CHR '']'' \<noteq> CHR ''.''" "CHR '']'' \<noteq> CHR '':''" "\<not> is_digit_of 10 CHR '']''" "\<not> is_digit_of 16 CHR '']''"
  by (simp_all add: is_digit_of_def digit_value_def)

lemma read_ipv4_bracket: "read_ipv4 (CHR ''['' # s) = None"
  by (simp add: read_ipv4_def read_octet_def separated_def pbind_def read_number_def is_digit_of_def digit_value_def)

lemma parse_ip_cases:
  assumes "parse_ip h = Some ip"
  obtains (v4) a b c d where "ip = V4 a b c d" "read_ipv4 h = Some ((a, b, c, d), [])"
  | (v6) g where "ip = V6 g" "read_ipv4 h = None" "read_ipv6 h = Some (g, [])"
  using assms
  by (auto simp: parse_ip_def parse_all_def read_ip_def por_def pbind_def pret_def split: option.splits list.splits)

lemma parse_socket_v4:
  assumes "read_ipv4 h = Some ((a, b, c, d), [])" and "port < 65536"
  shows "parse_socket (h @ CHR '':'' # show_nat port) = Some (V4 a b c d, port)"
  using stops_at_run [OF stops_ipv4 [OF colon_stops] assms(1), of "show_nat port"] read_port_show [OF assms(2)]
  by (simp add: parse_socket_def parse_all_def read_socket_def por_def pbind_def pret_def)

lemma parse_socket_v6:
  assumes "read_ipv6 h = Some (g, [])" and "port < 65536"
  shows "parse_socket (CHR ''['' # h @ CHR '']'' # CHR '':'' # show_nat port) = Some (V6 g, port)"
  using stops_at_run [OF stops_ipv6 [OF bracket_stops] assms(1), of "CHR '':'' # show_nat port"] read_port_show [OF assms(2)]
  by (simp add: parse_socket_def parse_all_def read_socket_def por_def pbind_def pret_def read_ipv4_bracket pchar_def
      ptry_def read_scope_def)

lemma parse_socket_dotted_none:
  assumes "read_ipv4 h = None" and "hd (h @ [CHR '':'']) \<noteq> CHR ''[''"
  shows "parse_socket (h @ CHR '':'' # t) = None"
  using stops_at_none [OF stops_ipv4 [OF colon_stops] assms(1), of t] assms(2)
  by (cases h) (simp_all add: parse_socket_def parse_all_def read_socket_def por_def pbind_def pchar_def)

lemma trim_matches_hd: "trim_matches P s = c # t \<Longrightarrow> \<not> P c"
proof -
  assume c: "trim_matches P s = c # t"
  obtain d where d: "d = dropWhile P s" by blast
  have "rev (dropWhile P (rev d)) @ rev (takeWhile P (rev d)) = rev (takeWhile P (rev d) @ dropWhile P (rev d))"
    by (simp only: rev_append)
  also have "\<dots> = d" by (simp only: takeWhile_dropWhile_id rev_rev_ident)
  finally have "d = c # t @ rev (takeWhile P (rev d))" using c by (simp add: trim_matches_def d)
  then have "d \<noteq> []" "hd d = c" by (cases d, simp, simp)+
  then show ?thesis using hd_dropWhile [of P s] d by metis
qed

lemma bare_host_start: "hd (bare_host host @ [CHR '':'']) \<noteq> CHR ''[''"
proof (cases "bare_host host")
  case (Cons c t)
  from trim_matches_hd [OF this [unfolded bare_host_def]] Cons show ?thesis by simp
qed simp

lemma localhost_start:
  assumes "eq_ignore_ascii_case h ''localhost''"
  obtains t where "h = CHR ''l'' # t \<or> h = CHR ''L'' # t"
proof -
  from assms obtain c t where h: "h = c # t" "ascii_lower c = CHR ''l''"
    by (cases h) (auto simp: eq_ignore_ascii_case_def to_ascii_lowercase_def ascii_lower_def)
  have "c = CHR ''l'' \<or> c = CHR ''L''"
  proof (cases "65 \<le> (of_char c :: nat) \<and> of_char c \<le> (90 :: nat)")
    case True
    with h(2) have "(of_char (char_of (of_char c + 32 :: nat) :: char) :: nat) = of_char (CHR ''l'')" by (simp add: ascii_lower_def)
    with True have "(of_char c :: nat) = of_char (CHR ''L'')" by (simp add: of_char_of)
    then show ?thesis by (simp only: of_char_eq_iff) simp
  next
    case False
    then have "ascii_lower c = c" unfolding ascii_lower_def by (rule if_not_P)
    with h(2) show ?thesis by simp
  qed
  with h(1) show thesis using that by blast
qed

lemma letter_reads:
  assumes "c = CHR ''l'' \<or> c = CHR ''L''"
  shows "read_ipv4 (c # t) = None" and "read_ipv6 (c # t) = None"
proof -
  show v4: "read_ipv4 (c # t) = None"
    using assms by (auto simp: read_ipv4_def read_octet_def separated_def pbind_def read_number_def is_digit_of_def digit_value_def)
  have "read_groups 8 0 [] (c # t) = Some (([], False), c # t)"
    using assms by (auto simp: read_groups.simps [of 8 0 "[]"] separated_def pbind_def pret_def ptry_def v4 read_number_def
        is_digit_of_def digit_value_def)
  then show "read_ipv6 (c # t) = None" using assms by (auto simp: read_ipv6_def pbind_def pchar_def)
qed

text \<open>The name \<open>localhost\<close>, which the checks accept, is no address the server can listen on.\<close>

lemma localhost_cannot_be_bound:
  assumes "eq_ignore_ascii_case (bare_host host) ''localhost''"
  shows "is_loopback_bind_host host" and "parse_ip (bare_host host) = None" and "parse_listen_addr host port \<noteq> Inr a"
proof -
  let ?h = "bare_host host"
  obtain c t where h: "?h = c # t" "c = CHR ''l'' \<or> c = CHR ''L''" using localhost_start [OF assms] by metis
  note none = letter_reads [OF h(2)]
  show "is_loopback_bind_host host" using assms by (simp add: is_loopback_bind_host_def Let_def)
  show "parse_ip ?h = None" by (simp add: parse_ip_def parse_all_def read_ip_def por_def pbind_def none h(1))
  have dotted: "parse_socket (?h @ CHR '':'' # show_nat port) = None"
    using parse_socket_dotted_none [of ?h "show_nat port"] none(1) h by auto
  have "read_ipv6 (?h @ CHR '']'' # CHR '':'' # show_nat port) = None" using none(2) h(1) by simp
  then have "parse_socket (CHR ''['' # ?h @ CHR '']'' # CHR '':'' # show_nat port) = None"
    by (simp add: parse_socket_def parse_all_def read_socket_def por_def pbind_def read_ipv4_bracket pchar_def)
  with dotted show "parse_listen_addr host port \<noteq> Inr a"
    by (simp add: parse_listen_addr_def and_then_Inr_iff Let_def ok_or_def)
qed

text \<open>
  The server binds the address it was told, and only a loopback one. For every host text and port
  the listen address is defined exactly when the text, without surrounding blanks and brackets, is an IP
  address of the loopback, in any spelling of either family; it is then that address with that port.
\<close>

theorem listen_address_is_loopback:
  assumes "port < 65536"
  shows "parse_listen_addr host port = Inr a \<longleftrightarrow>
    (\<exists>ip. parse_ip (bare_host host) = Some ip \<and> is_loopback ip \<and> a = (ip, port))"
proof (cases "eq_ignore_ascii_case (bare_host host) ''localhost''")
  case True
  from localhost_cannot_be_bound [OF this] show ?thesis by simp
next
  case False
  let ?h = "bare_host host"
  show ?thesis
  proof (cases "parse_ip ?h")
    case None
    with False show ?thesis by (simp add: parse_listen_addr_def deny_non_loopback_bind_def is_loopback_bind_host_def Let_def and_then_Inr_iff)
  next
    case (Some ip)
    have deny: "deny_non_loopback_bind host = Inr u \<longleftrightarrow> is_loopback ip" for u
      using False Some by (simp add: deny_non_loopback_bind_def is_loopback_bind_host_def Let_def)
    have "(case parse_socket (?h @ '':'' @ show_nat port) of Some x \<Rightarrow> Inr x
        | None \<Rightarrow> ok_or e (parse_socket (''['' @ ?h @ '']:'' @ show_nat port))) = Inr (ip, port)" for e :: OpsCodexError
      using Some
    proof (cases rule: parse_ip_cases)
      case (v4 a b c d)
      with parse_socket_v4 [OF v4(2) assms] show ?thesis by simp
    next
      case (v6 g)
      with parse_socket_v6 [OF v6(3) assms] parse_socket_dotted_none [OF v6(2) bare_host_start] show ?thesis
        by (simp add: ok_or_def)
    qed
    then show ?thesis using deny Some by (auto simp only: parse_listen_addr_def and_then_Inr_iff Let_def sum.inject option.inject)
  qed
qed

lemmas parse_evals = parse_ip_def parse_all_def read_ip_def por_def pbind_def pret_def pfail_def ptry_def pchar_def
  read_ipv4_def read_octet_def separated_def read_number_def number_of_def is_digit_of_def digit_value_def

lemma parse_examples:
  "parse_ip ''127.0.0.1'' = Some (V4 127 0 0 1)" "parse_ip ''::1'' = Some (V6 [0, 0, 0, 0, 0, 0, 0, 1])"
proof -
  show "parse_ip ''127.0.0.1'' = Some (V4 127 0 0 1)" by (simp add: parse_evals)
  have "read_groups 8 0 [] ''::1'' = Some (([], False), ''::1'')"
    "read_groups 7 1 [1] [] = Some (([1], False), [])"
    by (simp_all add: parse_evals read_groups.simps [of 8 0 "[]"] read_groups.simps [of 7 "Suc 0" "[Suc 0]"])
  moreover from this(2) have "read_groups 7 0 [] ''1'' = Some (([1], False), [])"
    by (simp add: parse_evals read_groups.simps [of 7 0 "[]"])
  ultimately show "parse_ip ''::1'' = Some (V6 [0, 0, 0, 0, 0, 0, 0, 1])"
    by (simp add: parse_evals read_ipv6_def eval_nat_numeral)
qed

lemma bare_examples: "bare_host ''127.0.0.1'' = ''127.0.0.1''" "bare_host '' [::1] '' = ''::1''"
  by code_simp+

lemma default_config_ok: "validate (\<lambda>_. Inr demo_url) default_config = Inr ()"
proof -
  have host: "is_loopback_bind_host ''127.0.0.1''" by (simp add: is_loopback_bind_host_def bare_examples parse_examples)
  have model: "check_model default_model_config = Inr ()" by code_simp
  show ?thesis
    by (simp add: validate_checks default_config_def host model check_hosts_def and_then_Inr_iff demo_url_def LOOPBACK_NAMES_def)
      (simp add: runtime_values_def default_runtime_settings_def check_limits_def default_loki_config_def
        default_tempo_config_def default_extensions_config_def default_store_config_def default_remediation_config_def
        and_then_Inr_iff)
qed

theorem validated_config_can_run_witness: "is_ok (catalog_from_config (workspace_defaults default_config))"
  using validated_config_can_run [OF default_config_ok] by simp

theorem listen_address_is_loopback_witness:
  "parse_listen_addr '' [::1] '' 3000 = Inr (V6 [0, 0, 0, 0, 0, 0, 0, 1], 3000)"
  using listen_address_is_loopback [of 3000 "'' [::1] ''"] by (simp add: bare_examples parse_examples)

end
