(* ===== verification/Extension.thy ===== *)
theory Extension
  imports Config
begin

text \<open>
  Extensions that run a local process: the child supervisor (\<open>src/extensions/supervisor.rs\<close>), tools
  described by a manifest (\<open>src/extensions/custom.rs\<close>) and the states and summaries of extensions
  (\<open>src/extensions/lifecycle.rs\<close>). The operating system is a parameter: reading files, and running a
  process with given arguments, environment and input, together with all it prints and how it ends.
\<close>

section \<open>States and summaries\<close>

datatype ExtensionState = Discovered | Validated | Configured | Enabled | Healthy | DegradedState | Disabled

fun state_as_str :: "ExtensionState \<Rightarrow> string" where
  "state_as_str Discovered = ''discovered''"
| "state_as_str Validated = ''validated''"
| "state_as_str Configured = ''configured''"
| "state_as_str Enabled = ''enabled''"
| "state_as_str Healthy = ''healthy''"
| "state_as_str DegradedState = ''degraded''"
| "state_as_str Disabled = ''disabled''"

record ExtensionHealth =
  eh_state :: ExtensionState
  eh_detail :: "string option"
  eh_restart_count :: nat

definition health_disabled :: "string \<Rightarrow> ExtensionHealth" where
  "health_disabled detail = \<lparr>eh_state = Disabled, eh_detail = Some detail, eh_restart_count = 0\<rparr>"

definition health_healthy :: ExtensionHealth where
  "health_healthy = \<lparr>eh_state = Healthy, eh_detail = None, eh_restart_count = 0\<rparr>"

record CapabilitySummary =
  cs_id :: string
  cs_name :: string
  cs_source :: CapabilitySource
  cs_version :: string
  cs_effect :: CapabilityEffect
  cs_schema_hash :: string
  cs_enabled :: bool
  cs_trusted_local :: bool

definition capability_summary :: "CapabilityDescriptor \<Rightarrow> CapabilitySummary" where
  "capability_summary d = \<lparr>cs_id = cd_id d, cs_name = cd_name d, cs_source = cd_source d,
     cs_version = pv_version (cd_provenance d), cs_effect = cd_effect d, cs_schema_hash = pv_schema_hash (cd_provenance d),
     cs_enabled = cd_enabled d, cs_trusted_local = cd_trusted_local d\<rparr>"

record ExtensionSummary =
  es_id :: string
  es_kind :: string
  es_version :: string
  es_hash :: string
  es_enabled :: bool
  es_health :: ExtensionHealth
  es_workspaces :: "string list"
  es_capabilities :: "CapabilitySummary list"

section \<open>Processes\<close>

definition MAX_STDERR_BYTES :: nat where "MAX_STDERR_BYTES = 4 * 1024"

record SpawnSpec =
  sp_command :: string
  sp_args :: "string list"
  sp_cwd :: "string option"
  sp_env :: "(string \<times> string) list"
  sp_timeout :: nat
  sp_max_output_bytes :: nat

record SupervisorOutput =
  so_stdout :: bytes
  so_stderr :: bytes
  so_truncated :: bool

text \<open>What reading a pipe gives, until its end.\<close>

datatype PipeEvent = PipeChunk bytes | PipeFailed string

text \<open>How a process ends: with the exit code, if it has one, and all it printed on both pipes.\<close>

datatype ProcessEnd =
    NotStarted string | StdinFailed string | ProcessCancelled | ProcessTimedOut | WaitFailed string
  | Exited "int option" "PipeEvent list" "PipeEvent list"

text \<open>
  The operating system over a world; \<open>os_run\<close> is given the environment the process really gets, which is
  otherwise empty, and its input.
\<close>

record 'w os =
  os_exists :: "string \<Rightarrow> bool"
  os_read :: "string \<Rightarrow> 'w \<Rightarrow> string + bytes"
  os_env :: "string \<Rightarrow> string option"
  os_run :: "SpawnSpec \<Rightarrow> bytes \<Rightarrow> 'w \<Rightarrow> ProcessEnd \<times> 'w"
  os_cancelled :: "'w \<Rightarrow> bool"
  os_now :: "'w \<Rightarrow> time \<times> 'w"
  os_json :: "bytes \<Rightarrow> string + json"

definition validate_ext_path :: "string \<Rightarrow> unit result" where
  "validate_ext_path path =
     (if CHR 0x00 \<in> set path \<or> ''..'' \<in> set (split_on CHR ''/'' path)
      then Inl (OpsCodexError.Policy ''extension path cannot contain parent directory segments'') else Inr ())"

definition validate_command :: "'w os \<Rightarrow> string \<Rightarrow> unit result" where
  "validate_command os command =
     and_then (validate_ext_path command) (\<lambda>_.
       if \<not> starts_with ''/'' command then Inl (OpsCodexError.Policy ''extension command must be an absolute path'')
       else if \<not> os_exists os command then Inl (OpsCodexError.NotFound (''extension command '' @ command))
       else Inr ())"

definition ascii_upper :: "char \<Rightarrow> char" where
  "ascii_upper c = (if 97 \<le> (of_char c :: nat) \<and> of_char c \<le> (122 :: nat) then char_of (of_char c - 32 :: nat) else c)"

definition is_blocked_env :: "string \<Rightarrow> bool" where
  "is_blocked_env key =
     (let upper = map ascii_upper key
      in str_contains ''TOKEN'' upper \<or> str_contains ''SECRET'' upper \<or> str_contains ''PASSWORD'' upper \<or>
         str_contains ''API_KEY'' upper \<or> upper = ''AWS_SECRET_ACCESS_KEY'' \<or> upper = ''OPENAI_API_KEY'')"

text \<open>A pipe is read up to its bound; what comes behind the bound is read and thrown away.\<close>

fun read_bounded :: "nat \<Rightarrow> bytes \<Rightarrow> PipeEvent list \<Rightarrow> (bytes \<times> bool) result" where
  "read_bounded max_bytes bs [] = Inr (bs, False)"
| "read_bounded max_bytes bs (PipeFailed err # _) = Inl (OpsCodexError.Tool (''failed to read extension output: '' @ err))"
| "read_bounded max_bytes bs (PipeChunk chunk # es) =
     (if chunk = [] then Inr (bs, False)
      else let remaining = max_bytes - length bs
      in if remaining < length chunk then Inr (bs @ take remaining chunk, True)
         else read_bounded max_bytes (bs @ chunk) es)"

definition collect_output :: "SpawnSpec \<Rightarrow> int option \<Rightarrow> PipeEvent list \<Rightarrow> PipeEvent list \<Rightarrow> SupervisorOutput result" where
  "collect_output spec code out err =
     and_then (read_bounded (sp_max_output_bytes spec) [] out) (\<lambda>(stdout, truncated).
     and_then (read_bounded MAX_STDERR_BYTES [] err) (\<lambda>(stderr, _).
       if code \<noteq> Some 0
       then Inl (OpsCodexError.Tool (''extension process exited with '' @
         (case code of None \<Rightarrow> ''-1'' | Some n \<Rightarrow> (if n < 0 then ''-'' else []) @ show_nat (nat \<bar>n\<bar>))))
       else Inr \<lparr>so_stdout = stdout, so_stderr = stderr, so_truncated = truncated\<rparr>))"

definition invoke :: "'w os \<Rightarrow> SpawnSpec \<Rightarrow> bytes \<Rightarrow> ('w, SupervisorOutput) op" where
  "invoke os spec stdin =
     sbind (sask (os_run os (spec\<lparr>sp_env := filter (\<lambda>(key, _). \<not> is_blocked_env key) (sp_env spec)\<rparr>) stdin)) (\<lambda>ended.
       case ended of
         NotStarted err \<Rightarrow> sfail (OpsCodexError.Tool (''failed to start extension process: '' @ err))
       | StdinFailed err \<Rightarrow> sfail (OpsCodexError.Tool (''failed to write extension stdin: '' @ err))
       | ProcessCancelled \<Rightarrow> sfail OpsCodexError.Cancelled
       | ProcessTimedOut \<Rightarrow> sfail (OpsCodexError.Timeout ''extension process timed out'')
       | WaitFailed err \<Rightarrow> sfail (OpsCodexError.Tool (''extension process wait failed: '' @ err))
       | Exited code out err \<Rightarrow> slift (collect_output spec code out err))"

fun is_retryable_supervisor_failure :: "OpsCodexError \<Rightarrow> bool" where
  "is_retryable_supervisor_failure (OpsCodexError.Timeout _) = True"
| "is_retryable_supervisor_failure (OpsCodexError.Tool _) = True"
| "is_retryable_supervisor_failure _ = False"

definition new_supervisor :: "nat \<Rightarrow> nat" where "new_supervisor max_restarts = min max_restarts 5"

text \<open>The loop, with the restarts that are left.\<close>

fun supervise :: "'w os \<Rightarrow> SpawnSpec \<Rightarrow> bytes \<Rightarrow> nat \<Rightarrow> ('w, SupervisorOutput) op" where
  "supervise os spec stdin left s =
     (case invoke os spec stdin s of
        (Inr out, s') \<Rightarrow> (Inr out, s')
      | (Inl err, s') \<Rightarrow>
          (case left of
             Suc n \<Rightarrow>
               if is_retryable_supervisor_failure err \<and> \<not> os_cancelled os s' then supervise os spec stdin n s'
               else (Inl err, s')
           | 0 \<Rightarrow> (Inl err, s')))"

declare supervise.simps [simp del]

definition run_once :: "'w os \<Rightarrow> nat \<Rightarrow> SpawnSpec \<Rightarrow> bytes \<Rightarrow> ('w, SupervisorOutput) op" where
  "run_once os max_restarts spec stdin =
     sbind (slift (validate_command os (sp_command spec))) (\<lambda>_.
     sbind (slift (case sp_cwd spec of None \<Rightarrow> Inr () | Some cwd \<Rightarrow> validate_ext_path cwd)) (\<lambda>_.
       supervise os spec stdin max_restarts))"

section \<open>Custom tools\<close>

record CustomToolManifest =
  cm_api_version :: string
  cm_kind :: string
  cm_name :: string
  cm_version :: string
  cm_command :: string
  cm_args :: "string list"
  cm_cwd :: "string option"
  cm_input_schema :: json
  cm_output_schema :: "json option"
  cm_effect :: string
  cm_recovery :: "string option"
  cm_timeout_seconds :: "nat option"
  cm_max_output_bytes :: "nat option"
  cm_env_allowlist :: "string list"

definition load_custom_manifest ::
    "(string \<Rightarrow> string + string) \<Rightarrow> (string \<Rightarrow> string + CustomToolManifest) \<Rightarrow> string \<Rightarrow> CustomToolManifest result" where
  "load_custom_manifest read yaml path =
     and_then (validate_ext_path path) (\<lambda>_.
     and_then (case read path of
         Inl err \<Rightarrow> Inl (OpsCodexError.Storage (''failed to read '' @ path @ '': '' @ err)) | Inr source \<Rightarrow> Inr source) (\<lambda>source.
     and_then (case yaml source of
         Inl err \<Rightarrow> Inl (OpsCodexError.Protocol (''invalid custom tool manifest: '' @ err)) | Inr m \<Rightarrow> Inr m) (\<lambda>m.
       if cm_api_version m \<noteq> ''opscodex.dev/v1'' \<or> cm_kind m \<noteq> ''Tool''
       then Inl (OpsCodexError.Protocol ''custom tool manifest must be apiVersion opscodex.dev/v1 kind Tool'')
       else Inr m)))"

record CustomJsonTool =
  cu_capability :: CapabilityDescriptor
  cu_command :: string
  cu_args :: "string list"
  cu_cwd :: "string option"
  cu_env :: "(string \<times> string) list"
  cu_restarts :: nat

definition enforce_workspace_ceiling :: "CapabilityDescriptor \<Rightarrow> CapabilityEffect option \<Rightarrow> unit result" where
  "enforce_workspace_ceiling d workspace_max = (case workspace_max of
       None \<Rightarrow> Inr ()
     | Some m \<Rightarrow> if rank m < rank (cd_effect d)
         then Inl (OpsCodexError.Policy (''capability `'' @ cd_id d @ ''` effect `'' @ effect_as_str (cd_effect d) @
           ''` exceeds workspace max `'' @ effect_as_str m @ ''`''))
         else Inr ())"

definition custom_descriptor ::
    "ext \<Rightarrow> CustomToolManifest \<Rightarrow> bytes \<Rightarrow> CapabilityEffect \<Rightarrow> RecoveryMode option \<Rightarrow> bool \<Rightarrow> CapabilityDescriptor" where
  "custom_descriptor E m binary effect recovery trusted_local =
     \<lparr>cd_id = capability_id (source_as_str CapabilitySource.Custom) (cm_name m) (cm_version m),
      cd_source = CapabilitySource.Custom, cd_name = ''custom/'' @ cm_name m,
      cd_description = ''Custom tool '' @ cm_name m @ ''@'' @ cm_version m @ ''. Process-local JSON runner.'',
      cd_input_schema = cm_input_schema m, cd_output_schema = cm_output_schema m, cd_effect = effect,
      cd_target_requirements = [], cd_timeout_seconds = max (or_default 10 (cm_timeout_seconds m)) 1,
      cd_max_output_bytes = max (or_default (64 * 1024) (cm_max_output_bytes m)) 1, cd_recovery = recovery,
      cd_provenance = \<lparr>pv_source = CapabilitySource.Custom, pv_version = cm_version m,
        pv_schema_hash = hash_schema E (cm_input_schema m), pv_binary_hash = Some (hash_bytes E binary),
        pv_origin = Some (cm_command m)\<rparr>,
      cd_content_sensitivity = Internal, cd_enabled = True, cd_trusted_local = trusted_local\<rparr>"

definition parse_opt :: "('a \<Rightarrow> 'b result) \<Rightarrow> 'a option \<Rightarrow> 'b option result" where
  "parse_opt f x = (case x of None \<Rightarrow> Inr None | Some v \<Rightarrow> and_then (f v) (\<lambda>y. Inr (Some y)))"

definition read_or_empty :: "'w os \<Rightarrow> string \<Rightarrow> 'w \<Rightarrow> bytes" where
  "read_or_empty os path w = (case os_read os path w of Inl _ \<Rightarrow> [] | Inr bs \<Rightarrow> bs)"

definition custom_from_manifest ::
    "ext \<Rightarrow> 'w os \<Rightarrow> CustomToolManifest \<Rightarrow> bool \<Rightarrow> CapabilityEffect option \<Rightarrow> CapabilityEffect option \<Rightarrow>
     (string \<times> string) list \<Rightarrow> nat \<Rightarrow> 'w \<Rightarrow> CustomJsonTool result" where
  "custom_from_manifest E os m trusted_local effect_override workspace_max env max_restarts w =
     and_then (validate_command os (cm_command m)) (\<lambda>_.
     and_then (effect_parse (cm_effect m)) (\<lambda>effect.
     and_then (parse_opt recovery_parse (cm_recovery m)) (\<lambda>recovery.
     let d = apply_strictest None effect_override
       (custom_descriptor E m (read_or_empty os (cm_command m) w) effect recovery trusted_local) in
     and_then (enforce_workspace_ceiling d workspace_max) (\<lambda>_.
     and_then (validate_for_enablement d) (\<lambda>_.
       if \<not> trusted_local
       then Inl (OpsCodexError.Policy (''custom tool `'' @ cd_id d @ ''` requires trusted_local''))
       else Inr \<lparr>cu_capability = d, cu_command = cm_command m, cu_args = cm_args m, cu_cwd = cm_cwd m,
              cu_env = filter (\<lambda>(key, _). key \<in> set (cm_env_allowlist m)) env,
              cu_restarts = new_supervisor max_restarts\<rparr>)))))"

fun json_has_type :: "string \<Rightarrow> json \<Rightarrow> bool" where
  "json_has_type t v =
     (if t = ''object'' then json_is_object v
      else if t = ''array'' then (case v of JArr _ \<Rightarrow> True | _ \<Rightarrow> False)
      else if t = ''string'' then (case v of JStr _ \<Rightarrow> True | _ \<Rightarrow> False)
      else if t = ''number'' \<or> t = ''integer'' then (case v of JNum _ \<Rightarrow> True | JFloat _ \<Rightarrow> True | _ \<Rightarrow> False)
      else if t = ''boolean'' then (case v of JBool _ \<Rightarrow> True | _ \<Rightarrow> False)
      else if t = ''null'' then v = JNull
      else True)"

definition validate_against_schema :: "json \<Rightarrow> json \<Rightarrow> unit result" where
  "validate_against_schema v schema =
     (if (case json_get_str ''type'' schema of None \<Rightarrow> True | Some t \<Rightarrow> json_has_type t v) then Inr ()
      else Inl (OpsCodexError.Protocol ''custom tool output does not match outputSchema''))"

definition custom_output :: "CapabilityDescriptor \<Rightarrow> json \<Rightarrow> bool \<Rightarrow> time \<Rightarrow> ToolOutput" where
  "custom_output d parsed truncated now =
     \<lparr>to_content = JObj [(''hash'', JStr (pv_schema_hash (cd_provenance d))), (''result'', parsed),
        (''source'', JStr ''custom''), (''tool'', JStr (cd_name d)), (''truncated'', JBool truncated),
        (''version'', JStr (pv_version (cd_provenance d)))],
      to_evidence = with_truncated truncated (with_summary (''custom tool '' @ cd_name d)
        (with_query (cd_id d) (new_evidence now ''custom'')))\<rparr>"

definition custom_spec :: "CustomJsonTool \<Rightarrow> SpawnSpec" where
  "custom_spec t = \<lparr>sp_command = cu_command t, sp_args = cu_args t, sp_cwd = cu_cwd t, sp_env = cu_env t,
     sp_timeout = cd_timeout_seconds (cu_capability t), sp_max_output_bytes = cd_max_output_bytes (cu_capability t)\<rparr>"

definition custom_execute :: "ext \<Rightarrow> 'w os \<Rightarrow> CustomJsonTool \<Rightarrow> json \<Rightarrow> ('w, ToolOutput) op" where
  "custom_execute E os t arguments =
     sbind (sgets (\<lambda>w. Inr (read_or_empty os (cu_command t) w))) (\<lambda>current.
     if Some (hash_bytes E current) \<noteq> pv_binary_hash (cd_provenance (cu_capability t))
     then sfail (OpsCodexError.Policy (''custom tool `'' @ cd_id (cu_capability t) @ ''` binary hash changed''))
     else
       sbind (run_once os (cu_restarts t) (custom_spec t) (json_bytes E arguments)) (\<lambda>out.
       sbind (slift (case os_json os (so_stdout out) of
           Inl err \<Rightarrow> Inl (OpsCodexError.Protocol (''custom tool returned invalid JSON: '' @ err)) | Inr j \<Rightarrow> Inr j)) (\<lambda>parsed.
       sbind (slift (case cd_output_schema (cu_capability t) of None \<Rightarrow> Inr () | Some schema \<Rightarrow>
           validate_against_schema parsed schema)) (\<lambda>_.
       sbind (sask (os_now os)) (\<lambda>now.
         sret (custom_output (cu_capability t) parsed (so_truncated out) now))))))"

end
