(* ===== verification/Mcp.thy ===== *)
theory Mcp
  imports Extension
begin

text \<open>
  Tools of MCP servers (\<open>src/extensions/mcp.rs\<close>): the framing of messages on the pipes of a local server,
  requests over it, and servers reached over HTTP. What a local server prints in answer to the messages
  it has read so far is a parameter, as is the JSON parser of the library.
\<close>

section \<open>A connection to a local server\<close>

text \<open>
  The messages written so far, the bytes that arrived and were not read yet, and whether the server has
  closed its end.
\<close>

record mcp_conn =
  mp_next_id :: nat
  mp_out :: "json list"
  mp_in :: bytes
  mp_closed :: bool

record mcp_peer =
  pe_answer :: "json list \<Rightarrow> bytes"
  pe_closed :: "json list \<Rightarrow> bool"
  pe_write_error :: "json list \<Rightarrow> string option"
  pe_json :: "bytes \<Rightarrow> string + json"

function valid_utf8 :: "bytes \<Rightarrow> bool" where
  "valid_utf8 bs = (if bs = [] then True else let (ok, n) = utf8_head bs in ok \<and> valid_utf8 (drop n bs))"
  by pat_completeness auto
termination
  by (relation "measure length") (auto dest: utf8_head_pos)

declare valid_utf8.simps [simp del]

text \<open>\<open>str::parse\<close> for a \<open>usize\<close>: a plus sign is allowed, the value must fit.\<close>

definition parse_usize :: "string \<Rightarrow> nat option" where
  "parse_usize s =
     (let ds = (case s of [] \<Rightarrow> [] | c # cs \<Rightarrow> if c = CHR ''+'' then cs else s)
      in if ds \<noteq> [] \<and> list_all (is_digit_of 10) ds \<and> number_of 10 ds < 2 ^ 64 then Some (number_of 10 ds) else None)"

definition mcp_frame :: "bytes \<Rightarrow> bytes" where
  "mcp_frame body = ''Content-Length: '' @ show_nat (length body) @ [CHR 0x0D, CHR 0x0A, CHR 0x0D, CHR 0x0A] @ body"

text \<open>
  A message is written whole or fails; the server then answers what it likes. What it has sent before and
  the reader has not taken yet stays in front.
\<close>

definition mcp_write :: "mcp_peer \<Rightarrow> json \<Rightarrow> (mcp_conn, unit) op" where
  "mcp_write P m c =
     (case pe_write_error P (mp_out c @ [m]) of
        Some err \<Rightarrow> (Inl (OpsCodexError.Tool (''failed to write MCP request: '' @ err)), c)
      | None \<Rightarrow> (Inr (), c\<lparr>mp_out := mp_out c @ [m], mp_in := mp_in c @ pe_answer P (mp_out c @ [m]),
          mp_closed := pe_closed P (mp_out c @ [m])\<rparr>))"

text \<open>
  How a read ends: a message, an error, or still waiting because the server is silent but has not closed
  its end. What a read has taken by then is lost when the waiting is given up. A length of \<open>2 ^ 63\<close> or
  more is beyond what a buffer can have and panics.
\<close>

datatype read_end = ReadMessage json | ReadError OpsCodexError | Waiting | ReadPanicked

definition next_line :: "bytes \<Rightarrow> bytes \<times> bytes" where
  "next_line bs = (let l = takeWhile (\<lambda>c. c \<noteq> CHR 0x0A) bs; r = dropWhile (\<lambda>c. c \<noteq> CHR 0x0A) bs
     in if r = [] then (bs, []) else (l @ [CHR 0x0A], tl r))"

lemma next_line_shorter: "bs \<noteq> [] \<Longrightarrow> length (snd (next_line bs)) < length bs"
proof -
  assume "bs \<noteq> []"
  have "length (dropWhile (\<lambda>c. c \<noteq> CHR 0x0A) bs) \<le> length bs" by (rule length_dropWhile_le)
  with \<open>bs \<noteq> []\<close> show ?thesis
    by (cases "dropWhile (\<lambda>c. c \<noteq> CHR 0x0A) bs") (auto simp: next_line_def Let_def)
qed

definition invalid_json :: "(string + json) \<Rightarrow> read_end" where
  "invalid_json r = (case r of Inr m \<Rightarrow> ReadMessage m
     | Inl err \<Rightarrow> ReadError (OpsCodexError.Protocol (''invalid MCP JSON-RPC: '' @ err)))"

definition read_body :: "mcp_peer \<Rightarrow> bool \<Rightarrow> nat option \<Rightarrow> bytes \<Rightarrow> read_end \<times> bytes" where
  "read_body P closed content_length bs = (case content_length of
       None \<Rightarrow> (ReadError (OpsCodexError.Protocol ''MCP response is missing Content-Length''), bs)
     | Some n \<Rightarrow>
         if 2 ^ 63 \<le> n then (ReadPanicked, bs)
         else if n \<le> length bs then (invalid_json (pe_json P (take n bs)), drop n bs)
         else if closed then (ReadError (OpsCodexError.Tool ''failed to read MCP body: early eof''), [])
         else (Waiting, []))"

text \<open>The header lines up to the blank one; a line that is a JSON object is a message by itself.\<close>

function mcp_read :: "mcp_peer \<Rightarrow> bool \<Rightarrow> nat option \<Rightarrow> bytes \<Rightarrow> read_end \<times> bytes" where
  "mcp_read P closed content_length bs =
     (let (line, rest) = next_line bs; trimmed = trim line in
      if bs = [] then (if closed then ReadError (OpsCodexError.Tool ''MCP server closed stdout'') else Waiting, [])
      else if \<not> closed \<and> CHR 0x0A \<notin> set bs then (Waiting, [])
      else if \<not> valid_utf8 line
      then (ReadError (OpsCodexError.Tool ''failed to read MCP response: stream did not contain valid UTF-8''), rest)
      else if trimmed = [] then read_body P closed content_length rest
      else (case split_once CHR '':'' trimmed of
        Some (key, v) \<Rightarrow>
          if eq_ignore_ascii_case key ''content-length''
          then (case parse_usize (trim v) of
              None \<Rightarrow> (ReadError (OpsCodexError.Protocol ''invalid MCP Content-Length''), rest)
            | Some n \<Rightarrow> mcp_read P closed (Some n) rest)
          else mcp_read P closed content_length rest
      | None \<Rightarrow>
          if starts_with ''{'' trimmed then (invalid_json (pe_json P trimmed), rest)
          else mcp_read P closed content_length rest))"
  by pat_completeness auto
termination
  by (relation "measure (\<lambda>(P, closed, n, bs). length bs)") (simp_all, (metis next_line_shorter snd_conv)+)

declare mcp_read.simps [simp del]

section \<open>Requests\<close>

text \<open>The answer to a request: the first message with its id; what comes before is passed over.\<close>

definition has_id :: "nat \<Rightarrow> json \<Rightarrow> bool" where
  "has_id n m = (case json_get ''id'' m of None \<Rightarrow> False
     | Some v \<Rightarrow> json_as_u64 v = Some n \<or> (case v of JNum i \<Rightarrow> i = as_i64 n | _ \<Rightarrow> False))"

datatype 'a call_end = Answered "'a result" | StillWaiting | CallPanicked

definition answer_of :: "mcp_peer \<Rightarrow> (json \<Rightarrow> string) \<Rightarrow> json \<Rightarrow> json result" where
  "answer_of P show_json m = (case json_get ''error'' m of
       Some err \<Rightarrow> Inl (OpsCodexError.Tool (''MCP error: '' @ show_json err))
     | None \<Rightarrow> Inr (case json_get ''result'' m of None \<Rightarrow> JNull | Some r \<Rightarrow> r))"

lemma read_body_length: "length (snd (read_body P closed n bs)) \<le> length bs"
  by (auto simp: read_body_def split: option.split)

lemma mcp_read_nil: "snd (mcp_read P closed n []) = []"
  by (simp add: mcp_read.simps [of P closed n "[]"] next_line_def)

lemma mcp_read_shorter: "bs \<noteq> [] \<Longrightarrow> length (snd (mcp_read P closed n bs)) < length bs"
proof (induction bs arbitrary: closed n rule: measure_induct_rule [of length])
  case (less bs)
  obtain line rest where nl: "next_line bs = (line, rest)" by fastforce
  then have short: "length rest < length bs" using next_line_shorter [OF less.prems] by simp
  then have rec: "length (snd (mcp_read P c k rest)) < length bs" for c k
    using less.IH [OF short, of c k] by (cases "rest = []") (simp_all add: mcp_read_nil)
  have body: "length (snd (read_body P c k rest)) < length bs" for c k
    using read_body_length short by (rule le_less_trans)
  show ?case
    unfolding mcp_read.simps [of P closed n bs] nl using short less.prems rec body
    by (simp add: Let_def split: option.split)
qed

lemma mcp_read_message_shorter: "(ReadMessage m, rest) = mcp_read P closed None bs \<Longrightarrow> length rest < length bs"
proof -
  assume read: "(ReadMessage m, rest) = mcp_read P closed None bs"
  then have "bs \<noteq> []" by (auto simp: mcp_read.simps [of P closed None "[]"] next_line_def split: if_splits)
  from mcp_read_shorter [OF this, of P closed None] read [symmetric] show ?thesis by simp
qed

function await_answer :: "mcp_peer \<Rightarrow> (json \<Rightarrow> string) \<Rightarrow> nat \<Rightarrow> bool \<Rightarrow> bytes \<Rightarrow> json call_end \<times> bytes" where
  "await_answer P show_json n closed bs =
     (case mcp_read P closed None bs of
        (Waiting, rest) \<Rightarrow> (StillWaiting, rest)
      | (ReadPanicked, rest) \<Rightarrow> (CallPanicked, rest)
      | (ReadError err, rest) \<Rightarrow> (Answered (Inl err), rest)
      | (ReadMessage m, rest) \<Rightarrow>
          if has_id n m then (Answered (answer_of P show_json m), rest)
          else await_answer P show_json n closed rest)"
  by pat_completeness auto
termination
  by (relation "measure (\<lambda>(P, sh, n, closed, bs). length bs)") (auto dest: mcp_read_message_shorter)

declare await_answer.simps [simp del]

definition rpc :: "nat option \<Rightarrow> string \<Rightarrow> json \<Rightarrow> json" where
  "rpc n method params = JObj ((case n of None \<Rightarrow> [] | Some i \<Rightarrow> [(''id'', JNum (int i))]) @
     [(''jsonrpc'', JStr ''2.0''), (''method'', JStr method), (''params'', params)])"

definition mcp_request :: "mcp_peer \<Rightarrow> (json \<Rightarrow> string) \<Rightarrow> string \<Rightarrow> json \<Rightarrow> mcp_conn \<Rightarrow> json call_end \<times> mcp_conn" where
  "mcp_request P show_json method params c =
     (let n = mp_next_id c; c1 = c\<lparr>mp_next_id := n + 1\<rparr>
      in case mcp_write P (rpc (Some n) method params) c1 of
           (Inl err, c2) \<Rightarrow> (Answered (Inl err), c2)
         | (Inr _, c2) \<Rightarrow>
             (case await_answer P show_json n (mp_closed c2) (mp_in c2) of (r, rest) \<Rightarrow> (r, c2\<lparr>mp_in := rest\<rparr>)))"

definition mcp_notify :: "mcp_peer \<Rightarrow> string \<Rightarrow> json \<Rightarrow> (mcp_conn, unit) op" where
  "mcp_notify P method params = mcp_write P (rpc None method params)"

section \<open>A local server\<close>

definition initialize_params :: json where
  "initialize_params = JObj [(''capabilities'', JObj []),
     (''clientInfo'', JObj [(''name'', JStr ''opscodex''), (''version'', JStr ''0.1.0'')]),
     (''protocolVersion'', JStr ''2024-11-05'')]"

text \<open>
  The handshake after the process was started. A server that never answers keeps the handshake waiting.
\<close>

definition handshake :: "mcp_peer \<Rightarrow> (json \<Rightarrow> string) \<Rightarrow> mcp_conn call_end" where
  "handshake P show_json =
     (case mcp_request P show_json ''initialize'' initialize_params
         \<lparr>mp_next_id = 1, mp_out = [], mp_in = pe_answer P [], mp_closed = pe_closed P []\<rparr> of
        (StillWaiting, c) \<Rightarrow> StillWaiting
      | (CallPanicked, c) \<Rightarrow> CallPanicked
      | (Answered (Inl err), c) \<Rightarrow> Answered (Inl err)
      | (Answered (Inr init), c) \<Rightarrow>
          if json_get_str ''protocolVersion'' init = None
          then Answered (Inl (OpsCodexError.Protocol ''MCP initialize did not return a protocolVersion''))
          else (case mcp_notify P ''notifications/initialized'' (JObj []) c of
                  (Inl err, _) \<Rightarrow> Answered (Inl err) | (Inr _, c') \<Rightarrow> Answered (Inr c')))"

text \<open>A client: the command is checked, the process started, and greeted.\<close>

definition spawn_client ::
    "'w os \<Rightarrow> (json \<Rightarrow> string) \<Rightarrow> ('w \<Rightarrow> (string + mcp_peer) \<times> 'w) \<Rightarrow> string \<Rightarrow> 'w \<Rightarrow> (mcp_peer \<times> mcp_conn) call_end \<times> 'w" where
  "spawn_client os show_json start command w =
     (case validate_command os command of
        Inl err \<Rightarrow> (Answered (Inl err), w)
      | Inr _ \<Rightarrow>
          (case start w of
             (Inl err, w') \<Rightarrow> (Answered (Inl (OpsCodexError.Tool (''failed to start MCP server: '' @ err))), w')
           | (Inr P, w') \<Rightarrow>
               (case handshake P show_json of
                  StillWaiting \<Rightarrow> StillWaiting
                | CallPanicked \<Rightarrow> CallPanicked
                | Answered r \<Rightarrow> Answered (and_then r (\<lambda>c. Inr (P, c))), w')))"

record McpListedTool =
  ml_name :: string
  ml_description :: string
  ml_input_schema :: json

definition listed_tool :: "json \<Rightarrow> McpListedTool result" where
  "listed_tool tool =
     and_then (ok_or (OpsCodexError.Protocol ''MCP tool is missing a name'') (json_get_str ''name'' tool)) (\<lambda>name.
       Inr \<lparr>ml_name = name, ml_description = str_or ''MCP tool'' (json_get_str ''description'' tool),
            ml_input_schema = (case json_get ''inputSchema'' tool of None \<Rightarrow> JObj [(''type'', JStr ''object'')] | Some v \<Rightarrow> v)\<rparr>)"

definition parse_listed_tools :: "json \<Rightarrow> McpListedTool list result" where
  "parse_listed_tools r = map_results listed_tool
     (case json_get ''tools'' r of Some (JArr tools) \<Rightarrow> tools | _ \<Rightarrow> [])"

definition list_tools :: "mcp_peer \<Rightarrow> (json \<Rightarrow> string) \<Rightarrow> mcp_conn \<Rightarrow> McpListedTool list call_end \<times> mcp_conn" where
  "list_tools P show_json c = (case mcp_request P show_json ''tools/list'' (JObj []) c of
       (StillWaiting, c') \<Rightarrow> (StillWaiting, c')
     | (CallPanicked, c') \<Rightarrow> (CallPanicked, c')
     | (Answered r, c') \<Rightarrow> (Answered (and_then r parse_listed_tools), c'))"

definition call_tool :: "mcp_peer \<Rightarrow> (json \<Rightarrow> string) \<Rightarrow> string \<Rightarrow> json \<Rightarrow> mcp_conn \<Rightarrow> json call_end \<times> mcp_conn" where
  "call_tool P show_json name arguments =
     mcp_request P show_json ''tools/call'' (JObj [(''arguments'', arguments), (''name'', JStr name)])"

section \<open>Tools\<close>

record McpInstallSpec =
  mi_server_id :: string
  mi_trusted_local :: bool
  mi_effect :: CapabilityEffect
  mi_recovery :: RecoveryMode
  mi_version :: string
  mi_workspace_max :: "CapabilityEffect option"
  mi_origin :: string

definition mcp_descriptor :: "ext \<Rightarrow> McpInstallSpec \<Rightarrow> McpListedTool \<Rightarrow> CapabilityDescriptor" where
  "mcp_descriptor E spec l =
     \<lparr>cd_id = capability_id ''mcp'' (mi_server_id spec @ ''/'' @ ml_name l) (mi_version spec),
      cd_source = CapabilitySource.Mcp, cd_name = ''mcp/'' @ mi_server_id spec @ ''/'' @ ml_name l,
      cd_description = ml_description l, cd_input_schema = ml_input_schema l, cd_output_schema = None,
      cd_effect = mi_effect spec, cd_target_requirements = [], cd_timeout_seconds = 30,
      cd_max_output_bytes = 64 * 1024, cd_recovery = Some (mi_recovery spec),
      cd_provenance = \<lparr>pv_source = CapabilitySource.Mcp, pv_version = mi_version spec,
        pv_schema_hash = hash_schema E (ml_input_schema l), pv_binary_hash = None, pv_origin = Some (mi_origin spec)\<rparr>,
      cd_content_sensitivity = Internal, cd_enabled = True, cd_trusted_local = mi_trusted_local spec\<rparr>"

text \<open>A tool of a server, local or remote: its capability and its name there.\<close>

record McpTool =
  mt_capability :: CapabilityDescriptor
  mt_remote_name :: string

definition new_mcp_tool :: "ext \<Rightarrow> McpInstallSpec \<Rightarrow> McpListedTool \<Rightarrow> McpTool result" where
  "new_mcp_tool E spec l =
     (let d = apply_strictest None None (mcp_descriptor E spec l) in
      and_then (enforce_workspace_ceiling d (mi_workspace_max spec)) (\<lambda>_.
      and_then (validate_for_enablement d) (\<lambda>_.
        Inr \<lparr>mt_capability = d, mt_remote_name = ml_name l\<rparr>)))"

definition extension_risk :: "CapabilityDescriptor \<Rightarrow> ToolRisk" where
  "extension_risk d = (if cd_effect d = Observe then Safe else ToolRisk.Ask)"

definition mcp_output :: "CapabilityDescriptor \<Rightarrow> json \<Rightarrow> time \<Rightarrow> ToolOutput" where
  "mcp_output d r now =
     \<lparr>to_content = JObj [(''hash'', JStr (pv_schema_hash (cd_provenance d))), (''result'', r), (''source'', JStr ''mcp''),
        (''tool'', JStr (cd_name d)), (''version'', JStr (pv_version (cd_provenance d)))],
      to_evidence = with_summary (''MCP '' @ cd_name d) (with_query (cd_id d) (new_evidence now ''mcp''))\<rparr>"

text \<open>
  One call of a local tool: cancelled before, or answered, or given up when the time is over or the turn is
  cancelled meanwhile, or panicking. A call that is given up has written its request and has taken what had arrived.
\<close>

definition mcp_execute ::
    "mcp_peer \<Rightarrow> (json \<Rightarrow> string) \<Rightarrow> McpTool \<Rightarrow> bool \<Rightarrow> bool \<Rightarrow> time \<Rightarrow> json \<Rightarrow> mcp_conn \<Rightarrow>
     ToolOutput call_end \<times> mcp_conn" where
  "mcp_execute P show_json t cancelled cancelled_later now arguments c =
     (if cancelled then (Answered (Inl OpsCodexError.Cancelled), c)
      else case call_tool P show_json (mt_remote_name t) arguments c of
        (StillWaiting, c') \<Rightarrow>
          (Answered (Inl (if cancelled_later then OpsCodexError.Cancelled else OpsCodexError.Timeout ''MCP tool timed out'')), c')
      | (CallPanicked, c') \<Rightarrow> (CallPanicked, c')
      | (Answered (Inl err), c') \<Rightarrow> (Answered (Inl err), c')
      | (Answered (Inr r), c') \<Rightarrow> (Answered (Inr (mcp_output (mt_capability t) r now)), c'))"

section \<open>Servers over HTTP\<close>

definition validate_mcp_http_url :: "'w io \<Rightarrow> string \<Rightarrow> string list \<Rightarrow> Url result" where
  "validate_mcp_http_url I raw allowlist =
     and_then (case url_parse I raw of Inl err \<Rightarrow> Inl (OpsCodexError.Protocol (''invalid MCP URL: '' @ err)) | Inr u \<Rightarrow> Inr u) (\<lambda>url.
     let host = str_or [] (url_host url) in
     if url_scheme url \<noteq> ''https'' \<and> host \<notin> set LOOPBACK_NAMES
     then Inl (OpsCodexError.Policy ''MCP HTTP endpoints must use TLS unless they are loopback'')
     else if url_username url \<noteq> [] \<or> url_password url \<noteq> None
     then Inl (OpsCodexError.Policy ''MCP URL cannot contain credentials'')
     else if allowlist = [] then Inl (OpsCodexError.Policy ''MCP HTTP endpoints require an explicit host allowlist'')
     else if \<not> list_ex (\<lambda>item. eq_ignore_ascii_case item host) allowlist
     then Inl (OpsCodexError.Policy (''MCP host `'' @ host @ ''` is not in the Workspace allowlist''))
     else Inr url)"

text \<open>The whole body, however long; nothing is awaited beside it.\<close>

fun whole_body :: "BodyEvent list \<Rightarrow> string + bytes" where
  "whole_body [] = Inr []"
| "whole_body (BodyChunk bs # es) = and_then (whole_body es) (\<lambda>r. Inr (bs @ r))"
| "whole_body (BodyError err # es) = Inl err"
| "whole_body (BodyCancelled # es) = whole_body es"

definition mcp_http_call ::
    "'w io \<Rightarrow> (json \<Rightarrow> string) \<Rightarrow> Url \<Rightarrow> string \<Rightarrow> json \<Rightarrow> nat \<Rightarrow> ('w, json) op" where
  "mcp_http_call I show_json endpoint method params timeout_seconds =
     sbind (sask (io_send I \<lparr>rq_method = POST, rq_url = endpoint, rq_headers = [], rq_bearer = None,
         rq_body = Some (rpc (Some 1) method params), rq_timeout_secs = max timeout_seconds 1\<rparr>)) (\<lambda>sent.
     sbind (slift (case sent of
         SendCancelled \<Rightarrow> Inl OpsCodexError.Cancelled
       | SendTimedOut \<Rightarrow> Inl (OpsCodexError.Timeout ''MCP HTTP timed out'')
       | SendFailed err \<Rightarrow> Inl (OpsCodexError.Tool (''MCP HTTP failed: '' @ err))
       | SendResponse status body \<Rightarrow>
           (case and_then (whole_body body) (json_parse I) of
              Inl err \<Rightarrow> Inl (OpsCodexError.Protocol (''invalid MCP HTTP JSON: '' @ err)) | Inr j \<Rightarrow> Inr j))) (\<lambda>payload.
       slift (case json_get ''error'' payload of
         Some err \<Rightarrow> Inl (OpsCodexError.Tool (''MCP HTTP error: '' @ show_json err))
       | None \<Rightarrow> Inr (case json_get ''result'' payload of None \<Rightarrow> JNull | Some r \<Rightarrow> r))))"

definition mcp_http_initialize :: "'w io \<Rightarrow> (json \<Rightarrow> string) \<Rightarrow> Url \<Rightarrow> ('w, unit) op" where
  "mcp_http_initialize I show_json endpoint =
     sbind (mcp_http_call I show_json endpoint ''initialize'' initialize_params 30) (\<lambda>r.
       if json_get_str ''protocolVersion'' r = None
       then sfail (OpsCodexError.Protocol ''MCP HTTP initialize did not return a protocolVersion'') else sret ())"

definition mcp_http_list_tools :: "'w io \<Rightarrow> (json \<Rightarrow> string) \<Rightarrow> Url \<Rightarrow> ('w, McpListedTool list) op" where
  "mcp_http_list_tools I show_json endpoint =
     sbind (mcp_http_call I show_json endpoint ''tools/list'' (JObj []) 30) (\<lambda>r. slift (parse_listed_tools r))"

definition mcp_http_execute :: "'w io \<Rightarrow> (json \<Rightarrow> string) \<Rightarrow> Url \<Rightarrow> McpTool \<Rightarrow> json \<Rightarrow> ('w, ToolOutput) op" where
  "mcp_http_execute I show_json endpoint t arguments =
     sbind (mcp_http_call I show_json endpoint ''tools/call''
         (JObj [(''arguments'', arguments), (''name'', JStr (mt_remote_name t))]) (cd_timeout_seconds (mt_capability t))) (\<lambda>r.
     sbind (sask (io_now I)) (\<lambda>now. sret (mcp_output (mt_capability t) r now)))"

end
