(* ===== verification/Runbook.thy ===== *)
theory Runbook
  imports Skill
begin

text \<open>
  Runbooks (\<open>src/runbook.rs\<close>): Markdown files with YAML front matter that a workspace offers for search
  and reading. The directory and the YAML parser are parameters. The lemmas show that a catalogue never
  has two runbooks of the same id and version, that reading gives the newest version, and what a search
  returns and in which order.
\<close>

record RunbookMeta =
  rb_id :: string
  rb_title :: string
  rb_services :: "string list"
  rb_signals :: "string list"
  rb_tags :: "string list"
  rb_version :: nat
  rb_hash :: string

record Runbook =
  runbook_meta :: RunbookMeta
  runbook_body :: string

type_synonym RunbookCatalog = "Runbook list"

record RunbookFront =
  rf_id :: string
  rf_title :: string
  rf_services :: "string list"
  rf_signals :: "string list"
  rf_tags :: "string list"
  rf_version :: nat

text \<open>An entry of the directory: an error, or a path with the outcome of reading the file.\<close>

datatype dir_entry = BadEntry string | DirEntry string "string + string"

section \<open>Parsing\<close>

definition trim_start :: "string \<Rightarrow> string" where
  "trim_start s = strip_all whitespace s"

definition parse_runbook :: "ext \<Rightarrow> (string \<Rightarrow> string + RunbookFront) \<Rightarrow> string \<Rightarrow> Runbook result" where
  "parse_runbook E yaml source =
     and_then (ok_or (OpsCodexError.Protocol ''runbook is missing YAML front matter'')
         (strip_prefix ''---'' (trim_start source))) (\<lambda>rest.
     and_then (ok_or (OpsCodexError.Protocol ''runbook front matter is not terminated'')
         (split_once_str (CHR 0x0A # ''---'') rest)) (\<lambda>(front, body).
     and_then (case yaml (trim front) of
         Inl err \<Rightarrow> Inl (OpsCodexError.Protocol (''invalid runbook front matter: '' @ err)) | Inr m \<Rightarrow> Inr m) (\<lambda>m.
       if trim (rf_id m) = [] \<or> trim (rf_title m) = []
       then Inl (OpsCodexError.Protocol ''runbook id and title are required'')
       else Inr \<lparr>runbook_meta = \<lparr>rb_id = rf_id m, rb_title = rf_title m, rb_services = rf_services m,
                 rb_signals = rf_signals m, rb_tags = rf_tags m,
                 rb_version = (if rf_version m = 0 then 1 else rf_version m), rb_hash = sha256_hex E source\<rparr>,
               runbook_body = trim body\<rparr>)))"

section \<open>The catalogue\<close>

definition runbook_insert :: "Runbook \<Rightarrow> RunbookCatalog \<Rightarrow> RunbookCatalog result" where
  "runbook_insert r catalog =
     (if list_ex (\<lambda>item. rb_id (runbook_meta item) = rb_id (runbook_meta r) \<and>
            rb_version (runbook_meta item) = rb_version (runbook_meta r)) catalog
      then Inl (OpsCodexError.Protocol (''duplicate runbook '' @ rb_id (runbook_meta r) @ ''@'' @ show_nat (rb_version (runbook_meta r))))
      else Inr (catalog @ [r]))"

definition is_markdown :: "string \<Rightarrow> bool" where
  "is_markdown path = (case rsplit_once CHR ''.'' (last (split_on CHR ''/'' path)) of
       None \<Rightarrow> False | Some (stem, extension) \<Rightarrow> stem \<noteq> [] \<and> extension = ''md'')"

fun load_entries :: "ext \<Rightarrow> (string \<Rightarrow> string + RunbookFront) \<Rightarrow> dir_entry list \<Rightarrow> RunbookCatalog \<Rightarrow> RunbookCatalog result" where
  "load_entries E yaml [] catalog = Inr catalog"
| "load_entries E yaml (BadEntry err # es) catalog =
     Inl (OpsCodexError.Storage (''failed to read runbook entry: '' @ err))"
| "load_entries E yaml (DirEntry path content # es) catalog =
     (if \<not> is_markdown path then load_entries E yaml es catalog
      else and_then (case content of
             Inl err \<Rightarrow> Inl (OpsCodexError.Storage (''failed to read '' @ path @ '': '' @ err)) | Inr s \<Rightarrow> Inr s) (\<lambda>source.
           and_then (parse_runbook E yaml source) (\<lambda>r.
           and_then (runbook_insert r catalog) (load_entries E yaml es))))"

text \<open>\<open>read_dir\<close> gives nothing for a directory that does not exist.\<close>

definition load_runbooks ::
    "ext \<Rightarrow> (string \<Rightarrow> string + RunbookFront) \<Rightarrow> (string \<Rightarrow> (string + dir_entry list) option) \<Rightarrow> string option \<Rightarrow> RunbookCatalog result" where
  "load_runbooks E yaml read_dir directory = (case directory of
       None \<Rightarrow> Inr []
     | Some d \<Rightarrow> (case read_dir d of
           None \<Rightarrow> Inr []
         | Some (Inl err) \<Rightarrow> Inl (OpsCodexError.Storage (''failed to read runbook directory: '' @ err))
         | Some (Inr es) \<Rightarrow> load_entries E yaml es []))"

section \<open>Searching and reading\<close>

definition runbook_hay :: "RunbookMeta \<Rightarrow> string" where
  "runbook_hay m = to_ascii_lowercase (rb_id m @ '' '' @ rb_title m @ '' '' @ join_with '' '' (rb_tags m) @ '' '' @
     join_with '' '' (rb_signals m))"

definition runbook_score :: "string \<Rightarrow> RunbookMeta \<Rightarrow> nat" where
  "runbook_score needle m =
     (if needle = [] \<or> str_contains needle (runbook_hay m)
      then 1 + length (filter (\<lambda>signal. str_contains needle (to_ascii_lowercase signal)) (rb_signals m))
      else 0)"

text \<open>Sorted by falling score and then by id; the sort is stable.\<close>

definition runbook_search :: "string \<Rightarrow> string option \<Rightarrow> RunbookCatalog \<Rightarrow> RunbookMeta list" where
  "runbook_search query service catalog =
     (let needle = to_ascii_lowercase query;
          candidates = filter (\<lambda>m. case service of None \<Rightarrow> True
             | Some v \<Rightarrow> list_ex (\<lambda>item. eq_ignore_ascii_case item v) (rb_services m)) (map runbook_meta catalog);
          scored = filter (\<lambda>m. 0 < runbook_score needle m) candidates
      in sort_key (\<lambda>m. - int (runbook_score needle m)) (sort_key rb_id scored))"

text \<open>\<open>max_by_key\<close>: the last of the greatest.\<close>

fun latest_runbook :: "Runbook list \<Rightarrow> Runbook option" where
  "latest_runbook [] = None"
| "latest_runbook (r # rs) = (case latest_runbook rs of None \<Rightarrow> Some r
     | Some s \<Rightarrow> if rb_version (runbook_meta r) \<le> rb_version (runbook_meta s) then Some s else Some r)"

definition runbook_read :: "string \<Rightarrow> nat option \<Rightarrow> RunbookCatalog \<Rightarrow> Runbook result" where
  "runbook_read i version catalog =
     (if str_contains ''..'' i \<or> CHR ''/'' \<in> set i \<or> CHR 0x5C \<in> set i
      then Inl (OpsCodexError.Policy ''runbook id cannot contain path segments'')
      else ok_or (OpsCodexError.NotFound (''runbook '' @ i))
        (latest_runbook (filter (\<lambda>r. case version of None \<Rightarrow> True | Some v \<Rightarrow> rb_version (runbook_meta r) = v)
           (filter (\<lambda>r. rb_id (runbook_meta r) = i) catalog))))"

section \<open>Lemmas\<close>

definition runbook_key :: "Runbook \<Rightarrow> string \<times> nat" where
  "runbook_key r = (rb_id (runbook_meta r), rb_version (runbook_meta r))"

lemma runbook_insert_distinct:
  "distinct (map runbook_key c) \<Longrightarrow> runbook_insert r c = Inr c' \<Longrightarrow> distinct (map runbook_key c') \<and> set c' = insert r (set c)"
proof -
  assume c: "distinct (map runbook_key c)" and r: "runbook_insert r c = Inr c'"
  from r have "c' = c @ [r]" and "\<forall>x \<in> set c. runbook_key x \<noteq> runbook_key r"
    by (auto simp: runbook_insert_def runbook_key_def list_ex_iff split: if_splits)
  with c show ?thesis by auto
qed

lemma load_entries_distinct:
  "load_entries E yaml es c = Inr c' \<Longrightarrow> distinct (map runbook_key c) \<Longrightarrow>
     (\<And>r. r \<in> set c \<Longrightarrow> 0 < rb_version (runbook_meta r)) \<Longrightarrow>
     distinct (map runbook_key c') \<and> (\<forall>r \<in> set c'. 0 < rb_version (runbook_meta r))"
proof (induction E yaml es c rule: load_entries.induct)
  case (3 E yaml path content es c)
  show ?case
  proof (cases "is_markdown path")
    case True
    with "3.prems"(1) obtain source r c1 where s: "content = Inr source" "parse_runbook E yaml source = Inr r"
        "runbook_insert r c = Inr c1" "load_entries E yaml es c1 = Inr c'"
      by (auto simp: and_then_Inr_iff split: sum.splits)
    have "0 < rb_version (runbook_meta r)" using s(2) by (auto simp: parse_runbook_def and_then_Inr_iff split: if_splits)
    with "3.IH"(2) [of c1] s True "3.prems"(2,3) runbook_insert_distinct [OF "3.prems"(2) s(3)] show ?thesis by auto
  qed (use "3.IH"(1) "3.prems" in simp)
qed auto

lemma latest_runbook_iff:
  "distinct (map runbook_key rs) \<Longrightarrow> (\<And>r. r \<in> set rs \<Longrightarrow> rb_id (runbook_meta r) = i) \<Longrightarrow>
     latest_runbook rs = Some r \<longleftrightarrow> r \<in> set rs \<and> (\<forall>s \<in> set rs. rb_version (runbook_meta s) \<le> rb_version (runbook_meta r))"
proof (induction rs arbitrary: r)
  case (Cons a rs)
  have IH: "latest_runbook rs = Some s \<longleftrightarrow>
      s \<in> set rs \<and> (\<forall>x \<in> set rs. rb_version (runbook_meta x) \<le> rb_version (runbook_meta s))" for s
    using Cons by simp
  have other: "rb_version (runbook_meta x) \<noteq> rb_version (runbook_meta a)" if "x \<in> set rs" for x
  proof -
    have "rb_id (runbook_meta x) = i" "rb_id (runbook_meta a) = i" using Cons.prems(2) that by auto
    moreover from that have "runbook_key x \<in> runbook_key ` set rs" by (rule imageI)
    then have "runbook_key x \<noteq> runbook_key a" using Cons.prems(1) by auto
    ultimately show ?thesis by (simp add: runbook_key_def)
  qed
  show ?case
  proof (cases "latest_runbook rs")
    case None
    then have "rs = []" by (cases rs) (auto split: option.splits if_splits)
    then show ?thesis by auto
  next
    case (Some s)
    with IH have s: "s \<in> set rs" "\<And>x. x \<in> set rs \<Longrightarrow> rb_version (runbook_meta x) \<le> rb_version (runbook_meta s)" by auto
    show ?thesis
    proof (cases "rb_version (runbook_meta a) \<le> rb_version (runbook_meta s)")
      case True
      with Some IH [of r] other [of r] other [OF s(1)] s show ?thesis by (auto dest: le_antisym)
    next
      case False
      then show ?thesis using Some s other [of r] by (auto intro: le_trans) (meson le_trans nle_le not_le)+
    qed
  qed
qed simp

section \<open>Properties\<close>

text \<open>
  A runbook is found by its id and version. A catalogue that was loaded holds no two runbooks of one id
  and version; reading an id gives a runbook of that id, of the version that was asked for or else the
  newest one, reading fails only when there is none, and an id with path segments is refused.
\<close>

theorem runbook_read_is_latest:
  assumes "load_runbooks E yaml read_dir directory = Inr catalog"
  shows "distinct (map runbook_key catalog) \<and>
    (case runbook_read i version catalog of
       Inr r \<Rightarrow> r \<in> set catalog \<and> rb_id (runbook_meta r) = i \<and>
         (case version of Some v \<Rightarrow> rb_version (runbook_meta r) = v
          | None \<Rightarrow> \<forall>s \<in> set catalog. rb_id (runbook_meta s) = i \<longrightarrow> rb_version (runbook_meta s) \<le> rb_version (runbook_meta r))
     | Inl (OpsCodexError.NotFound _) \<Rightarrow>
         \<not> (\<exists>s \<in> set catalog. rb_id (runbook_meta s) = i \<and> (version = None \<or> version = Some (rb_version (runbook_meta s))))
     | Inl _ \<Rightarrow> str_contains ''..'' i \<or> CHR ''/'' \<in> set i \<or> CHR 0x5C \<in> set i)"
proof (intro conjI)
  from assms load_entries_distinct [of E yaml _ "[]" catalog]
  show distinct: "distinct (map runbook_key catalog)"
    by (auto simp: load_runbooks_def split: option.splits sum.splits)
  let ?found = "filter (\<lambda>r. case version of None \<Rightarrow> True | Some v \<Rightarrow> rb_version (runbook_meta r) = v)
    (filter (\<lambda>r. rb_id (runbook_meta r) = i) catalog)"
  have latest: "latest_runbook ?found = Some r \<longleftrightarrow>
      r \<in> set ?found \<and> (\<forall>s \<in> set ?found. rb_version (runbook_meta s) \<le> rb_version (runbook_meta r))" for r
    by (rule latest_runbook_iff [where i = i]) (use distinct in \<open>auto simp: distinct_map_filter\<close>)
  have none: "latest_runbook rs = None \<longleftrightarrow> rs = []" for rs
    by (cases rs) (auto split: option.splits)
  show "case runbook_read i version catalog of
       Inr r \<Rightarrow> r \<in> set catalog \<and> rb_id (runbook_meta r) = i \<and>
         (case version of Some v \<Rightarrow> rb_version (runbook_meta r) = v
          | None \<Rightarrow> \<forall>s \<in> set catalog. rb_id (runbook_meta s) = i \<longrightarrow> rb_version (runbook_meta s) \<le> rb_version (runbook_meta r))
     | Inl (OpsCodexError.NotFound _) \<Rightarrow>
         \<not> (\<exists>s \<in> set catalog. rb_id (runbook_meta s) = i \<and> (version = None \<or> version = Some (rb_version (runbook_meta s))))
     | Inl _ \<Rightarrow> str_contains ''..'' i \<or> CHR ''/'' \<in> set i \<or> CHR 0x5C \<in> set i"
  proof (cases "latest_runbook ?found")
    case None
    with none have "?found = []" by blast
    then show ?thesis using None by (auto simp: runbook_read_def filter_empty_conv split: option.splits)
  next
    case (Some r)
    with latest [of r] show ?thesis by (auto simp: runbook_read_def split: option.splits)
  qed
qed

text \<open>A directory with two versions of one runbook and a file of another kind.\<close>

definition some_front :: "string \<Rightarrow> string + RunbookFront" where
  "some_front front = Inr \<lparr>rf_id = ''disk'', rf_title = ''Disk full'', rf_services = [''db''], rf_signals = [], rf_tags = [],
     rf_version = length front\<rparr>"

definition some_directory :: "string \<Rightarrow> (string + dir_entry list) option" where
  "some_directory path = Some (Inr [DirEntry ''r/a.md'' (Inr (''---11'' @ CHR 0x0A # ''---first'')),
     DirEntry ''r/notes.txt'' (Inl ''never read''), DirEntry ''r/b.md'' (Inr (''---1'' @ CHR 0x0A # ''---second''))])"

lemma some_directory_loads:
  "is_ok (load_runbooks demo_ext some_front some_directory (Some ''r'')) \<and>
   (case runbook_read ''disk'' None (case load_runbooks demo_ext some_front some_directory (Some ''r'') of Inr c \<Rightarrow> c | Inl _ \<Rightarrow> []) of
      Inr r \<Rightarrow> runbook_body r = ''first'' | Inl _ \<Rightarrow> False)"
  by code_simp

lemma runbook_read_is_latest_witness:
  "\<exists>catalog. load_runbooks demo_ext some_front some_directory (Some ''r'') = Inr catalog \<and>
     distinct (map runbook_key catalog) \<and>
     (case runbook_read ''disk'' None catalog of Inr r \<Rightarrow> r \<in> set catalog \<and> runbook_body r = ''first'' | Inl _ \<Rightarrow> False)"
proof -
  from some_directory_loads obtain catalog where c: "load_runbooks demo_ext some_front some_directory (Some ''r'') = Inr catalog"
    by (auto simp: is_ok_iff)
  from some_directory_loads c
  obtain r where r: "runbook_read ''disk'' None catalog = Inr r" "runbook_body r = ''first''" by (auto split: sum.splits)
  from runbook_read_is_latest [OF c, of "''disk''" None] r(1)
  have "distinct (map runbook_key catalog)" and "r \<in> set catalog" by auto
  with c r show ?thesis by auto
qed

text \<open>
  A search keeps exactly the runbooks of the service that mention the query, those with more matching
  signals first.
\<close>

lemma runbook_search_set:
  "m \<in> set (runbook_search query service catalog) \<longleftrightarrow> m \<in> runbook_meta ` set catalog \<and>
     0 < runbook_score (to_ascii_lowercase query) m \<and>
     (case service of None \<Rightarrow> True | Some v \<Rightarrow> list_ex (\<lambda>item. eq_ignore_ascii_case item v) (rb_services m))"
  by (auto simp: runbook_search_def Let_def)

lemma runbook_search_sorted:
  "sorted_wrt (\<lambda>a b. runbook_score (to_ascii_lowercase query) b \<le> runbook_score (to_ascii_lowercase query) a)
     (runbook_search query service catalog)"
proof -
  have "sorted (map (\<lambda>m. - int (runbook_score (to_ascii_lowercase query) m)) (runbook_search query service catalog))"
    by (simp add: runbook_search_def Let_def)
  then show ?thesis by (simp add: sorted_map)
qed

end
