(* ===== verification/Tools.thy ===== *)
theory Tools
  imports Agent Config Extension Mcp Runbook
begin

text \<open>
  The built-in tools (\<open>src/tools\<close>): queries to Prometheus, Loki and Tempo, HTTP reads, container logs,
  Kubernetes reads, runbooks, topology and the shell. Each is its constructor and its call: the arguments
  as serde decodes them, their validation, the requests or the process, and the evidence. The network,
  processes, time and serde are parameters. Requests without a time limit of their own carry the limit 0
  and are never answered by a timeout.
\<close>

section \<open>The outside\<close>

text \<open>How a command ends: it does not start, the turn is cancelled first, or it prints and exits.\<close>

datatype command_end = CommandFailed string | CommandCancelled | CommandDone "int option" string bytes bytes

record 'w tool_env =
  te_ext :: ext
  te_io :: "'w io"
  te_cancelled :: "'w \<Rightarrow> bool"
  te_elapsed_ms :: "'w \<Rightarrow> nat \<times> 'w"
  te_run :: "string \<Rightarrow> string list \<Rightarrow> 'w \<Rightarrow> command_end \<times> 'w"
  te_second :: time
  te_timestamp :: "time \<Rightarrow> int"
  te_nanos :: "time \<Rightarrow> int option"
  te_parse_time :: "string \<Rightarrow> time option"

definition show_int :: "int \<Rightarrow> string" where
  "show_int i = (if i < 0 then ''-'' else []) @ show_nat (nat \<bar>i\<bar>)"

definition refuse_cancelled :: "'w tool_env \<Rightarrow> ('w, unit) op" where
  "refuse_cancelled T = sgets (\<lambda>w. if te_cancelled T w then Inl OpsCodexError.Cancelled else Inr ())"

definition decode_args :: "(string \<Rightarrow> OpsCodexError) \<Rightarrow> string + 'a \<Rightarrow> ('w, 'a) op" where
  "decode_args wrong r = slift (case r of Inl err \<Rightarrow> Inl (wrong err) | Inr a \<Rightarrow> Inr a)"

abbreviation invalid_query :: "string \<Rightarrow> OpsCodexError" where
  "invalid_query \<equiv> OpsCodexError.Connector ConnectorClass.InvalidQuery"

text \<open>The evidence of a call: when it was made and how long it took.\<close>

definition timed_evidence :: "'w tool_env \<Rightarrow> string \<Rightarrow> ('w, EvidenceMeta) op" where
  "timed_evidence T source =
     sbind (sask (io_now (te_io T))) (\<lambda>now.
     sbind (sask (te_elapsed_ms T)) (\<lambda>ms. sret (with_duration_ms ms (new_evidence now source))))"

text \<open>A read; the token is checked while waiting for the answer.\<close>

definition get_of :: "(string \<times> string) list \<Rightarrow> Url \<Rightarrow> HttpRequest" where
  "get_of headers url = \<lparr>rq_method = GET, rq_url = url, rq_headers = headers, rq_bearer = None, rq_body = None, rq_timeout_secs = 0\<rparr>"

definition send_read :: "'w io \<Rightarrow> (string \<Rightarrow> OpsCodexError) \<Rightarrow> HttpRequest \<Rightarrow> ('w, nat \<times> BodyEvent list) op" where
  "send_read I failed rq =
     sbind (sask (io_send I rq)) (\<lambda>sent. slift (case sent of
         SendCancelled \<Rightarrow> Inl OpsCodexError.Cancelled
       | SendTimedOut \<Rightarrow> Inl (failed [])
       | SendFailed err \<Rightarrow> Inl (failed err)
       | SendResponse status body \<Rightarrow> Inr (status, body)))"

text \<open>\<open>text().await.unwrap_or_default()\<close>, for an answer in UTF-8.\<close>

definition body_text :: "BodyEvent list \<Rightarrow> string" where
  "body_text body = (case whole_body body of Inl _ \<Rightarrow> [] | Inr bs \<Rightarrow> from_utf8_lossy bs)"

definition cut_text :: "bool \<Rightarrow> bytes \<Rightarrow> nat \<Rightarrow> string \<times> bool" where
  "cut_text truncated body limit =
     (if truncated then truncate_output_with_marker body limit else truncate_output body limit)"

definition raw_json :: "string \<Rightarrow> json" where
  "raw_json txt = JObj [(''raw'', JStr txt), (''truncated'', JBool True)]"

text \<open>The base address of a service: HTTP, without query and fragment, and the path of the interface.\<close>

definition service_url :: "'w io \<Rightarrow> string \<Rightarrow> bool \<Rightarrow> string \<Rightarrow> string \<Rightarrow> Url result" where
  "service_url I service needs_host path base =
     (case url_parse I base of
        Inl err \<Rightarrow> Inl (OpsCodexError.Tool (''invalid '' @ service @ '' URL: '' @ err))
      | Inr u \<Rightarrow>
          if url_scheme u \<notin> {''http'', ''https''}
          then Inl (OpsCodexError.Tool (service @ '' URL must use http or https''))
          else if needs_host \<and> url_host u = None
          then Inl (OpsCodexError.Tool (service @ '' URL must include a host''))
          else Inr (url_set_path I (trim_end_char CHR ''/'' (url_path u) @ path) (u\<lparr>url_query := None, url_fragment := None\<rparr>)))"

section \<open>Prometheus\<close>

record PromqlTool =
  pq_endpoint :: Url
  pq_max_output_bytes :: nat

definition new_promql :: "'w io \<Rightarrow> string \<Rightarrow> nat \<Rightarrow> PromqlTool result" where
  "new_promql I base max_output_bytes =
     and_then (service_url I ''Prometheus'' True ''/api/v1/query'' base) (\<lambda>u.
       Inr \<lparr>pq_endpoint = u, pq_max_output_bytes = max max_output_bytes 1\<rparr>)"

definition promql_query :: "'w tool_env \<Rightarrow> PromqlTool \<Rightarrow> string + string \<Rightarrow> ('w, ToolOutput) op" where
  "promql_query T t arguments =
     sbind (refuse_cancelled T) (\<lambda>_.
     sbind (decode_args (\<lambda>err. OpsCodexError.Tool (''invalid promql_query arguments: '' @ err)) arguments) (\<lambda>query.
     if trim query = [] then sfail (OpsCodexError.Tool ''promql_query query cannot be empty'')
     else
       sbind (send_read (te_io T) (\<lambda>err. OpsCodexError.Tool (''Prometheus request failed: '' @ err))
           (get_of [] (url_append_pairs (te_io T) [(''query'', query)] (pq_endpoint t)))) (\<lambda>(status, body).
       if \<not> is_success status
       then sfail (OpsCodexError.Tool (''Prometheus returned HTTP '' @ status_display (te_io T) status))
       else
         sbind (slift (read_bounded_body body (pq_max_output_bytes t))) (\<lambda>(bs, stream_cut).
         let (txt, text_cut) = cut_text stream_cut bs (pq_max_output_bytes t); truncated = stream_cut \<or> text_cut in
         sbind (slift (if truncated then Inr (raw_json txt)
             else case json_parse (te_io T) bs of
               Inl err \<Rightarrow> Inl (OpsCodexError.Tool (''invalid Prometheus response: '' @ err)) | Inr j \<Rightarrow> Inr j)) (\<lambda>content.
         sbind (timed_evidence T ''prometheus'') (\<lambda>m.
           sret \<lparr>to_content = content, to_evidence = with_truncated truncated (with_query query m)\<rparr>))))))"

section \<open>Loki\<close>

record LokiTool =
  lk_endpoint :: Url
  lk_tenant_header :: string
  lk_tenant :: "string option"
  lk_max_range_seconds :: nat
  lk_max_lines :: nat
  lk_max_output_bytes :: nat

definition new_loki :: "'w io \<Rightarrow> string \<Rightarrow> string \<Rightarrow> string option \<Rightarrow> nat \<Rightarrow> nat \<Rightarrow> nat \<Rightarrow> LokiTool result" where
  "new_loki I base tenant_header tenant max_range_seconds max_lines max_output_bytes =
     and_then (service_url I ''Loki'' False ''/loki/api/v1/query_range'' base) (\<lambda>u.
       Inr \<lparr>lk_endpoint = u, lk_tenant_header = tenant_header, lk_tenant = tenant,
            lk_max_range_seconds = max max_range_seconds 1, lk_max_lines = max max_lines 1,
            lk_max_output_bytes = max max_output_bytes 1\<rparr>)"

record LogQueryArguments =
  lq_query :: string
  lq_start :: time
  lq_end :: time
  lq_limit :: "nat option"
  lq_direction :: "string option"

text \<open>The seconds between two instants, rounded down.\<close>

definition range_seconds :: "'w tool_env \<Rightarrow> time \<Rightarrow> time \<Rightarrow> nat" where
  "range_seconds T first final = nat ((final - first) div te_second T)"

definition check_log_query :: "'w tool_env \<Rightarrow> LokiTool \<Rightarrow> LogQueryArguments \<Rightarrow> (nat \<times> string) result" where
  "check_log_query T t a =
     (if trim (lq_query a) = [] then Inl (invalid_query ''log_query query cannot be empty'')
      else if lq_end a < lq_start a then Inl (invalid_query ''log_query end must be after start'')
      else if lk_max_range_seconds t < range_seconds T (lq_start a) (lq_end a)
      then Inl (invalid_query (''log_query range '' @ show_nat (range_seconds T (lq_start a) (lq_end a)) @
        ''s exceeds max '' @ show_nat (lk_max_range_seconds t) @ ''s''))
      else let limit = min (or_default (lk_max_lines t) (lq_limit a)) (lk_max_lines t);
               direction = str_or ''backward'' (lq_direction a)
           in if direction \<notin> {''forward'', ''backward''} then Inl (invalid_query ''direction must be forward or backward'')
              else Inr (limit, direction))"

definition nanos_or_zero :: "'w tool_env \<Rightarrow> time \<Rightarrow> int" where
  "nanos_or_zero T i = (case te_nanos T i of None \<Rightarrow> 0 | Some n \<Rightarrow> n)"

definition loki_request :: "'w tool_env \<Rightarrow> LokiTool \<Rightarrow> LogQueryArguments \<Rightarrow> nat \<Rightarrow> string \<Rightarrow> HttpRequest" where
  "loki_request T t a limit direction =
     get_of (case lk_tenant t of None \<Rightarrow> [] | Some tenant \<Rightarrow> [(lk_tenant_header t, tenant)])
       (url_append_pairs (te_io T) [(''query'', lq_query a), (''start'', show_int (nanos_or_zero T (lq_start a))),
          (''end'', show_int (nanos_or_zero T (lq_end a))), (''limit'', show_nat limit), (''direction'', direction)]
          (lk_endpoint t))"

text \<open>One attempt: a failing status is an error with the start of its body.\<close>

definition fetch_once :: "'w tool_env \<Rightarrow> string \<Rightarrow> nat \<Rightarrow> HttpRequest \<Rightarrow> ('w, bytes \<times> bool) op" where
  "fetch_once T service limit rq =
     sbind (send_read (te_io T) (OpsCodexError.Connector ConnectorClass.Unavailable) rq) (\<lambda>(status, body).
       if \<not> is_success status then sfail (http_status_error (te_io T) service status (body_text body))
       else slift (read_bounded_body body limit))"

definition summarize_loki :: "json \<Rightarrow> string" where
  "summarize_loki v = ''Loki returned '' @ show_nat (case json_pointer [''data'', ''result''] v of
     Some (JArr xs) \<Rightarrow> length xs | _ \<Rightarrow> 0) @ '' log stream(s)''"

definition log_query :: "'w tool_env \<Rightarrow> LokiTool \<Rightarrow> string + LogQueryArguments \<Rightarrow> ('w, ToolOutput) op" where
  "log_query T t arguments =
     sbind (refuse_cancelled T) (\<lambda>_.
     sbind (decode_args invalid_query arguments) (\<lambda>a.
     sbind (slift (check_log_query T t a)) (\<lambda>(limit, direction).
     sbind (retry_readonly (te_io T) 3 (fetch_once T ''Loki'' (lk_max_output_bytes t) (loki_request T t a limit direction))) (\<lambda>(bs, stream_cut).
     let (txt, text_cut) = cut_text stream_cut bs (lk_max_output_bytes t); truncated = stream_cut \<or> text_cut in
     sbind (slift (if truncated then Inr (raw_json txt) else parse_body (te_io T) bs)) (\<lambda>parsed.
     sbind (timed_evidence T ''loki'') (\<lambda>m.
       sret \<lparr>to_content = parsed, to_evidence = with_time_range (lq_start a, lq_end a)
         (with_summary (summarize_loki parsed) (with_truncated truncated (with_query (lq_query a) m)))\<rparr>))))))"

section \<open>Tempo\<close>

record TraceSearchTool =
  ts_endpoint :: Url
  ts_max_range_seconds :: nat
  ts_max_output_bytes :: nat

record TraceGetTool =
  tg_base :: Url
  tg_max_output_bytes :: nat

definition new_trace_search :: "'w io \<Rightarrow> string \<Rightarrow> nat \<Rightarrow> nat \<Rightarrow> TraceSearchTool result" where
  "new_trace_search I base max_range_seconds max_output_bytes =
     and_then (service_url I ''Tempo'' False ''/api/search'' base) (\<lambda>u.
       Inr \<lparr>ts_endpoint = u, ts_max_range_seconds = max max_range_seconds 1, ts_max_output_bytes = max max_output_bytes 1\<rparr>)"

definition new_trace_get :: "'w io \<Rightarrow> string \<Rightarrow> nat \<Rightarrow> TraceGetTool result" where
  "new_trace_get I base max_output_bytes =
     and_then (service_url I ''Tempo'' False ''/'' base) (\<lambda>u.
       Inr \<lparr>tg_base = u, tg_max_output_bytes = max max_output_bytes 1\<rparr>)"

record TraceSearchArguments =
  sa_service :: "string option"
  sa_start :: time
  sa_end :: time
  sa_min_duration :: "string option"
  sa_limit :: "nat option"

definition validate_range :: "'w tool_env \<Rightarrow> time \<Rightarrow> time \<Rightarrow> nat \<Rightarrow> unit result" where
  "validate_range T first final max_range_seconds =
     (if final < first then Inl (invalid_query ''end must be after start'')
      else if max_range_seconds < range_seconds T first final
      then Inl (invalid_query (''range '' @ show_nat (range_seconds T first final) @ ''s exceeds max '' @
        show_nat max_range_seconds @ ''s''))
      else Inr ())"

definition fetch_trace_once :: "'w tool_env \<Rightarrow> nat \<Rightarrow> HttpRequest \<Rightarrow> ('w, bytes \<times> bool) op" where
  "fetch_trace_once T limit rq =
     sbind (send_read (te_io T) (OpsCodexError.Connector ConnectorClass.Unavailable) rq) (\<lambda>(status, body).
       if status = 404 then sfail (invalid_query ''trace not found'')
       else if \<not> is_success status then sfail (http_status_error (te_io T) ''Tempo'' status (body_text body))
       else slift (read_bounded_body body limit))"

definition fetch_bounded :: "'w tool_env \<Rightarrow> Url \<Rightarrow> (string \<times> string) list \<Rightarrow> nat \<Rightarrow> ('w, bytes \<times> bool) op" where
  "fetch_bounded T url pairs limit =
     retry_readonly (te_io T) 3 (fetch_trace_once T limit (get_of [] (url_append_pairs (te_io T) pairs url)))"

text \<open>A body that is not JSON becomes a text.\<close>

definition decode_trace :: "'w tool_env \<Rightarrow> bytes \<Rightarrow> bool \<Rightarrow> nat \<Rightarrow> json" where
  "decode_trace T body truncated limit =
     (if truncated then raw_json (fst (truncate_output_with_marker body limit))
      else case json_parse (te_io T) body of
        Inr v \<Rightarrow> v
      | Inl _ \<Rightarrow> JStr (fst (truncate_output body limit)))"

definition count_entries :: "string \<Rightarrow> json \<Rightarrow> nat" where
  "count_entries key v = (case json_get key v of Some (JArr xs) \<Rightarrow> length xs | _ \<Rightarrow> 0)"

definition summarize_trace :: "json \<Rightarrow> string" where
  "summarize_trace v = ''Tempo trace with '' @ show_nat (count_entries ''batches'' v) @ '' resource batch(es)''"

text \<open>\<open>show\<close> is the debug form of the optional service name.\<close>

definition trace_search ::
    "'w tool_env \<Rightarrow> (string option \<Rightarrow> string) \<Rightarrow> TraceSearchTool \<Rightarrow> string + TraceSearchArguments \<Rightarrow> ('w, ToolOutput) op" where
  "trace_search T show t arguments =
     sbind (decode_args invalid_query arguments) (\<lambda>a.
     sbind (slift (validate_range T (sa_start a) (sa_end a) (ts_max_range_seconds t))) (\<lambda>_.
     let limit = min (or_default 20 (sa_limit a)) 50;
         pairs = [(''start'', show_int (te_timestamp T (sa_start a))), (''end'', show_int (te_timestamp T (sa_end a))),
                  (''limit'', show_nat limit)]
               @ (case sa_service a of None \<Rightarrow> [] | Some service \<Rightarrow> [(''tags'', ''service.name='' @ service)])
               @ (case sa_min_duration a of None \<Rightarrow> [] | Some d \<Rightarrow> [(''minDuration'', d)]) in
     sbind (fetch_bounded T (ts_endpoint t) pairs (ts_max_output_bytes t)) (\<lambda>(bs, truncated).
     let content = decode_trace T bs truncated (ts_max_output_bytes t) in
     sbind (timed_evidence T ''tempo'') (\<lambda>m.
       sret \<lparr>to_content = content, to_evidence = with_time_range (sa_start a, sa_end a)
         (with_summary (''Tempo search returned '' @ show_nat (count_entries ''traces'' content) @ '' trace(s)'')
         (with_truncated truncated (with_query (''search service='' @ show (sa_service a)) m)))\<rparr>))))"

definition trace_get :: "'w tool_env \<Rightarrow> TraceGetTool \<Rightarrow> string + string \<Rightarrow> ('w, ToolOutput) op" where
  "trace_get T t arguments =
     sbind (decode_args invalid_query arguments) (\<lambda>trace_id.
     if trim trace_id = [] \<or> \<not> list_all is_ascii_hexdigit trace_id
     then sfail (invalid_query ''trace_id must be hexadecimal'')
     else
       let url = url_set_path (te_io T) (trim_end_char CHR ''/'' (url_path (tg_base t)) @ ''/api/traces/'' @ trace_id) (tg_base t) in
       sbind (fetch_bounded T url [] (tg_max_output_bytes t)) (\<lambda>(bs, truncated).
       let raw = decode_trace T bs truncated (tg_max_output_bytes t); summary = summarize_trace raw in
       sbind (timed_evidence T ''tempo'') (\<lambda>m.
         sret \<lparr>to_content = JObj [(''raw'', raw), (''summary'', JStr summary), (''trace_id'', JStr trace_id),
                 (''truncated'', JBool truncated)],
               to_evidence = with_content_type ''application/json'' (with_summary summary
                 (with_truncated truncated (with_query (''trace_get '' @ trace_id) m)))\<rparr>)))"

section \<open>HTTP reads\<close>

record HttpGetTool =
  hg_allowed_hosts :: "string list"
  hg_max_output_bytes :: nat

definition normalize_host :: "string \<Rightarrow> string" where
  "normalize_host host = to_ascii_lowercase (trim_end_char CHR ''.'' (trim host))"

definition new_http_get :: "string list \<Rightarrow> nat \<Rightarrow> HttpGetTool" where
  "new_http_get allowed_hosts max_output_bytes =
     \<lparr>hg_allowed_hosts = map normalize_host allowed_hosts, hg_max_output_bytes = max max_output_bytes 1\<rparr>"

definition validate_http_url :: "'w io \<Rightarrow> HttpGetTool \<Rightarrow> string \<Rightarrow> Url result" where
  "validate_http_url I t v =
     and_then (case url_parse I v of Inl err \<Rightarrow> Inl (OpsCodexError.Tool (''invalid URL: '' @ err)) | Inr u \<Rightarrow> Inr u) (\<lambda>url.
     if url_scheme url \<notin> {''http'', ''https''} then Inl (OpsCodexError.Policy ''http_get only permits http and https URLs'')
     else if url_username url \<noteq> [] \<or> url_password url \<noteq> None
     then Inl (OpsCodexError.Policy ''http_get URLs cannot contain credentials'')
     else if url_fragment url \<noteq> None then Inl (OpsCodexError.Policy ''http_get URLs cannot contain fragments'')
     else and_then (ok_or (OpsCodexError.Policy ''http_get URL must include a host'') (map_option normalize_host (url_host url))) (\<lambda>host.
       if host \<notin> set (hg_allowed_hosts t) then Inl (OpsCodexError.Policy (''http_get host `'' @ host @ ''` is not allowlisted''))
       else Inr url))"

text \<open>
  What else the answer to a read tells: the address it came from, which differs after a redirect, and its
  content type. Whether redirects are followed is a setting of the client, so it is a parameter.
\<close>

record answer_head =
  ah_url :: Url
  ah_content_type :: string

definition is_json_type :: "string \<Rightarrow> bool" where
  "is_json_type content_type = eq_ignore_ascii_case (trim (hd (split_on CHR '';'' content_type))) ''application/json''"

definition http_get ::
    "'w tool_env \<Rightarrow> ('w \<Rightarrow> answer_head \<times> 'w) \<Rightarrow> (Url \<Rightarrow> string) \<Rightarrow> HttpGetTool \<Rightarrow> string + string \<Rightarrow> ('w, ToolOutput) op" where
  "http_get T head show_url t arguments =
     sbind (refuse_cancelled T) (\<lambda>_.
     sbind (decode_args (\<lambda>err. OpsCodexError.Tool (''invalid http_get arguments: '' @ err)) arguments) (\<lambda>v.
     sbind (slift (validate_http_url (te_io T) t v)) (\<lambda>url.
     sbind (send_read (te_io T) (\<lambda>err. OpsCodexError.Tool (''HTTP GET failed: '' @ err)) (get_of [] url)) (\<lambda>(status, body).
     sbind (sask head) (\<lambda>h.
     if ah_url h \<noteq> url then sfail (OpsCodexError.Policy ''http_get does not permit redirects'')
     else
       sbind (slift (case read_bounded_body body (hg_max_output_bytes t) of
           Inl OpsCodexError.Cancelled \<Rightarrow> Inl OpsCodexError.Cancelled
         | Inl other \<Rightarrow> Inl (OpsCodexError.Tool (''failed to read HTTP response: '' @ error_to_string other))
         | Inr r \<Rightarrow> Inr r)) (\<lambda>(bs, stream_cut).
       let (txt, text_cut) = cut_text stream_cut bs (hg_max_output_bytes t); truncated = stream_cut \<or> text_cut;
           content = (if \<not> truncated \<and> is_json_type (ah_content_type h)
             then (case json_parse (te_io T) bs of Inr j \<Rightarrow> j | Inl _ \<Rightarrow> JStr txt) else JStr txt) in
       sbind (timed_evidence T ''http'') (\<lambda>m.
         sret \<lparr>to_content = JObj [(''body'', content), (''status'', JNum (int status))],
               to_evidence = with_truncated truncated (with_query (show_url url) m)\<rparr>)))))))"

section \<open>Commands\<close>

text \<open>What a command printed: its output, and behind it, on a line of its own, its errors.\<close>

definition join_output :: "bytes \<Rightarrow> bytes \<Rightarrow> bytes" where
  "join_output out err =
     (if err = [] then out else (if out \<noteq> [] \<and> last out \<noteq> CHR 0x0A then out @ [CHR 0x0A] else out) @ err)"

definition run_command ::
    "'w tool_env \<Rightarrow> string \<Rightarrow> string \<Rightarrow> string \<Rightarrow> string list \<Rightarrow> nat \<Rightarrow> ('w, int option \<times> string \<times> bool) op" where
  "run_command T failed exited program args limit =
     sbind (sask (te_run T program args)) (\<lambda>ended. slift (case ended of
         CommandFailed err \<Rightarrow> Inl (OpsCodexError.Tool (failed @ err))
       | CommandCancelled \<Rightarrow> Inl OpsCodexError.Cancelled
       | CommandDone code status out err \<Rightarrow>
           (case truncate_output (join_output out err) limit of (txt, truncated) \<Rightarrow>
             if code \<noteq> Some 0 then Inl (OpsCodexError.Tool (exited @ status @ '': '' @ txt))
             else Inr (code, txt, truncated))))"

definition exec_command :: "'w tool_env \<Rightarrow> nat \<Rightarrow> string + string \<Rightarrow> ('w, ToolOutput) op" where
  "exec_command T max_output_bytes arguments =
     sbind (refuse_cancelled T) (\<lambda>_.
     sbind (decode_args (\<lambda>err. OpsCodexError.Tool (''invalid exec arguments: '' @ err)) arguments) (\<lambda>command.
     if trim command = [] then sfail (OpsCodexError.Tool ''exec command cannot be empty'')
     else if 16 * 1024 < length command then sfail (OpsCodexError.Tool ''exec command cannot exceed 16 KiB'')
     else
       sbind (run_command T ''failed to execute command: '' ''command exited with '' ''sh'' [''-c'', command] max_output_bytes)
         (\<lambda>(code, txt, truncated).
       sbind (timed_evidence T ''exec'') (\<lambda>m.
         sret \<lparr>to_content = JObj [(''command'', JStr command),
                 (''exit_code'', case code of None \<Rightarrow> JNull | Some n \<Rightarrow> JNum n), (''output'', JStr txt)],
               to_evidence = with_truncated truncated (with_query command m)\<rparr>))))"

record DockerLogsTool =
  dl_allowed_containers :: "string list"
  dl_binary :: string
  dl_max_output_bytes :: nat

definition new_docker_logs :: "string list \<Rightarrow> nat \<Rightarrow> DockerLogsTool" where
  "new_docker_logs allowed max_output_bytes =
     \<lparr>dl_allowed_containers = allowed, dl_binary = ''docker'', dl_max_output_bytes = max max_output_bytes 1\<rparr>"

record DockerLogsArguments =
  da_container :: string
  da_since :: string
  da_tail :: nat

definition default_since :: string where "default_since = ''10m''"
definition default_tail :: nat where "default_tail = 200"

definition docker_args :: "DockerLogsArguments \<Rightarrow> string list" where
  "docker_args a = [''logs'', ''--since'', da_since a, ''--tail'', show_nat (da_tail a), da_container a]"

definition docker_logs :: "'w tool_env \<Rightarrow> DockerLogsTool \<Rightarrow> string + DockerLogsArguments \<Rightarrow> ('w, ToolOutput) op" where
  "docker_logs T t arguments =
     sbind (refuse_cancelled T) (\<lambda>_.
     sbind (decode_args (\<lambda>err. OpsCodexError.Tool (''invalid docker_logs arguments: '' @ err)) arguments) (\<lambda>a.
     if da_container a \<notin> set (dl_allowed_containers t)
     then sfail (OpsCodexError.Policy (''container `'' @ da_container a @ ''` is not allowlisted''))
     else if da_since a = [] \<or> 128 < length (da_since a)
     then sfail (OpsCodexError.Tool ''docker_logs since must contain 1 to 128 characters'')
     else if 10000 < da_tail a then sfail (OpsCodexError.Tool ''docker_logs tail cannot exceed 10000'')
     else
       sbind (run_command T ''failed to run docker logs: '' ''docker logs exited with '' (dl_binary t) (docker_args a)
           (dl_max_output_bytes t)) (\<lambda>(_, logs, truncated).
       sbind (timed_evidence T ''docker'') (\<lambda>m.
         sret \<lparr>to_content = JObj [(''container'', JStr (da_container a)), (''logs'', JStr logs)],
               to_evidence = with_truncated truncated (with_query (''docker logs --since '' @ da_since a @
                 '' --tail '' @ show_nat (da_tail a) @ '' '' @ da_container a) m)\<rparr>))))"

section \<open>Kubernetes\<close>

text \<open>The logs of a pod, redacted; redaction can panic, which is \<open>None\<close>.\<close>

definition pod_logs ::
    "'w io \<Rightarrow> KubernetesClient \<Rightarrow> string \<Rightarrow> string \<Rightarrow> string option \<Rightarrow> nat \<Rightarrow> nat option \<Rightarrow> ('w, string option) op" where
  "pod_logs I c namespace pod container tail_lines since_seconds =
     sbind (slift ensure_get) (\<lambda>_.
     sbind (slift (authorize c ''Pod'' (Some namespace))) (\<lambda>_.
     sbind (slift (kube_join I c (''/api/v1/namespaces/'' @ namespace @ ''/pods/'' @ pod @ ''/log''))) (\<lambda>url.
     let pairs = [(''timestamps'', ''true''), (''tailLines'', show_nat (clamp 1 200 tail_lines))]
           @ (case container of None \<Rightarrow> [] | Some name \<Rightarrow> [(''container'', name)])
           @ (case since_seconds of None \<Rightarrow> [] | Some n \<Rightarrow> [(''sinceSeconds'', show_nat n)]) in
     sbind (send_get_bytes I c (url_append_pairs I pairs url)) (\<lambda>(bs, _).
       sret (map_option fst (redact_text (from_utf8_lossy bs)))))))"

definition opt_json :: "string option \<Rightarrow> json" where
  "opt_json v = (case v of None \<Rightarrow> JNull | Some s \<Rightarrow> JStr s)"

record K8sGetArguments =
  ga_kind :: string
  ga_namespace :: "string option"
  ga_name :: "string option"
  ga_label_selector :: "string option"
  ga_limit :: "nat option"

definition k8s_get :: "'w tool_env \<Rightarrow> KubernetesClient \<Rightarrow> nat \<Rightarrow> string + K8sGetArguments \<Rightarrow> ('w, ToolOutput) op" where
  "k8s_get T c max_output_bytes arguments =
     sbind (decode_args invalid_query arguments) (\<lambda>a.
     sbind (get_resource (te_io T) c (ga_kind a) (ga_namespace a) (ga_name a) (ga_label_selector a)
         (or_default 20 (ga_limit a))) (\<lambda>object.
     let (txt, truncated) = truncate_output (json_bytes (te_ext T) object) max_output_bytes;
         content = (case json_parse (te_io T) txt of Inr v \<Rightarrow> v | Inl _ \<Rightarrow> JObj [(''raw'', JStr txt)]);
         alias = kp_cluster_alias (kc_policy c) in
     sbind (timed_evidence T ''kubernetes'') (\<lambda>m.
       sret \<lparr>to_content = JObj [(''cluster'', JStr alias), (''kind'', JStr (ga_kind a)), (''name'', opt_json (ga_name a)),
               (''namespace'', opt_json (ga_namespace a)), (''object'', content), (''truncated'', JBool truncated)],
             to_evidence = with_truncated truncated
               (with_summary (ga_kind a @ '' '' @ str_or ''list'' (ga_name a) @ '' in '' @ alias)
               (with_query (''GET '' @ alias @ '' '' @ ga_kind a @ '' '' @ str_or ''<list>'' (ga_name a)) m))\<rparr>)))"

record K8sEventArguments =
  ea_namespace :: string
  ea_involved_kind :: "string option"
  ea_involved_name :: "string option"
  ea_reason :: "string option"
  ea_start :: "time option"
  ea_end :: "time option"
  ea_limit :: "nat option"

text \<open>An event whose time cannot be read counts as inside every window.\<close>

definition event_in_window :: "'w tool_env \<Rightarrow> json \<Rightarrow> time \<Rightarrow> time \<Rightarrow> bool" where
  "event_in_window T event first final =
     (let found = (case json_pointer [''lastTimestamp''] event of
            Some v \<Rightarrow> Some v
          | None \<Rightarrow> (case json_pointer [''eventTime''] event of
                Some v \<Rightarrow> Some v
              | None \<Rightarrow> json_pointer [''metadata'', ''creationTimestamp''] event))
      in case Option.bind (Option.bind found json_as_str) (te_parse_time T) of
           Some v \<Rightarrow> first \<le> v \<and> v \<le> final
         | None \<Rightarrow> True)"

definition or_now :: "'w tool_env \<Rightarrow> time option \<Rightarrow> ('w, time) op" where
  "or_now T v = (case v of Some i \<Rightarrow> sret i | None \<Rightarrow> sask (io_now (te_io T)))"

definition k8s_events :: "'w tool_env \<Rightarrow> KubernetesClient \<Rightarrow> string + K8sEventArguments \<Rightarrow> ('w, ToolOutput) op" where
  "k8s_events T c arguments =
     sbind (decode_args invalid_query arguments) (\<lambda>a.
     sbind (list_events (te_io T) c (ea_namespace a) (ea_involved_kind a) (ea_involved_name a) (ea_reason a)
         (or_default 20 (ea_limit a))) (\<lambda>object.
     let items = (case json_get ''items'' object of Some (JArr es) \<Rightarrow> es | _ \<Rightarrow> []);
         events = (case (ea_start a, ea_end a) of
             (Some first, Some final) \<Rightarrow> filter (\<lambda>e. event_in_window T e first final) items
           | _ \<Rightarrow> items);
         alias = kp_cluster_alias (kc_policy c) in
     sbind (sask (io_now (te_io T))) (\<lambda>now.
     sbind (or_now T (ea_start a)) (\<lambda>first.
     sbind (or_now T (ea_end a)) (\<lambda>final.
     sbind (sask (te_elapsed_ms T)) (\<lambda>ms.
       sret \<lparr>to_content = JObj [(''cluster'', JStr alias), (''count'', JNum (int (length events))), (''items'', JArr events),
               (''namespace'', JStr (ea_namespace a))],
             to_evidence = with_duration_ms ms (with_time_range (first, final)
               (with_summary (show_nat (length events) @ '' Kubernetes events in '' @ ea_namespace a)
               (with_query (''EVENTS '' @ alias @ ''/'' @ ea_namespace a) (new_evidence now ''kubernetes''))))\<rparr>))))))"

record K8sLogArguments =
  la_namespace :: string
  la_pod :: string
  la_container :: "string option"
  la_tail_lines :: "nat option"
  la_since_seconds :: "nat option"

text \<open>Calls that can panic end with \<open>None\<close>.\<close>

definition k8s_logs :: "'w tool_env \<Rightarrow> KubernetesClient \<Rightarrow> nat \<Rightarrow> string + K8sLogArguments \<Rightarrow> ('w, ToolOutput option) op" where
  "k8s_logs T c max_output_bytes arguments =
     sbind (decode_args invalid_query arguments) (\<lambda>a.
     sbind (pod_logs (te_io T) c (la_namespace a) (la_pod a) (la_container a) (or_default 100 (la_tail_lines a))
         (la_since_seconds a)) (\<lambda>logs.
     case logs of
       None \<Rightarrow> sret None
     | Some l \<Rightarrow>
         let (txt, truncated) = truncate_output l max_output_bytes; alias = kp_cluster_alias (kc_policy c) in
         sbind (timed_evidence T ''kubernetes'') (\<lambda>m.
           sret (Some \<lparr>to_content = JObj [(''cluster'', JStr alias), (''container'', opt_json (la_container a)),
                   (''logs'', JStr txt), (''namespace'', JStr (la_namespace a)), (''pod'', JStr (la_pod a)),
                   (''truncated'', JBool truncated)],
                 to_evidence = with_truncated truncated
                   (with_summary (''logs from '' @ la_namespace a @ ''/'' @ la_pod a)
                   (with_query (''LOGS '' @ alias @ ''/'' @ la_namespace a @ ''/'' @ la_pod a) m))\<rparr>))))"

section \<open>Runbooks and topology\<close>

definition runbook_meta_json :: "RunbookMeta \<Rightarrow> json" where
  "runbook_meta_json m =
     JObj [(''hash'', JStr (rb_hash m)), (''id'', JStr (rb_id m)), (''services'', JArr (map JStr (rb_services m))),
       (''signals'', JArr (map JStr (rb_signals m))), (''tags'', JArr (map JStr (rb_tags m))),
       (''title'', JStr (rb_title m)), (''version'', JNum (int (rb_version m)))]"

text \<open>Arguments that cannot be decoded search for everything.\<close>

definition runbook_search_tool ::
    "'w tool_env \<Rightarrow> RunbookCatalog \<Rightarrow> string + string \<times> string option \<Rightarrow> ('w, ToolOutput) op" where
  "runbook_search_tool T catalog arguments =
     sbind (refuse_cancelled T) (\<lambda>_.
     let (query, service) = (case arguments of Inr a \<Rightarrow> a | Inl _ \<Rightarrow> ([], None));
         found = runbook_search query service catalog in
     sbind (sask (io_now (te_io T))) (\<lambda>now.
       sret \<lparr>to_content = JObj [(''matches'', JArr (map runbook_meta_json found))],
             to_evidence = with_summary (show_nat (length found) @ '' runbooks matched'')
               (with_query (''search '' @ query) (new_evidence now ''runbook''))\<rparr>))"

definition runbook_excerpt :: "string \<Rightarrow> string option" where
  "runbook_excerpt body =
     (if 8 * 1024 < length body then map_option (\<lambda>s. s @ ELLIPSIS) (str_slice_to (8 * 1024) body) else Some body)"

definition runbook_read_tool ::
    "'w tool_env \<Rightarrow> RunbookCatalog \<Rightarrow> string + string \<times> nat option \<Rightarrow> ('w, ToolOutput option) op" where
  "runbook_read_tool T catalog arguments =
     sbind (refuse_cancelled T) (\<lambda>_.
     sbind (decode_args OpsCodexError.Protocol arguments) (\<lambda>(i, version).
     sbind (slift (runbook_read i version catalog)) (\<lambda>r.
     case runbook_excerpt (runbook_body r) of
       None \<Rightarrow> sret None
     | Some body \<Rightarrow>
         let m = runbook_meta r in
         sbind (sask (io_now (te_io T))) (\<lambda>now.
           sret (Some \<lparr>to_content = JObj [(''body'', JStr body), (''hash'', JStr (rb_hash m)), (''id'', JStr (rb_id m)),
                   (''note'', JStr ''Runbook commands are not executed automatically.''),
                   (''title'', JStr (rb_title m)), (''version'', JNum (int (rb_version m)))],
                 to_evidence = with_summary (rb_title m @ '' ('' @ rb_hash m @ '')'')
                   (with_query (rb_id m @ ''@'' @ show_nat (rb_version m)) (new_evidence now ''runbook''))\<rparr>)))))"

record TopologyArguments =
  ta_depth :: "nat option"
  ta_max_nodes :: "nat option"
  ta_include_stale :: "bool option"

text \<open>\<open>events\<close> is the log of the thread in the store of the call, if it has one; \<open>to_json\<close> is serde.\<close>

definition topology_query_tool ::
    "'w tool_env \<Rightarrow> time \<Rightarrow> (TopologyGraph \<Rightarrow> json) \<Rightarrow> workspace_id \<Rightarrow> (EventEnvelope list result) option \<Rightarrow>
     string + TopologyArguments \<Rightarrow> ('w, ToolOutput) op" where
  "topology_query_tool T minute to_json w events arguments =
     sbind (refuse_cancelled T) (\<lambda>_.
     let a = (case arguments of Inr a \<Rightarrow> a
       | Inl _ \<Rightarrow> \<lparr>ta_depth = None, ta_max_nodes = None, ta_include_stale = None\<rparr>) in
     sbind (slift (ok_or (OpsCodexError.Tool ''topology_query requires an event store'') events)) (\<lambda>read.
     sbind (slift read) (\<lambda>es.
     sbind (sask (io_now (te_io T))) (\<lambda>projected_at.
     sbind (sask (io_now (te_io T))) (\<lambda>queried_at.
     let graph = query_topology queried_at (project_topology (te_ext T) minute w projected_at es)
           \<lparr>tq_depth = or_default 2 (ta_depth a), tq_max_nodes = or_default 32 (ta_max_nodes a),
            tq_include_stale = (case ta_include_stale a of None \<Rightarrow> False | Some b \<Rightarrow> b)\<rparr> in
     sbind (sask (io_now (te_io T))) (\<lambda>now.
       sret \<lparr>to_content = to_json graph,
             to_evidence = with_summary (show_nat (length (tg_nodes graph)) @ '' nodes, '' @ show_nat (length (tg_edges graph)) @ '' edges'')
               (with_query (''workspace '' @ w) (new_evidence now ''topology''))\<rparr>))))))"

end
