(* ===== verification/Install.thy ===== *)
theory Install
  imports Mcp
begin

text \<open>
  The extension catalogue (\<open>src/extensions/catalog.rs\<close>): installing the configured extensions of a
  workspace into its tool registry, one after the other, each of them enabled or listed as disabled with
  its error. A local server that never answers keeps the installation waiting and one that announces a message
  of impossible length makes it panic, which are outcomes of their own here.
\<close>

section \<open>State\<close>

datatype install_end = InstallError OpsCodexError | Hangs | Panics

record 'w inst =
  is_tools :: ToolRegistry
  is_world :: 'w

type_synonym ('w, 'a) iop = "(install_end, 'w inst, 'a) sm"

text \<open>
  What is outside: the operating system, the network, the text of a JSON value, the manifests, and the
  process of a local server, with the pipe to it, when it starts.
\<close>

record 'w installer =
  in_ext :: ext
  in_os :: "'w os"
  in_io :: "'w io"
  in_json_text :: "json \<Rightarrow> string"
  in_yaml :: "string \<Rightarrow> string + CustomToolManifest"
  in_start :: "string \<Rightarrow> string list \<Rightarrow> string option \<Rightarrow> 'w \<Rightarrow> (string + mcp_peer) \<times> 'w"
  in_skills :: skill_files

definition irefuse :: "OpsCodexError \<Rightarrow> ('w, 'a) iop" where
  "irefuse err = sfail (InstallError err)"

definition ilift :: "'a result \<Rightarrow> ('w, 'a) iop" where
  "ilift r = slift (map_sum InstallError id r)"

definition on_inst_world :: "('w, 'a) op \<Rightarrow> ('w, 'a) iop" where
  "on_inst_world m s = (case m (is_world s) of (r, w) \<Rightarrow> (map_sum InstallError id r, s\<lparr>is_world := w\<rparr>))"

definition ilift_call :: "'a call_end \<Rightarrow> ('w, 'a) iop" where
  "ilift_call c = (case c of Answered r \<Rightarrow> ilift r | StillWaiting \<Rightarrow> sfail Hangs | CallPanicked \<Rightarrow> sfail Panics)"

definition register_tool :: "CapabilityDescriptor \<Rightarrow> ('w, unit) iop" where
  "register_tool d s = (case register \<lparr>rt_name = cd_name d, rt_descriptor = d\<rparr> (is_tools s) of
       Inl err \<Rightarrow> (Inl (InstallError err), s) | Inr r \<Rightarrow> (Inr (), s\<lparr>is_tools := r\<rparr>))"

section \<open>Entries\<close>

definition applies_to :: "ExtensionConfigEntry \<Rightarrow> workspace_id \<Rightarrow> bool" where
  "applies_to entry w = (ee_workspaces entry = [] \<or> w \<in> set (ee_workspaces entry))"

definition required_effect :: "ExtensionConfigEntry \<Rightarrow> CapabilityEffect result" where
  "required_effect entry =
     and_then (parse_opt effect_parse (ee_effect entry)) (\<lambda>x.
       ok_or (OpsCodexError.Policy (''extension `'' @ ee_id entry @ ''` requires a local effect override'')) x)"

definition required_recovery :: "ExtensionConfigEntry \<Rightarrow> RecoveryMode result" where
  "required_recovery entry =
     and_then (parse_opt recovery_parse (ee_recovery entry)) (\<lambda>x.
       ok_or (OpsCodexError.Policy (''extension `'' @ ee_id entry @ ''` requires local recovery metadata'')) x)"

definition collect_env :: "(string \<Rightarrow> string option) \<Rightarrow> string list \<Rightarrow> (string \<times> string) list" where
  "collect_env env allowlist = List.map_filter (\<lambda>key. map_option (\<lambda>v. (key, v)) (env key)) allowlist"

definition extension_summary ::
    "ExtensionConfigEntry \<Rightarrow> string \<Rightarrow> string \<Rightarrow> string \<Rightarrow> workspace_id \<Rightarrow> ExtensionHealth \<Rightarrow> CapabilitySummary list \<Rightarrow> ExtensionSummary" where
  "extension_summary entry kind version hash w health capabilities =
     \<lparr>es_id = ee_id entry, es_kind = kind, es_version = version, es_hash = hash,
      es_enabled = (eh_state health \<noteq> Disabled), es_health = health,
      es_workspaces = (if ee_workspaces entry = [] then [w] else ee_workspaces entry), es_capabilities = capabilities\<rparr>"

definition disabled_summary :: "ExtensionConfigEntry \<Rightarrow> workspace_id \<Rightarrow> OpsCodexError \<Rightarrow> ExtensionSummary" where
  "disabled_summary entry w err =
     extension_summary entry (ee_kind entry) (str_or ''unknown'' (ee_version entry)) ''unpinned'' w
       (health_disabled (error_to_string err)) []"

section \<open>Installing one extension\<close>

definition install_custom ::
    "'w installer \<Rightarrow> Config \<Rightarrow> Workspace \<Rightarrow> ExtensionConfigEntry \<Rightarrow> ('w, ExtensionSummary) iop" where
  "install_custom IN config ws entry =
     (if xc_production_safe (cf_extensions config) \<or> \<not> xc_allow_custom_tools (cf_extensions config)
      then irefuse (OpsCodexError.Policy ''custom tools are disabled by extensions policy'')
      else if \<not> ee_trusted_local entry then irefuse (OpsCodexError.Policy ''custom tools require trusted_local'')
      else
        sbind (ilift (ok_or (OpsCodexError.Protocol (''extension `'' @ ee_id entry @ ''` is missing path'')) (ee_path entry))) (\<lambda>path.
        sbind (sgets (\<lambda>s. Inr (is_world s))) (\<lambda>w.
        sbind (ilift (load_custom_manifest (\<lambda>p. os_read (in_os IN) p w) (in_yaml IN) path)) (\<lambda>manifest.
        sbind (ilift (parse_opt effect_parse (ee_effect entry))) (\<lambda>effect.
        sbind (ilift (custom_from_manifest (in_ext IN) (in_os IN) manifest (ee_trusted_local entry) effect (ws_max_effect ws)
            (collect_env (os_env (in_os IN)) (ee_env entry)) (or_default 2 (ee_max_restarts entry)) w)) (\<lambda>tool.
        let d = cu_capability tool in
        sbind (register_tool d) (\<lambda>_.
          sret (extension_summary entry ''custom'' (pv_version (cd_provenance d)) (pv_schema_hash (cd_provenance d))
            (ws_id ws) health_healthy [capability_summary d]))))))))"

text \<open>Every listed tool is registered before the next one is looked at.\<close>

fun register_listed :: "ext \<Rightarrow> McpInstallSpec \<Rightarrow> McpListedTool list \<Rightarrow> ('w, CapabilitySummary list) iop" where
  "register_listed E spec [] = sret []"
| "register_listed E spec (l # ls) =
     sbind (ilift (new_mcp_tool E spec l)) (\<lambda>tool.
     sbind (register_tool (mt_capability tool)) (\<lambda>_.
     sbind (register_listed E spec ls) (\<lambda>rest. sret (capability_summary (mt_capability tool) # rest))))"

definition install_listed ::
    "'w installer \<Rightarrow> Workspace \<Rightarrow> ExtensionConfigEntry \<Rightarrow> string \<Rightarrow> string \<Rightarrow> string \<Rightarrow> McpListedTool list \<Rightarrow> ('w, ExtensionSummary) iop" where
  "install_listed IN ws entry kind origin hashed listed =
     sbind (ilift (required_effect entry)) (\<lambda>effect.
     sbind (ilift (required_recovery entry)) (\<lambda>recovery.
     let version = str_or ''1.0.0'' (ee_version entry) in
     sbind (register_listed (in_ext IN) \<lparr>mi_server_id = ee_id entry, mi_trusted_local = ee_trusted_local entry,
         mi_effect = effect, mi_recovery = recovery, mi_version = version, mi_workspace_max = ws_max_effect ws,
         mi_origin = origin\<rparr> listed) (\<lambda>capabilities.
       sret (extension_summary entry kind version (hash_bytes (in_ext IN) hashed) (ws_id ws) health_healthy capabilities))))"

text \<open>Starting a local server again while it fails and restarts are left.\<close>

fun start_server ::
    "'w installer \<Rightarrow> string \<Rightarrow> string list \<Rightarrow> string option \<Rightarrow> nat \<Rightarrow> ('w, mcp_peer \<times> mcp_conn) iop" where
  "start_server IN command args cwd left s =
     (case spawn_client (in_os IN) (in_json_text IN) (in_start IN command args cwd) command (is_world s) of
        (Answered (Inr client), w) \<Rightarrow> (Inr client, s\<lparr>is_world := w\<rparr>)
      | (StillWaiting, w) \<Rightarrow> (Inl Hangs, s\<lparr>is_world := w\<rparr>)
      | (CallPanicked, w) \<Rightarrow> (Inl Panics, s\<lparr>is_world := w\<rparr>)
      | (Answered (Inl err), w) \<Rightarrow>
          (case left of
             0 \<Rightarrow> (Inl (InstallError err), s\<lparr>is_world := w\<rparr>)
           | Suc n \<Rightarrow> start_server IN command args cwd n (s\<lparr>is_world := w\<rparr>)))"

declare start_server.simps [simp del]

definition install_mcp_stdio ::
    "'w installer \<Rightarrow> Config \<Rightarrow> Workspace \<Rightarrow> ExtensionConfigEntry \<Rightarrow> ('w, ExtensionSummary) iop" where
  "install_mcp_stdio IN config ws entry =
     (if xc_production_safe (cf_extensions config)
      then irefuse (OpsCodexError.Policy ''stdio MCP is disabled by production_safe'')
      else
        sbind (ilift (ok_or (OpsCodexError.Protocol (''extension `'' @ ee_id entry @ ''` is missing command'')) (ee_command entry))) (\<lambda>command.
        sbind (ilift (case ee_cwd entry of None \<Rightarrow> Inr () | Some cwd \<Rightarrow> validate_ext_path cwd)) (\<lambda>_.
        sbind (start_server IN command (ee_args entry) (ee_cwd entry) (new_supervisor (or_default 2 (ee_max_restarts entry)))) (\<lambda>(P, c).
        sbind (ilift_call (fst (list_tools P (in_json_text IN) c))) (\<lambda>listed.
          install_listed IN ws entry ''mcp'' (''mcp-stdio:'' @ ee_id entry) (''mcp-stdio:'' @ ee_id entry) listed)))))"

definition install_mcp_http ::
    "'w installer \<Rightarrow> (Url \<Rightarrow> string) \<Rightarrow> Config \<Rightarrow> Workspace \<Rightarrow> ExtensionConfigEntry \<Rightarrow> ('w, ExtensionSummary) iop" where
  "install_mcp_http IN show_url config ws entry =
     sbind (ilift (ok_or (OpsCodexError.Protocol (''extension `'' @ ee_id entry @ ''` is missing url'')) (ee_url entry))) (\<lambda>raw.
     if xc_production_safe (cf_extensions config) \<and> ee_allowlist_hosts entry = []
     then irefuse (OpsCodexError.Policy ''production_safe MCP HTTP requires an allowlist'')
     else
       sbind (ilift (validate_mcp_http_url (in_io IN) raw (ee_allowlist_hosts entry))) (\<lambda>endpoint.
       sbind (on_inst_world (mcp_http_initialize (in_io IN) (in_json_text IN) endpoint)) (\<lambda>_.
       sbind (on_inst_world (mcp_http_list_tools (in_io IN) (in_json_text IN) endpoint)) (\<lambda>listed.
         install_listed IN ws entry ''mcp_http'' (show_url endpoint) (show_url endpoint) listed))))"

definition install_extension ::
    "'w installer \<Rightarrow> (Url \<Rightarrow> string) \<Rightarrow> Config \<Rightarrow> Workspace \<Rightarrow> ExtensionConfigEntry \<Rightarrow> ('w, ExtensionSummary) iop" where
  "install_extension IN show_url config ws entry =
     (if ee_kind entry = ''custom'' then install_custom IN config ws entry
      else if ee_kind entry = ''mcp'' then install_mcp_stdio IN config ws entry
      else if ee_kind entry = ''mcp_http'' then install_mcp_http IN show_url config ws entry
      else irefuse (OpsCodexError.Protocol (''unsupported extension kind `'' @ ee_kind entry @ ''`'')))"

section \<open>The catalogue\<close>

text \<open>One entry: its summary, or none when it does not apply. A failed installation is listed as disabled.\<close>

definition install_entry ::
    "'w installer \<Rightarrow> (Url \<Rightarrow> string) \<Rightarrow> Config \<Rightarrow> Workspace \<Rightarrow> ExtensionConfigEntry \<Rightarrow> ('w, ExtensionSummary list) iop" where
  "install_entry IN show_url config ws entry s =
     (if \<not> ee_enabled entry \<or> \<not> applies_to entry (ws_id ws) then (Inr [], s)
      else case install_extension IN show_url config ws entry s of
        (Inr summary, s') \<Rightarrow> (Inr [summary], s')
      | (Inl (InstallError err), s') \<Rightarrow> (Inr [disabled_summary entry (ws_id ws) err], s')
      | (Inl halt, s') \<Rightarrow> (Inl halt, s'))"

fun install_entries ::
    "'w installer \<Rightarrow> (Url \<Rightarrow> string) \<Rightarrow> Config \<Rightarrow> Workspace \<Rightarrow> ExtensionConfigEntry list \<Rightarrow> ('w, ExtensionSummary list) iop" where
  "install_entries IN show_url config ws [] = sret []"
| "install_entries IN show_url config ws (e # es) =
     sbind (install_entry IN show_url config ws e) (\<lambda>xs.
     sbind (install_entries IN show_url config ws es) (\<lambda>ys. sret (xs @ ys)))"

text \<open>The skills: one that cannot be loaded, or is there already, is left out.\<close>

fun load_skills :: "ext \<Rightarrow> skill_files \<Rightarrow> workspace_id \<Rightarrow> SkillConfigEntry list \<Rightarrow> SkillCatalog \<Rightarrow> SkillCatalog" where
  "load_skills E F w [] catalog = catalog"
| "load_skills E F w (entry # entries) catalog =
     load_skills E F w entries
       (if \<not> sce_enabled entry \<or> sce_workspaces entry \<noteq> [] \<and> w \<notin> set (sce_workspaces entry) then catalog
        else case load_skill E F (sce_path entry) of
          Inl _ \<Rightarrow> catalog
        | Inr skill \<Rightarrow> (case skill_insert skill catalog of Inl _ \<Rightarrow> catalog | Inr catalog' \<Rightarrow> catalog'))"

definition install_into ::
    "'w installer \<Rightarrow> (Url \<Rightarrow> string) \<Rightarrow> Config \<Rightarrow> Workspace \<Rightarrow> ('w, ExtensionSummary list \<times> SkillCatalog) iop" where
  "install_into IN show_url config ws =
     sbind (install_entries IN show_url config ws (cf_extension config)) (\<lambda>summaries.
       sret (summaries, load_skills (in_ext IN) (in_skills IN) (ws_id ws) (cf_skills config) []))"

definition for_workspace :: "workspace_id \<Rightarrow> ExtensionSummary list \<Rightarrow> ExtensionSummary list" where
  "for_workspace w summaries = filter (\<lambda>x. es_workspaces x = [] \<or> w \<in> set (es_workspaces x)) summaries"

text \<open>The extensions the HTTP interface lists: those of one workspace, or all.\<close>

definition list_extensions :: "workspace_id option \<Rightarrow> ExtensionSummary list \<Rightarrow> ExtensionSummary list" where
  "list_extensions w summaries = (case w of None \<Rightarrow> summaries | Some workspace_id \<Rightarrow> for_workspace workspace_id summaries)"

end
