(* ===== verification/Builtin.thy ===== *)
theory Builtin
  imports Tools Install
begin

text \<open>
  The tools a workspace starts with (\<open>src/app.rs\<close>): the descriptor of every built-in tool, the loading of
  a Kubernetes client, and the registry that is filled in a fixed order before the extensions are
  installed into it. The lemmas show that the only built-in tool that can change anything is the shell, and
  that it is there only when the configuration says so.
\<close>

section \<open>Descriptors\<close>

definition typed :: "string \<Rightarrow> json" where "typed t = JObj [(''type'', JStr t)]"

definition date_time :: json where "date_time = JObj [(''format'', JStr ''date-time''), (''type'', JStr ''string'')]"

definition bounded_int :: "int \<Rightarrow> int \<Rightarrow> json" where
  "bounded_int lo hi = JObj [(''maximum'', JNum hi), (''minimum'', JNum lo), (''type'', JStr ''integer'')]"

definition at_least_one :: json where "at_least_one = JObj [(''minimum'', JNum 1), (''type'', JStr ''integer'')]"

definition described :: "string \<Rightarrow> json" where
  "described d = JObj [(''description'', JStr d), (''type'', JStr ''string'')]"

definition object_schema :: "(string \<times> json) list \<Rightarrow> string list \<Rightarrow> json" where
  "object_schema properties required = JObj ([(''additionalProperties'', JBool False), (''properties'', JObj properties)] @
     (if required = [] then [] else [(''required'', JArr (map JStr required))]) @ [(''type'', JStr ''object'')])"

definition builtin_tool :: "ext \<Rightarrow> string \<Rightarrow> string \<Rightarrow> json \<Rightarrow> ToolRisk \<Rightarrow> registered_tool" where
  "builtin_tool E name description schema risk = \<lparr>rt_name = name, rt_descriptor = builtin E name description schema risk\<rparr>"

definition promql_tool :: "ext \<Rightarrow> registered_tool" where
  "promql_tool E = builtin_tool E ''promql_query'' ''Run an instant PromQL query against the configured Prometheus server''
     (object_schema [(''query'', described ''PromQL expression'')] [''query'']) Safe"

definition docker_logs_tool :: "ext \<Rightarrow> registered_tool" where
  "docker_logs_tool E = builtin_tool E ''docker_logs'' ''Read recent logs from an allowlisted Docker container''
     (object_schema [(''container'', typed ''string''),
        (''since'', JObj [(''default'', JStr ''10m''), (''type'', JStr ''string'')]),
        (''tail'', JObj [(''default'', JNum 200), (''maximum'', JNum 10000), (''minimum'', JNum 0), (''type'', JStr ''integer'')])]
        [''container'']) Safe"

definition http_get_tool :: "ext \<Rightarrow> registered_tool" where
  "http_get_tool E = builtin_tool E ''http_get'' ''Send a read-only GET request to an allowlisted service host''
     (object_schema [(''url'', described ''Absolute HTTP or HTTPS URL'')] [''url'']) Safe"

definition log_query_tool :: "ext \<Rightarrow> registered_tool" where
  "log_query_tool E = builtin_tool E ''log_query''
     ''Query Loki logs for a bounded time range. Returns stream labels and truncated lines as Evidence.''
     (object_schema [(''direction'', JObj [(''enum'', JArr [JStr ''forward'', JStr ''backward'']), (''type'', JStr ''string'')]),
        (''end'', date_time), (''limit'', bounded_int 1 1000), (''query'', described ''LogQL query''), (''start'', date_time)]
        [''query'', ''start'', ''end'']) Safe"

definition trace_search_tool :: "ext \<Rightarrow> registered_tool" where
  "trace_search_tool E = builtin_tool E ''trace_search''
     ''Search Tempo traces by service and time range. Returns bounded trace summaries as Evidence.''
     (object_schema [(''end'', date_time), (''limit'', bounded_int 1 50), (''min_duration'', typed ''string''),
        (''service'', typed ''string''), (''start'', date_time)] [''start'', ''end'']) Safe"

definition trace_get_tool :: "ext \<Rightarrow> registered_tool" where
  "trace_get_tool E = builtin_tool E ''trace_get''
     ''Fetch a Tempo trace by ID and return a bounded span summary. Full payload is stored as an artifact.''
     (object_schema [(''trace_id'', typed ''string'')] [''trace_id'']) Safe"

definition k8s_get_tool :: "ext \<Rightarrow> registered_tool" where
  "k8s_get_tool E = builtin_tool E ''k8s_get''
     ''Read an allowlisted Kubernetes object summary. Never returns Secret data or write verbs.''
     (object_schema [(''kind'', typed ''string''), (''label_selector'', typed ''string''), (''limit'', bounded_int 1 50),
        (''name'', typed ''string''), (''namespace'', typed ''string'')] [''kind'']) Safe"

definition k8s_events_tool :: "ext \<Rightarrow> registered_tool" where
  "k8s_events_tool E = builtin_tool E ''k8s_events''
     ''Read Kubernetes Events for an allowlisted namespace and involved object.''
     (object_schema [(''end'', date_time), (''involved_kind'', typed ''string''), (''involved_name'', typed ''string''),
        (''limit'', bounded_int 1 50), (''namespace'', typed ''string''), (''reason'', typed ''string''), (''start'', date_time)]
        [''namespace'']) Safe"

definition k8s_logs_tool :: "ext \<Rightarrow> registered_tool" where
  "k8s_logs_tool E = builtin_tool E ''k8s_logs''
     ''Read bounded logs from an allowlisted Pod. Does not support exec, attach, or follow.''
     (object_schema [(''container'', typed ''string''), (''namespace'', typed ''string''), (''pod'', typed ''string''),
        (''since_seconds'', at_least_one), (''tail_lines'', bounded_int 1 200)] [''namespace'', ''pod'']) Safe"

definition runbook_search_entry :: "ext \<Rightarrow> registered_tool" where
  "runbook_search_entry E = builtin_tool E ''runbook_search''
     ''Search local Markdown runbooks by service, signal, or text. Results are references, not executable commands.''
     (object_schema [(''query'', typed ''string''), (''service'', typed ''string'')] []) Safe"

definition runbook_read_entry :: "ext \<Rightarrow> registered_tool" where
  "runbook_read_entry E = builtin_tool E ''runbook_read''
     ''Read a local runbook by stable id and version. Commands in the runbook are suggestions only.''
     (object_schema [(''id'', typed ''string''), (''version'', at_least_one)] [''id'']) Safe"

definition topology_entry :: "ext \<Rightarrow> registered_tool" where
  "topology_entry E = builtin_tool E ''topology_query''
     ''Return the current thread's service topology projection with evidence IDs and TTL. This is not a CMDB.''
     (object_schema [(''depth'', bounded_int 1 4), (''include_stale'', typed ''boolean''), (''max_nodes'', bounded_int 1 64)] []) Safe"

definition exec_tool :: "ext \<Rightarrow> registered_tool" where
  "exec_tool E = builtin_tool E ''exec'' ''Execute a shell command after explicit user approval''
     (object_schema [(''command'', typed ''string'')] [''command'']) ToolRisk.Ask"

section \<open>The Kubernetes client of a workspace\<close>

record KubeConfig =
  kf_clusters :: "(string \<times> string) list"
  kf_contexts :: "(string \<times> string \<times> string) list"
  kf_users :: "(string \<times> string option) list"
  kf_current_context :: "string option"

definition auth_error :: "string \<Rightarrow> OpsCodexError" where
  "auth_error m = OpsCodexError.Connector ConnectorClass.Auth m"

text \<open>\<open>read\<close> gives nothing for a path that does not exist; then the text itself is the configuration.\<close>

definition load_kubeconfig ::
    "'w io \<Rightarrow> (string \<Rightarrow> (string + string) option) \<Rightarrow> (string \<Rightarrow> string + KubeConfig) \<Rightarrow> string \<Rightarrow> KubernetesScope \<Rightarrow>
     KubernetesClient result" where
  "load_kubeconfig I read yaml source scope =
     and_then (case read source of
         Some (Inl err) \<Rightarrow> Inl (auth_error (''kubeconfig read failed: '' @ err))
       | Some (Inr contents) \<Rightarrow> Inr contents
       | None \<Rightarrow> Inr source) (\<lambda>contents.
     and_then (case yaml contents of Inl err \<Rightarrow> Inl (auth_error (''invalid kubeconfig: '' @ err)) | Inr p \<Rightarrow> Inr p) (\<lambda>parsed.
     and_then (ok_or (auth_error ''kubeconfig context missing'')
         (case ks_context scope of Some c \<Rightarrow> Some c | None \<Rightarrow> kf_current_context parsed)) (\<lambda>context_name.
     and_then (ok_or (auth_error (''kubeconfig context `'' @ context_name @ ''` not found''))
         (map_of (kf_contexts parsed) context_name)) (\<lambda>(cluster_name, user_name).
     and_then (ok_or (auth_error ''kubeconfig cluster not found'') (map_of (kf_clusters parsed) cluster_name)) (\<lambda>server.
     and_then (ok_or (auth_error ''kubeconfig user not found'') (map_of (kf_users parsed) user_name)) (\<lambda>token.
     and_then (new_kube_client I server (policy_from_scope scope)) (\<lambda>kube.
       Inr (case token of None \<Rightarrow> kube | Some t \<Rightarrow> kube\<lparr>kc_bearer := Some t\<rparr>))))))))"

definition kube_from_scope ::
    "'w io \<Rightarrow> (string \<Rightarrow> string option) \<Rightarrow> (string \<Rightarrow> (string + string) option) \<Rightarrow> (string \<Rightarrow> string + KubeConfig) \<Rightarrow>
     KubernetesScope \<Rightarrow> KubernetesClient result" where
  "kube_from_scope I env read yaml scope =
     and_then (ok_or (auth_error (''environment variable '' @ ks_kubeconfig_env scope @ '' is not set''))
         (env (ks_kubeconfig_env scope))) (\<lambda>configured.
       if starts_with ''http://'' configured \<or> starts_with ''https://'' configured
       then new_kube_client I configured (policy_from_scope scope)
       else load_kubeconfig I read yaml configured scope)"

section \<open>The registry of a workspace\<close>

fun register_all :: "registered_tool list \<Rightarrow> ToolRegistry \<Rightarrow> ToolRegistry result" where
  "register_all [] r = Inr r"
| "register_all (t # ts) r = and_then (register t r) (register_all ts)"

definition kube_tools :: "ext \<Rightarrow> KubernetesClient result option \<Rightarrow> registered_tool list" where
  "kube_tools E kube = (case kube of
       Some (Inr _) \<Rightarrow> [k8s_get_tool E, k8s_events_tool E, k8s_logs_tool E] | _ \<Rightarrow> [])"

text \<open>
  The tools are made and registered one after the other; \<open>runbooks\<close> is the outcome of loading the
  runbooks and \<open>kube\<close> that of making the client, when the workspace has a scope.
\<close>

definition build_workspace_tools ::
    "ext \<Rightarrow> 'w io \<Rightarrow> Config \<Rightarrow> Workspace \<Rightarrow> string option \<Rightarrow> KubernetesClient result option \<Rightarrow> RunbookCatalog result \<Rightarrow> ToolRegistry result" where
  "build_workspace_tools E I config ws tenant kube runbooks =
     (let limit = rs_max_output_bytes (cf_runtime config) in
      and_then (new_promql I (ws_prometheus_url ws) limit) (\<lambda>_.
      and_then (register_all [promql_tool E, docker_logs_tool E, http_get_tool E] empty_registry) (\<lambda>r.
      and_then (new_loki I (ws_loki_url ws) (ws_loki_tenant_header ws) tenant (lc_max_range_seconds (cf_loki config))
          (lc_max_lines (cf_loki config)) limit) (\<lambda>_.
      and_then (register_all [log_query_tool E] r) (\<lambda>r.
      and_then (new_trace_search I (ws_tempo_url ws) (tc_max_range_seconds (cf_tempo config)) limit) (\<lambda>_.
      and_then (register_all [trace_search_tool E] r) (\<lambda>r.
      and_then (new_trace_get I (ws_tempo_url ws) limit) (\<lambda>_.
      and_then (register_all (trace_get_tool E # kube_tools E kube) r) (\<lambda>r.
      and_then runbooks (\<lambda>_.
        register_all ([runbook_search_entry E, runbook_read_entry E, topology_entry E] @
          (if cf_tools_exec config \<and> \<not> xc_production_safe (cf_extensions config) then [exec_tool E] else [])) r))))))))))"

section \<open>Tests and calls by name\<close>

text \<open>The tool the tests use: it gives the value it was made with.\<close>

record FakeTool =
  ft_name :: string
  ft_output :: json
  ft_risk :: ToolRisk

definition fake_safe :: "string \<Rightarrow> json \<Rightarrow> FakeTool" where
  "fake_safe name result = \<lparr>ft_name = name, ft_output = result, ft_risk = Safe\<rparr>"

definition fake_ask :: "string \<Rightarrow> json \<Rightarrow> FakeTool" where
  "fake_ask name result = \<lparr>ft_name = name, ft_output = result, ft_risk = ToolRisk.Ask\<rparr>"

definition fake_entry :: "ext \<Rightarrow> FakeTool \<Rightarrow> registered_tool" where
  "fake_entry E t = builtin_tool E (ft_name t) ''Return deterministic evidence for tests''
     (JObj [(''additionalProperties'', JBool True), (''properties'', JObj []), (''type'', JStr ''object'')]) (ft_risk t)"

definition fake_execute :: "'w tool_env \<Rightarrow> FakeTool \<Rightarrow> ('w, ToolOutput) op" where
  "fake_execute T t =
     sbind (refuse_cancelled T) (\<lambda>_.
     sbind (sask (io_now (te_io T))) (\<lambda>now.
       sret \<lparr>to_content = ft_output t, to_evidence = new_evidence now (ft_name t)\<rparr>))"

definition registry_descriptors :: "ToolRegistry \<Rightarrow> CapabilityDescriptor list" where
  "registry_descriptors r =
     map (\<lambda>name. rt_descriptor (the (reg_tools r name))) (sorted_list_of_set (dom (reg_tools r)))"

text \<open>A call by name; \<open>tools\<close> is what the registered tools do.\<close>

definition registry_execute ::
    "'w tool_env \<Rightarrow> ToolRegistry \<Rightarrow> (registered_tool \<Rightarrow> json \<Rightarrow> ('w, ToolOutput) op) \<Rightarrow> string \<Rightarrow> json \<Rightarrow> ('w, ToolOutput) op" where
  "registry_execute T r tools name arguments =
     sbind (refuse_cancelled T) (\<lambda>_.
     sbind (slift (registry_tool r name)) (\<lambda>t. tools t arguments))"

end
