(* ===== verification/ExtensionSafety.thy ===== *)
theory ExtensionSafety
  imports Guarantee Install
begin

text \<open>
  What holds of extensions: the process of a custom tool is contained and started a bounded number of
  times; a message of an MCP server is read back as it was framed, and a call gets the answer to itself;
  installing extensions keeps the registry well formed and within the limits of the workspace.
\<close>

section \<open>Header lines\<close>

definition plain :: "char \<Rightarrow> bool" where
  "plain c \<longleftrightarrow> 33 \<le> (of_char c :: nat) \<and> of_char c < (127 :: nat)"

lemma strip_any_head: "(\<And>w. w \<in> set ws \<Longrightarrow> w \<noteq> [] \<Longrightarrow> hd w \<noteq> c) \<Longrightarrow> strip_any ws (c # s) = None"
proof (induction ws)
  case (Cons w ws)
  have "\<not> starts_with w (c # s)" if "w \<noteq> []" using Cons.prems [of w] that by (cases w) (auto simp: starts_with_def)
  then have "(if w = [] then None else strip_prefix w (c # s)) = None" by (simp add: strip_prefix_def)
  moreover have "strip_any ws (c # s) = None" using Cons by simp
  ultimately show ?case by (simp add: strip_any_def)
qed (simp add: strip_any_def)

lemma plain_not_white:
  assumes "plain c"
  shows "strip_any whitespace (c # s) = None" and "strip_any (map rev whitespace) (c # s) = None"
  using assms by (intro strip_any_head; auto simp: whitespace_def plain_def)+

lemma trim_plain:
  assumes "s \<noteq> []" and "plain (hd s)" and "plain (last s)"
  shows "trim s = s"
proof -
  have "strip_all whitespace s = s"
    using assms(1) plain_not_white(1) [OF assms(2), of "tl s"] by (simp add: strip_all.simps [of whitespace s])
  moreover have "strip_all (map rev whitespace) (rev s) = rev s"
  proof (cases "rev s")
    case (Cons c t)
    then have "c = last s" by (metis last_rev rev_swap list.sel(1) hd_rev)
    then show ?thesis
      unfolding Cons using plain_not_white(2) [OF assms(3), of t] by (simp add: strip_all.simps [of "map rev whitespace" "_ # _"])
  qed (use assms(1) in simp)
  ultimately show ?thesis by (simp add: trim_def)
qed

lemma strip_examples:
  "strip_any whitespace (CHR '' '' # s) = Some s" "strip_any (map rev whitespace) (CHR 0x0A # s) = Some s"
  "strip_any (map rev whitespace) (CHR 0x0D # s) = Some s"
  by (simp_all add: strip_any_def whitespace_def strip_prefix_def starts_with_def)

lemma trim_crlf:
  assumes "s \<noteq> []" and "plain (hd s)" and "plain (last s)"
  shows "trim (s @ [CHR 0x0D, CHR 0x0A]) = s"
proof -
  have "strip_all whitespace (s @ [CHR 0x0D, CHR 0x0A]) = s @ [CHR 0x0D, CHR 0x0A]"
    using assms(1) plain_not_white(1) [OF assms(2), of "tl s @ [CHR 0x0D, CHR 0x0A]"]
    by (cases s) (simp_all add: strip_all.simps [of whitespace "_ # _"])
  moreover have "rev (s @ [CHR 0x0D, CHR 0x0A]) = CHR 0x0A # CHR 0x0D # rev s" by simp
  moreover have "strip_all (map rev whitespace) (CHR 0x0A # CHR 0x0D # t) = strip_all (map rev whitespace) t" for t
    by (simp add: strip_all.simps [of "map rev whitespace" "CHR 0x0A # _"] strip_all.simps [of "map rev whitespace" "CHR 0x0D # _"]
        strip_examples)
  moreover have "strip_all whitespace s = s"
    using assms(1) plain_not_white(1) [OF assms(2), of "tl s"] by (simp add: strip_all.simps [of whitespace s])
  then have "rev (strip_all (map rev whitespace) (rev s)) = s" using trim_plain [OF assms] by (simp add: trim_def)
  ultimately show ?thesis by (simp add: trim_def)
qed

lemma trim_space: "s \<noteq> [] \<Longrightarrow> plain (hd s) \<Longrightarrow> plain (last s) \<Longrightarrow> trim (CHR '' '' # s) = s"
proof -
  assume s: "s \<noteq> []" "plain (hd s)" "plain (last s)"
  have "strip_all whitespace (CHR '' '' # s) = strip_all whitespace s"
    by (simp add: strip_all.simps [of whitespace "CHR '' '' # s"] strip_examples)
  with trim_plain [OF s] show ?thesis by (simp add: trim_def)
qed

lemma ascii_valid: "list_all (\<lambda>c. (of_char c :: nat) < 128) bs \<Longrightarrow> valid_utf8 bs"
  by (induction bs) (simp_all add: valid_utf8.simps [of "[]"] valid_utf8.simps [of "_ # _"] utf8_head_def Let_def)

lemma digit_plain: "is_digit_of 10 c \<Longrightarrow> plain c \<and> (of_char c :: nat) < 128 \<and> c \<noteq> CHR 0x0A \<and> c \<noteq> CHR '':''"
  by (auto simp: is_digit_of_def digit_value_def plain_def Let_def split: if_splits)

lemma parse_usize_show: "n < 2 ^ 64 \<Longrightarrow> parse_usize (show_nat n) = Some n"
proof -
  assume n: "n < 2 ^ 64"
  have "hd (show_nat n) \<noteq> CHR ''+''"
    using show_nat_digits [of n] by (cases "show_nat n") (auto simp: is_digit_of_def digit_value_def)
  with n show_nat_digits [of n] show ?thesis by (cases "show_nat n") (simp_all add: parse_usize_def Let_def)
qed


section \<open>Framing\<close>

text \<open>The first line of a frame, as the reader sees it.\<close>

definition length_line :: "bytes \<Rightarrow> string" where
  "length_line body = ''Content-Length: '' @ show_nat (length body)"

lemma length_line_plain:
  "length_line body \<noteq> []" "plain (hd (length_line body))" "plain (last (length_line body))"
  "list_all (\<lambda>c. (of_char c :: nat) < 128) (length_line body)" "CHR 0x0A \<notin> set (length_line body)"
proof -
  have ds: "\<And>c. c \<in> set (show_nat (length body)) \<Longrightarrow> plain c \<and> (of_char c :: nat) < 128 \<and> c \<noteq> CHR 0x0A"
    using show_nat_digits [of "length body"] digit_plain by (auto simp: list_all_iff)
  show "length_line body \<noteq> []" "plain (hd (length_line body))" by (simp_all add: length_line_def plain_def)
  show "plain (last (length_line body))"
    using ds [of "last (show_nat (length body))"] show_nat_digits [of "length body"] by (simp add: length_line_def)
  show "list_all (\<lambda>c. (of_char c :: nat) < 128) (length_line body)"
    using ds by (simp add: length_line_def list_all_iff)
  show "CHR 0x0A \<notin> set (length_line body)" using ds by (auto simp: length_line_def)
qed

lemma next_line_break: "CHR 0x0A \<notin> set l \<Longrightarrow> next_line (l @ CHR 0x0A # r) = (l @ [CHR 0x0A], r)"
proof -
  assume l: "CHR 0x0A \<notin> set l"
  then have "takeWhile (\<lambda>c. c \<noteq> CHR 0x0A) (l @ CHR 0x0A # r) = l" by (induction l) auto
  moreover have "dropWhile (\<lambda>c. c \<noteq> CHR 0x0A) (l @ CHR 0x0A # r) = CHR 0x0A # r" using l by (induction l) auto
  ultimately show ?thesis by (simp add: next_line_def)
qed

lemma trim_blank: "trim [CHR 0x0D, CHR 0x0A] = []"
  by (simp add: trim_def strip_all.simps strip_any_def whitespace_def strip_prefix_def starts_with_def)

lemma read_blank:
  "mcp_read P closed n (CHR 0x0D # CHR 0x0A # rest) = read_body P closed n rest"
proof -
  have "next_line ([CHR 0x0D] @ CHR 0x0A # rest) = ([CHR 0x0D] @ [CHR 0x0A], rest)" by (rule next_line_break) simp
  then show ?thesis
    by (simp add: mcp_read.simps [of P closed n "CHR 0x0D # CHR 0x0A # rest"] Let_def trim_blank ascii_valid)
qed

lemma split_length_line:
  "split_once CHR '':'' (length_line body) = Some (''Content-Length'', CHR '' '' # show_nat (length body))"
  by (simp add: split_once_def length_line_def)

lemma wait_for_line: "CHR 0x0A \<notin> set bs \<Longrightarrow> fst (mcp_read P False n bs) = Waiting"
  by (simp add: mcp_read.simps [of P False n bs] Let_def split: prod.split)

lemma read_first_line:
  assumes "length body < 2 ^ 64"
  shows "mcp_read P closed n (length_line body @ CHR 0x0D # CHR 0x0A # r) = mcp_read P closed (Some (length body)) r"
proof -
  let ?bs = "length_line body @ CHR 0x0D # CHR 0x0A # r"
  have "next_line ((length_line body @ [CHR 0x0D]) @ CHR 0x0A # r) = ((length_line body @ [CHR 0x0D]) @ [CHR 0x0A], r)"
    using length_line_plain(5) [of body] by (intro next_line_break) auto
  then have line: "next_line ?bs = (length_line body @ [CHR 0x0D, CHR 0x0A], r)" by simp
  have trimmed: "trim (length_line body @ [CHR 0x0D, CHR 0x0A]) = length_line body"
    by (rule trim_crlf [OF length_line_plain(1-3)])
  have valid: "valid_utf8 (length_line body @ [CHR 0x0D, CHR 0x0A])"
    using length_line_plain(4) [of body] by (intro ascii_valid) simp
  have n: "parse_usize (trim (CHR '' '' # show_nat (length body))) = Some (length body)"
  proof -
    have "list_all plain (show_nat (length body))" "show_nat (length body) \<noteq> []"
      using show_nat_digits [of "length body"] digit_plain by (auto simp: list_all_iff)
    then have "trim (CHR '' '' # show_nat (length body)) = show_nat (length body)"
      by (intro trim_space) (auto simp: list_all_iff)
    with parse_usize_show [of "length body"] assms show ?thesis by simp
  qed
  have key: "eq_ignore_ascii_case ''Content-Length'' ''content-length''" by code_simp
  show ?thesis
    by (simp add: mcp_read.simps [of P closed n ?bs] line trimmed valid length_line_plain(1) split_length_line key n Let_def)
qed

lemma read_frame:
  assumes "length body < 2 ^ 63"
  shows "mcp_read P closed n (mcp_frame body @ rest) = (invalid_json (pe_json P body), rest)"
  using read_first_line [of body P closed n "CHR 0x0D # CHR 0x0A # body @ rest"] assms
  by (simp add: mcp_frame_def length_line_def read_blank read_body_def)

text \<open>
  C30: a message of a local MCP server is read back exactly as it was framed, whatever follows it, and the
  bytes behind it are left for the next read; a frame that has not arrived completely is never taken for a
  message, the reader waits for the rest of it.
\<close>

theorem mcp_frame_reads_back:
  assumes "length body < 2 ^ 63" and "pe_json P body = Inr m"
  shows "mcp_read P closed None (mcp_frame body @ rest) = (ReadMessage m, rest) \<and>
    (i < length (mcp_frame body) \<longrightarrow> fst (mcp_read P False None (take i (mcp_frame body))) = Waiting)"
proof (intro conjI impI)
  show "mcp_read P closed None (mcp_frame body @ rest) = (ReadMessage m, rest)"
    using read_frame [OF assms(1)] assms(2) by (simp add: invalid_json_def)
  assume i: "i < length (mcp_frame body)"
  let ?head = "length_line body @ [CHR 0x0D]"
  have frame: "mcp_frame body = ?head @ CHR 0x0A # CHR 0x0D # CHR 0x0A # body"
    by (simp add: mcp_frame_def length_line_def)
  show "fst (mcp_read P False None (take i (mcp_frame body))) = Waiting"
  proof (cases "i \<le> length ?head")
    case True
    have "take i (a @ b) = take i a" if "i \<le> length a" for a b :: bytes using that by simp
    from this [OF True] have "take i (mcp_frame body) = take i ?head" unfolding frame .
    moreover have "CHR 0x0A \<notin> set (take i ?head)" using length_line_plain(5) [of body] by (auto dest: in_set_takeD)
    ultimately show ?thesis by (simp add: wait_for_line)
  next
    case False
    then obtain k where k: "i = length (?head @ [CHR 0x0A]) + k" by (metis add.commute le_iff_add length_append_singleton not_less_eq_eq)
    then have "take i (mcp_frame body) = ?head @ CHR 0x0A # take k (CHR 0x0D # CHR 0x0A # body)" by (simp add: frame)
    with read_first_line [of body P False None "take k (CHR 0x0D # CHR 0x0A # body)"]
      assms(1)
    have first: "mcp_read P False None (take i (mcp_frame body)) =
        mcp_read P False (Some (length body)) (take k (CHR 0x0D # CHR 0x0A # body))" by simp
    show ?thesis
    proof (cases "k < 2")
      case True
      then have "CHR 0x0A \<notin> set (take k (CHR 0x0D # CHR 0x0A # body))" by (cases k; cases "k - 1") auto
      with first show ?thesis by (simp add: wait_for_line)
    next
      case False
      then obtain j where "k = Suc (Suc j)" by (metis add_2_eq_Suc le_Suc_ex not_less)
      with first i k assms(1) show ?thesis by (simp add: read_blank read_body_def frame)
    qed
  qed
qed

text \<open>A JSON parser that knows one message, for concrete runs.\<close>

definition one_message :: "bytes \<Rightarrow> json \<Rightarrow> mcp_peer" where
  "one_message body m = \<lparr>pe_answer = (\<lambda>sent. if sent = [] then [] else mcp_frame body), pe_closed = (\<lambda>_. False),
     pe_write_error = (\<lambda>_. None), pe_json = (\<lambda>bs. if bs = body then Inr m else Inl ''no'')\<rparr>"

lemma mcp_frame_reads_back_witness:
  "mcp_read (one_message ''{}'' (JObj [])) True None (mcp_frame ''{}'' @ ''next'') = (ReadMessage (JObj []), ''next'') \<and>
   fst (mcp_read (one_message ''{}'' (JObj [])) False None (take 20 (mcp_frame ''{}''))) = Waiting"
proof -
  have parse: "pe_json (one_message ''{}'' (JObj [])) ''{}'' = Inr (JObj [])" by (simp add: one_message_def)
  have "length (mcp_frame ''{}'') = 23" by code_simp
  then show ?thesis
    using mcp_frame_reads_back [of "''{}''" "one_message ''{}'' (JObj [])" "JObj []" True "''next''" 20, OF _ parse] by simp
qed

section \<open>Answers\<close>

definition passed_over :: "mcp_peer \<Rightarrow> nat \<Rightarrow> bytes \<Rightarrow> bool" where
  "passed_over P n body \<longleftrightarrow> length body < 2 ^ 63 \<and> (case pe_json P body of Inl _ \<Rightarrow> False | Inr m \<Rightarrow> \<not> has_id n m)"

lemma await_passes_over:
  "list_all (passed_over P n) late \<Longrightarrow>
     await_answer P sh n closed (concat (map mcp_frame late) @ rest) = await_answer P sh n closed rest"
proof (induction late)
  case (Cons body late)
  then show ?case
    by (auto simp: await_answer.simps [of P sh n closed "mcp_frame body @ _"] passed_over_def read_frame invalid_json_def
        split: sum.splits)
qed simp

text \<open>
  A call of a local MCP server is answered by the message that carries its own id: the answers to
  earlier calls that were given up, and whatever else the server sent in between, are passed over, an error
  answer becomes an error of the call, and what comes behind the answer stays for the next call.
\<close>

theorem mcp_call_gets_its_answer:
  assumes "list_all (passed_over P (mp_next_id c)) late"
    and "mp_in c @ pe_answer P (mp_out c @ [rpc (Some (mp_next_id c)) method params]) =
           concat (map mcp_frame late) @ mcp_frame body @ rest"
    and "length body < 2 ^ 63" and "pe_json P body = Inr m" and "has_id (mp_next_id c) m"
    and "pe_write_error P (mp_out c @ [rpc (Some (mp_next_id c)) method params]) = None"
  shows "\<exists>c'. mcp_request P sh method params c = (Answered (answer_of P sh m), c') \<and> mp_in c' = rest \<and>
    mp_next_id c' = mp_next_id c + 1 \<and> mp_out c' = mp_out c @ [rpc (Some (mp_next_id c)) method params]"
proof -
  have "await_answer P sh (mp_next_id c) closed (mp_in c @ pe_answer P (mp_out c @ [rpc (Some (mp_next_id c)) method params])) =
      (Answered (answer_of P sh m), rest)" for closed
    unfolding assms(2) await_passes_over [OF assms(1)]
    using assms(3-5) by (simp add: await_answer.simps [of P sh _ closed "mcp_frame body @ rest"] read_frame invalid_json_def)
  with assms(6) show ?thesis by (simp add: mcp_request_def Let_def mcp_write_def)
qed

lemma mcp_call_gets_its_answer_witness:
  "\<exists>c'. mcp_request (one_message ''1'' (JObj [(''id'', JNum 1)])) (\<lambda>_. []) ''tools/list'' JNull
      \<lparr>mp_next_id = 1, mp_out = [], mp_in = [], mp_closed = False\<rparr> =
      (Answered (answer_of (one_message ''1'' (JObj [(''id'', JNum 1)])) (\<lambda>_. []) (JObj [(''id'', JNum 1)])), c') \<and> mp_in c' = [] \<and>
    mp_next_id c' = 1 + 1 \<and> mp_out c' = [] @ [rpc (Some 1) ''tools/list'' JNull]"
proof -
  let ?P = "one_message ''1'' (JObj [(''id'', JNum 1)])"
  have "has_id 1 (JObj [(''id'', JNum 1)])" by (simp add: has_id_def)
  then show ?thesis
    using mcp_call_gets_its_answer [of ?P "\<lparr>mp_next_id = 1, mp_out = [], mp_in = [], mp_closed = False\<rparr>" "[]" "''tools/list''" JNull
        "''1''" "[]" "JObj [(''id'', JNum 1)]" "\<lambda>_. []"]
    by (simp add: one_message_def)
qed

text \<open>
  A call that is given up in the middle of a message has taken the part that had arrived; the rest of that
  message, without a line break, spoils the answer of the next call.
\<close>

lemma given_up_call_takes_the_part:
  "length bs < n \<Longrightarrow> n < 2 ^ 63 \<Longrightarrow> read_body P False (Some n) bs = (Waiting, [])"
  by (simp add: read_body_def)

lemma rest_of_message_spoils_the_next:
  assumes "length body < 2 ^ 63"
  shows "mcp_read P False None (''rest'' @ mcp_frame body @ r) =
    (ReadError (OpsCodexError.Protocol ''MCP response is missing Content-Length''), body @ r)"
proof -
  let ?bs = "''rest'' @ mcp_frame body @ r" and ?l = "''rest'' @ length_line body"
  have "next_line ((?l @ [CHR 0x0D]) @ CHR 0x0A # (CHR 0x0D # CHR 0x0A # body @ r)) =
      ((?l @ [CHR 0x0D]) @ [CHR 0x0A], CHR 0x0D # CHR 0x0A # body @ r)"
    using length_line_plain(5) [of body] by (intro next_line_break) auto
  then have line: "next_line ?bs = (?l @ [CHR 0x0D, CHR 0x0A], CHR 0x0D # CHR 0x0A # body @ r)"
    by (simp add: mcp_frame_def length_line_def)
  have "trim (?l @ [CHR 0x0D, CHR 0x0A]) = ?l"
    using length_line_plain(1,3) [of body] by (intro trim_crlf) (simp_all add: plain_def)
  moreover have "valid_utf8 (?l @ [CHR 0x0D, CHR 0x0A])" using length_line_plain(4) [of body] by (intro ascii_valid) simp
  moreover have "split_once CHR '':'' ?l = Some (''restContent-Length'', CHR '' '' # show_nat (length body))"
    by (simp add: split_once_def length_line_def)
  moreover have "\<not> eq_ignore_ascii_case ''restContent-Length'' ''content-length''" by code_simp
  moreover have "CHR 0x0A \<in> set ?bs" by (simp add: mcp_frame_def)
  ultimately show ?thesis
    unfolding mcp_read.simps [of P False None ?bs] line by (simp add: read_blank read_body_def Let_def)
qed

text \<open>A length that does not fit a buffer makes the reader panic, whatever the server really sends.\<close>

lemma impossible_length_panics:
  assumes "2 ^ 63 \<le> k" and "k < 2 ^ 64"
  shows "mcp_read P closed n (''Content-Length: '' @ show_nat k @ [CHR 0x0D, CHR 0x0A, CHR 0x0D, CHR 0x0A] @ rest) = (ReadPanicked, rest)"
  using read_first_line [of "replicate k CHR ''x''" P closed n "CHR 0x0D # CHR 0x0A # rest"] assms
  by (simp add: length_line_def read_blank read_body_def)

section \<open>Custom tools\<close>

text \<open>What a process started for a custom tool may look like, by the manifest the tool was made from.\<close>

definition permitted :: "'w os \<Rightarrow> CustomToolManifest \<Rightarrow> SpawnSpec \<Rightarrow> bool" where
  "permitted os m spec \<longleftrightarrow> sp_command spec = cm_command m \<and> sp_args spec = cm_args m \<and>
     starts_with ''/'' (sp_command spec) \<and> validate_ext_path (sp_command spec) = Inr () \<and> os_exists os (sp_command spec) \<and>
     sp_cwd spec = cm_cwd m \<and> (\<forall>cwd. sp_cwd spec = Some cwd \<longrightarrow> validate_ext_path cwd = Inr ()) \<and>
     (\<forall>(key, v) \<in> set (sp_env spec). key \<in> set (cm_env_allowlist m) \<and> \<not> is_blocked_env key) \<and>
     0 < sp_timeout spec \<and> 0 < sp_max_output_bytes spec"

text \<open>An operating system that starts a process only when it is permitted.\<close>

definition contained :: "(SpawnSpec \<Rightarrow> bool) \<Rightarrow> 'w os \<Rightarrow> 'w os" where
  "contained ok os = os\<lparr>os_run := (\<lambda>spec stdin w. if ok spec then os_run os spec stdin w else (NotStarted ''not permitted'', w))\<rparr>"

lemma contained_simps [simp]:
  "os_exists (contained ok os) = os_exists os" "os_read (contained ok os) = os_read os"
  "os_cancelled (contained ok os) = os_cancelled os" "os_now (contained ok os) = os_now os"
  "os_json (contained ok os) = os_json os" "os_env (contained ok os) = os_env os"
  "read_or_empty (contained ok os) = read_or_empty os" "validate_command (contained ok os) = validate_command os"
  by (auto simp: contained_def read_or_empty_def validate_command_def fun_eq_iff)

lemma invoke_contained:
  "ok (spec\<lparr>sp_env := filter (\<lambda>(key, _). \<not> is_blocked_env key) (sp_env spec)\<rparr>) \<Longrightarrow>
     invoke (contained ok os) spec stdin = invoke os spec stdin"
  by (simp add: invoke_def contained_def)

lemma supervise_contained:
  assumes "ok (spec\<lparr>sp_env := filter (\<lambda>(key, _). \<not> is_blocked_env key) (sp_env spec)\<rparr>)"
  shows "supervise (contained ok os) spec stdin n s = supervise os spec stdin n s"
proof (induction n arbitrary: s)
  case 0
  show ?case by (simp add: supervise.simps [of _ spec stdin 0 s] invoke_contained [where ok = ok, OF assms] split: prod.split sum.split)
next
  case (Suc n)
  then show ?case
    by (simp add: supervise.simps [of _ spec stdin "Suc n" s] invoke_contained [where ok = ok, OF assms] split: prod.split sum.split)
qed

lemma custom_from_manifest_InrD:
  assumes "custom_from_manifest E os m trusted effect_override workspace_max env restarts w = Inr t"
  shows "cu_command t = cm_command m" "cu_args t = cm_args m" "cu_cwd t = cm_cwd m" "trusted"
    "validate_command os (cm_command m) = Inr ()" "enforce_workspace_ceiling (cu_capability t) workspace_max = Inr ()"
    "validate_for_enablement (cu_capability t) = Inr ()" "cu_env t = filter (\<lambda>(key, _). key \<in> set (cm_env_allowlist m)) env"
    "cu_restarts t = min restarts 5" "cd_source (cu_capability t) = CapabilitySource.Custom"
    "pv_binary_hash (cd_provenance (cu_capability t)) = Some (hash_bytes E (read_or_empty os (cm_command m) w))"
    "cd_trusted_local (cu_capability t)"
  using assms by (auto simp: custom_from_manifest_def and_then_Inr_iff Let_def new_supervisor_def apply_strictest_def
      custom_descriptor_def split: if_splits)

lemma run_once_contained:
  assumes "validate_command os (sp_command spec) = Inr () \<Longrightarrow> (\<And>cwd. sp_cwd spec = Some cwd \<Longrightarrow> validate_ext_path cwd = Inr ()) \<Longrightarrow>
      ok (spec\<lparr>sp_env := filter (\<lambda>(key, _). \<not> is_blocked_env key) (sp_env spec)\<rparr>)"
  shows "run_once (contained ok os) n spec stdin = run_once os n spec stdin"
proof (rule ext)
  fix w
  show "run_once (contained ok os) n spec stdin w = run_once os n spec stdin w"
  proof (cases "validate_command os (sp_command spec) = Inr () \<and> (\<forall>cwd. sp_cwd spec = Some cwd \<longrightarrow> validate_ext_path cwd = Inr ())")
    case True
    with assms have "ok (spec\<lparr>sp_env := filter (\<lambda>(key, _). \<not> is_blocked_env key) (sp_env spec)\<rparr>)" by blast
    with True show ?thesis
      by (auto simp: run_once_def sm_simps supervise_contained split: option.split)
  next
    case False
    then show ?thesis
      by (cases "validate_command os (sp_command spec)"; cases "sp_cwd spec")
        (auto simp: run_once_def sm_simps split: sum.split)
  qed
qed

lemma validate_command_InrD:
  "validate_command os command = Inr () \<Longrightarrow>
     starts_with ''/'' command \<and> validate_ext_path command = Inr () \<and> os_exists os command"
  by (auto simp: validate_command_def and_then_Inr_iff split: if_splits)

text \<open>
  C13: a custom tool starts no process but the one of its manifest: the command of the manifest, an absolute
  path without parent segments, with the arguments of the manifest, in its directory, with only those
  environment variables that the manifest lists and none that looks like a secret, a time limit and a bound
  on the output. It starts none at all when the file is not the one that was hashed when the tool was made.
\<close>

theorem custom_tool_is_contained:
  assumes "custom_from_manifest E os m trusted effect_override workspace_max env restarts w0 = Inr t"
  shows "custom_execute E os t arguments w = custom_execute E (contained (permitted os m) os) t arguments w \<and>
    (hash_bytes E (read_or_empty os (cm_command m) w) \<noteq> hash_bytes E (read_or_empty os (cm_command m) w0) \<longrightarrow>
       snd (custom_execute E os t arguments w) = w)"
proof -
  note made = custom_from_manifest_InrD [OF assms]
  have "run_once (contained (permitted os m) os) n (custom_spec t) stdin = run_once os n (custom_spec t) stdin" for n stdin
    by (rule run_once_contained)
      (use made validate_for_enablementD [OF made(7)] validate_command_InrD [OF made(5)] in \<open>auto simp: custom_spec_def permitted_def\<close>)
  then show ?thesis using made(1,11) by (simp add: custom_execute_def sm_simps)
qed

text \<open>A manifest of a tool \<open>/t\<close>, on a machine whose processes all run out of time.\<close>

definition some_manifest :: CustomToolManifest where
  "some_manifest = \<lparr>cm_api_version = ''opscodex.dev/v1'', cm_kind = ''Tool'', cm_name = ''t'', cm_version = ''1'',
     cm_command = ''/t'', cm_args = [], cm_cwd = None, cm_input_schema = JNull, cm_output_schema = None,
     cm_effect = ''change_irreversible'', cm_recovery = Some ''needs_reconciliation'', cm_timeout_seconds = None, cm_max_output_bytes = None,
     cm_env_allowlist = [''PATH'']\<rparr>"

definition slow_machine :: "nat os" where
  "slow_machine = \<lparr>os_exists = (\<lambda>_. True), os_read = (\<lambda>_ n. Inr (if n < 7 then ''a'' else ''b'')), os_env = (\<lambda>_. None),
     os_run = (\<lambda>_ _ n. (ProcessTimedOut, Suc n)), os_cancelled = (\<lambda>_. False), os_now = (\<lambda>n. (0, n)), os_json = (\<lambda>_. Inl ''no'')\<rparr>"

definition some_custom_tool :: "ext \<Rightarrow> CustomJsonTool" where
  "some_custom_tool E = \<lparr>cu_capability = custom_descriptor E some_manifest ''a'' ChangeIrreversible (Some RecoveryMode.NeedsReconciliation) True,
     cu_command = ''/t'', cu_args = [], cu_cwd = None, cu_env = [(''PATH'', ''/bin'')], cu_restarts = 2\<rparr>"

lemma some_custom_tool_made:
  assumes "os_exists os = os_exists slow_machine" and "os_read os = os_read slow_machine"
  shows "custom_from_manifest E os some_manifest True None None [(''PATH'', ''/bin''), (''HOME'', ''/'')] 2 0 = Inr (some_custom_tool E)"
proof -
  have "validate_for_enablement (custom_descriptor E some_manifest ''a'' ChangeIrreversible (Some RecoveryMode.NeedsReconciliation) True) = Inr ()"
    by (simp add: validate_for_enablement_def custom_descriptor_def some_manifest_def parse_capability_id_def capability_id_def
        rsplit_once_def split_once_def requires_recovery_metadata_def or_default_def trim_plain plain_def BUILTIN_NAMESPACE_def)
  with assms show ?thesis
    by (simp add: custom_from_manifest_def some_manifest_def slow_machine_def some_custom_tool_def validate_command_def
        validate_ext_path_def starts_with_def effect_parse_def recovery_parse_def parse_opt_def Let_def
        apply_strictest_def somes_def read_or_empty_def new_supervisor_def
        enforce_workspace_ceiling_def)
qed

lemma custom_tool_is_contained_witness:
  "custom_execute demo_ext slow_machine (some_custom_tool demo_ext) JNull 0 =
     custom_execute demo_ext (contained (permitted slow_machine some_manifest) slow_machine) (some_custom_tool demo_ext) JNull 0 \<and>
   snd (custom_execute demo_ext slow_machine (some_custom_tool demo_ext) JNull 7) = 7"
proof -
  have "hash_bytes demo_ext (read_or_empty slow_machine (cm_command some_manifest) 7) \<noteq>
      hash_bytes demo_ext (read_or_empty slow_machine (cm_command some_manifest) 0)"
    by (simp add: read_or_empty_def slow_machine_def hash_bytes_def demo_ext_def hex_Cons hex_digit_def)
  from conjunct1 [OF custom_tool_is_contained [OF some_custom_tool_made [of slow_machine demo_ext, OF refl refl], of JNull 0]]
    mp [OF conjunct2 [OF custom_tool_is_contained [OF some_custom_tool_made [of slow_machine demo_ext, OF refl refl], of JNull 7]] this]
  show ?thesis by (rule conjI)
qed

text \<open>A machine that counts the processes it starts.\<close>

definition counting :: "'w os \<Rightarrow> ('w \<times> nat) os" where
  "counting os = \<lparr>os_exists = os_exists os, os_read = (\<lambda>path (w, n). os_read os path w), os_env = os_env os,
     os_run = (\<lambda>spec stdin (w, n). case os_run os spec stdin w of (ended, w') \<Rightarrow> (ended, (w', Suc n))),
     os_cancelled = (\<lambda>(w, n). os_cancelled os w), os_now = (\<lambda>(w, n). case os_now os w of (t, w') \<Rightarrow> (t, (w', n))),
     os_json = os_json os\<rparr>"

lemma counting_validate [simp]: "validate_command (counting os) = validate_command os"
  by (simp add: validate_command_def counting_def fun_eq_iff)

lemma counting_read [simp]: "read_or_empty (counting os) path (w, n) = read_or_empty os path w"
  by (simp add: read_or_empty_def counting_def)

lemma invoke_counting:
  "invoke (counting os) spec stdin (w, n) = (case invoke os spec stdin w of (r, w') \<Rightarrow> (r, (w', Suc n)))"
  by (simp add: invoke_def counting_def sm_simps split: prod.split ProcessEnd.split)

lemma supervise_counting:
  "\<exists>k. supervise (counting os) spec stdin left (w, n) =
      (fst (supervise os spec stdin left w), (snd (supervise os spec stdin left w), k)) \<and> n < k \<and> k \<le> n + left + 1"
proof (induction left arbitrary: w n)
  case 0
  show ?case
    by (simp add: supervise.simps [of _ spec stdin 0] invoke_counting split: prod.split sum.split)
next
  case (Suc left)
  obtain r w' where run: "invoke os spec stdin w = (r, w')" by fastforce
  from Suc.IH [of w' "Suc n"] show ?case
    by (auto simp: supervise.simps [of _ spec stdin "Suc left"] invoke_counting run counting_def [THEN arg_cong, of os_cancelled]
        split: sum.split)
qed

lemma read_bounded_length:
  "length bs \<le> n \<Longrightarrow> read_bounded n bs es = Inr (r, b) \<Longrightarrow> length r \<le> n"
  by (induction n bs es rule: read_bounded.induct) (auto simp: Let_def split: if_splits)

lemma collect_output_bounds:
  "collect_output spec code out err = Inr so \<Longrightarrow>
     length (so_stdout so) \<le> sp_max_output_bytes spec \<and> length (so_stderr so) \<le> MAX_STDERR_BYTES"
  using read_bounded_length [of "[]" "sp_max_output_bytes spec" out] read_bounded_length [of "[]" MAX_STDERR_BYTES err]
  by (auto simp: collect_output_def and_then_Inr_iff split: if_splits)

lemma invoke_bounds:
  "invoke os spec stdin w = (Inr so, w') \<Longrightarrow>
     length (so_stdout so) \<le> sp_max_output_bytes spec \<and> length (so_stderr so) \<le> MAX_STDERR_BYTES"
  by (auto simp: invoke_def sm_simps split: prod.splits ProcessEnd.splits dest!: collect_output_bounds)

lemma supervise_bounds:
  "supervise os spec stdin left w = (Inr so, w') \<Longrightarrow>
     length (so_stdout so) \<le> sp_max_output_bytes spec \<and> length (so_stderr so) \<le> MAX_STDERR_BYTES"
proof (induction left arbitrary: w)
  case 0
  then show ?case by (auto simp: supervise.simps [of os spec stdin 0] split: prod.splits sum.splits dest: invoke_bounds)
next
  case (Suc left)
  then show ?case
    by (auto simp: supervise.simps [of os spec stdin "Suc left"] split: prod.splits sum.splits if_splits dest: invoke_bounds)
qed

lemma run_once_valid:
  "validate_command os (sp_command spec) = Inr () \<Longrightarrow> \<forall>cwd. sp_cwd spec = Some cwd \<longrightarrow> validate_ext_path cwd = Inr () \<Longrightarrow>
     run_once os left spec stdin = supervise os spec stdin left"
  by (auto simp: run_once_def sm_simps fun_eq_iff split: option.split)

lemma run_once_counting:
  "\<exists>k. run_once (counting os) left spec stdin (w, n) =
      (fst (run_once os left spec stdin w), (snd (run_once os left spec stdin w), k)) \<and> n \<le> k \<and> k \<le> n + left + 1"
proof (cases "validate_command os (sp_command spec) = Inr () \<and> (\<forall>cwd. sp_cwd spec = Some cwd \<longrightarrow> validate_ext_path cwd = Inr ())")
  case True
  obtain k where "supervise (counting os) spec stdin left (w, n) =
      (fst (supervise os spec stdin left w), (snd (supervise os spec stdin left w), k))" "n < k" "k \<le> n + left + 1"
    using supervise_counting [of os spec stdin left w n] by blast
  with True show ?thesis by (simp add: run_once_valid)
next
  case False
  then show ?thesis
    by (cases "validate_command os (sp_command spec)"; cases "sp_cwd spec")
      (auto simp: run_once_def sm_simps split: sum.split)
qed

text \<open>
  Whatever the process of a custom tool does, one call of the tool starts it at most six times, once and
  at most five restarts, and as often as the configuration allows; counting the starts changes nothing; and
  what is kept of its output stays within the bounds of the tool and of the supervisor.
\<close>

theorem custom_tool_is_bounded:
  assumes "custom_from_manifest E os m trusted effect_override workspace_max env restarts w0 = Inr t"
  shows "fst (custom_execute E (counting os) t arguments (w, 0)) = fst (custom_execute E os t arguments w) \<and>
    snd (snd (custom_execute E (counting os) t arguments (w, 0))) \<le> min restarts 5 + 1 \<and>
    (fst (run_once os (cu_restarts t) (custom_spec t) stdin w) = Inr out \<longrightarrow>
       length (so_stdout out) \<le> cd_max_output_bytes (cu_capability t) \<and> length (so_stderr out) \<le> 4096)"
proof (intro conjI impI)
  note made = custom_from_manifest_InrD [OF assms]
  obtain k where run: "run_once (counting os) (cu_restarts t) (custom_spec t) (json_bytes E arguments) (w, 0) =
      (fst (run_once os (cu_restarts t) (custom_spec t) (json_bytes E arguments) w),
       (snd (run_once os (cu_restarts t) (custom_spec t) (json_bytes E arguments) w), k))" and k: "k \<le> min restarts 5 + 1"
    using run_once_counting [of os "cu_restarts t" "custom_spec t" "json_bytes E arguments" w 0] made(9) by auto
  have now: "os_now (counting os) (v, n) = (case os_now os v of (now, v') \<Rightarrow> (now, (v', n)))"
    "os_json (counting os) = os_json os" for v n by (simp_all add: counting_def)
  show "fst (custom_execute E (counting os) t arguments (w, 0)) = fst (custom_execute E os t arguments w)"
    and "snd (snd (custom_execute E (counting os) t arguments (w, 0))) \<le> min restarts 5 + 1"
    using k by (auto simp: custom_execute_def sm_simps run now split: prod.split sum.split option.split)
  assume "fst (run_once os (cu_restarts t) (custom_spec t) stdin w) = Inr out"
  then obtain w' where "supervise os (custom_spec t) stdin (cu_restarts t) w = (Inr out, w')"
    by (auto simp: run_once_def sm_simps prod_eq_iff split: sum.splits)
  from supervise_bounds [OF this] show "length (so_stdout out) \<le> cd_max_output_bytes (cu_capability t)"
    and "length (so_stderr out) \<le> 4096" by (simp_all add: custom_spec_def MAX_STDERR_BYTES_def)
qed

lemma custom_tool_is_bounded_witness:
  "let os = slow_machine\<lparr>os_run := (\<lambda>_ _ n. (Exited (Some 0) [PipeChunk ''{}''] [], Suc n))\<rparr>; t = some_custom_tool demo_ext
   in fst (custom_execute demo_ext (counting os) t JNull (0, 0)) = fst (custom_execute demo_ext os t JNull 0) \<and>
      snd (snd (custom_execute demo_ext (counting os) t JNull (0, 0))) \<le> min 2 5 + 1 \<and>
      length ''{}'' \<le> cd_max_output_bytes (cu_capability t)"
proof -
  let ?os = "slow_machine\<lparr>os_run := (\<lambda>_ _ n. (Exited (Some 0) [PipeChunk ''{}''] [], Suc n))\<rparr>"
  let ?t = "some_custom_tool demo_ext"
  have made: "custom_from_manifest demo_ext ?os some_manifest True None None [(''PATH'', ''/bin''), (''HOME'', ''/'')] 2 0 = Inr ?t"
    by (rule some_custom_tool_made) simp_all
  have "validate_command ?os (sp_command (custom_spec ?t)) = Inr ()" "sp_cwd (custom_spec ?t) = None"
    using custom_from_manifest_InrD(1,5) [OF made] by (simp_all add: custom_spec_def some_custom_tool_def some_manifest_def)
  then have "run_once ?os (cu_restarts ?t) (custom_spec ?t) [] = supervise ?os (custom_spec ?t) [] (cu_restarts ?t)"
    by (intro run_once_valid) simp_all
  moreover have "2 \<le> sp_max_output_bytes (custom_spec ?t)"
    by (simp add: custom_spec_def some_custom_tool_def custom_descriptor_def some_manifest_def or_default_def)
  ultimately have run: "fst (run_once ?os (cu_restarts ?t) (custom_spec ?t) [] 0) =
      Inr \<lparr>so_stdout = ''{}'', so_stderr = [], so_truncated = False\<rparr>"
    by (simp add: supervise.simps [of ?os] invoke_def sm_simps collect_output_def Let_def)
  note all = custom_tool_is_bounded [OF made, of JNull 0 "[]" "\<lparr>so_stdout = ''{}'', so_stderr = [], so_truncated = False\<rparr>"]
  from all run show ?thesis unfolding Let_def by simp
qed

text \<open>
  The supervisor starts a process again whatever it may have done: one that changes something
  irreversibly and runs out of time is started three times.
\<close>

lemma slow_process_runs_again: "supervise slow_machine spec stdin left n = (Inl (OpsCodexError.Timeout ''extension process timed out''), n + left + 1)"
proof (induction left arbitrary: n)
  case 0
  show ?case by (subst supervise.simps) (simp add: invoke_def slow_machine_def sm_simps)
next
  case (Suc left)
  have "os_cancelled slow_machine k = False" "os_run slow_machine s i k = (ProcessTimedOut, Suc k)" for s i k
    by (simp_all add: slow_machine_def)
  with Suc show ?case by (subst supervise.simps) (simp add: invoke_def sm_simps)
qed

end
