(* ===== verification/InstallSafety.thy ===== *)
theory InstallSafety
  imports ExtensionSafety
begin

text \<open>
  What installing extensions does to the tool registry of a workspace, as a guarantee that holds on every
  path, the failing ones included, and where the requests of a remote MCP server go.
\<close>

section \<open>The registry\<close>

text \<open>What a tool that was installed looks like, by the configuration and the workspace.\<close>

definition fits :: "Config \<Rightarrow> Workspace \<Rightarrow> CapabilityDescriptor \<Rightarrow> bool" where
  "fits config ws d \<longleftrightarrow> cd_source d \<in> {CapabilitySource.Custom, CapabilitySource.Mcp} \<and> cd_recovery d \<noteq> None \<and>
     validate_for_enablement d = Inr () \<and> enforce_workspace_ceiling d (ws_max_effect ws) = Inr () \<and>
     (cd_source d = CapabilitySource.Custom \<longrightarrow> cd_trusted_local d \<and>
       xc_allow_custom_tools (cf_extensions config) \<and> \<not> xc_production_safe (cf_extensions config))"

definition enlarged :: "Config \<Rightarrow> Workspace \<Rightarrow> ToolRegistry \<Rightarrow> ToolRegistry \<Rightarrow> bool" where
  "enlarged config ws r r' \<longleftrightarrow> (registry_inv r \<longrightarrow> registry_inv r') \<and> reg_tools r \<subseteq>\<^sub>m reg_tools r' \<and>
     (\<forall>name t. reg_tools r name = None \<longrightarrow> reg_tools r' name = Some t \<longrightarrow> fits config ws (rt_descriptor t))"

definition installs :: "Config \<Rightarrow> Workspace \<Rightarrow> 'w inst \<Rightarrow> 'w inst \<Rightarrow> bool" where
  "installs config ws s s' \<longleftrightarrow> enlarged config ws (is_tools s) (is_tools s')"

lemma enlarged_refl: "enlarged config ws r r"
  by (simp add: enlarged_def map_le_refl)

lemma map_le_Some: "m \<subseteq>\<^sub>m m' \<Longrightarrow> m k = Some v \<Longrightarrow> m' k = Some v"
  by (metis domI map_le_def)

lemma enlarged_trans: "enlarged config ws r s \<Longrightarrow> enlarged config ws s t \<Longrightarrow> enlarged config ws r t"
proof -
  assume rs: "enlarged config ws r s" and st: "enlarged config ws s t"
  have "fits config ws (rt_descriptor x)" if "reg_tools r name = None" "reg_tools t name = Some x" for name x
  proof (cases "reg_tools s name")
    case None
    with st that(2) show ?thesis by (simp add: enlarged_def)
  next
    case (Some y)
    moreover from this st have "reg_tools t name = Some y" unfolding enlarged_def by (blast intro: map_le_Some)
    ultimately show ?thesis using rs that by (simp add: enlarged_def)
  qed
  then show ?thesis using rs st map_le_trans [of "reg_tools r" "reg_tools s" "reg_tools t"] by (simp add: enlarged_def)
qed

interpretation inst: guarantee "installs config ws" for config :: Config and ws :: Workspace
  by unfold_locales (auto simp: installs_def enlarged_refl intro: enlarged_trans)

lemma enlarged_register:
  assumes "register \<lparr>rt_name = cd_name d, rt_descriptor = d\<rparr> r = Inr r'" and "fits config ws d"
  shows "enlarged config ws r r'"
  using register_inv [OF _ assms(1)] register_InrD [OF assms(1)] assms(2)
  by (auto simp: enlarged_def map_le_def)

text \<open>A capability that is listed is a registered tool.\<close>

definition present :: "CapabilitySummary \<Rightarrow> ToolRegistry \<Rightarrow> bool" where
  "present c r \<longleftrightarrow> (case reg_tools r (cs_name c) of None \<Rightarrow> False | Some t \<Rightarrow> capability_summary (rt_descriptor t) = c)"

lemma present_mono: "present c r \<Longrightarrow> enlarged config ws r r' \<Longrightarrow> present c r'"
  unfolding present_def enlarged_def by (auto split: option.splits dest: map_le_Some)

lemma register_tool_guar:
  "fits config ws d \<Longrightarrow> guar (installs config ws) P (register_tool d) (\<lambda>_ s. present (capability_summary d) (is_tools s))"
  by (rule guarI) (auto simp: register_tool_def installs_def enlarged_refl enlarged_register present_def
      capability_summary_def dest: register_InrD(1) split: sum.splits)

lemma ilift_guar_bind:
  "(\<And>x. r = Inr x \<Longrightarrow> guar (installs config ws) P (f x) Q) \<Longrightarrow> guar (installs config ws) P (sbind (ilift r) f) Q"
  unfolding ilift_def by (rule inst.guar_slift_bind) (cases r; simp)

lemma world_guar: "guar (installs config ws) P (on_inst_world m) (\<lambda>_ _. True)"
  by (rule guarI) (simp_all add: on_inst_world_def installs_def enlarged_refl split: prod.split)

lemma new_mcp_tool_fits: "new_mcp_tool E spec l = Inr t \<Longrightarrow> mi_workspace_max spec = ws_max_effect ws \<Longrightarrow> fits config ws (mt_capability t)"
  by (auto simp: new_mcp_tool_def Let_def and_then_Inr_iff fits_def apply_strictest_def mcp_descriptor_def)

definition all_present :: "CapabilitySummary list \<Rightarrow> 'w inst \<Rightarrow> bool" where
  "all_present cs s \<longleftrightarrow> list_all (\<lambda>c. present c (is_tools s)) cs"

lemma guar_carry:
  fixes m :: "('e, 'w inst, 'a) sm"
  assumes "guar (installs config ws) (\<lambda>_. True) m Q"
  shows "guar (installs config ws) (all_present cs) m (\<lambda>x s. Q x s \<and> all_present cs s)"
proof (rule guarI)
  fix s s' :: "'w inst" and x
  assume all: "all_present cs s"
  show "installs config ws s (snd (m s))" using assms by (simp add: guar_def)
  then show "Q x s' \<and> all_present cs s'" if "m s = (Inr x, s')"
    using that all guar_value [OF assms, of s x s'] present_mono [of _ "is_tools s" config ws "is_tools s'"]
    by (auto simp: all_present_def installs_def list_all_iff)
qed

lemma guar_anywhere: "guar R (\<lambda>_. True) m Q \<Longrightarrow> guar R P m Q"
  by (simp add: guar_def)

lemma register_listed_guar:
  "mi_workspace_max spec = ws_max_effect ws \<Longrightarrow>
     guar (installs config ws) (\<lambda>_. True) (register_listed E spec ls) all_present"
proof (induction ls)
  case Nil
  show ?case by (simp add: inst.guar_sret all_present_def)
next
  case (Cons l ls)
  have one: "guar (installs config ws) (\<lambda>_. True) (register_tool d) (\<lambda>_. all_present [capability_summary d])"
    if "fits config ws d" for d
    using register_tool_guar [OF that] by (simp add: all_present_def [abs_def])
  show ?case
    unfolding register_listed.simps
    by (rule ilift_guar_bind, rule inst.guar_bind [OF one], rule new_mcp_tool_fits, assumption, rule Cons.prems,
        rule inst.guar_bind [OF guar_carry [OF Cons.IH [OF Cons.prems]]], rule inst.guar_sret)
      (simp add: all_present_def)
qed

lemma install_listed_guar:
  "guar (installs config ws) P (install_listed IN ws entry kind origin hashed listed) (\<lambda>x. all_present (es_capabilities x))"
  unfolding install_listed_def Let_def
  by (rule guar_anywhere, rule ilift_guar_bind, rule ilift_guar_bind, rule inst.guar_bind [OF register_listed_guar])
    (simp_all add: inst.guar_sret extension_summary_def)

lemma start_server_guar: "guar (installs config ws) P (start_server IN command args cwd left) (\<lambda>_ _. True)"
proof (rule guarI)
  show "installs config ws s (snd (start_server IN command args cwd left s))" for s
  proof (induction left arbitrary: s)
    case 0
    show ?case
      by (simp add: start_server.simps [of IN command args cwd 0] installs_def enlarged_refl split: prod.split call_end.split sum.split)
  next
    case (Suc n)
    then show ?case
      by (auto simp: start_server.simps [of IN command args cwd "Suc n"] installs_def enlarged_refl
          split: prod.split call_end.split sum.split) (metis inst.select_convs(1) inst.update_convs(2) inst.surjective)
  qed
qed simp

lemma guar_sfail_any: "guar (installs config ws) P (sfail err) (\<lambda>_ _. True)"
  by (rule inst.guar_sfail)

lemma irefuse_guar: "guar (installs config ws) P (irefuse err) Q"
  by (simp add: irefuse_def inst.guar_sfail)

lemma custom_tool_fits:
  assumes "custom_from_manifest E os m trusted effect_override (ws_max_effect ws) env restarts w = Inr t"
    and "xc_allow_custom_tools (cf_extensions config)" and "\<not> xc_production_safe (cf_extensions config)"
  shows "fits config ws (cu_capability t)"
  using custom_from_manifest_InrD [OF assms(1)] validate_for_enablementD [of "cu_capability t" "()"] assms(2,3)
  by (simp add: fits_def)

lemma install_custom_guar:
  "guar (installs config ws) P (install_custom IN config ws entry) (\<lambda>x. all_present (es_capabilities x))"
proof (cases "xc_production_safe (cf_extensions config) \<or> \<not> xc_allow_custom_tools (cf_extensions config) \<or> \<not> ee_trusted_local entry")
  case True
  then show ?thesis by (auto simp: install_custom_def irefuse_guar)
next
  case False
  have one: "guar (installs config ws) P' (register_tool d) (\<lambda>_. all_present [capability_summary d])"
    if "fits config ws d" for d P'
    using register_tool_guar [OF that] by (simp add: all_present_def [abs_def])
  from False show ?thesis
    unfolding install_custom_def Let_def
    by (simp, intro ilift_guar_bind inst.guar_sgets_bind inst.guar_bind [OF one])
      (auto simp: extension_summary_def intro: custom_tool_fits inst.guar_sret)
qed

lemma install_extension_guar:
  "guar (installs config ws) P (install_extension IN show_url config ws entry) (\<lambda>x. all_present (es_capabilities x))"
proof -
  have "guar (installs config ws) P (install_mcp_stdio IN config ws entry) (\<lambda>x. all_present (es_capabilities x))"
    by (auto simp: install_mcp_stdio_def ilift_call_def irefuse_guar ilift_def [symmetric]
        intro!: ilift_guar_bind inst.guar_bind [OF start_server_guar] install_listed_guar inst.guar_bind [OF guar_sfail_any] split: prod.split call_end.split)
  moreover have "guar (installs config ws) P (install_mcp_http IN show_url config ws entry) (\<lambda>x. all_present (es_capabilities x))"
    by (auto simp: install_mcp_http_def irefuse_guar
        intro!: ilift_guar_bind inst.guar_bind [OF world_guar] install_listed_guar)
  ultimately show ?thesis by (simp add: install_extension_def install_custom_guar irefuse_guar)
qed

text \<open>Every capability that the summaries list.\<close>

definition listed :: "ExtensionSummary list \<Rightarrow> CapabilitySummary list" where
  "listed xs = concat (map es_capabilities xs)"

lemma install_entry_guar:
  "guar (installs config ws) (\<lambda>_. True) (install_entry IN show_url config ws entry) (\<lambda>xs. all_present (listed xs))"
proof (rule guarI)
  fix s
  let ?run = "install_extension IN show_url config ws entry s"
  have step: "installs config ws s (snd ?run)"
    using install_extension_guar [of config ws "\<lambda>_. True" IN show_url entry] by (simp add: guar_def)
  then show "installs config ws s (snd (install_entry IN show_url config ws entry s))"
    by (auto simp: install_entry_def installs_def enlarged_refl split: prod.split sum.split install_end.split)
  fix xs s' assume run: "install_entry IN show_url config ws entry s = (Inr xs, s')"
  have "all_present (es_capabilities x) s'" if "?run = (Inr x, s')" for x
    using guar_value [OF install_extension_guar [of config ws "\<lambda>_. True" IN show_url entry] _ that] by simp
  with run show "all_present (listed xs) s'"
    by (auto simp: install_entry_def listed_def disabled_summary_def extension_summary_def all_present_def
        split: if_splits prod.splits sum.splits install_end.splits)
qed

lemma install_entries_guar:
  "guar (installs config ws) (\<lambda>_. True) (install_entries IN show_url config ws es) (\<lambda>xs. all_present (listed xs))"
proof (induction es)
  case Nil
  show ?case by (simp add: inst.guar_sret all_present_def listed_def)
next
  case (Cons entry es)
  show ?case
    unfolding install_entries.simps
    by (rule inst.guar_bind [OF install_entry_guar], rule inst.guar_bind [OF guar_carry [OF Cons.IH]], rule inst.guar_sret)
      (simp add: all_present_def listed_def)
qed

lemma install_into_guar:
  "guar (installs config ws) (\<lambda>_. True) (install_into IN show_url config ws) (\<lambda>(xs, _). all_present (listed xs))"
  unfolding install_into_def by (rule inst.guar_bind [OF install_entries_guar], rule inst.guar_sret) simp


lemma map_sum_id_Inr: "map_sum f id r = Inr x \<longleftrightarrow> r = Inr x"
  by (cases r) auto

text \<open>
  An installation that fails midway leaves the tools registered so far, although the extension is listed
  as disabled: a server that lists one tool twice.
\<close>

lemma failed_install_leaves_tools:
  assumes "register_listed E spec [l] s = (Inr cs, s')"
  shows "\<exists>err. register_listed E spec [l, l] s = (Inl err, s')" and "all_present cs s'"
proof -
  obtain t r where t: "new_mcp_tool E spec l = Inr t" and s': "s' = s\<lparr>is_tools := r\<rparr>"
    and r: "register \<lparr>rt_name = cd_name (mt_capability t), rt_descriptor = mt_capability t\<rparr> (is_tools s) = Inr r"
    and cs: "cs = [capability_summary (mt_capability t)]"
    using assms by (auto simp: sm_simps ilift_def register_tool_def map_sum_id_Inr split: sum.splits)
  have "reg_tools r (cd_name (mt_capability t)) \<noteq> None" using register_InrD(1) [OF r] by simp
  then obtain err where "register \<lparr>rt_name = cd_name (mt_capability t), rt_descriptor = mt_capability t\<rparr> r = Inl err"
    using register_InrD(2) by (metis (no_types, lifting) registered_tool.select_convs(1) sumE)
  with t r s' show "\<exists>err. register_listed E spec [l, l] s = (Inl err, s')"
    by (simp add: sm_simps ilift_def register_tool_def)
  show "all_present cs s'" using register_InrD(1) [OF r] cs s' by (simp add: all_present_def present_def capability_summary_def)
qed

section \<open>Remote servers\<close>

text \<open>A request that the policy for remote servers allows, by the allowlist of the entry.\<close>

definition allowed_request :: "string list \<Rightarrow> HttpRequest \<Rightarrow> bool" where
  "allowed_request allowlist q \<longleftrightarrow>
     (url_scheme (rq_url q) = ''https'' \<or> str_or [] (url_host (rq_url q)) \<in> set LOOPBACK_NAMES) \<and>
     url_username (rq_url q) = [] \<and> url_password (rq_url q) = None \<and>
     list_ex (\<lambda>item. eq_ignore_ascii_case item (str_or [] (url_host (rq_url q)))) allowlist \<and>
     rq_method q = POST \<and> rq_headers q = [] \<and> rq_bearer q = None \<and> 0 < rq_timeout_secs q"

text \<open>A network that sends a request only when it is allowed.\<close>

definition only_to :: "(HttpRequest \<Rightarrow> bool) \<Rightarrow> 'w io \<Rightarrow> 'w io" where
  "only_to ok I = I\<lparr>io_send := (\<lambda>q w. if ok q then io_send I q w else (SendFailed ''not allowed'', w))\<rparr>"

lemma only_to_simps [simp]:
  "url_parse (only_to ok I) = url_parse I" "json_parse (only_to ok I) = json_parse I" "io_now (only_to ok I) = io_now I"
  "validate_mcp_http_url (only_to ok I) = validate_mcp_http_url I"
  by (auto simp: only_to_def validate_mcp_http_url_def fun_eq_iff)

lemma only_to_send: "ok q \<Longrightarrow> io_send (only_to ok I) q = io_send I q"
  by (simp add: only_to_def)

lemma validate_mcp_http_url_InrD:
  assumes "validate_mcp_http_url I raw allowlist = Inr u"
  shows "url_scheme u = ''https'' \<or> str_or [] (url_host u) \<in> set LOOPBACK_NAMES" "url_username u = []" "url_password u = None"
    "list_ex (\<lambda>item. eq_ignore_ascii_case item (str_or [] (url_host u))) allowlist"
  using assms by (auto simp: validate_mcp_http_url_def and_then_Inr_iff Let_def split: if_splits sum.splits)

lemma mcp_http_call_only_to:
  assumes "validate_mcp_http_url I' raw allowlist = Inr endpoint"
  shows "mcp_http_call (only_to (allowed_request allowlist) I) show_json endpoint method params timeout =
    mcp_http_call I show_json endpoint method params timeout"
  using validate_mcp_http_url_InrD [OF assms] unfolding mcp_http_call_def only_to_simps
  by (simp add: only_to_send allowed_request_def less_max_iff_disj)

text \<open>
  Installing a remote MCP server, and every later call of one of its tools, sends requests to no other
  place than the configured endpoint allows: over TLS or to this machine, without credentials in the address
  or a bearer token, to a host that the entry lists, never with an empty list, and always with a time limit.
\<close>

theorem mcp_http_stays_on_allowlist:
  "install_mcp_http IN show_url config ws entry =
     install_mcp_http (IN\<lparr>in_io := only_to (allowed_request (ee_allowlist_hosts entry)) (in_io IN)\<rparr>) show_url config ws entry \<and>
   (case validate_mcp_http_url I raw (ee_allowlist_hosts entry) of Inl _ \<Rightarrow> True
    | Inr endpoint \<Rightarrow> mcp_http_execute I show_json endpoint t arguments =
        mcp_http_execute (only_to (allowed_request (ee_allowlist_hosts entry)) I) show_json endpoint t arguments)"
proof (intro conjI)
  let ?only = "only_to (allowed_request (ee_allowlist_hosts entry))"
  have install_listed: "install_listed (IN\<lparr>in_io := J\<rparr>) = install_listed IN" for J
    by (simp add: install_listed_def fun_eq_iff)
  have bind: "sbind (ilift r) f = sbind (ilift r) g" if "\<And>x. r = Inr x \<Longrightarrow> f x = g x"
    for r :: "Url result" and f g :: "Url \<Rightarrow> ('a, ExtensionSummary) iop"
    using that by (cases r) (simp_all add: ilift_def sm_simps fun_eq_iff)
  show "install_mcp_http IN show_url config ws entry = install_mcp_http (IN\<lparr>in_io := ?only (in_io IN)\<rparr>) show_url config ws entry"
    unfolding install_mcp_http_def
    by (rule arg_cong [where f = "sbind _"], rule ext)
      (auto simp: mcp_http_initialize_def mcp_http_list_tools_def mcp_http_call_only_to install_listed intro!: bind)
  show "case validate_mcp_http_url I raw (ee_allowlist_hosts entry) of Inl _ \<Rightarrow> True
    | Inr endpoint \<Rightarrow> mcp_http_execute I show_json endpoint t arguments = mcp_http_execute (?only I) show_json endpoint t arguments"
    by (auto simp: mcp_http_execute_def mcp_http_call_only_to split: sum.split)
qed

end
