(* ===== verification/ToolsSafety.thy ===== *)
theory ToolsSafety
  imports Builtin InstallSafety
begin

text \<open>
  What the built-in tools can do: which requests and processes they cause, how much they return, and what
  the registry of a workspace holds before extensions are installed.
\<close>

section \<open>The registry\<close>

lemma register_all_tools:
  "register_all ts r = Inr r' \<Longrightarrow> reg_tools r' name = Some t \<longleftrightarrow>
     (t \<in> set ts \<and> rt_name t = name) \<or> (reg_tools r name = Some t)"
proof (induction ts arbitrary: r)
  case (Cons a ts)
  then obtain r1 where r1: "register a r = Inr r1" "register_all ts r1 = Inr r'" by (auto simp: and_then_Inr_iff)
  have "reg_tools r1 name = Some t \<longleftrightarrow> t = a \<and> rt_name t = name \<or> reg_tools r name = Some t"
    using register_InrD(1,2) [OF r1(1)] by auto
  with Cons.IH [OF r1(2)] show ?case by auto
qed simp

lemma register_all_inv: "register_all ts r = Inr r' \<Longrightarrow> registry_inv r \<Longrightarrow> registry_inv r'"
  by (induction ts arbitrary: r) (auto simp: and_then_Inr_iff dest: register_inv)

definition only_observes :: "registered_tool \<Rightarrow> bool" where
  "only_observes t \<longleftrightarrow> cd_source (rt_descriptor t) = CapabilitySource.Builtin \<and> cd_effect (rt_descriptor t) = Observe"

lemma builtin_observes: "only_observes (builtin_tool E name d schema Safe)"
  by (simp add: only_observes_def builtin_tool_def builtin_def Let_def)

lemma builtin_name: "rt_name (builtin_tool E name d schema risk) = name"
  by (simp add: builtin_tool_def)

lemmas builtin_tools = promql_tool_def docker_logs_tool_def http_get_tool_def log_query_tool_def trace_search_tool_def
  trace_get_tool_def k8s_get_tool_def k8s_events_tool_def k8s_logs_tool_def runbook_search_entry_def runbook_read_entry_def
  topology_entry_def

lemma exec_tool_simps: "rt_name (exec_tool E) = ''exec''" "cd_source (rt_descriptor (exec_tool E)) = CapabilitySource.Builtin"
  "cd_effect (rt_descriptor (exec_tool E)) = ExternalSideEffect"
  by (simp_all add: exec_tool_def builtin_tool_def builtin_def Let_def)

lemma kube_tools_observe: "t \<in> set (kube_tools E kube) \<Longrightarrow> only_observes t \<and> rt_name t \<noteq> ''exec''"
  by (auto simp: kube_tools_def builtin_tools builtin_observes builtin_name split: option.splits sum.splits)

lemma built_registry:
  assumes "build_workspace_tools E I config ws tenant kube runbooks = Inr r"
  shows "registry_inv r \<and>
    (\<forall>name t. reg_tools r name = Some t \<longrightarrow> cd_source (rt_descriptor t) = CapabilitySource.Builtin \<and>
       (cd_effect (rt_descriptor t) = Observe \<or> name = ''exec'')) \<and>
    (reg_tools r ''exec'' \<noteq> None \<longleftrightarrow> cf_tools_exec config \<and> \<not> xc_production_safe (cf_extensions config)) \<and>
    reg_tools r ''promql_query'' \<noteq> None"
proof -
  let ?shell = "if cf_tools_exec config \<and> \<not> xc_production_safe (cf_extensions config) then [exec_tool E] else []"
  obtain r1 r2 r3 r4 where regs:
    "register_all [promql_tool E, docker_logs_tool E, http_get_tool E] empty_registry = Inr r1"
    "register_all [log_query_tool E] r1 = Inr r2" "register_all [trace_search_tool E] r2 = Inr r3"
    "register_all (trace_get_tool E # kube_tools E kube) r3 = Inr r4"
    "register_all ([runbook_search_entry E, runbook_read_entry E, topology_entry E] @ ?shell) r4 = Inr r"
    using assms unfolding build_workspace_tools_def Let_def and_then_Inr_iff by blast
  have inv: "registry_inv r" by (rule regs [THEN register_all_inv])+ (rule registry_inv_empty)
  note tools = register_all_tools [OF regs(1)] register_all_tools [OF regs(2)] register_all_tools [OF regs(3)]
    register_all_tools [OF regs(4)] register_all_tools [OF regs(5)]
  have others: "only_observes t \<and> rt_name t \<noteq> ''exec''"
    if "t \<in> {promql_tool E, docker_logs_tool E, http_get_tool E, log_query_tool E, trace_search_tool E, trace_get_tool E,
      runbook_search_entry E, runbook_read_entry E, topology_entry E} \<union> set (kube_tools E kube)" for t
    using that kube_tools_observe [of t E kube] by (auto simp: builtin_tools builtin_observes builtin_name)
  have all: "reg_tools r name = Some t \<longleftrightarrow> rt_name t = name \<and> (t \<in> set ?shell \<or>
      t \<in> {promql_tool E, docker_logs_tool E, http_get_tool E, log_query_tool E, trace_search_tool E, trace_get_tool E,
        runbook_search_entry E, runbook_read_entry E, topology_entry E} \<union> set (kube_tools E kube))" for name t
    unfolding tools by (auto simp: empty_registry_def)
  have kinds: "cd_source (rt_descriptor t) = CapabilitySource.Builtin \<and> (cd_effect (rt_descriptor t) = Observe \<or> name = ''exec'')"
    if "reg_tools r name = Some t" for name t
    using that others [of t] unfolding all by (auto simp: only_observes_def exec_tool_simps split: if_splits)
  have "(\<exists>t. reg_tools r ''exec'' = Some t) \<longleftrightarrow> ?shell \<noteq> []"
    unfolding all using others exec_tool_simps(1) [of E] by (auto split: if_splits)
  then have "reg_tools r ''exec'' \<noteq> None \<longleftrightarrow> cf_tools_exec config \<and> \<not> xc_production_safe (cf_extensions config)"
    by (simp split: if_splits)
  moreover have "reg_tools r ''promql_query'' = Some (promql_tool E)"
    unfolding all by (simp add: promql_tool_def builtin_name)
  ultimately show ?thesis using inv kinds by blast
qed

text \<open>
  The only built-in tool that can change anything is the shell. The registry a workspace starts with is
  well formed, all its tools are built in, every one but the shell only observes, and the shell is there
  exactly when the configuration enables it and is not production-safe.
\<close>

theorem only_the_shell_changes_anything:
  assumes "build_workspace_tools E I config ws tenant kube runbooks = Inr r"
  shows "registry_inv r \<and>
    (\<forall>name t. reg_tools r name = Some t \<longrightarrow> cd_source (rt_descriptor t) = CapabilitySource.Builtin \<and>
       (cd_effect (rt_descriptor t) = Observe \<or> name = ''exec'')) \<and>
    (reg_tools r ''exec'' \<noteq> None \<longleftrightarrow> cf_tools_exec config \<and> \<not> xc_production_safe (cf_extensions config))"
  using built_registry [OF assms] by blast

text \<open>The built-in tools have good names and identifiers, so registering them only fails when one is taken.\<close>

definition builtin_names :: "string list" where
  "builtin_names = [''promql_query'', ''docker_logs'', ''http_get'', ''log_query'', ''trace_search'', ''trace_get'', ''k8s_get'',
     ''k8s_events'', ''k8s_logs'', ''runbook_search'', ''runbook_read'', ''topology_query'', ''exec'']"

lemma builtin_names_good:
  "list_all (\<lambda>n. trim n = n \<and> n \<noteq> [] \<and> is_ok (parse_capability_id (capability_id BUILTIN_NAMESPACE n BUILTIN_VERSION))) builtin_names"
  by code_simp

definition is_builtin :: "ext \<Rightarrow> registered_tool \<Rightarrow> bool" where
  "is_builtin E t \<longleftrightarrow> (\<exists>n d schema risk. n \<in> set builtin_names \<and> t = builtin_tool E n d schema risk)"

lemma is_builtinI: "n \<in> set builtin_names \<Longrightarrow> is_builtin E (builtin_tool E n d schema risk)"
  unfolding is_builtin_def by blast

lemma builtin_tools_are_builtin:
  "is_builtin E (promql_tool E)" "is_builtin E (docker_logs_tool E)" "is_builtin E (http_get_tool E)"
  "is_builtin E (log_query_tool E)" "is_builtin E (trace_search_tool E)" "is_builtin E (trace_get_tool E)"
  "is_builtin E (k8s_get_tool E)" "is_builtin E (k8s_events_tool E)" "is_builtin E (k8s_logs_tool E)"
  "is_builtin E (runbook_search_entry E)" "is_builtin E (runbook_read_entry E)" "is_builtin E (topology_entry E)"
  "is_builtin E (exec_tool E)"
  unfolding builtin_tools exec_tool_def by (rule is_builtinI, simp add: builtin_names_def)+

lemma is_ok_and_then_const: "is_ok (and_then x (\<lambda>_. y)) = (is_ok x \<and> is_ok y)"
  by (cases x) simp_all

lemma is_builtin_cases:
  assumes "is_builtin E t"
  shows "trim (rt_name t) = rt_name t" and "rt_name t \<noteq> []" and "validate_for_enablement (rt_descriptor t) = Inr ()"
    and "cd_id (rt_descriptor t) = capability_id BUILTIN_NAMESPACE (rt_name t) BUILTIN_VERSION"
proof -
  from assms obtain n d schema risk where n: "n \<in> set builtin_names" and t: "t = builtin_tool E n d schema risk"
    by (auto simp: is_builtin_def)
  from n builtin_names_good have good: "trim n = n" "n \<noteq> []"
      "is_ok (parse_capability_id (capability_id BUILTIN_NAMESPACE n BUILTIN_VERSION))"
    by (auto simp: list_all_iff)
  then show "trim (rt_name t) = rt_name t" "rt_name t \<noteq> []" "validate_for_enablement (rt_descriptor t) = Inr ()"
      "cd_id (rt_descriptor t) = capability_id BUILTIN_NAMESPACE (rt_name t) BUILTIN_VERSION"
    by (auto simp: t builtin_tool_def builtin_def Let_def validate_for_enablement_def and_then_def is_ok_def
        requires_recovery_metadata_def MAX_OUTPUT_BYTES_def split: sum.splits)
qed

lemma register_builtin:
  assumes "registry_inv r" and "\<And>n t. reg_tools r n = Some t \<Longrightarrow> is_builtin E t"
    and "is_builtin E t" and "reg_tools r (rt_name t) = None"
  shows "\<exists>r'. register t r = Inr r'"
proof -
  note t = is_builtin_cases [OF assms(3)]
  have "reg_ids r (cd_id (rt_descriptor t)) = None"
  proof (rule ccontr)
    assume "reg_ids r (cd_id (rt_descriptor t)) \<noteq> None"
    with assms(1) obtain s where "reg_tools r (rt_name s) = Some s" "cd_id (rt_descriptor s) = cd_id (rt_descriptor t)"
      unfolding registry_inv_def by blast
    with assms(2,4) t(4) is_builtin_cases(4) [of E s] show False by (auto simp: capability_id_def)
  qed
  with assms(4) t show ?thesis by (simp add: register_def Let_def)
qed

lemma register_all_builtin:
  assumes "registry_inv r" and "\<And>n t. reg_tools r n = Some t \<Longrightarrow> is_builtin E t" and "distinct (map rt_name ts)"
    and "\<And>t. t \<in> set ts \<Longrightarrow> is_builtin E t \<and> reg_tools r (rt_name t) = None"
  shows "\<exists>r'. register_all ts r = Inr r'"
  using assms
proof (induction ts arbitrary: r)
  case (Cons a ts)
  then obtain r1 where r1: "register a r = Inr r1" using register_builtin [of r E a] by auto
  have "\<exists>r'. register_all ts r1 = Inr r'"
  proof (rule Cons.IH)
    show "registry_inv r1" by (rule register_inv [OF Cons.prems(1) r1])
    show "is_builtin E t" if "reg_tools r1 n = Some t" for n t
      using that Cons.prems(2,4) by (auto simp: register_InrD(1) [OF r1] split: if_splits)
    show "distinct (map rt_name ts)" using Cons.prems(3) by simp
    show "is_builtin E t \<and> reg_tools r1 (rt_name t) = None" if "t \<in> set ts" for t
      using that Cons.prems(3,4) by (auto simp: register_InrD(1) [OF r1] image_iff)
  qed
  with r1 show ?case by simp
qed simp

lemma register_all_append: "register_all (ts @ us) r = and_then (register_all ts r) (register_all us)"
  by (induction ts arbitrary: r) (simp_all add: and_then_def split: sum.split)

text \<open>
  A workspace always gets its tools. Registering the built-in tools never fails: a workspace has its
  registry unless the address of Prometheus, Loki or Tempo is not acceptable or its runbooks cannot be loaded.
\<close>

lemma workspace_gets_its_tools:
  "is_ok (build_workspace_tools E I config ws tenant kube runbooks) =
     (is_ok (new_promql I (ws_prometheus_url ws) (rs_max_output_bytes (cf_runtime config))) \<and>
      is_ok (new_loki I (ws_loki_url ws) (ws_loki_tenant_header ws) tenant (lc_max_range_seconds (cf_loki config))
        (lc_max_lines (cf_loki config)) (rs_max_output_bytes (cf_runtime config))) \<and>
      is_ok (new_trace_search I (ws_tempo_url ws) (tc_max_range_seconds (cf_tempo config)) (rs_max_output_bytes (cf_runtime config))) \<and>
      is_ok (new_trace_get I (ws_tempo_url ws) (rs_max_output_bytes (cf_runtime config))) \<and> is_ok runbooks)"
proof -
  let ?shell = "if cf_tools_exec config \<and> \<not> xc_production_safe (cf_extensions config) then [exec_tool E] else []"
  let ?all = "[promql_tool E, docker_logs_tool E, http_get_tool E] @ [log_query_tool E] @ [trace_search_tool E] @
    (trace_get_tool E # kube_tools E kube) @ [runbook_search_entry E, runbook_read_entry E, topology_entry E] @ ?shell"
  have "is_builtin E t" if "t \<in> set ?all" for t
    using that builtin_tools_are_builtin [of E] by (auto simp: kube_tools_def split: option.splits sum.splits if_splits)
  moreover have "distinct (map rt_name ?all)"
  proof -
    have "?shell \<in> {[], [exec_tool E]}" by simp
    moreover have "kube_tools E kube \<in> {[], [k8s_get_tool E, k8s_events_tool E, k8s_logs_tool E]}"
      by (auto simp: kube_tools_def split: option.split sum.split)
    moreover have "distinct (map rt_name ([promql_tool E, docker_logs_tool E, http_get_tool E] @ [log_query_tool E] @
        [trace_search_tool E] @ (trace_get_tool E # kube) @ [runbook_search_entry E, runbook_read_entry E, topology_entry E] @ shell))"
      if "shell \<in> {[], [exec_tool E]}" and "kube \<in> {[], [k8s_get_tool E, k8s_events_tool E, k8s_logs_tool E]}" for shell kube
      using that by (auto simp: builtin_tools exec_tool_def builtin_name)
    ultimately show ?thesis by blast
  qed
  ultimately have "\<exists>r. register_all ?all empty_registry = Inr r"
    by (intro register_all_builtin [where E = E] registry_inv_empty) (simp_all add: empty_registry_def)
  then obtain r1 r2 r3 r4 r5 where regs:
    "register_all [promql_tool E, docker_logs_tool E, http_get_tool E] empty_registry = Inr r1"
    "register_all [log_query_tool E] r1 = Inr r2" "register_all [trace_search_tool E] r2 = Inr r3"
    "register_all (trace_get_tool E # kube_tools E kube) r3 = Inr r4"
    "register_all ([runbook_search_entry E, runbook_read_entry E, topology_entry E] @ ?shell) r4 = Inr r5"
    unfolding register_all_append [of "[promql_tool E, docker_logs_tool E, http_get_tool E]"]
      register_all_append [of "[log_query_tool E]"] register_all_append [of "[trace_search_tool E]"]
      register_all_append [of "trace_get_tool E # kube_tools E kube"] and_then_Inr_iff by blast
  show ?thesis
    unfolding build_workspace_tools_def Let_def regs and_then_simps is_ok_and_then_const is_ok_simps by blast
qed

text \<open>A workspace without Kubernetes, with the default configuration.\<close>

definition plain_workspace :: Workspace where
  "plain_workspace = \<lparr>ws_id = ''default'', ws_display_name = ''Default'', ws_environment = ''local'',
     ws_prometheus_url = ''http://localhost:9090'', ws_loki_url = ''http://localhost:3100'',
     ws_loki_tenant_header = ''X-Scope-OrgID'', ws_loki_tenant_env = ''LOKI_TENANT'', ws_tempo_url = ''http://localhost:3200'',
     ws_allowed_hosts = [''localhost''], ws_allowed_containers = [], ws_kubernetes = None, ws_runbook_dir = None,
     ws_max_concurrent_turns = 1, ws_max_effect = None, ws_allow_remediation = False\<rparr>"

lemma only_the_shell_changes_anything_witness:
  "\<exists>r. build_workspace_tools demo_ext demo_io default_config plain_workspace None None (Inr []) = Inr r \<and>
     registry_inv r \<and> reg_tools r ''exec'' = None"
proof -
  have "is_ok (build_workspace_tools demo_ext demo_io default_config plain_workspace None None (Inr []))"
    by (simp add: workspace_gets_its_tools new_promql_def new_loki_def new_trace_search_def new_trace_get_def service_url_def
        demo_url_def)
  then obtain r where r: "build_workspace_tools demo_ext demo_io default_config plain_workspace None None (Inr []) = Inr r"
    by (auto simp: is_ok_iff)
  from only_the_shell_changes_anything [OF r] have "registry_inv r" and "reg_tools r ''exec'' = None"
    by (simp_all add: default_config_def)
  with r show ?thesis by blast
qed

section \<open>What a tool can reach\<close>

text \<open>The outside with only some requests and some commands; all others fail without reaching anything.\<close>

definition limited :: "(HttpRequest \<Rightarrow> bool) \<Rightarrow> (string \<Rightarrow> string list \<Rightarrow> bool) \<Rightarrow> 'w tool_env \<Rightarrow> 'w tool_env" where
  "limited ok may T = T\<lparr>te_io := only_to ok (te_io T),
     te_run := (\<lambda>program args w. if may program args then te_run T program args w else (CommandFailed ''not allowed'', w))\<rparr>"

lemma limited_simps [simp]:
  "te_ext (limited ok may T) = te_ext T" "te_io (limited ok may T) = only_to ok (te_io T)"
  "te_cancelled (limited ok may T) = te_cancelled T" "te_elapsed_ms (limited ok may T) = te_elapsed_ms T"
  "te_second (limited ok may T) = te_second T" "te_timestamp (limited ok may T) = te_timestamp T"
  "te_nanos (limited ok may T) = te_nanos T" "te_parse_time (limited ok may T) = te_parse_time T"
  by (simp_all add: limited_def)

lemma only_to_other [simp]:
  "io_sleep (only_to ok I) = io_sleep I" "url_set_path (only_to ok I) = url_set_path I"
  "url_append_pairs (only_to ok I) = url_append_pairs I" "status_display (only_to ok I) = status_display I"
  "http_status_error (only_to ok I) = http_status_error I" "parse_body (only_to ok I) = parse_body I"
  "validate_http_url (only_to ok I) = validate_http_url I"
  by (simp_all add: only_to_def http_status_error_def parse_body_def validate_http_url_def fun_eq_iff)

lemma limited_parts [simp]:
  "refuse_cancelled (limited ok may T) = refuse_cancelled T" "timed_evidence (limited ok may T) = timed_evidence T"
  "check_log_query (limited ok may T) = check_log_query T" "loki_request (limited ok may T) = loki_request T"
  "validate_range (limited ok may T) = validate_range T" "decode_trace (limited ok may T) = decode_trace T"
  by (simp_all add: refuse_cancelled_def timed_evidence_def check_log_query_def loki_request_def nanos_or_zero_def
    range_seconds_def validate_range_def decode_trace_def fun_eq_iff)

lemma send_read_limited: "ok rq \<Longrightarrow> send_read (only_to ok I) failed rq = send_read I failed rq"
  by (simp add: send_read_def only_to_send)

lemma run_command_limited:
  "may program args \<Longrightarrow> run_command (limited ok may T) failed exited program args n = run_command T failed exited program args n"
  by (simp add: run_command_def limited_def sask_def)

lemma retry_from_sleep:
  "io_sleep J = io_sleep I \<Longrightarrow> retry_from J m k op w = retry_from I m k op w"
proof (induction I m k op w rule: retry_from.induct)
  case (1 I m k op w)
  show ?case unfolding retry_from.simps [of J m k op w] retry_from.simps [of I m k op w]
    using 1 by (auto split: prod.split sum.split)
qed

lemma retry_readonly_only_to [simp]: "retry_readonly (only_to ok I) m op = retry_readonly I m op"
  by (simp add: retry_readonly_def retry_from_sleep fun_eq_iff)

lemma fetch_limited:
  "ok rq \<Longrightarrow> fetch_once (limited ok may T) service n rq = fetch_once T service n rq"
  "ok rq \<Longrightarrow> fetch_trace_once (limited ok may T) n rq = fetch_trace_once T n rq"
  by (simp_all add: fetch_once_def fetch_trace_once_def send_read_limited cong: if_cong)

lemma fetch_bounded_limited:
  "ok (get_of [] (url_append_pairs (te_io T) pairs url)) \<Longrightarrow> fetch_bounded (limited ok may T) url pairs n = fetch_bounded T url pairs n"
  by (simp add: fetch_bounded_def fetch_limited)

text \<open>A step whose outcome is decided before the outside is asked.\<close>

lemma slift_bind_cong: "(\<And>a. r = Inr a \<Longrightarrow> f a = g a) \<Longrightarrow> sbind (slift r) f = sbind (slift r) g"
  by (cases r) (simp_all add: fun_eq_iff sm_simps)

definition reads_from :: "(Url \<Rightarrow> bool) \<Rightarrow> HttpRequest \<Rightarrow> bool" where
  "reads_from ok q \<longleftrightarrow> rq_method q = GET \<and> rq_body q = None \<and> rq_bearer q = None \<and> ok (rq_url q)"

lemma reads_from_get [simp]: "reads_from ok (get_of headers url) = ok url"
  by (simp add: reads_from_def get_of_def)

definition no_command :: "string \<Rightarrow> string list \<Rightarrow> bool" where "no_command program args = False"

definition allowlisted :: "HttpGetTool \<Rightarrow> Url \<Rightarrow> bool" where
  "allowlisted t u \<longleftrightarrow> url_scheme u \<in> {''http'', ''https''} \<and> url_username u = [] \<and> url_password u = None \<and>
     (case url_host u of None \<Rightarrow> False | Some h \<Rightarrow> normalize_host h \<in> set (hg_allowed_hosts t))"

definition within_limits :: "'w tool_env \<Rightarrow> LokiTool \<Rightarrow> HttpRequest \<Rightarrow> bool" where
  "within_limits T t q \<longleftrightarrow> (\<exists>a limit direction. q = loki_request T t a limit direction \<and> limit \<le> lk_max_lines t \<and>
     lq_start a \<le> lq_end a \<and> range_seconds T (lq_start a) (lq_end a) \<le> lk_max_range_seconds t)"

lemma check_log_query_within:
  "check_log_query T t a = Inr (limit, direction) \<Longrightarrow> within_limits T t (loki_request T t a limit direction)"
  unfolding within_limits_def
  by (rule exI [of _ a], rule exI [of _ limit], rule exI [of _ direction])
    (auto simp: check_log_query_def Let_def not_less split: if_splits)

lemma validate_http_url_allowlisted: "validate_http_url I t v = Inr u \<Longrightarrow> allowlisted t u"
  by (auto simp: validate_http_url_def allowlisted_def and_then_Inr_iff ok_or_def split: if_splits option.splits)


text \<open>
  Commands are contained. Reading container logs runs nothing but the log command of an allowlisted
  container with a bounded number of lines, and the shell tool nothing but the shell with one command of
  bounded length; neither sends a request.
\<close>

theorem commands_are_contained:
  "docker_logs T t request = docker_logs (limited (\<lambda>_. False) (\<lambda>program args. program = dl_binary t \<and>
     (\<exists>a. args = docker_args a \<and> da_container a \<in> set (dl_allowed_containers t) \<and> da_tail a \<le> 10000)) T) t request \<and>
   exec_command T n command = exec_command (limited (\<lambda>_. False) (\<lambda>program args. program = ''sh'' \<and>
     (\<exists>c. args = [''-c'', c] \<and> trim c \<noteq> [] \<and> length c \<le> 16 * 1024)) T) n command"
proof
  show "docker_logs T t request = docker_logs (limited (\<lambda>_. False) (\<lambda>program args. program = dl_binary t \<and>
     (\<exists>a. args = docker_args a \<and> da_container a \<in> set (dl_allowed_containers t) \<and> da_tail a \<le> 10000)) T) t request"
    unfolding docker_logs_def limited_parts
    by (intro arg_cong2 [where f = sbind] refl ext if_cong run_command_limited [symmetric]) (auto simp: not_less)
  show "exec_command T n command = exec_command (limited (\<lambda>_. False) (\<lambda>program args. program = ''sh'' \<and>
     (\<exists>c. args = [''-c'', c] \<and> trim c \<noteq> [] \<and> length c \<le> 16 * 1024)) T) n command"
    unfolding exec_command_def limited_parts
    by (intro arg_cong2 [where f = sbind] refl ext if_cong run_command_limited [symmetric]) (auto simp: not_less)
qed

section \<open>Edges\<close>

text \<open>An event whose last time is null is inside every window, also when it has an event time outside it.\<close>

lemma event_without_last_time_is_always_in_window:
  "event_in_window T (JObj [(''eventTime'', JStr v), (''lastTimestamp'', JNull)]) first final"
  by (simp add: event_in_window_def)

text \<open>A long runbook with a character across the end of the excerpt cannot be read.\<close>

lemma long_runbook_panics:
  "runbook_excerpt body = None \<longleftrightarrow> 8 * 1024 < length body \<and> \<not> is_char_boundary (8 * 1024) body"
  by (auto simp: runbook_excerpt_def str_slice_to_def)

end
