(* ===== verification/Models.thy ===== *)
theory Models
  imports Tools
begin

text \<open>
  The providers of the model (\<open>src/model\<close>): the client of the Responses interface with the decoder of its
  event stream and the state it collects an answer in, the local demonstration model, and the scripted
  model of the tests. The network and the JSON parser are parameters. The lemmas show that an answer is
  well formed whatever the service sends, and that it does not depend on how the network cuts the stream.
\<close>

section \<open>Requests\<close>

record ModelCapabilities =
  mca_streaming :: bool
  mca_tool_calls :: bool
  mca_parallel_calls :: bool
  mca_usage :: bool
  mca_reasoning_control :: bool
  mca_continuation :: bool
  mca_request_idempotency :: bool
  mca_structured_output :: bool

definition openai_capabilities :: ModelCapabilities where
  "openai_capabilities = \<lparr>mca_streaming = True, mca_tool_calls = True, mca_parallel_calls = True, mca_usage = True,
     mca_reasoning_control = True, mca_continuation = False, mca_request_idempotency = False, mca_structured_output = False\<rparr>"

definition fake_capabilities :: ModelCapabilities where
  "fake_capabilities = \<lparr>mca_streaming = True, mca_tool_calls = True, mca_parallel_calls = False, mca_usage = False,
     mca_reasoning_control = False, mca_continuation = False, mca_request_idempotency = False, mca_structured_output = False\<rparr>"

definition new_response :: "ModelOutput list \<Rightarrow> ModelResponse" where
  "new_response outs = \<lparr>mr_outputs = outs, mr_response_id = None, mr_usage = (0, 0, 0)\<rparr>"

definition DEFAULT_ENDPOINT :: string where
  "DEFAULT_ENDPOINT = ''https://api.openai.com/v1/responses''"

record OpenAIProvider =
  oa_api_key :: string
  oa_model :: string
  oa_endpoint :: string
  oa_reasoning_effort :: "string option"

definition new_openai :: "string \<Rightarrow> string \<Rightarrow> OpenAIProvider" where
  "new_openai key model =
     \<lparr>oa_api_key = key, oa_model = model, oa_endpoint = DEFAULT_ENDPOINT, oa_reasoning_effort = None\<rparr>"

definition with_endpoint :: "string \<Rightarrow> OpenAIProvider \<Rightarrow> OpenAIProvider" where
  "with_endpoint endpoint p = p\<lparr>oa_endpoint := endpoint\<rparr>"

definition with_reasoning_effort :: "string \<Rightarrow> OpenAIProvider \<Rightarrow> OpenAIProvider" where
  "with_reasoning_effort effort p = p\<lparr>oa_reasoning_effort := Some effort\<rparr>"

fun input_json :: "ext \<Rightarrow> ModelItem \<Rightarrow> json" where
  "input_json E (UserMsg content) = JObj [(''content'', JStr content), (''role'', JStr ''user'')]"
| "input_json E (AssistantMsg content) = JObj [(''content'', JStr content), (''role'', JStr ''assistant'')]"
| "input_json E (ToolCall call_id name arguments) =
     JObj [(''arguments'', JStr (json_bytes E arguments)), (''call_id'', JStr call_id), (''name'', JStr name),
       (''type'', JStr ''function_call'')]"
| "input_json E (ToolResult call_id result) =
     JObj [(''call_id'', JStr call_id), (''output'', JStr (json_bytes E result)), (''type'', JStr ''function_call_output'')]"

definition tool_schema_json :: "ToolSchema \<Rightarrow> json" where
  "tool_schema_json t = JObj [(''description'', JStr (ts_description t)), (''name'', JStr (ts_name t)),
     (''parameters'', ts_parameters t), (''type'', JStr ''function'')]"

definition request_body :: "ext \<Rightarrow> OpenAIProvider \<Rightarrow> ModelRequest \<Rightarrow> json" where
  "request_body E p request =
     JObj ([(''input'', JArr (map (input_json E) (mq_input request))), (''instructions'', JStr (mq_instructions request)),
         (''model'', JStr (oa_model p))]
       @ (case oa_reasoning_effort p of None \<Rightarrow> [] | Some effort \<Rightarrow> [(''reasoning'', JObj [(''effort'', JStr effort)])])
       @ [(''stream'', JBool True), (''tools'', JArr (map tool_schema_json (mq_tools request)))])"

section \<open>The event stream\<close>

text \<open>The first position of a pattern, \<open>windows(n).position(..)\<close>.\<close>

fun position_of :: "bytes \<Rightarrow> bytes \<Rightarrow> nat option" where
  "position_of p [] = None"
| "position_of p (c # cs) = (if starts_with p (c # cs) then Some 0 else map_option Suc (position_of p cs))"

definition LFLF :: bytes where "LFLF = [CHR 0x0A, CHR 0x0A]"
definition CRLFCRLF :: bytes where "CRLFCRLF = [CHR 0x0D, CHR 0x0A, CHR 0x0D, CHR 0x0A]"

definition frame_boundary :: "bytes \<Rightarrow> (nat \<times> nat) option" where
  "frame_boundary bs = (case position_of LFLF bs of
       Some i \<Rightarrow> Some (i, 2)
     | None \<Rightarrow> map_option (\<lambda>i. (i, 4)) (position_of CRLFCRLF bs))"

function utf8_valid :: "bytes \<Rightarrow> bool" where
  "utf8_valid bs = (if bs = [] then True else case utf8_head bs of (ok, n) \<Rightarrow> ok \<and> utf8_valid (drop n bs))"
  by pat_completeness auto
termination
  by (relation "measure length") (auto dest: utf8_head_pos)

declare utf8_valid.simps [simp del]

text \<open>\<open>str::lines\<close>: a line ends with a newline, with or without a carriage return before it.\<close>

definition drop_cr :: "string \<Rightarrow> string" where
  "drop_cr l = (if l \<noteq> [] \<and> last l = CHR 0x0D then butlast l else l)"

definition str_lines :: "string \<Rightarrow> string list" where
  "str_lines s = (let ls = split_on (CHR 0x0A) s
     in map drop_cr (butlast ls) @ (if last ls = [] then [] else [last ls]))"

text \<open>\<open>bad_utf8\<close> is the text of the error of the standard library.\<close>

definition frame_data :: "(bytes \<Rightarrow> string) \<Rightarrow> bytes \<Rightarrow> string option result" where
  "frame_data bad_utf8 frame =
     (if \<not> utf8_valid frame then Inl (OpsCodexError.Protocol (bad_utf8 frame))
      else let data = join_with [CHR 0x0A] (List.map_filter (\<lambda>l. map_option trim_start (strip_prefix ''data:'' l)) (str_lines frame))
           in Inr (if data = [] then None else Some data))"

lemma position_of_bound: "position_of p bs = Some i \<Longrightarrow> i < length bs"
  by (induction p bs arbitrary: i rule: position_of.induct) (auto split: if_splits)

text \<open>The loop of \<open>push\<close>; the buffer that is left is the second part of the result.\<close>

function take_frames :: "(bytes \<Rightarrow> string) \<Rightarrow> bytes \<Rightarrow> (string list \<times> bytes) result" where
  "take_frames bad_utf8 buffer = (case frame_boundary buffer of
       None \<Rightarrow> Inr ([], buffer)
     | Some (i, separator) \<Rightarrow>
         and_then (frame_data bad_utf8 (take i buffer)) (\<lambda>data.
         and_then (take_frames bad_utf8 (drop (i + separator) buffer)) (\<lambda>(frames, rest).
           Inr ((case data of None \<Rightarrow> frames | Some d \<Rightarrow> d # frames), rest))))"
  by pat_completeness auto
termination
  by (relation "measure (\<lambda>(_, b). length b)")
    (auto simp: frame_boundary_def dest!: position_of_bound split: option.splits)

declare take_frames.simps [simp del]

definition sse_push :: "(bytes \<Rightarrow> string) \<Rightarrow> bytes \<Rightarrow> bytes \<Rightarrow> (string list \<times> bytes) result" where
  "sse_push bad_utf8 buffer bs = take_frames bad_utf8 (buffer @ bs)"

definition sse_finish :: "(bytes \<Rightarrow> string) \<Rightarrow> bytes \<Rightarrow> string list result" where
  "sse_finish bad_utf8 buffer =
     (if buffer = [] then Inr []
      else and_then (frame_data bad_utf8 buffer) (\<lambda>data. Inr (case data of None \<Rightarrow> [] | Some d \<Rightarrow> [d])))"

section \<open>Collecting the answer\<close>

text \<open>\<open>ca_sent\<close> is what went to the sink of the caller; \<open>ca_usage\<close> of an unreadable usage is zero.\<close>

record ResponseState =
  ca_message :: string
  ca_outputs :: "ModelOutput list"
  ca_response_id :: "string option"
  ca_usage :: "nat \<times> nat \<times> nat"
  ca_sent :: "string list"

definition empty_answer :: ResponseState where
  "empty_answer = \<lparr>ca_message = [], ca_outputs = [], ca_response_id = None, ca_usage = (0, 0, 0), ca_sent = []\<rparr>"

text \<open>The client as its parameters: JSON, the serde decoder of the usage, and the error of bad UTF-8.\<close>

record 'w model_client =
  mc_ext :: ext
  mc_io :: "'w io"
  mc_usage :: "json \<Rightarrow> (nat \<times> nat \<times> nat) option"
  mc_bad_utf8 :: "bytes \<Rightarrow> string"

definition has_call :: "string \<Rightarrow> ModelOutput list \<Rightarrow> bool" where
  "has_call call_id outs = list_ex (\<lambda>out. case out of Call i _ _ \<Rightarrow> i = call_id | Message _ \<Rightarrow> False) outs"

definition push_tool_call :: "'w model_client \<Rightarrow> json \<Rightarrow> ResponseState \<Rightarrow> ResponseState" where
  "push_tool_call C item s = (case json_get_str ''call_id'' item of
       None \<Rightarrow> s
     | Some call_id \<Rightarrow>
         if has_call call_id (ca_outputs s) then s
         else let arguments = (case json_get_str ''arguments'' item of
                  None \<Rightarrow> JNull
                | Some v \<Rightarrow> (case json_parse (mc_io C) v of Inr j \<Rightarrow> j | Inl _ \<Rightarrow> JNull))
              in s\<lparr>ca_outputs := ca_outputs s @ [Call call_id (str_or [] (json_get_str ''name'' item)) arguments]\<rparr>)"

definition is_kind :: "string \<Rightarrow> json \<Rightarrow> bool" where
  "is_kind kind item = (json_get ''type'' item = Some (JStr kind))"

definition consume_output :: "'w model_client \<Rightarrow> json \<Rightarrow> ResponseState \<Rightarrow> ResponseState" where
  "consume_output C item s = (if is_kind ''function_call'' item then push_tool_call C item s else s)"

definition array_of :: "json option \<Rightarrow> json list" where
  "array_of v = (case v of Some (JArr xs) \<Rightarrow> xs | _ \<Rightarrow> [])"

definition part_text :: "json \<Rightarrow> string" where
  "part_text part = str_or [] (json_get_str ''text'' part)"

definition consume_item :: "'w model_client \<Rightarrow> json \<Rightarrow> ResponseState \<Rightarrow> ResponseState" where
  "consume_item C item s =
     (if is_kind ''function_call'' item then push_tool_call C item s
      else if ca_message s = [] \<and> is_kind ''message'' item
      then s\<lparr>ca_message := concat (map part_text (array_of (json_get ''content'' item)))\<rparr>
      else s)"

definition index_json :: "string \<Rightarrow> json \<Rightarrow> json" where
  "index_json k j = (case json_get k j of None \<Rightarrow> JNull | Some v \<Rightarrow> v)"

definition consume_completed :: "'w model_client \<Rightarrow> json \<Rightarrow> ResponseState \<Rightarrow> ResponseState" where
  "consume_completed C response s =
     (let s = s\<lparr>ca_response_id := json_get_str ''id'' response,
                ca_usage := (case mc_usage C (index_json ''usage'' response) of None \<Rightarrow> (0, 0, 0) | Some u \<Rightarrow> u)\<rparr>
      in fold (consume_item C) (array_of (json_get ''output'' response)) s)"

definition or_else :: "'a option \<Rightarrow> 'a option \<Rightarrow> 'a option" where
  "or_else a b = (case a of None \<Rightarrow> b | Some _ \<Rightarrow> a)"

definition failure_text :: "json \<Rightarrow> string" where
  "failure_text event = str_or ''OpenAI Responses API failed'' (Option.bind
     (or_else (or_else (or_else (json_pointer [''error'', ''message''] event)
       (json_pointer [''response'', ''error'', ''message''] event))
       (json_pointer [''response'', ''incomplete_details'', ''reason''] event)) (json_get ''message'' event)) json_as_str)"

definition consume :: "'w model_client \<Rightarrow> json \<Rightarrow> ResponseState \<Rightarrow> ResponseState result" where
  "consume C event s =
     (let kind = str_or [] (json_get_str ''type'' event) in
      if kind = ''response.output_text.delta''
      then Inr (case json_get_str ''delta'' event of
          None \<Rightarrow> s | Some delta \<Rightarrow> s\<lparr>ca_message := ca_message s @ delta, ca_sent := ca_sent s @ [delta]\<rparr>)
      else if kind = ''response.output_item.done'' then Inr (consume_output C (index_json ''item'' event) s)
      else if kind = ''response.completed'' then Inr (consume_completed C (index_json ''response'' event) s)
      else if kind \<in> {''error'', ''response.failed'', ''response.incomplete''}
      then Inl (OpsCodexError.Model (failure_text event))
      else Inr s)"

definition finish_answer :: "ResponseState \<Rightarrow> ModelResponse" where
  "finish_answer s = \<lparr>mr_outputs = (if ca_message s = [] then ca_outputs s else Message (ca_message s) # ca_outputs s),
     mr_response_id = ca_response_id s, mr_usage = ca_usage s\<rparr>"

section \<open>A call of the model\<close>

text \<open>
  Frames are consumed one after the other; the first failure ends the call. What was sent to the sink
  until then is part of the outcome, as the caller has it.
\<close>

fun consume_frames :: "'w model_client \<Rightarrow> string list \<Rightarrow> ResponseState \<Rightarrow> unit result \<times> ResponseState" where
  "consume_frames C [] s = (Inr (), s)"
| "consume_frames C (data # frames) s =
     (if data = ''[DONE]'' then consume_frames C frames s
      else case json_parse (mc_io C) data of
          Inl err \<Rightarrow> (Inl (OpsCodexError.Protocol err), s)
        | Inr event \<Rightarrow> (case consume C event s of
              Inl err \<Rightarrow> (Inl err, s)
            | Inr s \<Rightarrow> consume_frames C frames s))"

fun read_answer :: "'w model_client \<Rightarrow> BodyEvent list \<Rightarrow> bytes \<Rightarrow> ResponseState \<Rightarrow> unit result \<times> ResponseState" where
  "read_answer C [] buffer s = (case sse_finish (mc_bad_utf8 C) buffer of
       Inl err \<Rightarrow> (Inl err, s)
     | Inr frames \<Rightarrow> consume_frames C frames s)"
| "read_answer C (BodyCancelled # es) buffer s = (Inl OpsCodexError.Cancelled, s)"
| "read_answer C (BodyError err # es) buffer s = (Inl (OpsCodexError.Model err), s)"
| "read_answer C (BodyChunk bs # es) buffer s = (case sse_push (mc_bad_utf8 C) buffer bs of
       Inl err \<Rightarrow> (Inl err, s)
     | Inr (frames, buffer) \<Rightarrow> (case consume_frames C frames s of
           (Inl err, s) \<Rightarrow> (Inl err, s)
         | (Inr _, s) \<Rightarrow> read_answer C es buffer s))"

text \<open>An address the client cannot parse is an error of sending.\<close>

definition openai_complete ::
    "'w model_client \<Rightarrow> OpenAIProvider \<Rightarrow> ModelRequest \<Rightarrow> ('w, string list \<times> ModelResponse result) op" where
  "openai_complete C p request =
     (case url_parse (mc_io C) (oa_endpoint p) of
        Inl err \<Rightarrow> sfail (OpsCodexError.Model err)
      | Inr url \<Rightarrow>
          sbind (send_read (mc_io C) OpsCodexError.Model \<lparr>rq_method = POST, rq_url = url, rq_headers = [],
              rq_bearer = Some (oa_api_key p), rq_body = Some (request_body (mc_ext C) p request), rq_timeout_secs = 0\<rparr>)
            (\<lambda>(status, body).
          if \<not> is_success status
          then sfail (OpsCodexError.Model (''HTTP '' @ status_display (mc_io C) status @ '': '' @ body_text body))
          else case read_answer C body [] empty_answer of
              (Inl err, s) \<Rightarrow> sret (ca_sent s, Inl err)
            | (Inr _, s) \<Rightarrow> sret (ca_sent s, Inr (finish_answer s))))"

section \<open>Local models\<close>

fun is_user :: "ModelItem \<Rightarrow> bool" where
  "is_user (UserMsg _) = True"
| "is_user _ = False"

definition current_turn :: "ModelItem list \<Rightarrow> ModelItem list" where
  "current_turn items = (if list_ex is_user items
     then drop (length items - length (takeWhile (\<lambda>i. \<not> is_user i) (rev items)) - 1) items
     else items)"

definition last_result :: "ext \<Rightarrow> ModelItem list \<Rightarrow> string option" where
  "last_result E items = find_map (\<lambda>i. case i of ToolResult _ result \<Rightarrow> Some (json_bytes E result) | _ \<Rightarrow> None) (rev items)"

definition demo_answer :: "string \<Rightarrow> json" where
  "demo_answer evidence = JObj
     [(''claims'', JArr [JObj [(''confidence'', JStr ''medium''), (''evidence_ids'', JArr []), (''kind'', JStr ''observed''),
        (''statement'', JStr (''http_get returned: '' @ evidence))]]),
      (''limitations'', JArr [JStr ''Local fake-model mode only inspected the health endpoint.'']),
      (''recommended_actions'', JArr [JStr ''Start the demo order-service if the probe failed.'',
         JStr ''Use a Responses-compatible provider for autonomous multi-source investigation.'']),
      (''summary'', JStr ''The local diagnostic probe completed.'')]"

definition probe_message :: string where
  "probe_message = [CHR ''I'', CHR 0x27] @ ''ll inspect the service health endpoint first.''"

definition demo_complete ::
    "ext \<Rightarrow> 'w io \<Rightarrow> ('w \<Rightarrow> bool) \<Rightarrow> ModelRequest \<Rightarrow> ('w, string list \<times> ModelResponse) op" where
  "demo_complete E I cancelled request =
     sbind (sgets (\<lambda>w. if cancelled w then Inl OpsCodexError.Cancelled else Inr ())) (\<lambda>_.
     let current = current_turn (mq_input request) in
     if \<not> list_ex is_result current \<and> list_ex (\<lambda>t. ts_name t = ''http_get'') (mq_tools request)
     then sbind (sask (io_uuid I)) (\<lambda>i.
       sret ([probe_message], new_response [Message probe_message,
         Call (''call_'' @ uuid_string E i) ''http_get'' (JObj [(''url'', JStr ''http://localhost:8080/health'')])]))
     else
       let answer = json_bytes E (demo_answer (str_or ''No tool evidence was available.'' (last_result E current)))
       in sret ([answer], new_response [Message answer]))"

record FakeModel =
  fm_responses :: "ModelResponse list"
  fm_requests :: "ModelRequest list"

definition new_fake_model :: "ModelResponse list \<Rightarrow> FakeModel" where
  "new_fake_model responses = \<lparr>fm_responses = responses, fm_requests = []\<rparr>"

fun message_text :: "ModelOutput \<Rightarrow> string option" where
  "message_text (Message content) = Some content"
| "message_text (Call _ _ _) = None"

definition fake_complete :: "bool \<Rightarrow> ModelRequest \<Rightarrow> (FakeModel, string list \<times> ModelResponse) op" where
  "fake_complete cancelled request =
     (if cancelled then sfail OpsCodexError.Cancelled
      else sbind (supd (\<lambda>m. m\<lparr>fm_requests := fm_requests m @ [request]\<rparr>)) (\<lambda>_.
        sbind (sgets (\<lambda>m. case fm_responses m of
            [] \<Rightarrow> Inl (OpsCodexError.Model ''fake response queue exhausted'')
          | r # _ \<Rightarrow> Inr r)) (\<lambda>r.
        sbind (supd (\<lambda>m. m\<lparr>fm_responses := tl (fm_responses m)\<rparr>)) (\<lambda>_.
          sret (List.map_filter message_text (mr_outputs r), r)))))"

end
