(* ===== verification/ModelsSafety.thy ===== *)
theory ModelsSafety
  imports Models
begin

text \<open>
  What holds of the answers of the model service: they are well formed whatever the service sends, and
  they do not depend on how the network cuts the stream into chunks.
\<close>

section \<open>Ill-formed streams\<close>

lemma utf8_head_ok:
  assumes "utf8_head bs = (True, n)" and "bs \<noteq> []"
  shows "0 < n" and "n \<le> length bs" and "\<And>k. 0 < k \<Longrightarrow> k < n \<Longrightarrow> 128 \<le> (of_char (bs ! k) :: nat)"
proof -
  show "0 < n" using utf8_head_pos [of True n bs] assms(1) by simp
  have parts: "n \<in> {1, 2, 3, 4} \<and> (1 < n \<longrightarrow> (\<exists>lo hi. 128 \<le> lo \<and> byte_in lo hi bs 1)) \<and>
      (2 < n \<longrightarrow> byte_in 128 191 bs 2) \<and> (3 < n \<longrightarrow> byte_in 128 191 bs 3)"
    using assms(1) unfolding utf8_head_def Let_def
    by (auto split: if_splits intro: exI [of _ "128::nat"] exI [of _ "144::nat"] exI [of _ "160::nat"])
  have "1 \<le> length bs" using assms(2) by (cases bs) auto
  with parts show "n \<le> length bs" by (auto simp: byte_in_def)
  fix k assume "0 < k" "k < n"
  with parts have "k = 1 \<or> k = 2 \<or> k = 3" by auto
  with parts \<open>k < n\<close> show "128 \<le> (of_char (bs ! k) :: nat)" by (auto simp: byte_in_def)
qed

lemma utf8_head_take:
  assumes "utf8_head bs = (True, n)" and "n \<le> i"
  shows "utf8_head (take i bs) = (True, n)"
proof -
  have "0 < n" using utf8_head_pos [of True n bs] assms(1) by simp
  with assms(2) have "hd (take i bs) = hd bs" by (cases bs; cases i) auto
  moreover have "byte_in lo hi (take i bs) k = byte_in lo hi bs k" if "k < i" for lo hi k
    using that by (auto simp: byte_in_def)
  ultimately show ?thesis using assms unfolding utf8_head_def Let_def by (auto split: if_splits)
qed

text \<open>A valid text can be cut before every byte of the ASCII range.\<close>

lemma utf8_valid_cut:
  "utf8_valid bs \<Longrightarrow> i < length bs \<Longrightarrow> (of_char (bs ! i) :: nat) < 128 \<Longrightarrow> utf8_valid (take i bs) \<and> utf8_valid (drop i bs)"
proof (induction bs arbitrary: i rule: utf8_valid.induct)
  case (1 bs)
  from "1.prems"(2) have ne: "bs \<noteq> []" by auto
  obtain n where n: "utf8_head bs = (True, n)" and rest: "utf8_valid (drop n bs)"
    using "1.prems"(1) ne by (subst (asm) utf8_valid.simps) (auto split: prod.splits)
  note ok = utf8_head_ok [OF n ne]
  show ?case
  proof (cases "i = 0")
    case True
    then show ?thesis using "1.prems"(1) by (simp add: utf8_valid.simps [of "[]"])
  next
    case False
    with ok(3) [of i] "1.prems"(3) have "n \<le> i" by (meson leD leI not_gr_zero)
    moreover from this "1.prems"(2,3) have "(of_char (drop n bs ! (i - n)) :: nat) < 128" "i - n < length (drop n bs)"
      using ok(2) by (simp_all)
    ultimately have cut: "utf8_valid (take (i - n) (drop n bs))" "utf8_valid (drop (i - n) (drop n bs))"
      using "1.IH" [OF ne n [symmetric] rest] by blast+
    moreover have "take (i - n) (drop n bs) = drop n (take i bs)" by (simp add: drop_take)
    moreover have "utf8_valid (take i bs) \<longleftrightarrow> utf8_valid (drop n (take i bs))"
      by (subst utf8_valid.simps) (use utf8_head_take [OF n \<open>n \<le> i\<close>] False ne in auto)
    ultimately show ?thesis using \<open>n \<le> i\<close> by simp
  qed
qed

lemma utf8_valid_ascii_tail: "utf8_valid (c # cs) \<Longrightarrow> (of_char c :: nat) < 128 \<Longrightarrow> utf8_valid cs"
  by (subst (asm) utf8_valid.simps) (simp add: utf8_head_def)

section \<open>Frames\<close>

lemma position_of_Some:
  "position_of p bs = Some i \<Longrightarrow> take (length p) (drop i bs) = p \<and> (\<forall>j < i. take (length p) (drop j bs) \<noteq> p)"
proof (induction p bs arbitrary: i rule: position_of.induct)
  case (2 p c cs)
  show ?case
  proof (cases "starts_with p (c # cs)")
    case True
    with 2 show ?thesis by (simp add: starts_with_def)
  next
    case False
    with 2 obtain k where k: "i = Suc k" "position_of p cs = Some k" by auto
    have "take (length p) (drop j (c # cs)) \<noteq> p" if "j < i" for j
      using that k False 2 by (cases j) (auto simp: starts_with_def)
    with k False 2 show ?thesis by simp
  qed
qed simp

lemma position_of_fits: "position_of p bs = Some i \<Longrightarrow> i + length p \<le> length bs"
  using position_of_Some [of p bs i] position_of_bound [of p bs i]
  by (metis Nat.le_diff_conv2 add.commute length_drop length_take less_imp_le_nat min.cobounded1)

lemma starts_with_longer: "length p \<le> length a \<Longrightarrow> starts_with p (a @ b) = starts_with p a"
  by (simp add: starts_with_def)

lemma position_of_append: "position_of p a = Some i \<Longrightarrow> position_of p (a @ b) = Some i"
proof (induction p a arbitrary: i rule: position_of.induct)
  case (2 p c cs)
  have "starts_with p ((c # cs) @ b) = starts_with p (c # cs)"
    by (rule starts_with_longer) (use position_of_fits [OF "2.prems"] in simp)
  with 2 show ?case by (auto split: if_splits)
qed simp

lemma position_of_suffix: "position_of p (a @ b) = None \<Longrightarrow> position_of p b = None"
  by (induction a) (auto split: if_splits)

lemma LFLF_found:
  assumes "position_of LFLF bs = Some i"
  shows "i + 2 \<le> length bs" and "bs ! i = CHR 0x0A" and "drop i bs = CHR 0x0A # CHR 0x0A # drop (i + 2) bs"
proof -
  have two: "take 2 (drop i bs) = [CHR 0x0A, CHR 0x0A]" using position_of_Some [OF assms] by (simp add: LFLF_def numeral_2_eq_2)
  then have "length (take 2 (drop i bs)) = 2" by simp
  then show len: "i + 2 \<le> length bs" by simp
  have "drop i bs = take 2 (drop i bs) @ drop 2 (drop i bs)" by (rule append_take_drop_id [symmetric])
  then show tail: "drop i bs = CHR 0x0A # CHR 0x0A # drop (i + 2) bs" unfolding two by (simp add: add.commute)
  with len show "bs ! i = CHR 0x0A" by (metis Suc_leD add_2_eq_Suc' hd_drop_conv_nth le_trans less_eq_Suc_le list.sel(1) order_refl)
qed

text \<open>Whether a stream separates its frames by empty lines that end with newlines only.\<close>

definition newline_frames :: "bytes \<Rightarrow> bool" where
  "newline_frames bs \<longleftrightarrow> position_of CRLFCRLF bs = None"

lemma newline_frames_suffix: "newline_frames (a @ b) \<Longrightarrow> newline_frames b"
  by (simp add: newline_frames_def position_of_suffix)

lemma newline_frames_drop: "newline_frames bs \<Longrightarrow> newline_frames (drop n bs)"
  by (rule newline_frames_suffix [of "take n bs"]) simp

lemma position_of_prefix: "position_of p (a @ b) = None \<Longrightarrow> position_of p a = None"
  using position_of_append [of p a _ b] by (cases "position_of p a") auto

lemma boundary_newline: "newline_frames bs \<Longrightarrow> frame_boundary bs = map_option (\<lambda>i. (i, 2)) (position_of LFLF bs)"
  by (simp add: frame_boundary_def newline_frames_def split: option.split)

lemma and_then_assoc: "and_then (and_then r f) g = and_then r (\<lambda>x. and_then (f x) g)"
  by (cases r) simp_all

text \<open>Reading more bytes later gives the frames of now and then those of what is left with the new bytes.\<close>

lemma take_frames_append:
  "newline_frames (a @ b) \<Longrightarrow> take_frames bad (a @ b) =
     and_then (take_frames bad a) (\<lambda>(fs, r). and_then (take_frames bad (r @ b)) (\<lambda>(gs, r'). Inr (fs @ gs, r')))"
proof (induction bad a rule: take_frames.induct)
  case (1 bad a)
  have na: "newline_frames a" using "1.prems" position_of_prefix unfolding newline_frames_def by blast
  show ?case
  proof (cases "position_of LFLF a")
    case None
    then have "take_frames bad a = Inr ([], a)" by (subst take_frames.simps) (simp add: boundary_newline [OF na])
    then show ?thesis by (cases "take_frames bad (a @ b)") auto
  next
    case (Some i)
    note len = LFLF_found(1) [OF Some]
    have ba: "frame_boundary a = Some (i, 2)" by (simp add: boundary_newline [OF na] Some)
    have bab: "frame_boundary (a @ b) = Some (i, 2)"
      by (simp add: boundary_newline [OF "1.prems"] position_of_append [OF Some])
    have "newline_frames (drop (i + 2) a @ b)" using newline_frames_drop [OF "1.prems", of "i + 2"] len by simp
    note IH = "1.IH" [OF ba refl this]
    show ?thesis
    proof (cases "frame_data bad (take i a)")
      case (Inl err)
      then show ?thesis using len by (subst (1 2) take_frames.simps) (simp add: ba bab)
    next
      case (Inr data)
      have "take_frames bad (drop (i + 2) a @ b) = and_then (take_frames bad (drop (i + 2) a))
          (\<lambda>(fs, r). and_then (take_frames bad (r @ b)) (\<lambda>(gs, r'). Inr (fs @ gs, r')))"
        by (rule IH)
      then show ?thesis using len Inr
        unfolding take_frames.simps [of bad a] take_frames.simps [of bad "a @ b"]
        by (simp add: ba bab and_then_def split: sum.splits option.splits prod.splits)
    qed
  qed
qed

lemma take_frames_rest: "take_frames bad bs = Inr (fs, r) \<Longrightarrow> \<exists>k. r = drop k bs"
proof (induction bad bs arbitrary: fs r rule: take_frames.induct)
  case (1 bad bs)
  show ?case
  proof (cases "frame_boundary bs")
    case None
    with "1.prems" show ?thesis by (subst (asm) take_frames.simps) (auto intro: exI [of _ 0])
  next
    case (Some b)
    obtain i n where b: "b = (i, n)" by fastforce
    with "1.prems" Some obtain data gs where data: "frame_data bad (take i bs) = Inr data"
        and gs: "take_frames bad (drop (i + n) bs) = Inr (gs, r)"
      by (subst (asm) take_frames.simps) (auto simp: and_then_Inr_iff)
    from "1.IH" [OF Some b [symmetric] gs] show ?thesis by auto
  qed
qed

section \<open>An answer does not depend on the chunks\<close>

text \<open>The frames of a stream as a specification: those of the whole text, with the rest at its end.\<close>

definition stream_frames :: "(bytes \<Rightarrow> string) \<Rightarrow> bytes \<Rightarrow> string list result" where
  "stream_frames bad bs = and_then (take_frames bad bs) (\<lambda>(fs, r). and_then (sse_finish bad r) (\<lambda>gs. Inr (fs @ gs)))"

lemma consume_frames_append:
  "consume_frames C (fs @ gs) s = (case consume_frames C fs s of
     (Inl err, s') \<Rightarrow> (Inl err, s') | (Inr _, s') \<Rightarrow> consume_frames C gs s')"
  by (induction C fs s rule: consume_frames.induct) (auto split: sum.split)

lemma read_answer_frames:
  "stream_frames (mc_bad_utf8 C) (buffer @ concat chunks) = Inr frames \<Longrightarrow> newline_frames (buffer @ concat chunks) \<Longrightarrow>
     take_frames (mc_bad_utf8 C) buffer = Inr ([], buffer) \<Longrightarrow>
     read_answer C (map BodyChunk chunks) buffer s = consume_frames C frames s"
proof (induction chunks arbitrary: buffer frames s)
  case Nil
  then show ?case by (auto simp: stream_frames_def and_then_Inr_iff)
next
  case (Cons c cs)
  let ?bad = "mc_bad_utf8 C"
  obtain fs r where now: "take_frames ?bad (buffer @ c) = Inr (fs, r)"
      and later: "stream_frames ?bad (r @ concat cs) = Inr (drop (length fs) frames)" and fs: "take (length fs) frames = fs"
  proof -
    from Cons.prems(1,2) have "and_then (take_frames ?bad (buffer @ c)) (\<lambda>(fs, r). and_then (stream_frames ?bad (r @ concat cs))
        (\<lambda>gs. Inr (fs @ gs))) = Inr frames"
      using take_frames_append [of "buffer @ c" "concat cs" ?bad]
      by (auto simp: stream_frames_def and_then_Inr_iff split: prod.splits)
    then obtain fs r gs where "take_frames ?bad (buffer @ c) = Inr (fs, r)" "stream_frames ?bad (r @ concat cs) = Inr gs"
        "frames = fs @ gs"
      by (auto simp: and_then_Inr_iff split: prod.splits)
    then show thesis by (intro that) auto
  qed
  obtain k where k: "r = drop k (buffer @ c)" using take_frames_rest [OF now] by blast
  have left: "newline_frames (r @ concat cs)"
  proof -
    have "(buffer @ c) @ concat cs = take k (buffer @ c) @ r @ concat cs" using k by (metis append.assoc append_take_drop_id)
    with Cons.prems(2) show ?thesis using newline_frames_suffix by (metis append.assoc concat.simps(2))
  qed
  have whole: "take_frames ?bad r = Inr ([], r)"
    using take_frames_append [of "buffer @ c" "[]" ?bad] now Cons.prems(2) position_of_prefix
    by (auto simp: newline_frames_def and_then_def split: sum.splits prod.splits)
  have "consume_frames C frames s = consume_frames C (fs @ drop (length fs) frames) s"
    using fs by (metis append_take_drop_id)
  then show ?case
    using Cons.IH [OF later left whole] now
    by (auto simp: sse_push_def consume_frames_append split: prod.split sum.split)
qed

lemma frame_data_valid: "utf8_valid frame \<Longrightarrow> \<exists>data. frame_data bad frame = Inr data"
  by (simp add: frame_data_def Let_def)

lemma valid_stream_decodes: "utf8_valid bs \<Longrightarrow> newline_frames bs \<Longrightarrow> \<exists>frames. stream_frames bad bs = Inr frames"
proof -
  have "utf8_valid bs \<Longrightarrow> newline_frames bs \<Longrightarrow> \<exists>fs r. take_frames bad bs = Inr (fs, r) \<and> utf8_valid r"
  proof (induction bad bs rule: take_frames.induct)
    case (1 bad bs)
    show ?case
    proof (cases "position_of LFLF bs")
      case None
      with "1.prems" show ?thesis by (subst take_frames.simps) (simp add: boundary_newline)
    next
      case (Some i)
      note lf = LFLF_found [OF Some]
      from utf8_valid_cut [OF "1.prems"(1), of i] lf(1,2)
      have valid: "utf8_valid (take i bs)" "utf8_valid (CHR 0x0A # CHR 0x0A # drop (i + 2) bs)" 
        unfolding lf(3) [symmetric] by auto
      then have "utf8_valid (drop (i + 2) bs)"
        using utf8_valid_ascii_tail [of "CHR 0x0A" "CHR 0x0A # drop (i + 2) bs"] utf8_valid_ascii_tail [of "CHR 0x0A" "drop (i + 2) bs"]
        by simp
      moreover obtain data where "frame_data bad (take i bs) = Inr data" using frame_data_valid [OF valid(1)] by blast
      ultimately show ?thesis
        using "1.IH" [OF _ refl _ newline_frames_drop [OF "1.prems"(2)]] "1.prems"(2) Some
        by (subst take_frames.simps) (auto simp: boundary_newline)
    qed
  qed
  moreover assume "utf8_valid bs" "newline_frames bs"
  ultimately obtain fs r where "take_frames bad bs = Inr (fs, r)" "utf8_valid r" by blast
  with frame_data_valid [of r bad] show ?thesis by (auto simp: stream_frames_def sse_finish_def)
qed

text \<open>
  C37: an answer does not depend on how the network cuts it. When the service sends text, with frames that
  end with newlines, the call has the same outcome, and has sent the same to its caller, in whatever
  chunks the bytes arrive, even when a chunk ends inside a character or a separator.
\<close>

theorem answer_does_not_depend_on_chunks:
  assumes "utf8_valid (concat chunks)" and "newline_frames (concat chunks)" and "concat others = concat chunks"
  shows "read_answer C (map BodyChunk chunks) [] empty_answer = read_answer C (map BodyChunk others) [] empty_answer"
proof -
  obtain frames where frames: "stream_frames (mc_bad_utf8 C) (concat chunks) = Inr frames"
    using valid_stream_decodes [OF assms(1,2)] by blast
  have start: "take_frames (mc_bad_utf8 C) [] = Inr ([], [])" by (subst take_frames.simps) (simp add: frame_boundary_def)
  have "read_answer C (map BodyChunk cs) [] empty_answer = consume_frames C frames empty_answer"
    if "concat cs = concat chunks" for cs
    using read_answer_frames [of C "[]" cs frames] that frames assms(2) start by simp
  then show ?thesis using assms(3) by metis
qed

definition demo_client :: "demo_world model_client" where
  "demo_client = \<lparr>mc_ext = demo_ext, mc_io = demo_io, mc_usage = (\<lambda>_. None), mc_bad_utf8 = (\<lambda>_. ''invalid utf-8'')\<rparr>"

lemma answer_does_not_depend_on_chunks_witness:
  "read_answer demo_client (map BodyChunk [''data: a'' @ [CHR 0x0A], CHR 0x0A # ''data: '' @ [CHR 0xC3], [CHR 0xA9]]) [] empty_answer =
   read_answer demo_client (map BodyChunk [''data: a'' @ [CHR 0x0A, CHR 0x0A] @ ''data: '' @ [CHR 0xC3, CHR 0xA9]]) [] empty_answer"
proof (rule answer_does_not_depend_on_chunks)
  show "utf8_valid (concat [''data: a'' @ [CHR 0x0A], CHR 0x0A # ''data: '' @ [CHR 0xC3], [CHR 0xA9]])" by code_simp
  show "newline_frames (concat [''data: a'' @ [CHR 0x0A], CHR 0x0A # ''data: '' @ [CHR 0xC3], [CHR 0xA9]])" by code_simp
qed simp

text \<open>
  With mixed separators the chunks matter: the newlines that end a later frame are found before the
  carriage returns that end an earlier one, unless the earlier frame arrived on its own.
\<close>

lemma mixed_separators_depend_on_chunks:
  "take_frames bad (''data:a'' @ CRLFCRLF @ ''data:b'' @ LFLF) = Inr ([''a'' @ CHR 0x0A # ''b''], []) \<and>
   take_frames bad (''data:a'' @ CRLFCRLF) = Inr ([''a''], []) \<and> take_frames bad (''data:b'' @ LFLF) = Inr ([''b''], [])"
  by code_simp

section \<open>Answers are well formed\<close>

definition call_ids :: "ModelOutput list \<Rightarrow> string list" where
  "call_ids outs = List.map_filter (\<lambda>out. case out of Call i _ _ \<Rightarrow> Some i | Message _ \<Rightarrow> None) outs"

lemma call_ids_append: "call_ids (xs @ ys) = call_ids xs @ call_ids ys"
  by (simp add: call_ids_def map_filter_def)

lemma has_call_iff: "has_call i outs \<longleftrightarrow> i \<in> set (call_ids outs)"
  by (induction outs) (auto simp: has_call_def call_ids_def map_filter_simps split: ModelOutput.splits)

definition calls_only :: "ResponseState \<Rightarrow> bool" where
  "calls_only s \<longleftrightarrow> distinct (call_ids (ca_outputs s)) \<and> list_all (\<lambda>out. message_text out = None) (ca_outputs s)"

lemma push_tool_call_keeps: "calls_only s \<Longrightarrow> calls_only (push_tool_call C item s)"
  by (auto simp: push_tool_call_def calls_only_def Let_def call_ids_append has_call_iff call_ids_def [of "[_]"] map_filter_simps
      split: option.split)

lemma consume_item_keeps: "calls_only s \<Longrightarrow> calls_only (consume_item C item s)"
  by (simp add: consume_item_def push_tool_call_keeps) (simp add: calls_only_def)

lemma consume_items_keep: "calls_only s \<Longrightarrow> calls_only (fold (consume_item C) items s)"
  by (induction items arbitrary: s) (simp_all add: consume_item_keeps)

lemma consume_keeps: "consume C event s = Inr s' \<Longrightarrow> calls_only s \<Longrightarrow> calls_only s'"
proof -
  have other: "calls_only (s\<lparr>ca_response_id := i, ca_usage := u\<rparr>) = calls_only s"
    "calls_only (s\<lparr>ca_message := m, ca_sent := t\<rparr>) = calls_only s" for i u m t by (simp_all add: calls_only_def)
  assume "consume C event s = Inr s'" "calls_only s"
  then show ?thesis
    by (auto simp: consume_def Let_def consume_output_def consume_completed_def push_tool_call_keeps other consume_items_keep
        split: if_splits option.splits)
qed

lemma consume_frames_keep: "calls_only s \<Longrightarrow> calls_only (snd (consume_frames C frames s))"
  by (induction C frames s rule: consume_frames.induct) (auto split: sum.split intro: consume_keeps)

lemma read_answer_keeps: "calls_only s \<Longrightarrow> calls_only (snd (read_answer C es buffer s))"
proof (induction C es buffer s rule: read_answer.induct)
  case (4 C bs es buffer s)
  show ?case
  proof (cases "sse_push (mc_bad_utf8 C) buffer bs")
    case (Inr fb)
    obtain frames rest where fb: "fb = (frames, rest)" by fastforce
    obtain r s1 where one: "consume_frames C frames s = (r, s1)" by fastforce
    with consume_frames_keep [OF "4.prems", of C frames] have "calls_only s1" by simp
    with "4.IH" [OF Inr fb [symmetric] one [symmetric]] show ?thesis by (cases r) (auto simp: Inr fb one)
  qed (use 4 in simp)
qed (auto split: sum.split intro: consume_frames_keep)

text \<open>
  C38: an answer is well formed. Whatever the service sends, an answer has at most one message, it is not
  empty and comes first, and no two of its tool calls have the same identifier.
\<close>

theorem answers_are_well_formed:
  "case openai_complete C p request w of
     (Inr (sent, Inr response), w') \<Rightarrow>
       distinct (call_ids (mr_outputs response)) \<and> Message [] \<notin> set (mr_outputs response) \<and>
       list_all (\<lambda>out. message_text out = None) (tl (mr_outputs response))
   | _ \<Rightarrow> True"
proof -
  have well: "distinct (call_ids (mr_outputs (finish_answer s))) \<and> Message [] \<notin> set (mr_outputs (finish_answer s)) \<and>
      list_all (\<lambda>out. message_text out = None) (tl (mr_outputs (finish_answer s)))" if "calls_only s" for s
    using that by (cases "ca_outputs s") (auto simp: finish_answer_def calls_only_def list_all_iff call_ids_def map_filter_simps)
  have start: "calls_only empty_answer" by (simp add: calls_only_def empty_answer_def call_ids_def map_filter_simps)
  have finished: "distinct (call_ids (mr_outputs (finish_answer s))) \<and> Message [] \<notin> set (mr_outputs (finish_answer s)) \<and>
      list_all (\<lambda>out. message_text out = None) (tl (mr_outputs (finish_answer s)))"
    if "read_answer C body [] empty_answer = (r, s)" for body r s
    using well read_answer_keeps [OF start, of C body "[]"] that by simp
  show ?thesis
    by (auto simp: openai_complete_def sm_simps split: sum.split prod.split dest: finished)
qed

text \<open>The stream may end at any frame: an answer needs no final event.\<close>

lemma unfinished_answer_is_accepted: "read_answer C [] [] s = (Inr (), s)"
  by (simp add: sse_finish_def)

text \<open>Without deltas only the first message of a completed response is kept.\<close>

lemma later_message_is_dropped:
  "ca_message s \<noteq> [] \<Longrightarrow> is_kind ''message'' item \<Longrightarrow> consume_item C item s = s"
  by (simp add: consume_item_def is_kind_def)

end
