(* ===== verification/App.thy ===== *)
theory App
  imports Builtin Install Models "HOL-Library.AList"
begin

text \<open>
  The wiring of the program (\<open>src/app.rs\<close>) and the builder of the runtime (\<open>src/runtime/agent.rs\<close>): from
  a configuration to a runtime with the registry, the skills and the Kubernetes client of every workspace,
  its model and its limits, which has recovered before it takes a turn. The stores, the HTTP client and the
  directories are opened outside; whether that worked is a parameter.
\<close>

section \<open>The builder of the runtime\<close>

record 'w program =
  pg_runtime :: "'w runtime"
  pg_agent :: "'w agent"
  pg_extensions :: "ExtensionSummary list"

type_synonym 'w model_call = "ModelRequest \<Rightarrow> 'w agent \<Rightarrow> (string list \<times> ModelEnd) \<times> 'w agent"

text \<open>\<open>outside\<close> holds the libraries, waits and external calls of the runtime.\<close>

definition new_runtime ::
    "'w runtime \<Rightarrow> 'w model_call \<Rightarrow> ToolRegistry \<Rightarrow> RuntimeConfig \<Rightarrow> db \<Rightarrow> RemediationRuntime \<Rightarrow> 'w \<Rightarrow> 'w program" where
  "new_runtime outside model tools config store disabled w =
     \<lparr>pg_runtime = outside\<lparr>ro_config := config, ro_tools := tools, ro_workspace_tools := [], ro_workspace_skills := [],
        ro_skill_budget_bytes := 4 * 1024, ro_model := model\<rparr>,
      pg_agent = \<lparr>ag_sys = \<lparr>sys_db = store, sys_rem = disabled, sys_workspaces = [], sys_world = w\<rparr>,
        ag_broker = new_broker, ag_artifacts = memory_store w, ag_active = {}, ag_slots = rc_max_concurrent_turns config,
        ag_metrics = new_metrics, ag_bus = []\<rparr>,
      pg_extensions = []\<rparr>"

definition with_artifacts :: "'w ArtifactStore \<Rightarrow> 'w program \<Rightarrow> 'w program" where
  "with_artifacts artifacts p = p\<lparr>pg_agent := (pg_agent p)\<lparr>ag_artifacts := artifacts\<rparr>\<rparr>"

definition with_workspaces :: "WorkspaceCatalog \<Rightarrow> (string \<times> ToolRegistry) list \<Rightarrow> 'w program \<Rightarrow> 'w program" where
  "with_workspaces cat tools p =
     p\<lparr>pg_runtime := (pg_runtime p)\<lparr>ro_workspace_tools := tools\<rparr>,
       pg_agent := (pg_agent p)\<lparr>ag_sys := (ag_sys (pg_agent p))\<lparr>sys_workspaces := cat\<rparr>\<rparr>\<rparr>"

definition with_extensions :: "ExtensionSummary list \<Rightarrow> 'w program \<Rightarrow> 'w program" where
  "with_extensions summaries p = p\<lparr>pg_extensions := summaries\<rparr>"

definition with_skills :: "(string \<times> SkillCatalog) list \<Rightarrow> nat \<Rightarrow> 'w program \<Rightarrow> 'w program" where
  "with_skills skills skill_budget_bytes p =
     p\<lparr>pg_runtime := (pg_runtime p)\<lparr>ro_workspace_skills := skills, ro_skill_budget_bytes := max skill_budget_bytes 128\<rparr>\<rparr>"

definition with_remediation :: "RemediationRuntime \<Rightarrow> 'w program \<Rightarrow> 'w program" where
  "with_remediation remediation p =
     p\<lparr>pg_agent := (pg_agent p)\<lparr>ag_sys := (ag_sys (pg_agent p))\<lparr>sys_rem := remediation\<rparr>\<rparr>\<rparr>"

section \<open>The model\<close>

datatype chosen_model = DemoModel | OpenAIModel OpenAIProvider

definition model_capabilities :: "chosen_model \<Rightarrow> ModelCapabilities" where
  "model_capabilities m = (case m of DemoModel \<Rightarrow> fake_capabilities | OpenAIModel _ \<Rightarrow> openai_capabilities)"

definition choose_model :: "(string \<Rightarrow> string option) \<Rightarrow> Config \<Rightarrow> bool \<Rightarrow> chosen_model result" where
  "choose_model env config fake_model =
     (let m = cf_model config in
      if fake_model \<or> mc_provider m = ''fake'' then Inr DemoModel
      else if mc_provider m = ''openai'' then
        and_then (api_key env config) (\<lambda>key.
          let provider = with_endpoint (mc_endpoint m) (new_openai key (mc_model m))
          in Inr (OpenAIModel (case mc_reasoning_effort m of None \<Rightarrow> provider | Some effort \<Rightarrow> with_reasoning_effort effort provider)))
      else Inl (OpsCodexError.Model (''unsupported model provider `'' @ mc_provider m @ ''`'')))"

definition check_reasoning :: "Config \<Rightarrow> chosen_model \<Rightarrow> unit result" where
  "check_reasoning config m =
     (if mc_reasoning_effort (cf_model config) \<noteq> None \<and> \<not> mca_reasoning_control (model_capabilities m)
      then Inl (OpsCodexError.Model
        ''model.reasoning_effort is set but the selected provider does not declare reasoning_control'')
      else Inr ())"

section \<open>Workspaces\<close>

text \<open>
  What the start needs from outside: the installer with its world, the environment, the files of
  Kubernetes and of runbooks, the order a hash map is iterated in, the model calls, and whether the HTTP
  client and the directory of artifacts could be made.
\<close>

record 'w start =
  sa_outside :: "'w runtime"
  sa_installer :: "'w installer"
  sa_show_url :: "Url \<Rightarrow> string"
  sa_env :: "string \<Rightarrow> string option"
  sa_read_file :: "string \<Rightarrow> (string + string) option"
  sa_kube_yaml :: "string \<Rightarrow> string + KubeConfig"
  sa_runbook_yaml :: "string \<Rightarrow> string + RunbookFront"
  sa_read_dir :: "string \<Rightarrow> (string + dir_entry list) option"
  sa_order :: "(string \<times> ToolRegistry) list \<Rightarrow> (string \<times> ToolRegistry) list"
  sa_model :: "chosen_model \<Rightarrow> 'w model_call"
  sa_client :: "string option"
  sa_second :: time
  sa_operator :: string

definition workspace_kube :: "'w start \<Rightarrow> Workspace \<Rightarrow> KubernetesClient result option" where
  "workspace_kube A ws = map_option
     (kube_from_scope (in_io (sa_installer A)) (sa_env A) (sa_read_file A) (sa_kube_yaml A)) (ws_kubernetes ws)"

definition workspace_registry :: "'w start \<Rightarrow> Config \<Rightarrow> Workspace \<Rightarrow> ToolRegistry result" where
  "workspace_registry A config ws =
     build_workspace_tools (in_ext (sa_installer A)) (in_io (sa_installer A)) config ws
       (sa_env A (ws_loki_tenant_env ws)) (workspace_kube A ws)
       (load_runbooks (in_ext (sa_installer A)) (sa_runbook_yaml A) (sa_read_dir A) (ws_runbook_dir ws))"

text \<open>The workspaces one after the other: registry, extensions and skills of each.\<close>

record installed =
  il_tools :: "(string \<times> ToolRegistry) list"
  il_skills :: "(string \<times> SkillCatalog) list"
  il_summaries :: "ExtensionSummary list"

definition no_workspaces :: installed where
  "no_workspaces = \<lparr>il_tools = [], il_skills = [], il_summaries = []\<rparr>"

definition install_workspace :: "'w start \<Rightarrow> Config \<Rightarrow> Workspace \<Rightarrow> installed \<Rightarrow> ('w, installed) iop" where
  "install_workspace A config ws sofar =
     sbind (ilift (workspace_registry A config ws)) (\<lambda>r.
     sbind (supd (\<lambda>s. s\<lparr>is_tools := r\<rparr>)) (\<lambda>_.
     sbind (install_into (sa_installer A) (sa_show_url A) config ws) (\<lambda>(summaries, skills).
     sbind (sgets (\<lambda>s. Inr (is_tools s))) (\<lambda>tools.
       sret \<lparr>il_tools = AList.update (ws_id ws) tools (il_tools sofar),
             il_skills = AList.update (ws_id ws) skills (il_skills sofar),
             il_summaries = il_summaries sofar @ summaries\<rparr>))))"

fun install_workspaces :: "'w start \<Rightarrow> Config \<Rightarrow> Workspace list \<Rightarrow> installed \<Rightarrow> ('w, installed) iop" where
  "install_workspaces A config [] sofar = sret sofar"
| "install_workspaces A config (ws # wss) sofar =
     sbind (install_workspace A config ws sofar) (\<lambda>sofar. install_workspaces A config wss sofar)"

definition default_tools :: "'w start \<Rightarrow> (string \<times> ToolRegistry) list \<Rightarrow> ToolRegistry" where
  "default_tools A tools =
     (let own = or_default empty_registry (map_of tools ''default'')
      in if dom (reg_tools own) = {}
         then (case sa_order A tools of [] \<Rightarrow> own | (_, first) # _ \<Rightarrow> first)
         else own)"

fun kube_clients :: "'w start \<Rightarrow> Workspace list \<Rightarrow> (string \<times> KubernetesClient) list" where
  "kube_clients A [] = []"
| "kube_clients A (ws # wss) = (case workspace_kube A ws of
       Some (Inr kube) \<Rightarrow> (ws_id ws, kube) # kube_clients A wss
     | _ \<Rightarrow> kube_clients A wss)"

section \<open>The start\<close>

definition configured_remediation :: "'w start \<Rightarrow> Config \<Rightarrow> WorkspaceCatalog \<Rightarrow> RemediationRuntime" where
  "configured_remediation A config cat =
     new_remediation (rmc_enabled (cf_remediation config)) (rmc_kill_switch (cf_remediation config))
       (xc_production_safe (cf_extensions config)) (rmc_demo_fault_url (cf_remediation config)) (kube_clients A cat)
       (int (rmc_approval_ttl_seconds (cf_remediation config)) * sa_second A) (sa_operator A)"

definition assemble ::
    "'w start \<Rightarrow> Config \<Rightarrow> db \<Rightarrow> 'w ArtifactStore \<Rightarrow> WorkspaceCatalog \<Rightarrow> installed \<Rightarrow> chosen_model \<Rightarrow> 'w \<Rightarrow> 'w program" where
  "assemble A config store artifacts cat il model w =
     with_remediation (configured_remediation A config cat)
     (with_skills (il_skills il) (xc_max_skill_context_bytes (cf_extensions config))
     (with_extensions (il_summaries il)
     (with_workspaces cat (il_tools il)
     (with_artifacts artifacts
       (new_runtime (sa_outside A) (sa_model A model) (default_tools A (il_tools il))
         (with_store_timeouts (int (st_approval_ttl_seconds (cf_store config)) * sa_second A)
           (int (st_lease_ttl_seconds (cf_store config)) * sa_second A) (runtime_config (sa_second A) (cf_runtime config)))
         store (remediation_disabled (1800 * sa_second A) (sa_operator A)) w)))))"

text \<open>
  The whole start, on the world: the program, which has recovered, or how it ended instead. \<open>store\<close> and
  \<open>artifacts\<close> are what opening the store and the directory of artifacts gave.
\<close>

definition build_runtime ::
    "'w start \<Rightarrow> Config \<Rightarrow> bool \<Rightarrow> db result \<Rightarrow> 'w ArtifactStore result \<Rightarrow> 'w \<Rightarrow> install_end + 'w program" where
  "build_runtime A config fake_model store artifacts w =
     (case and_then store (\<lambda>d. and_then artifacts (\<lambda>a.
         and_then (case sa_client A of None \<Rightarrow> Inr ()
           | Some err \<Rightarrow> Inl (OpsCodexError.Tool (''failed to build HTTP client: '' @ err))) (\<lambda>_.
         and_then (catalog_from_config (workspace_defaults config)) (\<lambda>cat. Inr (d, a, cat))))) of
       Inl err \<Rightarrow> Inl (InstallError err)
     | Inr (d, a, cat) \<Rightarrow>
         (case install_workspaces A config cat no_workspaces \<lparr>is_tools = empty_registry, is_world = w\<rparr> of
            (Inl halt, _) \<Rightarrow> Inl halt
          | (Inr il, s) \<Rightarrow>
              (case and_then (choose_model (sa_env A) config fake_model) (\<lambda>model.
                  and_then (check_reasoning config model) (\<lambda>_. Inr model)) of
                 Inl err \<Rightarrow> Inl (InstallError err)
               | Inr model \<Rightarrow>
                   (let p = assemble A config d a cat il model (is_world s)
                    in case recover (pg_runtime p) (pg_agent p) of
                         (Inl (Returned err), _) \<Rightarrow> Inl (InstallError err)
                       | (Inl Panicked, _) \<Rightarrow> Inl Panics
                       | (Inr _, agent) \<Rightarrow> Inr (p\<lparr>pg_agent := agent\<rparr>)))))"

end
