(* ===== verification/Storage.thy ===== *)
theory Storage
  imports SqliteRuntime Jsonl Config
begin

text \<open>
  The files of the store (\<open>src/store/sqlite.rs\<close>, \<open>src/store/mod.rs\<close>, \<open>src/ops.rs\<close>): opening a database
  under an exclusive lock, recording and checking the versions of its schema, its checks, and its backup,
  on the state of a machine. Every call of the file system or of SQLite that can fail does so as an input
  says. The lemmas show that one process at a time has a store open, that opening changes nothing but the
  schema, and that a backup is a copy that overwrites nothing.
\<close>

section \<open>A machine\<close>

text \<open>
  A database file: the rows of its table of migrations, if it has one (version, checksum and time),
  whether the tables of the second schema exist, and its data. The machine: its database files, the locks
  that a living process holds, and the other paths that exist, which are no databases.
\<close>

record dbfile =
  fl_migrations :: "(int \<times> string \<times> string) list option"
  fl_second :: bool
  fl_data :: db

record machine =
  ma_files :: "(string \<times> dbfile) list"
  ma_locks :: "string list"
  ma_paths :: "string list"

definition new_file :: dbfile where
  "new_file = \<lparr>fl_migrations = None, fl_second = False, fl_data = empty_db\<rparr>"

text \<open>Which calls fail, and how; the text of the schemas, of which only the checksum matters.\<close>

record storage_env =
  se_ext :: ext
  se_fault :: "string \<Rightarrow> string option"
  se_schema :: string
  se_schema2 :: string
  se_now :: time
  se_integrity :: string
  se_bad_references :: bool

definition may_fail :: "storage_env \<Rightarrow> string \<Rightarrow> (string \<Rightarrow> OpsCodexError) \<Rightarrow> (machine, unit) op" where
  "may_fail S call mk = slift (case se_fault S call of None \<Rightarrow> Inr () | Some err \<Rightarrow> Inl (mk err))"

definition db_file :: "string \<Rightarrow> machine \<Rightarrow> dbfile" where
  "db_file path m = (case map_of (ma_files m) path of None \<Rightarrow> new_file | Some f \<Rightarrow> f)"

definition change_file :: "string \<Rightarrow> (dbfile \<Rightarrow> dbfile) \<Rightarrow> (machine, unit) op" where
  "change_file path g = supd (\<lambda>m. m\<lparr>ma_files := AList.update path (g (db_file path m)) (ma_files m)\<rparr>)"

definition path_exists :: "string \<Rightarrow> machine \<Rightarrow> bool" where
  "path_exists path m \<longleftrightarrow> map_of (ma_files m) path \<noteq> None \<or> path \<in> set (ma_paths m)"

section \<open>Paths\<close>

definition dir_and_name :: "string \<Rightarrow> string \<times> string" where
  "dir_and_name path = (case rsplit_once CHR ''/'' path of None \<Rightarrow> ([], path) | Some (d, n) \<Rightarrow> (d @ ''/'', n))"

text \<open>\<open>Path::with_extension\<close> and \<open>Path::extension\<close> of a path that ends with a name.\<close>

definition with_extension :: "string \<Rightarrow> string \<Rightarrow> string" where
  "with_extension extension path = (case dir_and_name path of (d, n) \<Rightarrow> d @ path_stem n @ ''.'' @ extension)"

definition lock_path :: "string \<Rightarrow> string" where
  "lock_path path = with_extension ''sqlite3.lock'' path"

section \<open>Opening\<close>

definition try_exclusive_lock :: "string \<Rightarrow> (machine, unit) op" where
  "try_exclusive_lock lock =
     sbind (sgets (\<lambda>m. if lock \<in> set (ma_locks m)
         then Inl (OpsCodexError.Storage ''another OpsCodex process is using this SQLite store'') else Inr ())) (\<lambda>_.
       supd (\<lambda>m. m\<lparr>ma_locks := lock # ma_locks m\<rparr>))"

definition acquire_lock :: "storage_env \<Rightarrow> string \<Rightarrow> (machine, unit) op" where
  "acquire_lock S path =
     sbind (may_fail S ''lock'' (\<lambda>err. OpsCodexError.Storage (''failed to open store lock '' @ lock_path path @ '': '' @ err))) (\<lambda>_.
     sbind (supd (\<lambda>m. m\<lparr>ma_paths := List.insert (lock_path path) (ma_paths m)\<rparr>)) (\<lambda>_.
       try_exclusive_lock (lock_path path)))"

text \<open>The lock is released when its owner is dropped.\<close>

definition release_lock :: "string \<Rightarrow> machine \<Rightarrow> machine" where
  "release_lock lock m = m\<lparr>ma_locks := remove1 lock (ma_locks m)\<rparr>"

definition migration_checksum :: "ext \<Rightarrow> string \<Rightarrow> string" where
  "migration_checksum E sql = sha256_hex E sql"

definition migration_rows :: "string \<Rightarrow> machine \<Rightarrow> (int \<times> string \<times> string) list" where
  "migration_rows path m = (case fl_migrations (db_file path m) of None \<Rightarrow> [] | Some rows \<Rightarrow> rows)"

definition migration_checksum_applied :: "storage_env \<Rightarrow> string \<Rightarrow> int \<Rightarrow> (machine, string option) op" where
  "migration_checksum_applied S path version =
     sbind (may_fail S ''schema_migrations'' (sqlite_error ''schema_migrations'')) (\<lambda>_.
       sgets (\<lambda>m. Inr (map_option fst (map_of (migration_rows path m) version))))"

definition insert_migration :: "storage_env \<Rightarrow> string \<Rightarrow> int \<Rightarrow> string \<Rightarrow> (machine, unit) op" where
  "insert_migration S path version checksum =
     sbind (may_fail S ''schema_migrations insert'' (sqlite_error ''schema_migrations insert'')) (\<lambda>_.
       change_file path (\<lambda>f. f\<lparr>fl_migrations := Some ((case fl_migrations f of None \<Rightarrow> [] | Some rows \<Rightarrow> rows) @
         [(version, checksum, rfc3339 (se_ext S) (se_now S))])\<rparr>))"

definition checksum_mismatch :: OpsCodexError where
  "checksum_mismatch = OpsCodexError.Storage ''sqlite schema checksum mismatch; refusing to start''"

definition record_or_verify_migration :: "storage_env \<Rightarrow> string \<Rightarrow> int \<Rightarrow> string \<Rightarrow> (machine, unit) op" where
  "record_or_verify_migration S path version sql =
     (let checksum = migration_checksum (se_ext S) sql in
      sbind (migration_checksum_applied S path version) (\<lambda>applied. case applied of
          Some existing \<Rightarrow> if existing = checksum then sret () else sfail checksum_mismatch
        | None \<Rightarrow> insert_migration S path version checksum))"

text \<open>The statements of both schemas create what does not exist yet.\<close>

definition apply_if_missing :: "storage_env \<Rightarrow> string \<Rightarrow> int \<Rightarrow> string \<Rightarrow> (machine, unit) op" where
  "apply_if_missing S path version sql =
     (let checksum = migration_checksum (se_ext S) sql in
      sbind (migration_checksum_applied S path version) (\<lambda>applied. case applied of
          Some existing \<Rightarrow> if existing = checksum then sret () else sfail checksum_mismatch
        | None \<Rightarrow>
            sbind (may_fail S ''schema 2'' (sqlite_error ''schema'')) (\<lambda>_.
            sbind (change_file path (\<lambda>f. f\<lparr>fl_second := True\<rparr>)) (\<lambda>_.
              insert_migration S path version checksum))))"

definition apply_schema :: "storage_env \<Rightarrow> string \<Rightarrow> (machine, unit) op" where
  "apply_schema S path =
     sbind (may_fail S ''schema'' (sqlite_error ''schema'')) (\<lambda>_.
     sbind (change_file path (\<lambda>f. f\<lparr>fl_migrations := Some (case fl_migrations f of None \<Rightarrow> [] | Some rows \<Rightarrow> rows)\<rparr>)) (\<lambda>_.
     sbind (record_or_verify_migration S path 1 (se_schema S)) (\<lambda>_.
       apply_if_missing S path 2 (se_schema2 S))))"

definition connect :: "storage_env \<Rightarrow> string \<Rightarrow> (machine, unit) op" where
  "connect S path =
     sbind (may_fail S ''open'' (sqlite_error ''open'')) (\<lambda>_.
     sbind (may_fail S ''busy_timeout'' (sqlite_error ''busy_timeout'')) (\<lambda>_.
     sbind (sgets (\<lambda>m. if path \<in> set (ma_paths m) then Inl (sqlite_error ''journal_mode'' ''file is not a database'') else Inr ())) (\<lambda>_.
     sbind (change_file path (\<lambda>f. f)) (\<lambda>_.
     sbind (may_fail S ''journal_mode'' (sqlite_error ''journal_mode'')) (\<lambda>_.
     sbind (may_fail S ''foreign_keys'' (sqlite_error ''foreign_keys'')) (\<lambda>_.
     sbind (may_fail S ''synchronous'' (sqlite_error ''synchronous'')) (\<lambda>_.
       apply_schema S path)))))))"

definition open_blocking :: "storage_env \<Rightarrow> string \<Rightarrow> (machine, unit) op" where
  "open_blocking S path m = (case acquire_lock S path m of
       (Inl err, m) \<Rightarrow> (Inl err, m)
     | (Inr _, m) \<Rightarrow> (case connect S path m of
           (Inl err, m) \<Rightarrow> (Inl err, release_lock (lock_path path) m)
         | (Inr _, m) \<Rightarrow> (Inr (), m)))"

definition open_sqlite :: "storage_env \<Rightarrow> string \<Rightarrow> (machine, unit) op" where
  "open_sqlite S path =
     sbind (may_fail S ''mkdir'' (\<lambda>err. OpsCodexError.Storage (''failed to create sqlite directory '' @ fst (dir_and_name path) @ '': '' @ err))) (\<lambda>_.
       open_blocking S path)"

definition close_sqlite :: "string \<Rightarrow> machine \<Rightarrow> machine" where
  "close_sqlite path m = release_lock (lock_path path) m"

section \<open>Checks\<close>

definition integrity_check :: "storage_env \<Rightarrow> (machine, unit) op" where
  "integrity_check S =
     sbind (may_fail S ''integrity_check'' (sqlite_error ''integrity_check'')) (\<lambda>_.
     if se_integrity S \<noteq> ''ok'' then sfail (OpsCodexError.Storage (''sqlite integrity_check failed: '' @ se_integrity S))
     else
       sbind (may_fail S ''foreign_key_check'' (sqlite_error ''foreign_key_check'')) (\<lambda>_.
       if se_bad_references S then sfail (OpsCodexError.Storage ''sqlite foreign key check failed'') else sret ()))"

definition applied_schema_versions :: "storage_env \<Rightarrow> string \<Rightarrow> (machine, int list) op" where
  "applied_schema_versions S path =
     sbind (may_fail S ''schema versions'' (sqlite_error ''schema versions'')) (\<lambda>_.
       sgets (\<lambda>m. Inr (sort (map fst (migration_rows path m)))))"

section \<open>Backup\<close>

definition prepare_backup_destination :: "storage_env \<Rightarrow> string \<Rightarrow> (machine, unit) op" where
  "prepare_backup_destination S dest =
     sbind (may_fail S ''backup mkdir'' (\<lambda>err.
         OpsCodexError.Storage (''failed to create backup directory '' @ fst (dir_and_name dest) @ '': '' @ err))) (\<lambda>_.
       sgets (\<lambda>m. if path_exists dest m
         then Inl (OpsCodexError.Storage (''backup path '' @ dest @ '' already exists'')) else Inr ()))"

definition vacuum_into :: "storage_env \<Rightarrow> string \<Rightarrow> string \<Rightarrow> (machine, unit) op" where
  "vacuum_into S source dest =
     sbind (may_fail S ''vacuum into'' (sqlite_error ''vacuum into'')) (\<lambda>_.
       supd (\<lambda>m. m\<lparr>ma_files := AList.update dest (db_file source m) (ma_files m)\<rparr>))"

definition backup_to :: "storage_env \<Rightarrow> string \<Rightarrow> string \<Rightarrow> (machine, string) op" where
  "backup_to S source dest =
     sbind (prepare_backup_destination S dest) (\<lambda>_.
     sbind (vacuum_into S source dest) (\<lambda>_. sret dest))"

text \<open>A connection for reading; a file that does not exist cannot be opened.\<close>

definition backup_path :: "storage_env \<Rightarrow> string \<Rightarrow> string \<Rightarrow> (machine, string) op" where
  "backup_path S source dest =
     sbind (prepare_backup_destination S dest) (\<lambda>_.
     sbind (may_fail S ''open backup source'' (sqlite_error ''open backup source'')) (\<lambda>_.
     sbind (sgets (\<lambda>m. if map_of (ma_files m) source = None
         then Inl (sqlite_error ''open backup source'' ''unable to open database file'') else Inr ())) (\<lambda>_.
     sbind (may_fail S ''backup busy_timeout'' (sqlite_error ''backup busy_timeout'')) (\<lambda>_.
     sbind (vacuum_into S source dest) (\<lambda>_. sret dest)))))"

section \<open>The store of a configuration\<close>

datatype open_store = JsonlBackend jsonl | SqliteBackend string

text \<open>\<open>entries\<close> are the files of the directory of the JSONL store, \<open>f\<close> its faults.\<close>

definition open_store ::
    "storage_env \<Rightarrow> io_faults \<Rightarrow> (string \<times> bytes) list \<Rightarrow> StoreConfig \<Rightarrow> string \<Rightarrow> (machine, open_store) op" where
  "open_store S f entries config data_dir =
     (if st_backend config = ''jsonl''
      then sbind (slift (jsonl_new f (or_default (path_join data_dir ''threads'') (st_jsonl_dir config)) entries))
             (\<lambda>store. sret (JsonlBackend store))
      else if st_backend config = ''sqlite''
      then let path = or_default (path_join data_dir ''state.sqlite3'') (st_sqlite_path config)
           in sbind (open_sqlite S path) (\<lambda>_. sret (SqliteBackend path))
      else sfail (OpsCodexError.Protocol (''unsupported store.backend `'' @ st_backend config @ ''` (expected sqlite or jsonl)'')))"

section \<open>Maintenance commands\<close>

text \<open>A store that is opened for one task and dropped at its end.\<close>

definition with_sqlite :: "storage_env \<Rightarrow> string \<Rightarrow> (machine, 'a) op \<Rightarrow> (machine, 'a) op" where
  "with_sqlite S path task m = (case open_sqlite S path m of
       (Inl err, m) \<Rightarrow> (Inl err, m)
     | (Inr _, m) \<Rightarrow> (case task m of (r, m) \<Rightarrow> (r, close_sqlite path m)))"

definition store_data :: "string \<Rightarrow> machine \<Rightarrow> db" where
  "store_data path m = fl_data (db_file path m)"

text \<open>\<open>show_versions\<close> is the debug form of a list of numbers.\<close>

definition verify_store :: "storage_env \<Rightarrow> (int list \<Rightarrow> string) \<Rightarrow> string \<Rightarrow> Config \<Rightarrow> (machine, string) op" where
  "verify_store S show_versions path config =
     (if st_backend (cf_store config) \<noteq> ''sqlite''
      then sfail (OpsCodexError.Protocol ''storage verify requires store.backend = sqlite'')
      else sbind (sgets (\<lambda>m. if path_exists path m then Inr ()
          else Inl (OpsCodexError.Storage (''sqlite file '' @ path @ '' does not exist'')))) (\<lambda>_.
        with_sqlite S path
          (sbind (integrity_check S) (\<lambda>_.
           sbind (applied_schema_versions S path) (\<lambda>versions.
           if 1 \<notin> set versions \<or> 2 \<notin> set versions
           then sfail (OpsCodexError.Storage (''sqlite schema versions '' @ show_versions versions @ '' are incomplete''))
           else sgets (\<lambda>m. Inr (''integrity ok; schema '' @ show_versions versions @ ''; '' @
             show_nat (length (list_threads (se_ext S) (store_data path m))) @ '' thread(s)'')))))))"

definition verify_audit :: "storage_env \<Rightarrow> string \<Rightarrow> Config \<Rightarrow> (machine, string) op" where
  "verify_audit S path config =
     (if st_backend (cf_store config) \<noteq> ''sqlite'' then sret ''audit verify skipped for jsonl store''
      else sbind (sgets (\<lambda>m. Inr (path_exists path m))) (\<lambda>exists.
        if \<not> exists then sret ''no audit log yet''
        else with_sqlite S path
          (sbind (sgets (\<lambda>m. Inr (list_audit (store_data path m)))) (\<lambda>records.
           sbind (slift (verify_audit_chain (se_ext S) records)) (\<lambda>_.
             sret (show_nat (length records) @ '' audit record(s) verified''))))))"

definition backup_file :: "string \<Rightarrow> string" where
  "backup_file dest = (if path_extension (snd (dir_and_name dest)) \<in> {Some ''sqlite3'', Some ''db''} then dest
     else path_join dest ''state.sqlite3'')"

definition backup_store :: "storage_env \<Rightarrow> string \<Rightarrow> Config \<Rightarrow> string \<Rightarrow> (machine, string) op" where
  "backup_store S path config dest =
     (if st_backend (cf_store config) \<noteq> ''sqlite''
      then sfail (OpsCodexError.Protocol ''storage backup requires store.backend = sqlite'')
      else sbind (sgets (\<lambda>m. if path_exists path m then Inr ()
          else Inl (OpsCodexError.Storage (''sqlite file '' @ path @ '' does not exist'')))) (\<lambda>_.
        backup_path S path (backup_file dest)))"

text \<open>The doctor looks at the store and the audit log only when there is a file.\<close>

definition run_doctor ::
    "storage_env \<Rightarrow> (int list \<Rightarrow> string) \<Rightarrow> (string \<Rightarrow> string + Url) \<Rightarrow> string \<Rightarrow> Config \<Rightarrow>
     (machine, CheckStatus \<times> Check list) op" where
  "run_doctor S show_versions parse_url path config m =
     (if \<not> path_exists path m then (Inr (doctor parse_url path None config), m)
      else case verify_store S show_versions path config m of (store, m) \<Rightarrow>
        (case verify_audit S path config m of (log_check, m) \<Rightarrow>
          (Inr (doctor parse_url path (Some (store, log_check)) config), m)))"

end
