(* ===== verification/Cli.thy ===== *)
theory Cli
  imports App Migrate Storage Sse
begin

text \<open>
  The command line (\<open>src/cli.rs\<close>): its commands and flags, the maintenance commands on the files of a
  machine with what they print, the start of a single turn with the terminal that shows its events and
  answers its approvals, and the address of the server. Parsing the arguments, the terminal and the signal
  are parameters.
\<close>

section \<open>Commands\<close>

datatype ConfigCommand = Validate

datatype StorageCommand = Verify | Backup string | ExportFrom string string

datatype AuditCommand = VerifyAudit

record RunFlags =
  rf_input :: string
  rf_service :: "string option"
  rf_environment :: "string option"
  rf_starts_at :: "string option"
  rf_ends_at :: "string option"
  rf_workspace :: "string option"

datatype Command =
    Run RunFlags
  | Serve "string option" "nat option" string
  | Migrate bool bool
  | Export string string
  | Doctor
  | Config ConfigCommand
  | Storage StorageCommand
  | Audit AuditCommand

record Cli =
  cl_config :: "string option"
  cl_enable_exec :: bool
  cl_kill_switch :: bool
  cl_fake_model :: bool
  cl_command :: Command

text \<open>The flags only switch on: the shell, and the kill switch.\<close>

definition apply_flags :: "Cli \<Rightarrow> Config \<Rightarrow> Config" where
  "apply_flags cli config =
     (let config = (if cl_enable_exec cli then config\<lparr>cf_tools_exec := True\<rparr> else config)
      in if cl_kill_switch cli
         then config\<lparr>cf_remediation := (cf_remediation config)\<lparr>rmc_kill_switch := True\<rparr>\<rparr> else config)"

section \<open>Maintenance commands\<close>

text \<open>
  What they work on: the machine with its databases, the files of the JSONL directory and its backups,
  exported files, and the lines printed.
\<close>

record shell =
  sh_machine :: machine
  sh_jsonl :: "(string \<times> bytes) list"
  sh_backups :: "(string \<times> bytes) list"
  sh_disk :: disk
  sh_out :: "string list"

record cli_env =
  ce_storage :: storage_env
  ce_wire :: wire
  ce_parse_url :: "string \<Rightarrow> string + Url"
  ce_toml :: "string \<Rightarrow> string + Config"
  ce_env :: "string \<Rightarrow> string option"
  ce_read :: "string \<Rightarrow> (string + string) option"
  ce_show_versions :: "int list \<Rightarrow> string"
  ce_report_text :: "CheckStatus \<times> Check list \<Rightarrow> string"
  ce_migrate_faults :: migrate_faults
  ce_export_faults :: export_faults
  ce_now :: time
  ce_stamp :: string
  ce_parse_error :: "string \<Rightarrow> string"

definition on_machine :: "(machine, 'a) op \<Rightarrow> (shell, 'a) op" where
  "on_machine act s = (case act (sh_machine s) of (r, m) \<Rightarrow> (r, s\<lparr>sh_machine := m\<rparr>))"

definition println :: "string \<Rightarrow> (shell, unit) op" where
  "println line = supd (\<lambda>s. s\<lparr>sh_out := sh_out s @ [line]\<rparr>)"

definition cli_sqlite_path :: "cli_env \<Rightarrow> Config \<Rightarrow> string" where
  "cli_sqlite_path E config = or_default (path_join (home_dir (ce_env E)) ''state.sqlite3'') (st_sqlite_path (cf_store config))"

definition cli_jsonl_dir :: "cli_env \<Rightarrow> Config \<Rightarrow> string" where
  "cli_jsonl_dir E config = or_default (path_join (home_dir (ce_env E)) ''threads'') (st_jsonl_dir (cf_store config))"

definition read_jsonl :: "cli_env \<Rightarrow> string \<Rightarrow> (string \<times> bytes) list \<Rightarrow> EventEnvelope list list result" where
  "read_jsonl E dir entries =
     and_then (jsonl_new (mf_store (ce_migrate_faults E)) dir entries) (\<lambda>src.
       migrated_threads (ce_wire E) (mf_store (ce_migrate_faults E)) (ce_now E) src)"

text \<open>
  The import, with the database opened on the machine once the threads were read and closed at the end.
\<close>

definition migrate_files :: "cli_env \<Rightarrow> Config \<Rightarrow> MigrateOptions \<Rightarrow> (shell, MigrateReport) op" where
  "migrate_files E config opts s =
     (let path = cli_sqlite_path E config; dir = cli_jsonl_dir E config;
          start = \<lparr>mg_jsonl = \<lparr>jl_directory = dir, jl_files = sh_jsonl s\<rparr>, mg_backups = sh_backups s, mg_db = empty_db\<rparr>
      in if mo_dry_run opts \<or> \<not> is_ok (read_jsonl E dir (sh_jsonl s))
         then (fst (migrate_jsonl_to_sqlite (ce_wire E) (ce_migrate_faults E) (ce_now E) (ce_stamp E) opts start), s)
         else (case open_sqlite (ce_storage E) path (sh_machine s) of
             (Inl err, m) \<Rightarrow> (Inl err, s\<lparr>sh_machine := m\<rparr>)
           | (Inr _, m) \<Rightarrow>
               (case migrate_jsonl_to_sqlite (ce_wire E) ((ce_migrate_faults E)\<lparr>mf_open := None\<rparr>) (ce_now E) (ce_stamp E) opts
                   (start\<lparr>mg_db := store_data path m\<rparr>) of
                  (r, g) \<Rightarrow> (r, s\<lparr>sh_machine := close_sqlite path (snd (change_file path (\<lambda>f. f\<lparr>fl_data := mg_db g\<rparr>) m)),
                     sh_jsonl := jl_files (mg_jsonl g), sh_backups := mg_backups g\<rparr>))))"

definition migrate_store :: "cli_env \<Rightarrow> Config \<Rightarrow> bool \<Rightarrow> bool \<Rightarrow> (shell, unit) op" where
  "migrate_store E config dry_run verify =
     sbind (migrate_files E config \<lparr>mo_dry_run = dry_run, mo_verify = verify\<rparr>) (\<lambda>report.
     sbind (println (''migrated threads='' @ show_nat (mr_threads report) @ '' events='' @ show_nat (mr_events report) @
       '' hash='' @ mr_hash report)) (\<lambda>_.
       case mr_backup_dir report of None \<Rightarrow> sret () | Some backup \<Rightarrow> println (''jsonl backup '' @ backup)))"

definition export_file :: "cli_env \<Rightarrow> string \<Rightarrow> string \<Rightarrow> string \<Rightarrow> (shell, ExportReport) op" where
  "export_file E path thread out s =
     (case export_thread_jsonl (ce_wire E) (ce_export_faults E) (store_data path (sh_machine s)) (ce_parse_error E) thread
         (fst (dir_and_name out)) out (sh_disk s) of
        (r, d) \<Rightarrow> (r, s\<lparr>sh_disk := d, sh_machine := close_sqlite path (sh_machine s)\<rparr>))"

definition export_thread :: "cli_env \<Rightarrow> Config \<Rightarrow> string \<Rightarrow> string \<Rightarrow> (shell, unit) op" where
  "export_thread E config thread out =
     (let path = cli_sqlite_path E config in
      sbind (on_machine (open_sqlite (ce_storage E) path)) (\<lambda>_.
      sbind (export_file E path thread out) (\<lambda>report.
        println (''exported thread '' @ uuid_string (cx_ext (ce_wire E)) (xr_thread_id report) @ '' ('' @
          show_nat (xr_events report) @ '' events) to '' @ xr_path report))))"

definition doctor_command :: "cli_env \<Rightarrow> Config \<Rightarrow> (shell, unit) op" where
  "doctor_command E config =
     sbind (on_machine (run_doctor (ce_storage E) (ce_show_versions E) (ce_parse_url E) (cli_sqlite_path E config) config)) (\<lambda>report.
     sbind (println (ce_report_text E report)) (\<lambda>_.
       if fst report \<noteq> Failing then sret () else sfail (OpsCodexError.Protocol ''doctor found blocking errors'')))"

fun storage_command :: "cli_env \<Rightarrow> Config \<Rightarrow> StorageCommand \<Rightarrow> (shell, unit) op" where
  "storage_command E config Verify =
     sbind (on_machine (verify_store (ce_storage E) (ce_show_versions E) (cli_sqlite_path E config) config)) println"
| "storage_command E config (Backup out) =
     sbind (on_machine (backup_store (ce_storage E) (cli_sqlite_path E config) config out)) (\<lambda>path. println (''backup '' @ path))"
| "storage_command E config (ExportFrom thread out) = export_thread E config thread out"

definition audit_command :: "cli_env \<Rightarrow> Config \<Rightarrow> (shell, unit) op" where
  "audit_command E config =
     sbind (on_machine (verify_audit (ce_storage E) (cli_sqlite_path E config) config)) println"

definition validate_command_line :: "cli_env \<Rightarrow> Config \<Rightarrow> (shell, unit) op" where
  "validate_command_line E config =
     sbind (slift (validate_config (ce_parse_url E) config)) (\<lambda>_. println ''ok'')"

section \<open>One turn\<close>

definition parse_timestamp :: "(string \<Rightarrow> string + time) \<Rightarrow> string option \<Rightarrow> time option result" where
  "parse_timestamp parse v = (case v of None \<Rightarrow> Inr None
     | Some t \<Rightarrow> (case parse t of Inl err \<Rightarrow> Inl (OpsCodexError.Protocol (''invalid timestamp: '' @ err)) | Inr x \<Rightarrow> Inr (Some x)))"

definition incident_from_flags ::
    "ext \<Rightarrow> codec \<Rightarrow> (string \<Rightarrow> string + time) \<Rightarrow> RunFlags \<Rightarrow> IncidentContext option result" where
  "incident_from_flags E C parse f =
     (if rf_service f = None \<and> rf_environment f = None \<and> rf_starts_at f = None \<and> rf_ends_at f = None then Inr None
      else and_then (parse_timestamp parse (rf_starts_at f)) (\<lambda>starts_at.
        and_then (parse_timestamp parse (rf_ends_at f)) (\<lambda>ends_at.
          let context = \<lparr>ic_service = rf_service f, ic_environment = rf_environment f, ic_starts_at = starts_at,
                ic_ends_at = ends_at, ic_labels = [], ic_annotations = [], ic_source = None\<rparr>
          in and_then (incident_validate E C context) (\<lambda>_. Inr (Some context)))))"

definition run_prompt :: "'w runtime \<Rightarrow> string \<Rightarrow> IncidentContext option \<Rightarrow> string option \<Rightarrow> ('w, unit) aop" where
  "run_prompt R input incident workspace =
     (let w = or_default ''default'' workspace in
      sbind (alift (validate_workspace_id w)) (\<lambda>_.
      sbind (sgets (\<lambda>s. Inr (sys_workspaces (ag_sys s)))) (\<lambda>cat.
      sbind (if cat = [] then sret () else sbind (alift (catalog_get cat w)) (\<lambda>_. sret ())) (\<lambda>_.
      sbind (new_id R) (\<lambda>thread_id.
      sbind (new_id R) (\<lambda>event_id.
      sbind (now_of R) (\<lambda>now.
      sbind (on_store (create_thread (ro_ext R) event_id now thread_id w)) (\<lambda>_.
      sbind (new_id R) (\<lambda>turn_id.
        run_turn R thread_id turn_id \<lparr>ti_content = input, ti_incident_context = incident\<rparr>)))))))))"

section \<open>The terminal\<close>

text \<open>
  What was printed to either stream, whether a message is being streamed, and the answers given to the
  broker. The terminal stops listening at the first receive that is no event.
\<close>

record terminal =
  tm_pos :: nat
  tm_open :: bool
  tm_streaming :: bool
  tm_out :: "string list"
  tm_err :: "string list"
  tm_resolved :: "(uuid \<times> bool) list"

text \<open>\<open>answer\<close> is the line read for an approval, if reading works.\<close>

definition is_yes :: "string option \<Rightarrow> bool" where
  "is_yes answer = (case answer of None \<Rightarrow> False | Some line \<Rightarrow> to_ascii_lowercase (trim line) \<in> {''y'', ''yes''})"

definition show_line :: "string \<Rightarrow> terminal \<Rightarrow> terminal" where
  "show_line line t = t\<lparr>tm_out := tm_out t @ [line @ [CHR 0x0A]]\<rparr>"

fun render_event :: "(json \<Rightarrow> string) \<Rightarrow> (uuid \<Rightarrow> string option) \<Rightarrow> RuntimeEvent \<Rightarrow> terminal \<Rightarrow> terminal" where
  "render_event show_json answer (RuntimeEvent.AssistantDelta delta) t = t\<lparr>tm_out := tm_out t @ [delta], tm_streaming := True\<rparr>"
| "render_event show_json answer (RuntimeEvent.AssistantCompleted _ _) t =
     (if tm_streaming t then (show_line [CHR 0x0A] t)\<lparr>tm_streaming := False\<rparr> else t)"
| "render_event show_json answer (RuntimeEvent.ToolProposed _ tool _) t =
     show_line (''[tool] '' @ tool @ '' proposed'' @ (if CHR ''/'' \<in> set tool then '' (external)'' else [])) t"
| "render_event show_json answer (RuntimeEvent.ToolExecutionStarted _ tool) t = show_line (''[tool] '' @ tool @ '' running'') t"
| "render_event show_json answer (RuntimeEvent.ToolStarted _ tool _) t = show_line (''[tool] '' @ tool @ '' running'') t"
| "render_event show_json answer (RuntimeEvent.ToolCompleted _ tool _ evidence success) t =
     show_line (''[tool] '' @ tool @ '' '' @ (if success then ''completed'' else ''failed'') @ '' ('' @
       show_nat (evm_duration_ms evidence) @ '' ms)'') t"
| "render_event show_json answer (RuntimeEvent.ApprovalRequired approval_id tool arguments) t =
     t\<lparr>tm_out := tm_out t @ [''[approval] '' @ tool @ '' '' @ show_json arguments @ [CHR 0x0A], ''Allow? [y/N] ''],
        tm_resolved := tm_resolved t @ [(approval_id, is_yes (answer approval_id))]\<rparr>"
| "render_event show_json answer (RuntimeEvent.UserMessage _ (Some context)) t =
     (case ic_service context of None \<Rightarrow> t | Some service \<Rightarrow> show_line (''[incident] service='' @ service) t)"
| "render_event show_json answer (RuntimeEvent.TurnFailed err) t = t\<lparr>tm_err := tm_err t @ [''turn failed: '' @ err @ [CHR 0x0A]]\<rparr>"
| "render_event show_json answer RuntimeEvent.TurnCancelled t = t\<lparr>tm_err := tm_err t @ [''turn cancelled'' @ [CHR 0x0A]]\<rparr>"
| "render_event show_json answer _ t = t"

definition terminal_poll ::
    "(json \<Rightarrow> string) \<Rightarrow> (uuid \<Rightarrow> string option) \<Rightarrow> EventEnvelope list \<Rightarrow> terminal \<Rightarrow> terminal" where
  "terminal_poll show_json answer sent t =
     (if \<not> tm_open t then t
      else case receive sent (tm_pos t) of
        (Pending, _) \<Rightarrow> t
      | (Got e, p) \<Rightarrow> render_event show_json answer (env_event e) (t\<lparr>tm_pos := p\<rparr>)
      | (Lagged _, p) \<Rightarrow> t\<lparr>tm_pos := p, tm_open := False\<rparr>)"

section \<open>The server\<close>

text \<open>\<open>bind\<close> is the listener of the operating system: it gives the address it listens on.\<close>

definition serve ::
    "(IpAddr \<times> nat \<Rightarrow> string) \<Rightarrow> (IpAddr \<times> nat \<Rightarrow> string + (IpAddr \<times> nat)) \<Rightarrow> Config \<Rightarrow> string option \<Rightarrow> nat option \<Rightarrow>
     (shell, IpAddr \<times> nat) op" where
  "serve show_addr bind config host port =
     sbind (slift (parse_listen_addr (or_default (cf_server_host config) host) (or_default (cf_server_port config) port))) (\<lambda>address.
     sbind (slift (case bind address of
         Inl err \<Rightarrow> Inl (OpsCodexError.Protocol (''failed to bind '' @ show_addr address @ '': '' @ err)) | Inr a \<Rightarrow> Inr a)) (\<lambda>actual.
     sbind (println (''OpsCodex listening on http://'' @ show_addr actual)) (\<lambda>_. sret actual)))"

section \<open>Dispatch\<close>

text \<open>
  The whole command line. \<open>build\<close> starts the runtime (\<open>build_runtime\<close> of \<open>App\<close> on an opened store), \<open>turn\<close>
  runs a prompt on it and \<open>listen\<close> serves it; the maintenance commands return before any of them.
\<close>

definition execute ::
    "cli_env \<Rightarrow> (Config \<Rightarrow> bool \<Rightarrow> (shell, 'p) op) \<Rightarrow> ('p \<Rightarrow> RunFlags \<Rightarrow> (shell, unit) op) \<Rightarrow>
     ('p \<Rightarrow> Config \<Rightarrow> string option \<Rightarrow> nat option \<Rightarrow> string \<Rightarrow> (shell, unit) op) \<Rightarrow> Cli \<Rightarrow> (shell, unit) op" where
  "execute E build turn listen cli =
     sbind (slift (load (ce_parse_url E) (ce_toml E) (ce_env E) (ce_read E) (cl_config cli))) (\<lambda>config.
     let config = apply_flags cli config;
         start = sbind (slift (validate (ce_parse_url E) config)) (\<lambda>_. build config (cl_fake_model cli))
     in case cl_command cli of
          Migrate dry_run verify \<Rightarrow> migrate_store E config dry_run verify
        | Export thread out \<Rightarrow> export_thread E config thread out
        | Doctor \<Rightarrow> doctor_command E config
        | Config Validate \<Rightarrow> validate_command_line E config
        | Storage c \<Rightarrow> storage_command E config c
        | Audit VerifyAudit \<Rightarrow> audit_command E config
        | Run flags \<Rightarrow> sbind start (\<lambda>p. turn p flags)
        | Serve host port web_dir \<Rightarrow> sbind start (\<lambda>p. listen p config host port web_dir))"

end
