(* ===== verification/StorageSafety.thy ===== *)
theory StorageSafety
  imports Storage Guarantee "HOL-Library.Multiset"
begin

text \<open>
  What holds of the files of the store: one process at a time has a store open; opening and checking a
  store keep all data and every recorded schema version; a backup is a copy that overwrites nothing.
\<close>

section \<open>What opening may change\<close>

definition file_rows :: "dbfile \<Rightarrow> (int \<times> string \<times> string) list" where
  "file_rows f = (case fl_migrations f of None \<Rightarrow> [] | Some rows \<Rightarrow> rows)"

text \<open>The same data, and every recorded version as it was.\<close>

definition grown :: "dbfile \<Rightarrow> dbfile \<Rightarrow> bool" where
  "grown f f' \<longleftrightarrow> fl_data f' = fl_data f \<and> (\<forall>v row. map_of (file_rows f) v = Some row \<longrightarrow> map_of (file_rows f') v = Some row)"

definition schema_only :: "machine \<Rightarrow> machine \<Rightarrow> bool" where
  "schema_only m m' \<longleftrightarrow> (\<forall>p. case map_of (ma_files m) p of
     Some f \<Rightarrow> (\<exists>f'. map_of (ma_files m') p = Some f' \<and> grown f f')
   | None \<Rightarrow> (case map_of (ma_files m') p of Some f' \<Rightarrow> fl_data f' = empty_db | None \<Rightarrow> True))"

definition same_locks :: "machine \<Rightarrow> machine \<Rightarrow> bool" where
  "same_locks m m' \<longleftrightarrow> ma_locks m' = ma_locks m"

lemma grown_refl: "grown f f"
  by (simp add: grown_def)

lemma grown_trans: "grown f g \<Longrightarrow> grown g h \<Longrightarrow> grown f h"
  by (simp add: grown_def)

interpretation schema: guarantee schema_only
proof
  show "schema_only m m" for m by (auto simp: schema_only_def grown_refl split: option.split)
  show "schema_only m n" if "schema_only m k" "schema_only k n" for m k n
    unfolding schema_only_def
  proof
    fix p
    have one: "case map_of (ma_files m) p of Some f \<Rightarrow> (\<exists>f'. map_of (ma_files k) p = Some f' \<and> grown f f')
        | None \<Rightarrow> (case map_of (ma_files k) p of Some f' \<Rightarrow> fl_data f' = empty_db | None \<Rightarrow> True)"
      and two: "case map_of (ma_files k) p of Some f \<Rightarrow> (\<exists>f'. map_of (ma_files n) p = Some f' \<and> grown f f')
        | None \<Rightarrow> (case map_of (ma_files n) p of Some f' \<Rightarrow> fl_data f' = empty_db | None \<Rightarrow> True)"
      using that by (auto simp: schema_only_def)
    from one two show "case map_of (ma_files m) p of Some f \<Rightarrow> (\<exists>f'. map_of (ma_files n) p = Some f' \<and> grown f f')
        | None \<Rightarrow> (case map_of (ma_files n) p of Some f' \<Rightarrow> fl_data f' = empty_db | None \<Rightarrow> True)"
      by (auto split: option.splits intro: grown_trans simp: grown_def)
  qed
qed

interpretation locks: guarantee same_locks
  by unfold_locales (simp_all add: same_locks_def)

lemma map_of_AList_update: "map_of (AList.update k v xs) p = (if p = k then Some v else map_of xs p)"
  by (simp add: update_conv')

lemma change_file_schema:
  assumes "\<And>f. grown f (g f)"
  shows "always schema_only (change_file path g)"
proof (rule alwaysI)
  fix m
  have "grown new_file (g new_file)" by (rule assms)
  then have "fl_data (g new_file) = empty_db" by (simp add: grown_def new_file_def)
  then show "schema_only m (snd (change_file path g m))"
    using assms by (auto simp: change_file_def sm_simps schema_only_def map_of_AList_update db_file_def grown_refl split: option.split)
qed

lemma change_file_locks: "always same_locks (change_file path g)"
  by (rule alwaysI) (simp add: change_file_def sm_simps same_locks_def)

lemma may_fail_keeps: "always schema_only (may_fail S call mk)" "always same_locks (may_fail S call mk)"
  by (simp_all add: may_fail_def schema.always_base locks.always_base)

lemma grown_steps: "grown f (f\<lparr>fl_second := b\<rparr>)"
  "grown f (f\<lparr>fl_migrations := Some (case fl_migrations f of None \<Rightarrow> [] | Some rows \<Rightarrow> rows)\<rparr>)"
  "grown f (f\<lparr>fl_migrations := Some ((case fl_migrations f of None \<Rightarrow> [] | Some rows \<Rightarrow> rows) @ [row])\<rparr>)"
  by (auto simp: grown_def file_rows_def map_add_Some_iff split: option.splits)

lemmas storage_steps = connect_def apply_schema_def record_or_verify_migration_def apply_if_missing_def insert_migration_def
  migration_checksum_applied_def Let_def integrity_check_def applied_schema_versions_def

lemma connect_keeps: "always schema_only (connect S path)" "always same_locks (connect S path)"
  unfolding storage_steps
  by (intro schema.always_bind schema.always_base may_fail_keeps change_file_schema schema.always_if grown_refl grown_steps
      | simp only: split: option.split | intro conjI impI allI)+
    (intro locks.always_bind locks.always_base may_fail_keeps change_file_locks locks.always_if
      | simp only: split: option.split | intro conjI impI allI)+

section \<open>Locks\<close>

lemma acquire_lock_cases:
  assumes "acquire_lock S path m = (r, m')"
  shows "ma_files m' = ma_files m"
    and "\<And>x. r = Inr x \<Longrightarrow> lock_path path \<notin> set (ma_locks m) \<and> ma_locks m' = lock_path path # ma_locks m"
    and "\<And>e. r = Inl e \<Longrightarrow> ma_locks m' = ma_locks m"
  using assms by (auto simp: acquire_lock_def may_fail_def try_exclusive_lock_def sm_simps split: option.splits if_splits)

lemma schema_only_files: "ma_files m' = ma_files m \<Longrightarrow> schema_only m m'"
  by (auto simp: schema_only_def grown_refl split: option.split)

lemma schema_only_locks:
  assumes "schema_only m n" and "ma_files n' = ma_files n"
  shows "schema_only m n'"
  using assms(1) unfolding schema_only_def assms(2) .

text \<open>An opened store holds its lock, which nobody held before; a failed attempt leaves the locks alone.\<close>

lemma open_sqlite_cases:
  assumes "open_sqlite S path m = (r, m')"
  shows "schema_only m m'"
    and "\<And>x. r = Inr x \<Longrightarrow> lock_path path \<notin> set (ma_locks m) \<and> ma_locks m' = lock_path path # ma_locks m"
    and "\<And>e. r = Inl e \<Longrightarrow> ma_locks m' = ma_locks m"
proof -
  obtain r1 m1 where lock: "acquire_lock S path m = (r1, m1)" by fastforce
  obtain r2 m2 where conn: "connect S path m1 = (r2, m2)" by fastforce
  have kept: "schema_only m1 m2" "ma_locks m2 = ma_locks m1"
    using alwaysD [OF connect_keeps(1), of m1 S path] alwaysD [OF connect_keeps(2), of m1 S path] conn
    by (simp_all add: same_locks_def)
  note first = acquire_lock_cases [OF lock]
  have files: "schema_only m m2" using schema.R_trans [OF schema_only_files [OF first(1)] kept(1)] .
  show "schema_only m m'"
    using assms files schema_only_files [OF first(1)] schema.R_refl
    by (auto simp: open_sqlite_def may_fail_def open_blocking_def sm_simps lock conn release_lock_def
        split: option.splits sum.splits intro: schema_only_locks)
  show "lock_path path \<notin> set (ma_locks m) \<and> ma_locks m' = lock_path path # ma_locks m" if "r = Inr x" for x
    using assms that first(2) kept(2)
    by (auto simp: open_sqlite_def may_fail_def open_blocking_def sm_simps lock conn split: option.splits sum.splits)
  show "ma_locks m' = ma_locks m" if "r = Inl e" for e
    using assms that first(2,3) kept(2)
    by (auto simp: open_sqlite_def may_fail_def open_blocking_def sm_simps lock conn release_lock_def split: option.splits sum.splits)
qed

lemma with_sqlite_keeps:
  assumes "always schema_only task" and "always same_locks task"
  shows "always schema_only (with_sqlite S path task)" and "always same_locks (with_sqlite S path task)"
proof -
  have both: "schema_only m (snd (with_sqlite S path task m)) \<and> same_locks m (snd (with_sqlite S path task m))" for m
  proof -
    obtain r m1 where op: "open_sqlite S path m = (r, m1)" by fastforce
    note o = open_sqlite_cases [OF op]
    obtain r2 m2 where task: "task m1 = (r2, m2)" by fastforce
    have kept: "schema_only m1 m2" "ma_locks m2 = ma_locks m1"
      using alwaysD [OF assms(1), of m1] alwaysD [OF assms(2), of m1] task by (simp_all add: same_locks_def)
    have files: "schema_only m m2" by (rule schema.R_trans [OF o(1) kept(1)])
    show ?thesis
      using o files kept(2) by (cases r) (auto simp: with_sqlite_def op task close_sqlite_def release_lock_def same_locks_def
          intro: schema_only_locks)
  qed
  show "always schema_only (with_sqlite S path task)" "always same_locks (with_sqlite S path task)"
    using both by (simp_all add: always_def)
qed

lemma checks_keep:
  "always schema_only (integrity_check S)" "always same_locks (integrity_check S)"
  "always schema_only (applied_schema_versions S path)" "always same_locks (applied_schema_versions S path)"
  by (auto simp: integrity_check_def applied_schema_versions_def
      intro!: schema.always_bind schema.always_base locks.always_bind locks.always_base may_fail_keeps)

lemma verify_store_keeps: "always schema_only (verify_store S sv path config)" "always same_locks (verify_store S sv path config)"
  by (auto simp: verify_store_def intro!: schema.always_bind schema.always_base locks.always_bind locks.always_base
      with_sqlite_keeps checks_keep)

lemma verify_audit_keeps: "always schema_only (verify_audit S path config)" "always same_locks (verify_audit S path config)"
  by (auto simp: verify_audit_def intro!: schema.always_bind schema.always_base locks.always_bind locks.always_base with_sqlite_keeps)

lemma run_doctor_keeps: "schema_only m (snd (run_doctor S sv pu path config m)) \<and> same_locks m (snd (run_doctor S sv pu path config m))"
proof (cases "path_exists path m")
  case True
  obtain a m1 where a: "verify_store S sv path config m = (a, m1)" by fastforce
  obtain b m2 where b: "verify_audit S path config m1 = (b, m2)" by fastforce
  have "schema_only m m1" "schema_only m1 m2" "same_locks m m1" "same_locks m1 m2"
    using alwaysD [OF verify_store_keeps(1), of m S sv path config] alwaysD [OF verify_store_keeps(2), of m S sv path config]
      alwaysD [OF verify_audit_keeps(1), of m1 S path config] alwaysD [OF verify_audit_keeps(2), of m1 S path config] a b by simp_all
  then show ?thesis using True a b by (auto simp: run_doctor_def intro: schema.R_trans locks.R_trans)
qed (simp add: run_doctor_def schema.R_refl locks.R_refl)

text \<open>
  Checking a store is safe. Whatever fails on the way, verifying the store, verifying the audit log and
  the doctor keep the data of every database and every recorded schema version as they were, create no
  data, and leave no lock behind.
\<close>

theorem checks_change_no_data:
  "schema_only m (snd (verify_store S show_versions path config m)) \<and> same_locks m (snd (verify_store S show_versions path config m)) \<and>
   schema_only m (snd (verify_audit S path config m)) \<and> same_locks m (snd (verify_audit S path config m)) \<and>
   schema_only m (snd (run_doctor S show_versions parse_url path config m)) \<and>
   same_locks m (snd (run_doctor S show_versions parse_url path config m))"
  using run_doctor_keeps verify_store_keeps verify_audit_keeps by (simp add: always_def)

section \<open>One process at a time\<close>

text \<open>What processes do with stores; the second part of the state lists the stores that are open.\<close>

inductive process_step :: "machine \<times> string list \<Rightarrow> machine \<times> string list \<Rightarrow> bool" where
  opened: "open_sqlite S path m = (Inr (), m') \<Longrightarrow> process_step (m, hs) (m', path # hs)"
| refused: "open_sqlite S path m = (Inl err, m') \<Longrightarrow> process_step (m, hs) (m', hs)"
| closed: "path \<in> set hs \<Longrightarrow> process_step (m, hs) (close_sqlite path m, remove1 path hs)"
| checked: "process_step (m, hs) (snd (run_doctor S sv pu path config m), hs)"
| backed_up: "process_step (m, hs) (snd (backup_store S path config dest m), hs)"

lemma backup_store_locks: "always same_locks (backup_store S path config dest)"
  unfolding backup_store_def backup_path_def prepare_backup_destination_def vacuum_into_def
  by (intro locks.always_if locks.always_bind locks.always_base may_fail_keeps)
    (auto simp: always_def sm_simps same_locks_def)

definition owned :: "machine \<times> string list \<Rightarrow> bool" where
  "owned s \<longleftrightarrow> mset (ma_locks (fst s)) = mset (map lock_path (snd s)) \<and> distinct (ma_locks (fst s))"

lemma process_step_owned: "process_step s t \<Longrightarrow> owned s \<Longrightarrow> owned t"
proof (induction rule: process_step.induct)
  case (opened S path m m' hs)
  from open_sqlite_cases(2) [OF opened(1)] opened(2) show ?case by (simp add: owned_def)
next
  case (refused S path m err m' hs)
  from open_sqlite_cases(3) [OF refused(1)] refused(2) show ?case by (simp add: owned_def)
next
  case (closed path hs m)
  then show ?case by (auto simp: owned_def close_sqlite_def release_lock_def image_mset_Diff)
next
  case (checked m hs S sv pu path config)
  then show ?case using run_doctor_keeps by (simp add: owned_def same_locks_def)
next
  case (backed_up m hs S path config dest)
  then show ?case using alwaysD [OF backup_store_locks, of m S path config dest] by (simp add: owned_def same_locks_def)
qed

text \<open>
  C15: one process at a time has a store open. However processes open, check, back up and close stores, and
  whatever fails, no two open stores share a lock, and opening a store that is open is refused.
\<close>

theorem store_is_open_once:
  assumes "process_step\<^sup>*\<^sup>* (m0, []) (m, hs)" and "ma_locks m0 = []"
  shows "distinct (map lock_path hs) \<and> (\<forall>path \<in> set hs. \<forall>S. \<exists>err. fst (open_sqlite S path m) = Inl err)"
proof -
  have "owned (m, hs)"
    using assms(1)
  proof (induction rule: rtranclp_induct)
    case base
    then show ?case using assms(2) by (simp add: owned_def)
  next
    case (step s t)
    then show ?case using process_step_owned by blast
  qed
  then have locks: "mset (ma_locks m) = mset (map lock_path hs)" and d: "distinct (ma_locks m)" by (simp_all add: owned_def)
  from locks d have "distinct (map lock_path hs)" by (metis mset_eq_imp_distinct_iff)
  moreover have "\<exists>err. fst (open_sqlite S path m) = Inl err" if "path \<in> set hs" for S path
  proof -
    obtain r m' where op: "open_sqlite S path m = (r, m')" by fastforce
    have "lock_path path \<in> set (ma_locks m)" using that locks by (metis image_eqI list.set_map set_mset_mset)
    then show ?thesis using open_sqlite_cases(2) [OF op] op by (cases r) auto
  qed
  ultimately show ?thesis by blast
qed

definition empty_machine :: machine where
  "empty_machine = \<lparr>ma_files = [], ma_locks = [], ma_paths = []\<rparr>"

definition demo_storage :: storage_env where
  "demo_storage = \<lparr>se_ext = demo_ext, se_fault = (\<lambda>_. None), se_schema = ''1'', se_schema2 = ''2'', se_now = 0,
     se_integrity = ''ok'', se_bad_references = False\<rparr>"

lemma store_is_open_once_witness:
  "\<exists>err. fst (open_sqlite demo_storage ''d/s.db'' (snd (open_sqlite demo_storage ''d/s.db'' empty_machine))) = Inl err"
proof -
  have "fst (open_sqlite demo_storage ''d/s.db'' empty_machine) = Inr ()" by code_simp
  then have "open_sqlite demo_storage ''d/s.db'' empty_machine = (Inr (), snd (open_sqlite demo_storage ''d/s.db'' empty_machine))"
    by (metis prod.collapse)
  from process_step.opened [OF this, of "[]"]
  have "process_step\<^sup>*\<^sup>* (empty_machine, []) (snd (open_sqlite demo_storage ''d/s.db'' empty_machine), [''d/s.db''])"
    by (rule r_into_rtranclp)
  from store_is_open_once [OF this] show ?thesis by (simp add: empty_machine_def)
qed

section \<open>The schema of an open store\<close>

lemma change_file_get: "db_file path (snd (change_file path g m)) = g (db_file path m)"
  by (simp add: change_file_def sm_simps db_file_def map_of_AList_update)

lemma migration_rows_file: "migration_rows path m = file_rows (db_file path m)"
  by (simp add: migration_rows_def file_rows_def)

lemma schema_only_row:
  "schema_only m m' \<Longrightarrow> map_of (migration_rows path m) v = Some row \<Longrightarrow> map_of (migration_rows path m') v = Some row"
proof -
  assume s: "schema_only m m'" and r: "map_of (migration_rows path m) v = Some row"
  from r obtain f where f: "map_of (ma_files m) path = Some f"
    by (cases "map_of (ma_files m) path") (auto simp: migration_rows_file db_file_def new_file_def file_rows_def)
  from spec [OF s [unfolded schema_only_def], of path] f
  obtain f' where "map_of (ma_files m') path = Some f'" and "grown f f'" by auto
  with r f show "map_of (migration_rows path m') v = Some row" by (cases row) (simp add: migration_rows_file db_file_def grown_def)
qed

lemma recorded_migration:
  "record_or_verify_migration S path v sql m = (Inr (), m') \<Longrightarrow>
     map_option fst (map_of (migration_rows path m') v) = Some (migration_checksum (se_ext S) sql)"
  by (auto simp: record_or_verify_migration_def migration_checksum_applied_def insert_migration_def Let_def may_fail_def sm_simps
      change_file_def migration_rows_file file_rows_def db_file_def map_of_AList_update map_add_Some_iff
      split: option.splits if_splits)

lemma applied_migration:
  "apply_if_missing S path v sql m = (Inr (), m') \<Longrightarrow>
     map_option fst (map_of (migration_rows path m') v) = Some (migration_checksum (se_ext S) sql)"
  by (auto simp: apply_if_missing_def migration_checksum_applied_def insert_migration_def Let_def may_fail_def sm_simps
      change_file_def migration_rows_file file_rows_def db_file_def map_of_AList_update map_add_Some_iff new_file_def
      split: option.splits if_splits)

lemma connect_InrD:
  assumes "connect S path m = (Inr (), m')"
  shows "map_option fst (map_of (migration_rows path m') 1) = Some (migration_checksum (se_ext S) (se_schema S))"
    and "map_option fst (map_of (migration_rows path m') 2) = Some (migration_checksum (se_ext S) (se_schema2 S))"
proof -
  from assms obtain m1 m2 where one: "record_or_verify_migration S path 1 (se_schema S) m1 = (Inr (), m2)"
      and two: "apply_if_missing S path 2 (se_schema2 S) m2 = (Inr (), m')"
    by (auto simp: connect_def apply_schema_def sbind_Inr_iff)
  show "map_option fst (map_of (migration_rows path m') 2) = Some (migration_checksum (se_ext S) (se_schema2 S))"
    by (rule applied_migration [OF two])
  have "always schema_only (apply_if_missing S path 2 (se_schema2 S))"
    unfolding storage_steps
    by (intro schema.always_bind schema.always_base may_fail_keeps change_file_schema schema.always_if grown_refl grown_steps
      | simp only: split: option.split | intro conjI impI allI)+
  then have "schema_only m2 m'" using alwaysD [of schema_only _ m2] two by fastforce
  then show "map_option fst (map_of (migration_rows path m') 1) = Some (migration_checksum (se_ext S) (se_schema S))"
    using recorded_migration [OF one] schema_only_row by auto
qed

text \<open>
  An open store has the schema of the program. When opening succeeds, the versions 1 and 2 are recorded
  with the checksums of the program, whatever was recorded before; so a file whose record differs is
  refused.
\<close>

theorem opened_store_has_known_schema:
  assumes "open_sqlite S path m = (Inr (), m')"
  shows "map_option fst (map_of (migration_rows path m') 1) = Some (migration_checksum (se_ext S) (se_schema S)) \<and>
    map_option fst (map_of (migration_rows path m') 2) = Some (migration_checksum (se_ext S) (se_schema2 S)) \<and>
    (\<forall>v row. map_of (migration_rows path m) v = Some row \<longrightarrow> map_of (migration_rows path m') v = Some row)"
proof -
  from assms obtain m1 where "open_blocking S path m1 = (Inr (), m')" by (auto simp: open_sqlite_def sbind_Inr_iff)
  then obtain m1 where "connect S path m1 = (Inr (), m')"
    unfolding open_blocking_def by (auto split: prod.splits sum.splits)
  with connect_InrD [OF this] schema_only_row [OF open_sqlite_cases(1) [OF assms]] show ?thesis by auto
qed

lemma opened_store_has_known_schema_witness:
  "map_option fst (map_of (migration_rows ''d/s.db'' (snd (open_sqlite demo_storage ''d/s.db'' empty_machine))) 2) = Some (hex ''2'')"
proof -
  have "fst (open_sqlite demo_storage ''d/s.db'' empty_machine) = Inr ()" by code_simp
  then have "open_sqlite demo_storage ''d/s.db'' empty_machine = (Inr (), snd (open_sqlite demo_storage ''d/s.db'' empty_machine))"
    by (metis prod.collapse)
  from opened_store_has_known_schema [OF this] show ?thesis
    by (simp add: demo_storage_def migration_checksum_def sha256_hex_def demo_ext_def)
qed

section \<open>Backups\<close>

lemma may_fail_run: "may_fail S call mk m = (case se_fault S call of None \<Rightarrow> (Inr (), m) | Some err \<Rightarrow> (Inl (mk err), m))"
  by (simp add: may_fail_def sm_simps split: option.split)

lemmas backup_store_run = backup_store_def backup_path_def prepare_backup_destination_def vacuum_into_def sbind_run may_fail_run
  sm_run

text \<open>
  A backup is a copy. A backup that succeeds made a new file with the schema and the data of the store,
  at a path where nothing was, and changed nothing else; one that fails changed nothing.
\<close>

theorem backup_is_a_copy:
  "case backup_store S path config dest m of
     (Inr file, m') \<Rightarrow> \<not> path_exists file m \<and> map_of (ma_files m') file = map_of (ma_files m) path \<and>
       map_of (ma_files m') file \<noteq> None \<and> map_of (ma_files m') = (map_of (ma_files m))(file \<mapsto> db_file path m) \<and>
       ma_locks m' = ma_locks m
   | (Inl err, m') \<Rightarrow> m' = m"
proof (cases "backup_store S path config dest m")
  case (Pair r m')
  show ?thesis
  proof (cases r)
    case (Inl err)
    with Pair show ?thesis unfolding backup_store_run by (auto split: option.splits if_splits)
  next
    case (Inr made)
    with Pair show ?thesis unfolding backup_store_run
      by (auto simp: db_file_def update_conv' split: option.splits if_splits)
  qed
qed

section \<open>Edges\<close>

text \<open>While a server has the store open, verifying it is refused, and so is every check of the doctor.\<close>

lemma verify_needs_the_lock:
  assumes "lock_path path \<in> set (ma_locks m)"
  shows "\<exists>err. fst (with_sqlite S path task m) = Inl err"
proof -
  obtain r m' where op: "open_sqlite S path m = (r, m')" by fastforce
  with open_sqlite_cases(2) [OF op] assms show ?thesis by (cases r) (auto simp: with_sqlite_def)
qed

text \<open>A version the program does not know does not keep it from opening the store.\<close>

lemma newer_schema_is_accepted:
  "fst (open_sqlite demo_storage ''s.db'' \<lparr>ma_files = [(''s.db'',
     \<lparr>fl_migrations = Some [(1, hex ''1'', []), (2, hex ''2'', []), (3, ''new'', [])], fl_second = True, fl_data = empty_db\<rparr>)],
     ma_locks = [], ma_paths = []\<rparr>) = Inr ()"
  by code_simp

end
