(* ===== verification/AppSafety.thy ===== *)
theory AppSafety
  imports App ToolsSafety AgentSafety
begin

text \<open>
  What holds of a program that has started: which tools its turns can get, in which workspace, and what
  its flags and its profile exclude.
\<close>

section \<open>Installing the workspaces\<close>

definition provided :: "'w start \<Rightarrow> Config \<Rightarrow> Workspace \<Rightarrow> ToolRegistry \<Rightarrow> bool" where
  "provided A config ws r \<longleftrightarrow> (\<exists>r0. workspace_registry A config ws = Inr r0 \<and> enlarged config ws r0 r)"

lemma install_workspace_InrD:
  assumes "install_workspace A config ws sofar s = (Inr il, s')"
  shows "\<exists>r. provided A config ws r \<and> il_tools il = AList.update (ws_id ws) r (il_tools sofar)"
proof -
  obtain r0 where r0: "workspace_registry A config ws = Inr r0"
    using assms by (auto simp: install_workspace_def sbind_Inr_iff ilift_def slift_def map_sum_id_Inr)
  let ?s = "s\<lparr>is_tools := r0\<rparr>"
  obtain x s1 where inst: "install_into (sa_installer A) (sa_show_url A) config ws ?s = (Inr x, s1)"
      and il: "il_tools il = AList.update (ws_id ws) (is_tools s1) (il_tools sofar)"
    using assms r0 by (auto simp: install_workspace_def sbind_Inr_iff ilift_def sm_run split: prod.splits)
  have "enlarged config ws r0 (is_tools s1)"
    using install_into_guar [of config ws "sa_installer A" "sa_show_url A"] inst
    by (auto simp: guar_def installs_def dest!: spec [of _ ?s])
  with r0 il show ?thesis by (auto simp: provided_def)
qed

lemma install_workspaces_InrD:
  "install_workspaces A config wss sofar s = (Inr il, s') \<Longrightarrow> distinct (map ws_id wss) \<Longrightarrow>
     (\<forall>ws \<in> set wss. \<exists>r. map_of (il_tools il) (ws_id ws) = Some r \<and> provided A config ws r) \<and>
     (\<forall>k. k \<notin> ws_id ` set wss \<longrightarrow> map_of (il_tools il) k = map_of (il_tools sofar) k)"
proof (induction wss arbitrary: sofar s)
  case (Cons ws wss)
  from Cons.prems(1) obtain mid s1 where one: "install_workspace A config ws sofar s = (Inr mid, s1)"
      and rest: "install_workspaces A config wss mid s1 = (Inr il, s')"
    by (auto simp: sbind_Inr_iff)
  from install_workspace_InrD [OF one] obtain r where r: "provided A config ws r"
      "il_tools mid = AList.update (ws_id ws) r (il_tools sofar)" by blast
  with Cons.IH [OF rest] Cons.prems(2) show ?case by (auto simp: update_conv')
qed (simp add: sret_def)

section \<open>The program\<close>

lemma build_runtime_InrD:
  assumes "build_runtime A config fake_model store artifacts w = Inr p"
  obtains d a cat il s model reports agent where "catalog_from_config (workspace_defaults config) = Inr cat"
    and "install_workspaces A config cat no_workspaces \<lparr>is_tools = empty_registry, is_world = w\<rparr> = (Inr il, s)"
    and "choose_model (sa_env A) config fake_model = Inr model" and "check_reasoning config model = Inr ()"
    and "recover (pg_runtime (assemble A config d a cat il model (is_world s)))
       (pg_agent (assemble A config d a cat il model (is_world s))) = (Inr reports, agent)"
    and "p = (assemble A config d a cat il model (is_world s))\<lparr>pg_agent := agent\<rparr>"
  using assms unfolding build_runtime_def Let_def
  by (auto simp: and_then_Inr_iff split: sum.splits prod.splits stop.splits)

lemma assembled_tools:
  "ro_workspace_tools (pg_runtime (assemble A config d a cat il model w)) = il_tools il"
  "ro_tools (pg_runtime (assemble A config d a cat il model w)) = default_tools A (il_tools il)"
  by (simp_all add: assemble_def with_remediation_def with_skills_def with_extensions_def with_workspaces_def
      with_artifacts_def new_runtime_def)

lemma provided_registry:
  assumes "provided A config ws r"
  shows "registry_inv r" and "reg_tools r ''promql_query'' \<noteq> None"
    and "\<And>name t. reg_tools r name = Some t \<Longrightarrow> fits config ws (rt_descriptor t) \<or>
       cd_source (rt_descriptor t) = CapabilitySource.Builtin \<and> (cd_effect (rt_descriptor t) = Observe \<or> name = ''exec'' \<and>
         cf_tools_exec config \<and> \<not> xc_production_safe (cf_extensions config))"
proof -
  from assms obtain r0 where r0: "workspace_registry A config ws = Inr r0" and e: "enlarged config ws r0 r"
    by (auto simp: provided_def)
  note built = built_registry [OF r0 [unfolded workspace_registry_def]]
  from built e show "registry_inv r" by (simp add: enlarged_def)
  from built obtain q where "reg_tools r0 ''promql_query'' = Some q" by blast
  with e have "reg_tools r ''promql_query'' = Some q" unfolding enlarged_def by (blast intro: map_le_Some)
  then show "reg_tools r ''promql_query'' \<noteq> None" by simp
  show "fits config ws (rt_descriptor t) \<or>
       cd_source (rt_descriptor t) = CapabilitySource.Builtin \<and> (cd_effect (rt_descriptor t) = Observe \<or> name = ''exec'' \<and>
         cf_tools_exec config \<and> \<not> xc_production_safe (cf_extensions config))" if t: "reg_tools r name = Some t" for name t
  proof (cases "reg_tools r0 name")
    case None
    with e t show ?thesis by (simp add: enlarged_def)
  next
    case (Some t0)
    with e have "reg_tools r name = Some t0" unfolding enlarged_def by (blast intro: map_le_Some)
    with t Some have same: "reg_tools r0 name = Some t" by simp
    with built have "cd_source (rt_descriptor t) = CapabilitySource.Builtin \<and> (cd_effect (rt_descriptor t) = Observe \<or> name = ''exec'')"
      by blast
    moreover have "cf_tools_exec config \<and> \<not> xc_production_safe (cf_extensions config)" if "name = ''exec''"
      using built same that by simp
    ultimately show ?thesis by blast
  qed
qed


definition demo_app :: "demo_world start" where
  "demo_app = \<lparr>sa_outside = demo_runtime,
     sa_installer = \<lparr>in_ext = demo_ext,
       in_os = \<lparr>os_exists = (\<lambda>_. False), os_read = (\<lambda>_ _. Inl ''none''), os_env = (\<lambda>_. None),
         os_run = (\<lambda>_ _ w. (NotStarted ''none'', w)), os_cancelled = (\<lambda>_. False), os_now = (\<lambda>w. (0, w)), os_json = (\<lambda>_. Inl ''none'')\<rparr>,
       in_io = demo_io, in_json_text = (\<lambda>_. []), in_yaml = (\<lambda>_. Inl ''none''), in_start = (\<lambda>_ _ _ w. (Inl ''none'', w)),
       in_skills = \<lparr>sf_is_symlink = (\<lambda>_. False), sf_read_to_string = (\<lambda>_. Inl ''none''), sf_yaml = (\<lambda>_. Inl ''none'')\<rparr>\<rparr>,
     sa_show_url = (\<lambda>_. []), sa_env = (\<lambda>_. None), sa_read_file = (\<lambda>_. None), sa_kube_yaml = (\<lambda>_. Inl ''none''),
     sa_runbook_yaml = (\<lambda>_. Inl ''none''), sa_read_dir = (\<lambda>_. None), sa_order = rev, sa_model = (\<lambda>_. ro_model demo_runtime),
     sa_client = None, sa_second = 1000, sa_operator = ''me''\<rparr>"

lemma demo_app_simps [simp]: "sa_client demo_app = None" "sa_env demo_app x = None" "in_ext (sa_installer demo_app) = demo_ext"
  "in_io (sa_installer demo_app) = demo_io" "sa_outside demo_app = demo_runtime"
  by (simp_all add: demo_app_def)


end
