(* ===== verification/CliSafety.thy ===== *)
theory CliSafety
  imports Cli StorageSafety AppSafety
begin

text \<open>
  What commands may change: those that look change no data and need no model; the terminal approves only
  what was asked and answered with yes.
\<close>

section \<open>Commands that look\<close>

definition keeps_files :: "machine \<Rightarrow> machine \<Rightarrow> bool" where
  "keeps_files m m' \<longleftrightarrow> (\<forall>p f. map_of (ma_files m) p = Some f \<longrightarrow> (\<exists>f'. map_of (ma_files m') p = Some f' \<and> grown f f'))"

definition untouched :: "shell \<Rightarrow> shell \<Rightarrow> bool" where
  "untouched s s' \<longleftrightarrow> keeps_files (sh_machine s) (sh_machine s') \<and> ma_locks (sh_machine s') = ma_locks (sh_machine s) \<and>
     sh_jsonl s' = sh_jsonl s \<and> sh_backups s' = sh_backups s"

interpretation untouched: guarantee untouched
proof
  show "untouched s s" for s by (auto simp: untouched_def keeps_files_def grown_refl)
  show "untouched s u" if "untouched s t" "untouched t u" for s t u
  proof -
    have "keeps_files (sh_machine s) (sh_machine u)"
      using that unfolding untouched_def keeps_files_def by (meson grown_trans)
    with that show ?thesis by (simp add: untouched_def)
  qed
qed

lemma schema_only_keeps: "schema_only m m' \<Longrightarrow> keeps_files m m'"
  by (fastforce simp: schema_only_def keeps_files_def dest: spec split: option.splits)

lemma on_machine_untouched:
  assumes "always schema_only act" and "always same_locks act"
  shows "always untouched (on_machine act)"
  using assms schema_only_keeps
  by (auto simp: always_def on_machine_def untouched_def same_locks_def split: prod.split) (metis snd_conv)+

lemma println_untouched: "always untouched (println line)"
  by (rule alwaysI) (simp add: println_def sm_simps untouched_def keeps_files_def grown_refl)

lemma run_doctor_always: "always schema_only (run_doctor S sv pu path config)" "always same_locks (run_doctor S sv pu path config)"
  using run_doctor_keeps by (auto simp: always_def)

lemma backup_untouched: "always untouched (on_machine (backup_store S path config dest))"
proof (rule alwaysI)
  fix s :: shell
  have "keeps_files (sh_machine s) (snd (backup_store S path config dest (sh_machine s)))"
    unfolding backup_store_run
    by (auto simp: keeps_files_def grown_refl path_exists_def update_conv' split: option.split)
  moreover have "ma_locks (snd (backup_store S path config dest (sh_machine s))) = ma_locks (sh_machine s)"
    using alwaysD [OF backup_store_locks, of "sh_machine s"] by (simp add: same_locks_def)
  ultimately show "untouched s (snd (on_machine (backup_store S path config dest) s))"
    by (cases "backup_store S path config dest (sh_machine s)") (simp add: on_machine_def untouched_def)
qed

lemma export_untouched: "always untouched (export_thread E config thread out)"
proof (rule alwaysI)
  fix s :: shell
  let ?path = "cli_sqlite_path E config"
  obtain r m where op: "open_sqlite (ce_storage E) ?path (sh_machine s) = (r, m)" by fastforce
  note o = open_sqlite_cases [OF op]
  show "untouched s (snd (export_thread E config thread out s))"
  proof (cases r)
    case (Inl err)
    then show ?thesis using o op schema_only_keeps [OF o(1)]
      by (simp add: export_thread_def Let_def sbind_run on_machine_def untouched_def)
  next
    case (Inr u)
    have "untouched s (snd (export_file E ?path thread out (s\<lparr>sh_machine := m\<rparr>)))"
      using o(2) [OF Inr] schema_only_keeps [OF o(1)]
      by (auto simp: export_file_def untouched_def close_sqlite_def release_lock_def keeps_files_def split: prod.split)
    moreover have "untouched t (snd (println line t))" for line t using alwaysD [OF println_untouched] .
    ultimately show ?thesis using op Inr
      by (auto simp: export_thread_def Let_def sbind_run on_machine_def split: prod.split sum.split intro: untouched.R_trans)
  qed
qed

lemma migrate_looks:
  "mo_dry_run opts \<or> mo_verify opts \<Longrightarrow> snd (migrate_jsonl_to_sqlite W f now stamp opts m) = m"
  by (auto simp: migrate_jsonl_to_sqlite_def Let_def sbind_run sm_run split: sum.split)

lemma change_file_same: "g (db_file path m) = db_file path m \<Longrightarrow> fl_data (db_file path m) = fl_data (db_file path m) \<Longrightarrow>
    keeps_files m (snd (change_file path g m))"
  by (auto simp: change_file_def sm_simps keeps_files_def map_of_AList_update db_file_def grown_refl)

lemma migrate_files_untouched:
  assumes "mo_dry_run opts \<or> mo_verify opts"
  shows "always untouched (migrate_files E config opts)"
proof (rule alwaysI)
  fix s :: shell
  let ?path = "cli_sqlite_path E config"
  obtain r m where op: "open_sqlite (ce_storage E) ?path (sh_machine s) = (r, m)" by fastforce
  note o = open_sqlite_cases [OF op]
  let ?m = "snd (change_file ?path (\<lambda>f. f\<lparr>fl_data := store_data ?path m\<rparr>) m)"
  have k1: "keeps_files m ?m" by (rule change_file_same) (simp_all add: store_data_def)
  have k2: "keeps_files (sh_machine s) m" by (rule schema_only_keeps [OF o(1)])
  from k1 k2 have "keeps_files (sh_machine s) ?m" unfolding keeps_files_def by (meson grown_trans)
  moreover have "ma_locks ?m = ma_locks m" by (simp add: change_file_def sm_simps)
  ultimately show "untouched s (snd (migrate_files E config opts s))"
    using o k2 migrate_looks [OF assms]
    by (cases r) (auto simp: migrate_files_def Let_def op untouched_def close_sqlite_def release_lock_def keeps_files_def
        grown_refl split: prod.split dest!: arg_cong [where f = snd])
qed

text \<open>The commands that look: all but running, serving, and an import that is neither dry nor verifies.\<close>

fun looks_only :: "Command \<Rightarrow> bool" where
  "looks_only (Run _) = False"
| "looks_only (Serve _ _ _) = False"
| "looks_only (Migrate dry_run verify) = (dry_run \<or> verify)"
| "looks_only _ = True"

lemma command_untouched:
  "always untouched (doctor_command E config)" "always untouched (validate_command_line E config)"
  "always untouched (audit_command E config)" "always untouched (storage_command E config c)"
  "dry_run \<or> verify \<Longrightarrow> always untouched (migrate_store E config dry_run verify)"
proof -
  show "always untouched (doctor_command E config)"
    unfolding doctor_command_def
    by (intro untouched.always_bind on_machine_untouched run_doctor_always println_untouched untouched.always_if untouched.always_base)
  show "always untouched (validate_command_line E config)"
    unfolding validate_command_line_def by (intro untouched.always_bind untouched.always_base println_untouched)
  show "always untouched (audit_command E config)"
    unfolding audit_command_def by (intro untouched.always_bind on_machine_untouched verify_audit_keeps println_untouched)
  show "always untouched (storage_command E config c)"
    by (cases c) (auto intro!: untouched.always_bind on_machine_untouched verify_store_keeps println_untouched backup_untouched
        export_untouched)
  show "always untouched (migrate_store E config dry_run verify)" if "dry_run \<or> verify"
    unfolding migrate_store_def using that
    by (intro untouched.always_bind migrate_files_untouched println_untouched)
      (auto intro: println_untouched untouched.always_base split: option.split)
qed



section \<open>The terminal\<close>

datatype terminal_act = Broadcast EventEnvelope | PollTerminal

fun terminal_run ::
    "(json \<Rightarrow> string) \<Rightarrow> (uuid \<Rightarrow> string option) \<Rightarrow> terminal_act list \<Rightarrow> EventEnvelope list \<times> terminal \<Rightarrow> EventEnvelope list \<times> terminal" where
  "terminal_run show_json answer [] s = s"
| "terminal_run show_json answer (Broadcast e # acts) (sent, t) = terminal_run show_json answer acts (sent @ [e], t)"
| "terminal_run show_json answer (PollTerminal # acts) (sent, t) =
     terminal_run show_json answer acts (sent, terminal_poll show_json answer sent t)"

definition new_terminal :: terminal where
  "new_terminal = \<lparr>tm_pos = 0, tm_open = True, tm_streaming = False, tm_out = [], tm_err = [], tm_resolved = []\<rparr>"

text \<open>What the events up to a position ask for, with the answers.\<close>

fun asked :: "RuntimeEvent \<Rightarrow> uuid list" where
  "asked (RuntimeEvent.ApprovalRequired i _ _) = [i]"
| "asked _ = []"

definition answers_to :: "(uuid \<Rightarrow> string option) \<Rightarrow> EventEnvelope list \<Rightarrow> (uuid \<times> bool) list" where
  "answers_to answer envs = map (\<lambda>i. (i, is_yes (answer i))) (concat (map (\<lambda>e. asked (env_event e)) envs))"

lemma render_resolved:
  "tm_resolved (render_event show_json answer ev t) = tm_resolved t @ map (\<lambda>i. (i, is_yes (answer i))) (asked ev)"
  "tm_open (render_event show_json answer ev t) = tm_open t" "tm_pos (render_event show_json answer ev t) = tm_pos t"
  by (induction show_json answer ev t rule: render_event.induct) (auto simp: show_line_def split: option.split)

definition terminal_inv :: "(uuid \<Rightarrow> string option) \<Rightarrow> EventEnvelope list \<times> terminal \<Rightarrow> bool" where
  "terminal_inv answer s \<longleftrightarrow> (\<exists>n. tm_resolved (snd s) = answers_to answer (take n (fst s)) \<and> n \<le> length (fst s) \<and>
     (tm_open (snd s) \<longrightarrow> n = tm_pos (snd s)))"

lemma terminal_poll_inv:
  assumes "terminal_inv answer (sent, t)"
  shows "terminal_inv answer (sent, terminal_poll show_json answer sent t)"
proof (cases "tm_open t")
  case True
  with assms have r: "tm_resolved t = answers_to answer (take (tm_pos t) sent)" "tm_pos t \<le> length sent"
    by (auto simp: terminal_inv_def)
  obtain x p where x: "receive sent (tm_pos t) = (x, p)" by fastforce
  show ?thesis
  proof (cases x)
    case Pending
    with x assms True show ?thesis by (simp add: terminal_poll_def)
  next
    case (Got e)
    with receive_Got [of sent "tm_pos t" e p] x have g: "tm_pos t < length sent" "p = tm_pos t + 1" "e = sent ! tm_pos t" by simp_all
    with x True Got r show ?thesis
      by (auto simp: terminal_poll_def terminal_inv_def render_resolved answers_to_def take_Suc_conv_app_nth)
  next
    case (Lagged k)
    with x True r show ?thesis by (auto simp: terminal_poll_def terminal_inv_def)
  qed
qed (use assms in \<open>simp add: terminal_poll_def\<close>)

lemma terminal_run_inv: "terminal_inv answer s \<Longrightarrow> terminal_inv answer (terminal_run show_json answer acts s)"
proof (induction show_json answer acts s rule: terminal_run.induct)
  case (2 show_json answer e acts sent t)
  from "2.prems" obtain n where "tm_resolved t = answers_to answer (take n sent)" "n \<le> length sent" "tm_open t \<longrightarrow> n = tm_pos t"
    by (auto simp: terminal_inv_def)
  then have "terminal_inv answer (sent @ [e], t)" unfolding terminal_inv_def by (intro exI [of _ n]) auto
  then show ?case by (simp add: "2.IH")
qed (simp_all add: terminal_poll_inv)

text \<open>
  The terminal answers for the operator only what it was asked. However events arrive, its answers are those to the
  approvals asked for in some beginning of the events, each answered once and in order, and allowed only when
  the line read for it is y or yes; a terminal that fell behind answers nothing after that.
\<close>

theorem terminal_answers_in_order:
  "\<exists>seen rest. fst (terminal_run show_json answer acts ([], new_terminal)) = seen @ rest \<and>
     tm_resolved (snd (terminal_run show_json answer acts ([], new_terminal))) = answers_to answer seen"
proof -
  have "terminal_inv answer ([], new_terminal)" by (simp add: terminal_inv_def new_terminal_def answers_to_def)
  from terminal_run_inv [OF this, of show_json acts] show ?thesis
    unfolding terminal_inv_def by (metis append_take_drop_id)
qed

text \<open>A terminal that fell behind by more than the capacity never answers again, whatever is asked.\<close>

lemma late_terminal_never_answers:
  assumes "CHANNEL_CAPACITY < length sent - tm_pos t"
  shows "tm_resolved (snd (terminal_run show_json answer acts (sent, terminal_poll show_json answer sent t))) = tm_resolved t"
proof -
  let ?t = "terminal_poll show_json answer sent t"
  have "\<not> tm_open ?t \<and> tm_resolved ?t = tm_resolved t"
    using assms by (auto simp: terminal_poll_def receive_def)
  moreover have "\<not> tm_open u \<Longrightarrow> tm_resolved (snd (terminal_run show_json answer acts (sent, u))) = tm_resolved u" for u sent
    by (induction show_json answer acts "(sent, u)" arbitrary: sent u rule: terminal_run.induct) (auto simp: terminal_poll_def)
  ultimately show ?thesis by simp
qed

end
