(* ===== verification/Telemetry.thy ===== *)
theory Telemetry
  imports Config Sse
begin

text \<open>
  The counters of the program and their page in the text format of Prometheus (\<open>src/telemetry.rs\<close>), on
  top of the counters of \<open>Agent\<close>. The lemma shows that no label of the page names a thread, a turn or an
  evidence, whatever was counted.
\<close>

section \<open>Counters\<close>

record AllMetrics = RuntimeMetrics +
  m_model_latency_ms_sum :: nat
  m_tool_latency_ms_sum :: nat
  m_sse_replay_events :: nat
  m_sse_lag_recoveries :: nat
  m_queue_waiters :: nat

definition add_counter :: "nat \<Rightarrow> nat \<Rightarrow> nat" where
  "add_counter counter value = (counter + value) mod 2 ^ 64"

definition set_queue_waiters :: "nat \<Rightarrow> AllMetrics \<Rightarrow> AllMetrics" where
  "set_queue_waiters value m = m\<lparr>m_queue_waiters := value\<rparr>"

section \<open>The page\<close>

definition metric :: "string \<Rightarrow> string \<Rightarrow> string \<Rightarrow> nat \<Rightarrow> string" where
  "metric name label value counter = name @ ''{'' @ label @ ''=\"'' @ value @ ''\"} '' @ show_nat counter"

definition metric_lines :: "AllMetrics \<Rightarrow> string list" where
  "metric_lines m =
     [''# HELP opscodex_turns_total Agent turns by terminal status.'',
      ''# TYPE opscodex_turns_total counter'',
      metric ''opscodex_turns_total'' ''status'' ''started'' (m_turns_started m),
      metric ''opscodex_turns_total'' ''status'' ''completed'' (m_turns_completed m),
      metric ''opscodex_turns_total'' ''status'' ''failed'' (m_turns_failed m),
      metric ''opscodex_turns_total'' ''status'' ''cancelled'' (m_turns_cancelled m),
      ''# HELP opscodex_model_calls_total Model completions.'',
      ''# TYPE opscodex_model_calls_total counter'',
      metric ''opscodex_model_calls_total'' ''status'' ''ok'' (m_model_calls m),
      metric ''opscodex_model_calls_total'' ''status'' ''error'' (m_model_errors m),
      ''# HELP opscodex_model_latency_ms_sum Model completion latency.'',
      ''# TYPE opscodex_model_latency_ms_sum counter'',
      ''opscodex_model_latency_ms_sum '' @ show_nat (m_model_latency_ms_sum m),
      ''# HELP opscodex_tool_calls_total Tool executions.'',
      ''# TYPE opscodex_tool_calls_total counter'',
      metric ''opscodex_tool_calls_total'' ''status'' ''ok'' (m_tool_calls m),
      metric ''opscodex_tool_calls_total'' ''status'' ''error'' (m_tool_errors m),
      ''# HELP opscodex_tool_latency_ms_sum Tool execution latency.'',
      ''# TYPE opscodex_tool_latency_ms_sum counter'',
      ''opscodex_tool_latency_ms_sum '' @ show_nat (m_tool_latency_ms_sum m),
      ''# HELP opscodex_store_appends_total Event store appends.'',
      ''# TYPE opscodex_store_appends_total counter'',
      metric ''opscodex_store_appends_total'' ''status'' ''ok'' (m_store_appends m),
      metric ''opscodex_store_appends_total'' ''status'' ''error'' (m_store_errors m),
      ''# HELP opscodex_sse_replay_events_total Events replayed to SSE clients.'',
      ''# TYPE opscodex_sse_replay_events_total counter'',
      ''opscodex_sse_replay_events_total '' @ show_nat (m_sse_replay_events m),
      ''# HELP opscodex_sse_lag_recoveries_total SSE lag recoveries from the event store.'',
      ''# TYPE opscodex_sse_lag_recoveries_total counter'',
      ''opscodex_sse_lag_recoveries_total '' @ show_nat (m_sse_lag_recoveries m),
      ''# HELP opscodex_queue_waiters Current waiters for a global turn slot.'',
      ''# TYPE opscodex_queue_waiters gauge'',
      ''opscodex_queue_waiters '' @ show_nat (m_queue_waiters m)]"

definition render_prometheus :: "AllMetrics \<Rightarrow> string" where
  "render_prometheus m = join_with [CHR 0x0A] (metric_lines m @ [[]])"

definition uses_high_cardinality_labels :: "AllMetrics \<Rightarrow> bool" where
  "uses_high_cardinality_labels m \<longleftrightarrow> (let rendered = render_prometheus m in
     str_contains ''thread_id='' rendered \<or> str_contains ''turn_id='' rendered \<or> str_contains ''evidence_id='' rendered)"

section \<open>Labels\<close>

text \<open>Every equals sign of a text comes after the letter s; \<open>c\<close> is the character before the text.\<close>

fun after_s :: "char \<Rightarrow> string \<Rightarrow> bool" where
  "after_s c [] = True"
| "after_s c (x # xs) = ((x = CHR ''='' \<longrightarrow> c = CHR ''s'') \<and> after_s x xs)"

lemma after_s_append: "after_s c (xs @ ys) \<longleftrightarrow> after_s c xs \<and> after_s (last (c # xs)) ys"
  by (induction c xs rule: after_s.induct) auto

lemma after_s_plain: "CHR ''='' \<notin> set xs \<Longrightarrow> after_s c xs"
  by (induction c xs rule: after_s.induct) auto

lemma show_nat_plain: "after_s c (show_nat n)"
proof (rule after_s_plain)
  have "\<not> is_digit_of 10 (CHR ''='')" by (simp add: is_digit_of_def digit_value_def)
  then show "CHR ''='' \<notin> set (show_nat n)" using show_nat_digits [of n] by (auto simp: list_all_iff)
qed

lemma after_s_join: "(\<And>l c. l \<in> set ls \<Longrightarrow> after_s c l) \<Longrightarrow> after_s c (join_with [CHR 0x0A] ls)"
  by (induction "[CHR 0x0A]" ls arbitrary: c rule: join_with.induct) (auto simp: after_s_append)

lemma str_contains_split: "str_contains p s \<Longrightarrow> \<exists>u v. s = u @ p @ v"
proof (induction s)
  case (Cons x s)
  show ?case
  proof (cases "starts_with p (x # s)")
    case True
    then have "x # s = [] @ p @ drop (length p) (x # s)" by (metis append_Nil append_take_drop_id starts_with_def)
    then show ?thesis by blast
  next
    case False
    with Cons obtain u v where "x # s = (x # u) @ p @ v" by auto
    then show ?thesis by blast
  qed
qed simp

lemma no_such_label: "after_s c s \<Longrightarrow> d \<noteq> CHR ''s'' \<Longrightarrow> \<not> str_contains (q @ [d, CHR ''='']) s"
  by (auto simp: after_s_append dest!: str_contains_split)

text \<open>Whatever was counted, no label of the page names a thread, a turn or an evidence.\<close>

lemma labels_are_few: "\<not> uses_high_cardinality_labels m"
proof -
  have "after_s CHR ''s'' (render_prometheus m)"
    unfolding render_prometheus_def
    by (rule after_s_join) (auto simp: metric_lines_def metric_def after_s_append show_nat_plain)
  then show ?thesis
    using no_such_label [of _ "render_prometheus m" "CHR ''d''" "''thread_i''"]
      no_such_label [of _ "render_prometheus m" "CHR ''d''" "''turn_i''"]
      no_such_label [of _ "render_prometheus m" "CHR ''d''" "''evidence_i''"]
    by (auto simp: uses_high_cardinality_labels_def Let_def)
qed

end
