(* ===== verification/Backends.thy ===== *)
theory Backends
  imports SqliteRuntime JsonlSafety
begin

text \<open>
  The interface of the runtime to its store (\<open>src/store/port.rs\<close>) as a value: the methods every store
  has, and those with a body in the trait, which a store may leave as they are. The two stores of the
  program as such values: SQLite has a method of its own for each, the JSONL store keeps the bodies of the
  trait for everything but the log. The lemmas show what a program on JSONL files does without: leases
  exclude nobody, nothing of a turn survives, and no action can be stored or run.
\<close>

section \<open>The interface\<close>

text \<open>What a call draws from outside: identifiers and times, by position, and the faults of the files.\<close>

record store_call =
  sc_ids :: "nat \<Rightarrow> uuid"
  sc_clock :: "nat \<Rightarrow> time"
  sc_now :: time
  sc_lease_id :: string
  sc_faults :: io_faults

record 's log_store =
  es_create_thread :: "store_call \<Rightarrow> uuid \<Rightarrow> workspace_id \<Rightarrow> ('s, EventEnvelope) op"
  es_append_event :: "store_call \<Rightarrow> AppendEvent \<Rightarrow> ('s, EventEnvelope) op"
  es_events_after :: "store_call \<Rightarrow> uuid \<Rightarrow> nat \<Rightarrow> ('s, EventEnvelope list) op"
  es_get_thread :: "store_call \<Rightarrow> uuid \<Rightarrow> ('s, Thread) op"
  es_get_thread_in :: "store_call \<Rightarrow> workspace_id \<Rightarrow> uuid \<Rightarrow> ('s, Thread) op"
  es_list_threads :: "store_call \<Rightarrow> ('s, ThreadSummary list) op"
  es_last_seq :: "store_call \<Rightarrow> uuid \<Rightarrow> ('s, nat) op"
  es_model_history :: "store_call \<Rightarrow> uuid \<Rightarrow> nat \<Rightarrow> ('s, ModelItem list) op"
  es_model_context :: "store_call \<Rightarrow> uuid \<Rightarrow> ContextBudget \<Rightarrow> ('s, ModelItem list) op"
  es_get_evidence :: "store_call \<Rightarrow> uuid \<Rightarrow> uuid \<Rightarrow> ('s, EvidenceMeta) op"
  es_get_evidence_in :: "store_call \<Rightarrow> workspace_id \<Rightarrow> uuid \<Rightarrow> uuid \<Rightarrow> ('s, EvidenceMeta) op"

record 's turn_store =
  es_fork_thread :: "store_call \<Rightarrow> uuid \<Rightarrow> nat \<Rightarrow> string option \<Rightarrow> ('s, EventEnvelope) op"
  es_thread_lineage :: "uuid \<Rightarrow> ('s, uuid option \<times> nat option) op"
  es_upsert_turn :: "TurnRecord \<Rightarrow> ('s, unit) op"
  es_get_turn :: "uuid \<Rightarrow> ('s, TurnRecord option) op"
  es_list_open_turns :: "('s, TurnRecord list) op"
  es_put_checkpoint :: "CheckpointRecord \<Rightarrow> ('s, unit) op"
  es_last_checkpoint :: "uuid \<Rightarrow> ('s, CheckpointRecord option) op"
  es_put_approval :: "DurableApproval \<Rightarrow> ('s, unit) op"
  es_get_approval :: "uuid \<Rightarrow> ('s, DurableApproval option) op"
  es_list_pending_approvals :: "('s, DurableApproval list) op"
  es_approval_for_turn :: "uuid \<Rightarrow> ('s, DurableApproval option) op"
  es_acquire_lease :: "store_call \<Rightarrow> uuid \<Rightarrow> uuid \<Rightarrow> string \<Rightarrow> time \<Rightarrow> ('s, Lease) op"
  es_refresh_lease :: "store_call \<Rightarrow> string \<Rightarrow> int \<Rightarrow> time \<Rightarrow> ('s, unit) op"
  es_release_lease :: "string \<Rightarrow> int \<Rightarrow> ('s, unit) op"
  es_remember_resume :: "store_call \<Rightarrow> string \<Rightarrow> uuid \<Rightarrow> string \<Rightarrow> ('s, string option) op"
  es_force_release_turn_lease :: "uuid \<Rightarrow> ('s, unit) op"

record 's action_store =
  es_put_action_plan :: "ActionPlan \<Rightarrow> ('s, unit) op"
  es_get_action :: "uuid \<Rightarrow> ('s, ActionRecord option) op"
  es_put_action :: "ActionRecord \<Rightarrow> ('s, unit) op"
  es_claim_action :: "uuid \<Rightarrow> time \<Rightarrow> ('s, ActionRecord option) op"
  es_list_actions_for_thread :: "uuid \<Rightarrow> ('s, ActionRecord list) op"
  es_list_awaiting_approval_actions :: "('s, ActionRecord list) op"
  es_list_action_recovery_candidates :: "('s, ActionRecord list) op"
  es_append_audit :: "store_call \<Rightarrow> string \<Rightarrow> string option \<Rightarrow> string \<Rightarrow> json \<Rightarrow> ('s, unit) op"
  es_list_audit :: "('s, AuditRecord list) op"

record 's event_store =
  es_log :: "'s log_store"
  es_turns :: "'s turn_store"
  es_actions :: "'s action_store"

text \<open>\<open>append\<close>: the command of a plain event.\<close>

definition es_append :: "'s event_store \<Rightarrow> store_call \<Rightarrow> uuid \<Rightarrow> uuid option \<Rightarrow> RuntimeEvent \<Rightarrow> ('s, EventEnvelope) op" where
  "es_append S c t turn ev = es_append_event (es_log S) c (new_append t turn ev)"

section \<open>The bodies of the trait\<close>

definition needs_sqlite :: "string \<Rightarrow> ('s, 'a) op" where
  "needs_sqlite what = sfail (OpsCodexError.Protocol (what @ '' the sqlite store''))"

definition default_turns :: "'s turn_store" where
  "default_turns = \<lparr>es_fork_thread = (\<lambda>_ _ _ _. needs_sqlite ''thread fork requires''),
     es_thread_lineage = (\<lambda>_. sret (None, None)),
     es_upsert_turn = (\<lambda>_. sret ()), es_get_turn = (\<lambda>_. sret None), es_list_open_turns = sret [],
     es_put_checkpoint = (\<lambda>_. sret ()), es_last_checkpoint = (\<lambda>_. sret None),
     es_put_approval = (\<lambda>_. sret ()), es_get_approval = (\<lambda>_. sret None), es_list_pending_approvals = sret [],
     es_approval_for_turn = (\<lambda>_. sret None),
     es_acquire_lease = (\<lambda>c turn t owner ttl. sret \<lparr>ls_lease_id = sc_lease_id c, ls_turn_id = turn, ls_thread_id = t,
       ls_owner_id = owner, ls_expires_at = sc_now c + ttl, ls_fencing_token = 1\<rparr>),
     es_refresh_lease = (\<lambda>_ _ _ _. sret ()), es_release_lease = (\<lambda>_ _. sret ()),
     es_remember_resume = (\<lambda>_ _ _ _. sret None), es_force_release_turn_lease = (\<lambda>_. sret ())\<rparr>"

definition default_actions :: "'s action_store" where
  "default_actions = \<lparr>es_put_action_plan = (\<lambda>_. needs_sqlite ''action plans require''), es_get_action = (\<lambda>_. sret None),
     es_put_action = (\<lambda>_. needs_sqlite ''actions require''), es_claim_action = (\<lambda>_ _. needs_sqlite ''action execution requires''),
     es_list_actions_for_thread = (\<lambda>_. sret []), es_list_awaiting_approval_actions = sret [],
     es_list_action_recovery_candidates = sret [], es_append_audit = (\<lambda>_ _ _ _ _. sret ()), es_list_audit = sret []\<rparr>"

section \<open>The two stores\<close>

definition on_conn :: "(db \<Rightarrow> 'a result) \<Rightarrow> (db, 'a) op" where
  "on_conn f = sgets f"

definition sqlite_log_methods :: "ext \<Rightarrow> db log_store" where
  "sqlite_log_methods E = \<lparr>es_create_thread = (\<lambda>c t w. create_thread E (sc_ids c 0) (sc_now c) t w),
     es_append_event = (\<lambda>c. append_event E (sc_ids c 0) (sc_now c)),
     es_events_after = (\<lambda>_ t n. on_conn (events_after E t n)),
     es_get_thread = (\<lambda>_ t. on_conn (get_thread E t)), es_get_thread_in = (\<lambda>_ w t. on_conn (get_thread_in E w t)),
     es_list_threads = (\<lambda>_. on_conn (\<lambda>d. Inr (list_threads E d))), es_last_seq = (\<lambda>_ t. on_conn (last_seq E t)),
     es_model_history = (\<lambda>_ t n. on_conn (model_history E t n)),
     es_model_context = (\<lambda>_ t b. on_conn (model_context E t b)),
     es_get_evidence = (\<lambda>_ t e. on_conn (get_evidence E t e)),
     es_get_evidence_in = (\<lambda>_ w t e. on_conn (get_evidence_in E w t e))\<rparr>"

definition sqlite_turns :: "ext \<Rightarrow> db turn_store" where
  "sqlite_turns E = \<lparr>es_fork_thread = (\<lambda>c t n title. fork_thread E (sc_ids c) (sc_clock c) (sc_now c) t n (sc_ids c 0) title),
     es_thread_lineage = (\<lambda>t. on_conn (load_lineage E t)),
     es_upsert_turn = upsert_turn, es_get_turn = (\<lambda>u. on_conn (\<lambda>d. Inr (get_turn u d))),
     es_list_open_turns = on_conn (\<lambda>d. Inr (list_open_turns d)), es_put_checkpoint = put_checkpoint,
     es_last_checkpoint = (\<lambda>u. on_conn (\<lambda>d. Inr (last_checkpoint u d))), es_put_approval = put_approval,
     es_get_approval = (\<lambda>i. on_conn (\<lambda>d. Inr (get_approval i d))),
     es_list_pending_approvals = on_conn (\<lambda>d. Inr (list_pending_approvals d)),
     es_approval_for_turn = (\<lambda>u. on_conn (\<lambda>d. Inr (approval_for_turn u d))),
     es_acquire_lease = (\<lambda>c. acquire_lease (sc_lease_id c) (sc_now c)), es_refresh_lease = (\<lambda>c. refresh_lease (sc_now c)),
     es_release_lease = release_lease, es_remember_resume = (\<lambda>c. remember_resume (sc_now c)),
     es_force_release_turn_lease = force_release_turn_lease\<rparr>"

definition sqlite_actions :: "ext \<Rightarrow> db action_store" where
  "sqlite_actions E = \<lparr>es_put_action_plan = put_action_plan, es_get_action = (\<lambda>i. on_conn (\<lambda>d. Inr (get_action i d))),
     es_put_action = put_action, es_claim_action = claim_action_for_execution E,
     es_list_actions_for_thread = (\<lambda>t. on_conn (\<lambda>d. Inr (list_actions_for_thread t d))),
     es_list_awaiting_approval_actions = on_conn (\<lambda>d. Inr (list_awaiting_approval_actions d)),
     es_list_action_recovery_candidates = on_conn (\<lambda>d. Inr (list_action_recovery_candidates d)),
     es_append_audit = (\<lambda>c. append_audit E (sc_now c)), es_list_audit = on_conn (\<lambda>d. Inr (list_audit d))\<rparr>"

definition sqlite_backend :: "ext \<Rightarrow> db event_store" where
  "sqlite_backend E = \<lparr>es_log = sqlite_log_methods E, es_turns = sqlite_turns E, es_actions = sqlite_actions E\<rparr>"

definition jsonl_log_methods :: "wire \<Rightarrow> jsonl log_store" where
  "jsonl_log_methods W = \<lparr>es_create_thread = (\<lambda>c. jsonl_create_thread W (sc_faults c) (sc_ids c 0) (sc_now c)),
     es_append_event = (\<lambda>c. jsonl_append_event W (sc_faults c) (sc_ids c 0) (sc_now c)),
     es_events_after = (\<lambda>c t n. sgets (jsonl_events_after W (sc_faults c) (sc_now c) t n)),
     es_get_thread = (\<lambda>c t. sgets (jsonl_get_thread W (sc_faults c) (sc_now c) t)),
     es_get_thread_in = (\<lambda>c w t. sgets (jsonl_get_thread_in W (sc_faults c) (sc_now c) w t)),
     es_list_threads = (\<lambda>c. sgets (jsonl_list_threads W (sc_faults c) (sc_now c))),
     es_last_seq = (\<lambda>c t. sgets (jsonl_last_seq W (sc_faults c) (sc_now c) t)),
     es_model_history = (\<lambda>c t n. sgets (jsonl_model_history W (sc_faults c) (sc_now c) t n)),
     es_model_context = (\<lambda>c t b. sgets (jsonl_model_context W (sc_faults c) (sc_now c) t b)),
     es_get_evidence = (\<lambda>c t e. sgets (jsonl_get_evidence W (sc_faults c) (sc_now c) t e)),
     es_get_evidence_in = (\<lambda>c w t e. sgets (jsonl_get_evidence_in W (sc_faults c) (sc_now c) w t e))\<rparr>"

definition jsonl_backend :: "wire \<Rightarrow> jsonl event_store" where
  "jsonl_backend W = \<lparr>es_log = jsonl_log_methods W, es_turns = default_turns, es_actions = default_actions\<rparr>"

section \<open>One log in two stores\<close>

datatype log_call = CreateCall uuid workspace_id | AppendCall AppendEvent

definition store_step :: "'s event_store \<Rightarrow> store_call \<times> log_call \<Rightarrow> ('s, EventEnvelope) op" where
  "store_step S x = (case x of
       (c, CreateCall t w) \<Rightarrow> es_create_thread (es_log S) c t w
     | (c, AppendCall cmd) \<Rightarrow> es_append_event (es_log S) c cmd)"

fun store_run :: "'s event_store \<Rightarrow> (store_call \<times> log_call) list \<Rightarrow> ('s, EventEnvelope list) op" where
  "store_run S [] = sret []"
| "store_run S (x # xs) = sbind (store_step S x) (\<lambda>e. sbind (store_run S xs) (\<lambda>es. sret (e # es)))"

lemma sqlite_create_envelope:
  "create_thread E i now t w d = (Inr e, d') \<Longrightarrow> e = with_workspace w (new_envelope i now 1 t None ThreadCreated)"
  by (auto simp: create_thread_def sm_simps Let_def transaction_do_Inr split: sum.splits prod.splits)

lemma jsonl_create_envelope:
  "jsonl_create_thread W f i now t w s = (Inr e, s') \<Longrightarrow> e = with_workspace w (new_envelope i now 1 t None ThreadCreated)"
  by (auto simp: jsonl_create_thread_def sm_simps Let_def split: sum.splits prod.splits if_splits)

lemma sqlite_append_envelope:
  assumes "store_inv d" and "append_event E i now cmd d = (Inr e, d')" and "store_log d (ap_thread_id cmd) = Some L"
  shows "e = appended_envelope i now cmd (Suc (length L)) (env_workspace_id (hd L))"
proof -
  obtain row where row: "tbl_get tr_id (ap_thread_id cmd) (db_threads d) = Some row"
      and e: "e = appended_envelope i now cmd (u64_or_zero (max_or_zero (thread_seqs (ap_thread_id cmd) d)) + 1) (tr_workspace_id row)"
    using append_event_Inr [OF assms(2)] by blast
  have L: "L = thread_log (ap_thread_id cmd) d" using assms(3) by (auto simp: store_log_def split: if_splits)
  have "valid_log (ap_thread_id cmd) (tr_workspace_id row) L"
    using assms(1) tbl_get_SomeD [OF row] by (auto simp: store_inv_def L)
  then have "tr_workspace_id row = env_workspace_id (hd L)" "length L < 2 ^ 63" by (auto simp: valid_log_def)
  moreover have "u64_or_zero (max_or_zero (thread_seqs (ap_thread_id cmd) d)) = length L"
    unfolding L by (rule next_seq [OF assms(1) row])
  ultimately show ?thesis using e by simp
qed

lemma jsonl_append_envelope:
  assumes inv: "jsonl_inv W s" and run: "jsonl_append_event W f i now cmd s = (Inr e, s')"
    and log: "jsonl_log W s (ap_thread_id cmd) = Some L"
  shows "e = next_envelope i now cmd (Suc (length L)) L"
proof -
  let ?t = "ap_thread_id cmd"
  obtain c where c: "get_file (thread_file W ?t) s = Some c" "valid_jsonl W ?t L" "log_file W L c"
    using jsonl_log_Some [OF inv log] by blast
  moreover have "codec_law W" using inv by (simp add: jsonl_inv_def)
  ultimately obtain tail where p: "parse_log W now (thread_path W ?t s) ?t c = Inr \<lparr>pl_events = L, pl_tail = tail\<rparr>"
    using parse_log_file by blast
  have read: "read_existing W f ?t s = Inr x \<Longrightarrow> x = c" for x using read_existing_Inr c(1) by fastforce
  have "next_seq W ?t L = Inr n \<Longrightarrow> n = Suc (length L)" for n
    using valid_jsonl_last [OF c(2)] by (auto simp: next_seq_def split: if_splits)
  with run p read show ?thesis
    by (auto simp: jsonl_append_event_def Let_def sm_simps split: sum.splits prod.splits)
qed

lemma same_envelope: "L \<noteq> [] \<Longrightarrow> next_envelope i now cmd n L = appended_envelope i now cmd n (env_workspace_id (hd L))"
  by (cases L) (simp_all add: next_envelope_def appended_envelope_def Let_def)

lemma store_step_same:
  assumes inv: "store_inv d" "jsonl_inv W s" and log: "store_log d = jsonl_log W s"
    and room: "log_room store_log (2 ^ 63) d (Suc k)"
    and d: "store_step (sqlite_backend E) x d = (Inr e, d')" and s: "store_step (jsonl_backend W) x s = (Inr e', s')"
  shows "e = e' \<and> store_inv d' \<and> jsonl_inv W s' \<and> store_log d' = jsonl_log W s' \<and> log_room store_log (2 ^ 63) d' k"
proof (cases x)
  case (Pair c call)
  show ?thesis
  proof (cases call)
    case (CreateCall t w)
    with Pair d s have run: "create_thread E (sc_ids c 0) (sc_now c) t w d = (Inr e, d')"
        "jsonl_create_thread W (sc_faults c) (sc_ids c 0) (sc_now c) t w s = (Inr e', s')"
      by (simp_all add: store_step_def sqlite_backend_def sqlite_log_methods_def jsonl_backend_def jsonl_log_methods_def)
    have "e = e'" using sqlite_create_envelope [OF run(1)] jsonl_create_envelope [OF run(2)] by simp
    with sqlite_log.create_works [OF inv(1) run(1)] jsonl_store.create_works [OF inv(2), of "\<lambda>_. sc_faults c", OF run(2)] log
      log_grew_room [OF _ room] log_grew_entry [of t "store_log d" e]
    show ?thesis by auto
  next
    case (AppendCall cmd)
    let ?t = "ap_thread_id cmd"
    from AppendCall Pair d s have run: "append_event E (sc_ids c 0) (sc_now c) cmd d = (Inr e, d')"
        "jsonl_append_event W (sc_faults c) (sc_ids c 0) (sc_now c) cmd s = (Inr e', s')"
      by (simp_all add: store_step_def sqlite_backend_def sqlite_log_methods_def jsonl_backend_def jsonl_log_methods_def)
    obtain L where L: "store_log d ?t = Some L" using sqlite_log.append_known [OF run(1)] by blast
    then have J: "jsonl_log W s ?t = Some L" by (simp add: log)
    have short: "Suc (length L) < 2 ^ 63" using room L by (fastforce simp: log_room_def)
    have "L \<noteq> []" using store_log_valid [OF inv(1) L] by (auto simp: valid_log_def)
    with sqlite_append_envelope [OF inv(1) run(1) L] jsonl_append_envelope [OF inv(2) run(2) J] same_envelope
    have e: "e = e'" by simp
    have "Suc (length L) < 2 ^ 64" using short by simp
    with jsonl_store.append_works [OF inv(2), of "\<lambda>_. sc_faults c", OF run(2) J]
      sqlite_log.append_works [OF inv(1) run(1) L short] log e
    have "store_inv d' \<and> jsonl_inv W s' \<and> store_log d' = jsonl_log W s' \<and> store_log d' = (store_log d)(?t \<mapsto> L @ [e])" by simp
    with e log_grew_room [OF _ room, of ?t d'] log_grew_entry [of ?t "store_log d" e] L show ?thesis by (metis option.simps(5))
  qed
qed


definition demo_call :: store_call where
  "demo_call = \<lparr>sc_ids = (\<lambda>_. 8), sc_clock = (\<lambda>_. 6), sc_now = 6, sc_lease_id = ''l'', sc_faults = no_faults\<rparr>"


section \<open>What JSONL files do without\<close>

text \<open>Nothing of a turn is kept, so no lease keeps another owner away and no fencing token ever changes.\<close>

lemma jsonl_leases_exclude_nobody:
  "es_acquire_lease (es_turns (jsonl_backend W)) c turn t owner ttl s =
     (Inr \<lparr>ls_lease_id = sc_lease_id c, ls_turn_id = turn, ls_thread_id = t, ls_owner_id = owner,
       ls_expires_at = sc_now c + ttl, ls_fencing_token = 1\<rparr>, s)"
  "es_refresh_lease (es_turns (jsonl_backend W)) c lease token ttl s = (Inr (), s)"
  by (simp_all add: jsonl_backend_def default_turns_def sret_def)

text \<open>No action can be stored or claimed.\<close>

lemma jsonl_runs_no_action:
  "fst (es_put_action (es_actions (jsonl_backend W)) a s) = Inl (OpsCodexError.Protocol ''actions require the sqlite store'')"
  "fst (es_claim_action (es_actions (jsonl_backend W)) i now s) =
     Inl (OpsCodexError.Protocol ''action execution requires the sqlite store'')"
  by (simp_all add: jsonl_backend_def default_actions_def needs_sqlite_def sfail_def)

end
