(* ===== verification/Spec2Isabelle.thy ===== *)
theory Spec2Isabelle
  imports AgentRecovery AgentBounds Migrate ServerSafety ToolsSafety ModelsSafety CliSafety Telemetry Backends
begin

text \<open>
  OpsCodex: a verification of the agent runtime and its stores.

  The program is a server that lets a language model investigate incidents with tools. A client opens a
  thread and starts a turn; the runtime asks the model, executes the tools the model calls, asks an
  operator before anything that changes the outside world, and records every step as an event of the
  thread. All state that must survive a stop is in a store: the events of each thread, and beside them
  turns, checkpoints, leases, approvals, action plans and the audit log.

  How the theories follow the code. Everything is written as functions on explicit state:
  a fallible operation is a function from a state to a result and a state (\<open>sm\<close> in \<open>Prelude\<close>), where an
  error is \<open>Inl\<close> and the state is the one the code leaves behind; a structure is a record, an
  enum a datatype, a table of the database the list of its rows. The time, fresh identifiers, the
  network, the file system, tools, the model and serde are parameters; faults of the file system are
  inputs of the operations that can meet them.

  \<^item> \<open>Prelude\<close>: results, sequencing, tables, strings as bytes, UTF-8 boundaries. \<open>Errors\<close>
    (\<open>src/error.rs\<close>): error values, JSON values, external functions. \<open>Guarantee\<close>: a locale for
    properties that every operation of a monad keeps, interpreted by the remediation and agent theories.
  \<^item> \<open>Capability\<close>, \<open>Policy\<close> (\<open>src/extensions/capability.rs\<close>, \<open>src/tools/registry.rs\<close>,
    \<open>src/policy/mod.rs\<close>): what a tool may do, what is allowed, asked or denied, and the broker that
    hands an operator's answer to the waiting call.
  \<^item> \<open>Action\<close>, \<open>Remediation\<close>, \<open>RemediationSafety\<close> (\<open>src/action\<close>, \<open>src/runtime/remediation.rs\<close>): reviewed
    changes of the outside world, their status machine, request hash, approval, execution, kill switch
    and audit chain. The lemmas show that an action is executed at most once and only as reviewed.
  \<^item> \<open>Events\<close>, \<open>Projection\<close>, \<open>Context\<close>, \<open>Continuity\<close> (\<open>src/runtime/event.rs\<close>, \<open>thread.rs\<close>, \<open>incident.rs\<close>,
    \<open>context.rs\<close>, \<open>recovery.rs\<close>, \<open>src/store/projection.rs\<close>, \<open>continuity.rs\<close>): events and their wire format,
    what a log projects to, what part of it the model sees, and how an interrupted turn is classified.
  \<^item> \<open>Port\<close> (\<open>src/store/port.rs\<close>): the interface of an event log as a locale, with the lemma that a reader
    who resumes misses nothing. \<open>SqliteStore\<close>, \<open>SqliteRuntime\<close> (\<open>src/store/sqlite.rs\<close>): threads, events and
    forks; turns, checkpoints, leases, approvals, plans, actions and audit. \<open>Jsonl\<close>, \<open>JsonlSafety\<close>
    (\<open>src/store/jsonl.rs\<close>): the store in plain files, with every partial write. Both stores interpret the
    locale on their own definitions. \<open>Backends\<close>: the trait with the bodies it has for a store of events
    only, and both stores behind it; they keep the same log. \<open>Migrate\<close> (\<open>src/store/migrate.rs\<close>): moving threads between them.
  \<^item> \<open>Http\<close>, \<open>Workspace\<close>, \<open>KubeClient\<close> (\<open>src/tools\<close>, \<open>src/workspace/mod.rs\<close>): bounded requests, retries,
    workspaces and the allow list of the Kubernetes client.
  \<^item> \<open>Redact\<close>, \<open>Evidence\<close>, \<open>Skill\<close>, \<open>Topology\<close> (\<open>src/evidence\<close>, \<open>src/extensions/skill.rs\<close>,
    \<open>src/topology.rs\<close>): what tool results go through before they are stored, what a diagnosis may cite,
    which skills a prompt selects, and the graph projected from a log.
  \<^item> \<open>Agent\<close>, \<open>AgentSafety\<close>, \<open>AgentRecovery\<close>, \<open>AgentBounds\<close> (\<open>src/runtime/agent.rs\<close>): a whole turn, from
    admission over the lease, the loop of model calls and tools with their checkpoints and approvals, to
    its end; approval decisions; recovery after a stop and resuming. The lemmas compose all of the above:
    a tool only starts when it was allowed or approved and after its checkpoint is durable, a turn that
    returns is closed, one that lost its lease stops, and recovery leaves nothing running.

  \<^item> \<open>Sse\<close>, \<open>Server\<close>, \<open>ServerSafety\<close> (\<open>src/server\<close>): the event stream of a thread, written against
    \<open>Port\<close>; every handler of the HTTP interface, the registry of active turns, and the tasks the turns run
    in. The steps of the whole server are handling a request, running a turn and ending its task; the
    lemmas hold in every reachable state: one turn for each thread, an interrupt reaches the turn it
    names, pages and streams give exactly the log.
  \<^item> \<open>Net\<close>, \<open>Config\<close> (\<open>src/config.rs\<close>, \<open>src/ops.rs\<close>): the address parsers of the standard library, the
    configuration with its defaults and validation, the address the server binds, and the doctor.
  \<^item> \<open>Extension\<close>, \<open>Mcp\<close>, \<open>Install\<close>, \<open>ExtensionSafety\<close>, \<open>InstallSafety\<close> (\<open>src/extensions\<close>): custom tools
    and the supervisor of their processes, MCP servers over pipes and HTTP, and the catalogue that
    installs both into the registry of \<open>Capability\<close>. The lemmas show what processes and requests an
    extension can cause, that framed messages are read back, and that installing keeps the registry.
  \<^item> \<open>Runbook\<close>, \<open>Tools\<close>, \<open>Builtin\<close>, \<open>ToolsSafety\<close> (\<open>src/runbook.rs\<close>, \<open>src/tools\<close>, \<open>src/app.rs\<close>): the catalogue
    of runbooks; each built-in tool with its validation, its requests or its process, and its evidence;
    their descriptors and the registry a workspace starts with. The lemmas show that only the shell can
    change anything, and that a connector only reads where it may.
  \<^item> \<open>Models\<close>, \<open>ModelsSafety\<close> (\<open>src/model\<close>): the requests to the model service, the decoder of its event
    stream and the collection of an answer, and the two local models. The lemmas show that the answer does
    not depend on how the network cuts the stream, and that answers are well formed.
  \<^item> \<open>Storage\<close>, \<open>StorageSafety\<close> (\<open>src/store/sqlite.rs\<close>, \<open>src/store/mod.rs\<close>, \<open>src/ops.rs\<close>): the files of
    the store on a machine, opening one under its lock, its schema versions, its checks and its backup. The
    lemmas show that one process at a time has a store open and that checks and backups keep the data.
  \<^item> \<open>App\<close>, \<open>AppSafety\<close>, \<open>Cli\<close>, \<open>CliSafety\<close>, \<open>Telemetry\<close> (\<open>src/app.rs\<close>, \<open>src/cli.rs\<close>,
    \<open>src/telemetry.rs\<close>): the start of the program from a configuration, the commands and the terminal, and
    the page of counters. The lemmas show which tools the turns of a started program can get, that commands
    that look change nothing, and that the terminal answers only what it was asked.

  Bounds and fuel. The loop of a turn is bounded by the number of steps of the configuration, as in the
  code; the retry loop by its number of attempts. No definition needs fuel beyond these. Sequence numbers
  are natural numbers with the casts to 64 bits written out: logs of SQLite are below \<open>2^63\<close>, logs of files
  below \<open>2^64\<close>, and the theorems that need it say so.

  What a panic of the program does is a value of its own (\<open>None\<close>, or \<open>Panicked\<close> in \<open>Agent\<close>).

  The turns and handlers are modelled on the SQLite store, which is the default; what a program on JSONL files does
  without is in \<open>Backends\<close>.

  Not modelled: SQLite itself, whose tables are lists of rows, and its connection; the dispatch of HTTP paths
  and static files; operating system processes themselves, whose outcome is a parameter;
  the decoders of the configuration file and of the arguments. They are listed
  with their reasons in the manifest. Hash collisions are never assumed away: a statement that depends on
  a hash names the collision as its other case.
\<close>

end
